(* ===== verification/Prelude.thy ===== *)
theory Prelude
  imports Main "HOL-Library.AList"
begin

text \<open>
  Shared vocabulary of the development: Python exceptions as values, insertion-ordered
  dictionaries as association lists, and the generic lemmas on both that the component
  theories use.  A Python \<^verbatim>\<open>dict\<close> is a list of pairs with distinct keys in insertion order:
  \<^verbatim>\<open>d[k] = v\<close> is \<open>AList.update\<close> (in place for a key that is present, at the end
  otherwise), \<^verbatim>\<open>del d[k]\<close> and \<^verbatim>\<open>d.pop(k, None)\<close> are \<open>AList.delete\<close>,
  \<^verbatim>\<open>d.get(k)\<close> is \<open>map_of\<close>.  Times are microseconds since the epoch, as \<open>int\<close>; every
  operation that reads the clock takes the value read as an argument.
\<close>

section \<open>Exceptions as values\<close>

text \<open>
  The exception classes the modelled code raises.  The string is the constant part of the
  message; an \<open>HTTPException\<close> carries its status code.
\<close>

datatype pyexn =
    ValueError string
  | RuntimeError string
  | AttributeError string
  | TypeError string
  | StructError
  | AddressValueError
  | NetmaskValueError
  | IntegrityError
  | QEMUError string
  | VFIOBindError string
  | VMCreationError string
  | FileNotFoundError string
  | DockerError string
  | HTTPException int string

type_synonym 'a res = "pyexn + 'a"

definition bind_res :: "'a res \<Rightarrow> ('a \<Rightarrow> 'b res) \<Rightarrow> 'b res" where
  "bind_res m f = (case m of Inl e \<Rightarrow> Inl e | Inr x \<Rightarrow> f x)"

lemma bind_res_simps [simp]:
  "bind_res (Inl e) f = Inl e"
  "bind_res (Inr x) f = f x"
  by (simp_all add: bind_res_def)

lemma bind_res_Inr_iff:
  "bind_res m f = Inr y \<longleftrightarrow> (\<exists>x. m = Inr x \<and> f x = Inr y)"
  by (cases m) auto

text \<open>The comprehension \<^verbatim>\<open>[f(x) for x in xs]\<close> where \<open>f\<close> may raise: the first exception wins.\<close>

fun map_res :: "('a \<Rightarrow> 'b res) \<Rightarrow> 'a list \<Rightarrow> 'b list res" where
  "map_res f [] = Inr []"
| "map_res f (x # xs) = bind_res (f x) (\<lambda>y. bind_res (map_res f xs) (\<lambda>ys. Inr (y # ys)))"

section \<open>Insertion-ordered dictionaries\<close>

type_synonym ('k, 'v) dict = "('k \<times> 'v) list"

definition dict_ok :: "('k, 'v) dict \<Rightarrow> bool" where
  "dict_ok d \<longleftrightarrow> distinct (map fst d)"

abbreviation dict_keys :: "('k, 'v) dict \<Rightarrow> 'k list" where
  "dict_keys d \<equiv> map fst d"

abbreviation dict_values :: "('k, 'v) dict \<Rightarrow> 'v list" where
  "dict_values d \<equiv> map snd d"

named_theorems dict_simps \<open>lookups and keys after an update or a deletion\<close>

lemma dict_ok_Nil [simp, intro]: "dict_ok []"
  by (simp add: dict_ok_def)

lemma dict_ok_update [simp, intro]: "dict_ok d \<Longrightarrow> dict_ok (AList.update k v d)"
  by (simp add: dict_ok_def distinct_update)

lemma dict_ok_delete [simp, intro]: "dict_ok d \<Longrightarrow> dict_ok (AList.delete k d)"
  by (simp add: dict_ok_def distinct_delete)

lemma get_update [dict_simps]: "map_of (AList.update k v d) k' = (if k' = k then Some v else map_of d k')"
  by (simp add: update_conv')

lemma get_delete [dict_simps]: "map_of (AList.delete k d) k' = (if k' = k then None else map_of d k')"
  by (simp add: delete_conv')

lemma keys_update [dict_simps]: "set (dict_keys (AList.update k v d)) = insert k (set (dict_keys d))"
  using dom_update [of k v d] by (simp add: dom_map_of_conv_image_fst)

lemma keys_delete [dict_simps]: "set (dict_keys (AList.delete k d)) = set (dict_keys d) - {k}"
  by (metis delete_keys set_removeAll removeAll_filter_not_eq)

lemma item_get: "dict_ok d \<Longrightarrow> (k, v) \<in> set d \<longleftrightarrow> map_of d k = Some v"
  by (auto simp: dict_ok_def dest: map_of_SomeD)

lemma get_item: "map_of d k = Some v \<Longrightarrow> (k, v) \<in> set d"
  by (rule map_of_SomeD)

lemma values_get: "dict_ok d \<Longrightarrow> v \<in> set (dict_values d) \<longleftrightarrow> (\<exists>k. map_of d k = Some v)"
  by (force simp: item_get [symmetric])

lemma items_delete: "set (AList.delete k d) = {kv \<in> set d. fst kv \<noteq> k}"
  by (auto simp: AList.delete_eq)

lemma filter_dict_ok [simp, intro]: "dict_ok d \<Longrightarrow> dict_ok (filter P d)"
  by (simp add: dict_ok_def distinct_map_filter)

lemma get_filter: "dict_ok d \<Longrightarrow>
  map_of (filter P d) k = (case map_of d k of None \<Rightarrow> None | Some v \<Rightarrow> if P (k, v) then Some v else None)"
proof (induction d)
  case (Cons p d)
  then show ?case
    by (cases p; cases "P p") (auto simp: dict_ok_def map_of_eq_None_iff image_iff split: option.splits)
qed simp

lemma length_update: "dict_ok d \<Longrightarrow>
  length (AList.update k v d) = (if k \<in> set (dict_keys d) then length d else Suc (length d))"
proof (induction d)
  case (Cons p d)
  then show ?case by (cases p) (auto simp: dict_ok_def)
qed simp

section \<open>Tables\<close>

text \<open>A dictionary of rows filed under their own key.\<close>

definition keyed :: "('v \<Rightarrow> 'k) \<Rightarrow> ('k, 'v) dict \<Rightarrow> bool" where
  "keyed key d \<longleftrightarrow> dict_ok d \<and> (\<forall>k v. map_of d k = Some v \<longrightarrow> key v = k)"

lemma keyed_Nil [simp]: "keyed key []"
  by (simp add: keyed_def)

lemma keyed_update [simp, intro]: "keyed key d \<Longrightarrow> key v = k \<Longrightarrow> keyed key (AList.update k v d)"
  by (simp add: keyed_def get_update)

lemma keyed_delete [simp, intro]: "keyed key d \<Longrightarrow> keyed key (AList.delete k d)"
  by (simp add: keyed_def get_delete)

lemma keyed_filter: "keyed key d \<Longrightarrow> keyed key (filter P d)"
  by (auto simp: keyed_def get_filter split: option.splits if_splits)

lemma map_of_map_values: "map_of (map (\<lambda>(k, v). (k, f v)) d) k = map_option f (map_of d k)"
  by (induction d) auto

lemma keyed_map_values: "keyed key d \<Longrightarrow> (\<And>v. key (f v) = key v) \<Longrightarrow> keyed key (map (\<lambda>(k, v). (k, f v)) d)"
  by (auto simp: keyed_def map_of_map_values dict_ok_def case_prod_beta comp_def)

lemma keyed_get: "keyed key d \<Longrightarrow> map_of d k = Some v \<Longrightarrow> key v = k"
  by (simp add: keyed_def)

text \<open>Looking a row up by another column whose values are unique in the table.\<close>

lemma find_row:
  assumes "keyed key d" "find P (dict_values d) = Some v"
  shows "map_of d (key v) = Some v \<and> P v"
proof -
  from assms(2) have "v \<in> set (dict_values d)" "P v" by (auto simp: find_Some_iff)
  then obtain k where "(k, v) \<in> set d" by auto
  with assms(1) have k: "map_of d k = Some v" by (simp add: keyed_def item_get)
  with assms(1) have "key v = k" by (rule keyed_get)
  with k \<open>P v\<close> show ?thesis by simp
qed

lemma find_row_unique:
  assumes "keyed key d" "map_of d k = Some v" "P v"
    "\<And>k' v'. map_of d k' = Some v' \<Longrightarrow> P v' \<Longrightarrow> v' = v"
  shows "find P (dict_values d) = Some v"
proof (cases "find P (dict_values d)")
  case None
  moreover have "v \<in> set (dict_values d)" using get_item [OF assms(2)] by force
  ultimately show ?thesis using assms(3) by (auto simp: find_None_iff)
next
  case (Some v')
  with find_row [OF assms(1) Some] assms(4) show ?thesis by auto
qed

lemma keyed_values:
  assumes "keyed key d"
  shows "v \<in> set (dict_values d) \<longleftrightarrow> map_of d (key v) = Some v"
proof
  assume "v \<in> set (dict_values d)"
  then obtain k where "(k, v) \<in> set d" by auto
  with assms have k: "map_of d k = Some v" by (simp add: keyed_def item_get)
  with keyed_get [OF assms k] show "map_of d (key v) = Some v" by simp
next
  assume "map_of d (key v) = Some v"
  from get_item [OF this] show "v \<in> set (dict_values d)" by force
qed

lemma keyed_keys: "keyed key d \<Longrightarrow> map key (dict_values d) = dict_keys d"
  by (auto simp: keyed_def item_get intro!: map_cong)

section \<open>Lists\<close>

lemma filter_eq_self: "(\<And>x. x \<in> set xs \<Longrightarrow> P x) \<Longrightarrow> filter P xs = xs"
  by (simp add: filter_id_conv)

lemma mod_index: "xs \<noteq> [] \<Longrightarrow> xs ! (r mod length xs) \<in> set xs"
  by (simp add: nth_mem)

section \<open>Operations with a state and exceptions\<close>

text \<open>
  An operation that may raise after it has changed the state returns both the outcome and the
  state it leaves behind, as a Python method that raises halfway does.
\<close>

type_synonym ('s, 'a) st = "'s \<Rightarrow> 'a res \<times> 's"

definition bind_st :: "('s, 'a) st \<Rightarrow> ('a \<Rightarrow> ('s, 'b) st) \<Rightarrow> ('s, 'b) st" where
  "bind_st m f = (\<lambda>s. case m s of (Inl e, s') \<Rightarrow> (Inl e, s') | (Inr x, s') \<Rightarrow> f x s')"

definition return_st :: "'a \<Rightarrow> ('s, 'a) st" where
  "return_st x = (\<lambda>s. (Inr x, s))"

definition raise_st :: "pyexn \<Rightarrow> ('s, 'a) st" where
  "raise_st e = (\<lambda>s. (Inl e, s))"

definition lift_res :: "'a res \<Rightarrow> ('s, 'a) st" where
  "lift_res r = (\<lambda>s. (r, s))"

lemmas st_defs = bind_st_def return_st_def raise_st_def lift_res_def

section \<open>Machines and their invariants\<close>

text \<open>
  A component whose operations are the events of a deterministic machine.  An invariant that
  holds at the start and that every event keeps holds after every sequence of events; a
  property of one event that holds from every good state holds of each event of a run.
\<close>

locale machine =
  fixes init :: "'s \<Rightarrow> bool"
    and step :: "'e \<Rightarrow> 's \<Rightarrow> 's"
    and inv :: "'s \<Rightarrow> bool"
  assumes inv_init: "init s \<Longrightarrow> inv s"
    and inv_step: "inv s \<Longrightarrow> inv (step e s)"
begin

lemma run_keeps: "inv s \<Longrightarrow> inv (fold step es s)"
  by (induction es arbitrary: s) (auto intro: inv_step)

lemma run_inv: "init s \<Longrightarrow> inv (fold step es s)"
  by (intro run_keeps inv_init)

end

text \<open>
  A property that every event keeps, except the events that may end it: it holds until the
  first of them.
\<close>

locale guarded_machine = machine init step inv
  for init :: "'s \<Rightarrow> bool" and step :: "'e \<Rightarrow> 's \<Rightarrow> 's" and inv :: "'s \<Rightarrow> bool" +
  fixes keeps :: "'e \<Rightarrow> bool"
    and held :: "'s \<Rightarrow> bool"
  assumes held_step: "inv s \<Longrightarrow> held s \<Longrightarrow> keeps e \<Longrightarrow> held (step e s)"
begin

lemma run_held: "inv s \<Longrightarrow> held s \<Longrightarrow> list_all keeps es \<Longrightarrow> held (fold step es s)"
  by (induction es arbitrary: s) (auto intro: held_step inv_step)

end

end
