(* ===== verification/Tunnel_Protocol.thy ===== *)
theory Tunnel_Protocol
  imports Prelude "HOL-Library.Word"
begin

text \<open>
  The wire format of the tunnel (\<^verbatim>\<open>tunnel/protocol.py\<close>): an 8-byte big-endian header
  (type, protocol, client id, port) in front of the payload.  Python integers are \<open>int\<close>,
  bytes are \<open>8 word\<close>; \<^verbatim>\<open>struct.pack\<close> refuses a field that does not fit its width with
  \<open>StructError\<close>.  Shown: both round trips, and exactly which headers can be built.
\<close>

type_synonym bytes = "8 word list"

section \<open>Message and protocol types\<close>

definition MSG_CONNECT :: int where "MSG_CONNECT = 1"
definition MSG_CONNECTED :: int where "MSG_CONNECTED = 2"
definition MSG_DATA :: int where "MSG_DATA = 3"
definition MSG_CLOSE :: int where "MSG_CLOSE = 4"
definition MSG_ERROR :: int where "MSG_ERROR = 5"
definition MSG_PING :: int where "MSG_PING = 6"
definition MSG_PONG :: int where "MSG_PONG = 7"
definition PROTO_TCP :: int where "PROTO_TCP = 0"
definition PROTO_UDP :: int where "PROTO_UDP = 1"
definition HEADER_SIZE :: nat where "HEADER_SIZE = 8"

lemmas msg_defs = MSG_CONNECT_def MSG_CONNECTED_def MSG_DATA_def MSG_CLOSE_def MSG_ERROR_def
  MSG_PING_def MSG_PONG_def

section \<open>Big-endian integers of a fixed number of bytes\<close>

fun be_encode :: "nat \<Rightarrow> nat \<Rightarrow> bytes" where
  "be_encode 0 v = []"
| "be_encode (Suc n) v = be_encode n (v div 256) @ [word_of_nat v]"

definition be_decode :: "bytes \<Rightarrow> nat" where
  "be_decode bs = foldl (\<lambda>a b. a * 256 + unat b) 0 bs"

lemma be_decode_snoc [simp]: "be_decode (bs @ [b]) = be_decode bs * 256 + unat b"
  by (simp add: be_decode_def)

lemma be_decode_Nil [simp]: "be_decode [] = 0"
  by (simp add: be_decode_def)

lemma length_be_encode [simp]: "length (be_encode n v) = n"
  by (induction n arbitrary: v) auto

lemma be_decode_encode: "v < 256 ^ n \<Longrightarrow> be_decode (be_encode n v) = v"
proof (induction n arbitrary: v)
  case (Suc n)
  have "v div 256 < 256 ^ n" using Suc.prems by (simp add: less_mult_imp_div_less mult.commute)
  then have "be_decode (be_encode n (v div 256)) = v div 256" by (rule Suc.IH)
  moreover have "unat (word_of_nat v :: 8 word) = v mod 256"
    by (simp add: unat_of_nat)
  ultimately show ?case by simp
qed simp

lemma be_decode_bound: "be_decode bs < 256 ^ length bs"
proof (induction bs rule: rev_induct)
  case (snoc b bs)
  have "unat b < 256" using unsigned_less [of b] by simp
  with snoc show ?case by simp
qed simp

lemma be_encode_decode: "be_encode (length bs) (be_decode bs) = bs"
proof (induction bs rule: rev_induct)
  case (snoc b bs)
  have b: "unat b < 256" using unsigned_less [of b] by simp
  then have "(be_decode bs * 256 + unat b) div 256 = be_decode bs" by simp
  moreover have "word_of_nat (be_decode bs * 256 + unat b) = b"
  proof -
    have "(256 :: 8 word) = 0" by simp
    then have "(word_of_nat (be_decode bs) :: 8 word) * 256 + b = b" by (simp only: mult_zero_right add_0)
    then show ?thesis by simp
  qed
  ultimately show ?case using snoc by simp
qed simp

section \<open>Building and parsing messages\<close>

record tunnel_header =
  msg_type :: int
  proto :: int
  client_id :: int
  port :: int

definition in_range :: "nat \<Rightarrow> int \<Rightarrow> bool" where
  "in_range n v \<longleftrightarrow> 0 \<le> v \<and> v < 256 ^ n"

text \<open>\<^verbatim>\<open>struct.pack(">BBIH", ...)\<close> followed by the payload.\<close>

definition build_message :: "int \<Rightarrow> int \<Rightarrow> int \<Rightarrow> int \<Rightarrow> bytes \<Rightarrow> bytes res" where
  "build_message t p c prt payload =
     (if in_range 1 t \<and> in_range 1 p \<and> in_range 4 c \<and> in_range 2 prt
      then Inr (be_encode 1 (nat t) @ be_encode 1 (nat p) @ be_encode 4 (nat c)
                @ be_encode 2 (nat prt) @ payload)
      else Inl StructError)"

definition parse_header :: "bytes \<Rightarrow> tunnel_header option" where
  "parse_header bs =
     (if length bs < HEADER_SIZE then None
      else let h = take HEADER_SIZE bs in
        Some \<lparr>msg_type = int (be_decode (take 1 h)),
              proto = int (be_decode (take 1 (drop 1 h))),
              client_id = int (be_decode (take 4 (drop 2 h))),
              port = int (be_decode (take 2 (drop 6 h)))\<rparr>)"

definition get_payload :: "bytes \<Rightarrow> bytes" where
  "get_payload bs = (if length bs > HEADER_SIZE then drop HEADER_SIZE bs else [])"

definition header_ok :: "tunnel_header \<Rightarrow> bool" where
  "header_ok h \<longleftrightarrow> in_range 1 (msg_type h) \<and> in_range 1 (proto h) \<and> in_range 4 (client_id h)
                 \<and> in_range 2 (port h)"

section \<open>Lemmas\<close>

lemma in_range_decode: "in_range n v \<Longrightarrow> int (be_decode (be_encode n (nat v))) = v"
proof -
  assume v: "in_range n v"
  have "(256::int) ^ n = int (256 ^ n)" by simp
  with v have "nat v < 256 ^ n" unfolding in_range_def by linarith
  with v show ?thesis by (simp add: be_decode_encode in_range_def)
qed

lemma decode_in_range: "length bs = n \<Longrightarrow> in_range n (int (be_decode bs))"
proof -
  assume n: "length bs = n"
  have "int (be_decode bs) < int (256 ^ n)" using be_decode_bound [of bs] n by (simp only: of_nat_less_iff)
  then show ?thesis by (simp add: in_range_def)
qed

lemma build_message_length:
  "build_message t p c prt payload = Inr bs \<Longrightarrow> length bs = HEADER_SIZE + length payload"
  by (auto simp: build_message_def HEADER_SIZE_def split: if_splits)

lemma get_payload_eq: "get_payload bs = drop HEADER_SIZE bs"
  by (simp add: get_payload_def)

lemma take_append_exact: "length xs = n \<Longrightarrow> take n (xs @ ys) = xs"
  by simp

lemma build_message_parse_header:
  assumes "build_message t p c prt payload = Inr bs"
  shows "parse_header bs = Some \<lparr>msg_type = t, proto = p, client_id = c, port = prt\<rparr>"
    and "get_payload bs = payload"
proof -
  let ?a = "be_encode 1 (nat t)" and ?b = "be_encode 1 (nat p)"
    and ?c = "be_encode 4 (nat c)" and ?d = "be_encode 2 (nat prt)"
  from assms have r: "in_range 1 t" "in_range 1 p" "in_range 4 c" "in_range 2 prt"
    and bs: "bs = ?a @ ?b @ ?c @ ?d @ payload"
    by (auto simp: build_message_def split: if_splits)
  have h: "take HEADER_SIZE bs = ?a @ ?b @ ?c @ ?d" and l: "HEADER_SIZE \<le> length bs"
    by (simp_all add: bs HEADER_SIZE_def del: be_encode.simps One_nat_def)
  show "parse_header bs = Some \<lparr>msg_type = t, proto = p, client_id = c, port = prt\<rparr>"
    using l r by (simp add: parse_header_def h Let_def in_range_decode del: be_encode.simps One_nat_def)
  show "get_payload bs = payload"
    by (simp add: get_payload_eq bs HEADER_SIZE_def del: be_encode.simps One_nat_def)
qed

lemma parse_header_ok: "parse_header bs = Some h \<Longrightarrow> header_ok h"
  by (auto simp: parse_header_def header_ok_def Let_def HEADER_SIZE_def not_less
      intro!: decode_in_range split: if_splits)

lemma split_header:
  assumes "length h = 8"
  shows "take 1 h @ take 1 (drop 1 h) @ take 4 (drop 2 h) @ take 2 (drop 6 h) = h"
proof -
  have "take 2 (drop 6 h) = drop 6 h" using assms by simp
  moreover have "take 4 (drop 2 h) @ drop 6 h = drop 2 h"
    using append_take_drop_id [of 4 "drop 2 h"] by simp
  moreover have "take 1 (drop 1 h) @ drop 2 h = drop 1 h"
    using append_take_drop_id [of 1 "drop 1 h"] by (simp add: numeral_2_eq_2)
  ultimately show ?thesis by simp
qed

lemma parse_header_build_message:
  assumes "parse_header bs = Some h"
  shows "build_message (msg_type h) (proto h) (client_id h) (port h) (get_payload bs) = Inr bs"
proof -
  let ?h = "take 8 bs"
  from assms have l: "8 \<le> length bs" and h: "h = \<lparr>msg_type = int (be_decode (take 1 ?h)),
      proto = int (be_decode (take 1 (drop 1 ?h))), client_id = int (be_decode (take 4 (drop 2 ?h))),
      port = int (be_decode (take 2 (drop 6 ?h)))\<rparr>"
    by (auto simp: parse_header_def HEADER_SIZE_def Let_def split: if_splits)
  have e: "be_encode n (be_decode xs) = xs" if "length xs = n" for n xs
    using be_encode_decode [of xs] that by simp
  have "take 1 ?h @ take 1 (drop 1 ?h) @ take 4 (drop 2 ?h) @ take 2 (drop 6 ?h) @ drop 8 bs = bs"
  proof -
    have "length ?h = 8" using l by simp
    then have "(take 1 ?h @ take 1 (drop 1 ?h) @ take 4 (drop 2 ?h) @ take 2 (drop 6 ?h)) @ drop 8 bs = bs"
      by (simp only: split_header append_take_drop_id)
    then show ?thesis by (simp only: append_assoc)
  qed
  moreover have "be_encode 1 (be_decode (take 1 ?h)) = take 1 ?h"
    "be_encode 1 (be_decode (take 1 (drop 1 ?h))) = take 1 (drop 1 ?h)"
    "be_encode 4 (be_decode (take 4 (drop 2 ?h))) = take 4 (drop 2 ?h)"
    "be_encode 2 (be_decode (take 2 (drop 6 ?h))) = take 2 (drop 6 ?h)"
    using l by (auto intro!: e simp del: be_encode.simps)
  moreover have "get_payload bs = drop 8 bs" by (simp add: get_payload_eq HEADER_SIZE_def)
  moreover have "header_ok h" using assms by (rule parse_header_ok)
  ultimately show ?thesis
    by (simp only: build_message_def header_ok_def h tunnel_header.simps nat_int if_True HOL.simp_thms)
qed

end
