(* ===== verification/Py_Strings.thy ===== *)
theory Py_Strings
  imports Prelude "HOL-Library.Sublist"
begin

text \<open>
  The string operations of Python the modelled code uses: \<^verbatim>\<open>str(n)\<close>, \<^verbatim>\<open>int(s, base)\<close>,
  \<^verbatim>\<open>s.split(c)\<close>, \<^verbatim>\<open>s.strip()\<close>, \<^verbatim>\<open>s.startswith(p)\<close>, \<^verbatim>\<open>s.isalnum()\<close> and
  \<^verbatim>\<open>s.lower()\<close>, on strings of ASCII characters.  The main facts are the round trips
  \<open>int_of_str_str_of_int\<close> and \<open>split_on_join\<close>.
\<close>

section \<open>Digits\<close>

text \<open>The character at position \<open>n mod 36\<close> of \<open>0-9a-z\<close>.\<close>

definition digit_char :: "nat \<Rightarrow> char" where
  "digit_char n = char_of (if n mod 36 < 10 then 48 + n mod 36 else 87 + n mod 36)"

definition is_space :: "char \<Rightarrow> bool" where
  "is_space c = (of_char c \<in> {9, 10, 11, 12, 13, 28, 29, 30, 31, 32 :: nat})"

text \<open>The value of a digit in \<^verbatim>\<open>int(s, base)\<close>; letters in either case.\<close>

definition digit_val :: "nat \<Rightarrow> char \<Rightarrow> nat option" where
  "digit_val b c =
     (let n = of_char c :: nat;
          v = (if 48 \<le> n \<and> n \<le> 57 then n - 48
               else if 97 \<le> n \<and> n \<le> 122 then n - 87
               else if 65 \<le> n \<and> n \<le> 90 then n - 55
               else 36)
      in if v < b then Some v else None)"

lemma of_char_digit_char: "of_char (digit_char n) = (if n mod 36 < 10 then 48 + n mod 36 else 87 + n mod 36)"
proof -
  have "n mod 36 < 36" by simp
  then have "(if n mod 36 < 10 then 48 + n mod 36 else 87 + n mod 36) < 256" by auto
  then show ?thesis by (simp add: digit_char_def)
qed

lemma digit_val_digit_char [simp]: "n < b \<Longrightarrow> b \<le> 36 \<Longrightarrow> digit_val b (digit_char n) = Some n"
  by (simp add: digit_val_def of_char_digit_char)

lemma digit_char_neq:
  "of_char c < (48 :: nat) \<or> (57 < (of_char c :: nat) \<and> of_char c < (97 :: nat)) \<Longrightarrow> digit_char n \<noteq> c"
  using of_char_digit_char [of n] by (auto split: if_splits)

lemma digit_char_not_special [simp]:
  "digit_char n \<noteq> CHR ''_''" "digit_char n \<noteq> CHR ''+''" "digit_char n \<noteq> CHR ''-''"
  "digit_char n \<noteq> CHR ''.''" "digit_char n \<noteq> CHR ''/''" "digit_char n \<noteq> CHR '':''"
  by (rule digit_char_neq, simp add: of_char_def)+

lemma digit_char_not_space [simp]: "\<not> is_space (digit_char n)"
  by (auto simp: is_space_def of_char_digit_char)

text \<open>The digits of \<open>n\<close> in base \<open>b\<close>, most significant first.\<close>

fun digits_of :: "nat \<Rightarrow> nat \<Rightarrow> string" where
  "digits_of b n = (if b < 2 \<or> n < b then [digit_char n] else digits_of b (n div b) @ [digit_char (n mod b)])"

declare digits_of.simps [simp del]

lemma digits_of_nonempty [simp]: "digits_of b n \<noteq> []"
  by (subst digits_of.simps) simp

definition str_of_nat :: "nat \<Rightarrow> string" where
  "str_of_nat n = digits_of 10 n"

definition str_of_int :: "int \<Rightarrow> string" where
  "str_of_int i = (if i < 0 then CHR ''-'' # str_of_nat (nat (- i)) else str_of_nat (nat i))"

section \<open>Parsing integers\<close>

definition strip :: "string \<Rightarrow> string" where
  "strip s = rev (dropWhile is_space (rev (dropWhile is_space s)))"

text \<open>After a first digit: further digits, with single underscores between digits.\<close>

fun parse_more :: "nat \<Rightarrow> nat \<Rightarrow> string \<Rightarrow> nat option" where
  "parse_more b acc [] = Some acc"
| "parse_more b acc (c # cs) =
     (if c = CHR ''_''
      then (case cs of [] \<Rightarrow> None
            | d # ds \<Rightarrow> (case digit_val b d of None \<Rightarrow> None | Some v \<Rightarrow> parse_more b (acc * b + v) ds))
      else (case digit_val b c of None \<Rightarrow> None | Some v \<Rightarrow> parse_more b (acc * b + v) cs))"

fun parse_nat :: "nat \<Rightarrow> string \<Rightarrow> nat option" where
  "parse_nat b [] = None"
| "parse_nat b (c # cs) = (case digit_val b c of None \<Rightarrow> None | Some v \<Rightarrow> parse_more b v cs)"

text \<open>\<^verbatim>\<open>int(s, base)\<close>; \<open>None\<close> is \<^verbatim>\<open>ValueError\<close>.  No base prefix is accepted in bases 10 and 36.\<close>

definition int_of_str :: "nat \<Rightarrow> string \<Rightarrow> int option" where
  "int_of_str b s =
     (case strip s of
        [] \<Rightarrow> None
      | c # cs \<Rightarrow>
          if c = CHR ''-'' then map_option (\<lambda>n. - int n) (parse_nat b cs)
          else if c = CHR ''+'' then map_option int (parse_nat b cs)
          else map_option int (parse_nat b (c # cs)))"

lemma parse_more_digits_of:
  "2 \<le> b \<Longrightarrow> b \<le> 36 \<Longrightarrow> parse_more b acc (digits_of b n @ rest)
     = parse_more b (acc * b ^ length (digits_of b n) + n) rest"
proof (induction b n arbitrary: acc rest rule: digits_of.induct)
  case (1 b n)
  show ?case
  proof (cases "n < b")
    case True
    with "1.prems" show ?thesis by (simp add: digits_of.simps [of b n])
  next
    case False
    have "n mod b < b" using "1.prems" by simp
    moreover have "(acc * b ^ k + n div b) * b + n mod b = acc * b ^ Suc k + n" for k
      by (simp add: algebra_simps)
    ultimately show ?thesis
      using "1" False by (simp add: digits_of.simps [of b n])
  qed
qed

lemma digits_of_hd: "2 \<le> b \<Longrightarrow> \<exists>d ds. d < b \<and> digits_of b n = digit_char d # ds"
proof (induction b n rule: digits_of.induct)
  case (1 b n)
  show ?case
  proof (cases "n < b")
    case True
    then show ?thesis by (subst digits_of.simps) auto
  next
    case False
    with "1" obtain d ds where "d < b" "digits_of b (n div b) = digit_char d # ds" by auto
    with False "1.prems" show ?thesis by (subst digits_of.simps) auto
  qed
qed

lemma parse_nat_digits_of [simp]: "2 \<le> b \<Longrightarrow> b \<le> 36 \<Longrightarrow> parse_nat b (digits_of b n) = Some n"
proof -
  assume b: "2 \<le> b" "b \<le> 36"
  from digits_of_hd [OF b(1)] obtain d ds where d: "d < b" "digits_of b n = digit_char d # ds" by blast
  have "parse_more b 0 (digits_of b n) = Some n"
    using parse_more_digits_of [OF b, of 0 n "[]"] by simp
  with d b show ?thesis by simp
qed

lemma digits_of_chars: "c \<in> set (digits_of b n) \<Longrightarrow> \<exists>m. c = digit_char m"
proof (induction b n rule: digits_of.induct)
  case (1 b n)
  then show ?case by (subst (asm) digits_of.simps) (auto split: if_splits)
qed

section \<open>Splitting and stripping\<close>

lemma dropWhile_no: "(\<And>c. c \<in> set s \<Longrightarrow> \<not> P c) \<Longrightarrow> dropWhile P s = s"
  by (cases s) auto

lemma strip_no_space: "(\<And>c. c \<in> set s \<Longrightarrow> \<not> is_space c) \<Longrightarrow> strip s = s"
proof -
  assume h: "\<And>c. c \<in> set s \<Longrightarrow> \<not> is_space c"
  then have "dropWhile is_space s = s" "dropWhile is_space (rev s) = rev s"
    by (auto intro: dropWhile_no)
  then show ?thesis by (simp add: strip_def)
qed

text \<open>\<^verbatim>\<open>s.split(sep)\<close> for a one-character separator: never an empty list.\<close>

fun split_on :: "char \<Rightarrow> string \<Rightarrow> string list" where
  "split_on c [] = [[]]"
| "split_on c (x # xs) =
     (if x = c then [] # split_on c xs
      else (case split_on c xs of [] \<Rightarrow> [[x]] | y # ys \<Rightarrow> (x # y) # ys))"

lemma split_on_nonempty [simp]: "split_on c s \<noteq> []"
  by (induction s) (auto split: list.splits)

lemma split_on_no_sep: "c \<notin> set s \<Longrightarrow> split_on c s = [s]"
  by (induction s) auto

lemma split_on_Cons: "c \<notin> set s \<Longrightarrow> split_on c (s @ c # rest) = s # split_on c rest"
  by (induction s) auto

lemma str_of_nat_chars: "c \<in> set (str_of_nat n) \<Longrightarrow> \<exists>m. c = digit_char m"
  by (auto simp: str_of_nat_def dest: digits_of_chars)

lemma str_of_nat_no [simp]:
  "CHR ''.'' \<notin> set (str_of_nat n)" "CHR ''/'' \<notin> set (str_of_nat n)"
  "CHR '':'' \<notin> set (str_of_nat n)" "CHR ''-'' \<notin> set (str_of_nat n)"
  by (metis str_of_nat_chars digit_char_not_special)+

lemma str_of_nat_nonempty [simp]: "str_of_nat n \<noteq> []"
  by (simp add: str_of_nat_def)

lemma str_of_nat_no_space: "c \<in> set (str_of_nat n) \<Longrightarrow> \<not> is_space c"
  by (auto dest: str_of_nat_chars)

lemma int_of_str_digits [simp]: "2 \<le> b \<Longrightarrow> b \<le> 36 \<Longrightarrow> int_of_str b (digits_of b n) = Some (int n)"
proof -
  assume b: "2 \<le> b" "b \<le> 36"
  have "strip (digits_of b n) = digits_of b n"
    by (rule strip_no_space) (auto dest: digits_of_chars)
  moreover obtain d ds where "digits_of b n = digit_char d # ds"
    using digits_of_hd [OF b(1)] by blast
  ultimately show ?thesis
    using parse_nat_digits_of [OF b, of n] by (simp add: int_of_str_def)
qed

lemma int_of_str_str_of_nat [simp]: "int_of_str 10 (str_of_nat n) = Some (int n)"
  by (simp add: str_of_nat_def)

theorem int_of_str_str_of_int [simp]: "int_of_str 10 (str_of_int i) = Some i"
proof (cases "i < 0")
  case True
  let ?n = "nat (- i)"
  have "strip (CHR ''-'' # str_of_nat ?n) = CHR ''-'' # str_of_nat ?n"
    by (rule strip_no_space) (auto simp: is_space_def dest: str_of_nat_no_space)
  with True show ?thesis by (simp add: str_of_int_def int_of_str_def str_of_nat_def)
qed (simp add: str_of_int_def)

lemma str_of_int_inject [simp]: "str_of_int i = str_of_int j \<longleftrightarrow> i = j"
  by (metis int_of_str_str_of_int option.inject)

lemma str_of_nat_inject [simp]: "str_of_nat i = str_of_nat j \<longleftrightarrow> i = j"
  by (metis int_of_str_str_of_nat option.inject of_nat_eq_iff)

lemma str_of_int_nat [simp]: "0 \<le> i \<Longrightarrow> str_of_int i = str_of_nat (nat i)"
  by (simp add: str_of_int_def)

text \<open>\<^verbatim>\<open>s.rsplit(".", 1)\<close>; \<open>None\<close> when there is no dot (unpacking then raises).\<close>

definition rsplit1 :: "char \<Rightarrow> string \<Rightarrow> (string \<times> string) option" where
  "rsplit1 c s =
     (if c \<in> set s
      then Some (rev (tl (dropWhile (\<lambda>x. x \<noteq> c) (rev s))), rev (takeWhile (\<lambda>x. x \<noteq> c) (rev s)))
      else None)"

lemma takeWhile_all_but_sep: "c \<notin> set xs \<Longrightarrow> takeWhile (\<lambda>x. x \<noteq> c) (xs @ c # ys) = xs"
  by (induction xs) auto

lemma rsplit1_last: "c \<notin> set t \<Longrightarrow> rsplit1 c (s @ c # t) = Some (s, t)"
proof -
  assume c: "c \<notin> set t"
  have d: "dropWhile (\<lambda>x. x \<noteq> c) (rev t @ c # rev s) = c # rev s"
    using c by (subst dropWhile_append2) auto
  have t: "takeWhile (\<lambda>x. x \<noteq> c) (rev t @ c # rev s) = rev t"
    using c by (intro takeWhile_all_but_sep) simp
  have r: "rev (s @ c # t) = rev t @ c # rev s" by simp
  show ?thesis unfolding rsplit1_def r d t by simp
qed

section \<open>Other string methods\<close>

abbreviation startswith :: "string \<Rightarrow> string \<Rightarrow> bool" where
  "startswith s p \<equiv> prefix p s"

definition is_alnum_char :: "char \<Rightarrow> bool" where
  "is_alnum_char c = (let n = of_char c :: nat in
     (48 \<le> n \<and> n \<le> 57) \<or> (65 \<le> n \<and> n \<le> 90) \<or> (97 \<le> n \<and> n \<le> 122))"

definition isalnum :: "string \<Rightarrow> bool" where
  "isalnum s = (s \<noteq> [] \<and> list_all is_alnum_char s)"

definition is_digit_char :: "char \<Rightarrow> bool" where
  "is_digit_char c = (let n = of_char c :: nat in 48 \<le> n \<and> n \<le> 57)"

definition isdigit :: "string \<Rightarrow> bool" where
  "isdigit s = (s \<noteq> [] \<and> list_all is_digit_char s)"

definition lower_char :: "char \<Rightarrow> char" where
  "lower_char c = (let n = of_char c :: nat in if 65 \<le> n \<and> n \<le> 90 then char_of (n + 32) else c)"

definition lower :: "string \<Rightarrow> string" where
  "lower s = map lower_char s"

lemma digit_char_is_digit: "n < 10 \<Longrightarrow> is_digit_char (digit_char n)"
  by (simp add: is_digit_char_def of_char_digit_char)

lemma digits_of_10_isdigit: "b \<le> 10 \<Longrightarrow> 2 \<le> b \<Longrightarrow> list_all is_digit_char (digits_of b n)"
proof (induction b n rule: digits_of.induct)
  case (1 b n)
  have "n mod b < b" using "1.prems" by simp
  with "1.prems" have "n mod b < 10" by linarith
  with "1" show ?case by (subst digits_of.simps) (auto simp: digit_char_is_digit)
qed

lemma isdigit_str_of_nat [simp]: "isdigit (str_of_nat n)"
  by (simp add: isdigit_def str_of_nat_def digits_of_10_isdigit)

section \<open>Optional strings and paths\<close>

text \<open>\<^verbatim>\<open>if x\<close> for a string that may be \<^verbatim>\<open>None\<close>.\<close>

definition truthy :: "string option \<Rightarrow> bool" where
  "truthy x = (case x of None \<Rightarrow> False | Some s \<Rightarrow> s \<noteq> [])"

text \<open>\<^verbatim>\<open>os.path.join(a, b)\<close>.\<close>

definition path_join :: "string \<Rightarrow> string \<Rightarrow> string" where
  "path_join a b =
     (if startswith b ''/'' then b
      else if a = [] \<or> last a = CHR ''/'' then a @ b
      else a @ ''/'' @ b)"

end
