(* ===== verification/Tunnel_Server.thy ===== *)
theory Tunnel_Server
  imports Tunnel_Protocol Py_Strings
begin

text \<open>
  The tunnel server of a runner (\<^verbatim>\<open>runner/services/tunnel_server.py\<close>): one WebSocket per
  container, over which port-forward sessions multiplex their connections by client id.
  Tunnels are Python objects that sessions keep references to while the server's table may
  already hold another one, so they live in a store and are referred to by number; WebSockets
  are numbers too.  A send on a closed socket raises, any other send is appended to \<open>sent\<close>.
  The coroutines are split at their \<^verbatim>\<open>receive_bytes\<close> calls: opening, one message, and the
  \<^verbatim>\<open>finally\<close> block are separate steps that other coroutines interleave with.
\<close>

section \<open>State\<close>

record tunnel =
  tn_container :: string
  tn_ws :: nat
  next_client_id :: int
  user_connections :: "(int, nat) dict"

datatype wsmsg = WText string | WBytes bytes | WClose int

record tn_state =
  objs :: "(nat, tunnel) dict"
  tunnels :: "(string, nat) dict"
  next_obj :: nat
  closed_ws :: "nat list"
  sent :: "(nat \<times> wsmsg) list"

definition tn_start :: tn_state where
  "tn_start = \<lparr>objs = [], tunnels = [], next_obj = 0, closed_ws = [], sent = []\<rparr>"

definition ws_send :: "nat \<Rightarrow> wsmsg \<Rightarrow> (tn_state, unit) st" where
  "ws_send ws msg = (\<lambda>s.
     if ws \<in> set (closed_ws s) then (Inl (RuntimeError ''WebSocket is not connected''), s)
     else (Inr (), s\<lparr>sent := sent s @ [(ws, msg)]\<rparr>))"

text \<open>\<^verbatim>\<open>try: await ws.send_bytes(data) ... except Exception\<close>: the outcome as a flag.\<close>

definition try_send :: "nat \<Rightarrow> wsmsg \<Rightarrow> tn_state \<Rightarrow> bool \<times> tn_state" where
  "try_send ws msg s = (case ws_send ws msg s of (Inl e, s') \<Rightarrow> (False, s') | (Inr _, s') \<Rightarrow> (True, s'))"

definition upd_tunnel :: "nat \<Rightarrow> (tunnel \<Rightarrow> tunnel) \<Rightarrow> tn_state \<Rightarrow> tn_state" where
  "upd_tunnel tid f s =
     (case map_of (objs s) tid of
        None \<Rightarrow> s
      | Some t \<Rightarrow> s\<lparr>objs := AList.update tid (f t) (objs s)\<rparr>)"

section \<open>One container's tunnel\<close>

definition new_tunnel :: "string \<Rightarrow> nat \<Rightarrow> tunnel" where
  "new_tunnel cid ws = \<lparr>tn_container = cid, tn_ws = ws, next_client_id = 1, user_connections = []\<rparr>"

definition allocate_client_id :: "nat \<Rightarrow> tn_state \<Rightarrow> int option \<times> tn_state" where
  "allocate_client_id tid s =
     (map_option next_client_id (map_of (objs s) tid),
      upd_tunnel tid (\<lambda>t. t\<lparr>next_client_id := next_client_id t + 1\<rparr>) s)"

definition register_user_connection :: "nat \<Rightarrow> int \<Rightarrow> nat \<Rightarrow> tn_state \<Rightarrow> tn_state" where
  "register_user_connection tid c ws =
     upd_tunnel tid (\<lambda>t. t\<lparr>user_connections := AList.update c ws (user_connections t)\<rparr>)"

definition unregister_user_connection :: "nat \<Rightarrow> int \<Rightarrow> tn_state \<Rightarrow> tn_state" where
  "unregister_user_connection tid c =
     upd_tunnel tid (\<lambda>t. t\<lparr>user_connections := AList.delete c (user_connections t)\<rparr>)"

definition send_to_container :: "nat \<Rightarrow> bytes \<Rightarrow> tn_state \<Rightarrow> bool \<times> tn_state" where
  "send_to_container tid data s =
     (case map_of (objs s) tid of
        None \<Rightarrow> (False, s)
      | Some t \<Rightarrow> try_send (tn_ws t) (WBytes data) s)"

definition user_of :: "nat \<Rightarrow> int \<Rightarrow> tn_state \<Rightarrow> nat option" where
  "user_of tid c s =
     (case map_of (objs s) tid of None \<Rightarrow> None | Some t \<Rightarrow> map_of (user_connections t) c)"

text \<open>\<^verbatim>\<open>_on_connected\<close> and \<^verbatim>\<open>_on_data\<close> differ in their log lines only.\<close>

definition on_connected :: "nat \<Rightarrow> tunnel_header \<Rightarrow> bytes \<Rightarrow> tn_state \<Rightarrow> tn_state" where
  "on_connected tid h full s =
     (case user_of tid (client_id h) s of
        None \<Rightarrow> s
      | Some ws \<Rightarrow> snd (try_send ws (WBytes full) s))"

definition on_data :: "nat \<Rightarrow> tunnel_header \<Rightarrow> bytes \<Rightarrow> tn_state \<Rightarrow> tn_state" where
  "on_data tid h full s =
     (case user_of tid (client_id h) s of
        None \<Rightarrow> s
      | Some ws \<Rightarrow> snd (try_send ws (WBytes full) s))"

definition on_close :: "nat \<Rightarrow> tunnel_header \<Rightarrow> bytes \<Rightarrow> tn_state \<Rightarrow> tn_state" where
  "on_close tid h full s =
     (let s1 = unregister_user_connection tid (client_id h) s in
      case user_of tid (client_id h) s of
        None \<Rightarrow> s1
      | Some ws \<Rightarrow> snd (try_send ws (WBytes full) s1))"

definition on_error :: "nat \<Rightarrow> tunnel_header \<Rightarrow> bytes \<Rightarrow> tn_state \<Rightarrow> tn_state" where
  "on_error tid h full s =
     (let s1 = unregister_user_connection tid (client_id h) s in
      case user_of tid (client_id h) s of
        None \<Rightarrow> s1
      | Some ws \<Rightarrow> snd (try_send ws (WBytes full) s1))"

definition on_pong :: "tn_state \<Rightarrow> tn_state" where
  "on_pong s = s"

definition handle_container_message :: "nat \<Rightarrow> bytes \<Rightarrow> tn_state \<Rightarrow> tn_state" where
  "handle_container_message tid data s =
     (case parse_header data of
        None \<Rightarrow> s
      | Some h \<Rightarrow>
          if msg_type h = MSG_CONNECTED then on_connected tid h data s
          else if msg_type h = MSG_DATA then on_data tid h data s
          else if msg_type h = MSG_CLOSE then on_close tid h data s
          else if msg_type h = MSG_ERROR then on_error tid h data s
          else if msg_type h = MSG_PONG then on_pong s
          else s)"

section \<open>The server's table\<close>

definition register_tunnel :: "string \<Rightarrow> nat \<Rightarrow> tn_state \<Rightarrow> nat \<times> tn_state" where
  "register_tunnel cid ws s =
     (next_obj s,
      s\<lparr>objs := AList.update (next_obj s) (new_tunnel cid ws) (objs s),
        tunnels := AList.update cid (next_obj s) (tunnels s),
        next_obj := Suc (next_obj s)\<rparr>)"

definition unregister_tunnel :: "string \<Rightarrow> tn_state \<Rightarrow> tn_state" where
  "unregister_tunnel cid s = s\<lparr>tunnels := AList.delete cid (tunnels s)\<rparr>"

definition get_tunnel :: "string \<Rightarrow> tn_state \<Rightarrow> nat option" where
  "get_tunnel cid s = map_of (tunnels s) cid"

definition has_tunnel :: "string \<Rightarrow> tn_state \<Rightarrow> bool" where
  "has_tunnel cid s \<longleftrightarrow> cid \<in> set (dict_keys (tunnels s))"

section \<open>The container's WebSocket handler\<close>

text \<open>Up to the first \<^verbatim>\<open>receive_bytes\<close>; the loop body; and the \<^verbatim>\<open>finally\<close> block.\<close>

definition container_connect :: "string \<Rightarrow> nat \<Rightarrow> tn_state \<Rightarrow> nat \<times> tn_state" where
  "container_connect cid ws s = register_tunnel cid ws s"

definition container_message :: "nat \<Rightarrow> bytes \<Rightarrow> tn_state \<Rightarrow> tn_state" where
  "container_message tid data s = handle_container_message tid data s"

definition container_disconnect :: "string \<Rightarrow> nat \<Rightarrow> tn_state \<Rightarrow> tn_state" where
  "container_disconnect cid ws s =
     unregister_tunnel cid (s\<lparr>closed_ws := List.insert ws (closed_ws s)\<rparr>)"

section \<open>Port-forward sessions\<close>

record pf_session =
  ps_tunnel :: nat
  ps_ws :: nat
  ps_proto :: int
  active_clients :: "int list"

definition bytes_of :: "string \<Rightarrow> bytes" where
  "bytes_of s = map (\<lambda>c. of_char c) s"

definition handle_pf_message :: "tunnel_header \<Rightarrow> bytes \<Rightarrow> (pf_session \<times> tn_state, unit) st" where
  "handle_pf_message h data = (\<lambda>(p, s).
     let c = client_id h in
     if msg_type h = MSG_CONNECT then
       (let p1 = p\<lparr>active_clients := List.insert c (active_clients p)\<rparr> in
        case send_to_container (ps_tunnel p) data s of
          (True, s1) \<Rightarrow> (Inr (), (p1, register_user_connection (ps_tunnel p) c (ps_ws p) s1))
        | (False, s1) \<Rightarrow>
            (case build_message MSG_ERROR (ps_proto p) c 0 (bytes_of ''Tunnel send failed'') of
               Inl e \<Rightarrow> (Inl e, (p1, s1))
             | Inr err \<Rightarrow>
                 (case ws_send (ps_ws p) (WBytes err) s1 of
                    (Inl e, s2) \<Rightarrow> (Inl e, (p1, s2))
                  | (Inr _, s2) \<Rightarrow>
                      (Inr (), (p1\<lparr>active_clients := removeAll c (active_clients p1)\<rparr>,
                                register_user_connection (ps_tunnel p) c (ps_ws p) s2)))))
     else if msg_type h = MSG_DATA then
       (if c \<notin> set (active_clients p) then (Inr (), (p, s))
        else (Inr (), (p, snd (send_to_container (ps_tunnel p) data s))))
     else if msg_type h = MSG_CLOSE then
       (Inr (), (p\<lparr>active_clients := removeAll c (active_clients p)\<rparr>,
                 snd (send_to_container (ps_tunnel p) data (unregister_user_connection (ps_tunnel p) c s))))
     else (Inr (), (p, snd (send_to_container (ps_tunnel p) data s))))"

text \<open>
  \<^verbatim>\<open>handle_port_forward\<close> for a container: up to the loop (\<open>None\<close> is the early return), one
  received message, and the \<^verbatim>\<open>finally\<close> block.
\<close>

definition pf_open :: "nat \<Rightarrow> string \<Rightarrow> int \<Rightarrow> (tn_state, pf_session option) st" where
  "pf_open ws cid p = (\<lambda>s.
     case get_tunnel cid s of
       None \<Rightarrow>
         bind_st (ws_send ws (WText (''Error: Container tunnel not connected (container='' @ cid @ '')''))) (\<lambda>_.
         bind_st (ws_send ws (WClose 1011)) (\<lambda>_. return_st None)) s
     | Some tid \<Rightarrow>
         (case ws_send ws (WText ''CONNECTED'') s of
            (Inl e, s1) \<Rightarrow> (Inr None, s1)
          | (Inr _, s1) \<Rightarrow> (Inr (Some \<lparr>ps_tunnel = tid, ps_ws = ws, ps_proto = p, active_clients = []\<rparr>), s1)))"

definition pf_message :: "bytes \<Rightarrow> (pf_session \<times> tn_state, unit) st" where
  "pf_message data = (\<lambda>(p, s).
     case parse_header data of
       None \<Rightarrow> (Inr (), (p, s))
     | Some h \<Rightarrow> handle_pf_message h data (p, s))"

fun pf_cleanup :: "nat \<Rightarrow> int \<Rightarrow> int list \<Rightarrow> (tn_state, unit) st" where
  "pf_cleanup tid p [] s = (Inr (), s)"
| "pf_cleanup tid p (c # cs) s =
     (case build_message MSG_CLOSE p c 0 [] of
        Inl e \<Rightarrow> (Inl e, s)
      | Inr msg \<Rightarrow> pf_cleanup tid p cs (unregister_user_connection tid c (snd (send_to_container tid msg s))))"

definition pf_close :: "pf_session \<Rightarrow> (tn_state, unit) st" where
  "pf_close p = pf_cleanup (ps_tunnel p) (ps_proto p) (active_clients p)"

text \<open>An exception raised by a message ends the loop: the \<^verbatim>\<open>finally\<close> block runs and the session is over.\<close>

definition pf_step :: "bytes \<Rightarrow> pf_session \<times> tn_state \<Rightarrow> pf_session option \<times> tn_state" where
  "pf_step data ps =
     (case pf_message data ps of
        (Inr _, (p, s)) \<Rightarrow> (Some p, s)
      | (Inl _, (p, s)) \<Rightarrow> (None, snd (pf_close p s)))"

section \<open>Virtual machines\<close>

definition VM_CONTAINER_PREFIX :: string where
  "VM_CONTAINER_PREFIX = ''vm-''"

text \<open>
  \<open>get_task\<close> is the task store's lookup: \<open>None\<close> for an unknown task, else its
  \<^verbatim>\<open>vm_ip\<close> if it has that key.
\<close>

definition resolve_vm_target :: "string \<Rightarrow> (int \<Rightarrow> string option option) \<Rightarrow> (int \<times> string) option" where
  "resolve_vm_target cid get_task =
     (case int_of_str 10 (drop (length VM_CONTAINER_PREFIX) cid) of
        None \<Rightarrow> None
      | Some task_id \<Rightarrow>
          (case get_task task_id of
             None \<Rightarrow> None
           | Some None \<Rightarrow> None
           | Some (Some vm_ip) \<Rightarrow> if vm_ip = [] then None else Some (task_id, vm_ip)))"

text \<open>
  A VM session bridges client ids to TCP connections the runner opens itself.  Connections are
  numbers; \<open>opened\<close> is the outcome of \<^verbatim>\<open>asyncio.open_connection\<close> (\<open>Inl\<close> the text of the
  error), and \<open>tcp_log\<close> records what is done to them.
\<close>

datatype tcp_event = TcpWrite bytes | TcpClose | ReaderCancelled

record vm_session =
  vm_ws :: nat
  vm_proto :: int
  vm_port :: int
  vm_active :: "(int, nat) dict"
  vm_stop :: bool
  tcp_log :: "(nat \<times> tcp_event) list"

definition tcp_do :: "nat \<Rightarrow> tcp_event \<Rightarrow> vm_session \<Rightarrow> vm_session" where
  "tcp_do k ev v = v\<lparr>tcp_log := tcp_log v @ [(k, ev)]\<rparr>"

definition send_built :: "nat \<Rightarrow> bytes res \<Rightarrow> (tn_state, unit) st" where
  "send_built ws m = bind_st (lift_res m) (\<lambda>bs. ws_send ws (WBytes bs))"

definition handle_vm_connect :: "string + nat \<Rightarrow> int \<Rightarrow> int \<Rightarrow> (vm_session \<times> tn_state, unit) st" where
  "handle_vm_connect opened c prt = (\<lambda>(v, s).
     case opened of
       Inl err \<Rightarrow>
         (case send_built (vm_ws v) (build_message MSG_ERROR (vm_proto v) c prt (bytes_of (''Connection failed: '' @ err))) s of
            (r, s') \<Rightarrow> (r, (v, s')))
     | Inr k \<Rightarrow>
         (let v1 = v\<lparr>vm_active := AList.update c k (vm_active v)\<rparr> in
          case send_built (vm_ws v) (build_message MSG_CONNECTED (vm_proto v) c prt []) s of
            (r, s') \<Rightarrow> (r, (v1, s'))))"

definition vm_msg_port :: "tunnel_header \<Rightarrow> vm_session \<Rightarrow> int" where
  "vm_msg_port h v = (if port h = 0 then vm_port v else port h)"

definition handle_vm_pf_message ::
  "string + nat \<Rightarrow> tunnel_header \<Rightarrow> bytes \<Rightarrow> (vm_session \<times> tn_state, unit) st" where
  "handle_vm_pf_message opened h payload = (\<lambda>(v, s).
     let c = client_id h in
     if msg_type h = MSG_CONNECT then handle_vm_connect opened c (vm_msg_port h v) (v, s)
     else if msg_type h = MSG_DATA then
       (case map_of (vm_active v) c of
          None \<Rightarrow> (Inr (), (v, s))
        | Some k \<Rightarrow> (Inr (), (tcp_do k (TcpWrite payload) v, s)))
     else if msg_type h = MSG_CLOSE then
       (case map_of (vm_active v) c of
          None \<Rightarrow> (Inr (), (v, s))
        | Some k \<Rightarrow>
            (Inr (), (tcp_do k TcpClose (tcp_do k ReaderCancelled (v\<lparr>vm_active := AList.delete c (vm_active v)\<rparr>)), s)))
     else (Inr (), (v, s)))"

text \<open>
  The reader task of connection \<open>k\<close>: one chunk (empty at end of file, which ends the task
  through its \<^verbatim>\<open>finally\<close> block), and the other ways it ends.
\<close>

definition vm_reader_done :: "int \<Rightarrow> nat \<Rightarrow> vm_session \<Rightarrow> vm_session" where
  "vm_reader_done c k v = (tcp_do k TcpClose v)\<lparr>vm_active := AList.delete c (vm_active v)\<rparr>"

definition forward_vm_tcp_to_ws :: "int \<Rightarrow> nat \<Rightarrow> bytes \<Rightarrow> vm_session \<times> tn_state \<Rightarrow> vm_session \<times> tn_state" where
  "forward_vm_tcp_to_ws c k data = (\<lambda>(v, s).
     if vm_stop v then (vm_reader_done c k v, s)
     else if data = [] then
       (case send_built (vm_ws v) (build_message MSG_CLOSE (vm_proto v) c 0 []) s of
          (_, s') \<Rightarrow> (vm_reader_done c k v, s'))
     else
       (case send_built (vm_ws v) (build_message MSG_DATA (vm_proto v) c 0 data) s of
          (Inr _, s') \<Rightarrow> (v, s')
        | (Inl e, s') \<Rightarrow>
            (vm_reader_done c k v,
             snd (send_built (vm_ws v) (build_message MSG_ERROR (vm_proto v) c 0 (bytes_of ''send failed'')) s'))))"

definition cleanup_vm_connections :: "vm_session \<Rightarrow> vm_session" where
  "cleanup_vm_connections v =
     (let v1 = fold (\<lambda>(c, k) v. tcp_do k TcpClose (tcp_do k ReaderCancelled v)) (vm_active v) (v\<lparr>vm_stop := True\<rparr>)
      in v1\<lparr>vm_active := []\<rparr>)"

definition vm_open :: "nat \<Rightarrow> string \<Rightarrow> int \<Rightarrow> int \<Rightarrow> (int \<Rightarrow> string option option) option
    \<Rightarrow> (tn_state, vm_session option) st" where
  "vm_open ws cid prt p store = (\<lambda>s.
     case store of
       None \<Rightarrow>
         bind_st (ws_send ws (WText ''Error: Task store not available'')) (\<lambda>_.
         bind_st (ws_send ws (WClose 1011)) (\<lambda>_. return_st None)) s
     | Some get_task \<Rightarrow>
         (case resolve_vm_target cid get_task of
            None \<Rightarrow>
              bind_st (ws_send ws (WText (''Error: Cannot resolve VM target: '' @ cid))) (\<lambda>_.
              bind_st (ws_send ws (WClose 1011)) (\<lambda>_. return_st None)) s
          | Some _ \<Rightarrow>
              (case ws_send ws (WText ''CONNECTED'') s of
                 (Inl e, s1) \<Rightarrow> (Inr None, s1)
               | (Inr _, s1) \<Rightarrow>
                   (Inr (Some \<lparr>vm_ws = ws, vm_proto = p, vm_port = prt, vm_active = [], vm_stop = False, tcp_log = []\<rparr>), s1))))"

end
