(* ===== verification/Tunnel_Properties.thy ===== *)
theory Tunnel_Properties
  imports Tunnel_Server
begin

text \<open>
  The properties of the tunnel protocol and of the tunnel server: the wire format is a
  bijection on its range, messages reach exactly the session that opened their client id, and
  a session that ends leaves no registration behind, except after a failed CONNECT.
\<close>

section \<open>Effects of the primitive steps\<close>

lemma objs_upd: "map_of (objs (upd_tunnel tid f s)) tid' =
    (if tid' = tid then map_option f (map_of (objs s) tid) else map_of (objs s) tid')"
  by (auto simp: upd_tunnel_def get_update split: option.split)

lemma upd_tunnel_fields [simp]:
  "sent (upd_tunnel tid f s) = sent s" "closed_ws (upd_tunnel tid f s) = closed_ws s"
  "tunnels (upd_tunnel tid f s) = tunnels s"
  by (auto simp: upd_tunnel_def split: option.split)

lemma try_send_eq:
  "try_send ws msg s = (if ws \<in> set (closed_ws s) then (False, s) else (True, s\<lparr>sent := sent s @ [(ws, msg)]\<rparr>))"
  by (simp add: try_send_def ws_send_def)

lemma user_of_sent [simp]: "user_of tid c (s\<lparr>sent := x\<rparr>) = user_of tid c s"
  by (simp add: user_of_def)

lemma try_send_fields [simp]:
  "objs (snd (try_send ws msg s)) = objs s" "closed_ws (snd (try_send ws msg s)) = closed_ws s"
  "tunnels (snd (try_send ws msg s)) = tunnels s" "user_of tid c (snd (try_send ws msg s)) = user_of tid c s"
  by (simp_all add: try_send_eq user_of_def)

lemma send_to_container_fields [simp]:
  "objs (snd (send_to_container tid m s)) = objs s" "closed_ws (snd (send_to_container tid m s)) = closed_ws s"
  "user_of tid' c (snd (send_to_container tid m s)) = user_of tid' c s"
  by (auto simp: send_to_container_def user_of_def split: option.split)

lemma user_of_register:
  "user_of tid' c' (register_user_connection tid c ws s) =
     (if tid' = tid \<and> c' = c \<and> map_of (objs s) tid \<noteq> None then Some ws else user_of tid' c' s)"
  by (auto simp: user_of_def register_user_connection_def objs_upd get_update split: option.split)

lemma user_of_unregister:
  "user_of tid' c' (unregister_user_connection tid c s) = (if tid' = tid \<and> c' = c then None else user_of tid' c' s)"
  by (auto simp: user_of_def unregister_user_connection_def objs_upd get_delete split: option.split)

lemma unregister_fields [simp]:
  "sent (unregister_user_connection tid c s) = sent s" "closed_ws (unregister_user_connection tid c s) = closed_ws s"
  "sent (register_user_connection tid c ws s) = sent s" "closed_ws (register_user_connection tid c ws s) = closed_ws s"
  by (simp_all add: unregister_user_connection_def register_user_connection_def)

text \<open>The container's socket of a tunnel object, which never changes.\<close>

definition container_ws :: "nat \<Rightarrow> tn_state \<Rightarrow> nat option" where
  "container_ws tid s = map_option tn_ws (map_of (objs s) tid)"

lemma container_ws_simps [simp]:
  "container_ws t (s\<lparr>sent := x\<rparr>) = container_ws t s"
  "container_ws t (register_user_connection tid c ws s) = container_ws t s"
  "container_ws t (unregister_user_connection tid c s) = container_ws t s"
  "container_ws t (snd (try_send ws m s)) = container_ws t s"
  "container_ws t (snd (send_to_container tid' m' s)) = container_ws t s"
  by (auto simp: container_ws_def register_user_connection_def unregister_user_connection_def objs_upd option.map_comp comp_def)

lemma send_open:
  assumes "container_ws tid s = Some w" "w \<notin> set (closed_ws s)"
  shows "send_to_container tid m s = (True, s\<lparr>sent := sent s @ [(w, WBytes m)]\<rparr>)"
  using assms by (auto simp: send_to_container_def container_ws_def try_send_eq)

section \<open>The wire format\<close>

text \<open>A message that can be built parses back to its four header fields and its payload, and it can be
  built exactly when the fields fit their widths; otherwise \<^verbatim>\<open>struct.error\<close> is raised.
\<close>

theorem tunnel_message_roundtrip:
  "(case build_message t p c prt payload of
      Inr bs \<Rightarrow> parse_header bs = Some \<lparr>msg_type = t, proto = p, client_id = c, port = prt\<rparr> \<and> get_payload bs = payload
        \<and> 0 \<le> t \<and> t < 256 \<and> 0 \<le> p \<and> p < 256 \<and> 0 \<le> c \<and> c < 2 ^ 32 \<and> 0 \<le> prt \<and> prt < 2 ^ 16
    | Inl e \<Rightarrow> e = StructError \<and> \<not> (0 \<le> t \<and> t < 256 \<and> 0 \<le> p \<and> p < 256 \<and> 0 \<le> c \<and> c < 2 ^ 32 \<and> 0 \<le> prt \<and> prt < 2 ^ 16))"
proof (cases "build_message t p c prt payload")
  case (Inr bs)
  then show ?thesis
    using build_message_parse_header [OF Inr]
    by (simp add: build_message_def in_range_def split: if_splits)
qed (simp add: build_message_def in_range_def split: if_splits)

text \<open>Every buffer of at least eight bytes is the encoding of what it parses to: rebuilding the parsed
  header with the payload gives the buffer back, so no two messages share a meaning.
\<close>

theorem tunnel_parse_rebuilds:
  assumes "parse_header bs = Some h"
  shows "build_message (msg_type h) (proto h) (client_id h) (port h) (get_payload bs) = Inr bs"
  using assms by (rule parse_header_build_message)

lemma tunnel_parse_rebuilds_witness:
  "\<exists>h. parse_header [3, 0, 0, 0, 1, 2, 0, 80, 65] = Some h \<and> client_id h = 258
     \<and> build_message (msg_type h) (proto h) 258 (port h) [65] = Inr [3, 0, 0, 0, 1, 2, 0, 80, 65]"
proof -
  have p: "parse_header [3, 0, 0, 0, 1, 2, 0, 80, 65] = Some \<lparr>msg_type = 3, proto = 0, client_id = 258, port = 80\<rparr>"
    "get_payload [3, 0, 0, 0, 1, 2, 0, 80, 65] = [65]"
    by code_simp+
  from tunnel_parse_rebuilds [OF p(1)] p show ?thesis by simp
qed

section \<open>Routing\<close>

lemma hcm_forward:
  assumes "parse_header data = Some h" "msg_type h \<in> {MSG_CONNECTED, MSG_DATA}"
  shows "handle_container_message tid data s =
    (case user_of tid (client_id h) s of None \<Rightarrow> s | Some ws \<Rightarrow> snd (try_send ws (WBytes data) s))"
  using assms by (auto simp: handle_container_message_def on_connected_def on_data_def)

lemma hcm_end:
  assumes "parse_header data = Some h" "msg_type h \<in> {MSG_CLOSE, MSG_ERROR}"
  shows "handle_container_message tid data s =
    (case user_of tid (client_id h) s of
       None \<Rightarrow> unregister_user_connection tid (client_id h) s
     | Some ws \<Rightarrow> snd (try_send ws (WBytes data) (unregister_user_connection tid (client_id h) s)))"
proof -
  have "msg_type h \<noteq> MSG_CONNECTED" "msg_type h \<noteq> MSG_DATA" using assms(2) by (auto simp: msg_defs)
  with assms show ?thesis by (auto simp: handle_container_message_def on_close_def on_error_def Let_def)
qed

lemma hcm_other:
  assumes "parse_header data = Some h" "msg_type h \<notin> {MSG_CONNECTED, MSG_DATA}" "msg_type h \<notin> {MSG_CLOSE, MSG_ERROR}"
  shows "handle_container_message tid data s = s"
  using assms by (simp add: handle_container_message_def on_pong_def)

lemmas hcm_cases = hcm_forward hcm_end hcm_other

text \<open>C25
  A message from the container is forwarded, unchanged, to the session registered for its client id
  and to nobody else; CLOSE and ERROR end that registration, and no other registration of any
  tunnel changes.
\<close>

theorem container_message_routed:
  assumes "parse_header data = Some h"
  shows "sent (handle_container_message tid data s) =
      sent s @ (case user_of tid (client_id h) s of
                  None \<Rightarrow> []
                | Some ws \<Rightarrow> if msg_type h \<in> {MSG_CONNECTED, MSG_DATA, MSG_CLOSE, MSG_ERROR} \<and> ws \<notin> set (closed_ws s)
                            then [(ws, WBytes data)] else [])
    \<and> user_of tid' c (handle_container_message tid data s) =
      (if tid' = tid \<and> c = client_id h \<and> msg_type h \<in> {MSG_CLOSE, MSG_ERROR} then None else user_of tid' c s)"
proof (cases "msg_type h \<in> {MSG_CONNECTED, MSG_DATA}")
  case True
  then have n: "msg_type h \<notin> {MSG_CLOSE, MSG_ERROR}" by (auto simp: msg_defs)
  show ?thesis
    unfolding hcm_forward [OF assms True]
    using True n by (cases "user_of tid (client_id h) s") (simp_all add: try_send_eq)
next
  case F: False
  show ?thesis
  proof (cases "msg_type h \<in> {MSG_CLOSE, MSG_ERROR}")
    case True
    show ?thesis
      unfolding hcm_end [OF assms True]
      using True by (cases "user_of tid (client_id h) s") (auto simp: try_send_eq user_of_unregister)
  next
    case False
    with F show ?thesis
      unfolding hcm_other [OF assms F False] by (auto split: option.split)
  qed
qed

lemma container_message_routed_witness:
  "sent (handle_container_message 0 [3, 0, 0, 0, 0, 7, 0, 0, 65]
      (register_user_connection 0 7 42 (snd (container_connect ''job'' 1 tn_start))))
   = [(42, WBytes [3, 0, 0, 0, 0, 7, 0, 0, 65])]"
proof -
  let ?s = "register_user_connection 0 7 42 (snd (container_connect ''job'' 1 tn_start))"
  have p: "parse_header [3, 0, 0, 0, 0, 7, 0, 0, 65] = Some \<lparr>msg_type = 3, proto = 0, client_id = 7, port = 0\<rparr>"
    by code_simp
  have "user_of 0 7 ?s = Some 42" "closed_ws ?s = []" "sent ?s = []" by code_simp+
  with container_message_routed [OF p, of 0 ?s] show ?thesis by (simp add: msg_defs)
qed

section \<open>Sessions clean up after themselves\<close>

text \<open>
  A session next to everything else that happens on its tunnel: messages from the container, and
  messages of other sessions (with another socket) on any tunnel, and containers that disconnect.
  A message that raises ends the session.
\<close>

datatype session_event =
    Mine bytes
  | FromContainer nat bytes
  | Other pf_session bytes
  | Disconnects string nat \<comment> \<open>container, its socket\<close>

fun session_step :: "session_event \<Rightarrow> pf_session option \<times> tn_state \<Rightarrow> pf_session option \<times> tn_state" where
  "session_step (Mine data) (po, s) = (case po of None \<Rightarrow> (None, s) | Some p \<Rightarrow> pf_step data (p, s))"
| "session_step (FromContainer tid data) (po, s) = (po, container_message tid data s)"
| "session_step (Other q data) (po, s) =
     (if map_option ps_ws po = Some (ps_ws q) then (po, s) else (po, snd (pf_step data (q, s))))"
| "session_step (Disconnects cid w) (po, s) = (po, container_disconnect cid w s)"

text \<open>The events that leave the container's socket \<open>w\<close> open.\<close>

fun keeps_open :: "nat \<Rightarrow> session_event \<Rightarrow> bool" where
  "keeps_open w (Disconnects cid w') \<longleftrightarrow> w' \<noteq> w"
| "keeps_open w e \<longleftrightarrow> True"

text \<open>
  The session is still there, and every registration that points to its socket is for one of its
  own active clients, as long as the container's socket \<open>w\<close> is open.  A session starts with no client.
\<close>

definition session_ok :: "nat \<Rightarrow> pf_session \<Rightarrow> pf_session option \<times> tn_state \<Rightarrow> bool" where
  "session_ok w p0 = (\<lambda>(po, s).
     \<exists>p. po = Some p \<and> ps_tunnel p = ps_tunnel p0 \<and> ps_ws p = ps_ws p0 \<and> ps_proto p = ps_proto p0 \<and>
       container_ws (ps_tunnel p) s = Some w \<and> w \<notin> set (closed_ws s) \<and>
       (\<forall>c \<in> set (active_clients p). in_range 4 c) \<and>
       (\<forall>c. user_of (ps_tunnel p) c s = Some (ps_ws p) \<longrightarrow> c \<in> set (active_clients p)))"

definition session_fresh :: "nat \<Rightarrow> pf_session \<Rightarrow> tn_state \<Rightarrow> bool" where
  "session_fresh w p s \<longleftrightarrow> active_clients p = [] \<and> container_ws (ps_tunnel p) s = Some w \<and> w \<notin> set (closed_ws s) \<and>
     (\<forall>c. user_of (ps_tunnel p) c s \<noteq> Some (ps_ws p))"

lemma session_fresh_ok: "session_fresh w p s \<Longrightarrow> session_ok w p (Some p, s)"
  by (simp add: session_fresh_def session_ok_def)

lemma hcm_None: "parse_header data = None \<Longrightarrow> handle_container_message tid data s = s"
  by (simp add: handle_container_message_def)

lemma hcm_frame [simp]:
  "closed_ws (handle_container_message tid data s) = closed_ws s"
  "container_ws t (handle_container_message tid data s) = container_ws t s"
proof -
  have "closed_ws (handle_container_message tid data s) = closed_ws s
      \<and> container_ws t (handle_container_message tid data s) = container_ws t s"
  proof (cases "parse_header data")
    case (Some h)
    then show ?thesis
      by (cases "msg_type h \<in> {MSG_CONNECTED, MSG_DATA}"; cases "msg_type h \<in> {MSG_CLOSE, MSG_ERROR}")
        (simp_all add: hcm_cases [OF Some] split: option.split)
  qed (simp add: hcm_None)
  then show "closed_ws (handle_container_message tid data s) = closed_ws s"
    "container_ws t (handle_container_message tid data s) = container_ws t s" by auto
qed

lemma hcm_user: "user_of t c (handle_container_message tid data s) = Some ws \<Longrightarrow> user_of t c s = Some ws"
proof (cases "parse_header data")
  case (Some h)
  assume "user_of t c (handle_container_message tid data s) = Some ws"
  then show ?thesis
    by (cases "msg_type h \<in> {MSG_CONNECTED, MSG_DATA}"; cases "msg_type h \<in> {MSG_CLOSE, MSG_ERROR}")
      (simp_all add: hcm_cases [OF Some] user_of_unregister split: option.splits if_splits)
qed (simp add: hcm_None)

text \<open>What one message of a session does while the container's socket is open.\<close>

lemma pf_message_open:
  assumes "container_ws (ps_tunnel p) s = Some w" "w \<notin> set (closed_ws s)" "pf_message data (p, s) = (r, (p', s'))"
  shows "r = Inr () \<and> closed_ws s' = closed_ws s \<and> container_ws t s' = container_ws t s
    \<and> ps_tunnel p' = ps_tunnel p \<and> ps_ws p' = ps_ws p \<and> ps_proto p' = ps_proto p
    \<and> (user_of t c s' = Some ws \<longrightarrow>
         (t = ps_tunnel p \<and> ws = ps_ws p \<and> c \<in> set (active_clients p'))
       \<or> (user_of t c s = Some ws \<and> (t = ps_tunnel p \<and> c \<in> set (active_clients p) \<longrightarrow> c \<in> set (active_clients p'))))"
proof (cases "parse_header data")
  case None
  with assms show ?thesis by (simp add: pf_message_def)
next
  case (Some h)
  have m: "handle_pf_message h data (p, s) = (r, (p', s'))" using assms(3) Some by (simp add: pf_message_def)
  note so = send_open [OF assms(1,2)]
  consider "msg_type h = MSG_CONNECT" | "msg_type h = MSG_DATA" | "msg_type h = MSG_CLOSE"
    | "msg_type h \<notin> {MSG_CONNECT, MSG_DATA, MSG_CLOSE}" by blast
  then show ?thesis
  proof cases
    case 1
    with m so show ?thesis
      by (auto simp: handle_pf_message_def Let_def user_of_register split: if_splits)
  next
    case 2
    then have "msg_type h \<noteq> MSG_CONNECT" by (simp add: msg_defs)
    with 2 m show ?thesis by (auto simp: handle_pf_message_def Let_def split: if_splits)
  next
    case 3
    then have "msg_type h \<noteq> MSG_CONNECT" "msg_type h \<noteq> MSG_DATA" by (auto simp: msg_defs)
    with 3 m show ?thesis
      by (auto simp: handle_pf_message_def Let_def user_of_unregister split: if_splits)
  next
    case 4
    with m show ?thesis by (auto simp: handle_pf_message_def Let_def)
  qed
qed

lemma ws_send_fields: "ws_send ws m s = (r, s') \<Longrightarrow>
    closed_ws s' = closed_ws s \<and> container_ws t s' = container_ws t s \<and> user_of t c s' = user_of t c s"
  by (auto simp: ws_send_def split: if_splits)

text \<open>What a message of any session can change: registrations appear only for its own socket.\<close>

lemma pf_message_any:
  assumes "pf_message data (q, s) = (r, (q', s'))"
  shows "closed_ws s' = closed_ws s \<and> container_ws t s' = container_ws t s
    \<and> (user_of t c s' = Some ws \<longrightarrow> ws = ps_ws q \<or> user_of t c s = Some ws)"
proof (cases "parse_header data")
  case None
  with assms show ?thesis by (simp add: pf_message_def)
next
  case (Some h)
  have m: "handle_pf_message h data (q, s) = (r, (q', s'))" using assms Some by (simp add: pf_message_def)
  obtain b s1 where sc: "send_to_container (ps_tunnel q) data s = (b, s1)" by fastforce
  then have s1_eq: "s1 = snd (send_to_container (ps_tunnel q) data s)" by simp
  have s1: "closed_ws s1 = closed_ws s" "container_ws t s1 = container_ws t s" "user_of t c s1 = user_of t c s"
    unfolding s1_eq by simp_all
  show ?thesis
  proof (cases "msg_type h = MSG_CONNECT")
    case True
    with m sc s1 show ?thesis
      by (cases b) (auto simp: handle_pf_message_def Let_def user_of_register
          dest: ws_send_fields [where t = t and c = c] split: sum.splits prod.splits if_splits)
  next
    case False
    with m show ?thesis
      by (auto simp: handle_pf_message_def Let_def user_of_unregister split: if_splits)
  qed
qed

text \<open>Ending a session registers nobody.\<close>

lemma pf_cleanup_any:
  "closed_ws (snd (pf_cleanup tid p cs s)) = closed_ws s \<and> container_ws t (snd (pf_cleanup tid p cs s)) = container_ws t s \<and>
   (user_of t c (snd (pf_cleanup tid p cs s)) = Some ws \<longrightarrow> user_of t c s = Some ws)"
proof (induction cs arbitrary: s)
  case (Cons a cs)
  show ?case
  proof (cases "build_message MSG_CLOSE p a 0 []")
    case (Inr m)
    with Cons.IH [of "unregister_user_connection tid a (snd (send_to_container tid m s))"]
    show ?thesis by (auto simp: user_of_unregister split: if_splits)
  qed simp
qed simp

text \<open>Client ids come from headers.\<close>

lemma pf_message_active:
  assumes "pf_message data (q, s) = (r, (q', s'))" "c \<in> set (active_clients q')"
  shows "c \<in> set (active_clients q) \<or> in_range 4 c"
proof (cases "parse_header data")
  case (Some h)
  have "in_range 4 (client_id h)" using parse_header_ok [OF Some] by (simp add: header_ok_def)
  with Some assms show ?thesis
    by (auto simp: pf_message_def handle_pf_message_def Let_def split: if_splits prod.splits sum.splits bool.splits)
qed (use assms in \<open>simp add: pf_message_def\<close>)

lemma pf_step_any:
  assumes "pf_step data (q, s) = (qo, s')"
  shows "closed_ws s' = closed_ws s \<and> container_ws t s' = container_ws t s \<and>
    (user_of t c s' = Some ws \<longrightarrow> ws = ps_ws q \<or> user_of t c s = Some ws)"
proof -
  obtain r q' s1 where m: "pf_message data (q, s) = (r, (q', s1))" by (metis prod.exhaust)
  note a = pf_message_any [OF m, of t c ws]
  show ?thesis
  proof (cases r)
    case (Inl e)
    with assms m have "s' = snd (pf_cleanup (ps_tunnel q') (ps_proto q') (active_clients q') s1)"
      by (simp add: pf_step_def pf_close_def)
    with a pf_cleanup_any [of "ps_tunnel q'" "ps_proto q'" "active_clients q'" s1 t c ws] show ?thesis by auto
  next
    case (Inr x)
    with assms m a show ?thesis by (simp add: pf_step_def)
  qed
qed

lemma disconnect_fields [simp]:
  "container_ws t (container_disconnect cid w s) = container_ws t s" "user_of t c (container_disconnect cid w s) = user_of t c s"
  "set (closed_ws (container_disconnect cid w s)) = insert w (set (closed_ws s))"
  by (simp_all add: container_disconnect_def unregister_tunnel_def container_ws_def user_of_def)

interpretation ts: guarded_machine "session_ok w p0" session_step "\<lambda>ps. True" "keeps_open w" "session_ok w p0" for w p0
proof
  show "session_ok w p0 (session_step e ps)" if ok: "session_ok w p0 ps" and k: "keeps_open w e" for ps e
  proof -
    obtain p s where ps: "ps = (Some p, s)" and w: "container_ws (ps_tunnel p) s = Some w" "w \<notin> set (closed_ws s)"
      and same: "ps_tunnel p = ps_tunnel p0" "ps_ws p = ps_ws p0" "ps_proto p = ps_proto p0"
      and u: "\<And>c. user_of (ps_tunnel p) c s = Some (ps_ws p) \<Longrightarrow> c \<in> set (active_clients p)"
      and cl: "\<forall>c \<in> set (active_clients p). in_range 4 c"
      using ok by (auto simp: session_ok_def)
    show ?thesis
    proof (cases e)
      case (Mine data)
      obtain r p' s' where m: "pf_message data (p, s) = (r, (p', s'))" by (metis prod.exhaust)
      note o = pf_message_open [OF w m]
      have "c \<in> set (active_clients p')" if "user_of (ps_tunnel p) c s' = Some (ps_ws p)" for c
        using o [where t = "ps_tunnel p" and c = c and ws = "ps_ws p"] that u [of c] by blast
      moreover have "\<forall>c \<in> set (active_clients p'). in_range 4 c" using pf_message_active [OF m] cl by blast
      ultimately show ?thesis using o w Mine m ps same by (simp add: session_ok_def pf_step_def)
    next
      case (FromContainer tid data)
      have "c \<in> set (active_clients p)"
        if "user_of (ps_tunnel p) c (handle_container_message tid data s) = Some (ps_ws p)" for c
        using hcm_user [OF that] u by blast
      with FromContainer ps w same cl show ?thesis by (simp add: session_ok_def container_message_def)
    next
      case (Other q data)
      obtain qo s' where m: "pf_step data (q, s) = (qo, s')" by fastforce
      show ?thesis
      proof (cases "ps_ws q = ps_ws p")
        case False
        have "c \<in> set (active_clients p)" if "user_of (ps_tunnel p) c s' = Some (ps_ws p)" for c
          using pf_step_any [OF m, of "ps_tunnel p" c "ps_ws p"] that False u [of c] by auto
        then show ?thesis
          using pf_step_any [OF m] Other ps m w False same cl by (simp add: session_ok_def)
      qed (use Other ps ok in simp)
    next
      case (Disconnects cid w')
      with ps k w u same cl show ?thesis by (simp add: session_ok_def)
    qed
  qed
qed simp_all

lemma close_message_ok: "in_range 1 p \<Longrightarrow> in_range 4 c \<Longrightarrow> \<exists>m. build_message MSG_CLOSE p c 0 [] = Inr m"
  by (simp add: build_message_def in_range_def MSG_CLOSE_def)

lemma pf_cleanup_effect:
  assumes "container_ws tid s = Some w" "w \<notin> set (closed_ws s)" "in_range 1 p" "\<forall>c \<in> set cs. in_range 4 c"
    "pf_cleanup tid p cs s = (r, s')"
  shows "r = Inr () \<and> (\<forall>t c. user_of t c s' = (if t = tid \<and> c \<in> set cs then None else user_of t c s))
    \<and> sent s' = sent s @ map (\<lambda>c. (w, WBytes (projr (build_message MSG_CLOSE p c 0 [])))) cs"
  using assms
proof (induction cs arbitrary: s)
  case (Cons c cs)
  obtain m where m: "build_message MSG_CLOSE p c 0 [] = Inr m"
    using close_message_ok [OF Cons.prems(3), of c] Cons.prems(4) by auto
  let ?s1 = "unregister_user_connection tid c (s\<lparr>sent := sent s @ [(w, WBytes m)]\<rparr>)"
  have rec: "pf_cleanup tid p cs ?s1 = (r, s')"
    using Cons.prems(5) m send_open [OF Cons.prems(1,2)] by simp
  have "r = Inr () \<and> (\<forall>t c. user_of t c s' = (if t = tid \<and> c \<in> set cs then None else user_of t c ?s1))
    \<and> sent s' = sent ?s1 @ map (\<lambda>c. (w, WBytes (projr (build_message MSG_CLOSE p c 0 [])))) cs"
    using Cons.prems by (intro Cons.IH [OF _ _ _ _ rec]) auto
  with m show ?case by (auto simp: user_of_unregister)
qed simp

text \<open>C19
  A port-forward session on a tunnel whose container keeps its socket open: whatever messages the
  session, the container and other sessions exchange, and whichever other containers disconnect,
  no message ends the session with an exception; and when it ends, every client it had open is
  closed towards the container, and no client id of the tunnel is left registered to its socket.
  (If the container itself disconnects this fails: a CONNECT that cannot be sent stays registered.)
\<close>

theorem session_leaves_nothing:
  assumes "session_fresh w p0 s0" "list_all (keeps_open w) es" "in_range 1 (ps_proto p0)"
    "fold session_step es (Some p0, s0) = (po, s)"
  shows "\<exists>p. po = Some p \<and> ps_tunnel p = ps_tunnel p0 \<and> ps_ws p = ps_ws p0 \<and>
    (\<exists>s'. pf_close p s = (Inr (), s') \<and> (\<forall>c. user_of (ps_tunnel p0) c s' \<noteq> Some (ps_ws p0)) \<and>
      sent s' = sent s @ map (\<lambda>c. (w, WBytes (projr (build_message MSG_CLOSE (ps_proto p0) c 0 [])))) (active_clients p))"
proof -
  have "session_ok w p0 (po, s)"
    using ts.run_held [OF TrueI session_fresh_ok [OF assms(1)] assms(2)] assms(4) by simp
  then obtain p where p: "po = Some p" "ps_tunnel p = ps_tunnel p0" "ps_ws p = ps_ws p0" "ps_proto p = ps_proto p0"
    and w: "container_ws (ps_tunnel p) s = Some w" "w \<notin> set (closed_ws s)"
    and u: "\<And>c. user_of (ps_tunnel p) c s = Some (ps_ws p) \<Longrightarrow> c \<in> set (active_clients p)"
    and cl: "\<forall>c \<in> set (active_clients p). in_range 4 c"
    by (auto simp: session_ok_def)
  obtain r s' where c: "pf_cleanup (ps_tunnel p) (ps_proto p) (active_clients p) s = (r, s')" by fastforce
  have "in_range 1 (ps_proto p)" using assms(3) p(4) by simp
  note e = pf_cleanup_effect [OF w this cl c]
  have "user_of (ps_tunnel p) c s' \<noteq> Some (ps_ws p)" for c
    using e u [of c] by auto
  with e c p show ?thesis by (auto simp: pf_close_def)
qed

definition demo_session :: "pf_session \<times> tn_state" where
  "demo_session = (\<lparr>ps_tunnel = 0, ps_ws = 42, ps_proto = 0, active_clients = []\<rparr>, snd (container_connect ''job'' 1 tn_start))"

lemma session_leaves_nothing_witness:
  "\<exists>p s. fold session_step [Mine [1, 0, 0, 0, 0, 7, 0, 80], Disconnects ''other'' 2] (Some (fst demo_session), snd demo_session) = (Some p, s)
     \<and> user_of 0 7 s = Some 42 \<and> user_of 0 7 (snd (pf_close p s)) \<noteq> Some 42"
proof -
  let ?es = "[Mine [1, 0, 0, 0, 0, 7, 0, 80], Disconnects ''other'' 2]"
  let ?r = "fold session_step ?es (Some (fst demo_session), snd demo_session)"
  obtain po s where r: "?r = (po, s)" by (cases ?r)
  have f: "user_of 0 7 (snd ?r) = Some 42" "map_option active_clients (fst ?r) = Some [7]" by code_simp+
  have d: "ps_ws (fst demo_session) = 42" "ps_tunnel (fst demo_session) = 0" "ps_proto (fst demo_session) = 0"
    by (simp_all add: demo_session_def)
  have i: "session_fresh 1 (fst demo_session) (snd demo_session)"
    by (simp add: session_fresh_def demo_session_def container_connect_def register_tunnel_def tn_start_def new_tunnel_def
        container_ws_def user_of_def)
  from session_leaves_nothing [OF i _ _ r] f r d show ?thesis by (auto simp: in_range_def)
qed

section \<open>What goes wrong when the container is gone\<close>

text \<open>A CONNECT that cannot be delivered is answered with ERROR and not counted as active, but the
  session is registered for its client id all the same; ending the session does not remove that
  registration.
\<close>

theorem failed_connect_stays_registered:
  assumes "container_ws (ps_tunnel p) s = Some w" "w \<in> set (closed_ws s)" "ps_ws p \<notin> set (closed_ws s)"
    "parse_header data = Some h" "msg_type h = MSG_CONNECT" "in_range 1 (ps_proto p)" "active_clients p = []"
    "pf_message data (p, s) = (r, (p', s'))"
  shows "r = Inr () \<and> active_clients p' = [] \<and> user_of (ps_tunnel p) (client_id h) (snd (pf_close p' s')) = Some (ps_ws p)"
proof -
  have fail: "send_to_container (ps_tunnel p) data s = (False, s)"
    using assms(1,2) by (auto simp: send_to_container_def container_ws_def try_send_eq)
  have "in_range 4 (client_id h)" using parse_header_ok [OF assms(4)] by (simp add: header_ok_def)
  then obtain err where err: "build_message MSG_ERROR (ps_proto p) (client_id h) 0 (bytes_of ''Tunnel send failed'') = Inr err"
    using assms(6) by (simp add: build_message_def in_range_def MSG_ERROR_def)
  have "map_of (objs s) (ps_tunnel p) \<noteq> None" using assms(1) by (auto simp: container_ws_def)
  then show ?thesis
    using assms(3-5,7,8) fail err
    by (auto simp: pf_message_def handle_pf_message_def Let_def ws_send_def pf_close_def user_of_register
        register_user_connection_def [symmetric])
qed

lemma failed_connect_stays_registered_witness:
  "\<exists>p' s'. snd (pf_message [1, 0, 0, 0, 0, 7, 0, 80] (fst demo_session, (snd demo_session)\<lparr>closed_ws := [1]\<rparr>)) = (p', s')
     \<and> active_clients p' = [] \<and> user_of 0 7 (snd (pf_close p' s')) = Some 42"
proof -
  let ?p = "fst demo_session" and ?s = "(snd demo_session)\<lparr>closed_ws := [1]\<rparr>" and ?d = "[1, 0, 0, 0, 0, 7, 0, 80] :: bytes"
  have h: "parse_header ?d = Some \<lparr>msg_type = 1, proto = 0, client_id = 7, port = 80\<rparr>" by code_simp
  have f: "container_ws (ps_tunnel ?p) ?s = Some 1" "ps_ws ?p = 42" "ps_tunnel ?p = 0" "active_clients ?p = []" "ps_proto ?p = 0"
    by (simp_all add: container_ws_def demo_session_def container_connect_def register_tunnel_def tn_start_def new_tunnel_def)
  obtain r p' s' where m: "pf_message ?d (?p, ?s) = (r, (p', s'))" by (metis prod.exhaust)
  from failed_connect_stays_registered [OF f(1) _ _ h _ _ f(4) m] f m show ?thesis
    by (auto simp: MSG_CONNECT_def in_range_def)
qed

text \<open>A container that reconnects before its old connection has ended loses its tunnel: the
  \<^verbatim>\<open>finally\<close> block of the old handler removes the entry of the new connection, which is
  still open.
\<close>

theorem reconnected_tunnel_lost:
  assumes "register_tunnel cid w2 (snd (register_tunnel cid w1 s)) = (t2, s2)" "w1 \<noteq> w2" "w2 \<notin> set (closed_ws s)"
    "s3 = container_disconnect cid w1 s2"
  shows "get_tunnel cid s2 = Some t2 \<and> container_ws t2 s3 = Some w2 \<and> w2 \<notin> set (closed_ws s3) \<and> \<not> has_tunnel cid s3"
  using assms
  by (auto simp: register_tunnel_def container_disconnect_def unregister_tunnel_def get_tunnel_def has_tunnel_def
      container_ws_def new_tunnel_def get_update keys_delete [simplified])

lemma reconnected_tunnel_lost_witness:
  "has_tunnel ''job'' (snd (register_tunnel ''job'' 2 (snd (register_tunnel ''job'' 1 tn_start))))
   \<and> \<not> has_tunnel ''job'' (container_disconnect ''job'' 1 (snd (register_tunnel ''job'' 2 (snd (register_tunnel ''job'' 1 tn_start)))))"
proof -
  have h: "has_tunnel ''job'' (snd (register_tunnel ''job'' 2 (snd (register_tunnel ''job'' 1 tn_start))))" by code_simp
  have e: "register_tunnel ''job'' 2 (snd (register_tunnel ''job'' 1 tn_start))
      = (1, snd (register_tunnel ''job'' 2 (snd (register_tunnel ''job'' 1 tn_start))))"
    by (simp add: register_tunnel_def tn_start_def)
  from reconnected_tunnel_lost [OF e _ _ refl] h show ?thesis by (auto simp: tn_start_def)
qed

end
