(* ===== verification/Ipv4.thy ===== *)
theory Ipv4
  imports Py_Strings
begin

text \<open>
  What the modelled code uses of Python's \<^verbatim>\<open>ipaddress\<close> module: \<^verbatim>\<open>IPv4Address\<close> from an
  integer and from a dotted quad, its printed form, and \<^verbatim>\<open>IPv4Network(s, strict=False)\<close>.
  An address is an \<open>int\<close> between 0 and \<open>2 ^ 32 - 1\<close>.  The main fact is the round trip
  \<open>parse_ipv4_str\<close>.
\<close>

section \<open>Addresses\<close>

text \<open>\<^verbatim>\<open>IPv4Address(n)\<close>: \<^verbatim>\<open>AddressValueError\<close> outside the range.\<close>

definition ipv4_address :: "int \<Rightarrow> int res" where
  "ipv4_address a = (if 0 \<le> a \<and> a < 2 ^ 32 then Inr a else Inl AddressValueError)"

definition octet :: "nat \<Rightarrow> int \<Rightarrow> nat" where
  "octet i a = nat (a div 256 ^ i mod 256)"

definition ipv4_str :: "int \<Rightarrow> string" where
  "ipv4_str a = str_of_nat (octet 3 a) @ ''.'' @ str_of_nat (octet 2 a) @ ''.''
                @ str_of_nat (octet 1 a) @ ''.'' @ str_of_nat (octet 0 a)"

text \<open>\<^verbatim>\<open>_parse_octet\<close>: ASCII digits only, at most three, no leading zero, at most 255.\<close>

definition parse_octet :: "string \<Rightarrow> nat option" where
  "parse_octet s =
     (if \<not> isdigit s \<or> 3 < length s \<or> (s \<noteq> ''0'' \<and> hd s = CHR ''0'') then None
      else (case parse_nat 10 s of None \<Rightarrow> None | Some v \<Rightarrow> if v > 255 then None else Some v))"

definition parse_ipv4 :: "string \<Rightarrow> int res" where
  "parse_ipv4 s =
     (case map parse_octet (split_on CHR ''.'' s) of
        [Some a, Some b, Some c, Some d] \<Rightarrow> Inr (int a * 2 ^ 24 + int b * 2 ^ 16 + int c * 2 ^ 8 + int d)
      | _ \<Rightarrow> Inl AddressValueError)"

section \<open>Networks\<close>

record ipv4_network =
  network_address :: int
  prefixlen :: int

definition network_str :: "ipv4_network \<Rightarrow> string" where
  "network_str n = ipv4_str (network_address n) @ ''/'' @ str_of_int (prefixlen n)"

text \<open>
  The mask part: a decimal prefix length, or a dotted netmask (\<^verbatim>\<open>255.255.255.0\<close>), or a
  dotted host mask (\<^verbatim>\<open>0.0.0.255\<close>).
\<close>

definition prefix_of_mask :: "int \<Rightarrow> int option" where
  "prefix_of_mask m = map_option int (find (\<lambda>p. m = 2 ^ 32 - 2 ^ (32 - p)) [0..<33])"

definition parse_prefix :: "string \<Rightarrow> int res" where
  "parse_prefix s =
     (case (if isdigit s then parse_nat 10 s else None) of
        Some p \<Rightarrow> if p \<le> 32 then Inr (int p) else Inl NetmaskValueError
      | None \<Rightarrow>
          (case parse_ipv4 s of
             Inl e \<Rightarrow> Inl NetmaskValueError
           | Inr m \<Rightarrow>
               (case prefix_of_mask m of
                  Some p \<Rightarrow> Inr p
                | None \<Rightarrow>
                    (case prefix_of_mask (2 ^ 32 - 1 - m) of
                       Some p \<Rightarrow> Inr p
                     | None \<Rightarrow> Inl NetmaskValueError))))"

definition mask_address :: "int \<Rightarrow> int \<Rightarrow> int" where
  "mask_address a p = a - a mod 2 ^ nat (32 - p)"

definition ipv4_network :: "string \<Rightarrow> ipv4_network res" where
  "ipv4_network s =
     (case split_on CHR ''/'' s of
        [host] \<Rightarrow> bind_res (parse_ipv4 host) (\<lambda>a. Inr \<lparr>network_address = a, prefixlen = 32\<rparr>)
      | [host, netmask] \<Rightarrow>
          bind_res (parse_ipv4 host) (\<lambda>a.
          bind_res (parse_prefix netmask) (\<lambda>p.
            Inr \<lparr>network_address = mask_address a p, prefixlen = p\<rparr>))
      | _ \<Rightarrow> Inl AddressValueError)"

section \<open>Lemmas\<close>

lemma octet_bound: "octet i a < 256"
proof -
  have "a div 256 ^ i mod 256 < 256" "0 \<le> a div 256 ^ i mod 256" by simp_all
  then show ?thesis unfolding octet_def by linarith
qed

lemma octets_sum:
  assumes "0 \<le> a" "a < 2 ^ 32"
  shows "int (octet 3 a) * 2 ^ 24 + int (octet 2 a) * 2 ^ 16 + int (octet 1 a) * 2 ^ 8 + int (octet 0 a) = a"
proof -
  let ?q0 = "a div 256" and ?q1 = "a div 256 div 256" and ?q2 = "a div 256 div 256 div 256"
  have q: "a div 256 ^ 1 = ?q0" "a div 256 ^ 2 = ?q1" "a div 256 ^ 3 = ?q2"
    by (simp_all add: zdiv_zmult2_eq [symmetric])
  have "0 \<le> ?q2" "?q2 < 256" using assms by (simp_all add: zdiv_zmult2_eq [symmetric])
  then have o3: "int (octet 3 a) = ?q2" unfolding octet_def q by simp
  have o: "int (octet 2 a) = ?q1 mod 256" "int (octet 1 a) = ?q0 mod 256" "int (octet 0 a) = a mod 256"
    using q by (simp_all add: octet_def)
  have "a = ?q0 * 256 + a mod 256" "?q0 = ?q1 * 256 + ?q0 mod 256" "?q1 = ?q2 * 256 + ?q1 mod 256"
    by simp_all
  then have "?q2 * 16777216 + ?q1 mod 256 * 65536 + ?q0 mod 256 * 256 + a mod 256 = a" by linarith
  then show ?thesis unfolding o o3 by simp
qed

lemma digits_of_10_small: "n < 1000 \<Longrightarrow> length (digits_of 10 n) \<le> 3"
  by (simp add: digits_of.simps [of 10 n] digits_of.simps [of 10 "n div 10"]
      digits_of.simps [of 10 "n div 10 div 10"])

lemma digits_of_10_hd: "hd (digits_of 10 n) = CHR ''0'' \<Longrightarrow> n = 0"
proof (induction "10 :: nat" n rule: digits_of.induct)
  case (1 n)
  show ?case
  proof (cases "n < 10")
    case True
    with "1.prems" have "of_char (digit_char n) = (48 :: nat)"
      by (simp add: digits_of.simps [of 10 n] of_char_def)
    with True show ?thesis by (simp add: of_char_digit_char)
  next
    case False
    with "1.prems" have "hd (digits_of 10 (n div 10)) = CHR ''0''"
      by (simp add: digits_of.simps [of 10 n])
    with "1.hyps" False have "n div 10 = 0" by simp
    with False show ?thesis by simp
  qed
qed

lemma str_of_nat_0: "str_of_nat 0 = ''0''"
proof -
  have "digit_char 0 = CHR ''0''" by (simp add: digit_char_def) code_simp
  then show ?thesis by (simp add: str_of_nat_def digits_of.simps)
qed

lemma parse_octet_str [simp]: "n < 256 \<Longrightarrow> parse_octet (str_of_nat n) = Some n"
proof -
  assume n: "n < 256"
  have "str_of_nat n \<noteq> ''0'' \<Longrightarrow> hd (str_of_nat n) \<noteq> CHR ''0''"
    using digits_of_10_hd [of n] str_of_nat_0 by (auto simp: str_of_nat_def)
  moreover have "length (str_of_nat n) \<le> 3"
    using digits_of_10_small [of n] n by (simp add: str_of_nat_def)
  moreover have "parse_nat 10 (str_of_nat n) = Some n" by (simp add: str_of_nat_def)
  ultimately show ?thesis using n by (auto simp: parse_octet_def)
qed

theorem parse_ipv4_str [simp]: "0 \<le> a \<Longrightarrow> a < 2 ^ 32 \<Longrightarrow> parse_ipv4 (ipv4_str a) = Inr a"
  using octets_sum [of a]
  by (simp add: parse_ipv4_def ipv4_str_def split_on_Cons split_on_no_sep octet_bound)

lemma ipv4_str_inject: "0 \<le> a \<Longrightarrow> a < 2 ^ 32 \<Longrightarrow> 0 \<le> b \<Longrightarrow> b < 2 ^ 32 \<Longrightarrow>
  ipv4_str a = ipv4_str b \<longleftrightarrow> a = b"
  by (metis parse_ipv4_str sum.inject(2))

lemma ipv4_str_chars: "c \<in> set (ipv4_str a) \<Longrightarrow> c \<noteq> CHR ''/'' \<and> \<not> is_space c"
  by (auto simp: ipv4_str_def is_space_def dest: str_of_nat_no_space)

lemma ipv4_address_ok [simp]: "0 \<le> a \<Longrightarrow> a < 2 ^ 32 \<Longrightarrow> ipv4_address a = Inr a"
  by (simp add: ipv4_address_def)

lemma parse_prefix_str [simp]: "0 \<le> p \<Longrightarrow> p \<le> 32 \<Longrightarrow> parse_prefix (str_of_int p) = Inr p"
  by (simp add: parse_prefix_def) (simp add: str_of_nat_def)

lemma ipv4_network_str:
  "0 \<le> a \<Longrightarrow> a < 2 ^ 32 \<Longrightarrow> 0 \<le> p \<Longrightarrow> p \<le> 32 \<Longrightarrow>
   ipv4_network (ipv4_str a @ ''/'' @ str_of_int p) = Inr \<lparr>network_address = mask_address a p, prefixlen = p\<rparr>"
proof -
  have "CHR ''/'' \<notin> set (ipv4_str a)" using ipv4_str_chars [of "CHR ''/''" a] by blast
  then have "split_on CHR ''/'' (ipv4_str a @ CHR ''/'' # t) = ipv4_str a # split_on CHR ''/'' t" for t
    by (rule split_on_Cons)
  moreover assume "0 \<le> a" "a < 2 ^ 32" "0 \<le> p" "p \<le> 32"
  ultimately show ?thesis by (simp add: ipv4_network_def split_on_no_sep) (simp add: str_of_int_nat [symmetric] del: str_of_int_nat)
qed

lemma parse_ipv4_range: "parse_ipv4 s = Inr a \<Longrightarrow> 0 \<le> a \<and> a < 2 ^ 32"
proof -
  assume "parse_ipv4 s = Inr a"
  then obtain x y z w where
    s: "map parse_octet (split_on CHR ''.'' s) = [Some x, Some y, Some z, Some w]"
    and a: "a = int x * 2 ^ 24 + int y * 2 ^ 16 + int z * 2 ^ 8 + int w"
    by (auto simp: parse_ipv4_def split: list.splits option.splits)
  have "parse_octet t = Some n \<Longrightarrow> n < 256" for t n
    by (auto simp: parse_octet_def split: if_splits option.splits)
  with s have "x < 256" "y < 256" "z < 256" "w < 256" by auto
  with a show ?thesis by simp
qed

lemma mask_address_aligned:
  assumes "0 \<le> a" "a < 2 ^ 32" "0 \<le> p" "p \<le> 32"
  shows "mask_address a p mod 2 ^ nat (32 - p) = 0" "0 \<le> mask_address a p" "mask_address a p < 2 ^ 32"
proof -
  let ?m = "2 ^ nat (32 - p) :: int"
  have "mask_address a p = ?m * (a div ?m)"
    by (simp add: mask_address_def minus_mod_eq_mult_div)
  then show "mask_address a p mod ?m = 0" by simp
  have "a mod ?m \<le> a" using assms by (simp add: zmod_le_nonneg_dividend)
  moreover have "0 \<le> a mod ?m" by simp
  ultimately show "0 \<le> mask_address a p" "mask_address a p < 2 ^ 32"
    using assms unfolding mask_address_def by linarith+
qed

end
