(* ===== verification/Overlay_Subnet.thy ===== *)
theory Overlay_Subnet
  imports Ipv4
begin

unbundle bit_operations_syntax

text \<open>
  The overlay address plan (\<^verbatim>\<open>models/overlay_subnet.py\<close>): the configuration string
  \<^verbatim>\<open>BASE/PREFIX/NODE_BITS/SUBNET_BITS\<close>, the flat form of a plain CIDR, and every address
  computed from them.  \<open>subnet_ok\<close> is the well-formedness both constructors establish; on
  it no accessor raises, the runners' subnets are disjoint blocks of the overlay network,
  and gateway, host address and container range never collide.
\<close>

section \<open>The configuration\<close>

record overlay_subnet_config =
  base_network :: ipv4_network
  total_prefix :: int
  node_bits :: int
  subnet_bits :: int

definition DEFAULT_CONFIG :: string where
  "DEFAULT_CONFIG = ''10.128.0.0/12/6/14''"

definition subnet_parse :: "string \<Rightarrow> overlay_subnet_config res" where
  "subnet_parse config_str =
     (case split_on CHR ''/'' (strip config_str) of
        [base_ip, p1, p2, p3] \<Rightarrow>
          (case (int_of_str 10 p1, int_of_str 10 p2, int_of_str 10 p3) of
             (Some tp, Some nb, Some sb) \<Rightarrow>
               if tp + nb + sb \<noteq> 32 then Inl (ValueError ''must equal 32'')
               else if tp < 1 \<or> tp > 24 then Inl (ValueError ''Invalid total_prefix'')
               else if nb < 1 \<or> nb > 16 then Inl (ValueError ''Invalid node_bits'')
               else if sb < 8 then Inl (ValueError ''Invalid subnet_bits'')
               else
                 (case ipv4_network (base_ip @ ''/'' @ str_of_int tp) of
                    Inl AddressValueError \<Rightarrow> Inl (ValueError ''Invalid base IP address'')
                  | Inl NetmaskValueError \<Rightarrow> Inl (ValueError ''Invalid network prefix'')
                  | Inl e \<Rightarrow> Inl e
                  | Inr n \<Rightarrow> Inr \<lparr>base_network = n, total_prefix = tp, node_bits = nb, subnet_bits = sb\<rparr>)
           | _ \<Rightarrow> Inl (ValueError ''Prefix values must be integers''))
      | _ \<Rightarrow> Inl (ValueError ''Invalid overlay subnet format''))"

definition from_simple_cidr :: "string \<Rightarrow> overlay_subnet_config res" where
  "from_simple_cidr cidr =
     bind_res (ipv4_network cidr) (\<lambda>network.
       Inr \<lparr>base_network = network, total_prefix = prefixlen network, node_bits = 0,
            subnet_bits = 32 - prefixlen network\<rparr>)"

definition is_flat :: "overlay_subnet_config \<Rightarrow> bool" where
  "is_flat c \<longleftrightarrow> node_bits c = 0"

definition subnet_default :: "overlay_subnet_config res" where
  "subnet_default = subnet_parse DEFAULT_CONFIG"

definition max_runners :: "overlay_subnet_config \<Rightarrow> int" where
  "max_runners c = (if is_flat c then 63 else 2 ^ nat (node_bits c) - 1)"

definition ips_per_runner :: "overlay_subnet_config \<Rightarrow> int" where
  "ips_per_runner c = 2 ^ nat (subnet_bits c) - 4"

definition runner_prefix :: "overlay_subnet_config \<Rightarrow> int" where
  "runner_prefix c = 32 - subnet_bits c"

definition overlay_prefix :: "overlay_subnet_config \<Rightarrow> int" where
  "overlay_prefix c = total_prefix c"

section \<open>Addresses\<close>

definition base_int :: "overlay_subnet_config \<Rightarrow> int" where
  "base_int c = network_address (base_network c)"

definition ip_string :: "int \<Rightarrow> string res" where
  "ip_string a = bind_res (ipv4_address a) (\<lambda>x. Inr (ipv4_str x))"

definition get_host_ip :: "overlay_subnet_config \<Rightarrow> string res" where
  "get_host_ip c =
     (if is_flat c
      then let subnet_size = 2 ^ nat (subnet_bits c) in ip_string (base_int c + subnet_size - 2)
      else ip_string (base_int c + 1))"

definition validate_runner_id :: "overlay_subnet_config \<Rightarrow> int \<Rightarrow> unit res" where
  "validate_runner_id c runner_id =
     (if runner_id < 1 \<or> runner_id > max_runners c then Inl (ValueError ''Invalid runner_id'') else Inr ())"

definition get_runner_subnet :: "overlay_subnet_config \<Rightarrow> int \<Rightarrow> string res" where
  "get_runner_subnet c runner_id =
     bind_res (validate_runner_id c runner_id) (\<lambda>_.
       if is_flat c then Inr (network_str (base_network c))
       else
         let runner_offset = push_bit (nat (subnet_bits c)) runner_id;
             subnet_addr = base_int c + runner_offset
         in bind_res (ip_string subnet_addr) (\<lambda>s. Inr (s @ ''/'' @ str_of_int (runner_prefix c))))"

definition get_runner_gateway :: "overlay_subnet_config \<Rightarrow> int \<Rightarrow> string res" where
  "get_runner_gateway c runner_id =
     bind_res (validate_runner_id c runner_id) (\<lambda>_.
       if is_flat c then ip_string (base_int c + 1)
       else
         let runner_offset = push_bit (nat (subnet_bits c)) runner_id
         in ip_string (base_int c + runner_offset + 1))"

definition get_host_ip_on_runner_subnet :: "overlay_subnet_config \<Rightarrow> int \<Rightarrow> string res" where
  "get_host_ip_on_runner_subnet c runner_id =
     bind_res (validate_runner_id c runner_id) (\<lambda>_.
       if is_flat c
       then let subnet_size = 2 ^ nat (subnet_bits c) in ip_string (base_int c + subnet_size - 2)
       else
         let runner_offset = push_bit (nat (subnet_bits c)) runner_id
         in ip_string (base_int c + runner_offset + 254))"

text \<open>The last address of a hierarchical range, with the \<^verbatim>\<open>.254\<close> adjustment.\<close>

definition range_last :: "int \<Rightarrow> int \<Rightarrow> int" where
  "range_last subnet_base subnet_size =
     (let last_addr = subnet_base + subnet_size - 2
      in if last_addr AND 255 = 254 then last_addr - 1 else last_addr)"

definition get_container_ip_range :: "overlay_subnet_config \<Rightarrow> int \<Rightarrow> (string \<times> string) res" where
  "get_container_ip_range c runner_id =
     bind_res (validate_runner_id c runner_id) (\<lambda>_.
       let subnet_size = 2 ^ nat (subnet_bits c) in
       if is_flat c
       then bind_res (ip_string (base_int c + 2)) (\<lambda>first_ip.
            bind_res (ip_string (base_int c + subnet_size - 3)) (\<lambda>last_ip.
              Inr (first_ip, last_ip)))
       else
         let runner_offset = push_bit (nat (subnet_bits c)) runner_id;
             subnet_base = base_int c + runner_offset
         in bind_res (ip_string (subnet_base + 2)) (\<lambda>first_ip.
            bind_res (ip_string (range_last subnet_base subnet_size)) (\<lambda>last_ip.
              Inr (first_ip, last_ip))))"

definition get_overlay_network_cidr :: "overlay_subnet_config \<Rightarrow> string" where
  "get_overlay_network_cidr c = network_str (base_network c)"

definition subnet_str :: "overlay_subnet_config \<Rightarrow> string" where
  "subnet_str c = ipv4_str (base_int c) @ ''/'' @ str_of_int (total_prefix c) @ ''/''
                  @ str_of_int (node_bits c) @ ''/'' @ str_of_int (subnet_bits c)"

section \<open>Well-formed configurations\<close>

text \<open>
  What \<open>subnet_parse\<close> establishes (hierarchical), and what \<open>from_simple_cidr\<close> establishes
  for a network of at least four addresses (flat).
\<close>

definition subnet_ok :: "overlay_subnet_config \<Rightarrow> bool" where
  "subnet_ok c \<longleftrightarrow>
     total_prefix c + node_bits c + subnet_bits c = 32 \<and>
     0 \<le> base_int c \<and> base_int c < 2 ^ 32 \<and>
     base_int c mod 2 ^ nat (32 - total_prefix c) = 0 \<and>
     prefixlen (base_network c) = total_prefix c \<and>
     (if is_flat c then 0 \<le> total_prefix c \<and> total_prefix c \<le> 30
      else 1 \<le> total_prefix c \<and> total_prefix c \<le> 24 \<and> 1 \<le> node_bits c \<and> node_bits c \<le> 16
           \<and> 8 \<le> subnet_bits c)"

text \<open>The first address of a runner's subnet: the shared base in flat mode.\<close>

definition subnet_start :: "overlay_subnet_config \<Rightarrow> int \<Rightarrow> int" where
  "subnet_start c i = (if is_flat c then base_int c else base_int c + i * 2 ^ nat (subnet_bits c))"

definition subnet_size :: "overlay_subnet_config \<Rightarrow> int" where
  "subnet_size c = 2 ^ nat (subnet_bits c)"

definition host_offset :: "overlay_subnet_config \<Rightarrow> int" where
  "host_offset c = (if is_flat c then subnet_size c - 2 else 254)"

definition runner_id_ok :: "overlay_subnet_config \<Rightarrow> int \<Rightarrow> bool" where
  "runner_id_ok c i \<longleftrightarrow> 1 \<le> i \<and> i \<le> max_runners c"

section \<open>Arithmetic of the plan\<close>

lemma pow_nat_split: "0 \<le> a \<Longrightarrow> 0 \<le> b \<Longrightarrow> (2::int) ^ nat (a + b) = 2 ^ nat a * 2 ^ nat b"
  by (simp add: nat_add_distrib power_add)

lemma network_top:
  assumes "subnet_ok c"
  shows "base_int c + 2 ^ nat (32 - total_prefix c) \<le> 2 ^ 32"
proof -
  let ?T = "2 ^ nat (32 - total_prefix c) :: int" and ?K = "2 ^ nat (total_prefix c) :: int"
  have tp: "0 \<le> total_prefix c" "total_prefix c \<le> 30" and m: "base_int c mod ?T = 0"
    and lt: "base_int c < 2 ^ 32"
    using assms by (auto simp: subnet_ok_def split: if_splits)
  from tp have "?K * ?T = 2 ^ nat (total_prefix c + (32 - total_prefix c))"
    by (intro pow_nat_split [symmetric]) auto
  then have KT: "?K * ?T = 2 ^ 32" by simp
  from m obtain k where k: "base_int c = ?T * k" by (auto elim: dvdE simp: mod_eq_0_iff_dvd)
  with lt KT have "?T * k < ?T * ?K" by (simp add: mult.commute)
  then have "k < ?K" by simp
  then have "?T * (k + 1) \<le> ?T * ?K" by simp
  with k KT show ?thesis by (simp add: algebra_simps)
qed

lemma subnet_size_bits:
  assumes "subnet_ok c"
  shows "2 ^ nat (32 - total_prefix c) = 2 ^ nat (node_bits c) * subnet_size c"
proof -
  have "32 - total_prefix c = node_bits c + subnet_bits c" "0 \<le> node_bits c" "0 \<le> subnet_bits c"
    using assms by (auto simp: subnet_ok_def is_flat_def split: if_splits)
  then show ?thesis by (simp only: pow_nat_split subnet_size_def)
qed

lemma subnet_size_hier: "subnet_ok c \<Longrightarrow> \<not> is_flat c \<Longrightarrow> 256 \<le> subnet_size c"
proof -
  assume "subnet_ok c" "\<not> is_flat c"
  then have "8 \<le> nat (subnet_bits c)" by (auto simp: subnet_ok_def)
  then have "(2::int) ^ 8 \<le> 2 ^ nat (subnet_bits c)" by (rule power_increasing) simp
  then show ?thesis by (simp add: subnet_size_def)
qed

lemma subnet_size_flat: "subnet_ok c \<Longrightarrow> is_flat c \<Longrightarrow> 4 \<le> subnet_size c"
proof -
  assume "subnet_ok c" "is_flat c"
  then have "2 \<le> nat (subnet_bits c)" by (auto simp: subnet_ok_def is_flat_def)
  then have "(2::int) ^ 2 \<le> 2 ^ nat (subnet_bits c)" by (rule power_increasing) simp
  then show ?thesis by (simp add: subnet_size_def)
qed

lemma subnet_size_ge: "subnet_ok c \<Longrightarrow> 4 \<le> subnet_size c"
  using subnet_size_hier [of c] subnet_size_flat [of c] by (cases "is_flat c") auto

lemma runner_block:
  assumes "subnet_ok c" "runner_id_ok c i"
  shows "base_int c \<le> subnet_start c i"
    and "subnet_start c i + subnet_size c \<le> base_int c + 2 ^ nat (32 - total_prefix c)"
    and "\<not> is_flat c \<Longrightarrow> base_int c + subnet_size c \<le> subnet_start c i"
proof -
  have S: "4 \<le> subnet_size c" using assms(1) by (rule subnet_size_ge)
  note T = subnet_size_bits [OF assms(1)]
  show "\<not> is_flat c \<Longrightarrow> base_int c + subnet_size c \<le> subnet_start c i"
    using assms(2) S by (simp add: subnet_start_def runner_id_ok_def subnet_size_def)
  show "base_int c \<le> subnet_start c i"
    using assms(2) by (simp add: subnet_start_def runner_id_ok_def)
  show "subnet_start c i + subnet_size c \<le> base_int c + 2 ^ nat (32 - total_prefix c)"
  proof (cases "is_flat c")
    case True
    then show ?thesis using T by (simp add: subnet_start_def is_flat_def)
  next
    case False
    then have "i + 1 \<le> 2 ^ nat (node_bits c)"
      using assms(2) by (simp add: runner_id_ok_def max_runners_def)
    then have "(i + 1) * subnet_size c \<le> 2 ^ nat (node_bits c) * subnet_size c"
      using S by (intro mult_right_mono) auto
    then show ?thesis using False T by (simp add: subnet_start_def subnet_size_def algebra_simps)
  qed
qed

lemma runner_block_range:
  assumes "subnet_ok c" "runner_id_ok c i"
  shows "0 \<le> subnet_start c i" "subnet_start c i + subnet_size c \<le> 2 ^ 32"
  using runner_block (1,2) [OF assms] network_top [OF assms(1)] assms(1) by (auto simp: subnet_ok_def)

lemma subnet_start_disjoint:
  assumes "subnet_ok c" "\<not> is_flat c" "i < j"
  shows "subnet_start c i + subnet_size c \<le> subnet_start c j"
proof -
  have "(i + 1) * subnet_size c \<le> j * subnet_size c"
    using assms(3) subnet_size_ge [OF assms(1)] by (intro mult_right_mono) auto
  then show ?thesis using assms(2) by (simp add: subnet_start_def subnet_size_def algebra_simps)
qed

lemma subnet_start_aligned:
  assumes "subnet_ok c" "\<not> is_flat c"
  shows "subnet_start c i mod 256 = 0" "subnet_size c mod 256 = 0"
proof -
  have sb: "8 \<le> nat (subnet_bits c)" and tp: "8 \<le> nat (32 - total_prefix c)"
    using assms by (auto simp: subnet_ok_def)
  have d: "(2::int) ^ 8 dvd 2 ^ nat (subnet_bits c)" using sb by (rule le_imp_power_dvd)
  then show "subnet_size c mod 256 = 0" by (simp add: subnet_size_def)
  have "(2::int) ^ 8 dvd 2 ^ nat (32 - total_prefix c)" using tp by (rule le_imp_power_dvd)
  moreover have "2 ^ nat (32 - total_prefix c) dvd base_int c" using assms by (auto simp: subnet_ok_def)
  ultimately have "(2::int) ^ 8 dvd base_int c" by (rule dvd_trans)
  with d have "(2::int) ^ 8 dvd subnet_start c i" using assms by (simp add: subnet_start_def)
  then show "subnet_start c i mod 256 = 0" by simp
qed

section \<open>The accessors on well-formed configurations\<close>

lemma ip_string_ok: "0 \<le> a \<Longrightarrow> a < 2 ^ 32 \<Longrightarrow> ip_string a = Inr (ipv4_str a)"
  by (simp add: ip_string_def)

lemma validate_runner_id_ok: "runner_id_ok c i \<Longrightarrow> validate_runner_id c i = Inr ()"
  by (auto simp: validate_runner_id_def runner_id_ok_def)

lemma validate_runner_id_bad: "\<not> runner_id_ok c i \<Longrightarrow> validate_runner_id c i = Inl (ValueError ''Invalid runner_id'')"
  by (auto simp: validate_runner_id_def runner_id_ok_def)

lemma and_255: "x AND 255 = x mod (256 :: int)"
  using take_bit_eq_mask [of 8 x] by (simp add: take_bit_eq_mod mask_eq_exp_minus_1)

text \<open>
  The low byte of \<open>subnet_base + size - 2\<close> is always 254, so the range always ends two before
  the broadcast address, whatever the size of the subnet.
\<close>

lemma range_last_eq:
  assumes "subnet_ok c" "\<not> is_flat c"
  shows "range_last (subnet_start c i) (subnet_size c) = subnet_start c i + subnet_size c - 3"
proof -
  have "(subnet_start c i + subnet_size c - 2) mod 256 = (0 + 0 - 2) mod 256"
    using subnet_start_aligned [OF assms] by (intro mod_diff_cong mod_add_cong) auto
  then have "(subnet_start c i + subnet_size c - 2) AND 255 = 254"
    by (simp add: and_255)
  then show ?thesis by (simp add: range_last_def Let_def)
qed

lemma get_runner_gateway_ok:
  assumes "subnet_ok c" "runner_id_ok c i"
  shows "get_runner_gateway c i = Inr (ipv4_str (subnet_start c i + 1))"
  using runner_block_range [OF assms] subnet_size_ge [OF assms(1)] assms(2)
  by (auto simp: get_runner_gateway_def validate_runner_id_ok Let_def subnet_start_def push_bit_eq_mult
      ip_string_ok)

lemma get_host_ip_on_runner_subnet_ok:
  assumes "subnet_ok c" "runner_id_ok c i"
  shows "get_host_ip_on_runner_subnet c i = Inr (ipv4_str (subnet_start c i + host_offset c))"
proof -
  have "host_offset c + 1 < subnet_size c" "0 \<le> host_offset c"
    using subnet_size_ge [OF assms(1)] subnet_size_hier [OF assms(1)] by (auto simp: host_offset_def)
  then show ?thesis
    using runner_block_range [OF assms] assms(2)
    by (auto simp: get_host_ip_on_runner_subnet_def validate_runner_id_ok Let_def subnet_start_def
        push_bit_eq_mult host_offset_def subnet_size_def ip_string_ok add_diff_eq split: if_splits)
qed

lemma get_container_ip_range_ok:
  assumes "subnet_ok c" "runner_id_ok c i"
  shows "get_container_ip_range c i
         = Inr (ipv4_str (subnet_start c i + 2), ipv4_str (subnet_start c i + subnet_size c - 3))"
proof -
  note r = runner_block_range [OF assms] and S = subnet_size_ge [OF assms(1)]
  show ?thesis
  proof (cases "is_flat c")
    case True
    then show ?thesis using r S assms(2)
      by (simp add: get_container_ip_range_def validate_runner_id_ok Let_def subnet_start_def
          subnet_size_def ip_string_ok)
  next
    case False
    have "range_last (base_int c + i * 2 ^ nat (subnet_bits c)) (2 ^ nat (subnet_bits c))
          = subnet_start c i + subnet_size c - 3"
      using range_last_eq [OF assms(1) False, of i] False by (simp add: subnet_start_def subnet_size_def)
    then show ?thesis using False r S assms(2)
      by (simp add: get_container_ip_range_def validate_runner_id_ok Let_def push_bit_eq_mult ip_string_ok)
        (simp add: subnet_start_def ip_string_ok)
  qed
qed

lemma get_runner_subnet_ok:
  assumes "subnet_ok c" "runner_id_ok c i"
  shows "get_runner_subnet c i = Inr (ipv4_str (subnet_start c i) @ ''/'' @ str_of_int (runner_prefix c))"
proof (cases "is_flat c")
  case True
  then have "runner_prefix c = total_prefix c" "prefixlen (base_network c) = total_prefix c"
    using assms(1) by (auto simp: runner_prefix_def subnet_ok_def is_flat_def)
  then show ?thesis using True assms(2)
    by (simp add: get_runner_subnet_def validate_runner_id_ok network_str_def subnet_start_def base_int_def)
next
  case False
  then show ?thesis
    using runner_block_range [OF assms] subnet_size_ge [OF assms(1)] assms(2)
    by (simp add: get_runner_subnet_def validate_runner_id_ok Let_def subnet_start_def push_bit_eq_mult
        ip_string_ok)
qed

section \<open>Parsing\<close>

lemma ipv4_network_ok:
  assumes "ipv4_network s = Inr n"
  shows "0 \<le> network_address n \<and> network_address n < 2 ^ 32
         \<and> 0 \<le> prefixlen n \<and> prefixlen n \<le> 32
         \<and> network_address n mod 2 ^ nat (32 - prefixlen n) = 0"
proof -
  have pm: "prefix_of_mask m = Some p \<Longrightarrow> 0 \<le> p \<and> p \<le> 32" for m p
    by (auto simp: prefix_of_mask_def find_Some_iff)
  have pp: "parse_prefix t = Inr p \<Longrightarrow> 0 \<le> p \<and> p \<le> 32" for t p
    by (auto simp: parse_prefix_def dest: pm split: option.splits sum.splits if_splits)
  show ?thesis using assms
    using mask_address_aligned (3)
    by (auto simp: ipv4_network_def bind_res_Inr_iff mask_address_aligned (1,2)
        dest!: parse_ipv4_range pp split: list.splits)
qed

lemma subnet_parse_Inr:
  assumes "subnet_parse s = Inr c"
  obtains b p1 p2 p3 where "split_on CHR ''/'' (strip s) = [b, p1, p2, p3]"
    "int_of_str 10 p1 = Some (total_prefix c)" "int_of_str 10 p2 = Some (node_bits c)"
    "int_of_str 10 p3 = Some (subnet_bits c)"
    "total_prefix c + node_bits c + subnet_bits c = 32"
    "1 \<le> total_prefix c" "total_prefix c \<le> 24" "1 \<le> node_bits c" "node_bits c \<le> 16" "8 \<le> subnet_bits c"
    "ipv4_network (b @ ''/'' @ str_of_int (total_prefix c)) = Inr (base_network c)"
  using assms
  by (auto simp: subnet_parse_def not_less split: list.splits option.splits if_splits sum.splits
      pyexn.splits)

lemma ipv4_network_prefix:
  assumes "ipv4_network (b @ CHR ''/'' # str_of_int p) = Inr n" "CHR ''/'' \<notin> set b" "0 \<le> p" "p \<le> 32"
  shows "prefixlen n = p"
proof -
  have "split_on CHR ''/'' (b @ CHR ''/'' # str_of_int p) = [b, str_of_int p]"
    using assms(2,3) by (simp add: split_on_Cons split_on_no_sep)
  then show ?thesis
    using assms by (auto simp: ipv4_network_def bind_res_Inr_iff simp del: str_of_int_nat)
qed

lemma split_on_parts: "t \<in> set (split_on c s) \<Longrightarrow> c \<notin> set t"
proof (induction s arbitrary: t)
  case (Cons x xs)
  show ?case
  proof (cases "split_on c xs")
    case (Cons y ys)
    with Cons.prems Cons.IH show ?thesis by (auto split: if_splits)
  qed simp
qed simp

lemma subnet_parse_ok:
  assumes "subnet_parse s = Inr c"
  shows "subnet_ok c \<and> \<not> is_flat c"
  using assms
proof (rule subnet_parse_Inr)
  fix b p1 p2 p3
  assume sp: "split_on CHR ''/'' (strip s) = [b, p1, p2, p3]"
    and sum: "total_prefix c + node_bits c + subnet_bits c = 32"
    and r: "1 \<le> total_prefix c" "total_prefix c \<le> 24" "1 \<le> node_bits c" "node_bits c \<le> 16" "8 \<le> subnet_bits c"
    and n: "ipv4_network (b @ ''/'' @ str_of_int (total_prefix c)) = Inr (base_network c)"
  have "CHR ''/'' \<notin> set b" using split_on_parts [of b "CHR ''/''" "strip s"] sp by simp
  then have "prefixlen (base_network c) = total_prefix c"
    using ipv4_network_prefix n r by simp
  with ipv4_network_ok [OF n] sum r show ?thesis
    by (auto simp: subnet_ok_def is_flat_def base_int_def)
qed

lemma from_simple_cidr_ok:
  assumes "from_simple_cidr s = Inr c" "total_prefix c \<le> 30"
  shows "subnet_ok c \<and> is_flat c"
  using assms ipv4_network_ok [of s]
  by (auto simp: from_simple_cidr_def bind_res_Inr_iff subnet_ok_def is_flat_def base_int_def)

lemma subnet_parse_str:
  assumes "subnet_ok c" "\<not> is_flat c"
  shows "subnet_parse (subnet_str c) = Inr c"
proof -
  have nosp: "strip (subnet_str c) = subnet_str c"
    using assms by (intro strip_no_space)
      (auto simp: subnet_str_def is_space_def subnet_ok_def dest: ipv4_str_chars str_of_nat_no_space)
  have noslash: "CHR ''/'' \<notin> set (ipv4_str (base_int c))"
    using ipv4_str_chars [of "CHR ''/''" "base_int c"] by blast
  have b: "0 \<le> total_prefix c" "0 \<le> node_bits c" "0 \<le> subnet_bits c"
    using assms by (auto simp: subnet_ok_def)
  have sp: "split_on CHR ''/'' (subnet_str c)
      = [ipv4_str (base_int c), str_of_int (total_prefix c), str_of_int (node_bits c), str_of_int (subnet_bits c)]"
    using b noslash by (simp add: subnet_str_def split_on_Cons split_on_no_sep)
  have "mask_address (base_int c) (total_prefix c) = base_int c"
    using assms by (simp add: mask_address_def subnet_ok_def)
  then have n: "ipv4_network (ipv4_str (base_int c) @ CHR ''/'' # str_of_int (total_prefix c)) = Inr (base_network c)"
    using assms ipv4_network_str [of "base_int c" "total_prefix c"]
    by (auto simp: subnet_ok_def base_int_def simp del: str_of_int_nat)
  show ?thesis
    using assms n by (simp add: subnet_parse_def nosp sp del: str_of_int_nat) (auto simp: subnet_ok_def)
qed

end
