(* ===== verification/Overlay_Network.thy ===== *)
theory Overlay_Network
  imports Overlay_Subnet
begin

text \<open>
  The definition of one overlay network (\<^verbatim>\<open>models/overlay_network.py\<close>) and the list of
  networks of the host configuration (\<^verbatim>\<open>host/config.py\<close>).  A configuration entry is the
  dictionary of the config file, with the optional keys as \<open>option\<close> fields.
\<close>

record overlay_network_definition =
  net_name :: string
  net_subnet :: string
  vxlan_id_base :: int
  net_masquerade :: bool
  net_vxlan_port :: int
  net_mtu :: int

definition is_simple_cidr :: "overlay_network_definition \<Rightarrow> bool" where
  "is_simple_cidr d \<longleftrightarrow> length (split_on CHR ''/'' (strip (net_subnet d))) = 2"

text \<open>\<^verbatim>\<open>name.replace("-", "").replace("_", "")\<close>\<close>

definition strip_separators :: "string \<Rightarrow> string" where
  "strip_separators s = filter (\<lambda>c. c \<noteq> CHR ''_'') (filter (\<lambda>c. c \<noteq> CHR ''-'') s)"

definition validate_network :: "overlay_network_definition \<Rightarrow> unit res" where
  "validate_network d =
     (if net_name d = [] then Inl (ValueError ''Network name cannot be empty'')
      else if \<not> isalnum (strip_separators (net_name d)) then Inl (ValueError ''Network name must be alphanumeric'')
      else if vxlan_id_base d < 1 then Inl (ValueError ''vxlan_id_base must be positive'')
      else if net_mtu d < 576 then Inl (ValueError ''MTU must be at least 576'')
      else
        let parts = split_on CHR ''/'' (strip (net_subnet d))
        in if length parts \<notin> {2, 4} then Inl (ValueError ''Invalid subnet format'') else Inr ())"

text \<open>A dictionary of the configuration file: the three required keys and the optional ones.\<close>

record network_dict =
  d_name :: string
  d_subnet :: string
  d_vxlan_id_base :: int
  d_masquerade :: "bool option"
  d_vxlan_port :: "int option"
  d_mtu :: "int option"

definition get_default :: "'a option \<Rightarrow> 'a \<Rightarrow> 'a" where
  "get_default x d = (case x of None \<Rightarrow> d | Some v \<Rightarrow> v)"

definition network_from_dict :: "network_dict \<Rightarrow> overlay_network_definition" where
  "network_from_dict d =
     \<lparr>net_name = d_name d, net_subnet = d_subnet d, vxlan_id_base = d_vxlan_id_base d,
      net_masquerade = get_default (d_masquerade d) True,
      net_vxlan_port = get_default (d_vxlan_port d) 4789,
      net_mtu = get_default (d_mtu d) 1450\<rparr>"

definition network_to_dict :: "overlay_network_definition \<Rightarrow> network_dict" where
  "network_to_dict n =
     \<lparr>d_name = net_name n, d_subnet = net_subnet n, d_vxlan_id_base = vxlan_id_base n,
      d_masquerade = Some (net_masquerade n), d_vxlan_port = Some (net_vxlan_port n),
      d_mtu = Some (net_mtu n)\<rparr>"

text \<open>The overlay fields of the host configuration.\<close>

record overlay_host_config =
  OVERLAY_ENABLED :: bool
  OVERLAY_SUBNET :: string
  OVERLAY_VXLAN_ID :: int
  OVERLAY_VXLAN_PORT :: int
  OVERLAY_MTU :: int
  OVERLAY_NETWORKS :: "network_dict list"
  HOST_REACHABLE_ADDRESS :: string

definition get_overlay_network_configs :: "overlay_host_config \<Rightarrow> network_dict list" where
  "get_overlay_network_configs cfg =
     (if OVERLAY_NETWORKS cfg \<noteq> [] then OVERLAY_NETWORKS cfg
      else if OVERLAY_ENABLED cfg
      then [\<lparr>d_name = ''default'', d_subnet = OVERLAY_SUBNET cfg, d_vxlan_id_base = OVERLAY_VXLAN_ID cfg,
             d_masquerade = Some True, d_vxlan_port = Some (OVERLAY_VXLAN_PORT cfg),
             d_mtu = Some (OVERLAY_MTU cfg)\<rparr>]
      else [])"

lemma network_dict_roundtrip: "network_from_dict (network_to_dict n) = n"
  by (simp add: network_from_dict_def network_to_dict_def get_default_def)

end
