(* ===== verification/Subnet_Properties.thy ===== *)
theory Subnet_Properties
  imports Overlay_Network
begin

text \<open>The properties of the address plan, on configurations that come out of the parser.\<close>

section \<open>A concrete plan\<close>

definition demo_plan :: overlay_subnet_config where
  "demo_plan = \<lparr>base_network = \<lparr>network_address = 176160768, prefixlen = 12\<rparr>, total_prefix = 12,
                node_bits = 6, subnet_bits = 14\<rparr>"

lemma demo_plan_parse: "subnet_parse ''10.128.0.0/12/6/14'' = Inr demo_plan"
  by code_simp

lemma demo_plan_id: "runner_id_ok demo_plan 1" "runner_id_ok demo_plan 2"
  by (simp_all add: runner_id_ok_def max_runners_def demo_plan_def is_flat_def)

section \<open>The plan\<close>

text \<open>Printing a parsed configuration and parsing it again gives the same configuration; parsing
  accepts only plans whose three widths fill the 32 bits, with a network address aligned to the
  prefix.
\<close>

theorem subnet_config_roundtrip:
  assumes "subnet_parse s = Inr c"
  shows "subnet_parse (subnet_str c) = Inr c
    \<and> total_prefix c + node_bits c + subnet_bits c = 32
    \<and> base_int c mod 2 ^ nat (32 - total_prefix c) = 0"
  using subnet_parse_ok [OF assms] subnet_parse_str [of c] by (simp add: subnet_ok_def)

lemma subnet_config_roundtrip_witness: "subnet_parse (subnet_str demo_plan) = Inr demo_plan"
  using subnet_config_roundtrip [OF demo_plan_parse] by simp

text \<open>For every runner id of a parsed plan all addresses exist and lie where the plan says: the
  gateway is the second address of the runner's block, the host's address on it is number 254,
  containers get the third to the third-last; the block lies inside the overlay network, above the
  block that holds the host's own address, and blocks of different ids are disjoint.
\<close>

theorem subnet_plan_addresses:
  assumes "subnet_parse s = Inr c" "runner_id_ok c i" "runner_id_ok c j" "i < j"
  shows "get_runner_gateway c i = Inr (ipv4_str (subnet_start c i + 1))
    \<and> get_host_ip_on_runner_subnet c i = Inr (ipv4_str (subnet_start c i + 254))
    \<and> get_container_ip_range c i = Inr (ipv4_str (subnet_start c i + 2), ipv4_str (subnet_start c i + subnet_size c - 3))
    \<and> get_host_ip c = Inr (ipv4_str (base_int c + 1)) \<and> base_int c + 1 < subnet_start c i
    \<and> subnet_start c i + subnet_size c \<le> subnet_start c j
    \<and> subnet_start c j + subnet_size c \<le> base_int c + 2 ^ nat (32 - total_prefix c)
    \<and> base_int c + 2 ^ nat (32 - total_prefix c) \<le> 2 ^ 32"
proof -
  have ok: "subnet_ok c" "\<not> is_flat c" using subnet_parse_ok [OF assms(1)] by auto
  note b = runner_block [OF ok(1) assms(2)] runner_block [OF ok(1) assms(3)]
  have s: "4 \<le> subnet_size c" using subnet_size_ge [OF ok(1)] .
  have "get_host_ip c = Inr (ipv4_str (base_int c + 1))"
    using ok b(1,2) s runner_block_range [OF ok(1) assms(2)]
    by (auto simp: get_host_ip_def subnet_ok_def intro!: ip_string_ok)
  moreover have "base_int c + 1 < subnet_start c i" using b(3) [OF ok(2)] s by linarith
  moreover have "host_offset c = 254" using ok(2) by (simp add: host_offset_def)
  ultimately show ?thesis
    using get_runner_gateway_ok [OF ok(1) assms(2)] get_host_ip_on_runner_subnet_ok [OF ok(1) assms(2)]
      get_container_ip_range_ok [OF ok(1) assms(2)] subnet_start_disjoint [OF ok assms(4)] b(5) network_top [OF ok(1)]
    by simp
qed

lemma subnet_plan_addresses_witness:
  "get_runner_gateway demo_plan 1 = Inr (ipv4_str (subnet_start demo_plan 1 + 1))"
  using subnet_plan_addresses [OF demo_plan_parse demo_plan_id] by simp

text \<open>A runner id outside the plan is refused by every accessor with \<^verbatim>\<open>ValueError\<close>, and an
  id inside it by none.
\<close>

theorem subnet_runner_id_checked:
  assumes "subnet_parse s = Inr c"
  shows "(get_runner_subnet c i = Inl (ValueError ''Invalid runner_id'') \<longleftrightarrow> \<not> runner_id_ok c i)
    \<and> (get_runner_gateway c i = Inl (ValueError ''Invalid runner_id'') \<longleftrightarrow> \<not> runner_id_ok c i)
    \<and> (get_host_ip_on_runner_subnet c i = Inl (ValueError ''Invalid runner_id'') \<longleftrightarrow> \<not> runner_id_ok c i)
    \<and> (get_container_ip_range c i = Inl (ValueError ''Invalid runner_id'') \<longleftrightarrow> \<not> runner_id_ok c i)"
proof (cases "runner_id_ok c i")
  case True
  have "subnet_ok c" using subnet_parse_ok [OF assms] by auto
  with True show ?thesis
    by (simp add: get_runner_subnet_ok get_runner_gateway_ok get_host_ip_on_runner_subnet_ok get_container_ip_range_ok)
next
  case False
  then show ?thesis
    by (simp add: get_runner_subnet_def get_runner_gateway_def get_host_ip_on_runner_subnet_def
        get_container_ip_range_def validate_runner_id_bad)
qed

lemma subnet_runner_id_checked_witness:
  "get_runner_gateway demo_plan 64 = Inl (ValueError ''Invalid runner_id'')"
proof -
  have "\<not> runner_id_ok demo_plan 64" by (simp add: runner_id_ok_def max_runners_def demo_plan_def is_flat_def)
  with subnet_runner_id_checked [OF demo_plan_parse, of 64] show ?thesis by simp
qed

text \<open>The container range of a runner has exactly \<^verbatim>\<open>ips_per_runner\<close> addresses, but when a
  subnet has more than 256 of them the host's own address is one of these, so one address fewer
  than \<^verbatim>\<open>ips_per_runner\<close> is left for containers.
\<close>

theorem ips_per_runner_counts_host:
  assumes "subnet_parse s = Inr c" "runner_id_ok c i"
  shows "length [subnet_start c i + 2 .. subnet_start c i + subnet_size c - 3] = nat (ips_per_runner c)
    \<and> (subnet_start c i + host_offset c \<in> set [subnet_start c i + 2 .. subnet_start c i + subnet_size c - 3]
       \<longleftrightarrow> subnet_bits c > 8)"
proof -
  have ok: "subnet_ok c" "\<not> is_flat c" using subnet_parse_ok [OF assms(1)] by auto
  then have h: "host_offset c = 254" "8 \<le> subnet_bits c" by (auto simp: host_offset_def subnet_ok_def)
  have "254 \<le> subnet_size c - 3 \<longleftrightarrow> subnet_bits c > 8"
  proof (cases "subnet_bits c = 8")
    case True
    then show ?thesis by (simp add: subnet_size_def)
  next
    case False
    with h have "9 \<le> nat (subnet_bits c)" by simp
    then have "(2::int) ^ 9 \<le> 2 ^ nat (subnet_bits c)" by (rule power_increasing) simp
    then show ?thesis using False h by (simp add: subnet_size_def)
  qed
  then show ?thesis using h subnet_size_ge [OF ok(1)] by (auto simp: ips_per_runner_def subnet_size_def)
qed

lemma ips_per_runner_counts_host_witness:
  "subnet_start demo_plan 1 + host_offset demo_plan
     \<in> set [subnet_start demo_plan 1 + 2 .. subnet_start demo_plan 1 + subnet_size demo_plan - 3]"
  using ips_per_runner_counts_host [OF demo_plan_parse demo_plan_id(1)] by (simp add: demo_plan_def)

end
