(* ===== verification/Vxlan.thy ===== *)
theory Vxlan
  imports Prelude "HOL-Library.Sublist"
begin

text \<open>
  VXLAN interface management on the host (\<^verbatim>\<open>host/services/overlay/vxlan.py\<close>).  The kernel is
  reached through pyroute2, and firewalld through its command line tool; neither is part of
  the repository, so both are the fields of a \<open>netlink\<close> record over an arbitrary type
  \<open>'k\<close> of kernel states, and every definition takes it as an argument.
\<close>

section \<open>The interface to the kernel\<close>

record vxlan_data =
  vd_id :: "int option"
  vd_group :: "string option"
  vd_remote :: "string option"
  vd_local :: "string option"

record linkinfo =
  li_kind :: "string option"
  li_data :: "vxlan_data option"

record link =
  ifname :: "string option"
  link_index :: int
  link_info :: "linkinfo option"

datatype netcmd =
    LinkDel int
  | LinkSetUp int int \<comment> \<open>index, mtu\<close>
  | LinkAddVxlan string int string string int \<comment> \<open>name, vni, local, group, port\<close>
  | AddrAdd int string int \<comment> \<open>index, address, prefix length\<close>

record 'k netlink =
  nl_links :: "'k \<Rightarrow> link list"
  nl_addrs :: "int \<Rightarrow> 'k \<Rightarrow> string list"
  nl_exec :: "netcmd \<Rightarrow> ('k, unit) st"
  fw_which :: bool
  fw_state :: "'k \<Rightarrow> (int \<times> string) option"
  fw_add :: "string \<Rightarrow> 'k \<Rightarrow> 'k"

text \<open>Python's \<^verbatim>\<open>a or b\<close> on optional strings.\<close>

definition py_or :: "string option \<Rightarrow> string option \<Rightarrow> string option" where
  "py_or a b = (case a of None \<Rightarrow> b | Some s \<Rightarrow> if s = [] then b else Some s)"

definition vxlan_remote :: "vxlan_data \<Rightarrow> string option" where
  "vxlan_remote d = py_or (vd_group d) (vd_remote d)"

definition find_link :: "'k netlink \<Rightarrow> string \<Rightarrow> 'k \<Rightarrow> link option" where
  "find_link nl name k = find (\<lambda>l. ifname l = Some name) (nl_links nl k)"

definition link_vxlan :: "link \<Rightarrow> vxlan_data option" where
  "link_vxlan l = (case link_info l of None \<Rightarrow> None | Some li \<Rightarrow> li_data li)"

section \<open>Operations\<close>

definition add_interface_to_trusted_zone :: "'k netlink \<Rightarrow> string \<Rightarrow> 'k \<Rightarrow> 'k" where
  "add_interface_to_trusted_zone nl name k =
     (if \<not> fw_which nl then k
      else case fw_state nl k of
        None \<Rightarrow> k
      | Some (rc, out) \<Rightarrow> if rc \<noteq> 0 \<or> \<not> sublist ''running'' out then k else fw_add nl name k)"

definition ensure_vxlan_ip_sync :: "'k netlink \<Rightarrow> int \<Rightarrow> string \<Rightarrow> int \<Rightarrow> ('k, unit) st" where
  "ensure_vxlan_ip_sync nl vxlan_idx ip_addr prefix_len = (\<lambda>k.
     if ip_addr \<in> set (nl_addrs nl vxlan_idx k) then (Inr (), k)
     else nl_exec nl (AddrAdd vxlan_idx ip_addr prefix_len) k)"

definition delete_vxlan_sync :: "'k netlink \<Rightarrow> string \<Rightarrow> ('k, unit) st" where
  "delete_vxlan_sync nl device_name = (\<lambda>k.
     case find_link nl device_name k of
       Some l \<Rightarrow> nl_exec nl (LinkDel (link_index l)) k
     | None \<Rightarrow> (Inr (), k))"

text \<open>The interface exists with the wanted VNI, remote and local address.\<close>

definition config_matches :: "link \<Rightarrow> int \<Rightarrow> string \<Rightarrow> string \<Rightarrow> bool" where
  "config_matches l vni physical_ip local_ip =
     (case link_vxlan l of
        None \<Rightarrow> False
      | Some d \<Rightarrow> vd_id d = Some vni \<and> vxlan_remote d = Some physical_ip \<and> vd_local d = Some local_ip)"

definition create_new_vxlan ::
  "'k netlink \<Rightarrow> string \<Rightarrow> string \<Rightarrow> int \<Rightarrow> string \<Rightarrow> int \<Rightarrow> string \<Rightarrow> int \<Rightarrow> int \<Rightarrow> ('k, string) st" where
  "create_new_vxlan nl physical_ip device_name vni host_ip prefix_len local_ip prt mtu =
     bind_st (nl_exec nl (LinkAddVxlan device_name vni local_ip physical_ip prt)) (\<lambda>_ k.
       case find_link nl device_name k of
         None \<Rightarrow> (Inl (RuntimeError ''Failed to create VXLAN device''), k)
       | Some l \<Rightarrow>
           bind_st (nl_exec nl (LinkSetUp (link_index l) mtu)) (\<lambda>_.
           bind_st (ensure_vxlan_ip_sync nl (link_index l) host_ip prefix_len) (\<lambda>_ k'.
             (Inr device_name, add_interface_to_trusted_zone nl device_name k'))) k)"

definition create_vxlan_sync ::
  "'k netlink \<Rightarrow> string \<Rightarrow> string \<Rightarrow> int \<Rightarrow> string \<Rightarrow> int \<Rightarrow> string \<Rightarrow> int \<Rightarrow> int \<Rightarrow> ('k, string) st" where
  "create_vxlan_sync nl physical_ip device_name vni host_ip prefix_len local_ip prt mtu = (\<lambda>k.
     case find_link nl device_name k of
       Some l \<Rightarrow>
         if config_matches l vni physical_ip local_ip
         then bind_st (nl_exec nl (LinkSetUp (link_index l) mtu)) (\<lambda>_.
              bind_st (ensure_vxlan_ip_sync nl (link_index l) host_ip prefix_len) (\<lambda>_.
                return_st device_name)) k
         else bind_st (nl_exec nl (LinkDel (link_index l))) (\<lambda>_.
                create_new_vxlan nl physical_ip device_name vni host_ip prefix_len local_ip prt mtu) k
     | None \<Rightarrow> create_new_vxlan nl physical_ip device_name vni host_ip prefix_len local_ip prt mtu k)"

section \<open>Facts\<close>

lemma create_new_vxlan_name:
  "create_new_vxlan nl p dev v h q l t u k = (Inr d, k') \<Longrightarrow> d = dev"
  by (auto simp: create_new_vxlan_def st_defs split: sum.splits prod.splits option.splits)

text \<open>A successful call always returns the requested device name.\<close>

lemma create_vxlan_sync_name:
  "create_vxlan_sync nl p dev v h q l t u k = (Inr d, k') \<Longrightarrow> d = dev"
  by (auto simp: create_vxlan_sync_def st_defs
      split: option.splits if_splits prod.splits sum.splits dest!: create_new_vxlan_name)

end
