(* ===== verification/Overlay_Manager.thy ===== *)
theory Overlay_Manager
  imports Overlay_Network Vxlan
begin

text \<open>
  The host's overlay manager (\<^verbatim>\<open>host/services/overlay/manager.py\<close>, \<^verbatim>\<open>recovery.py\<close>,
  \<^verbatim>\<open>models.py\<close>): one allocation (runner id, subnet, gateway, VXLAN device) per runner, the
  reverse index by runner id, recovery of both from the kernel's interfaces after a restart,
  and the wrapper over several networks.  The methods hold an \<^verbatim>\<open>asyncio\<close> lock, so each is
  one atomic step; a method that raises returns the state it leaves behind.
\<close>

section \<open>State\<close>

record overlay_allocation =
  oa_runner_name :: string
  runner_id :: int
  physical_ip :: string
  subnet :: string
  gateway :: string
  vxlan_device :: string
  last_used :: int
  is_active :: bool

record overlay_manager =
  network_name :: string
  masquerade :: bool
  subnet_config :: overlay_subnet_config
  base_vxlan_id :: int
  vxlan_port :: int
  mtu :: int
  vxlan_prefix :: string
  host_ip :: string
  host_prefix :: int
  local_ip :: string
  allocations :: "(string, overlay_allocation) dict"
  id_to_runner :: "(int, string) dict"

section \<open>Device names\<close>

fun encode_loop :: "nat \<Rightarrow> string \<Rightarrow> string" where
  "encode_loop n acc = (if n = 0 then acc else encode_loop (n div 36) (digit_char (n mod 36) # acc))"

declare encode_loop.simps [simp del]

definition encode_runner_id :: "int \<Rightarrow> string res" where
  "encode_runner_id rid =
     (if rid < 0 then Inl (ValueError ''runner_id must be non-negative'')
      else if rid = 0 then Inr ''0''
      else Inr (encode_loop (nat rid) ''''))"

definition decode_runner_id :: "string \<Rightarrow> int option" where
  "decode_runner_id encoded = (if encoded = [] then None else int_of_str 36 encoded)"

definition get_vxlan_device_name :: "overlay_manager \<Rightarrow> int \<Rightarrow> string res" where
  "get_vxlan_device_name m rid = bind_res (encode_runner_id rid) (\<lambda>e. Inr (vxlan_prefix m @ e))"

definition parse_vxlan_device_name :: "overlay_manager \<Rightarrow> string \<Rightarrow> int option" where
  "parse_vxlan_device_name m device_name =
     (if \<not> startswith device_name (vxlan_prefix m) then None
      else case decode_runner_id (drop (length (vxlan_prefix m)) device_name) of
        None \<Rightarrow> None
      | Some rid \<Rightarrow> if rid < 1 \<or> rid > max_runners (subnet_config m) then None else Some rid)"

section \<open>Construction\<close>

text \<open>
  \<^verbatim>\<open>__init__\<close>: from a network definition and its index, or from the legacy fields of the
  configuration.
\<close>

definition new_manager ::
  "overlay_host_config \<Rightarrow> overlay_network_definition option \<Rightarrow> int \<Rightarrow> overlay_manager res" where
  "new_manager cfg network_def network_index =
     (case network_def of
        Some d \<Rightarrow>
          bind_res (if is_simple_cidr d then from_simple_cidr (net_subnet d) else subnet_parse (net_subnet d)) (\<lambda>sc.
          bind_res (encode_runner_id network_index) (\<lambda>e.
          bind_res (get_host_ip sc) (\<lambda>hip.
            Inr \<lparr>network_name = net_name d, masquerade = net_masquerade d, subnet_config = sc,
                 base_vxlan_id = vxlan_id_base d, vxlan_port = net_vxlan_port d, mtu = net_mtu d,
                 vxlan_prefix = ''vx'' @ e @ ''_'', host_ip = hip, host_prefix = overlay_prefix sc,
                 local_ip = HOST_REACHABLE_ADDRESS cfg, allocations = [], id_to_runner = []\<rparr>)))
      | None \<Rightarrow>
          bind_res (subnet_parse (OVERLAY_SUBNET cfg)) (\<lambda>sc.
          bind_res (get_host_ip sc) (\<lambda>hip.
            Inr \<lparr>network_name = ''default'', masquerade = True, subnet_config = sc,
                 base_vxlan_id = OVERLAY_VXLAN_ID cfg, vxlan_port = OVERLAY_VXLAN_PORT cfg,
                 mtu = OVERLAY_MTU cfg, vxlan_prefix = ''vxkr'', host_ip = hip,
                 host_prefix = overlay_prefix sc, local_ip = HOST_REACHABLE_ADDRESS cfg,
                 allocations = [], id_to_runner = []\<rparr>)))"

section \<open>Allocation\<close>

definition set_alloc :: "string \<Rightarrow> overlay_allocation \<Rightarrow> overlay_manager \<Rightarrow> overlay_manager" where
  "set_alloc name a m = m\<lparr>allocations := AList.update name a (allocations m)\<rparr>"

definition create_vxlan :: "'k netlink \<Rightarrow> overlay_manager \<Rightarrow> int \<Rightarrow> string \<Rightarrow> ('k, string) st" where
  "create_vxlan nl m rid physical =
     bind_st (lift_res (get_vxlan_device_name m rid)) (\<lambda>dev.
     bind_st (lift_res (get_host_ip_on_runner_subnet (subnet_config m) rid)) (\<lambda>hip.
       create_vxlan_sync nl physical dev (base_vxlan_id m + rid) hip
         (runner_prefix (subnet_config m)) (local_ip m) (vxlan_port m) (mtu m)))"

definition release_runner_internal ::
  "'k netlink \<Rightarrow> string \<Rightarrow> (overlay_manager \<times> 'k, bool) st" where
  "release_runner_internal nl name = (\<lambda>(m, k).
     case map_of (allocations m) name of
       None \<Rightarrow> (Inr False, (m, k))
     | Some a \<Rightarrow>
         (case delete_vxlan_sync nl (vxlan_device a) k of
            (Inl e, k') \<Rightarrow> (Inl e, (m, k'))
          | (Inr _, k') \<Rightarrow>
              (Inr True, (m\<lparr>allocations := AList.delete name (allocations m),
                            id_to_runner := AList.delete (runner_id a) (id_to_runner m)\<rparr>, k'))))"

definition find_lru_inactive :: "overlay_manager \<Rightarrow> string option" where
  "find_lru_inactive m =
     (let inactive = filter (\<lambda>(n, a). \<not> is_active a) (allocations m)
      in case sort_key (\<lambda>(n, a). last_used a) inactive of [] \<Rightarrow> None | (n, a) # _ \<Rightarrow> Some n)"

definition available_ids :: "overlay_manager \<Rightarrow> int list" where
  "available_ids m = filter (\<lambda>i. i \<notin> set (dict_keys (id_to_runner m))) [1..max_runners (subnet_config m)]"

text \<open>\<^verbatim>\<open>min(available_ids)\<close> is the head of the increasing list.\<close>

definition create_allocation ::
  "'k netlink \<Rightarrow> int \<Rightarrow> string \<Rightarrow> string \<Rightarrow> int \<Rightarrow> (overlay_manager \<times> 'k, overlay_allocation) st" where
  "create_allocation nl now name physical rid = (\<lambda>(m, k).
     case create_vxlan nl m rid physical k of
       (Inl e, k') \<Rightarrow> (Inl e, (m, k'))
     | (Inr dev, k') \<Rightarrow>
         (case (get_runner_subnet (subnet_config m) rid, get_runner_gateway (subnet_config m) rid) of
            (Inr sn, Inr gw) \<Rightarrow>
              let a = \<lparr>oa_runner_name = name, runner_id = rid, physical_ip = physical, subnet = sn,
                       gateway = gw, vxlan_device = dev, last_used = now, is_active = True\<rparr>
              in (Inr a, (set_alloc name a m\<lparr>id_to_runner := AList.update rid name (id_to_runner m)\<rparr>, k'))
          | (Inl e, _) \<Rightarrow> (Inl e, (m, k'))
          | (_, Inl e) \<Rightarrow> (Inl e, (m, k'))))"

definition allocate_new ::
  "'k netlink \<Rightarrow> int \<Rightarrow> string \<Rightarrow> string \<Rightarrow> (overlay_manager \<times> 'k, overlay_allocation) st" where
  "allocate_new nl now name physical = (\<lambda>(m, k).
     case available_ids m of
       rid # _ \<Rightarrow> create_allocation nl now name physical rid (m, k)
     | [] \<Rightarrow>
         (case (case find_lru_inactive m of
                  None \<Rightarrow> (Inr False, (m, k))
                | Some lru \<Rightarrow> release_runner_internal nl lru (m, k)) of
            (Inl e, s') \<Rightarrow> (Inl e, s')
          | (Inr _, (m', k')) \<Rightarrow>
              (case available_ids m' of
                 [] \<Rightarrow> (Inl (RuntimeError ''No available runner IDs''), (m', k'))
               | rid # _ \<Rightarrow> create_allocation nl now name physical rid (m', k'))))"

definition find_placeholder :: "overlay_manager \<Rightarrow> string \<Rightarrow> (string \<times> overlay_allocation) option" where
  "find_placeholder m physical =
     find (\<lambda>(n, a). startswith n ''runner_'' \<and> physical_ip a = physical) (allocations m)"

definition allocate_for_runner ::
  "'k netlink \<Rightarrow> int \<Rightarrow> string \<Rightarrow> string \<Rightarrow> (overlay_manager \<times> 'k, overlay_allocation) st" where
  "allocate_for_runner nl now name physical = (\<lambda>(m, k).
     case map_of (allocations m) name of
       Some a \<Rightarrow>
         let a1 = a\<lparr>last_used := now, is_active := True\<rparr>; m1 = set_alloc name a1 m
         in if physical_ip a \<noteq> physical
            then (case create_vxlan nl m1 (runner_id a1) physical k of
                    (Inl e, k') \<Rightarrow> (Inl e, (m1, k'))
                  | (Inr _, k') \<Rightarrow>
                      let a2 = a1\<lparr>physical_ip := physical\<rparr> in (Inr a2, (set_alloc name a2 m1, k')))
            else (Inr a1, (m1, k))
     | None \<Rightarrow>
         (case find_placeholder m physical of
            Some (existing, a) \<Rightarrow>
              let a1 = a\<lparr>oa_runner_name := name, last_used := now, is_active := True\<rparr>
              in (Inr a1, (m\<lparr>allocations := AList.update name a1 (AList.delete existing (allocations m)),
                             id_to_runner := AList.update (runner_id a1) name (id_to_runner m)\<rparr>, k))
          | None \<Rightarrow> allocate_new nl now name physical (m, k)))"

section \<open>Activity and release\<close>

definition mark_runner_inactive :: "string \<Rightarrow> overlay_manager \<Rightarrow> overlay_manager" where
  "mark_runner_inactive name m =
     (case map_of (allocations m) name of
        None \<Rightarrow> m
      | Some a \<Rightarrow> set_alloc name (a\<lparr>is_active := False\<rparr>) m)"

definition mark_runner_active :: "int \<Rightarrow> string \<Rightarrow> overlay_manager \<Rightarrow> overlay_manager" where
  "mark_runner_active now name m =
     (case map_of (allocations m) name of
        None \<Rightarrow> m
      | Some a \<Rightarrow> set_alloc name (a\<lparr>is_active := True, last_used := now\<rparr>) m)"

definition release_runner :: "'k netlink \<Rightarrow> string \<Rightarrow> (overlay_manager \<times> 'k, bool) st" where
  "release_runner nl name = release_runner_internal nl name"

fun cleanup_loop :: "'k netlink \<Rightarrow> string list \<Rightarrow> int \<Rightarrow> (overlay_manager \<times> 'k, int) st" where
  "cleanup_loop nl [] cleaned s = (Inr cleaned, s)"
| "cleanup_loop nl (n # ns) cleaned s =
     (case release_runner_internal nl n s of
        (Inl e, s') \<Rightarrow> (Inl e, s')
      | (Inr b, s') \<Rightarrow> cleanup_loop nl ns (if b then cleaned + 1 else cleaned) s')"

definition cleanup_inactive :: "'k netlink \<Rightarrow> (overlay_manager \<times> 'k, int) st" where
  "cleanup_inactive nl = (\<lambda>(m, k).
     cleanup_loop nl (map fst (filter (\<lambda>(n, a). \<not> is_active a) (allocations m))) 0 (m, k))"

definition get_allocation :: "overlay_manager \<Rightarrow> string \<Rightarrow> overlay_allocation option" where
  "get_allocation m name = map_of (allocations m) name"

definition get_all_allocations :: "overlay_manager \<Rightarrow> overlay_allocation list" where
  "get_all_allocations m = dict_values (allocations m)"

record overlay_stats =
  total_allocations :: int
  active_allocations :: int
  inactive_allocations :: int
  stat_available_ids :: int
  stat_max_runners :: int
  stat_subnet_config :: string
  stat_overlay_network :: string
  stat_host_ip :: string
  stat_base_vxlan_id :: int
  stat_vxlan_port :: int
  stat_mtu :: int

definition get_stats :: "overlay_manager \<Rightarrow> overlay_stats" where
  "get_stats m =
     (let active_count = int (length (filter is_active (dict_values (allocations m))));
          total = int (length (allocations m))
      in \<lparr>total_allocations = total, active_allocations = active_count,
          inactive_allocations = total - active_count,
          stat_available_ids = max_runners (subnet_config m) - total,
          stat_max_runners = max_runners (subnet_config m),
          stat_subnet_config = subnet_str (subnet_config m),
          stat_overlay_network = get_overlay_network_cidr (subnet_config m),
          stat_host_ip = host_ip m @ ''/'' @ str_of_int (host_prefix m),
          stat_base_vxlan_id = base_vxlan_id m, stat_vxlan_port = vxlan_port m, stat_mtu = mtu m\<rparr>)"

section \<open>Recovery after a restart\<close>

text \<open>
  What the scan of the interfaces does with one of them: nothing (not a VXLAN device with the
  manager's prefix), delete it (by index), or recover it (name, runner id, remote address).
\<close>

datatype scanned = Ignored | Invalid int | Valid string int "string option"

definition scan_link :: "overlay_manager \<Rightarrow> link \<Rightarrow> scanned" where
  "scan_link m l =
     (case ifname l of
        None \<Rightarrow> Ignored
      | Some name \<Rightarrow>
          if name = [] \<or> \<not> startswith name (vxlan_prefix m) then Ignored
          else
            (case link_info l of
               None \<Rightarrow> Ignored
             | Some li \<Rightarrow>
                 if li_kind li \<noteq> Some ''vxlan'' then Ignored
                 else
                   (case li_data li of
                      None \<Rightarrow> Ignored
                    | Some d \<Rightarrow>
                        (case parse_vxlan_device_name m name of
                           None \<Rightarrow> Invalid (link_index l)
                         | Some rid \<Rightarrow>
                             if vd_id d \<noteq> Some (base_vxlan_id m + rid) then Invalid (link_index l)
                             else Valid name rid (vxlan_remote d)))))"

fun delete_invalid :: "'k netlink \<Rightarrow> scanned list \<Rightarrow> 'k \<Rightarrow> 'k" where
  "delete_invalid nl [] k = k"
| "delete_invalid nl (Invalid idx # rest) k = delete_invalid nl rest (snd (nl_exec nl (LinkDel idx) k))"
| "delete_invalid nl (_ # rest) k = delete_invalid nl rest k"

definition placeholder_name :: "int \<Rightarrow> string" where
  "placeholder_name rid = ''runner_'' @ str_of_int rid"

text \<open>\<^verbatim>\<open>remote_ip or "unknown"\<close>\<close>

definition remote_or_unknown :: "string option \<Rightarrow> string" where
  "remote_or_unknown r = (case r of None \<Rightarrow> ''unknown'' | Some s \<Rightarrow> if s = [] then ''unknown'' else s)"

definition recovered_allocation ::
  "string \<Rightarrow> int \<Rightarrow> string option \<Rightarrow> string \<Rightarrow> string \<Rightarrow> int \<Rightarrow> overlay_allocation" where
  "recovered_allocation name rid remote sn gw now =
     \<lparr>oa_runner_name = placeholder_name rid, runner_id = rid, physical_ip = remote_or_unknown remote,
      subnet = sn, gateway = gw, vxlan_device = name, last_used = now, is_active = False\<rparr>"

definition add_allocation :: "string \<Rightarrow> overlay_allocation \<Rightarrow> overlay_manager \<Rightarrow> overlay_manager" where
  "add_allocation name a m = set_alloc name a m\<lparr>id_to_runner := AList.update (runner_id a) name (id_to_runner m)\<rparr>"

text \<open>\<open>clock rid\<close> is the time read while runner \<open>rid\<close> is recovered.\<close>

fun recover_valid ::
  "'k netlink \<Rightarrow> (int \<Rightarrow> int) \<Rightarrow> scanned list \<Rightarrow> (overlay_manager \<times> 'k, unit) st" where
  "recover_valid nl clock [] s = (Inr (), s)"
| "recover_valid nl clock (Valid name rid remote # rest) (m, k) =
     (if rid \<in> set (dict_keys (id_to_runner m)) then recover_valid nl clock rest (m, k)
      else
        case (get_runner_subnet (subnet_config m) rid, get_runner_gateway (subnet_config m) rid) of
          (Inr sn, Inr gw) \<Rightarrow>
            recover_valid nl clock rest
              (add_allocation (placeholder_name rid) (recovered_allocation name rid remote sn gw (clock rid)) m,
               add_interface_to_trusted_zone nl name k)
        | (Inl e, _) \<Rightarrow> (Inl e, (m, k))
        | (_, Inl e) \<Rightarrow> (Inl e, (m, k)))"
| "recover_valid nl clock (_ # rest) s = recover_valid nl clock rest s"

definition recover_state_from_interfaces_sync ::
  "'k netlink \<Rightarrow> (int \<Rightarrow> int) \<Rightarrow> (overlay_manager \<times> 'k, unit) st" where
  "recover_state_from_interfaces_sync nl clock = (\<lambda>(m, k).
     let scanned = map (scan_link m) (nl_links nl k)
     in recover_valid nl clock scanned (m, delete_invalid nl scanned k))"

section \<open>Several networks\<close>

type_synonym multi_manager = "(string, overlay_manager) dict"

fun build_managers ::
  "overlay_host_config \<Rightarrow> network_dict list \<Rightarrow> int \<Rightarrow> multi_manager \<Rightarrow> multi_manager res" where
  "build_managers cfg [] idx ms = Inr ms"
| "build_managers cfg (d # ds) idx ms =
     (let net_def = network_from_dict d in
      bind_res (validate_network net_def) (\<lambda>_.
      bind_res (new_manager cfg (Some net_def) idx) (\<lambda>m.
        build_managers cfg ds (idx + 1) (AList.update (net_name net_def) m ms))))"

definition new_multi_manager :: "overlay_host_config \<Rightarrow> multi_manager res" where
  "new_multi_manager cfg = build_managers cfg (get_overlay_network_configs cfg) 0 []"

text \<open>A network whose allocation raises is logged and left out of the result.\<close>

fun multi_allocate_for_runner ::
  "'k netlink \<Rightarrow> int \<Rightarrow> string \<Rightarrow> string \<Rightarrow> multi_manager \<Rightarrow> 'k
   \<Rightarrow> (string, overlay_allocation) dict \<times> multi_manager \<times> 'k" where
  "multi_allocate_for_runner nl now name physical [] k = ([], [], k)"
| "multi_allocate_for_runner nl now name physical ((n, m) # ms) k =
     (case allocate_for_runner nl now name physical (m, k) of
        (r, (m', k')) \<Rightarrow>
          (case multi_allocate_for_runner nl now name physical ms k' of
             (rest, ms', k'') \<Rightarrow>
               ((case r of Inl e \<Rightarrow> rest | Inr a \<Rightarrow> (n, a) # rest), (n, m') # ms', k'')))"

definition get_manager :: "multi_manager \<Rightarrow> string \<Rightarrow> overlay_manager option" where
  "get_manager ms n = map_of ms n"

definition get_default_manager :: "multi_manager \<Rightarrow> overlay_manager option" where
  "get_default_manager ms = (case ms of [] \<Rightarrow> None | (n, m) # _ \<Rightarrow> Some m)"

definition multi_get_allocation :: "multi_manager \<Rightarrow> string \<Rightarrow> overlay_allocation option" where
  "multi_get_allocation ms name =
     (case get_default_manager ms of None \<Rightarrow> None | Some m \<Rightarrow> get_allocation m name)"

definition multi_get_all_allocations :: "multi_manager \<Rightarrow> overlay_allocation list" where
  "multi_get_all_allocations ms =
     (case get_default_manager ms of None \<Rightarrow> [] | Some m \<Rightarrow> get_all_allocations m)"

definition multi_mark_runner_inactive :: "string \<Rightarrow> multi_manager \<Rightarrow> multi_manager" where
  "multi_mark_runner_inactive name ms = map (\<lambda>(n, m). (n, mark_runner_inactive name m)) ms"

definition multi_mark_runner_active :: "int \<Rightarrow> string \<Rightarrow> multi_manager \<Rightarrow> multi_manager" where
  "multi_mark_runner_active now name ms = map (\<lambda>(n, m). (n, mark_runner_active now name m)) ms"

definition multi_get_stats :: "multi_manager \<Rightarrow> (string, overlay_stats) dict" where
  "multi_get_stats ms = map (\<lambda>(n, m). (n, get_stats m)) ms"

end
