(* ===== verification/Overlay_Safety.thy ===== *)
theory Overlay_Safety
  imports Overlay_Manager
begin

text \<open>
  The invariant of the overlay manager: allocations and the reverse index are inverse to each
  other, every runner id is in range, and every allocation carries the addresses the plan gives
  its id and a device name that parses back to it.  Recovery from any kernel state establishes
  it and every operation keeps it, so no two runners ever share an id or, in a hierarchical
  plan, an address block.
\<close>

section \<open>The invariant\<close>

definition alloc_ok :: "overlay_manager \<Rightarrow> string \<Rightarrow> overlay_allocation \<Rightarrow> bool" where
  "alloc_ok m n a \<longleftrightarrow>
     oa_runner_name a = n \<and> runner_id_ok (subnet_config m) (runner_id a) \<and>
     get_runner_subnet (subnet_config m) (runner_id a) = Inr (subnet a) \<and>
     get_runner_gateway (subnet_config m) (runner_id a) = Inr (gateway a) \<and>
     parse_vxlan_device_name m (vxlan_device a) = Some (runner_id a)"

definition manager_ok :: "overlay_manager \<Rightarrow> bool" where
  "manager_ok m \<longleftrightarrow>
     subnet_ok (subnet_config m) \<and> dict_ok (allocations m) \<and> dict_ok (id_to_runner m) \<and>
     (\<forall>n a. map_of (allocations m) n = Some a \<longrightarrow> alloc_ok m n a) \<and>
     (\<forall>i n. map_of (id_to_runner m) i = Some n
            \<longleftrightarrow> (\<exists>a. map_of (allocations m) n = Some a \<and> runner_id a = i))"

lemma alloc_ok_cong:
  "subnet_config m' = subnet_config m \<Longrightarrow> vxlan_prefix m' = vxlan_prefix m \<Longrightarrow> alloc_ok m' n a = alloc_ok m n a"
  by (simp add: alloc_ok_def parse_vxlan_device_name_def split: option.split)

lemma alloc_ok_update [simp]:
  "alloc_ok (m\<lparr>allocations := as\<rparr>) n a = alloc_ok m n a"
  "alloc_ok (m\<lparr>id_to_runner := ids\<rparr>) n a = alloc_ok m n a"
  "alloc_ok (set_alloc k b m) n a = alloc_ok m n a"
  by (auto intro!: alloc_ok_cong simp: set_alloc_def)

lemma alloc_ok_fields [simp]:
  "alloc_ok m n (a\<lparr>last_used := t\<rparr>) = alloc_ok m n a"
  "alloc_ok m n (a\<lparr>is_active := b\<rparr>) = alloc_ok m n a"
  "alloc_ok m n (a\<lparr>physical_ip := ip\<rparr>) = alloc_ok m n a"
  by (simp_all add: alloc_ok_def)

lemma manager_ok_get: "manager_ok m \<Longrightarrow> map_of (allocations m) n = Some a \<Longrightarrow> alloc_ok m n a"
  by (simp add: manager_ok_def)

lemma manager_ok_ids: "manager_ok m \<Longrightarrow> map_of (id_to_runner m) i = Some n
    \<longleftrightarrow> (\<exists>a. map_of (allocations m) n = Some a \<and> runner_id a = i)"
  by (simp add: manager_ok_def)

lemma manager_ok_index: "manager_ok m \<Longrightarrow> map_of (allocations m) n = Some a
    \<Longrightarrow> map_of (id_to_runner m) (runner_id a) = Some n"
  by (auto simp: manager_ok_ids)

lemma manager_ok_inj:
  assumes "manager_ok m" "map_of (allocations m) n = Some a" "map_of (allocations m) n' = Some b"
    "runner_id a = runner_id b"
  shows "n = n'"
  using manager_ok_index [OF assms(1,2)] manager_ok_index [OF assms(1,3)] assms(4) by simp

lemma touch_ok:
  assumes "manager_ok m" "map_of (allocations m) n = Some b" "alloc_ok m n a" "runner_id a = runner_id b"
  shows "manager_ok (set_alloc n a m)"
  using assms by (auto simp: manager_ok_def set_alloc_def get_update)

lemma insert_ok:
  assumes "manager_ok m" "map_of (allocations m) n = None" "map_of (id_to_runner m) (runner_id a) = None"
    "alloc_ok m n a"
  shows "manager_ok (set_alloc n a m\<lparr>id_to_runner := AList.update (runner_id a) n (id_to_runner m)\<rparr>)"
proof -
  have "map_of (allocations m) x = Some y \<Longrightarrow> runner_id y \<noteq> runner_id a" for x y
    using manager_ok_index [OF assms(1), of x y] assms(3) by auto
  then show ?thesis
    using assms by (auto simp: manager_ok_def set_alloc_def get_update)
qed

lemma remove_ok:
  assumes "manager_ok m" "map_of (allocations m) n = Some a"
  shows "manager_ok (m\<lparr>allocations := AList.delete n (allocations m),
                       id_to_runner := AList.delete (runner_id a) (id_to_runner m)\<rparr>)"
proof -
  have "map_of (allocations m) x = Some y \<Longrightarrow> x \<noteq> n \<Longrightarrow> runner_id y \<noteq> runner_id a" for x y
    using manager_ok_inj [OF assms, of x y] by auto
  then show ?thesis
    using assms by (auto simp: manager_ok_def get_delete)
qed

lemma rename_ok:
  assumes "manager_ok m" "map_of (allocations m) old = Some b" "map_of (allocations m) n = None"
    "alloc_ok m n a" "runner_id a = runner_id b"
  shows "manager_ok (m\<lparr>allocations := AList.update n a (AList.delete old (allocations m)),
                       id_to_runner := AList.update (runner_id a) n (id_to_runner m)\<rparr>)"
proof -
  have "map_of (allocations m) x = Some y \<Longrightarrow> x \<noteq> old \<Longrightarrow> runner_id y \<noteq> runner_id a" for x y
    using manager_ok_inj [OF assms(1,2), of x y] assms(5) by auto
  then show ?thesis
    using assms by (auto simp: manager_ok_def get_delete get_update)
qed

section \<open>Device names\<close>

lemma encode_loop_digits: "0 < n \<Longrightarrow> encode_loop n acc = digits_of 36 n @ acc"
proof (induction n acc rule: encode_loop.induct)
  case (1 n acc)
  show ?case
  proof (cases "n < 36")
    case True
    with "1.prems" show ?thesis
      by (simp add: encode_loop.simps [of n] encode_loop.simps [of 0] digits_of.simps [of 36 n])
  next
    case False
    then have "0 < n div 36" by auto
    with "1.prems" have "encode_loop (n div 36) (digit_char (n mod 36) # acc)
        = digits_of 36 (n div 36) @ digit_char (n mod 36) # acc"
      by (intro "1.IH") auto
    with False show ?thesis
      by (simp add: encode_loop.simps [of n] digits_of.simps [of 36 n])
  qed
qed

lemma encode_runner_id_digits: "0 \<le> i \<Longrightarrow> encode_runner_id i = Inr (digits_of 36 (nat i))"
proof (cases "i = 0")
  case True
  have "digits_of 36 0 = ''0''"
    using str_of_nat_0 by (simp add: str_of_nat_def digits_of.simps [of 36 0] digits_of.simps [of 10 0])
  with True show ?thesis by (simp add: encode_runner_id_def)
next
  case False
  moreover assume "0 \<le> i"
  ultimately have "encode_loop (nat i) [] = digits_of 36 (nat i) @ []"
    by (intro encode_loop_digits) auto
  with False \<open>0 \<le> i\<close> show ?thesis by (simp add: encode_runner_id_def)
qed

lemma decode_encode_digits: "decode_runner_id (digits_of 36 n) = Some (int n)"
  by (simp add: decode_runner_id_def)

lemma device_name_ok: "0 \<le> i \<Longrightarrow> get_vxlan_device_name m i = Inr (vxlan_prefix m @ digits_of 36 (nat i))"
  by (simp add: get_vxlan_device_name_def encode_runner_id_digits)

lemma parse_device_name_digits:
  "runner_id_ok (subnet_config m) (int n) \<Longrightarrow>
   parse_vxlan_device_name m (vxlan_prefix m @ digits_of 36 n) = Some (int n)"
  by (simp add: parse_vxlan_device_name_def decode_encode_digits runner_id_ok_def)

lemma parse_own_device:
  assumes "runner_id_ok (subnet_config m) i" "get_vxlan_device_name m i = Inr dev"
  shows "parse_vxlan_device_name m dev = Some i"
  using assms parse_device_name_digits [of m "nat i"] by (auto simp: device_name_ok runner_id_ok_def)

lemma parse_device_range:
  "parse_vxlan_device_name m dev = Some i \<Longrightarrow> runner_id_ok (subnet_config m) i"
  by (auto simp: parse_vxlan_device_name_def runner_id_ok_def split: if_splits option.splits)

section \<open>Every operation keeps the invariant\<close>

lemma release_internal_ok:
  assumes "manager_ok m" "release_runner_internal nl n (m, k) = (r, (m', k'))"
  shows "manager_ok m'"
  using assms remove_ok [of m n]
  by (auto simp: release_runner_internal_def split: option.splits prod.splits sum.splits)

lemma create_vxlan_device:
  assumes "create_vxlan nl m rid physical k = (Inr dev, k')"
  shows "get_vxlan_device_name m rid = Inr dev"
  using assms
  by (auto simp: create_vxlan_def st_defs split: sum.splits dest: create_vxlan_sync_name)

lemma available_ids_iff:
  "i \<in> set (available_ids m) \<longleftrightarrow> runner_id_ok (subnet_config m) i \<and> map_of (id_to_runner m) i = None"
  by (auto simp: available_ids_def runner_id_ok_def map_of_eq_None_iff)

lemma create_allocation_cases:
  assumes "create_allocation nl now n physical rid (m, k) = (r, (m', k'))"
  obtains (raised) e where "r = Inl e" "m' = m"
  | (created) a where "r = Inr a" "m' = set_alloc n a m\<lparr>id_to_runner := AList.update rid n (id_to_runner m)\<rparr>"
      "oa_runner_name a = n" "runner_id a = rid" "physical_ip a = physical" "is_active a" "last_used a = now"
      "get_runner_subnet (subnet_config m) rid = Inr (subnet a)"
      "get_runner_gateway (subnet_config m) rid = Inr (gateway a)"
      "get_vxlan_device_name m rid = Inr (vxlan_device a)"
proof (cases "create_vxlan nl m rid physical k")
  case (Pair d k2)
  show ?thesis
  proof (cases r)
    case (Inl e)
    with Pair assms show ?thesis
      by (intro raised) (auto simp: create_allocation_def Let_def split: sum.splits)
  next
    case (Inr a)
    with Pair assms show ?thesis
      by (intro created [of a])
        (auto simp: create_allocation_def Let_def dest!: create_vxlan_device split: sum.splits)
  qed
qed

lemma create_allocation_ok:
  assumes "manager_ok m" "map_of (allocations m) n = None" "rid \<in> set (available_ids m)"
    "create_allocation nl now n physical rid (m, k) = (r, (m', k'))"
  shows "manager_ok m'"
  using assms(4)
proof (cases rule: create_allocation_cases)
  case raised
  with assms show ?thesis by simp
next
  case (created a)
  have rid: "runner_id_ok (subnet_config m) rid" "map_of (id_to_runner m) rid = None"
    using assms(3) by (auto simp: available_ids_iff)
  with created have "alloc_ok m n a" by (simp add: alloc_ok_def parse_own_device)
  then show ?thesis
    using created rid insert_ok [OF assms(1,2), of a] by simp
qed

lemma find_lru_inactive_some:
  assumes "find_lru_inactive m = Some n"
  shows "\<exists>a. (n, a) \<in> set (allocations m) \<and> \<not> is_active a
           \<and> (\<forall>(n', a') \<in> set (allocations m). \<not> is_active a' \<longrightarrow> last_used a \<le> last_used a')"
proof -
  let ?xs = "filter (\<lambda>(n, a). \<not> is_active a) (allocations m)"
  let ?ys = "sort_key (\<lambda>(n, a). last_used a) ?xs"
  obtain a rest where ys: "?ys = (n, a) # rest"
    using assms by (auto simp: find_lru_inactive_def split: list.splits)
  have "(n, a) \<in> set ?ys" by (simp only: ys) simp
  moreover have "sorted (map (\<lambda>(n, a). last_used a) ?ys)" by simp
  then have "\<forall>y \<in> set rest. last_used a \<le> (case y of (n, a) \<Rightarrow> last_used a)"
    unfolding ys by simp
  moreover have "set ?ys = set ?xs" by simp
  then have "set ?xs = insert (n, a) (set rest)" unfolding ys by simp
  ultimately have "(n, a) \<in> set ?xs" "\<forall>(n', a') \<in> set ?xs. last_used a \<le> last_used a'" by auto
  then show ?thesis by auto
qed

lemma find_lru_inactive_none: "find_lru_inactive m = None \<longleftrightarrow> (\<forall>a \<in> set (dict_values (allocations m)). is_active a)"
proof -
  let ?xs = "filter (\<lambda>(n, a). \<not> is_active a) (allocations m)"
  have "find_lru_inactive m = None \<longleftrightarrow> ?xs = []"
    by (auto simp: find_lru_inactive_def split: list.splits dest: arg_cong [where f = length])
  then show ?thesis by (auto simp: filter_empty_conv)
qed

lemma release_internal_cases:
  assumes "release_runner_internal nl n (m, k) = (r, (m', k'))"
  obtains (absent) "map_of (allocations m) n = None" "r = Inr False" "m' = m"
  | (raised) e where "r = Inl e" "m' = m"
  | (released) a where "map_of (allocations m) n = Some a" "r = Inr True"
      "m' = m\<lparr>allocations := AList.delete n (allocations m),
               id_to_runner := AList.delete (runner_id a) (id_to_runner m)\<rparr>"
  using assms
  by (auto simp: release_runner_internal_def split: option.splits prod.splits sum.splits)

lemma release_keeps_none:
  "release_runner_internal nl x (m, k) = (r, (m', k')) \<Longrightarrow> map_of (allocations m) n = None
   \<Longrightarrow> map_of (allocations m') n = None"
  by (erule release_internal_cases) (auto simp: get_delete)

lemma allocate_new_ok:
  assumes "manager_ok m" "map_of (allocations m) n = None"
    "allocate_new nl now n physical (m, k) = (r, (m', k'))"
  shows "manager_ok m'"
proof (cases "available_ids m")
  case (Cons rid rest)
  with assms show ?thesis
    by (auto simp: allocate_new_def intro!: create_allocation_ok [of m n rid])
next
  case Nil
  show ?thesis
  proof (cases "find_lru_inactive m")
    case None
    with Nil assms show ?thesis by (simp add: allocate_new_def)
  next
    case (Some lru)
    obtain r1 m1 k1 where rel: "release_runner_internal nl lru (m, k) = (r1, (m1, k1))"
      by (metis prod.exhaust)
    have "manager_ok m1" "map_of (allocations m1) n = None"
      using release_internal_ok [OF assms(1) rel] release_keeps_none [OF rel assms(2)] by auto
    then show ?thesis
      using Nil Some rel assms(3)
      by (auto simp: allocate_new_def split: sum.splits list.splits intro!: create_allocation_ok [of m1 n])
  qed
qed

lemma find_placeholder_some:
  "find_placeholder m physical = Some (old, a) \<Longrightarrow> dict_ok (allocations m) \<Longrightarrow>
   map_of (allocations m) old = Some a \<and> startswith old ''runner_'' \<and> physical_ip a = physical"
  by (auto simp: find_placeholder_def find_Some_iff item_get [symmetric] dest!: nth_mem)

lemma manager_ok_dict: "manager_ok m \<Longrightarrow> dict_ok (allocations m)"
  by (simp add: manager_ok_def)

lemma allocate_for_runner_ok:
  assumes "manager_ok m" "allocate_for_runner nl now n physical (m, k) = (r, (m', k'))"
  shows "manager_ok m'"
proof (cases "map_of (allocations m) n")
  case (Some a)
  let ?a1 = "a\<lparr>last_used := now, is_active := True\<rparr>"
  have a: "alloc_ok m n a" using assms(1) Some by (rule manager_ok_get)
  have 1: "manager_ok (set_alloc n ?a1 m)"
    using touch_ok [OF assms(1) Some, of ?a1] a by simp
  then have 2: "manager_ok (set_alloc n (?a1\<lparr>physical_ip := physical\<rparr>) (set_alloc n ?a1 m))"
    using a touch_ok [OF 1, of n ?a1 "?a1\<lparr>physical_ip := physical\<rparr>"] by (simp add: set_alloc_def get_update)
  show ?thesis
    using assms(2) Some 1 2
    by (auto simp: allocate_for_runner_def Let_def split: if_splits prod.splits sum.splits)
next
  case None
  show ?thesis
  proof (cases "find_placeholder m physical")
    case None': None
    with None assms show ?thesis
      by (auto simp: allocate_for_runner_def intro: allocate_new_ok)
  next
    case (Some p)
    obtain old a where p: "p = (old, a)" by (cases p)
    then have old: "map_of (allocations m) old = Some a"
      using find_placeholder_some [of m physical old a] Some manager_ok_dict [OF assms(1)] by simp
    then have "alloc_ok m old a" using assms(1) by (intro manager_ok_get)
    then have "alloc_ok m n (a\<lparr>oa_runner_name := n, last_used := now, is_active := True\<rparr>)"
      by (simp add: alloc_ok_def)
    from rename_ok [OF assms(1) old None this] show ?thesis
      using assms(2) None Some p by (auto simp: allocate_for_runner_def Let_def)
  qed
qed

lemma mark_inactive_ok: "manager_ok m \<Longrightarrow> manager_ok (mark_runner_inactive n m)"
  by (auto simp: mark_runner_inactive_def split: option.split intro!: touch_ok dest: manager_ok_get)

lemma mark_active_ok: "manager_ok m \<Longrightarrow> manager_ok (mark_runner_active now n m)"
  by (auto simp: mark_runner_active_def split: option.split intro!: touch_ok dest: manager_ok_get)

lemma cleanup_loop_ok: "manager_ok m \<Longrightarrow> cleanup_loop nl ns c (m, k) = (r, (m', k')) \<Longrightarrow> manager_ok m'"
proof (induction ns arbitrary: m k c)
  case (Cons n ns)
  obtain r1 m1 k1 where rel: "release_runner_internal nl n (m, k) = (r1, (m1, k1))"
    by (metis prod.exhaust)
  have "manager_ok m1" using release_internal_ok [OF Cons.prems(1) rel] .
  then show ?case using Cons.IH Cons.prems(2) rel by (auto split: sum.splits)
qed simp

lemma cleanup_inactive_ok: "manager_ok m \<Longrightarrow> cleanup_inactive nl (m, k) = (r, (m', k')) \<Longrightarrow> manager_ok m'"
  by (auto simp: cleanup_inactive_def intro: cleanup_loop_ok)

section \<open>Recovery establishes the invariant\<close>

definition recovered_ok :: "overlay_manager \<Rightarrow> bool" where
  "recovered_ok m \<longleftrightarrow> manager_ok m \<and>
     (\<forall>n a. map_of (allocations m) n = Some a
        \<longrightarrow> n = placeholder_name (runner_id a) \<and> \<not> is_active a)"

definition scanned_ok :: "overlay_manager \<Rightarrow> scanned \<Rightarrow> bool" where
  "scanned_ok m x = (case x of Valid name rid r \<Rightarrow> parse_vxlan_device_name m name = Some rid | _ \<Rightarrow> True)"

lemma scan_link_ok: "scanned_ok m (scan_link m l)"
  by (simp add: scanned_ok_def scan_link_def split: option.split)

lemma placeholder_name_inject [simp]: "placeholder_name i = placeholder_name j \<longleftrightarrow> i = j"
  by (simp add: placeholder_name_def)

lemma add_allocation_simps [simp]:
  "allocations (add_allocation n a m) = AList.update n a (allocations m)"
  "id_to_runner (add_allocation n a m) = AList.update (runner_id a) n (id_to_runner m)"
  "subnet_config (add_allocation n a m) = subnet_config m"
  "vxlan_prefix (add_allocation n a m) = vxlan_prefix m"
  by (simp_all add: add_allocation_def set_alloc_def)

lemma recovered_allocation_simps [simp]:
  "oa_runner_name (recovered_allocation d i r sn gw t) = placeholder_name i"
  "runner_id (recovered_allocation d i r sn gw t) = i"
  "physical_ip (recovered_allocation d i r sn gw t) = remote_or_unknown r"
  "subnet (recovered_allocation d i r sn gw t) = sn"
  "gateway (recovered_allocation d i r sn gw t) = gw"
  "vxlan_device (recovered_allocation d i r sn gw t) = d"
  "is_active (recovered_allocation d i r sn gw t) = False"
  by (simp_all add: recovered_allocation_def)

lemma scanned_ok_cong [simp]: "scanned_ok (add_allocation n a m) = scanned_ok m"
  by (rule ext) (simp add: scanned_ok_def parse_vxlan_device_name_def split: scanned.split option.split)

lemma recover_insert:
  assumes "recovered_ok m" "scanned_ok m (Valid name rid r)" "rid \<notin> set (dict_keys (id_to_runner m))"
    "get_runner_subnet (subnet_config m) rid = Inr sn" "get_runner_gateway (subnet_config m) rid = Inr gw"
  shows "recovered_ok (add_allocation (placeholder_name rid) (recovered_allocation name rid r sn gw t) m)"
proof -
  let ?n = "placeholder_name rid" and ?a = "recovered_allocation name rid r sn gw t"
  have m: "manager_ok m" and p: "parse_vxlan_device_name m name = Some rid"
    and fresh: "map_of (id_to_runner m) rid = None"
    using assms by (auto simp: recovered_ok_def scanned_ok_def map_of_eq_None_iff)
  have "map_of (allocations m) ?n = None"
  proof (rule ccontr)
    assume "map_of (allocations m) ?n \<noteq> None"
    then obtain b where b: "map_of (allocations m) ?n = Some b" by blast
    then have "placeholder_name rid = placeholder_name (runner_id b)"
      using assms(1) unfolding recovered_ok_def by blast
    then have "runner_id b = rid" by simp
    then show False using manager_ok_index [OF m b] fresh by simp
  qed
  moreover have "alloc_ok m ?n ?a"
    using assms p parse_device_range [OF p] by (simp add: alloc_ok_def)
  ultimately have "manager_ok (add_allocation ?n ?a m)"
    using m fresh unfolding add_allocation_def by (intro insert_ok) auto
  then show ?thesis
    using assms(1) by (auto simp: recovered_ok_def get_update)
qed

lemma recover_valid_ok:
  assumes "recovered_ok m" "\<forall>x \<in> set xs. scanned_ok m x"
    "recover_valid nl clock xs (m, k) = (r, (m', k'))"
  shows "recovered_ok m' \<and> r = Inr ()"
  using assms
proof (induction xs arbitrary: m k)
  case (Cons x xs)
  show ?case
  proof (cases x)
    case (Valid name rid remote)
    show ?thesis
    proof (cases "rid \<in> set (dict_keys (id_to_runner m))")
      case True
      with Cons Valid show ?thesis by simp
    next
      case False
      have ok: "scanned_ok m (Valid name rid remote)" using Cons.prems(2) Valid by simp
      then have "runner_id_ok (subnet_config m) rid"
        by (auto simp: scanned_ok_def dest: parse_device_range)
      moreover have "subnet_ok (subnet_config m)"
        using Cons.prems(1) by (simp add: recovered_ok_def manager_ok_def)
      ultimately obtain sn gw where f: "get_runner_subnet (subnet_config m) rid = Inr sn"
        "get_runner_gateway (subnet_config m) rid = Inr gw"
        by (auto simp: get_runner_subnet_ok get_runner_gateway_ok)
      show ?thesis
        by (rule Cons.IH [OF recover_insert [OF Cons.prems(1) ok False f]]) (use Cons.prems False f Valid in auto)
    qed
  qed (use Cons in auto)
qed simp

definition fresh_manager :: "overlay_manager \<Rightarrow> bool" where
  "fresh_manager m \<longleftrightarrow> subnet_ok (subnet_config m) \<and> allocations m = [] \<and> id_to_runner m = []"

lemma recover_state_ok:
  assumes "fresh_manager m" "recover_state_from_interfaces_sync nl clock (m, k) = (r, (m', k'))"
  shows "recovered_ok m' \<and> r = Inr ()"
proof (rule recover_valid_ok)
  show "recovered_ok m" using assms(1) by (simp add: recovered_ok_def manager_ok_def fresh_manager_def)
  show "\<forall>x \<in> set (map (scan_link m) (nl_links nl k)). scanned_ok m x" by (simp add: scan_link_ok)
  show "recover_valid nl clock (map (scan_link m) (nl_links nl k))
      (m, delete_invalid nl (map (scan_link m) (nl_links nl k)) k) = (r, (m', k'))"
    using assms(2) by (simp add: recover_state_from_interfaces_sync_def Let_def)
qed

section \<open>The manager as a machine\<close>

datatype overlay_event =
    Allocate int string string \<comment> \<open>time, runner, physical address\<close>
  | MarkInactive string
  | MarkActive int string
  | Release string
  | CleanupInactive

fun overlay_step :: "'k netlink \<Rightarrow> overlay_event \<Rightarrow> overlay_manager \<times> 'k \<Rightarrow> overlay_manager \<times> 'k" where
  "overlay_step nl (Allocate now n ip) s = snd (allocate_for_runner nl now n ip s)"
| "overlay_step nl (MarkInactive n) (m, k) = (mark_runner_inactive n m, k)"
| "overlay_step nl (MarkActive now n) (m, k) = (mark_runner_active now n m, k)"
| "overlay_step nl (Release n) s = snd (release_runner nl n s)"
| "overlay_step nl CleanupInactive s = snd (cleanup_inactive nl s)"

text \<open>A manager just after \<^verbatim>\<open>initialize\<close>: recovery has run on a fresh one.\<close>

inductive overlay_init :: "'k netlink \<Rightarrow> overlay_manager \<times> 'k \<Rightarrow> bool" for nl where
  "fresh_manager m \<Longrightarrow> overlay_init nl (snd (recover_state_from_interfaces_sync nl clock (m, k)))"

lemma overlay_init_ok: "overlay_init nl s \<Longrightarrow> recovered_ok (fst s)"
  by (induction rule: overlay_init.induct) (metis prod.collapse recover_state_ok)

interpretation om: machine "overlay_init nl" "overlay_step nl" "\<lambda>s. manager_ok (fst s)" for nl :: "'k netlink"
proof
  show "overlay_init nl s \<Longrightarrow> manager_ok (fst s)" for s
    by (simp add: overlay_init_ok [unfolded recovered_ok_def])
  show "manager_ok (fst s) \<Longrightarrow> manager_ok (fst (overlay_step nl e s))" for s e
  proof (cases s)
    case (Pair m k)
    assume "manager_ok (fst s)"
    with Pair show ?thesis
      by (cases e)
        (auto simp: mark_inactive_ok mark_active_ok release_runner_def snd_def split: prod.split
           intro: allocate_for_runner_ok release_internal_ok cleanup_inactive_ok)
  qed
qed

section \<open>What one allocation does\<close>

lemma allocate_new_free:
  assumes "available_ids m = rid # rest" "allocate_new nl now n physical (m, k) = (Inr b, (m', k'))"
  shows "runner_id b = rid \<and> m' = add_allocation n b m
         \<and> is_active b \<and> last_used b = now \<and> physical_ip b = physical"
proof -
  have "create_allocation nl now n physical rid (m, k) = (Inr b, (m', k'))"
    using assms by (simp add: allocate_new_def)
  then show ?thesis by (cases rule: create_allocation_cases) (auto simp: add_allocation_def)
qed

lemma available_sorted: "sorted (available_ids m)"
  by (simp add: available_ids_def sorted_filter [where f = id, simplified])

lemma allocate_fresh:
  assumes "map_of (allocations m) n = None" "find_placeholder m physical = None"
  shows "allocate_for_runner nl now n physical (m, k) = allocate_new nl now n physical (m, k)"
  using assms by (simp add: allocate_for_runner_def)

lemma available_after_release:
  assumes "manager_ok m" "map_of (allocations m) v = Some a" "available_ids m = []"
  shows "set (available_ids (m\<lparr>allocations := AList.delete v (allocations m),
                               id_to_runner := AList.delete (runner_id a) (id_to_runner m)\<rparr>)) = {runner_id a}"
proof -
  have "runner_id_ok (subnet_config m) (runner_id a)"
    using manager_ok_get [OF assms(1,2)] by (simp add: alloc_ok_def)
  moreover have "map_of (id_to_runner m) i \<noteq> None" if "runner_id_ok (subnet_config m) i" for i
    using assms(3) available_ids_iff [of i m] that by auto
  ultimately show ?thesis by (fastforce simp: available_ids_iff get_delete split: if_splits)
qed

lemma allocate_new_evict:
  assumes "manager_ok m" "map_of (allocations m) n = None" "available_ids m = []"
    "allocate_new nl now n physical (m, k) = (Inr b, (m', k'))"
  obtains v a where "map_of (allocations m) v = Some a" "find_lru_inactive m = Some v" "\<not> is_active a"
    "runner_id b = runner_id a" "is_active b" "physical_ip b = physical" "last_used b = now"
    "allocations m' = AList.update n b (AList.delete v (allocations m))"
proof -
  obtain v where v: "find_lru_inactive m = Some v"
    using assms(3,4) by (cases "find_lru_inactive m") (auto simp: allocate_new_def)
  then obtain a where "(v, a) \<in> set (allocations m)" and na: "\<not> is_active a"
    using find_lru_inactive_some by blast
  then have a: "map_of (allocations m) v = Some a"
    using manager_ok_dict [OF assms(1)] by (simp add: item_get)
  obtain r1 m1 k1 where rel: "release_runner_internal nl v (m, k) = (r1, (m1, k1))"
    by (metis prod.exhaust)
  have r1: "\<exists>x. r1 = Inr x" using assms(3,4) v rel by (cases r1) (auto simp: allocate_new_def)
  have m1: "m1 = m\<lparr>allocations := AList.delete v (allocations m),
                   id_to_runner := AList.delete (runner_id a) (id_to_runner m)\<rparr>"
    using rel by (cases rule: release_internal_cases) (use a r1 in auto)
  have av: "set (available_ids m1) = {runner_id a}"
    using available_after_release [OF assms(1) a assms(3)] m1 by simp
  then obtain rest where rid: "available_ids m1 = runner_id a # rest"
    by (cases "available_ids m1") auto
  have "create_allocation nl now n physical (runner_id a) (m1, k1) = (Inr b, (m', k'))"
    using assms(3,4) v rel r1 rid by (auto simp: allocate_new_def)
  then show ?thesis
    by (cases rule: create_allocation_cases) (use that [OF a v na] m1 in \<open>auto simp: set_alloc_def\<close>)
qed

section \<open>What recovery rebuilds\<close>

lemma recover_valid_ids:
  assumes "recover_valid nl clock xs (m, k) = (Inr (), (m', k'))"
  shows "set (dict_keys (id_to_runner m')) = set (dict_keys (id_to_runner m)) \<union> {rid. \<exists>d r. Valid d rid r \<in> set xs}"
  using assms
proof (induction nl clock xs "(m, k)" arbitrary: m k rule: recover_valid.induct)
  case (2 nl clock name rid remote rest m k)
  show ?case
  proof (cases "rid \<in> set (dict_keys (id_to_runner m))")
    case True
    with "2.prems" have "recover_valid nl clock rest (m, k) = (Inr (), m', k')" by simp
    with "2.hyps"(1) [OF True] True show ?thesis by auto
  next
    case False
    then obtain sn gw where f: "get_runner_subnet (subnet_config m) rid = Inr sn"
        "get_runner_gateway (subnet_config m) rid = Inr gw"
      using "2.prems" by (auto split: sum.splits)
    then have rec: "recover_valid nl clock rest
        (add_allocation (placeholder_name rid) (recovered_allocation name rid remote sn gw (clock rid)) m,
         add_interface_to_trusted_zone nl name k) = (Inr (), m', k')"
      using "2.prems" False by simp
    show ?thesis
      unfolding "2.hyps"(2) [OF False refl f rec] add_allocation_simps keys_update by auto
  qed
qed auto

lemma recover_valid_from:
  assumes "recover_valid nl clock xs (m, k) = (Inr (), (m', k'))" "map_of (allocations m') n = Some a"
  shows "map_of (allocations m) n = Some a
       \<or> (\<exists>r. Valid (vxlan_device a) (runner_id a) r \<in> set xs \<and> physical_ip a = remote_or_unknown r)"
  using assms
proof (induction nl clock xs "(m, k)" arbitrary: m k rule: recover_valid.induct)
  case (2 nl clock name rid remote rest m k)
  show ?case
  proof (cases "rid \<in> set (dict_keys (id_to_runner m))")
    case True
    with "2.prems" have "recover_valid nl clock rest (m, k) = (Inr (), m', k')" by simp
    with "2.hyps"(1) [OF True] "2.prems"(2) show ?thesis by auto
  next
    case False
    then obtain sn gw where f: "get_runner_subnet (subnet_config m) rid = Inr sn"
        "get_runner_gateway (subnet_config m) rid = Inr gw"
      using "2.prems" by (auto split: sum.splits)
    then have rec: "recover_valid nl clock rest
        (add_allocation (placeholder_name rid) (recovered_allocation name rid remote sn gw (clock rid)) m,
         add_interface_to_trusted_zone nl name k) = (Inr (), m', k')"
      using "2.prems" False by simp
    show ?thesis
      using "2.hyps"(2) [OF False refl f rec "2.prems"(2)]
      by (auto simp: get_update split: if_splits)
  qed
qed auto

lemma create_allocation_keeps:
  "create_allocation nl now n physical rid (m, k) = (r, (m', k')) \<Longrightarrow> x \<noteq> n
   \<Longrightarrow> map_of (allocations m') x = map_of (allocations m) x"
  by (erule create_allocation_cases) (auto simp: set_alloc_def get_update)

lemma allocate_new_keeps:
  assumes "manager_ok m" "allocate_new nl now n physical (m, k) = (r, (m', k'))"
    "map_of (allocations m) x = Some a" "is_active a" "x \<noteq> n"
  shows "map_of (allocations m') x = Some a"
proof (cases "available_ids m")
  case (Cons rid rest)
  then show ?thesis
    using assms by (auto simp: allocate_new_def create_allocation_keeps)
next
  case Nil
  show ?thesis
  proof (cases "find_lru_inactive m")
    case None
    then show ?thesis using Nil assms by (auto simp: allocate_new_def)
  next
    case (Some v)
    obtain c where "(v, c) \<in> set (allocations m)" "\<not> is_active c"
      using find_lru_inactive_some [OF Some] by blast
    then have "map_of (allocations m) v = Some c" using manager_ok_dict [OF assms(1)] by (simp add: item_get)
    then have "x \<noteq> v" using assms(3,4) \<open>\<not> is_active c\<close> by auto
    obtain r1 m1 k1 where rel: "release_runner_internal nl v (m, k) = (r1, (m1, k1))"
      by (metis prod.exhaust)
    have "map_of (allocations m1) x = Some a"
      using rel by (cases rule: release_internal_cases) (use assms(3) \<open>x \<noteq> v\<close> in \<open>auto simp: get_delete\<close>)
    then show ?thesis
      using Nil Some rel assms(2,5)
      by (auto simp: allocate_new_def create_allocation_keeps split: sum.splits list.splits)
  qed
qed

end
