(* ===== verification/IP_Reservation.thy ===== *)
theory IP_Reservation
  imports Overlay_Safety
begin

text \<open>
  The IP reservation manager (\<^verbatim>\<open>host/services/ip_reservation.py\<close>).  Its methods hold one
  lock, so each is an atomic step on the state; it reads the overlay manager's allocations,
  which are an argument.  The clock is read once per operation (\<open>now\<close>, microseconds), and
  \<^verbatim>\<open>secrets.choice(xs)\<close> is \<open>xs ! (r mod length xs)\<close> for the random number \<open>r\<close> given as an
  argument.  Sets of used addresses are lists without duplicates.  JSON, SHA-256 and base64 are
  the fields of a \<open>token_lib\<close> record.
\<close>

section \<open>State\<close>

record ip_reservation =
  ip :: string
  res_runner :: string
  res_runner_id :: int
  token :: string
  res_network :: string
  created_at :: int
  expires_at :: int
  container_id :: "string option"

definition is_expired :: "int \<Rightarrow> ip_reservation \<Rightarrow> bool" where
  "is_expired now r \<longleftrightarrow> now > expires_at r"

definition is_used :: "ip_reservation \<Rightarrow> bool" where
  "is_used r \<longleftrightarrow> container_id r \<noteq> None"

type_synonym netkey = "string \<times> string"

record ipr_state =
  secret_key :: string
  default_ttl :: int
  reservations :: "(netkey, ip_reservation) dict" \<comment> \<open>(network, ip)\<close>
  token_to_key :: "(string, netkey) dict"
  used_ips :: "(netkey, string list) dict" \<comment> \<open>(runner, network)\<close>

text \<open>The overlay manager the reservations refer to: several networks, or the legacy single one.\<close>

datatype overlay_ref = Multi multi_manager | Single overlay_manager

definition get_manager_for_network :: "overlay_ref \<Rightarrow> string \<Rightarrow> overlay_manager option" where
  "get_manager_for_network ov n =
     (case ov of
        Multi ms \<Rightarrow> get_manager ms n
      | Single m \<Rightarrow> if n = ''default'' then Some m else None)"

definition new_ipr :: "string \<Rightarrow> int \<Rightarrow> ipr_state" where
  "new_ipr key ttl = \<lparr>secret_key = key, default_ttl = ttl, reservations = [], token_to_key = [], used_ips = []\<rparr>"

section \<open>Tokens\<close>

record token_payload =
  p_ip :: string
  p_runner :: string
  p_exp :: int
  p_net :: string

record token_lib =
  json_dumps :: "token_payload \<Rightarrow> string"
  json_loads :: "string \<Rightarrow> token_payload option" \<comment> \<open>\<open>None\<close>: not JSON, or a key is missing\<close>
  sha256_hex :: "string \<Rightarrow> string"
  b64_encode :: "string \<Rightarrow> string"
  b64_decode :: "string \<Rightarrow> string option"

definition sign :: "token_lib \<Rightarrow> string \<Rightarrow> string \<Rightarrow> string" where
  "sign lib key payload_json = take 16 (sha256_hex lib (payload_json @ key))"

text \<open>\<^verbatim>\<open>int(expires_at.timestamp())\<close> is the whole seconds.\<close>

definition generate_token :: "token_lib \<Rightarrow> string \<Rightarrow> string \<Rightarrow> string \<Rightarrow> int \<Rightarrow> string \<Rightarrow> string" where
  "generate_token lib key ip_s runner expires net =
     (let payload_json = json_dumps lib \<lparr>p_ip = ip_s, p_runner = runner, p_exp = expires div 1000000, p_net = net\<rparr>
      in b64_encode lib (payload_json @ ''.'' @ sign lib key payload_json))"

definition verify_token :: "token_lib \<Rightarrow> string \<Rightarrow> int \<Rightarrow> string \<Rightarrow> token_payload option" where
  "verify_token lib key now tok =
     (case b64_decode lib tok of
        None \<Rightarrow> None
      | Some token_data \<Rightarrow>
          (case rsplit1 CHR ''.'' token_data of
             None \<Rightarrow> None
           | Some (payload_json, signature) \<Rightarrow>
               if signature \<noteq> sign lib key payload_json then None
               else
                 (case json_loads lib payload_json of
                    None \<Rightarrow> None
                  | Some payload \<Rightarrow> if p_exp payload * 1000000 < now then None else Some payload)))"

section \<open>Available addresses\<close>

definition used_of :: "ipr_state \<Rightarrow> string \<Rightarrow> string \<Rightarrow> string list" where
  "used_of s runner net = (case map_of (used_ips s) (runner, net) of None \<Rightarrow> [] | Some xs \<Rightarrow> xs)"

definition reserved_of :: "ipr_state \<Rightarrow> int \<Rightarrow> string \<Rightarrow> string \<Rightarrow> string list" where
  "reserved_of s now runner net =
     map (\<lambda>(k, r). ip r)
       (filter (\<lambda>(k, r). fst k = net \<and> res_runner r = runner \<and> \<not> is_expired now r) (reservations s))"

definition get_available_ips_for_runner ::
  "overlay_ref \<Rightarrow> ipr_state \<Rightarrow> int \<Rightarrow> string \<Rightarrow> string \<Rightarrow> string list res" where
  "get_available_ips_for_runner ov s now runner net =
     (case get_manager_for_network ov net of
        None \<Rightarrow> Inr []
      | Some m \<Rightarrow>
          (case map_of (allocations m) runner of
             None \<Rightarrow> Inr []
           | Some a \<Rightarrow>
               bind_res (get_container_ip_range (subnet_config m) (runner_id a)) (\<lambda>(first_str, last_str).
               bind_res (parse_ipv4 first_str) (\<lambda>first_ip.
               bind_res (parse_ipv4 last_str) (\<lambda>last_ip.
               let unavailable = reserved_of s now runner net @ used_of s runner net in
               bind_res (get_host_ip_on_runner_subnet (subnet_config m) (runner_id a)) (\<lambda>host_ip.
                 Inr (filter (\<lambda>x. x \<notin> set unavailable \<and> x \<noteq> host_ip) (map ipv4_str [first_ip..last_ip]))))))))"

definition get_available_ips ::
  "overlay_ref \<Rightarrow> ipr_state \<Rightarrow> int \<Rightarrow> string option \<Rightarrow> nat \<Rightarrow> string \<Rightarrow> (string, string list) dict res" where
  "get_available_ips ov s now runner lim net =
     (case get_manager_for_network ov net of
        None \<Rightarrow> Inr []
      | Some m \<Rightarrow>
          let runners = (case runner of
                           None \<Rightarrow> dict_keys (allocations m)
                         | Some n \<Rightarrow> if n = [] then dict_keys (allocations m) else [n])
          in map_res (\<lambda>n. bind_res (get_available_ips_for_runner ov s now n net) (\<lambda>ips. Inr (n, take lim ips))) runners)"

section \<open>Expiry\<close>

text \<open>\<^verbatim>\<open>if reservation.token in self._token_to_key: del ...\<close>\<close>

definition drop_reservation :: "netkey \<Rightarrow> ip_reservation \<Rightarrow> ipr_state \<Rightarrow> ipr_state" where
  "drop_reservation k r s =
     s\<lparr>reservations := AList.delete k (reservations s),
       token_to_key := AList.delete (token r) (token_to_key s)\<rparr>"

definition expired_unused :: "int \<Rightarrow> ipr_state \<Rightarrow> (netkey, ip_reservation) dict" where
  "expired_unused now s = filter (\<lambda>(k, r). is_expired now r \<and> \<not> is_used r) (reservations s)"

definition cleanup_expired_sync :: "int \<Rightarrow> ipr_state \<Rightarrow> ipr_state" where
  "cleanup_expired_sync now s = fold (\<lambda>(k, r). drop_reservation k r) (expired_unused now s) s"

definition cleanup_expired :: "int \<Rightarrow> ipr_state \<Rightarrow> int \<times> ipr_state" where
  "cleanup_expired now s = (int (length (expired_unused now s)), cleanup_expired_sync now s)"

section \<open>Reservation\<close>

definition add_used :: "string \<Rightarrow> string \<Rightarrow> string \<Rightarrow> ipr_state \<Rightarrow> ipr_state" where
  "add_used runner net x s =
     s\<lparr>used_ips := AList.update (runner, net) (List.insert x (used_of s runner net)) (used_ips s)\<rparr>"

definition discard_used :: "string \<Rightarrow> string \<Rightarrow> string \<Rightarrow> ipr_state \<Rightarrow> ipr_state" where
  "discard_used runner net x s =
     (case map_of (used_ips s) (runner, net) of
        None \<Rightarrow> s
      | Some xs \<Rightarrow> s\<lparr>used_ips := AList.update (runner, net) (removeAll x xs) (used_ips s)\<rparr>)"

definition ttl_or_default :: "int option \<Rightarrow> ipr_state \<Rightarrow> int" where
  "ttl_or_default ttl s = (case ttl of None \<Rightarrow> default_ttl s | Some t \<Rightarrow> if t = 0 then default_ttl s else t)"

definition reserve_ip ::
  "token_lib \<Rightarrow> overlay_ref \<Rightarrow> int \<Rightarrow> nat \<Rightarrow> string \<Rightarrow> string option \<Rightarrow> int option \<Rightarrow> string
   \<Rightarrow> (ipr_state, ip_reservation option) st" where
  "reserve_ip lib ov now rand runner wanted ttl net = (\<lambda>s0.
     let s = cleanup_expired_sync now s0 in
     case get_manager_for_network ov net of
       None \<Rightarrow> (Inr None, s)
     | Some m \<Rightarrow>
         (case map_of (allocations m) runner of
            None \<Rightarrow> (Inr None, s)
          | Some a \<Rightarrow>
              (case get_available_ips_for_runner ov s now runner net of
                 Inl e \<Rightarrow> (Inl e, s)
               | Inr available \<Rightarrow>
                   let choice = (case wanted of
                                   None \<Rightarrow> if available = [] then None else Some (available ! (rand mod length available))
                                 | Some x \<Rightarrow> if x \<in> set available then Some x else None)
                   in case choice of
                        None \<Rightarrow> (Inr None, s)
                      | Some x \<Rightarrow>
                          let expires = now + ttl_or_default ttl s * 1000000;
                              tok = generate_token lib (secret_key s) x runner expires net;
                              r = \<lparr>ip = x, res_runner = runner, res_runner_id = runner_id a, token = tok,
                                   res_network = net, created_at = now, expires_at = expires, container_id = None\<rparr>
                          in (Inr (Some r),
                              s\<lparr>reservations := AList.update (net, x) r (reservations s),
                                token_to_key := AList.update tok (net, x) (token_to_key s)\<rparr>))))"

definition one_year :: int where
  "one_year = 365 * 24 * 3600 * 1000000"

definition auto_allocate_ip ::
  "overlay_ref \<Rightarrow> int \<Rightarrow> nat \<Rightarrow> string \<Rightarrow> string \<Rightarrow> string \<Rightarrow> (ipr_state, string option) st" where
  "auto_allocate_ip ov now rand runner net cid = (\<lambda>s0.
     if cid = [] then (Inl (ValueError ''container_id is required for auto_allocate_ip''), s0)
     else
       let s = cleanup_expired_sync now s0 in
       case get_manager_for_network ov net of
         None \<Rightarrow> (Inr None, s)
       | Some m \<Rightarrow>
           (case map_of (allocations m) runner of
              None \<Rightarrow> (Inr None, s)
            | Some a \<Rightarrow>
                (case get_available_ips_for_runner ov s now runner net of
                   Inl e \<Rightarrow> (Inl e, s)
                 | Inr [] \<Rightarrow> (Inr None, s)
                 | Inr (y # ys) \<Rightarrow>
                     let x = (y # ys) ! (rand mod length (y # ys));
                         r = \<lparr>ip = x, res_runner = runner, res_runner_id = runner_id a, token = '''',
                              res_network = net, created_at = now, expires_at = now + one_year,
                              container_id = Some cid\<rparr>
                     in (Inr (Some x),
                         add_used runner net x (s\<lparr>reservations := AList.update (net, x) r (reservations s)\<rparr>)))))"

text \<open>The checks \<^verbatim>\<open>validate_token\<close> and \<^verbatim>\<open>use_reservation\<close> share: the reservation behind a token.\<close>

definition find_reservation ::
  "token_lib \<Rightarrow> int \<Rightarrow> string \<Rightarrow> string option \<Rightarrow> string option \<Rightarrow> ipr_state \<Rightarrow> (netkey \<times> ip_reservation) option" where
  "find_reservation lib now tok expected_runner expected_network s =
     (case verify_token lib (secret_key s) now tok of
        None \<Rightarrow> None
      | Some payload \<Rightarrow>
          (case map_of (token_to_key s) tok of
             None \<Rightarrow> None
           | Some key \<Rightarrow>
               (case map_of (reservations s) key of
                  None \<Rightarrow> None
                | Some r \<Rightarrow>
                    if truthy expected_runner \<and> Some (res_runner r) \<noteq> expected_runner then None
                    else if truthy expected_network \<and> Some (res_network r) \<noteq> expected_network then None
                    else if is_used r then None
                    else Some (key, r))))"

definition validate_token ::
  "token_lib \<Rightarrow> int \<Rightarrow> string \<Rightarrow> string option \<Rightarrow> string option \<Rightarrow> ipr_state \<Rightarrow> ip_reservation option" where
  "validate_token lib now tok er en s = map_option snd (find_reservation lib now tok er en s)"

definition use_reservation ::
  "token_lib \<Rightarrow> int \<Rightarrow> string \<Rightarrow> string \<Rightarrow> string option \<Rightarrow> string option \<Rightarrow> ipr_state \<Rightarrow> string option \<times> ipr_state" where
  "use_reservation lib now tok cid er en s =
     (case find_reservation lib now tok er en s of
        None \<Rightarrow> (None, s)
      | Some (key, r) \<Rightarrow>
          (Some (ip r),
           add_used (res_runner r) (res_network r) (ip r)
             (s\<lparr>reservations := AList.update key (r\<lparr>container_id := Some cid\<rparr>) (reservations s)\<rparr>)))"

section \<open>Release\<close>

fun release_loop :: "string \<Rightarrow> (netkey, ip_reservation) dict \<Rightarrow> ipr_state \<Rightarrow> string list \<times> ipr_state" where
  "release_loop cid [] s = ([], s)"
| "release_loop cid ((k, r) # rest) s =
     (if container_id r = Some cid
      then (case release_loop cid rest (drop_reservation k r (discard_used (res_runner r) (res_network r) (ip r) s)) of
              (ips, s') \<Rightarrow> (ip r # ips, s'))
      else release_loop cid rest s)"

definition release_by_container :: "string \<Rightarrow> ipr_state \<Rightarrow> string list \<times> ipr_state" where
  "release_by_container cid s = release_loop cid (reservations s) s"

definition release_by_token :: "string \<Rightarrow> ipr_state \<Rightarrow> bool \<times> ipr_state" where
  "release_by_token tok s =
     (case map_of (token_to_key s) tok of
        None \<Rightarrow> (False, s)
      | Some key \<Rightarrow>
          (case map_of (reservations s) key of
             None \<Rightarrow> (False, s)
           | Some r \<Rightarrow>
               if is_used r then (False, s)
               else (True, s\<lparr>reservations := AList.delete key (reservations s),
                             token_to_key := AList.delete tok (token_to_key s)\<rparr>)))"

definition mark_ip_used :: "string \<Rightarrow> string \<Rightarrow> string \<Rightarrow> ipr_state \<Rightarrow> ipr_state" where
  "mark_ip_used runner x net s = add_used runner net x s"

definition mark_ip_free :: "string \<Rightarrow> string \<Rightarrow> string \<Rightarrow> ipr_state \<Rightarrow> ipr_state" where
  "mark_ip_free runner x net s0 =
     (let s = discard_used runner net x s0 in
      case map_of (reservations s) (net, x) of
        None \<Rightarrow> s
      | Some r \<Rightarrow> drop_reservation (net, x) r s)"

section \<open>Queries\<close>

definition get_reservations ::
  "int \<Rightarrow> string option \<Rightarrow> bool \<Rightarrow> string option \<Rightarrow> ipr_state \<Rightarrow> ip_reservation list \<times> ipr_state" where
  "get_reservations now runner include_used net s0 =
     (let s = cleanup_expired_sync now s0;
          rs0 = dict_values (reservations s);
          rs1 = (if truthy net then filter (\<lambda>r. Some (res_network r) = net) rs0 else rs0);
          rs2 = (if truthy runner then filter (\<lambda>r. Some (res_runner r) = runner) rs1 else rs1);
          rs3 = (if \<not> include_used then filter (\<lambda>r. \<not> is_used r) rs2 else rs2)
      in (rs3, s))"

record ip_info =
  info_runner :: string
  info_runner_id :: int
  info_network :: string
  info_subnet :: string
  info_gateway :: string
  info_first :: string
  info_last :: string
  total_ips :: int
  available :: int
  reserved :: int
  used :: int

text \<open>\<open>Inr None\<close> is the dictionary with an \<^verbatim>\<open>error\<close> key.\<close>

definition get_ip_info :: "overlay_ref \<Rightarrow> ipr_state \<Rightarrow> int \<Rightarrow> string \<Rightarrow> string \<Rightarrow> ip_info option res" where
  "get_ip_info ov s now runner net =
     (case get_manager_for_network ov net of
        None \<Rightarrow> Inr None
      | Some m \<Rightarrow>
          (case map_of (allocations m) runner of
             None \<Rightarrow> Inr None
           | Some a \<Rightarrow>
               bind_res (get_container_ip_range (subnet_config m) (runner_id a)) (\<lambda>(first_ip, last_ip).
               bind_res (parse_ipv4 first_ip) (\<lambda>first_int.
               bind_res (parse_ipv4 last_ip) (\<lambda>last_int.
               let total = last_int - first_int + 1;
                   reserved_count = int (length (filter (\<lambda>(k, r). fst k = net \<and> res_runner r = runner
                                       \<and> \<not> is_expired now r \<and> \<not> is_used r) (reservations s)));
                   used_count = int (length (used_of s runner net))
               in Inr (Some \<lparr>info_runner = runner, info_runner_id = runner_id a, info_network = net,
                    info_subnet = subnet a, info_gateway = gateway a, info_first = first_ip, info_last = last_ip,
                    total_ips = total, available = total - reserved_count - used_count,
                    reserved = reserved_count, used = used_count\<rparr>))))))"

record ipr_stats =
  total_reservations :: int
  pending_reservations :: int
  in_use_reservations :: int
  total_used_ips :: int
  runners_with_used_ips :: int

definition ipr_get_stats :: "int \<Rightarrow> ipr_state \<Rightarrow> ipr_stats \<times> ipr_state" where
  "ipr_get_stats now s0 =
     (let s = cleanup_expired_sync now s0;
          total_reserved = int (length (reservations s));
          in_use = int (length (filter is_used (dict_values (reservations s))))
      in (\<lparr>total_reservations = total_reserved, pending_reservations = total_reserved - in_use,
           in_use_reservations = in_use,
           total_used_ips = sum_list (map (\<lambda>ips. int (length ips)) (dict_values (used_ips s))),
           runners_with_used_ips =
             int (length (remdups (map (\<lambda>(k, ips). fst k) (filter (\<lambda>(k, ips). ips \<noteq> []) (used_ips s)))))\<rparr>, s))"

end
