(* ===== verification/IP_Safety.thy ===== *)
theory IP_Safety
  imports IP_Reservation
begin

text \<open>
  The invariant of the reservation manager and the properties that rest on it: reservations are
  filed under their own network and address, and an address bound to a container is in the used
  set of its runner and network until that container is released.
\<close>

section \<open>State updates\<close>

lemma used_ips_add:
  "map_of (used_ips (add_used r n x s)) k = (if k = (r, n) then Some (List.insert x (used_of s r n)) else map_of (used_ips s) k)"
  by (simp add: add_used_def get_update)

lemma used_of_add [simp]:
  "used_of (add_used r n x s) r' n' = (if r' = r \<and> n' = n then List.insert x (used_of s r n) else used_of s r' n')"
  unfolding used_of_def [of "add_used r n x s"] used_ips_add by (simp add: used_of_def)

lemma used_of_discard [simp]:
  "used_of (discard_used r n x s) r' n' = (if r' = r \<and> n' = n then removeAll x (used_of s r n) else used_of s r' n')"
  by (cases "map_of (used_ips s) (r, n)") (simp_all add: used_of_def discard_used_def get_update)

lemma used_of_fields [simp]:
  "used_of (s\<lparr>reservations := x\<rparr>) r n = used_of s r n"
  "used_of (s\<lparr>token_to_key := y\<rparr>) r n = used_of s r n"
  "used_of (drop_reservation k v s) r n = used_of s r n"
  by (simp_all add: used_of_def drop_reservation_def)

lemma reservations_fields [simp]:
  "reservations (add_used r n x s) = reservations s"
  "reservations (discard_used r n x s) = reservations s"
  "reservations (drop_reservation k v s) = AList.delete k (reservations s)"
  "token_to_key (add_used r n x s) = token_to_key s"
  "token_to_key (discard_used r n x s) = token_to_key s"
  "secret_key (add_used r n x s) = secret_key s"
  "secret_key (discard_used r n x s) = secret_key s"
  "secret_key (drop_reservation k v s) = secret_key s"
  "default_ttl (drop_reservation k v s) = default_ttl s"
  by (auto simp: add_used_def discard_used_def drop_reservation_def split: option.split)

lemma fold_drop_fields:
  "reservations (fold (\<lambda>(k, r). drop_reservation k r) xs s) = fold (\<lambda>(k, r). AList.delete k) xs (reservations s)"
  "used_ips (fold (\<lambda>(k, r). drop_reservation k r) xs s) = used_ips s"
  "secret_key (fold (\<lambda>(k, r). drop_reservation k r) xs s) = secret_key s"
  "default_ttl (fold (\<lambda>(k, r). drop_reservation k r) xs s) = default_ttl s"
  by (induction xs arbitrary: s) (auto simp: drop_reservation_def)

lemma fold_delete_get:
  "map_of (fold (\<lambda>(k, r). AList.delete k) xs d) k = (if k \<in> fst ` set xs then None else map_of d k)"
  by (induction xs arbitrary: d) (auto simp: get_delete)

lemma fold_delete_ok: "dict_ok d \<Longrightarrow> dict_ok (fold (\<lambda>(k, r). AList.delete k) xs d)"
  by (induction xs arbitrary: d) auto

lemma cleanup_used_ips [simp]: "used_ips (cleanup_expired_sync now s) = used_ips s"
  by (simp add: cleanup_expired_sync_def fold_drop_fields)

lemma cleanup_used_of [simp]: "used_of (cleanup_expired_sync now s) = used_of s"
  by (simp add: used_of_def fun_eq_iff)

lemma cleanup_config [simp]:
  "secret_key (cleanup_expired_sync now s) = secret_key s"
  "default_ttl (cleanup_expired_sync now s) = default_ttl s"
  by (simp_all add: cleanup_expired_sync_def fold_drop_fields)

lemma cleanup_get:
  assumes "dict_ok (reservations s)"
  shows "map_of (reservations (cleanup_expired_sync now s)) k =
    (case map_of (reservations s) k of
       None \<Rightarrow> None | Some r \<Rightarrow> if is_expired now r \<and> \<not> is_used r then None else Some r)"
proof -
  have "k \<in> fst ` set (expired_unused now s) \<longleftrightarrow>
      (\<exists>r. map_of (reservations s) k = Some r \<and> is_expired now r \<and> \<not> is_used r)"
    using assms by (force simp: expired_unused_def item_get)
  then show ?thesis
    by (auto simp: cleanup_expired_sync_def fold_drop_fields fold_delete_get split: option.split)
qed

lemma cleanup_ok [simp]: "dict_ok (reservations s) \<Longrightarrow> dict_ok (reservations (cleanup_expired_sync now s))"
  by (simp add: cleanup_expired_sync_def fold_drop_fields fold_delete_ok)

section \<open>The invariant\<close>

definition ipr_ok :: "ipr_state \<Rightarrow> bool" where
  "ipr_ok s \<longleftrightarrow>
     dict_ok (reservations s) \<and>
     (\<forall>n x r. map_of (reservations s) (n, x) = Some r \<longrightarrow>
        res_network r = n \<and> ip r = x \<and> (is_used r \<longrightarrow> x \<in> set (used_of s (res_runner r) n)))"

lemma ipr_ok_get:
  "ipr_ok s \<Longrightarrow> map_of (reservations s) (n, x) = Some r \<Longrightarrow>
     res_network r = n \<and> ip r = x \<and> (is_used r \<longrightarrow> x \<in> set (used_of s (res_runner r) n))"
  by (simp add: ipr_ok_def)

lemma ipr_ok_dict: "ipr_ok s \<Longrightarrow> dict_ok (reservations s)"
  by (simp add: ipr_ok_def)

lemma ipr_ok_cong: "reservations s = reservations t \<Longrightarrow> used_ips s = used_ips t \<Longrightarrow> ipr_ok s = ipr_ok t"
  by (simp add: ipr_ok_def used_of_def)

lemma ipr_ok_new: "ipr_ok (new_ipr key ttl)"
  by (simp add: ipr_ok_def new_ipr_def)

lemma ipr_ok_cleanup: "ipr_ok s \<Longrightarrow> ipr_ok (cleanup_expired_sync now s)"
  by (auto simp: ipr_ok_def cleanup_get split: option.splits if_splits)

lemma ipr_ok_insert:
  assumes "ipr_ok s" "res_network r = n" "ip r = x" "is_used r \<longrightarrow> x \<in> set (used_of s (res_runner r) n)"
  shows "ipr_ok (s\<lparr>reservations := AList.update (n, x) r (reservations s)\<rparr>)"
  using assms by (auto simp: ipr_ok_def get_update)

lemma ipr_ok_insert_used:
  assumes "ipr_ok s" "res_network r = n" "ip r = x" "res_runner r = rn"
  shows "ipr_ok (add_used rn n x (s\<lparr>reservations := AList.update (n, x) r (reservations s)\<rparr>))"
  using assms by (auto simp: ipr_ok_def get_update) metis

lemma ipr_ok_tokens [simp]: "ipr_ok (s\<lparr>token_to_key := t\<rparr>) = ipr_ok s"
  by (simp add: ipr_ok_def)

lemma ipr_ok_tokens' [simp]: "ipr_ok (s\<lparr>reservations := d, token_to_key := t\<rparr>) = ipr_ok (s\<lparr>reservations := d\<rparr>)"
  by (simp add: ipr_ok_def)

lemma ipr_ok_add_used: "ipr_ok s \<Longrightarrow> ipr_ok (add_used r n x s)"
  by (auto simp: ipr_ok_def)

lemma ipr_ok_drop: "ipr_ok s \<Longrightarrow> ipr_ok (drop_reservation k r s)"
  by (simp add: ipr_ok_def get_delete)

lemma ipr_ok_delete: "ipr_ok s \<Longrightarrow> ipr_ok (s\<lparr>reservations := AList.delete k (reservations s)\<rparr>)"
  by (simp add: ipr_ok_def get_delete)

text \<open>Freeing an address together with the reservation filed under it.\<close>

lemma ipr_ok_free: "ipr_ok s \<Longrightarrow> ipr_ok (drop_reservation (n, x) v (discard_used r n x s))"
  by (auto simp: ipr_ok_def get_delete)

lemma ipr_ok_discard:
  "ipr_ok s \<Longrightarrow> map_of (reservations s) (n, x) = None \<Longrightarrow> ipr_ok (discard_used r n x s)"
  by (auto simp: ipr_ok_def)

section \<open>Operations keep it\<close>

lemma reserve_ip_cases:
  assumes "reserve_ip lib ov now rand runner wanted ttl net s0 = (res, s')"
  obtains (no) "s' = cleanup_expired_sync now s0" "\<not> (\<exists>r. res = Inr (Some r))"
  | (yes) r xs where "res = Inr (Some r)"
      "get_available_ips_for_runner ov (cleanup_expired_sync now s0) now runner net = Inr xs" "ip r \<in> set xs"
      "res_network r = net" "res_runner r = runner" "\<not> is_used r"
      "expires_at r = now + ttl_or_default ttl s0 * 1000000"
      "token r = generate_token lib (secret_key s0) (ip r) runner (expires_at r) net"
      "\<And>x. wanted = Some x \<Longrightarrow> ip r = x"
      "reservations s' = AList.update (net, ip r) r (reservations (cleanup_expired_sync now s0))"
      "token_to_key s' = AList.update (token r) (net, ip r) (token_to_key (cleanup_expired_sync now s0))"
      "used_ips s' = used_ips (cleanup_expired_sync now s0)"
      "secret_key s' = secret_key s0"
proof (cases "\<exists>r. res = Inr (Some r)")
  case False
  with assms show ?thesis
    by (intro no) (auto simp: reserve_ip_def Let_def split: option.splits sum.splits)
next
  case True
  then obtain r where r: "res = Inr (Some r)" by blast
  let ?s = "cleanup_expired_sync now s0"
  obtain xs where xs: "get_available_ips_for_runner ov ?s now runner net = Inr xs"
    using assms r by (auto simp: reserve_ip_def Let_def split: option.splits sum.splits)
  show ?thesis
    by (rule yes [OF r xs])
      (use assms r xs in \<open>auto simp: reserve_ip_def Let_def is_used_def ttl_or_default_def mod_index
         split: option.splits sum.splits if_splits\<close>)
qed

lemma auto_allocate_cases:
  assumes "auto_allocate_ip ov now rand runner net cid s0 = (res, s')"
  obtains (no) "s' = s0 \<or> s' = cleanup_expired_sync now s0" "\<not> (\<exists>x. res = Inr (Some x))"
  | (yes) x r xs where "res = Inr (Some x)" "cid \<noteq> []"
      "get_available_ips_for_runner ov (cleanup_expired_sync now s0) now runner net = Inr xs" "x \<in> set xs"
      "res_network r = net" "res_runner r = runner" "ip r = x" "container_id r = Some cid"
      "s' = add_used runner net x ((cleanup_expired_sync now s0)\<lparr>reservations :=
              AList.update (net, x) r (reservations (cleanup_expired_sync now s0))\<rparr>)"
proof (cases "\<exists>x. res = Inr (Some x)")
  case False
  with assms show ?thesis
    by (intro no) (auto simp: auto_allocate_ip_def Let_def split: option.splits sum.splits if_splits list.splits)
next
  case True
  then obtain x where x: "res = Inr (Some x)" by blast
  let ?s = "cleanup_expired_sync now s0"
  obtain m a y ys where h: "cid \<noteq> []" "get_manager_for_network ov net = Some m" "map_of (allocations m) runner = Some a"
      "get_available_ips_for_runner ov ?s now runner net = Inr (y # ys)"
    using assms x by (auto simp: auto_allocate_ip_def Let_def split: option.splits sum.splits if_splits list.splits)
  have "x \<in> set (y # ys)"
    using assms x h mod_index [of "y # ys" rand] by (auto simp: auto_allocate_ip_def Let_def)
  moreover have "s' = add_used runner net x (?s\<lparr>reservations := AList.update (net, x)
      \<lparr>ip = x, res_runner = runner, res_runner_id = runner_id a, token = [], res_network = net,
       created_at = now, expires_at = now + one_year, container_id = Some cid\<rparr> (reservations ?s)\<rparr>)"
    using assms x h by (auto simp: auto_allocate_ip_def Let_def)
  ultimately show ?thesis by (intro yes [OF x h(1,4)]) auto
qed

lemma find_reservation_some:
  "find_reservation lib now tok er en s = Some (key, r) \<Longrightarrow>
     map_of (reservations s) key = Some r \<and> \<not> is_used r \<and> map_of (token_to_key s) tok = Some key"
  by (auto simp: find_reservation_def split: option.splits if_splits)

lemma use_reservation_cases:
  assumes "ipr_ok s" "use_reservation lib now tok cid er en s = (res, s')"
  obtains (no) "res = None" "s' = s"
  | (yes) r where "res = Some (ip r)" "find_reservation lib now tok er en s = Some ((res_network r, ip r), r)"
      "map_of (reservations s) (res_network r, ip r) = Some r" "\<not> is_used r"
      "s' = add_used (res_runner r) (res_network r) (ip r)
              (s\<lparr>reservations := AList.update (res_network r, ip r) (r\<lparr>container_id := Some cid\<rparr>) (reservations s)\<rparr>)"
proof (cases "find_reservation lib now tok er en s")
  case None
  with assms(2) show ?thesis by (intro no) (auto simp: use_reservation_def)
next
  case (Some kr)
  obtain n x r where kr: "kr = ((n, x), r)" by (metis prod.exhaust)
  then have f: "find_reservation lib now tok er en s = Some ((n, x), r)" using Some by simp
  have g: "map_of (reservations s) (n, x) = Some r" "\<not> is_used r" using find_reservation_some [OF f] by auto
  then have "n = res_network r" "x = ip r" using ipr_ok_get [OF assms(1) g(1)] by auto
  with f g assms(2) show ?thesis by (intro yes [of r]) (auto simp: use_reservation_def)
qed

lemma release_loop_state [simp]:
  "snd (release_loop cid ((k, r) # rest) s) =
     (if container_id r = Some cid
      then snd (release_loop cid rest (drop_reservation k r (discard_used (res_runner r) (res_network r) (ip r) s)))
      else snd (release_loop cid rest s))"
  by (simp split: prod.split)

lemma ipr_ok_release_loop:
  "ipr_ok s \<Longrightarrow> \<forall>(k, r) \<in> set xs. k = (res_network r, ip r) \<Longrightarrow> ipr_ok (snd (release_loop cid xs s))"
proof (induction xs arbitrary: s)
  case (Cons p xs)
  obtain k r where p: "p = (k, r)" by (cases p)
  with Cons.prems have "ipr_ok (drop_reservation k r (discard_used (res_runner r) (res_network r) (ip r) s))"
    using ipr_ok_free by auto
  with Cons p show ?case by (auto simp del: release_loop.simps)
qed simp

lemma items_keyed: "ipr_ok s \<Longrightarrow> (k, r) \<in> set (reservations s) \<Longrightarrow> k = (res_network r, ip r)"
  using ipr_ok_dict [of s] ipr_ok_get [of s "fst k" "snd k" r] by (simp add: item_get)

lemma ipr_ok_release: "ipr_ok s \<Longrightarrow> ipr_ok (snd (release_by_container cid s))"
  unfolding release_by_container_def by (rule ipr_ok_release_loop) (auto dest: items_keyed)

lemma ipr_ok_release_token: "ipr_ok s \<Longrightarrow> ipr_ok (snd (release_by_token tok s))"
  by (simp add: release_by_token_def ipr_ok_delete split: option.split)

lemma ipr_ok_mark_free: "ipr_ok s \<Longrightarrow> ipr_ok (mark_ip_free r x n s)"
  by (simp add: mark_ip_free_def Let_def ipr_ok_free ipr_ok_discard split: option.split)

lemma ipr_ok_reserve: "ipr_ok s \<Longrightarrow> ipr_ok (snd (reserve_ip lib ov now rand runner wanted ttl net s))"
proof -
  assume s: "ipr_ok s"
  obtain res s' where e: "reserve_ip lib ov now rand runner wanted ttl net s = (res, s')" by fastforce
  then show ?thesis
  proof (cases rule: reserve_ip_cases)
    case no
    with e s show ?thesis by (simp add: ipr_ok_cleanup)
  next
    case (yes r xs)
    have "ipr_ok ((cleanup_expired_sync now s)\<lparr>reservations := AList.update (net, ip r) r (reservations (cleanup_expired_sync now s))\<rparr>)"
      using ipr_ok_cleanup [OF s] yes(4,6) by (intro ipr_ok_insert) auto
    then have "ipr_ok s'" by (rule ipr_ok_cong [THEN iffD1, rotated 2]) (simp_all add: yes(10,12))
    then show ?thesis by (simp only: e snd_conv)
  qed
qed

lemma ipr_ok_auto: "ipr_ok s \<Longrightarrow> ipr_ok (snd (auto_allocate_ip ov now rand runner net cid s))"
proof -
  assume s: "ipr_ok s"
  obtain res s' where e: "auto_allocate_ip ov now rand runner net cid s = (res, s')" by fastforce
  then show ?thesis
    by (cases rule: auto_allocate_cases) (use e s in \<open>auto intro!: ipr_ok_insert_used intro: ipr_ok_cleanup\<close>)
qed

lemma ipr_ok_use: "ipr_ok s \<Longrightarrow> ipr_ok (snd (use_reservation lib now tok cid er en s))"
proof -
  assume s: "ipr_ok s"
  obtain res s' where e: "use_reservation lib now tok cid er en s = (res, s')" by fastforce
  from s e show ?thesis
    by (cases rule: use_reservation_cases) (use e s in \<open>auto intro!: ipr_ok_insert_used\<close>)
qed

section \<open>The manager as a machine\<close>

text \<open>Every event carries its clock reading, random number and the overlay state it sees.\<close>

datatype ipr_event =
    Reserve overlay_ref int nat string "string option" "int option" string
  | AutoAllocate overlay_ref int nat string string string \<comment> \<open>runner, network, container\<close>
  | UseToken int string string "string option" "string option"
  | ReleaseContainer string
  | ReleaseToken string
  | MarkUsed string string string \<comment> \<open>runner, ip, network\<close>
  | MarkFree string string string
  | CleanupExpired int

fun ipr_step :: "token_lib \<Rightarrow> ipr_event \<Rightarrow> ipr_state \<Rightarrow> ipr_state" where
  "ipr_step lib (Reserve ov now rand runner wanted ttl net) s = snd (reserve_ip lib ov now rand runner wanted ttl net s)"
| "ipr_step lib (AutoAllocate ov now rand runner net cid) s = snd (auto_allocate_ip ov now rand runner net cid s)"
| "ipr_step lib (UseToken now tok cid er en) s = snd (use_reservation lib now tok cid er en s)"
| "ipr_step lib (ReleaseContainer cid) s = snd (release_by_container cid s)"
| "ipr_step lib (ReleaseToken tok) s = snd (release_by_token tok s)"
| "ipr_step lib (MarkUsed runner x net) s = mark_ip_used runner x net s"
| "ipr_step lib (MarkFree runner x net) s = mark_ip_free runner x net s"
| "ipr_step lib (CleanupExpired now) s = snd (cleanup_expired now s)"

definition ipr_init :: "ipr_state \<Rightarrow> bool" where
  "ipr_init s \<longleftrightarrow> s = new_ipr (secret_key s) (default_ttl s)"

interpretation ipm: machine ipr_init "ipr_step lib" ipr_ok for lib
proof
  show "ipr_init s \<Longrightarrow> ipr_ok s" for s using ipr_ok_new by (metis ipr_init_def)
  show "ipr_ok s \<Longrightarrow> ipr_ok (ipr_step lib e s)" for s e
    by (cases e)
      (auto simp: ipr_ok_reserve ipr_ok_auto ipr_ok_use ipr_ok_release ipr_ok_release_token mark_ip_used_def
        ipr_ok_add_used ipr_ok_mark_free cleanup_expired_def ipr_ok_cleanup)
qed

section \<open>An address in use stays in use\<close>

text \<open>
  The address \<open>x\<close> is in use on a runner, and a reservation the runner has for it belongs to
  container \<open>c\<close>: only the release of \<open>c\<close> or an explicit \<open>mark_ip_free\<close> ends this.
\<close>

definition in_use :: "string \<Rightarrow> string \<Rightarrow> string \<Rightarrow> string \<Rightarrow> ipr_state \<Rightarrow> bool" where
  "in_use runner net x c s \<longleftrightarrow>
     x \<in> set (used_of s runner net) \<and>
     (\<forall>r. map_of (reservations s) (net, x) = Some r \<and> res_runner r = runner \<longrightarrow> container_id r = Some c)"

fun frees :: "string \<Rightarrow> string \<Rightarrow> string \<Rightarrow> string \<Rightarrow> ipr_event \<Rightarrow> bool" where
  "frees runner net x c (ReleaseContainer cid) \<longleftrightarrow> cid = c"
| "frees runner net x c (MarkFree r' x' n') \<longleftrightarrow> r' = runner \<and> x' = x \<and> n' = net"
| "frees runner net x c e \<longleftrightarrow> False"

lemma available_not_used:
  "get_available_ips_for_runner ov s now runner net = Inr xs \<Longrightarrow> x \<in> set xs \<Longrightarrow>
   x \<notin> set (used_of s runner net) \<and> x \<notin> set (reserved_of s now runner net)"
  by (auto simp: get_available_ips_for_runner_def Let_def bind_res_Inr_iff split: option.splits)

lemma in_use_cong:
  "reservations s = reservations t \<Longrightarrow> used_ips s = used_ips t \<Longrightarrow> in_use runner net x c s = in_use runner net x c t"
  by (simp add: in_use_def used_of_def)

lemma in_use_insert:
  "in_use runner net x c s \<Longrightarrow> \<not> (res_runner r = runner \<and> k = (net, x)) \<Longrightarrow>
   in_use runner net x c (s\<lparr>reservations := AList.update k r (reservations s)\<rparr>)"
  by (auto simp: in_use_def get_update)

lemma in_use_add_used: "in_use runner net x c s \<Longrightarrow> in_use runner net x c (add_used rn n y s)"
  by (auto simp: in_use_def)

lemma in_use_cleanup: "ipr_ok s \<Longrightarrow> in_use runner net x c s \<Longrightarrow> in_use runner net x c (cleanup_expired_sync now s)"
  by (auto simp: in_use_def cleanup_get ipr_ok_dict split: option.splits if_splits)

lemma in_use_drop: "in_use runner net x c s \<Longrightarrow> in_use runner net x c (drop_reservation k r s)"
  by (auto simp: in_use_def get_delete)

lemma in_use_release_loop:
  assumes "in_use runner net x c s" "cid \<noteq> c"
    "\<forall>(k, r) \<in> set xs. k = (res_network r, ip r) \<and> (container_id r = Some cid \<longrightarrow> \<not> (res_runner r = runner \<and> k = (net, x)))"
  shows "in_use runner net x c (snd (release_loop cid xs s))"
  using assms
proof (induction xs arbitrary: s)
  case (Cons p xs)
  obtain k r where p: "p = (k, r)" by (cases p)
  have "in_use runner net x c (drop_reservation k r (discard_used (res_runner r) (res_network r) (ip r) s))"
    if "container_id r = Some cid"
    using Cons.prems p that by (intro in_use_drop) (auto simp: in_use_def)
  with Cons p show ?case by (auto simp del: release_loop.simps)
qed simp

lemma in_use_step:
  assumes s: "ipr_ok s" and u: "in_use runner net x c s" and e: "\<not> frees runner net x c e"
  shows "in_use runner net x c (ipr_step lib e s)"
proof (cases e)
  case (Reserve ov now rand rn wanted ttl n)
  obtain res s' where r: "reserve_ip lib ov now rand rn wanted ttl n s = (res, s')" by fastforce
  note c = in_use_cleanup [OF s u, of now]
  from r show ?thesis
  proof (cases rule: reserve_ip_cases)
    case no
    with Reserve r c show ?thesis by simp
  next
    case (yes r0 xs)
    have "\<not> (rn = runner \<and> (n, ip r0) = (net, x))"
      using available_not_used [OF yes(2,3)] c by (auto simp: in_use_def)
    then have "in_use runner net x c ((cleanup_expired_sync now s)\<lparr>reservations :=
        AList.update (n, ip r0) r0 (reservations (cleanup_expired_sync now s))\<rparr>)"
      using c yes(5) by (intro in_use_insert) auto
    then have "in_use runner net x c s'"
      by (rule in_use_cong [THEN iffD1, rotated 2]) (simp_all add: yes(10,12))
    then show ?thesis by (simp only: Reserve r ipr_step.simps snd_conv)
  qed
next
  case (AutoAllocate ov now rand rn n cid)
  obtain res s' where r: "auto_allocate_ip ov now rand rn n cid s = (res, s')" by fastforce
  note c = in_use_cleanup [OF s u, of now]
  from r show ?thesis
  proof (cases rule: auto_allocate_cases)
    case no
    with AutoAllocate r c u show ?thesis by auto
  next
    case (yes y r0 xs)
    have "\<not> (rn = runner \<and> (n, y) = (net, x))"
      using available_not_used [OF yes(3,4)] c by (auto simp: in_use_def)
    then have "in_use runner net x c s'"
      unfolding yes(9) using c yes(6) by (intro in_use_add_used in_use_insert) auto
    then show ?thesis by (simp only: AutoAllocate r ipr_step.simps snd_conv)
  qed
next
  case (UseToken now tok cid er en)
  obtain res s' where r: "use_reservation lib now tok cid er en s = (res, s')" by fastforce
  from s r show ?thesis
  proof (cases rule: use_reservation_cases)
    case no
    with UseToken r u show ?thesis by simp
  next
    case (yes r0)
    have "\<not> (res_runner r0 = runner \<and> (res_network r0, ip r0) = (net, x))"
      using u yes(3,4) by (auto simp: in_use_def is_used_def)
    then have "in_use runner net x c s'"
      unfolding yes(5) using u by (intro in_use_add_used in_use_insert) auto
    then show ?thesis by (simp only: UseToken r ipr_step.simps snd_conv)
  qed
next
  case (ReleaseContainer cid)
  have "k = (res_network r, ip r) \<and> (container_id r = Some cid \<longrightarrow> \<not> (res_runner r = runner \<and> k = (net, x)))"
    if "(k, r) \<in> set (reservations s)" for k r
  proof -
    have "map_of (reservations s) k = Some r" using that ipr_ok_dict [OF s] by (simp add: item_get)
    then show ?thesis
      using items_keyed [OF s that] u e ReleaseContainer by (auto simp: in_use_def)
  qed
  with u e ReleaseContainer show ?thesis
    by (auto simp: release_by_container_def intro!: in_use_release_loop)
next
  case (ReleaseToken tok)
  with u show ?thesis
    by (auto simp: release_by_token_def in_use_def get_delete split: option.split)
next
  case (MarkFree r' x' n')
  with u e show ?thesis
    by (auto simp: mark_ip_free_def in_use_def get_delete Let_def split: option.split)
next
  case (CleanupExpired now)
  with s u show ?thesis by (simp add: cleanup_expired_def in_use_cleanup)
qed (use u in \<open>auto simp: mark_ip_used_def in_use_def\<close>)

interpretation ipu: guarded_machine ipr_init "ipr_step lib" ipr_ok "\<lambda>e. \<not> frees runner net x c e" "in_use runner net x c"
  for lib runner net x c
  by unfold_locales (rule in_use_step)

lemma release_loop_fst:
  "fst (release_loop cid ((k, r) # rest) s) =
     (if container_id r = Some cid
      then ip r # fst (release_loop cid rest (drop_reservation k r (discard_used (res_runner r) (res_network r) (ip r) s)))
      else fst (release_loop cid rest s))"
  by (simp split: prod.split)

lemma release_loop_ips:
  "fst (release_loop cid xs s) = map (\<lambda>(k, r). ip r) (filter (\<lambda>(k, r). container_id r = Some cid) xs)"
proof (induction xs arbitrary: s)
  case (Cons p xs)
  obtain k r where p: "p = (k, r)" by (cases p)
  show ?case unfolding p release_loop_fst Cons by simp
qed simp

lemma release_loop_used_mono:
  "x \<notin> set (used_of s rn n) \<Longrightarrow> x \<notin> set (used_of (snd (release_loop cid xs s)) rn n)"
proof (induction xs arbitrary: s)
  case (Cons p xs)
  obtain k r where p: "p = (k, r)" by (cases p)
  have "x \<notin> set (used_of (drop_reservation k r (discard_used (res_runner r) (res_network r) (ip r) s)) rn n)"
    using Cons.prems by auto
  with Cons p show ?case by (simp del: release_loop.simps used_of_fields)
qed simp

lemma release_loop_frees:
  "(k, r) \<in> set xs \<Longrightarrow> container_id r = Some cid \<Longrightarrow>
   ip r \<notin> set (used_of (snd (release_loop cid xs s)) (res_runner r) (res_network r))"
proof (induction xs arbitrary: s)
  case (Cons p xs)
  obtain k' r' where p: "p = (k', r')" by (cases p)
  show ?case
  proof (cases "p = (k, r)")
    case True
    with Cons.prems(2) show ?thesis
      by (simp del: release_loop.simps) (rule release_loop_used_mono, simp)
  next
    case False
    with Cons.prems(1) have "(k, r) \<in> set xs" by auto
    from Cons.IH [OF this Cons.prems(2)] p show ?thesis by (simp del: release_loop.simps)
  qed
qed simp

end
