(* ===== verification/Overlay_Properties.thy ===== *)
theory Overlay_Properties
  imports Overlay_Safety
begin

text \<open>
  The properties of the overlay manager, with a concrete kernel (a list of links) on which
  their hypotheses hold.
\<close>

section \<open>A concrete kernel\<close>

definition demo_link :: "string \<Rightarrow> int \<Rightarrow> int \<Rightarrow> string \<Rightarrow> string \<Rightarrow> link" where
  "demo_link name idx vni local remote =
     \<lparr>ifname = Some name, link_index = idx,
      link_info = Some \<lparr>li_kind = Some ''vxlan'',
        li_data = Some \<lparr>vd_id = Some vni, vd_group = Some remote, vd_remote = None, vd_local = Some local\<rparr>\<rparr>\<rparr>"

fun demo_exec :: "netcmd \<Rightarrow> (link list, unit) st" where
  "demo_exec (LinkDel i) k = (Inr (), filter (\<lambda>l. link_index l \<noteq> i) k)"
| "demo_exec (LinkAddVxlan name vni local remote p) k = (Inr (), k @ [demo_link name (int (length k)) vni local remote])"
| "demo_exec _ k = (Inr (), k)"

definition demo_nl :: "link list netlink" where
  "demo_nl = \<lparr>nl_links = (\<lambda>k. k), nl_addrs = (\<lambda>_ _. []), nl_exec = demo_exec, fw_which = False,
              fw_state = (\<lambda>_. None), fw_add = (\<lambda>_ k. k)\<rparr>"

definition demo_manager :: "int \<Rightarrow> string \<Rightarrow> overlay_manager" where
  "demo_manager nodes pfx =
     \<lparr>network_name = ''default'', masquerade = True,
      subnet_config = \<lparr>base_network = \<lparr>network_address = 176160768, prefixlen = 12\<rparr>, total_prefix = 12,
                       node_bits = nodes, subnet_bits = 20 - nodes\<rparr>,
      base_vxlan_id = 100, vxlan_port = 4789, mtu = 1450, vxlan_prefix = pfx,
      host_ip = ''10.128.0.1'', host_prefix = 12, local_ip = ''192.168.0.1'',
      allocations = [], id_to_runner = []\<rparr>"

definition demo_start :: "overlay_manager \<times> link list" where
  "demo_start = snd (recover_state_from_interfaces_sync demo_nl (\<lambda>_. 0)
     (demo_manager 6 ''vx0_'', [demo_link ''vx0_7'' 5 107 ''192.168.0.1'' ''192.168.0.7'']))"

definition demo_run :: "overlay_manager \<times> link list" where
  "demo_run = fold (overlay_step demo_nl) [Allocate 5 ''alpha'' ''192.168.0.3'', Allocate 6 ''beta'' ''192.168.0.7'']
     demo_start"

lemma demo_start_init: "overlay_init demo_nl demo_start"
  unfolding demo_start_def
  by (rule overlay_init.intros) (simp add: fresh_manager_def demo_manager_def subnet_ok_def is_flat_def base_int_def)

text \<open>The allocations of the two runners after the run, evaluated once.\<close>

lemma demo_run_facts:
  "map_option runner_id (map_of (allocations (fst demo_run)) ''alpha'') = Some 1"
  "map_option runner_id (map_of (allocations (fst demo_run)) ''beta'') = Some 7"
  by code_simp+

section \<open>Separation\<close>

definition block :: "overlay_subnet_config \<Rightarrow> int \<Rightarrow> int set" where
  "block c i = {subnet_start c i ..< subnet_start c i + subnet_size c}"

lemma blocks_disjoint: "subnet_ok c \<Longrightarrow> \<not> is_flat c \<Longrightarrow> i \<noteq> j \<Longrightarrow> block c i \<inter> block c j = {}"
  using subnet_start_disjoint [of c i j] subnet_start_disjoint [of c j i]
  by (cases "i < j") (auto simp: block_def)

text \<open>C13
  After a host restart (recovery from whatever interfaces the kernel has) and any sequence of
  registrations, heartbeats, releases and cleanups, two different runners never hold the same
  runner id; each holds the subnet string the address plan gives its id.  In a hierarchical
  plan the two address blocks are disjoint; in a flat one, where a single network is shared, the
  two runners hold the same subnet.
\<close>

theorem overlay_runners_separate:
  assumes "overlay_init nl s" "fold (overlay_step nl) es s = (m, k)"
    "map_of (allocations m) n = Some a" "map_of (allocations m) n' = Some b" "n \<noteq> n'"
  shows "runner_id a \<noteq> runner_id b
    \<and> subnet a = ipv4_str (subnet_start (subnet_config m) (runner_id a)) @ ''/'' @ str_of_int (runner_prefix (subnet_config m))
    \<and> (if is_flat (subnet_config m) then subnet a = subnet b
       else block (subnet_config m) (runner_id a) \<inter> block (subnet_config m) (runner_id b) = {})"
proof -
  have m: "manager_ok m" using om.run_inv [OF assms(1), of es] assms(2) by simp
  then have c: "subnet_ok (subnet_config m)" by (simp add: manager_ok_def)
  have ne: "runner_id a \<noteq> runner_id b" using manager_ok_inj [OF m assms(3,4)] assms(5) by blast
  have plan: "subnet x = ipv4_str (subnet_start (subnet_config m) (runner_id x)) @ ''/'' @ str_of_int (runner_prefix (subnet_config m))"
    if "map_of (allocations m) y = Some x" for x y
    using manager_ok_get [OF m that] get_runner_subnet_ok [OF c, of "runner_id x"] by (simp add: alloc_ok_def)
  have "subnet a = subnet b" if "is_flat (subnet_config m)"
    using that plan [OF assms(3)] plan [OF assms(4)] by (simp add: subnet_start_def)
  with ne plan [OF assms(3)] blocks_disjoint [OF c _ ne] show ?thesis by auto
qed

lemma overlay_runners_separate_witness:
  "\<exists>m k a b. demo_run = (m, k) \<and> map_of (allocations m) ''alpha'' = Some a
     \<and> map_of (allocations m) ''beta'' = Some b \<and> runner_id a \<noteq> runner_id b"
proof -
  obtain m k where mk: "demo_run = (m, k)" by (cases demo_run)
  then obtain a b where "map_of (allocations m) ''alpha'' = Some a" "map_of (allocations m) ''beta'' = Some b"
    using demo_run_facts unfolding mk by auto
  with overlay_runners_separate [OF demo_start_init mk [unfolded demo_run_def] this] mk show ?thesis by auto
qed

section \<open>Registration\<close>

text \<open>A runner that registers again keeps its runner id, subnet, gateway and device, whatever its new
  physical address; it becomes active, and no other runner's allocation changes.  If the address
  is the old one the kernel is not touched.
\<close>

theorem overlay_reregister_same:
  assumes "map_of (allocations m) n = Some a"
    "allocate_for_runner nl now n physical (m, k) = (Inr b, (m', k'))"
  shows "b = a\<lparr>last_used := now, is_active := True, physical_ip := physical\<rparr>
    \<and> map_of (allocations m') = (map_of (allocations m))(n \<mapsto> b)
    \<and> id_to_runner m' = id_to_runner m
    \<and> (physical_ip a = physical \<longrightarrow> k' = k)"
  using assms
  by (cases "physical_ip a = physical")
    (auto simp: allocate_for_runner_def Let_def set_alloc_def update_conv fun_upd_idem split: prod.splits sum.splits)

lemma overlay_reregister_same_witness:
  "\<exists>a b m'. map_of (allocations (fst demo_run)) ''alpha'' = Some a
     \<and> allocate_for_runner demo_nl 9 ''alpha'' ''10.0.0.9'' demo_run = (Inr b, m')
     \<and> runner_id b = runner_id a \<and> physical_ip b = ''10.0.0.9''"
proof -
  obtain m k where mk: "demo_run = (m, k)" by (cases demo_run)
  obtain a where a: "map_of (allocations m) ''alpha'' = Some a"
    using demo_run_facts unfolding mk by auto
  have "case fst (allocate_for_runner demo_nl 9 ''alpha'' ''10.0.0.9'' demo_run) of Inl e \<Rightarrow> False | Inr b \<Rightarrow> True"
    by code_simp
  then obtain b m' k' where b: "allocate_for_runner demo_nl 9 ''alpha'' ''10.0.0.9'' (m, k) = (Inr b, (m', k'))"
    unfolding mk by (cases "allocate_for_runner demo_nl 9 ''alpha'' ''10.0.0.9'' (m, k)") (auto split: sum.splits)
  from overlay_reregister_same [OF a b] a b show ?thesis unfolding mk by auto
qed

text \<open>A new runner gets the least free runner id; when none is free, the id of an inactive runner that
  was used least recently, and only that runner loses its allocation.
\<close>

theorem overlay_new_runner_id:
  assumes "manager_ok m" "map_of (allocations m) n = None" "find_placeholder m physical = None"
    "allocate_for_runner nl now n physical (m, k) = (Inr b, (m', k'))"
  shows "(map_of (id_to_runner m) (runner_id b) = None \<and> runner_id_ok (subnet_config m) (runner_id b)
          \<and> (\<forall>i. runner_id_ok (subnet_config m) i \<and> map_of (id_to_runner m) i = None \<longrightarrow> runner_id b \<le> i)
          \<and> map_of (allocations m') = (map_of (allocations m))(n \<mapsto> b))
       \<or> ((\<forall>i. runner_id_ok (subnet_config m) i \<longrightarrow> map_of (id_to_runner m) i \<noteq> None)
          \<and> (\<exists>v a. map_of (allocations m) v = Some a \<and> \<not> is_active a \<and> runner_id b = runner_id a
               \<and> (\<forall>x y. map_of (allocations m) x = Some y \<and> \<not> is_active y \<longrightarrow> last_used a \<le> last_used y)
               \<and> map_of (allocations m') = (map_of (allocations m))(v := None, n \<mapsto> b)))"
proof (cases "available_ids m")
  case (Cons rid rest)
  have b: "runner_id b = rid" "m' = add_allocation n b m"
    using allocate_new_free [OF Cons assms(4) [unfolded allocate_fresh [OF assms(2,3)]]] by auto
  have "rid \<le> i" if "i \<in> set (available_ids m)" for i
    using that available_sorted [of m] Cons by auto
  moreover have "rid \<in> set (available_ids m)" using Cons by simp
  ultimately show ?thesis using b by (intro disjI1) (auto simp: available_ids_iff update_conv)
next
  case Nil
  have "allocate_new nl now n physical (m, k) = (Inr b, (m', k'))"
    using assms(4) by (simp only: allocate_fresh [OF assms(2,3)])
  then obtain v a where v: "map_of (allocations m) v = Some a" "find_lru_inactive m = Some v" "\<not> is_active a"
      "runner_id b = runner_id a" "allocations m' = AList.update n b (AList.delete v (allocations m))"
    by (rule allocate_new_evict [OF assms(1,2) Nil])
  have lru: "last_used a \<le> last_used y" if "map_of (allocations m) x = Some y" "\<not> is_active y" for x y
  proof -
    obtain a' where a': "(v, a') \<in> set (allocations m)"
        "\<forall>(n', y) \<in> set (allocations m). \<not> is_active y \<longrightarrow> last_used a' \<le> last_used y"
      using find_lru_inactive_some [OF v(2)] by blast
    moreover have "a' = a" using a'(1) v(1) manager_ok_dict [OF assms(1)] by (simp add: item_get)
    ultimately show ?thesis using that get_item [OF that(1)] by blast
  qed
  have "map_of (allocations m') = (map_of (allocations m))(v := None, n \<mapsto> b)"
    using v(5) by (simp add: update_conv' delete_conv')
  moreover have "\<forall>i. runner_id_ok (subnet_config m) i \<longrightarrow> map_of (id_to_runner m) i \<noteq> None"
    using Nil available_ids_iff [of _ m] by auto
  ultimately show ?thesis using v lru by (intro disjI2) blast
qed

lemma demo_run_ok: "manager_ok (fst demo_run)"
  unfolding demo_run_def by (rule om.run_inv [OF demo_start_init])

text \<open>Outcomes on the concrete kernel, as a flag, to be evaluated by \<open>code_simp\<close>.\<close>

lemma outcome_InrE:
  assumes "case fst p of Inl e \<Rightarrow> False | Inr b \<Rightarrow> P b"
  obtains b m k where "p = (Inr b, (m, k))" "P b"
  using assms by (cases p) (auto split: sum.splits)

lemma overlay_new_runner_id_witness:
  "\<exists>b s'. allocate_for_runner demo_nl 9 ''gamma'' ''10.0.0.9'' demo_run = (Inr b, s') \<and> runner_id b = 2
     \<and> (\<forall>i. runner_id_ok (subnet_config (fst demo_run)) i \<and> map_of (id_to_runner (fst demo_run)) i = None \<longrightarrow> 2 \<le> i)"
proof -
  obtain m k where mk: "demo_run = (m, k)" by (cases demo_run)
  have "case fst (allocate_for_runner demo_nl 9 ''gamma'' ''10.0.0.9'' demo_run) of Inl e \<Rightarrow> False | Inr b \<Rightarrow> runner_id b = 2"
    by code_simp
  then obtain b m' k' where b: "allocate_for_runner demo_nl 9 ''gamma'' ''10.0.0.9'' (m, k) = (Inr b, (m', k'))" "runner_id b = 2"
    unfolding mk by (rule outcome_InrE)
  have "map_of (allocations (fst demo_run)) ''gamma'' = None" "find_placeholder (fst demo_run) ''10.0.0.9'' = None"
    and taken: "map_of (id_to_runner (fst demo_run)) 2 = None" "max_runners (subnet_config (fst demo_run)) = 63"
    by code_simp+
  then have f: "map_of (allocations m) ''gamma'' = None" "find_placeholder m ''10.0.0.9'' = None"
    "map_of (id_to_runner m) 2 = None" "runner_id_ok (subnet_config m) 2"
    unfolding mk by (simp_all add: runner_id_ok_def)
  have m: "manager_ok m" using demo_run_ok unfolding mk by simp
  show ?thesis
    using overlay_new_runner_id [OF m f(1,2) b(1)] f(3,4) b unfolding mk by auto
qed

text \<open>With every runner id taken by an active runner, a new runner is refused with
  \<^verbatim>\<open>RuntimeError\<close> and nothing changes: neither the allocations nor the kernel.
\<close>

theorem overlay_exhausted:
  assumes "map_of (allocations m) n = None" "find_placeholder m physical = None"
    "\<forall>i. runner_id_ok (subnet_config m) i \<longrightarrow> map_of (id_to_runner m) i \<noteq> None"
    "\<forall>a \<in> set (dict_values (allocations m)). is_active a"
  shows "allocate_for_runner nl now n physical (m, k) = (Inl (RuntimeError ''No available runner IDs''), (m, k))"
proof -
  have ni: "i \<notin> set (available_ids m)" for i using assms(3) by (auto simp: available_ids_iff)
  have "available_ids m = []"
  proof (cases "available_ids m")
    case (Cons i rest)
    with ni [of i] show ?thesis by simp
  qed
  moreover have "find_lru_inactive m = None" using assms(4) find_lru_inactive_none by blast
  ultimately show ?thesis using allocate_fresh [OF assms(1,2)] by (simp add: allocate_new_def)
qed

definition demo_full :: "overlay_manager \<times> link list" where
  "demo_full = overlay_step demo_nl (Allocate 5 ''alpha'' ''192.168.0.3'') (demo_manager 1 ''vx0_'', [])"

lemma overlay_exhausted_witness:
  "\<exists>m k. demo_full = (m, k) \<and> allocate_for_runner demo_nl 9 ''beta'' ''10.0.0.9'' (m, k)
      = (Inl (RuntimeError ''No available runner IDs''), (m, k))"
proof -
  obtain m k where mk: "demo_full = (m, k)" by (cases demo_full)
  have f: "map_of (allocations (fst demo_full)) ''beta'' = None" "find_placeholder (fst demo_full) ''10.0.0.9'' = None"
    "max_runners (subnet_config (fst demo_full)) = 1" "map_of (id_to_runner (fst demo_full)) 1 = Some ''alpha''"
    "list_all is_active (dict_values (allocations (fst demo_full)))"
    by code_simp+
  have ids: "runner_id_ok (subnet_config m) i \<Longrightarrow> i = 1" for i
    using f(3) unfolding mk by (simp add: runner_id_ok_def)
  have "\<forall>i. runner_id_ok (subnet_config m) i \<longrightarrow> map_of (id_to_runner m) i \<noteq> None"
    using ids f(4) unfolding mk by fastforce
  from overlay_exhausted [OF _ _ this] f show ?thesis unfolding mk by (auto simp: list_all_iff)
qed

text \<open>C29
  Registering one runner never takes an active allocation from another: it stays as it is, unless
  it carries a \<^verbatim>\<open>runner_\<close> name and the address of the registering runner.
\<close>

theorem overlay_active_kept:
  assumes "manager_ok m" "allocate_for_runner nl now n physical (m, k) = (r, (m', k'))"
    "map_of (allocations m) x = Some a" "is_active a" "x \<noteq> n"
    "\<not> (startswith x ''runner_'' \<and> physical_ip a = physical)"
  shows "map_of (allocations m') x = Some a"
proof (cases "map_of (allocations m) n")
  case (Some b)
  then show ?thesis
    using assms(2,3,5) by (auto simp: allocate_for_runner_def Let_def set_alloc_def get_update split: if_splits prod.splits sum.splits)
next
  case None
  show ?thesis
  proof (cases "find_placeholder m physical")
    case (Some p)
    obtain old b where p: "p = (old, b)" by (cases p)
    have "x \<noteq> old" using find_placeholder_some [of m physical old b] Some p assms(3,6) manager_ok_dict [OF assms(1)] by auto
    then show ?thesis
      using None Some p assms(2,3,5) by (auto simp: allocate_for_runner_def Let_def get_update get_delete)
  next
    case None': None
    have new: "allocate_new nl now n physical (m, k) = (r, (m', k'))"
      using assms(2) by (simp only: allocate_fresh [OF None None'])
    then show ?thesis
      using allocate_new_keeps [OF assms(1) new assms(3,4,5)] by blast
  qed
qed

lemma overlay_active_kept_witness:
  "\<exists>a m' k'. map_of (allocations (fst demo_run)) ''alpha'' = Some a
     \<and> snd (allocate_for_runner demo_nl 9 ''gamma'' ''192.168.0.3'' demo_run) = (m', k')
     \<and> map_of (allocations m') ''alpha'' = Some a"
proof -
  obtain m k where mk: "demo_run = (m, k)" by (cases demo_run)
  have "(case map_of (allocations (fst demo_run)) ''alpha'' of None \<Rightarrow> False | Some a \<Rightarrow> is_active a)" by code_simp
  then obtain a where a: "map_of (allocations m) ''alpha'' = Some a" "is_active a"
    unfolding mk by (auto split: option.splits)
  obtain r m' k' where r: "allocate_for_runner demo_nl 9 ''gamma'' ''192.168.0.3'' (m, k) = (r, (m', k'))"
    by (metis prod.exhaust)
  have "manager_ok m" using demo_run_ok unfolding mk by simp
  from overlay_active_kept [OF this r a] r a show ?thesis unfolding mk by auto
qed

text \<open>The remap of recovered allocations also takes a live one: a runner whose own name starts with
  \<^verbatim>\<open>runner_\<close>, registered and active, loses its allocation when another runner name registers
  from the same address.  The comment in the code speaks of recovered placeholders only.
\<close>

theorem overlay_remap_takes_active:
  assumes "map_of (allocations m) n = None" "allocations m = (x, a) # rest" "x \<noteq> n"
    "startswith x ''runner_''" "dict_ok (allocations m)"
  shows "\<exists>b m'. allocate_for_runner nl now n (physical_ip a) (m, k) = (Inr b, (m', k))
    \<and> runner_id b = runner_id a \<and> map_of (allocations m') x = None \<and> map_of (allocations m') n = Some b"
  using assms
  by (auto simp: allocate_for_runner_def find_placeholder_def Let_def get_update get_delete)

lemma overlay_remap_takes_active_witness:
  "\<exists>b. fst (allocate_for_runner demo_nl 6 ''spare'' ''192.168.0.3''
       (overlay_step demo_nl (Allocate 5 ''runner_gpu'' ''192.168.0.3'') (demo_manager 6 ''vx0_'', []))) = Inr b \<and> runner_id b = 1"
proof -
  let ?s = "overlay_step demo_nl (Allocate 5 ''runner_gpu'' ''192.168.0.3'') (demo_manager 6 ''vx0_'', [])"
  obtain m k where mk: "?s = (m, k)" by (cases ?s)
  have "dict_keys (allocations (fst ?s)) = [''runner_gpu'']"
    "list_all (\<lambda>a. runner_id a = 1 \<and> is_active a \<and> physical_ip a = ''192.168.0.3'') (dict_values (allocations (fst ?s)))"
    by code_simp+
  then obtain a where a: "allocations m = [(''runner_gpu'', a)]" "runner_id a = 1" "physical_ip a = ''192.168.0.3''"
    unfolding mk by auto
  have sw: "startswith ''runner_gpu'' ''runner_''" by code_simp
  have "\<exists>b m'. allocate_for_runner demo_nl 6 ''spare'' (physical_ip a) (m, k) = (Inr b, (m', k))
    \<and> runner_id b = runner_id a \<and> map_of (allocations m') ''runner_gpu'' = None \<and> map_of (allocations m') ''spare'' = Some b"
    by (rule overlay_remap_takes_active [where rest = "[]"]) (simp_all add: a sw dict_ok_def)
  then show ?thesis unfolding mk using a by auto
qed

section \<open>Restart\<close>

text \<open>C23
  The host restarts while a runner's tunnel is up.  Recovery finds the device, and when the first
  registration after it comes from the address the device points to, and no other valid device has the
  same id or points there, the runner gets the runner id encoded in the device name, the plan's subnet
  for that id and the same device, and the kernel is not touched, so its containers keep their
  addresses.  The runner must not be named like a placeholder (\<^verbatim>\<open>runner_...\<close>).
\<close>

theorem overlay_recovery_reclaims:
  assumes "fresh_manager m" "Valid dev rid (Some ip) \<in> set (map (scan_link m) (nl_links nl k))" "ip \<noteq> []"
    "\<forall>d i r. Valid d i r \<in> set (map (scan_link m) (nl_links nl k)) \<longrightarrow>
       (i = rid \<or> r = Some ip \<or> remote_or_unknown r = ip \<longrightarrow> d = dev \<and> i = rid \<and> r = Some ip)"
    "\<not> startswith n ''runner_''"
    "recover_state_from_interfaces_sync nl clock (m, k) = (res, (m', k'))"
  shows "\<exists>b m''. allocate_for_runner nl now n ip (m', k') = (Inr b, (m'', k'))
    \<and> runner_id b = rid \<and> vxlan_device b = dev \<and> get_runner_subnet (subnet_config m') rid = Inr (subnet b)"
proof -
  let ?xs = "map (scan_link m) (nl_links nl k)"
  have ok: "recovered_ok m'" and res: "res = Inr ()" using recover_state_ok [OF assms(1,6)] by auto
  then have mok: "manager_ok m'" by (simp add: recovered_ok_def)
  have rec: "recover_valid nl clock ?xs (m, delete_invalid nl ?xs k) = (Inr (), (m', k'))"
    using assms(6) res by (simp add: recover_state_from_interfaces_sync_def Let_def)
  have from_scan: "\<exists>r. Valid (vxlan_device a) (runner_id a) r \<in> set ?xs \<and> physical_ip a = remote_or_unknown r"
    if "map_of (allocations m') x = Some a" for x a
    using recover_valid_from [OF rec that] assms(1) by (simp add: fresh_manager_def)
  have "rid \<in> set (dict_keys (id_to_runner m'))"
    unfolding recover_valid_ids [OF rec] using assms(2) by blast
  then obtain x where "map_of (id_to_runner m') rid = Some x"
    by (metis map_of_eq_None_iff option.exhaust set_map)
  then obtain a where a: "map_of (allocations m') x = Some a" "runner_id a = rid"
    using manager_ok_ids [OF mok] by blast
  have dev: "vxlan_device a = dev \<and> physical_ip a = ip"
  proof -
    obtain r where r: "Valid (vxlan_device a) rid r \<in> set ?xs" "physical_ip a = remote_or_unknown r"
      using from_scan [OF a(1)] a(2) by blast
    then have "vxlan_device a = dev \<and> r = Some ip" using assms(4) by blast
    then show ?thesis using r(2) assms(3) by (simp add: remote_or_unknown_def)
  qed
  have uniq: "y = x \<and> b = a" if h: "map_of (allocations m') y = Some b" "physical_ip b = ip" for y b
  proof -
    obtain r where "Valid (vxlan_device b) (runner_id b) r \<in> set ?xs \<and> physical_ip b = remote_or_unknown r"
      using from_scan [OF h(1)] ..
    then have "Valid (vxlan_device b) (runner_id b) r \<in> set ?xs" "remote_or_unknown r = ip"
      using h(2) by simp_all
    then have "runner_id b = rid" using assms(4) by blast
    then have "y = x" using manager_ok_inj [OF mok h(1) a(1)] a(2) \<open>runner_id b = rid\<close> by simp
    then show ?thesis using h(1) a(1) by simp
  qed
  have "x = placeholder_name rid" using ok a by (auto simp: recovered_ok_def)
  then have sw: "startswith x ''runner_''" by (simp add: placeholder_name_def)
  have none: "map_of (allocations m') n = None"
  proof (rule ccontr)
    assume "map_of (allocations m') n \<noteq> None"
    then obtain b where "map_of (allocations m') n = Some b" by blast
    then have "n = placeholder_name (runner_id b)" using ok unfolding recovered_ok_def by blast
    then show False using assms(5) by (simp add: placeholder_name_def)
  qed
  have "find_placeholder m' ip \<noteq> None"
    using get_item [OF a(1)] sw dev by (auto simp: find_placeholder_def find_None_iff)
  then obtain y b where yb: "find_placeholder m' ip = Some (y, b)" by auto
  then have "y = x \<and> b = a" using find_placeholder_some [OF yb manager_ok_dict [OF mok]] uniq by blast
  moreover have "get_runner_subnet (subnet_config m') rid = Inr (subnet a)"
    using manager_ok_get [OF mok a(1)] a(2) by (simp add: alloc_ok_def)
  ultimately show ?thesis
    using none yb a(2) dev by (simp add: allocate_for_runner_def Let_def)
qed

lemma overlay_recovery_reclaims_witness:
  "\<exists>b s'. allocate_for_runner demo_nl 9 ''beta'' ''192.168.0.7'' demo_start = (Inr b, s') \<and> runner_id b = 7"
proof -
  let ?m = "demo_manager 6 ''vx0_''" and ?k = "[demo_link ''vx0_7'' 5 107 ''192.168.0.1'' ''192.168.0.7'']"
  obtain m' k' where mk: "demo_start = (m', k')" by (cases demo_start)
  obtain res where rec: "recover_state_from_interfaces_sync demo_nl (\<lambda>_. 0) (?m, ?k) = (res, (m', k'))"
    using mk unfolding demo_start_def by (metis prod.collapse)
  have scan: "map (scan_link ?m) (nl_links demo_nl ?k) = [Valid ''vx0_7'' 7 (Some ''192.168.0.7'')]"
    by code_simp
  have fresh: "fresh_manager ?m"
    by (simp add: fresh_manager_def demo_manager_def subnet_ok_def is_flat_def base_int_def)
  have sw: "\<not> startswith ''beta'' ''runner_''" by code_simp
  from overlay_recovery_reclaims [OF fresh, where now = 9 and dev = "''vx0_7''" and rid = 7 and ip = "''192.168.0.7''", OF _ _ _ sw rec]
  have "\<exists>b m''. allocate_for_runner demo_nl 9 ''beta'' ''192.168.0.7'' (m', k') = (Inr b, (m'', k')) \<and> runner_id b = 7"
    unfolding scan by auto
  then show ?thesis unfolding mk by auto
qed

section \<open>Device names\<close>

text \<open>The device of a runner parses back to its runner id, and a manager with another network index
  never recognises it: two networks on one host do not touch each other's devices.
\<close>

theorem overlay_device_names:
  assumes "runner_id_ok (subnet_config m) i" "get_vxlan_device_name m i = Inr dev"
    "encode_runner_id x = Inr ex" "encode_runner_id y = Inr ey" "x \<noteq> y"
    "vxlan_prefix m = ''vx'' @ ex @ ''_''" "vxlan_prefix m' = ''vx'' @ ey @ ''_''"
  shows "parse_vxlan_device_name m dev = Some i \<and> parse_vxlan_device_name m' dev = None"
proof -
  have nn: "0 \<le> x" "0 \<le> y" "0 \<le> i"
    using assms(1,3,4) by (auto simp: encode_runner_id_def runner_id_ok_def split: if_splits)
  then have ex: "ex = digits_of 36 (nat x)" and ey: "ey = digits_of 36 (nat y)"
    and dev: "dev = ''vx'' @ ex @ ''_'' @ digits_of 36 (nat i)"
    using assms by (auto simp: encode_runner_id_digits device_name_ok)
  have "ex \<noteq> ey"
  proof
    assume "ex = ey"
    then have "decode_runner_id ex = decode_runner_id ey" by simp
    then show False using ex ey nn assms(5) by (simp add: decode_encode_digits)
  qed
  have no: "CHR ''_'' \<notin> set ex" "CHR ''_'' \<notin> set ey"
    unfolding ex ey by (metis digits_of_chars digit_char_not_special(1))+
  have "\<not> prefix (''vx'' @ ey @ ''_'') dev"
  proof
    assume "prefix (''vx'' @ ey @ ''_'') dev"
    then obtain z where "ex @ CHR ''_'' # digits_of 36 (nat i) = ey @ CHR ''_'' # z"
      unfolding dev by (auto simp: prefix_def)
    then have "takeWhile (\<lambda>c. c \<noteq> CHR ''_'') (ex @ CHR ''_'' # digits_of 36 (nat i))
        = takeWhile (\<lambda>c. c \<noteq> CHR ''_'') (ey @ CHR ''_'' # z)" by simp
    then have "ex = ey" by (simp only: takeWhile_all_but_sep [OF no(1)] takeWhile_all_but_sep [OF no(2)])
    with \<open>ex \<noteq> ey\<close> show False ..
  qed
  then have "parse_vxlan_device_name m' dev = None" by (simp add: parse_vxlan_device_name_def assms(7))
  with parse_own_device [OF assms(1,2)] show ?thesis by simp
qed

lemma overlay_device_names_witness:
  "parse_vxlan_device_name (demo_manager 6 ''vx1_'') ''vx0_z'' = None"
proof -
  have "get_vxlan_device_name (demo_manager 6 ''vx0_'') 35 = Inr ''vx0_z''" "encode_runner_id 0 = Inr ''0''"
    "encode_runner_id 1 = Inr ''1''" "runner_id_ok (subnet_config (demo_manager 6 ''vx0_'')) 35"
    "vxlan_prefix (demo_manager 6 ''vx0_'') = ''vx'' @ ''0'' @ ''_''"
    "vxlan_prefix (demo_manager 6 ''vx1_'') = ''vx'' @ ''1'' @ ''_''"
    by code_simp+
  from overlay_device_names [OF this(4,1,2,3) _ this(5,6)] show ?thesis by simp
qed

end
