(* ===== verification/IP_Properties.thy ===== *)
theory IP_Properties
  imports IP_Safety Overlay_Properties
begin

text \<open>
  The properties of the reservation manager, with a concrete overlay of one flat and one
  hierarchical network on which their hypotheses hold.
\<close>

section \<open>Helper facts\<close>

lemma parse_ipv4_range_back: "0 \<le> a \<Longrightarrow> a < 2 ^ 32 \<Longrightarrow> parse_ipv4 (ipv4_str a) = Inr a"
  by (rule parse_ipv4_str)

text \<open>The addresses a runner can still hand out, in the terms of the plan.\<close>

lemma available_ok:
  assumes "get_manager_for_network ov net = Some m" "map_of (allocations m) runner = Some a"
    "subnet_ok (subnet_config m)" "runner_id_ok (subnet_config m) (runner_id a)"
  shows "get_available_ips_for_runner ov s now runner net =
    Inr (filter (\<lambda>x. x \<notin> set (reserved_of s now runner net @ used_of s runner net)
                \<and> x \<noteq> ipv4_str (subnet_start (subnet_config m) (runner_id a) + host_offset (subnet_config m)))
      (map ipv4_str [subnet_start (subnet_config m) (runner_id a) + 2
                     ..subnet_start (subnet_config m) (runner_id a) + subnet_size (subnet_config m) - 3]))"
proof -
  let ?c = "subnet_config m" and ?i = "runner_id a"
  have r: "0 \<le> subnet_start ?c ?i + 2" "subnet_start ?c ?i + 2 < 2 ^ 32"
      "0 \<le> subnet_start ?c ?i + subnet_size ?c - 3" "subnet_start ?c ?i + subnet_size ?c - 3 < 2 ^ 32"
    using runner_block_range [OF assms(3,4)] subnet_size_ge [OF assms(3)] by auto
  show ?thesis
    unfolding get_available_ips_for_runner_def assms(1,2) option.simps
      get_container_ip_range_ok [OF assms(3,4)] bind_res_simps prod.case
      parse_ipv4_range_back [OF r(1,2)] parse_ipv4_range_back [OF r(3,4)]
      get_host_ip_on_runner_subnet_ok [OF assms(3,4)] Let_def by simp
qed

lemma available_allocated:
  assumes "get_available_ips_for_runner ov s now runner net = Inr xs" "x \<in> set xs"
  obtains m a where "get_manager_for_network ov net = Some m" "map_of (allocations m) runner = Some a"
  using assms by (auto simp: get_available_ips_for_runner_def split: option.splits)

lemma manager_ok_alloc:
  "manager_ok m \<Longrightarrow> map_of (allocations m) n = Some a \<Longrightarrow>
   subnet_ok (subnet_config m) \<and> runner_id_ok (subnet_config m) (runner_id a)"
  using manager_ok_get [of m n a] by (simp add: manager_ok_def alloc_ok_def)

lemma release_loop_get:
  "map_of (reservations (snd (release_loop cid xs s))) k =
     (if \<exists>r. (k, r) \<in> set xs \<and> container_id r = Some cid then None else map_of (reservations s) k)"
proof (induction xs arbitrary: s)
  case (Cons p xs)
  obtain k' r where "p = (k', r)" by (cases p)
  with Cons show ?case by (auto simp: get_delete simp del: release_loop.simps)
qed simp

lemma reserved_of_empty:
  assumes "dict_ok (reservations s)"
  shows "reserved_of s now runner net = [] \<longleftrightarrow>
    (\<forall>x r. map_of (reservations s) (net, x) = Some r \<longrightarrow> res_runner r = runner \<longrightarrow> is_expired now r)"
proof -
  have "reserved_of s now runner net = [] \<longleftrightarrow>
      (\<forall>k r. (k, r) \<in> set (reservations s) \<longrightarrow> fst k = net \<longrightarrow> res_runner r = runner \<longrightarrow> is_expired now r)"
    by (auto simp: reserved_of_def filter_empty_conv)
  then show ?thesis using assms by (auto simp: item_get)
qed

lemma outcome_SomeE:
  assumes "case fst p of Inr (Some r) \<Rightarrow> P r | _ \<Rightarrow> False"
  obtains r where "p = (Inr (Some r), snd p)" "P r"
  using assms by (cases p) (auto split: sum.splits option.splits)

section \<open>A concrete overlay\<close>

definition demo_alloc :: "string \<Rightarrow> int \<Rightarrow> overlay_allocation" where
  "demo_alloc n i = \<lparr>oa_runner_name = n, runner_id = i, physical_ip = ''192.168.0.3'', subnet = ''10.0.0.0/29'',
     gateway = ''10.0.0.1'', vxlan_device = ''vx0_'' @ str_of_int i, last_used = 0, is_active = True\<rparr>"

definition demo_flat :: overlay_manager where
  "demo_flat =
     \<lparr>network_name = ''flat'', masquerade = True,
      subnet_config = \<lparr>base_network = \<lparr>network_address = 167772160, prefixlen = 29\<rparr>, total_prefix = 29,
                       node_bits = 0, subnet_bits = 3\<rparr>,
      base_vxlan_id = 100, vxlan_port = 4789, mtu = 1450, vxlan_prefix = ''vx0_'',
      host_ip = ''10.0.0.6'', host_prefix = 29, local_ip = ''192.168.0.1'',
      allocations = [(''alpha'', demo_alloc ''alpha'' 1), (''beta'', demo_alloc ''beta'' 2)],
      id_to_runner = [(1, ''alpha''), (2, ''beta'')]\<rparr>"

definition demo_ov :: overlay_ref where
  "demo_ov = Multi [(''flat'', demo_flat)]"

text \<open>A token library with a plain injective encoding: each character after a marker, then a bar.\<close>

definition enc_str :: "string \<Rightarrow> string" where
  "enc_str s = concat (map (\<lambda>c. [CHR ''x'', c]) s) @ ''|''"

fun dec_str :: "string \<Rightarrow> (string \<times> string) option" where
  "dec_str (m # c # rest) =
     (if m = CHR ''x'' then (case dec_str rest of None \<Rightarrow> None | Some (s, t) \<Rightarrow> Some (c # s, t))
      else if m = CHR ''|'' then Some ([], c # rest) else None)"
| "dec_str [m] = (if m = CHR ''|'' then Some ([], []) else None)"
| "dec_str [] = None"

lemma dec_enc_str: "dec_str (enc_str s @ t) = Some (s, t)"
proof (induction s)
  case Nil
  show ?case by (cases t) (simp_all add: enc_str_def)
next
  case (Cons c s)
  then show ?case by (simp add: enc_str_def)
qed

definition demo_dumps :: "token_payload \<Rightarrow> string" where
  "demo_dumps p = enc_str (p_ip p) @ enc_str (p_runner p) @ enc_str (p_net p) @ str_of_int (p_exp p)"

definition demo_loads :: "string \<Rightarrow> token_payload option" where
  "demo_loads s =
     (case dec_str s of None \<Rightarrow> None | Some (a, s1) \<Rightarrow>
     (case dec_str s1 of None \<Rightarrow> None | Some (b, s2) \<Rightarrow>
     (case dec_str s2 of None \<Rightarrow> None | Some (d, s3) \<Rightarrow>
     (case int_of_str 10 s3 of None \<Rightarrow> None | Some e \<Rightarrow> Some \<lparr>p_ip = a, p_runner = b, p_exp = e, p_net = d\<rparr>))))"

definition demo_hash :: "string \<Rightarrow> string" where
  "demo_hash s = digits_of 16 (length s)"

definition demo_lib :: token_lib where
  "demo_lib = \<lparr>json_dumps = demo_dumps, json_loads = demo_loads, sha256_hex = demo_hash,
               b64_encode = (\<lambda>s. s), b64_decode = Some\<rparr>"

section \<open>Addresses\<close>

text \<open>Every address offered to a runner lies strictly inside the block the plan gives the runner's id,
  is neither its gateway nor the host's address on it, and is neither used on that runner nor
  under an unexpired reservation of it.
\<close>

theorem available_ip_in_plan:
  assumes "get_manager_for_network ov net = Some m" "manager_ok m" "map_of (allocations m) runner = Some a"
    "get_available_ips_for_runner ov s now runner net = Inr xs" "x \<in> set xs"
  shows "\<exists>v. x = ipv4_str v \<and> subnet_start (subnet_config m) (runner_id a) + 1 < v
      \<and> v < subnet_start (subnet_config m) (runner_id a) + subnet_size (subnet_config m) - 2
    \<and> Inr x \<noteq> get_runner_gateway (subnet_config m) (runner_id a)
    \<and> Inr x \<noteq> get_host_ip_on_runner_subnet (subnet_config m) (runner_id a)
    \<and> x \<notin> set (used_of s runner net) \<and> x \<notin> set (reserved_of s now runner net)"
proof -
  let ?c = "subnet_config m" and ?i = "runner_id a"
  have ok: "subnet_ok ?c" "runner_id_ok ?c ?i" using manager_ok_alloc [OF assms(2,3)] by auto
  have r: "0 \<le> subnet_start ?c ?i" "subnet_start ?c ?i + subnet_size ?c \<le> 2 ^ 32" "4 \<le> subnet_size ?c"
    using runner_block_range [OF ok] subnet_size_ge [OF ok(1)] by auto
  from assms(5) obtain v where v: "x = ipv4_str v" "subnet_start ?c ?i + 2 \<le> v"
      "v \<le> subnet_start ?c ?i + subnet_size ?c - 3" "x \<noteq> ipv4_str (subnet_start ?c ?i + host_offset ?c)"
    using assms(4) unfolding available_ok [OF assms(1,3) ok] by auto
  moreover have "x \<noteq> ipv4_str (subnet_start ?c ?i + 1)"
    using ipv4_str_inject [of v "subnet_start ?c ?i + 1"] v r by auto
  ultimately show ?thesis
    using available_not_used [OF assms(4,5)] get_runner_gateway_ok [OF ok] get_host_ip_on_runner_subnet_ok [OF ok]
    by (intro exI [of _ v]) auto
qed

text \<open>On a hierarchical network two runners are never offered a common address, whatever the state
  of the reservations.
\<close>

theorem available_ips_disjoint:
  assumes "get_manager_for_network ov net = Some m" "manager_ok m" "\<not> is_flat (subnet_config m)" "n \<noteq> n'"
    "get_available_ips_for_runner ov s now n net = Inr xs" "get_available_ips_for_runner ov s now n' net = Inr ys"
  shows "set xs \<inter> set ys = {}"
proof (rule ccontr)
  assume "set xs \<inter> set ys \<noteq> {}"
  then obtain x where x: "x \<in> set xs" "x \<in> set ys" by blast
  obtain a where a: "map_of (allocations m) n = Some a"
    using available_allocated [OF assms(5) x(1)] assms(1) by (metis option.inject)
  obtain b where b: "map_of (allocations m) n' = Some b"
    using available_allocated [OF assms(6) x(2)] assms(1) by (metis option.inject)
  let ?c = "subnet_config m"
  have ok: "subnet_ok ?c" "runner_id_ok ?c (runner_id a)" "runner_id_ok ?c (runner_id b)"
    using manager_ok_alloc [OF assms(2) a] manager_ok_alloc [OF assms(2) b] by auto
  obtain v where v: "x = ipv4_str v" "subnet_start ?c (runner_id a) + 2 \<le> v" "v < subnet_start ?c (runner_id a) + subnet_size ?c"
    using assms(5) x(1) unfolding available_ok [OF assms(1) a ok(1,2)] by auto
  obtain w where w: "x = ipv4_str w" "subnet_start ?c (runner_id b) + 2 \<le> w" "w < subnet_start ?c (runner_id b) + subnet_size ?c"
    using assms(6) x(2) unfolding available_ok [OF assms(1) b ok(1,3)] by auto
  have "v = w"
    using ipv4_str_inject [of v w] v w runner_block_range [OF ok(1,2)] runner_block_range [OF ok(1,3)] by auto
  moreover have "runner_id a \<noteq> runner_id b" using manager_ok_inj [OF assms(2) a b] assms(4) by blast
  then have "subnet_start ?c (runner_id a) + subnet_size ?c \<le> subnet_start ?c (runner_id b)
      \<or> subnet_start ?c (runner_id b) + subnet_size ?c \<le> subnet_start ?c (runner_id a)"
    using subnet_start_disjoint [OF ok(1) assms(3)] by (meson linorder_neqE)
  ultimately show False using v w by auto
qed

lemma demo_flat_alloc_ok:
  "alloc_ok demo_flat ''alpha'' (demo_alloc ''alpha'' 1)" "alloc_ok demo_flat ''beta'' (demo_alloc ''beta'' 2)"
proof -
  have "get_runner_subnet (subnet_config demo_flat) 1 = Inr ''10.0.0.0/29''"
    "get_runner_subnet (subnet_config demo_flat) 2 = Inr ''10.0.0.0/29''"
    "get_runner_gateway (subnet_config demo_flat) 1 = Inr ''10.0.0.1''"
    "get_runner_gateway (subnet_config demo_flat) 2 = Inr ''10.0.0.1''"
    "parse_vxlan_device_name demo_flat (''vx0_'' @ str_of_int 1) = Some 1"
    "parse_vxlan_device_name demo_flat (''vx0_'' @ str_of_int 2) = Some 2"
    "max_runners (subnet_config demo_flat) = 63"
    by code_simp+
  then show "alloc_ok demo_flat ''alpha'' (demo_alloc ''alpha'' 1)" "alloc_ok demo_flat ''beta'' (demo_alloc ''beta'' 2)"
    by (simp_all add: alloc_ok_def demo_alloc_def runner_id_ok_def)
qed

lemma demo_flat_config:
  "subnet_ok (subnet_config demo_flat)" "is_flat (subnet_config demo_flat)"
  "allocations demo_flat = [(''alpha'', demo_alloc ''alpha'' 1), (''beta'', demo_alloc ''beta'' 2)]"
  "id_to_runner demo_flat = [(1, ''alpha''), (2, ''beta'')]"
  "runner_id (demo_alloc n i) = i"
  by (simp_all add: demo_flat_def subnet_ok_def is_flat_def base_int_def demo_alloc_def)

lemma demo_flat_ok: "manager_ok demo_flat"
  using demo_flat_alloc_ok
  by (auto simp: manager_ok_def demo_flat_config dict_ok_def)

lemma demo_ov_flat: "get_manager_for_network demo_ov ''flat'' = Some demo_flat"
  by (simp add: get_manager_for_network_def demo_ov_def get_manager_def)

definition demo_ipr :: ipr_state where
  "demo_ipr = new_ipr ''key'' 300"

lemma demo_available: "get_available_ips_for_runner demo_ov demo_ipr 0 ''alpha'' ''flat''
    = Inr [''10.0.0.2'', ''10.0.0.3'', ''10.0.0.4'', ''10.0.0.5'']"
  by code_simp

lemma available_ip_in_plan_witness:
  "Inr ''10.0.0.5'' \<noteq> get_runner_gateway (subnet_config demo_flat) 1
   \<and> ''10.0.0.5'' \<notin> set (used_of demo_ipr ''alpha'' ''flat'')"
proof -
  have a: "map_of (allocations demo_flat) ''alpha'' = Some (demo_alloc ''alpha'' 1)" by (simp add: demo_flat_config)
  from available_ip_in_plan [OF demo_ov_flat demo_flat_ok a demo_available, of "''10.0.0.5''"]
  show ?thesis by (auto simp: demo_flat_config)
qed

lemma available_ips_disjoint_witness:
  "\<exists>xs ys. get_available_ips_for_runner (Single (fst demo_run)) demo_ipr 0 ''alpha'' ''default'' = Inr xs
     \<and> get_available_ips_for_runner (Single (fst demo_run)) demo_ipr 0 ''beta'' ''default'' = Inr ys
     \<and> set xs \<inter> set ys = {}"
proof -
  let ?m = "fst demo_run"
  have ov: "get_manager_for_network (Single ?m) ''default'' = Some ?m" by (simp add: get_manager_for_network_def)
  have flat: "\<not> is_flat (subnet_config ?m)" by code_simp
  obtain a b where a: "map_of (allocations ?m) ''alpha'' = Some a" and b: "map_of (allocations ?m) ''beta'' = Some b"
    using demo_run_facts by auto
  obtain xs ys where
    "get_available_ips_for_runner (Single ?m) demo_ipr 0 ''alpha'' ''default'' = Inr xs"
    "get_available_ips_for_runner (Single ?m) demo_ipr 0 ''beta'' ''default'' = Inr ys"
    using available_ok [OF ov a] available_ok [OF ov b] manager_ok_alloc [OF demo_run_ok a] manager_ok_alloc [OF demo_run_ok b]
    by blast
  with available_ips_disjoint [OF ov demo_run_ok flat _ this] show ?thesis by auto
qed

section \<open>No address is handed out twice\<close>

text \<open>C16
  An address the manager has bound to a container on a runner is not offered to that runner again,
  whatever happens in between (reservations, allocations, token uses, expiry, releases of other
  containers), until the container is released or the address is freed explicitly.
\<close>

theorem auto_allocated_until_release:
  assumes "ipr_init s0" "auto_allocate_ip ov now rand runner net c (fold (ipr_step lib) earlier s0) = (Inr (Some x), s)"
    "list_all (\<lambda>e. \<not> frees runner net x c e) later"
    "get_available_ips_for_runner ov' (fold (ipr_step lib) later s) now' runner net = Inr xs"
  shows "x \<notin> set xs"
proof -
  have s: "ipr_ok s"
    using ipm.run_inv [OF assms(1), of lib earlier] assms(2) ipr_ok_auto [of "fold (ipr_step lib) earlier s0" ov now rand runner net c] by simp
  have "in_use runner net x c s"
    using assms(2) by (cases rule: auto_allocate_cases) (auto simp: in_use_def get_update)
  then have "in_use runner net x c (fold (ipr_step lib) later s)" by (rule ipu.run_held [OF s _ assms(3)])
  then show ?thesis using available_not_used [OF assms(4)] by (auto simp: in_use_def)
qed

lemma auto_allocated_until_release_witness:
  "\<exists>s. auto_allocate_ip demo_ov 0 1 ''alpha'' ''flat'' ''c1'' demo_ipr = (Inr (Some ''10.0.0.3''), s)
     \<and> (\<forall>xs. get_available_ips_for_runner demo_ov (ipr_step demo_lib (ReleaseContainer ''c2'') s) 9 ''alpha'' ''flat'' = Inr xs
          \<longrightarrow> ''10.0.0.3'' \<notin> set xs)"
proof -
  obtain s where s: "auto_allocate_ip demo_ov 0 1 ''alpha'' ''flat'' ''c1'' demo_ipr = (Inr (Some ''10.0.0.3''), s)"
  proof -
    have "fst (auto_allocate_ip demo_ov 0 1 ''alpha'' ''flat'' ''c1'' demo_ipr) = Inr (Some ''10.0.0.3'')" by code_simp
    then show ?thesis using that by (metis prod.collapse)
  qed
  have i: "ipr_init demo_ipr" by (simp add: ipr_init_def demo_ipr_def new_ipr_def)
  have "list_all (\<lambda>e. \<not> frees ''alpha'' ''flat'' ''10.0.0.3'' ''c1'' e) [ReleaseContainer ''c2'']" by simp
  from auto_allocated_until_release [where earlier = "[]" and lib = demo_lib, OF i _ this] s show ?thesis by auto
qed

text \<open>C40
  On a flat network the guarantee does not extend across runners: an address just bound to a
  container on one runner can be bound at once to a container on another, because the pool of a
  runner excludes only that runner's own addresses; the first container's record is lost.
\<close>

theorem flat_address_handed_out_twice:
  assumes "get_manager_for_network ov net = Some m" "manager_ok m" "is_flat (subnet_config m)"
    "map_of (allocations m) A = Some a" "map_of (allocations m) B = Some b" "A \<noteq> B"
    "auto_allocate_ip ov now rand A net c s0 = (Inr (Some x), s)" "ipr_ok s0"
    "used_of s0 B net = []" "reserved_of s now' B net = []" "c' \<noteq> []"
  shows "\<exists>rand' s'. auto_allocate_ip ov now' rand' B net c' s = (Inr (Some x), s')
    \<and> (\<forall>r. map_of (reservations s') (net, x) = Some r \<longrightarrow> container_id r = Some c')"
proof -
  let ?s1 = "cleanup_expired_sync now' s"
  have ok: "subnet_ok (subnet_config m)" "runner_id_ok (subnet_config m) (runner_id a)" "runner_id_ok (subnet_config m) (runner_id b)"
    using manager_ok_alloc [OF assms(2,4)] manager_ok_alloc [OF assms(2,5)] by auto
  note flat = assms(3)
  from assms(7) obtain xs r where xs: "get_available_ips_for_runner ov (cleanup_expired_sync now s0) now A net = Inr xs" "x \<in> set xs"
    and s: "s = add_used A net x ((cleanup_expired_sync now s0)\<lparr>reservations :=
              AList.update (net, x) r (reservations (cleanup_expired_sync now s0))\<rparr>)" "res_runner r = A"
    by (cases rule: auto_allocate_cases) auto
  have sok: "dict_ok (reservations s)" using assms(8) s by (simp add: ipr_ok_dict)
  have "reserved_of ?s1 now' B net = []"
    using assms(10) by (auto simp: reserved_of_empty sok cleanup_get split: option.splits if_splits)
  moreover have "used_of ?s1 B net = []" using s assms(6,9) by simp
  ultimately have av: "get_available_ips_for_runner ov ?s1 now' B net =
      Inr (filter (\<lambda>x. x \<noteq> ipv4_str (subnet_start (subnet_config m) (runner_id b) + host_offset (subnet_config m)))
        (map ipv4_str [subnet_start (subnet_config m) (runner_id b) + 2
          ..subnet_start (subnet_config m) (runner_id b) + subnet_size (subnet_config m) - 3]))" (is "_ = Inr ?ys")
    by (simp add: available_ok [OF assms(1,5) ok(1,3)])
  have "x \<in> set ?ys"
    using xs unfolding available_ok [OF assms(1,4) ok(1,2)] by (auto simp: subnet_start_def flat)
  then obtain j where j: "j < length ?ys" "?ys ! j = x" by (metis in_set_conv_nth)
  obtain y ys where yy: "?ys = y # ys" using j(1) by (cases ?ys) auto
  have "(y # ys) ! (j mod length (y # ys)) = x" using j yy by simp
  then show ?thesis
    using assms(1,5,11) av unfolding yy
    by (intro exI [of _ j]) (simp add: auto_allocate_ip_def Let_def get_update)
qed

lemma flat_address_handed_out_twice_witness:
  "\<exists>s rand' s'. auto_allocate_ip demo_ov 0 1 ''alpha'' ''flat'' ''c1'' demo_ipr = (Inr (Some ''10.0.0.3''), s)
     \<and> auto_allocate_ip demo_ov 5 rand' ''beta'' ''flat'' ''c2'' s = (Inr (Some ''10.0.0.3''), s')"
proof -
  let ?p = "auto_allocate_ip demo_ov 0 1 ''alpha'' ''flat'' ''c1'' demo_ipr"
  have f: "fst ?p = Inr (Some ''10.0.0.3'')" "reserved_of (snd ?p) 5 ''beta'' ''flat'' = []" by code_simp+
  then have s: "?p = (Inr (Some ''10.0.0.3''), snd ?p)" by (metis prod.collapse)
  have m: "map_of (allocations demo_flat) ''alpha'' = Some (demo_alloc ''alpha'' 1)"
    "map_of (allocations demo_flat) ''beta'' = Some (demo_alloc ''beta'' 2)" by (simp_all add: demo_flat_config)
  have i: "ipr_ok demo_ipr" "used_of demo_ipr ''beta'' ''flat'' = []"
    unfolding demo_ipr_def by (rule ipr_ok_new) (simp add: used_of_def new_ipr_def)
  from flat_address_handed_out_twice [OF demo_ov_flat demo_flat_ok demo_flat_config(2) m _ s i f(2), of "''c2''"] s
  show ?thesis by auto
qed

section \<open>Tokens\<close>

definition token_lib_ok :: "token_lib \<Rightarrow> bool" where
  "token_lib_ok lib \<longleftrightarrow>
     (\<forall>p. json_loads lib (json_dumps lib p) = Some p) \<and>
     (\<forall>s. b64_decode lib (b64_encode lib s) = Some s) \<and>
     (\<forall>s. CHR ''.'' \<notin> set (sha256_hex lib s))"

lemma verify_generated:
  assumes "token_lib_ok lib"
  shows "verify_token lib key now (generate_token lib key x runner expires net) =
    (if expires div 1000000 * 1000000 < now then None
     else Some \<lparr>p_ip = x, p_runner = runner, p_exp = expires div 1000000, p_net = net\<rparr>)"
proof -
  let ?p = "\<lparr>p_ip = x, p_runner = runner, p_exp = expires div 1000000, p_net = net\<rparr>"
  let ?j = "json_dumps lib ?p"
  have "CHR ''.'' \<notin> set (sign lib key ?j)"
    using assms by (auto simp: sign_def token_lib_ok_def dest: in_set_takeD)
  then have "rsplit1 CHR ''.'' (?j @ ''.'' @ sign lib key ?j) = Some (?j, sign lib key ?j)"
    using rsplit1_last [of "CHR ''.''" "sign lib key ?j" ?j] by simp
  then show ?thesis
    using assms by (simp add: verify_token_def generate_token_def Let_def token_lib_ok_def)
qed

lemma demo_lib_ok: "token_lib_ok demo_lib"
proof -
  have "demo_loads (demo_dumps p) = Some p" for p
    by (simp add: demo_loads_def demo_dumps_def dec_enc_str int_of_str_str_of_int)
  moreover have "CHR ''.'' \<notin> set (demo_hash s)" for s
    using digits_of_chars digit_char_not_special(4) unfolding demo_hash_def by metis
  ultimately show ?thesis by (simp add: token_lib_ok_def demo_lib_def)
qed

text \<open>A token handed out by \<^verbatim>\<open>reserve_ip\<close> works exactly once within its lifetime: presented by a
  container it yields the reserved address and puts the address in use; presented again it is
  refused.  Whatever the token says, a wrong runner or network is refused.
\<close>

theorem token_used_once:
  assumes "token_lib_ok lib" "ipr_ok s0"
    "reserve_ip lib ov now rand runner wanted ttl net s0 = (Inr (Some r), s)"
    "now' \<le> expires_at r div 1000000 * 1000000" "runner \<noteq> []" "net \<noteq> []"
  shows "\<exists>s'. use_reservation lib now' (token r) c (Some runner) (Some net) s = (Some (ip r), s')
    \<and> in_use runner net (ip r) c s'
    \<and> use_reservation lib now'' (token r) c' er en s' = (None, s')
    \<and> (runner' \<noteq> [] \<and> runner' \<noteq> runner \<longrightarrow> use_reservation lib now' (token r) c (Some runner') en s = (None, s))"
proof -
  from assms(3) obtain xs where y: "res_network r = net" "res_runner r = runner" "\<not> is_used r"
    "token r = generate_token lib (secret_key s0) (ip r) runner (expires_at r) net"
    "reservations s = AList.update (net, ip r) r (reservations (cleanup_expired_sync now s0))"
    "token_to_key s = AList.update (token r) (net, ip r) (token_to_key (cleanup_expired_sync now s0))"
    "secret_key s = secret_key s0"
    by (cases rule: reserve_ip_cases) auto
  have v: "\<exists>p. verify_token lib (secret_key s) now' (token r) = Some p"
    unfolding y(4,7) verify_generated [OF assms(1)] using assms(4) by simp
  have g: "map_of (token_to_key s) (token r) = Some (net, ip r)" "map_of (reservations s) (net, ip r) = Some r"
    unfolding y(5,6) by (simp_all add: get_update)
  have f: "find_reservation lib now' (token r) (Some runner) (Some net) s = Some ((net, ip r), r)"
    using v g y(1-3) by (auto simp: find_reservation_def truthy_def)
  let ?s' = "add_used runner net (ip r) (s\<lparr>reservations := AList.update (net, ip r) (r\<lparr>container_id := Some c\<rparr>) (reservations s)\<rparr>)"
  have u: "use_reservation lib now' (token r) c (Some runner) (Some net) s = (Some (ip r), ?s')"
    using y(1,2) by (simp add: use_reservation_def f)
  moreover have "in_use runner net (ip r) c ?s'" by (simp add: in_use_def get_update)
  moreover have "find_reservation lib now'' (token r) er en ?s' = None"
    using g by (auto simp: find_reservation_def get_update is_used_def split: option.split)
  then have "use_reservation lib now'' (token r) c' er en ?s' = (None, ?s')" by (simp add: use_reservation_def)
  moreover have "use_reservation lib now' (token r) c (Some runner') en s = (None, s)" if "runner' \<noteq> []" "runner' \<noteq> runner"
    using v g y(2) that by (auto simp: use_reservation_def find_reservation_def truthy_def)
  ultimately show ?thesis by blast
qed

lemma token_used_once_witness:
  "\<exists>r s s'. reserve_ip demo_lib demo_ov 7000000 2 ''alpha'' None (Some 60) ''flat'' demo_ipr = (Inr (Some r), s)
     \<and> use_reservation demo_lib 60000000 (token r) ''c1'' (Some ''alpha'') (Some ''flat'') s = (Some ''10.0.0.4'', s')
     \<and> use_reservation demo_lib 60000000 (token r) ''c2'' None None s' = (None, s')"
proof -
  let ?p = "reserve_ip demo_lib demo_ov 7000000 2 ''alpha'' None (Some 60) ''flat'' demo_ipr"
  have "(case fst ?p of Inr (Some r) \<Rightarrow> ip r = ''10.0.0.4'' \<and> expires_at r = 67000000 | _ \<Rightarrow> False)" by code_simp
  then obtain r where r: "?p = (Inr (Some r), snd ?p)" "ip r = ''10.0.0.4'' \<and> expires_at r = 67000000"
    by (rule outcome_SomeE)
  have i: "ipr_ok demo_ipr" unfolding demo_ipr_def by (rule ipr_ok_new)
  have "(60000000::int) \<le> expires_at r div 1000000 * 1000000" using r(2) by simp
  from token_used_once [OF demo_lib_ok i r(1) this, where c = "''c1''" and now'' = 60000000 and c' = "''c2''" and er = None and en = None]
  obtain s' where "use_reservation demo_lib 60000000 (token r) ''c1'' (Some ''alpha'') (Some ''flat'') (snd ?p) = (Some (ip r), s')"
    "use_reservation demo_lib 60000000 (token r) ''c2'' None None s' = (None, s')" by blast
  with r show ?thesis by metis
qed

text \<open>A token is accepted only if it decodes to a payload followed by that payload's own signature
  under the manager's secret key, and only until the second it names.
\<close>

theorem accepted_token_signed:
  assumes "verify_token lib key now tok = Some payload"
  shows "\<exists>payload_json signature. b64_decode lib tok = Some (payload_json @ CHR ''.'' # signature)
    \<and> signature = take 16 (sha256_hex lib (payload_json @ key))
    \<and> json_loads lib payload_json = Some payload \<and> now \<le> p_exp payload * 1000000"
proof -
  obtain d j sg where d: "b64_decode lib tok = Some d" "rsplit1 CHR ''.'' d = Some (j, sg)" "sg = sign lib key j"
      "json_loads lib j = Some payload" "now \<le> p_exp payload * 1000000"
    using assms by (auto simp: verify_token_def split: option.splits if_splits prod.splits)
  have "d = j @ CHR ''.'' # sg"
  proof -
    have "CHR ''.'' \<in> set (rev d)" and j: "j = rev (tl (dropWhile (\<lambda>x. x \<noteq> CHR ''.'') (rev d)))"
      and sg: "sg = rev (takeWhile (\<lambda>x. x \<noteq> CHR ''.'') (rev d))"
      using d(2) by (auto simp: rsplit1_def split: if_splits)
    then obtain rest where "dropWhile (\<lambda>x. x \<noteq> CHR ''.'') (rev d) = CHR ''.'' # rest"
      by (cases "dropWhile (\<lambda>x. x \<noteq> CHR ''.'') (rev d)") (auto simp: dropWhile_eq_Nil_conv dest: dropWhile_eq_Cons_conv [THEN iffD1])
    then have "rev d = rev sg @ CHR ''.'' # rev j"
      using takeWhile_dropWhile_id [of "\<lambda>x. x \<noteq> CHR ''.''" "rev d"] j sg by simp
    then have "rev (rev d) = rev (rev sg @ CHR ''.'' # rev j)" by (rule arg_cong)
    then show ?thesis by simp
  qed
  with d show ?thesis by (auto simp: sign_def)
qed

lemma accepted_token_signed_witness:
  "\<exists>tok payload j sg. verify_token demo_lib ''key'' 5 tok = Some payload \<and> tok = j @ CHR ''.'' # sg
     \<and> sg = take 16 (demo_hash (j @ ''key''))"
proof -
  let ?t = "generate_token demo_lib ''key'' ''10.0.0.4'' ''alpha'' 67000000 ''flat''"
  obtain payload where v: "verify_token demo_lib ''key'' 5 ?t = Some payload"
    unfolding verify_generated [OF demo_lib_ok] by auto
  from accepted_token_signed [OF v] obtain j sg where
    "b64_decode demo_lib ?t = Some (j @ CHR ''.'' # sg)" "sg = take 16 (sha256_hex demo_lib (j @ ''key''))"
    by blast
  then have "?t = j @ CHR ''.'' # sg" "sg = take 16 (demo_hash (j @ ''key''))"
    by (simp_all add: demo_lib_def)
  with v show ?thesis by blast
qed

section \<open>Release\<close>

text \<open>When a container exits, exactly its own reservations disappear, its addresses leave the used
  sets of their runners, and no reservation of another container changes.
\<close>

theorem release_by_container_exact:
  assumes "ipr_ok s" "release_by_container c s = (ips, s')"
  shows "map_of (reservations s') k =
      (case map_of (reservations s) k of None \<Rightarrow> None | Some r \<Rightarrow> if container_id r = Some c then None else Some r)
    \<and> set ips = {ip r | r. \<exists>k. map_of (reservations s) k = Some r \<and> container_id r = Some c}
    \<and> (map_of (reservations s) (n, x) = Some r \<and> container_id r = Some c \<longrightarrow> x \<notin> set (used_of s' (res_runner r) n))"
proof -
  have d: "dict_ok (reservations s)" using assms(1) by (rule ipr_ok_dict)
  have s': "s' = snd (release_loop c (reservations s) s)" and ips: "ips = fst (release_loop c (reservations s) s)"
    using assms(2) by (simp_all add: release_by_container_def)
  have 1: "map_of (reservations s') k =
      (case map_of (reservations s) k of None \<Rightarrow> None | Some r \<Rightarrow> if container_id r = Some c then None else Some r)"
    unfolding s' release_loop_get using d by (auto simp: item_get split: option.split)
  have 2: "set ips = {ip r | r. \<exists>k. map_of (reservations s) k = Some r \<and> container_id r = Some c}"
    unfolding ips release_loop_ips using d by (force simp: item_get)
  have 3: "x \<notin> set (used_of s' (res_runner r) n)" if h: "map_of (reservations s) (n, x) = Some r" "container_id r = Some c"
  proof -
    have "((n, x), r) \<in> set (reservations s)" using h(1) by (rule get_item)
    then show ?thesis
      using release_loop_frees [of "(n, x)" r "reservations s" c s] h(2) ipr_ok_get [OF assms(1) h(1)]
      unfolding s' by auto
  qed
  from 1 2 3 show ?thesis by blast
qed

lemma release_by_container_exact_witness:
  "\<exists>s. auto_allocate_ip demo_ov 0 1 ''alpha'' ''flat'' ''c1'' demo_ipr = (Inr (Some ''10.0.0.3''), s)
     \<and> map_of (reservations (snd (release_by_container ''c1'' s))) (''flat'', ''10.0.0.3'') = None"
proof -
  let ?p = "auto_allocate_ip demo_ov 0 1 ''alpha'' ''flat'' ''c1'' demo_ipr"
  have f: "fst ?p = Inr (Some ''10.0.0.3'')"
    "map_option container_id (map_of (reservations (snd ?p)) (''flat'', ''10.0.0.3'')) = Some (Some ''c1'')" by code_simp+
  then have p: "?p = (Inr (Some ''10.0.0.3''), snd ?p)" by (metis prod.collapse)
  have "ipr_ok (snd ?p)" unfolding demo_ipr_def by (rule ipr_ok_auto [OF ipr_ok_new])
  from release_by_container_exact [OF this, of "''c1''" "fst (release_by_container ''c1'' (snd ?p))"] p f
  show ?thesis by (auto split: option.splits)
qed

end
