(* ===== verification/Auth_Model.thy ===== *)
theory Auth_Model
  imports Py_Strings
begin

text \<open>
  Accounts and credentials: the role hierarchy and the tables of \<^verbatim>\<open>db/auth.py\<close>, and the
  dependencies of \<^verbatim>\<open>host/auth/dependencies.py\<close> that turn a request into a user and check
  roles.  A table is a dictionary keyed by its primary key (sessions by their unique session
  identifier, which is all they are looked up by).  What SQLite decides is a parameter: the row
  identifier of a new row and whether foreign keys are enforced.
\<close>

section \<open>Roles\<close>

definition role_hierarchy :: "string list" where
  "role_hierarchy = [''anony'', ''viewer'', ''user'', ''operator'', ''admin'']"

text \<open>\<^verbatim>\<open>xs.index(x)\<close>; \<open>None\<close> is \<^verbatim>\<open>ValueError\<close>.\<close>

fun index_of :: "'a \<Rightarrow> 'a list \<Rightarrow> nat option" where
  "index_of x [] = None"
| "index_of x (y # ys) = (if x = y then Some 0 else map_option Suc (index_of x ys))"

definition is_at_least :: "string \<Rightarrow> string \<Rightarrow> bool" where
  "is_at_least user_role required_role =
     (case (index_of user_role role_hierarchy, index_of required_role role_hierarchy) of
        (Some u, Some r) \<Rightarrow> r \<le> u
      | _ \<Rightarrow> False)"

section \<open>Tables\<close>

record user =
  u_id :: int
  username :: string
  display_name :: "string option"
  password_hash :: string
  u_active :: bool
  role :: string
  u_created_at :: int

record session =
  s_user :: int
  s_expires_at :: int
  s_created_at :: int

record api_token =
  at_id :: int
  at_user :: int
  token_hash :: string
  at_name :: string
  last_used_at :: "int option"
  at_created_at :: int

record invitation =
  inv_id :: int
  inv_token :: string
  inv_role :: string
  inv_group :: "int option"
  max_usage :: int
  usage_count :: int
  inv_expires_at :: int
  created_by :: "int option"
  inv_created_at :: int

record auth_db =
  users :: "(int, user) dict"
  sessions :: "(string, session) dict"
  api_tokens :: "(int, api_token) dict"
  invitations :: "(int, invitation) dict"
  groups :: "int list"

text \<open>What the database engine decides.\<close>

record sqlite =
  new_rowid :: "int list \<Rightarrow> int" \<comment> \<open>the key of a new row, given the keys in the table\<close>
  enforces_fk :: bool

definition has_role :: "user \<Rightarrow> string \<Rightarrow> bool" where
  "has_role u required = is_at_least (role u) required"

definition is_admin :: "user \<Rightarrow> bool" where
  "is_admin u \<longleftrightarrow> role u = ''admin''"

definition is_operator :: "user \<Rightarrow> bool" where
  "is_operator u = has_role u ''operator''"

definition session_expired :: "int \<Rightarrow> session \<Rightarrow> bool" where
  "session_expired now s \<longleftrightarrow> now > s_expires_at s"

definition invitation_valid :: "int \<Rightarrow> invitation \<Rightarrow> bool" where
  "invitation_valid now i \<longleftrightarrow> \<not> now > inv_expires_at i \<and> \<not> usage_count i \<ge> max_usage i"

text \<open>\<^verbatim>\<open>Invitation.use\<close>, with the clock read at its call.\<close>

definition invitation_use :: "int \<Rightarrow> invitation \<Rightarrow> auth_db \<Rightarrow> bool \<times> auth_db" where
  "invitation_use now i d =
     (if \<not> invitation_valid now i then (False, d)
      else (True, d\<lparr>invitations := AList.update (inv_id i) (i\<lparr>usage_count := usage_count i + 1\<rparr>) (invitations d)\<rparr>))"

text \<open>\<^verbatim>\<open>get_or_none\<close> on a column that is not the key.\<close>

definition user_by_name :: "string \<Rightarrow> auth_db \<Rightarrow> user option" where
  "user_by_name n d = find (\<lambda>u. username u = n) (dict_values (users d))"

definition token_by_hash :: "string \<Rightarrow> auth_db \<Rightarrow> api_token option" where
  "token_by_hash h d = find (\<lambda>t. token_hash t = h) (dict_values (api_tokens d))"

definition invitation_by_token :: "string \<Rightarrow> auth_db \<Rightarrow> invitation option" where
  "invitation_by_token tok d = find (\<lambda>i. inv_token i = tok) (dict_values (invitations d))"

section \<open>Who is asking\<close>

record auth_config =
  AUTH_ENABLED :: bool
  ADMIN_SECRET :: string
  ADMIN_REGISTER_SECRET :: string
  SESSION_EXPIRE_HOURS :: int

text \<open>The credentials of a request: the \<^verbatim>\<open>X-Admin-Token\<close> and \<^verbatim>\<open>Authorization\<close> headers and the
  session cookie.\<close>

record credentials =
  admin_token :: "string option"
  authorization :: "string option"
  session_cookie :: "string option"

text \<open>\<^verbatim>\<open>session.user\<close> and \<^verbatim>\<open>token.user\<close> of a row whose user is gone raise, and the handlers below
  catch the exception and return \<^verbatim>\<open>None\<close>.\<close>

definition user_from_session :: "int \<Rightarrow> string \<Rightarrow> auth_db \<Rightarrow> user option \<times> auth_db" where
  "user_from_session now sid d =
     (case map_of (sessions d) sid of
        None \<Rightarrow> (None, d)
      | Some s \<Rightarrow>
          if session_expired now s then (None, d\<lparr>sessions := AList.delete sid (sessions d)\<rparr>)
          else
            (case map_of (users d) (s_user s) of
               None \<Rightarrow> (None, d)
             | Some u \<Rightarrow> (if \<not> u_active u then None else Some u, d)))"

definition user_from_token :: "(string \<Rightarrow> string) \<Rightarrow> int \<Rightarrow> string \<Rightarrow> auth_db \<Rightarrow> user option \<times> auth_db" where
  "user_from_token hash_token now tok d =
     (case token_by_hash (hash_token tok) d of
        None \<Rightarrow> (None, d)
      | Some t \<Rightarrow>
          (case map_of (users d) (at_user t) of
             None \<Rightarrow> (None, d)
           | Some u \<Rightarrow>
               if \<not> u_active u then (None, d)
               else (Some u, d\<lparr>api_tokens := AList.update (at_id t) (t\<lparr>last_used_at := Some now\<rparr>) (api_tokens d)\<rparr>)))"

definition extract_bearer_token :: "string option \<Rightarrow> string option" where
  "extract_bearer_token a =
     (case a of
        None \<Rightarrow> None
      | Some s \<Rightarrow> if s = [] then None else if \<not> startswith s ''Bearer '' then None else Some (drop 7 s))"

definition mock_admin_user :: "int \<Rightarrow> user" where
  "mock_admin_user now = \<lparr>u_id = 0, username = ''_system'', display_name = Some ''System (Auth Disabled)'',
     password_hash = [], u_active = True, role = ''admin'', u_created_at = now\<rparr>"

definition anonymous_user :: "int \<Rightarrow> user" where
  "anonymous_user now = \<lparr>u_id = -1, username = ''_anonymous'', display_name = Some ''Anonymous'',
     password_hash = [], u_active = True, role = ''anony'', u_created_at = now\<rparr>"

definition nonempty :: "string option \<Rightarrow> bool" where
  "nonempty x \<longleftrightarrow> (case x of None \<Rightarrow> False | Some s \<Rightarrow> s \<noteq> [])"

text \<open>The two attempts of \<^verbatim>\<open>get_current_user_optional\<close>: the cookie first, then the header.\<close>

definition session_user :: "int \<Rightarrow> credentials \<Rightarrow> auth_db \<Rightarrow> user option \<times> auth_db" where
  "session_user now cr d =
     (case session_cookie cr of
        None \<Rightarrow> (None, d)
      | Some sid \<Rightarrow> if sid = [] then (None, d) else user_from_session now sid d)"

definition bearer_user :: "(string \<Rightarrow> string) \<Rightarrow> int \<Rightarrow> credentials \<Rightarrow> auth_db \<Rightarrow> user option \<times> auth_db" where
  "bearer_user hash_token now cr d =
     (case extract_bearer_token (authorization cr) of
        None \<Rightarrow> (None, d)
      | Some tok \<Rightarrow> if tok = [] then (None, d) else user_from_token hash_token now tok d)"

definition get_current_user_optional ::
  "(string \<Rightarrow> string) \<Rightarrow> auth_config \<Rightarrow> int \<Rightarrow> credentials \<Rightarrow> auth_db \<Rightarrow> user \<times> auth_db" where
  "get_current_user_optional hash_token cfg now cr d0 =
     (if \<not> AUTH_ENABLED cfg then (mock_admin_user now, d0)
      else if nonempty (admin_token cr) \<and> ADMIN_SECRET cfg \<noteq> [] \<and> admin_token cr = Some (ADMIN_SECRET cfg)
      then (mock_admin_user now, d0)
      else
        case session_user now cr d0 of
          (Some u, d) \<Rightarrow> (u, d)
        | (None, d) \<Rightarrow>
            (case bearer_user hash_token now cr d of
               (Some u, d') \<Rightarrow> (u, d')
             | (None, d') \<Rightarrow> (anonymous_user now, d')))"

definition get_current_user ::
  "(string \<Rightarrow> string) \<Rightarrow> auth_config \<Rightarrow> int \<Rightarrow> credentials \<Rightarrow> (auth_db, user) st" where
  "get_current_user hash_token cfg now cr = (\<lambda>d.
     if \<not> AUTH_ENABLED cfg then (Inl (HTTPException 503 ''Authentication is not enabled on this server''), d)
     else (case get_current_user_optional hash_token cfg now cr d of (u, d') \<Rightarrow> (Inr u, d')))"

text \<open>The check \<^verbatim>\<open>require_role(r)\<close> makes of the user the request resolves to.\<close>

definition check_role :: "string \<Rightarrow> user \<Rightarrow> user res" where
  "check_role required u =
     (if \<not> has_role u required
      then (if role u = ''anony'' then Inl (HTTPException 401 ''Not authenticated'')
            else Inl (HTTPException 403 (''Insufficient permissions. Required role: '' @ required)))
      else Inr u)"

definition require_role ::
  "(string \<Rightarrow> string) \<Rightarrow> auth_config \<Rightarrow> string \<Rightarrow> int \<Rightarrow> credentials \<Rightarrow> (auth_db, user) st" where
  "require_role hash_token cfg required now cr = (\<lambda>d.
     case get_current_user_optional hash_token cfg now cr d of (u, d') \<Rightarrow> (check_role required u, d'))"

definition check_admin_token :: "auth_config \<Rightarrow> credentials \<Rightarrow> bool" where
  "check_admin_token cfg cr =
     (if ADMIN_SECRET cfg = [] then False
      else if \<not> nonempty (admin_token cr) then False
      else admin_token cr = Some (ADMIN_SECRET cfg))"

end
