(* ===== verification/Auth_Routes.thy ===== *)
theory Auth_Routes
  imports Auth_Model
begin

text \<open>
  The endpoints of \<^verbatim>\<open>host/auth/routes.py\<close> that change the account tables: login, logout,
  registration by invitation, API tokens, invitations and user management.  Each handler takes
  the request's credentials and resolves them first, as its dependency does.  Random session
  identifiers, tokens and the bcrypt hash of a new password are arguments; \<open>pw_ok\<close> is
  \<^verbatim>\<open>verify_password\<close>.
\<close>

definition hours :: "int \<Rightarrow> int" where
  "hours h = h * 3600 * 1000000"

text \<open>\<^verbatim>\<open>Session.create\<close>: the session identifier is unique.\<close>

definition create_session :: "auth_config \<Rightarrow> int \<Rightarrow> string \<Rightarrow> int \<Rightarrow> (auth_db, unit) st" where
  "create_session cfg now sid uid = (\<lambda>d.
     if map_of (sessions d) sid \<noteq> None then (Inl IntegrityError, d)
     else (Inr (), d\<lparr>sessions := AList.update sid
            \<lparr>s_user = uid, s_expires_at = now + hours (SESSION_EXPIRE_HOURS cfg), s_created_at = now\<rparr> (sessions d)\<rparr>))"

section \<open>Login and registration\<close>

definition login ::
  "auth_config \<Rightarrow> (string \<Rightarrow> string \<Rightarrow> bool) \<Rightarrow> int \<Rightarrow> string \<Rightarrow> string \<Rightarrow> string \<Rightarrow> (auth_db, user) st" where
  "login cfg pw_ok now uname password sid = (\<lambda>d.
     if uname = [] \<or> 50 < length uname \<or> password = [] then (Inl (HTTPException 422 ''Validation error''), d)
     else if \<not> AUTH_ENABLED cfg then (Inl (HTTPException 503 ''Authentication is not enabled''), d)
     else
       (case user_by_name uname d of
          None \<Rightarrow> (Inl (HTTPException 401 ''Invalid username or password''), d)
        | Some u \<Rightarrow>
            if \<not> pw_ok password (password_hash u) then (Inl (HTTPException 401 ''Invalid username or password''), d)
            else if \<not> u_active u then (Inl (HTTPException 403 ''Account is disabled''), d)
            else bind_st (create_session cfg now sid (u_id u)) (\<lambda>_. return_st u) d))"

definition logout :: "string option \<Rightarrow> auth_db \<Rightarrow> auth_db" where
  "logout cookie d = (if nonempty cookie then d\<lparr>sessions := AList.delete (the cookie) (sessions d)\<rparr> else d)"

record register_request =
  rq_username :: string
  rq_password :: string
  rq_display_name :: "string option"

text \<open>The field constraints of the request model; a request that breaks them is answered 422.\<close>

definition register_request_ok :: "register_request \<Rightarrow> bool" where
  "register_request_ok rq \<longleftrightarrow>
     3 \<le> length (rq_username rq) \<and> length (rq_username rq) \<le> 50 \<and> 8 \<le> length (rq_password rq) \<and>
     (case rq_display_name rq of None \<Rightarrow> True | Some n \<Rightarrow> length n \<le> 100)"

text \<open>The role a registration gets: administrator for the bootstrap secret, the invitation's
  otherwise; with the invitation that has to be used.\<close>

definition registration_role ::
  "auth_config \<Rightarrow> int \<Rightarrow> string \<Rightarrow> auth_db \<Rightarrow> (string \<times> invitation option) res" where
  "registration_role cfg now tok d =
     (if ADMIN_REGISTER_SECRET cfg \<noteq> [] \<and> tok = ADMIN_REGISTER_SECRET cfg then Inr (''admin'', None)
      else
        (case invitation_by_token tok d of
           None \<Rightarrow> Inl (HTTPException 400 ''Invalid invitation token'')
         | Some i \<Rightarrow>
             if \<not> invitation_valid now i
             then Inl (HTTPException 400 ''Invitation has expired or reached usage limit'')
             else Inr (inv_role i, Some i)))"

text \<open>The clock is read twice: when the invitation is checked, and after the password is hashed, for
  the rows written and the check that \<^verbatim>\<open>invitation.use()\<close> repeats.  Its answer is not looked at.\<close>

definition register ::
  "sqlite \<Rightarrow> auth_config \<Rightarrow> int \<Rightarrow> int \<Rightarrow> register_request \<Rightarrow> string \<Rightarrow> string \<Rightarrow> string \<Rightarrow> (auth_db, user) st" where
  "register sq cfg now later rq tok pw_hash sid = (\<lambda>d.
     if \<not> register_request_ok rq then (Inl (HTTPException 422 ''Validation error''), d)
     else if \<not> AUTH_ENABLED cfg then (Inl (HTTPException 503 ''Authentication is not enabled''), d)
     else
       (case registration_role cfg now tok d of
          Inl e \<Rightarrow> (Inl e, d)
        | Inr (r, invite) \<Rightarrow>
            (case user_by_name (rq_username rq) d of
               Some _ \<Rightarrow> (Inl (HTTPException 409 ''Username already taken''), d)
             | None \<Rightarrow>
                 let uid = new_rowid sq (dict_keys (users d));
                     u = \<lparr>u_id = uid, username = rq_username rq,
                          display_name = Some (if nonempty (rq_display_name rq) then the (rq_display_name rq) else rq_username rq),
                          password_hash = pw_hash, u_active = True, role = r, u_created_at = later\<rparr>;
                     d1 = d\<lparr>users := AList.update uid u (users d)\<rparr>;
                     d2 = (case invite of None \<Rightarrow> d1 | Some i \<Rightarrow> snd (invitation_use later i d1))
                 in bind_st (create_session cfg later sid uid) (\<lambda>_. return_st u) d2)))"

section \<open>API tokens\<close>

definition create_token ::
  "(string \<Rightarrow> string) \<Rightarrow> sqlite \<Rightarrow> auth_config \<Rightarrow> int \<Rightarrow> credentials \<Rightarrow> string \<Rightarrow> string \<Rightarrow> (auth_db, api_token) st" where
  "create_token hash_token sq cfg now cr nm plaintext =
     bind_st (get_current_user hash_token cfg now cr) (\<lambda>u d.
       if nm = [] \<or> 100 < length nm then (Inl (HTTPException 422 ''Validation error''), d)
       else if enforces_fk sq \<and> map_of (users d) (u_id u) = None then (Inl IntegrityError, d)
       else if token_by_hash (hash_token plaintext) d \<noteq> None then (Inl IntegrityError, d)
       else
         let i = new_rowid sq (dict_keys (api_tokens d));
             t = \<lparr>at_id = i, at_user = u_id u, token_hash = hash_token plaintext, at_name = nm,
                  last_used_at = None, at_created_at = now\<rparr>
         in (Inr t, d\<lparr>api_tokens := AList.update i t (api_tokens d)\<rparr>))"

definition list_tokens ::
  "(string \<Rightarrow> string) \<Rightarrow> auth_config \<Rightarrow> int \<Rightarrow> credentials \<Rightarrow> (auth_db, api_token list) st" where
  "list_tokens hash_token cfg now cr =
     bind_st (get_current_user hash_token cfg now cr) (\<lambda>u d.
       (Inr (rev (sort_key at_created_at (rev (filter (\<lambda>t. at_user t = u_id u) (dict_values (api_tokens d)))))), d))"

definition revoke_token ::
  "(string \<Rightarrow> string) \<Rightarrow> auth_config \<Rightarrow> int \<Rightarrow> credentials \<Rightarrow> int \<Rightarrow> (auth_db, unit) st" where
  "revoke_token hash_token cfg now cr token_id =
     bind_st (get_current_user hash_token cfg now cr) (\<lambda>u d.
       case map_of (api_tokens d) token_id of
         None \<Rightarrow> (Inl (HTTPException 404 ''Token not found''), d)
       | Some t \<Rightarrow>
           if at_user t \<noteq> u_id u then (Inl (HTTPException 404 ''Token not found''), d)
           else (Inr (), d\<lparr>api_tokens := AList.delete token_id (api_tokens d)\<rparr>))"

section \<open>Invitations\<close>

record invitation_request =
  rq_role :: string
  rq_group :: "int option"
  rq_max_usage :: int
  rq_expires_hours :: int

definition invitation_request_ok :: "invitation_request \<Rightarrow> bool" where
  "invitation_request_ok rq \<longleftrightarrow>
     1 \<le> rq_max_usage rq \<and> 1 \<le> rq_expires_hours rq \<and> rq_expires_hours rq \<le> 720"

definition create_invitation ::
  "(string \<Rightarrow> string) \<Rightarrow> sqlite \<Rightarrow> auth_config \<Rightarrow> int \<Rightarrow> credentials \<Rightarrow> invitation_request \<Rightarrow> string
   \<Rightarrow> (auth_db, invitation) st" where
  "create_invitation hash_token sq cfg now cr rq tok = (\<lambda>d0.
     case get_current_user_optional hash_token cfg now cr d0 of (u, d) \<Rightarrow>
       if \<not> invitation_request_ok rq then (Inl (HTTPException 422 ''Validation error''), d)
       else if \<not> is_operator u then (Inl (HTTPException 403 ''Operator access required''), d)
       else if \<not> is_admin u \<and> rq_role rq \<noteq> ''viewer''
       then (Inl (HTTPException 403 ''Operators can only create viewer invitations''), d)
       else if rq_role rq \<notin> set role_hierarchy then (Inl (HTTPException 400 ''Invalid role''), d)
       else if rq_group rq \<noteq> None \<and> rq_group rq \<noteq> Some 0 \<and> the (rq_group rq) \<notin> set (groups d)
       then (Inl (HTTPException 400 ''Group not found''), d)
       else if invitation_by_token tok d \<noteq> None then (Inl IntegrityError, d)
       else
         let i = new_rowid sq (dict_keys (invitations d));
             iv = \<lparr>inv_id = i, inv_token = tok, inv_role = rq_role rq,
                    inv_group = (if rq_group rq = Some 0 then None else rq_group rq),
                    max_usage = rq_max_usage rq, usage_count = 0,
                    inv_expires_at = now + hours (rq_expires_hours rq),
                    created_by = (if u_id u > 0 then Some (u_id u) else None), inv_created_at = now\<rparr>
         in (Inr iv, d\<lparr>invitations := AList.update i iv (invitations d)\<rparr>))"

definition list_invitations ::
  "(string \<Rightarrow> string) \<Rightarrow> auth_config \<Rightarrow> int \<Rightarrow> credentials \<Rightarrow> (auth_db, invitation list) st" where
  "list_invitations hash_token cfg now cr = (\<lambda>d0.
     case get_current_user_optional hash_token cfg now cr d0 of (u, d) \<Rightarrow>
       if \<not> is_admin u then (Inl (HTTPException 403 ''Admin access required''), d)
       else (Inr (rev (sort_key inv_created_at (rev (dict_values (invitations d))))), d))"

definition revoke_invitation ::
  "(string \<Rightarrow> string) \<Rightarrow> auth_config \<Rightarrow> int \<Rightarrow> credentials \<Rightarrow> int \<Rightarrow> (auth_db, unit) st" where
  "revoke_invitation hash_token cfg now cr iid = (\<lambda>d0.
     case get_current_user_optional hash_token cfg now cr d0 of (u, d) \<Rightarrow>
       if \<not> is_admin u then (Inl (HTTPException 403 ''Admin access required''), d)
       else if map_of (invitations d) iid = None then (Inl (HTTPException 404 ''Invitation not found''), d)
       else (Inr (), d\<lparr>invitations := AList.delete iid (invitations d)\<rparr>))"

section \<open>User management\<close>

definition list_users ::
  "(string \<Rightarrow> string) \<Rightarrow> auth_config \<Rightarrow> int \<Rightarrow> credentials \<Rightarrow> (auth_db, user list) st" where
  "list_users hash_token cfg now cr =
     bind_st (require_role hash_token cfg ''operator'' now cr) (\<lambda>u d.
       (Inr (rev (sort_key u_created_at (rev (dict_values (users d))))), d))"

record user_update =
  up_display_name :: "string option"
  up_role :: "string option"
  up_active :: "bool option"

definition update_user ::
  "(string \<Rightarrow> string) \<Rightarrow> auth_config \<Rightarrow> int \<Rightarrow> credentials \<Rightarrow> int \<Rightarrow> user_update \<Rightarrow> (auth_db, user) st" where
  "update_user hash_token cfg now cr uid rq =
     bind_st (require_role hash_token cfg ''admin'' now cr) (\<lambda>adm d.
       case map_of (users d) uid of
         None \<Rightarrow> (Inl (HTTPException 404 ''User not found''), d)
       | Some u \<Rightarrow>
           if u_id u = u_id adm \<and> nonempty (up_role rq) \<and> up_role rq \<noteq> Some ''admin''
           then (Inl (HTTPException 400 ''Cannot demote yourself''), d)
           else if up_role rq \<noteq> None \<and> the (up_role rq) \<notin> set role_hierarchy
           then (Inl (HTTPException 400 ''Invalid role''), d)
           else if up_active rq \<noteq> None \<and> u_id u = u_id adm \<and> up_active rq = Some False
           then (Inl (HTTPException 400 ''Cannot disable yourself''), d)
           else
             let u' = u\<lparr>display_name := (case up_display_name rq of None \<Rightarrow> display_name u | Some n \<Rightarrow> Some n),
                        role := (case up_role rq of None \<Rightarrow> role u | Some r \<Rightarrow> r),
                        u_active := (case up_active rq of None \<Rightarrow> u_active u | Some b \<Rightarrow> b)\<rparr>
             in (Inr u', d\<lparr>users := AList.update uid u' (users d)\<rparr>))"

text \<open>\<^verbatim>\<open>user.delete_instance()\<close>: one \<^verbatim>\<open>DELETE\<close>, whose \<^verbatim>\<open>ON DELETE\<close> clauses act when the engine
  enforces foreign keys.\<close>

definition drop_user :: "sqlite \<Rightarrow> int \<Rightarrow> auth_db \<Rightarrow> auth_db" where
  "drop_user sq uid d =
     (let d1 = d\<lparr>users := AList.delete uid (users d)\<rparr> in
      if \<not> enforces_fk sq then d1
      else d1\<lparr>sessions := filter (\<lambda>(k, s). s_user s \<noteq> uid) (sessions d),
              api_tokens := filter (\<lambda>(k, t). at_user t \<noteq> uid) (api_tokens d),
              invitations := map (\<lambda>(k, i). (k, if created_by i = Some uid then i\<lparr>created_by := None\<rparr> else i)) (invitations d)\<rparr>)"

definition delete_user ::
  "(string \<Rightarrow> string) \<Rightarrow> sqlite \<Rightarrow> auth_config \<Rightarrow> int \<Rightarrow> credentials \<Rightarrow> int \<Rightarrow> (auth_db, unit) st" where
  "delete_user hash_token sq cfg now cr uid =
     bind_st (require_role hash_token cfg ''admin'' now cr) (\<lambda>adm d.
       case map_of (users d) uid of
         None \<Rightarrow> (Inl (HTTPException 404 ''User not found''), d)
       | Some u \<Rightarrow>
           if u_id u = u_id adm then (Inl (HTTPException 400 ''Cannot delete yourself''), d)
           else (Inr (), drop_user sq uid d))"

section \<open>The component as a machine\<close>

datatype auth_event =
    Login int string string string \<comment> \<open>time, user name, password, new session\<close>
  | Logout "string option"
  | RegisterUser int int register_request string string string \<comment> \<open>two times, request, token, password hash, new session\<close>
  | CreateToken int credentials string string
  | RevokeToken int credentials int
  | CreateInvitation int credentials invitation_request string
  | RevokeInvitation int credentials int
  | UpdateUser int credentials int user_update
  | DeleteUser int credentials int
  | Authenticate int credentials \<comment> \<open>any other request: its user is resolved\<close>

fun auth_step ::
  "(string \<Rightarrow> string) \<Rightarrow> (string \<Rightarrow> string \<Rightarrow> bool) \<Rightarrow> sqlite \<Rightarrow> auth_config \<Rightarrow> auth_event \<Rightarrow> auth_db \<Rightarrow> auth_db" where
  "auth_step h pw_ok sq cfg (Login now n p sid) d = snd (login cfg pw_ok now n p sid d)"
| "auth_step h pw_ok sq cfg (Logout c) d = logout c d"
| "auth_step h pw_ok sq cfg (RegisterUser now later rq tok ph sid) d = snd (register sq cfg now later rq tok ph sid d)"
| "auth_step h pw_ok sq cfg (CreateToken now cr n p) d = snd (create_token h sq cfg now cr n p d)"
| "auth_step h pw_ok sq cfg (RevokeToken now cr i) d = snd (revoke_token h cfg now cr i d)"
| "auth_step h pw_ok sq cfg (CreateInvitation now cr rq tok) d = snd (create_invitation h sq cfg now cr rq tok d)"
| "auth_step h pw_ok sq cfg (RevokeInvitation now cr i) d = snd (revoke_invitation h cfg now cr i d)"
| "auth_step h pw_ok sq cfg (UpdateUser now cr i rq) d = snd (update_user h cfg now cr i rq d)"
| "auth_step h pw_ok sq cfg (DeleteUser now cr i) d = snd (delete_user h sq cfg now cr i d)"
| "auth_step h pw_ok sq cfg (Authenticate now cr) d = snd (get_current_user_optional h cfg now cr d)"

end
