(* ===== verification/Auth_Properties.thy ===== *)
theory Auth_Properties
  imports Auth_Routes
begin

text \<open>
  The account tables as a machine over the endpoints: their invariant, what an invitation
  admits, that nobody gains a role without an administrator, and what happens to the
  credentials of a deleted account.
\<close>

section \<open>The invariant\<close>

text \<open>SQLite gives a row of a table keyed by \<^verbatim>\<open>INTEGER PRIMARY KEY\<close> (without \<^verbatim>\<open>AUTOINCREMENT\<close>) one
  more than the largest key in the table, and 1 in an empty table.\<close>

definition sqlite_ok :: "sqlite \<Rightarrow> bool" where
  "sqlite_ok sq \<longleftrightarrow> (\<forall>ks. new_rowid sq ks = 1 + fold max ks 0)"

definition default_sqlite :: sqlite where
  "default_sqlite = \<lparr>new_rowid = (\<lambda>ks. 1 + fold max ks 0), enforces_fk = False\<rparr>"

lemma default_sqlite_ok [simp]: "sqlite_ok default_sqlite"
  by (simp add: sqlite_ok_def default_sqlite_def)

lemma fold_max_ge: "(x :: int) \<le> fold max ks x" "k \<in> set ks \<Longrightarrow> k \<le> fold max ks x"
proof (induction ks arbitrary: x)
  case (Cons a ks)
  { case 1 show ?case using Cons(1) [of "max a x"] by simp }
  { case 2
    then show ?case using Cons(1) [of "max a x"] Cons(2) [of "max a x"] by auto }
qed simp_all

lemma new_rowid_fresh [simp]: "sqlite_ok sq \<Longrightarrow> new_rowid sq ks \<notin> set ks"
  using fold_max_ge(2) [of "1 + fold max ks 0" ks 0] by (auto simp: sqlite_ok_def)

text \<open>The parts of the invariant, each over the table it speaks of.\<close>

definition users_ok :: "(int, user) dict \<Rightarrow> bool" where
  "users_ok us \<longleftrightarrow> keyed u_id us \<and>
     (\<forall>i j a b. map_of us i = Some a \<and> map_of us j = Some b \<and> username a = username b \<longrightarrow> i = j)"

definition tokens_ok :: "(int, api_token) dict \<Rightarrow> bool" where
  "tokens_ok ts \<longleftrightarrow> keyed at_id ts \<and>
     (\<forall>i j a b. map_of ts i = Some a \<and> map_of ts j = Some b \<and> token_hash a = token_hash b \<longrightarrow> i = j)"

definition invitations_ok :: "(int, invitation) dict \<Rightarrow> bool" where
  "invitations_ok is \<longleftrightarrow> keyed inv_id is \<and>
     (\<forall>i j a b. map_of is i = Some a \<and> map_of is j = Some b \<and> inv_token a = inv_token b \<longrightarrow> i = j) \<and>
     (\<forall>i a. map_of is i = Some a \<longrightarrow> usage_count a \<le> max_usage a)"

definition auth_ok :: "auth_db \<Rightarrow> bool" where
  "auth_ok d \<longleftrightarrow> users_ok (users d) \<and> dict_ok (sessions d) \<and> tokens_ok (api_tokens d) \<and> invitations_ok (invitations d)"

definition auth_init :: "auth_db \<Rightarrow> bool" where
  "auth_init d \<longleftrightarrow> users d = [] \<and> sessions d = [] \<and> api_tokens d = [] \<and> invitations d = []"

lemma user_by_name_iff:
  "users_ok (users d) \<Longrightarrow> user_by_name n d = Some u \<longleftrightarrow> map_of (users d) (u_id u) = Some u \<and> username u = n"
  unfolding user_by_name_def users_ok_def
  by (auto dest: find_row intro!: find_row_unique [where k = "u_id u"] dest: keyed_get) (metis option.inject)+

lemma user_by_name_none: "user_by_name n d = None \<Longrightarrow> map_of (users d) i = Some u \<Longrightarrow> username u \<noteq> n"
  using get_item [of "users d" i u] by (auto simp: user_by_name_def find_None_iff)

lemma token_by_hash_iff:
  "tokens_ok (api_tokens d) \<Longrightarrow> token_by_hash h d = Some t \<longleftrightarrow> map_of (api_tokens d) (at_id t) = Some t \<and> token_hash t = h"
  unfolding token_by_hash_def tokens_ok_def
  by (auto dest: find_row intro!: find_row_unique [where k = "at_id t"] dest: keyed_get) (metis option.inject)+

lemma token_by_hash_none: "token_by_hash h d = None \<Longrightarrow> map_of (api_tokens d) i = Some t \<Longrightarrow> token_hash t \<noteq> h"
  using get_item [of "api_tokens d" i t] by (auto simp: token_by_hash_def find_None_iff)

lemma invitation_by_token_iff:
  "invitations_ok (invitations d) \<Longrightarrow>
   invitation_by_token k d = Some i \<longleftrightarrow> map_of (invitations d) (inv_id i) = Some i \<and> inv_token i = k"
  unfolding invitation_by_token_def invitations_ok_def
  by (auto dest: find_row intro!: find_row_unique [where k = "inv_id i"] dest: keyed_get) (metis option.inject)+

lemma invitation_by_token_none:
  "invitation_by_token k d = None \<Longrightarrow> map_of (invitations d) j = Some i \<Longrightarrow> inv_token i \<noteq> k"
  using get_item [of "invitations d" j i] by (auto simp: invitation_by_token_def find_None_iff)

subsection \<open>Each table after each change\<close>

lemma users_ok_insert:
  "users_ok us \<Longrightarrow> u_id u = i \<Longrightarrow> (\<And>j b. map_of us j = Some b \<Longrightarrow> username b \<noteq> username u) \<Longrightarrow>
   users_ok (AList.update i u us)"
  by (auto simp: users_ok_def get_update split: if_splits) metis+

lemma users_ok_change:
  "users_ok us \<Longrightarrow> map_of us i = Some u \<Longrightarrow> u_id u' = u_id u \<Longrightarrow> username u' = username u \<Longrightarrow>
   users_ok (AList.update i u' us)"
  by (auto simp: users_ok_def get_update dest: keyed_get split: if_splits)

lemma users_ok_delete: "users_ok us \<Longrightarrow> users_ok (AList.delete i us)"
  by (auto simp: users_ok_def get_delete)

lemma tokens_ok_insert:
  "tokens_ok ts \<Longrightarrow> at_id t = i \<Longrightarrow> (\<And>j b. map_of ts j = Some b \<Longrightarrow> token_hash b \<noteq> token_hash t) \<Longrightarrow>
   tokens_ok (AList.update i t ts)"
  by (auto simp: tokens_ok_def get_update split: if_splits) metis+

lemma tokens_ok_touch:
  "tokens_ok ts \<Longrightarrow> map_of ts (at_id t) = Some t \<Longrightarrow> tokens_ok (AList.update (at_id t) (t\<lparr>last_used_at := x\<rparr>) ts)"
  by (auto simp: tokens_ok_def get_update split: if_splits)

lemma tokens_ok_delete: "tokens_ok ts \<Longrightarrow> tokens_ok (AList.delete i ts)"
  by (auto simp: tokens_ok_def get_delete)

lemma tokens_ok_filter: "tokens_ok ts \<Longrightarrow> tokens_ok (filter P ts)"
  unfolding tokens_ok_def
  by (auto simp: keyed_filter get_filter keyed_def split: option.splits if_splits)

lemma invitations_ok_insert:
  "invitations_ok is \<Longrightarrow> inv_id v = i \<Longrightarrow> usage_count v \<le> max_usage v \<Longrightarrow>
   (\<And>j b. map_of is j = Some b \<Longrightarrow> inv_token b \<noteq> inv_token v) \<Longrightarrow> invitations_ok (AList.update i v is)"
  by (auto simp: invitations_ok_def get_update split: if_splits) metis+

lemma invitations_ok_use:
  "invitations_ok is \<Longrightarrow> map_of is (inv_id v) = Some v \<Longrightarrow> usage_count v < max_usage v \<Longrightarrow>
   invitations_ok (AList.update (inv_id v) (v\<lparr>usage_count := usage_count v + 1\<rparr>) is)"
  by (auto simp: invitations_ok_def get_update split: if_splits)

lemma invitations_ok_delete: "invitations_ok is \<Longrightarrow> invitations_ok (AList.delete i is)"
  by (auto simp: invitations_ok_def get_delete)

lemma invitations_ok_orphan:
  "invitations_ok is \<Longrightarrow>
   invitations_ok (map (\<lambda>(k, i). (k, if created_by i = Some uid then i\<lparr>created_by := None\<rparr> else i)) is)"
  unfolding invitations_ok_def
  by (auto intro!: keyed_map_values simp: map_of_map_values split: if_splits)

lemmas table_changes =
  users_ok_insert users_ok_change users_ok_delete tokens_ok_insert tokens_ok_touch tokens_ok_delete tokens_ok_filter
  invitations_ok_insert invitations_ok_use invitations_ok_delete invitations_ok_orphan

subsection \<open>Each endpoint\<close>

lemma session_user_ok: "auth_ok d \<Longrightarrow> auth_ok (snd (session_user now cr d))"
  by (auto simp: session_user_def user_from_session_def auth_ok_def split: option.splits)

lemma bearer_user_ok: "auth_ok d \<Longrightarrow> auth_ok (snd (bearer_user h now cr d))"
  by (auto simp: bearer_user_def user_from_token_def auth_ok_def token_by_hash_iff tokens_ok_touch split: option.splits)

lemma resolve_ok: "auth_ok d \<Longrightarrow> auth_ok (snd (get_current_user_optional h cfg now cr d))"
  using session_user_ok [of d now cr] bearer_user_ok [of "snd (session_user now cr d)" h now cr]
  by (auto simp: get_current_user_optional_def split: prod.splits option.splits)

text \<open>Resolving a user deletes at most one expired session and stamps at most one token.\<close>

lemma session_user_frame [simp]:
  "users (snd (session_user now cr d)) = users d" "invitations (snd (session_user now cr d)) = invitations d"
  by (auto simp: session_user_def user_from_session_def split: option.splits)

lemma bearer_user_frame [simp]:
  "users (snd (bearer_user h now cr d)) = users d" "invitations (snd (bearer_user h now cr d)) = invitations d"
  by (auto simp: bearer_user_def user_from_token_def split: option.splits)

lemma resolve_frame [simp]:
  "users (snd (get_current_user_optional h cfg now cr d)) = users d"
  "invitations (snd (get_current_user_optional h cfg now cr d)) = invitations d"
  by (simp_all add: get_current_user_optional_def case_prod_beta split: option.splits)

lemma session_user_known: "session_user now cr d = (Some u, d') \<Longrightarrow> \<exists>i. map_of (users d) i = Some u"
  by (auto simp: session_user_def user_from_session_def split: option.splits if_splits)

lemma bearer_user_known: "bearer_user h now cr d = (Some u, d') \<Longrightarrow> \<exists>i. map_of (users d) i = Some u"
  by (auto simp: bearer_user_def user_from_token_def split: option.splits if_splits)

text \<open>Without the administrator's secret, a request speaks for an account in the table or for
  nobody.\<close>

lemma resolve_known:
  assumes "get_current_user_optional h cfg now cr d = (u, d')" "AUTH_ENABLED cfg" "\<not> check_admin_token cfg cr"
  shows "(\<exists>i. map_of (users d) i = Some u) \<or> u = anonymous_user now"
proof -
  obtain r1 d1 where s: "session_user now cr d = (r1, d1)" by fastforce
  obtain r2 d2 where b: "bearer_user h now cr d1 = (r2, d2)" by fastforce
  have "users d1 = users d" using session_user_frame(1) [of now cr d] s by simp
  with assms s b session_user_known [of now cr d] bearer_user_known [of h now cr d1] show ?thesis
    by (auto simp: get_current_user_optional_def check_admin_token_def split: option.splits if_splits)
qed

lemma create_session_ok: "auth_ok d \<Longrightarrow> auth_ok (snd (create_session cfg now sid uid d))"
  by (simp add: create_session_def auth_ok_def)

lemma create_session_frame [simp]:
  "users (snd (create_session cfg now sid uid d)) = users d"
  "invitations (snd (create_session cfg now sid uid d)) = invitations d"
  "api_tokens (snd (create_session cfg now sid uid d)) = api_tokens d"
  by (simp_all add: create_session_def)

lemma snd_bind_return [simp]: "snd (bind_st m (\<lambda>_. return_st x) d) = snd (m d)"
  by (simp add: st_defs case_prod_beta split: sum.split)

lemma login_ok: "auth_ok d \<Longrightarrow> auth_ok (snd (login cfg pw now n p sid d))"
  by (simp add: login_def create_session_ok split: option.split)

lemma logout_ok: "auth_ok d \<Longrightarrow> auth_ok (logout c d)"
  by (simp add: logout_def auth_ok_def)

text \<open>What registration writes: nothing, or the new account and the use of its invitation.\<close>

definition new_account :: "sqlite \<Rightarrow> int \<Rightarrow> register_request \<Rightarrow> string \<Rightarrow> string \<Rightarrow> auth_db \<Rightarrow> user" where
  "new_account sq now rq pw_hash r d =
     \<lparr>u_id = new_rowid sq (dict_keys (users d)), username = rq_username rq,
      display_name = Some (if nonempty (rq_display_name rq) then the (rq_display_name rq) else rq_username rq),
      password_hash = pw_hash, u_active = True, role = r, u_created_at = now\<rparr>"

definition with_account :: "int \<Rightarrow> user \<Rightarrow> invitation option \<Rightarrow> auth_db \<Rightarrow> auth_db" where
  "with_account now u invite d =
     (let d1 = d\<lparr>users := AList.update (u_id u) u (users d)\<rparr> in
      case invite of None \<Rightarrow> d1 | Some i \<Rightarrow> snd (invitation_use now i d1))"

lemma register_cases:
  assumes "register sq cfg now later rq tok ph sid d = (res, d')"
  obtains (refused) e where "res = Inl e" "d' = d"
  | (joined) r invite where "AUTH_ENABLED cfg" "registration_role cfg now tok d = Inr (r, invite)"
      "user_by_name (rq_username rq) d = None"
      "d' = snd (create_session cfg later sid (new_rowid sq (dict_keys (users d)))
                  (with_account later (new_account sq later rq ph r d) invite d))"
      "res = Inr (new_account sq later rq ph r d) \<or> res = Inl IntegrityError"
proof (cases "\<exists>r invite. register_request_ok rq \<and> AUTH_ENABLED cfg \<and>
    registration_role cfg now tok d = Inr (r, invite) \<and> user_by_name (rq_username rq) d = None")
  case True
  then obtain r invite where h: "register_request_ok rq" "AUTH_ENABLED cfg"
    "registration_role cfg now tok d = Inr (r, invite)" "user_by_name (rq_username rq) d = None" by blast
  show ?thesis
    by (rule joined [OF h(2,3,4)])
      (use assms h in \<open>auto simp: register_def with_account_def new_account_def Let_def st_defs create_session_def split: if_splits\<close>)
next
  case False
  show ?thesis
    by (rule refused [of "projl res"])
      (use assms False in \<open>auto simp: register_def split: if_splits sum.splits option.splits\<close>)
qed

lemma registration_role_cases:
  assumes "registration_role cfg now tok d = Inr (r, invite)"
  obtains (bootstrap) "ADMIN_REGISTER_SECRET cfg \<noteq> []" "tok = ADMIN_REGISTER_SECRET cfg" "r = ''admin''" "invite = None"
  | (invited) i where "invite = Some i" "invitation_by_token tok d = Some i" "invitation_valid now i" "r = inv_role i"
proof (cases "ADMIN_REGISTER_SECRET cfg \<noteq> [] \<and> tok = ADMIN_REGISTER_SECRET cfg")
  case True
  with assms bootstrap show ?thesis by (simp add: registration_role_def)
next
  case False
  show ?thesis
  proof (cases "invitation_by_token tok d")
    case None
    with assms False show ?thesis by (simp add: registration_role_def)
  next
    case (Some i)
    with assms False show ?thesis
      by (intro invited [of i]) (simp_all add: registration_role_def split: if_splits)
  qed
qed

lemma with_account_frame [simp]:
  "users (with_account now u invite d) = AList.update (u_id u) u (users d)"
  "sessions (with_account now u invite d) = sessions d" "api_tokens (with_account now u invite d) = api_tokens d"
  by (auto simp: with_account_def invitation_use_def Let_def split: option.split)

lemma with_account_invitations:
  "invitations (with_account now u invite d) =
     (case invite of None \<Rightarrow> invitations d
      | Some i \<Rightarrow> if invitation_valid now i
                then AList.update (inv_id i) (i\<lparr>usage_count := usage_count i + 1\<rparr>) (invitations d) else invitations d)"
  by (auto simp: with_account_def invitation_use_def Let_def split: option.split)

lemma register_ok:
  assumes "sqlite_ok sq" "auth_ok d"
  shows "auth_ok (snd (register sq cfg now later rq tok ph sid d))"
proof -
  obtain res d' where e: "register sq cfg now later rq tok ph sid d = (res, d')" by fastforce
  from e have "auth_ok d'"
  proof (cases rule: register_cases)
    case (joined r invite)
    let ?u = "new_account sq later rq ph r d"
    have "users_ok (AList.update (u_id ?u) ?u (users d))"
      using assms(2) user_by_name_none [OF joined(3)]
      by (intro users_ok_insert) (auto simp: auth_ok_def new_account_def)
    moreover have "invitations_ok (invitations (with_account later ?u invite d))"
      using joined(2) assms(2)
      by (cases rule: registration_role_cases)
        (auto simp: with_account_invitations auth_ok_def invitation_by_token_iff invitation_valid_def intro!: invitations_ok_use)
    ultimately have "auth_ok (with_account later ?u invite d)"
      using assms(2) by (simp add: auth_ok_def)
    with joined(4) show ?thesis by (simp add: create_session_ok)
  qed (use assms in simp)
  with e show ?thesis by simp
qed

lemma current_user_ok: "auth_ok d \<Longrightarrow> auth_ok (snd (get_current_user h cfg now cr d))"
  using resolve_ok [of d h cfg now cr] by (simp add: get_current_user_def case_prod_beta)

lemma require_role_ok: "auth_ok d \<Longrightarrow> auth_ok (snd (require_role h cfg r now cr d))"
  using resolve_ok [of d h cfg now cr] by (simp add: require_role_def case_prod_beta)

text \<open>An operation after a dependency keeps the invariant when both parts do.\<close>

lemma bind_keeps:
  assumes "P (snd (m d))" "\<And>x d'. P d' \<Longrightarrow> P (snd (f x d'))"
  shows "P (snd (bind_st m f d))"
  using assms by (auto simp: bind_st_def split: prod.splits sum.splits)

lemma create_token_ok: "sqlite_ok sq \<Longrightarrow> auth_ok d \<Longrightarrow> auth_ok (snd (create_token h sq cfg now cr nm p d))"
  unfolding create_token_def
  by (rule bind_keeps)
    (auto simp: current_user_ok, auto simp: auth_ok_def Let_def dest: token_by_hash_none intro!: tokens_ok_insert)

lemma revoke_token_ok: "auth_ok d \<Longrightarrow> auth_ok (snd (revoke_token h cfg now cr i d))"
  unfolding revoke_token_def
  by (rule bind_keeps)
    (auto simp: current_user_ok, auto simp: auth_ok_def tokens_ok_delete split: option.split)

lemma create_invitation_ok:
  assumes "sqlite_ok sq" "auth_ok d"
  shows "auth_ok (snd (create_invitation h sq cfg now cr rq tok d))"
proof -
  obtain u d' where e: "get_current_user_optional h cfg now cr d = (u, d')" by fastforce
  have "auth_ok d'" using resolve_ok [OF assms(2), of h cfg now cr] e by simp
  then show ?thesis using e assms
    by (auto simp: create_invitation_def auth_ok_def Let_def invitation_request_ok_def
          dest: invitation_by_token_none intro!: invitations_ok_insert)
qed

lemma revoke_invitation_ok: "auth_ok d \<Longrightarrow> auth_ok (snd (revoke_invitation h cfg now cr i d))"
  using resolve_ok [of d h cfg now cr]
  by (auto simp: revoke_invitation_def case_prod_beta auth_ok_def invitations_ok_delete)

lemma update_user_ok: "auth_ok d \<Longrightarrow> auth_ok (snd (update_user h cfg now cr i rq d))"
  unfolding update_user_def
  by (rule bind_keeps)
    (auto simp: require_role_ok, auto simp: auth_ok_def Let_def intro!: users_ok_change split: option.split)

lemma drop_user_ok: "auth_ok d \<Longrightarrow> auth_ok (drop_user sq uid d)"
  by (simp add: drop_user_def Let_def auth_ok_def users_ok_delete tokens_ok_filter invitations_ok_orphan)

lemma delete_user_ok: "auth_ok d \<Longrightarrow> auth_ok (snd (delete_user h sq cfg now cr i d))"
  unfolding delete_user_def
  by (rule bind_keeps) (auto simp: require_role_ok drop_user_ok split: option.split)

lemma auth_init_ok: "auth_init d \<Longrightarrow> auth_ok d"
  by (simp add: auth_init_def auth_ok_def users_ok_def tokens_ok_def invitations_ok_def)

lemmas endpoints_ok =
  login_ok logout_ok register_ok create_token_ok revoke_token_ok create_invitation_ok revoke_invitation_ok
  update_user_ok delete_user_ok resolve_ok

lemma auth_step_ok: "sqlite_ok sq \<Longrightarrow> auth_ok d \<Longrightarrow> auth_ok (auth_step h pw sq cfg e d)"
  by (cases e) (simp_all add: endpoints_ok)

interpretation au: machine auth_init "auth_step h pw sq cfg" "\<lambda>d. sqlite_ok sq \<longrightarrow> auth_ok d" for h pw sq cfg
  by unfold_locales (simp_all add: auth_init_ok auth_step_ok)

section \<open>Roles do not grow without an administrator\<close>

definition roles_within :: "string set \<Rightarrow> auth_db \<Rightarrow> bool" where
  "roles_within R d \<longleftrightarrow>
     (\<forall>i u. map_of (users d) i = Some u \<longrightarrow> role u \<in> R) \<and>
     (\<forall>i v. map_of (invitations d) i = Some v \<longrightarrow> inv_role v \<in> R)"

text \<open>The event does not carry one of the two secrets of the configuration.\<close>

fun no_secret :: "auth_config \<Rightarrow> auth_event \<Rightarrow> bool" where
  "no_secret cfg (RegisterUser now later rq tok ph sid) \<longleftrightarrow> ADMIN_REGISTER_SECRET cfg = [] \<or> tok \<noteq> ADMIN_REGISTER_SECRET cfg"
| "no_secret cfg (CreateInvitation now cr rq tok) \<longleftrightarrow> \<not> check_admin_token cfg cr"
| "no_secret cfg (UpdateUser now cr i rq) \<longleftrightarrow> \<not> check_admin_token cfg cr"
| "no_secret cfg e \<longleftrightarrow> True"

lemma get_current_user_frame [simp]:
  "users (snd (get_current_user h cfg now cr d)) = users d"
  "invitations (snd (get_current_user h cfg now cr d)) = invitations d"
  by (simp_all add: get_current_user_def case_prod_beta)

lemma require_role_frame [simp]:
  "users (snd (require_role h cfg r now cr d)) = users d"
  "invitations (snd (require_role h cfg r now cr d)) = invitations d"
  by (simp_all add: require_role_def case_prod_beta)

lemma roles_within_cong:
  "users d = users d' \<Longrightarrow> invitations d = invitations d' \<Longrightarrow> roles_within R d = roles_within R d'"
  by (simp add: roles_within_def)

lemma roles_within_frames:
  "roles_within R (snd (create_session cfg now sid uid d)) = roles_within R d"
  "roles_within R (snd (get_current_user_optional h cfg now cr d)) = roles_within R d"
  "roles_within R (snd (get_current_user h cfg now cr d)) = roles_within R d"
  "roles_within R (snd (require_role h cfg r now cr d)) = roles_within R d"
  by (rule roles_within_cong; simp)+

lemma login_roles: "roles_within R d \<Longrightarrow> roles_within R (snd (login cfg pw now n p sid d))"
  by (simp add: login_def roles_within_frames split: option.split)

lemma create_token_roles: "roles_within R d \<Longrightarrow> roles_within R (snd (create_token h sq cfg now cr nm p d))"
  unfolding create_token_def
  by (rule bind_keeps) (simp add: roles_within_frames, simp add: roles_within_def Let_def)

lemma revoke_token_roles: "roles_within R d \<Longrightarrow> roles_within R (snd (revoke_token h cfg now cr i d))"
  unfolding revoke_token_def
  by (rule bind_keeps) (simp add: roles_within_frames, simp add: roles_within_def split: option.split)

lemma register_roles:
  assumes "sqlite_ok sq" "auth_ok d" "roles_within R d" "no_secret cfg (RegisterUser now later rq tok ph sid)"
  shows "roles_within R (snd (register sq cfg now later rq tok ph sid d))"
proof -
  obtain res d' where e: "register sq cfg now later rq tok ph sid d = (res, d')" by fastforce
  from e have "roles_within R d'"
  proof (cases rule: register_cases)
    case (joined r invite)
    from joined(2) obtain i where i: "invite = Some i" "invitation_by_token tok d = Some i" "r = inv_role i"
      using assms(4) by (cases rule: registration_role_cases) auto
    with assms(2,3) have "r \<in> R" by (auto simp: auth_ok_def invitation_by_token_iff roles_within_def)
    with i assms(2,3) have "roles_within R (with_account later (new_account sq later rq ph r d) invite d)"
      by (auto simp: roles_within_def get_update with_account_invitations new_account_def split: if_splits)
    with joined(4) show ?thesis by (simp add: roles_within_frames)
  qed (use assms in simp)
  with e show ?thesis by simp
qed

lemma no_admin_resolves:
  assumes "get_current_user_optional h cfg now cr d = (u, d')" "AUTH_ENABLED cfg" "\<not> check_admin_token cfg cr"
    "roles_within R d" "''admin'' \<notin> R"
  shows "\<not> is_admin u"
  using resolve_known [OF assms(1-3)] assms(4,5)
  unfolding roles_within_def is_admin_def anonymous_user_def by fastforce

lemma create_invitation_roles:
  assumes "AUTH_ENABLED cfg" "\<not> check_admin_token cfg cr" "roles_within R d" "''admin'' \<notin> R" "''viewer'' \<in> R"
  shows "roles_within R (snd (create_invitation h sq cfg now cr rq tok d))"
proof -
  obtain u d' where e: "get_current_user_optional h cfg now cr d = (u, d')" by fastforce
  have "\<not> is_admin u" by (rule no_admin_resolves [OF e assms(1-4)])
  moreover have "roles_within R d'" using roles_within_frames(2) [of R h cfg now cr d] e assms(3) by simp
  ultimately show ?thesis using e assms(5)
    by (auto simp: create_invitation_def roles_within_def get_update Let_def)
qed

lemma revoke_invitation_roles: "roles_within R d \<Longrightarrow> roles_within R (snd (revoke_invitation h cfg now cr i d))"
  by (simp add: revoke_invitation_def case_prod_beta roles_within_frames) (simp add: roles_within_def get_delete)

text \<open>Without an administrator, the dependency of the user management endpoints refuses.\<close>

lemma require_admin_refuses:
  assumes "AUTH_ENABLED cfg" "\<not> check_admin_token cfg cr" "roles_within R d" "''admin'' \<notin> R"
  shows "\<exists>e. fst (require_role h cfg ''admin'' now cr d) = Inl e"
proof -
  obtain u d' where e: "get_current_user_optional h cfg now cr d = (u, d')" by fastforce
  have "role u \<noteq> ''admin''" using no_admin_resolves [OF e assms] by (simp add: is_admin_def)
  then have "\<not> has_role u ''admin''"
    by (auto simp: has_role_def is_at_least_def role_hierarchy_def split: option.splits)
  with e show ?thesis by (simp add: require_role_def check_role_def)
qed

lemma update_user_roles:
  assumes "AUTH_ENABLED cfg" "\<not> check_admin_token cfg cr" "roles_within R d" "''admin'' \<notin> R"
  shows "roles_within R (snd (update_user h cfg now cr i rq d))"
proof -
  obtain e d' where "require_role h cfg ''admin'' now cr d = (Inl e, d')"
    using require_admin_refuses [OF assms] by (metis prod.collapse)
  with assms(3) roles_within_frames(4) [of R h cfg "''admin''" now cr d] show ?thesis
    by (simp add: update_user_def bind_st_def)
qed

lemma delete_user_roles: "roles_within R d \<Longrightarrow> roles_within R (snd (delete_user h sq cfg now cr i d))"
  unfolding delete_user_def
  by (rule bind_keeps)
    (auto simp: roles_within_frames, auto simp: roles_within_def drop_user_def Let_def get_delete map_of_map_values
      split: option.splits if_splits)

lemma roles_step:
  assumes "sqlite_ok sq" "auth_ok d" "AUTH_ENABLED cfg" "roles_within R d" "''admin'' \<notin> R" "''viewer'' \<in> R" "no_secret cfg e"
  shows "roles_within R (auth_step h pw sq cfg e d)"
proof (cases e)
  case Logout
  with assms show ?thesis by (simp add: logout_def roles_within_def)
next
  case RegisterUser
  with assms show ?thesis by (simp add: register_roles del: no_secret.simps)
next
  case CreateInvitation
  with assms show ?thesis by (simp add: create_invitation_roles)
next
  case UpdateUser
  with assms show ?thesis by (simp add: update_user_roles)
qed (use assms in \<open>simp_all add: login_roles create_token_roles revoke_token_roles revoke_invitation_roles
       delete_user_roles roles_within_frames\<close>)

interpretation au_roles: guarded_machine auth_init "auth_step h pw sq cfg" "\<lambda>d. sqlite_ok sq \<longrightarrow> auth_ok d"
    "\<lambda>e. sqlite_ok sq \<and> AUTH_ENABLED cfg \<and> no_secret cfg e"
    "\<lambda>d. ''admin'' \<notin> R \<and> ''viewer'' \<in> R \<and> roles_within R d" for h pw sq cfg R
  by unfold_locales (auto intro: roles_step)

text \<open>C6: nobody gains a role without an administrator.  With authentication enabled, and no account
  and no open invitation with the administrator role at the start, take any
  sequence of requests (logins, registrations, invitations, tokens, user updates and deletions)
  none of which presents the administrator's secret or the bootstrap registration secret.
  Then no account and no
  invitation has, at the end, a role that none of them had at the start, except \<open>viewer\<close>: an
  operator can invite viewers only, and only an administrator can change a role.\<close>

theorem no_escalation_without_admin:
  assumes "sqlite_ok sq" "AUTH_ENABLED cfg" "auth_ok d" "''admin'' \<notin> R" "''viewer'' \<in> R" "roles_within R d"
    "list_all (no_secret cfg) es"
  shows "roles_within R (fold (auth_step h pw sq cfg) es d)"
proof -
  have "list_all (\<lambda>e. sqlite_ok sq \<and> AUTH_ENABLED cfg \<and> no_secret cfg e) es"
    using assms by (simp add: list_all_iff)
  with au_roles.run_held [of sq d R cfg es h pw] assms show ?thesis by simp
qed

definition demo_auth_cfg :: auth_config where
  "demo_auth_cfg = \<lparr>AUTH_ENABLED = True, ADMIN_SECRET = ''root'', ADMIN_REGISTER_SECRET = '''', SESSION_EXPIRE_HOURS = 720\<rparr>"

definition demo_user :: "int \<Rightarrow> string \<Rightarrow> string \<Rightarrow> user" where
  "demo_user i n r = \<lparr>u_id = i, username = n, display_name = None, password_hash = ''x'', u_active = True,
     role = r, u_created_at = 0\<rparr>"

definition demo_auth :: auth_db where
  "demo_auth = \<lparr>users = [(1, demo_user 1 ''olga'' ''operator'')],
     sessions = [(''s1'', \<lparr>s_user = 1, s_expires_at = 1000, s_created_at = 0\<rparr>)],
     api_tokens = [], invitations = [], groups = []\<rparr>"

definition by_session :: "string \<Rightarrow> credentials" where
  "by_session sid = \<lparr>admin_token = None, authorization = None, session_cookie = Some sid\<rparr>"

lemma demo_auth_ok: "auth_ok demo_auth"
  by (auto simp: auth_ok_def demo_auth_def users_ok_def tokens_ok_def invitations_ok_def keyed_def dict_ok_def demo_user_def
      split: if_splits)

lemma no_escalation_without_admin_witness:
  "roles_within {''operator'', ''viewer''}
     (fold (auth_step id (\<lambda>_ _. True) default_sqlite demo_auth_cfg)
        [CreateInvitation 10 (by_session ''s1'') \<lparr>rq_role = ''viewer'', rq_group = None, rq_max_usage = 1, rq_expires_hours = 1\<rparr> ''tok'',
         RegisterUser 20 21 \<lparr>rq_username = ''victor'', rq_password = ''12345678'', rq_display_name = None\<rparr> ''tok'' ''hash'' ''s2'']
        demo_auth)"
  by (rule no_escalation_without_admin)
    (simp_all add: demo_auth_ok demo_auth_cfg_def by_session_def check_admin_token_def nonempty_def,
     simp add: roles_within_def demo_auth_def demo_user_def)

section \<open>What an invitation admits\<close>

definition budget :: "string \<Rightarrow> auth_db \<Rightarrow> nat" where
  "budget tok d = (case invitation_by_token tok d of None \<Rightarrow> 0 | Some i \<Rightarrow> nat (max_usage i - usage_count i))"

text \<open>The accounts a request with this invitation token adds.\<close>

definition admitted ::
  "(string \<Rightarrow> string) \<Rightarrow> (string \<Rightarrow> string \<Rightarrow> bool) \<Rightarrow> sqlite \<Rightarrow> auth_config \<Rightarrow> string \<Rightarrow> auth_event \<Rightarrow> auth_db \<Rightarrow> nat" where
  "admitted h pw sq cfg tok e d =
     (case e of
        RegisterUser now later rq t ph sid \<Rightarrow>
          if t = tok then length (users (auth_step h pw sq cfg e d)) - length (users d) else 0
      | _ \<Rightarrow> 0)"

fun admissions ::
  "(string \<Rightarrow> string) \<Rightarrow> (string \<Rightarrow> string \<Rightarrow> bool) \<Rightarrow> sqlite \<Rightarrow> auth_config \<Rightarrow> string \<Rightarrow> auth_event list \<Rightarrow> auth_db \<Rightarrow> nat" where
  "admissions h pw sq cfg tok [] d = 0"
| "admissions h pw sq cfg tok (e # es) d =
     admitted h pw sq cfg tok e d + admissions h pw sq cfg tok es (auth_step h pw sq cfg e d)"

fun creates :: "string \<Rightarrow> auth_event \<Rightarrow> bool" where
  "creates tok (CreateInvitation now cr rq t) \<longleftrightarrow> t = tok"
| "creates tok e \<longleftrightarrow> False"

lemma budget_cong: "invitations d = invitations d' \<Longrightarrow> budget tok d = budget tok d'"
  by (simp add: budget_def invitation_by_token_def)

lemma budget_le:
  assumes "auth_ok d" "auth_ok d'"
    "\<And>j i. map_of (invitations d') j = Some i \<Longrightarrow> inv_token i = tok \<Longrightarrow>
       \<exists>i'. map_of (invitations d) j = Some i' \<and> inv_token i' = tok \<and> max_usage i' = max_usage i \<and> usage_count i' \<le> usage_count i"
  shows "budget tok d' \<le> budget tok d"
proof (cases "invitation_by_token tok d'")
  case (Some i)
  with assms(2) have "map_of (invitations d') (inv_id i) = Some i" "inv_token i = tok"
    by (simp_all add: auth_ok_def invitation_by_token_iff)
  from assms(3) [OF this] obtain i' where i': "map_of (invitations d) (inv_id i) = Some i'" "inv_token i' = tok"
    "max_usage i' = max_usage i" "usage_count i' \<le> usage_count i" by blast
  have "inv_id i' = inv_id i"
    using assms(1) i'(1) keyed_get [of inv_id "invitations d" "inv_id i" i'] by (simp add: auth_ok_def invitations_ok_def)
  with assms(1) i' have "invitation_by_token tok d = Some i'" by (simp add: auth_ok_def invitation_by_token_iff)
  with Some i' show ?thesis by (simp add: budget_def)
qed (simp add: budget_def)

lemma budget_delete: "auth_ok d \<Longrightarrow> auth_ok d' \<Longrightarrow> invitations d' = AList.delete i (invitations d) \<Longrightarrow> budget tok d' \<le> budget tok d"
  by (rule budget_le) (auto simp: get_delete split: if_splits)

text \<open>A registration during which its invitation expires: valid when checked, expired when used.\<close>

definition outlasts :: "string \<Rightarrow> auth_event \<Rightarrow> auth_db \<Rightarrow> bool" where
  "outlasts tok e d =
     (case e of
        RegisterUser now later rq t ph sid \<Rightarrow>
          t = tok \<and> (case invitation_by_token tok d of None \<Rightarrow> False | Some i \<Rightarrow> now \<le> inv_expires_at i \<and> inv_expires_at i < later)
      | _ \<Rightarrow> False)"

fun overrun ::
  "(string \<Rightarrow> string) \<Rightarrow> (string \<Rightarrow> string \<Rightarrow> bool) \<Rightarrow> sqlite \<Rightarrow> auth_config \<Rightarrow> string \<Rightarrow> auth_event list \<Rightarrow> auth_db \<Rightarrow> nat" where
  "overrun h pw sq cfg tok [] d = 0"
| "overrun h pw sq cfg tok (e # es) d = of_bool (outlasts tok e d) + overrun h pw sq cfg tok es (auth_step h pw sq cfg e d)"

lemma register_budget:
  assumes "sqlite_ok sq" "auth_ok d" "ADMIN_REGISTER_SECRET cfg = [] \<or> tok \<noteq> ADMIN_REGISTER_SECRET cfg"
    "e = RegisterUser now later rq t ph sid"
  shows "budget tok (auth_step h pw sq cfg e d) + admitted h pw sq cfg tok e d \<le> budget tok d + of_bool (outlasts tok e d)"
proof -
  obtain res d' where e: "register sq cfg now later rq t ph sid d = (res, d')" by fastforce
  have d': "auth_step h pw sq cfg e d = d'" using e assms(4) by simp
  have ok': "auth_ok d'" using register_ok [OF assms(1,2), of cfg now later rq t ph sid] e by simp
  from e show ?thesis
  proof (cases rule: register_cases)
    case (refused x)
    with d' assms(4) show ?thesis by (auto simp: admitted_def)
  next
    case (joined r invite)
    let ?u = "new_account sq later rq ph r d"
    let ?d1 = "with_account later ?u invite d"
    have "u_id ?u \<notin> set (dict_keys (users d))"
      using new_rowid_fresh [OF assms(1), of "dict_keys (users d)"] by (simp add: new_account_def)
    moreover have "dict_ok (users d)" using assms(2) by (simp add: auth_ok_def users_ok_def keyed_def)
    ultimately have len: "length (users d') = Suc (length (users d))"
      using joined(4) by (simp add: length_update)
    have inv: "invitations d' = invitations ?d1" using joined(4) by simp
    from joined(2) show ?thesis
    proof (cases rule: registration_role_cases)
      case bootstrap
      with inv have "invitations d' = invitations d" by (simp add: with_account_invitations)
      with bootstrap assms(3,4) d' budget_cong [of d' d tok] show ?thesis by (auto simp: admitted_def)
    next
      case (invited i)
      have i: "map_of (invitations d) (inv_id i) = Some i" "inv_token i = t"
        using invited(2) assms(2) by (simp_all add: auth_ok_def invitation_by_token_iff)
      show ?thesis
      proof (cases "invitation_valid later i")
        case False
        have same: "invitations d' = invitations d" using inv invited False by (simp add: with_account_invitations)
        have "outlasts tok e d" if "t = tok"
          using that invited(2,3) False assms(4) by (simp add: outlasts_def invitation_valid_def)
        then show ?thesis using budget_cong [OF same, of tok] len d' assms(4) by (auto simp: admitted_def)
      next
      case True
      have inv': "invitations d' = AList.update (inv_id i) (i\<lparr>usage_count := usage_count i + 1\<rparr>) (invitations d)"
        using inv invited True by (simp add: with_account_invitations)
      show ?thesis
      proof (cases "t = tok")
        case True
        have "invitation_by_token tok d' = Some (i\<lparr>usage_count := usage_count i + 1\<rparr>)"
          using ok' inv' i True by (simp add: auth_ok_def invitation_by_token_iff get_update)
        with invited True len d' assms(4) show ?thesis
          by (simp add: budget_def admitted_def invitation_valid_def) arith
      next
        case False
        have "budget tok d' \<le> budget tok d"
          by (rule budget_le [OF assms(2) ok']) (use inv' i False in \<open>auto simp: get_update split: if_splits\<close>)
        with False assms(4) d' show ?thesis by (simp add: admitted_def)
      qed
      qed
    qed
  qed
qed

lemma create_invitation_budget:
  assumes "sqlite_ok sq" "auth_ok d" "t \<noteq> tok"
  shows "budget tok (snd (create_invitation h sq cfg now cr rq t d)) \<le> budget tok d"
proof (rule budget_le [OF assms(2) create_invitation_ok [OF assms(1,2)]])
  fix j i
  assume a: "map_of (invitations (snd (create_invitation h sq cfg now cr rq t d))) j = Some i" "inv_token i = tok"
  obtain u d' where e: "get_current_user_optional h cfg now cr d = (u, d')" by fastforce
  then have "invitations d' = invitations d" using resolve_frame(2) [of h cfg now cr d] by simp
  with a e assms(3) have "map_of (invitations d) j = Some i"
    by (auto simp: create_invitation_def Let_def get_update split: if_splits)
  with a(2) show "\<exists>i'. map_of (invitations d) j = Some i' \<and> inv_token i' = tok \<and> max_usage i' = max_usage i \<and> usage_count i' \<le> usage_count i"
    by blast
qed

text \<open>Every invitation of the second table is one of the first, no less used.\<close>

definition invitations_from :: "auth_db \<Rightarrow> auth_db \<Rightarrow> bool" where
  "invitations_from d d' \<longleftrightarrow>
     (\<forall>j i. map_of (invitations d') j = Some i \<longrightarrow>
        (\<exists>i'. map_of (invitations d) j = Some i' \<and> inv_token i' = inv_token i \<and> max_usage i' = max_usage i \<and>
              usage_count i' \<le> usage_count i))"

lemma invitations_from_same: "invitations d' = invitations d \<Longrightarrow> invitations_from d d'"
  by (simp add: invitations_from_def)

lemma invitations_from_drop: "invitations_from d d' \<Longrightarrow> invitations_from d (drop_user sq uid d')"
proof -
  assume f: "invitations_from d d'"
  have "\<exists>i'. map_of (invitations d') j = Some i' \<and> inv_token i' = inv_token i \<and> max_usage i' = max_usage i \<and>
        usage_count i' = usage_count i"
    if "map_of (invitations (drop_user sq uid d')) j = Some i" for j i
    using that by (auto simp: drop_user_def Let_def map_of_map_values split: if_splits)
  with f show ?thesis unfolding invitations_from_def by metis
qed

lemma delete_user_budget:
  assumes "auth_ok d"
  shows "budget tok (snd (delete_user h sq cfg now cr uid d)) \<le> budget tok d"
proof -
  have "invitations_from d (snd (delete_user h sq cfg now cr uid d))"
    unfolding delete_user_def
    by (rule bind_keeps [where P = "invitations_from d"])
      (simp add: invitations_from_same, simp add: invitations_from_drop split: option.split)
  then show ?thesis
    by (intro budget_le [OF assms delete_user_ok [OF assms]]) (auto simp: invitations_from_def)
qed

lemma unchanged_invitations:
  "invitations (snd (login cfg pw now n p sid d)) = invitations d"
  "invitations (logout c d) = invitations d"
  "invitations (snd (create_token h sq cfg now cr nm p d)) = invitations d"
  "invitations (snd (revoke_token h cfg now cr i d)) = invitations d"
  "invitations (snd (update_user h cfg now cr i rq d)) = invitations d"
proof -
  let ?P = "\<lambda>d'. invitations d' = invitations d"
  show "?P (snd (login cfg pw now n p sid d))" by (simp add: login_def split: option.split)
  show "?P (logout c d)" by (simp add: logout_def)
  show "?P (snd (create_token h sq cfg now cr nm p d))"
    unfolding create_token_def by (rule bind_keeps [where P = ?P]) (simp_all add: Let_def)
  show "?P (snd (revoke_token h cfg now cr i d))"
    unfolding revoke_token_def by (rule bind_keeps [where P = ?P]) (simp_all split: option.split)
  show "?P (snd (update_user h cfg now cr i rq d))"
    unfolding update_user_def by (rule bind_keeps [where P = ?P]) (simp_all add: Let_def split: option.split)
qed

lemma step_budget:
  assumes "sqlite_ok sq" "auth_ok d" "ADMIN_REGISTER_SECRET cfg = [] \<or> tok \<noteq> ADMIN_REGISTER_SECRET cfg" "\<not> creates tok e"
  shows "budget tok (auth_step h pw sq cfg e d) + admitted h pw sq cfg tok e d \<le> budget tok d + of_bool (outlasts tok e d)"
proof (cases "\<exists>now later rq t ph sid. e = RegisterUser now later rq t ph sid")
  case True
  with register_budget [OF assms(1-3)] show ?thesis by blast
next
  case False
  then have "admitted h pw sq cfg tok e d = 0" by (simp add: admitted_def split: auth_event.split)
  moreover have "budget tok (auth_step h pw sq cfg e d) \<le> budget tok d"
  proof (cases e)
    case (RevokeInvitation now cr i)
    have "invitations (snd (get_current_user_optional h cfg now cr d)) = invitations d" by simp
    then have "invitations (auth_step h pw sq cfg e d) = invitations d \<or>
        invitations (auth_step h pw sq cfg e d) = AList.delete i (invitations d)"
      using RevokeInvitation by (auto simp: revoke_invitation_def case_prod_beta)
    with assms(1,2) show ?thesis
      using budget_delete [OF assms(2) auth_step_ok [OF assms(1,2)]] budget_cong [of "auth_step h pw sq cfg e d" d tok]
      by (metis order_refl)
  qed (use assms False in \<open>simp_all add: create_invitation_budget delete_user_budget budget_cong [OF unchanged_invitations(1)]
      budget_cong [OF unchanged_invitations(2)] budget_cong [OF unchanged_invitations(3)] budget_cong [OF unchanged_invitations(4)]
      budget_cong [OF unchanged_invitations(5)] budget_cong [OF resolve_frame(2)]\<close>)
  ultimately show ?thesis by simp
qed

lemma run_budget:
  "sqlite_ok sq \<Longrightarrow> auth_ok d \<Longrightarrow> ADMIN_REGISTER_SECRET cfg = [] \<or> tok \<noteq> ADMIN_REGISTER_SECRET cfg \<Longrightarrow>
   list_all (\<lambda>e. \<not> creates tok e) es \<Longrightarrow>
   budget tok (fold (auth_step h pw sq cfg) es d) + admissions h pw sq cfg tok es d \<le> budget tok d + overrun h pw sq cfg tok es d"
proof (induction es arbitrary: d)
  case (Cons e es)
  have "budget tok (auth_step h pw sq cfg e d) + admitted h pw sq cfg tok e d \<le> budget tok d + of_bool (outlasts tok e d)"
    using Cons.prems by (intro step_budget) auto
  with Cons.IH [of "auth_step h pw sq cfg e d"] Cons.prems show ?case by (simp add: auth_step_ok)
qed simp

text \<open>C11: an invitation admits at most the number of accounts it was made for.  Over any sequence
  of requests, the accounts registered with one invitation token (other than the bootstrap
  secret) are at most its remaining uses at the start, and none when no such invitation exists,
  as long as no new invitation with the same random token is made; plus one for each registration
  during whose handling the invitation expires, because the handler does not look whether its use
  was counted.\<close>

theorem invitation_admits_at_most:
  assumes "sqlite_ok sq" "auth_ok d" "ADMIN_REGISTER_SECRET cfg = [] \<or> tok \<noteq> ADMIN_REGISTER_SECRET cfg"
    "list_all (\<lambda>e. \<not> creates tok e) es"
  shows "admissions h pw sq cfg tok es d \<le>
    (case invitation_by_token tok d of None \<Rightarrow> 0 | Some i \<Rightarrow> nat (max_usage i - usage_count i)) + overrun h pw sq cfg tok es d"
  using run_budget [OF assms, of h pw] by (simp add: budget_def)

text \<open>The exception: the account exists and the invitation is as before.\<close>

theorem expired_while_registering:
  assumes "AUTH_ENABLED cfg" "register_request_ok rq" "tok \<noteq> ADMIN_REGISTER_SECRET cfg" "invitation_by_token tok d = Some i"
    and "now \<le> inv_expires_at i" "usage_count i < max_usage i" "inv_expires_at i < later"
    and "user_by_name (rq_username rq) d = None" "map_of (sessions d) sid = None"
  shows "\<exists>u d'. register sq cfg now later rq tok ph sid d = (Inr u, d') \<and> role u = inv_role i \<and>
    map_of (users d') (u_id u) = Some u \<and> invitations d' = invitations d"
  using assms
  by (simp add: register_def registration_role_def invitation_valid_def invitation_use_def Let_def st_defs create_session_def get_update)

definition demo_invited :: auth_db where
  "demo_invited = demo_auth\<lparr>invitations :=
     [(1, \<lparr>inv_id = 1, inv_token = ''tok'', inv_role = ''user'', inv_group = None, max_usage = 2, usage_count = 1,
           inv_expires_at = 1000, created_by = None, inv_created_at = 0\<rparr>)]\<rparr>"

lemma demo_invited_ok: "auth_ok demo_invited"
  using demo_auth_ok by (auto simp: auth_ok_def demo_invited_def invitations_ok_def keyed_def dict_ok_def split: if_splits)

definition join_as :: "string \<Rightarrow> string \<Rightarrow> auth_event" where
  "join_as n sid = RegisterUser 20 21 \<lparr>rq_username = n, rq_password = ''12345678'', rq_display_name = None\<rparr> ''tok'' ''hash'' sid"

lemma invitation_admits_at_most_witness:
  "admissions id (\<lambda>_ _. True) default_sqlite demo_auth_cfg ''tok'' [join_as ''ann'' ''sa'', join_as ''bob'' ''sb''] demo_invited \<le> 1"
proof -
  have "overrun id (\<lambda>_ _. True) default_sqlite demo_auth_cfg ''tok'' [join_as ''ann'' ''sa'', join_as ''bob'' ''sb''] demo_invited = 0"
    by code_simp
  then show ?thesis
    using invitation_admits_at_most [OF default_sqlite_ok demo_invited_ok, of demo_auth_cfg "''tok''"
      "[join_as ''ann'' ''sa'', join_as ''bob'' ''sb'']" id "\<lambda>_ _. True"]
    by (simp add: demo_auth_cfg_def join_as_def demo_invited_def invitation_by_token_def)
qed

section \<open>Sessions and tokens\<close>

text \<open>A login opens a session that speaks for that account.  After a successful login the
  session cookie resolves, at any later time up to the session's expiry and with no other change,
  to the very account whose name and password were given, and that account is active; after the
  expiry the cookie resolves to the anonymous user and the session is gone.\<close>

theorem login_session_resolves:
  assumes "auth_ok d" "login cfg pw_ok now n p sid d = (Inr u, d')" "sid \<noteq> []"
  shows "username u = n \<and> pw_ok p (password_hash u) \<and> u_active u \<and>
    get_current_user_optional h cfg t (by_session sid) d' =
      (if t \<le> now + hours (SESSION_EXPIRE_HOURS cfg) then (u, d')
       else (anonymous_user t, d'\<lparr>sessions := AList.delete sid (sessions d')\<rparr>))"
proof -
  from assms(2) have l: "AUTH_ENABLED cfg" "user_by_name n d = Some u" "pw_ok p (password_hash u)" "u_active u"
    and c: "create_session cfg now sid (u_id u) d = (Inr (), d')"
    by (auto simp: login_def st_defs split: if_splits option.splits prod.splits sum.splits)
  from l(2) assms(1) have u: "map_of (users d) (u_id u) = Some u" "username u = n"
    by (simp_all add: auth_ok_def user_by_name_iff)
  from c have "d' = d\<lparr>sessions := AList.update sid
      \<lparr>s_user = u_id u, s_expires_at = now + hours (SESSION_EXPIRE_HOURS cfg), s_created_at = now\<rparr> (sessions d)\<rparr>"
    by (simp add: create_session_def split: if_splits)
  with l u assms(3) show ?thesis
    by (simp add: get_current_user_optional_def session_user_def bearer_user_def extract_bearer_token_def
        user_from_session_def session_expired_def by_session_def nonempty_def get_update)
qed

lemma login_session_resolves_witness:
  "fst (get_current_user_optional id demo_auth_cfg 100 (by_session ''s9'')
     (snd (login demo_auth_cfg (=) 50 ''olga'' ''x'' ''s9'' demo_auth))) = demo_user 1 ''olga'' ''operator''"
proof -
  obtain d' where l: "login demo_auth_cfg (=) 50 ''olga'' ''x'' ''s9'' demo_auth = (Inr (demo_user 1 ''olga'' ''operator''), d')"
    by (simp add: login_def demo_auth_cfg_def demo_auth_def demo_user_def user_by_name_def st_defs create_session_def)
  show ?thesis
    using login_session_resolves [OF demo_auth_ok l, of id 100] l by (simp add: demo_auth_cfg_def hours_def)
qed

lemma fold_max_le: "(x :: int) \<le> m \<Longrightarrow> \<forall>k \<in> set ks. k \<le> m \<Longrightarrow> fold max ks x \<le> m"
  by (induction ks arbitrary: x) auto

lemma reused_rowid:
  assumes "sqlite_ok sq" "dict_ok us" "0 < uid" "\<forall>k \<in> set (dict_keys us) - {uid}. k < uid"
    "uid - 1 \<in> set (dict_keys us) \<or> uid = 1"
  shows "new_rowid sq (dict_keys (AList.delete uid us)) = uid"
proof -
  let ?ks = "dict_keys (AList.delete uid us)"
  have ks: "set ?ks = set (dict_keys us) - {uid}" by (rule keys_delete)
  have "fold max ?ks 0 \<le> uid - 1" using assms(3,4) ks by (intro fold_max_le) auto
  moreover have "uid - 1 \<le> fold max ?ks 0"
    using assms(5) ks fold_max_ge(1) [of 0 ?ks] fold_max_ge(2) [of "uid - 1" ?ks 0] by auto
  ultimately show ?thesis using assms(1) by (simp add: sqlite_ok_def)
qed

lemma drop_user_frame [simp]: "users (drop_user sq uid d) = AList.delete uid (users d)"
  by (simp add: drop_user_def Let_def)

text \<open>The token of a deleted account opens the next account.  SQLite reuses the key of the
  newest account once it is deleted, and deletes the account's tokens only if it enforces foreign
  keys.  So when the newest account is deleted and somebody registers, an API token of the deleted
  account resolves to the new account, with its role, when foreign keys are not enforced (the
  default, which the program does not change), and to nobody when they are.\<close>

theorem deleted_users_token_opens_next_account:
  assumes "sqlite_ok sq" "auth_ok d" "0 < uid"
    "\<forall>k \<in> set (dict_keys (users d)) - {uid}. k < uid" "uid - 1 \<in> set (dict_keys (users d)) \<or> uid = 1"
    "token_by_hash (h tok) d = Some t" "at_user t = uid"
    "register sq cfg now made rq invite ph sid (drop_user sq uid d) = (Inr u, d')"
  shows "u_id u = uid \<and> fst (user_from_token h later tok d') = (if enforces_fk sq then None else Some u)"
proof -
  let ?d = "drop_user sq uid d"
  have ok: "auth_ok ?d" by (rule drop_user_ok [OF assms(2)])
  have du: "dict_ok (users d)" using assms(2) by (simp add: auth_ok_def users_ok_def keyed_def)
  from assms(8) obtain r iv where u: "u = new_account sq made rq ph r ?d"
    and d': "d' = snd (create_session cfg made sid (u_id u) (with_account made u iv ?d))"
    by (cases rule: register_cases) (auto simp: new_account_def)
  have uid: "u_id u = uid"
    using reused_rowid [OF assms(1) du assms(3-5)] by (simp add: u new_account_def)
  have tk: "api_tokens d' = api_tokens ?d" using d' by simp
  have us: "map_of (users d') uid = Some u" using d' uid by (simp add: get_update)
  have "map_of (api_tokens d) (at_id t) = Some t" "token_hash t = h tok"
    using assms(2,6) by (simp_all add: auth_ok_def token_by_hash_iff)
  moreover have "dict_ok (api_tokens d)" using assms(2) by (simp add: auth_ok_def tokens_ok_def keyed_def)
  ultimately have row: "map_of (api_tokens d') (at_id t) = (if enforces_fk sq then None else Some t)"
    using assms(7) tk by (simp add: drop_user_def Let_def get_filter)
  have tok': "tokens_ok (api_tokens d')" using ok tk by (simp add: auth_ok_def)
  have active: "u_active u" by (simp add: u new_account_def)
  show ?thesis
  proof (cases "enforces_fk sq")
    case False
    with row \<open>token_hash t = h tok\<close> tok' have "token_by_hash (h tok) d' = Some t" by (simp add: token_by_hash_iff)
    with us assms(7) active False uid show ?thesis by (simp add: user_from_token_def)
  next
    case True
    have "token_by_hash (h tok) d' = None"
    proof (cases "token_by_hash (h tok) d'")
      case (Some t')
      with tok' have t': "map_of (api_tokens d') (at_id t') = Some t'" "token_hash t' = h tok" by (simp_all add: token_by_hash_iff)
      with tk True \<open>dict_ok (api_tokens d)\<close> have "map_of (api_tokens d) (at_id t') = Some t'"
        by (auto simp: drop_user_def Let_def get_filter split: option.splits if_splits)
      with t'(2) assms(2,6) have "t' = t" by (simp add: auth_ok_def) (metis token_by_hash_iff option.inject)
      with t'(1) row True show ?thesis by simp
    qed
    with True uid show ?thesis by (simp add: user_from_token_def)
  qed
qed

definition demo_two :: auth_db where
  "demo_two = demo_invited\<lparr>users := [(1, demo_user 1 ''olga'' ''operator''), (2, demo_user 2 ''dora'' ''viewer'')],
     api_tokens := [(1, \<lparr>at_id = 1, at_user = 2, token_hash = ''k'', at_name = ''ci'', last_used_at = None, at_created_at = 0\<rparr>)]\<rparr>"

lemma demo_two_ok: "auth_ok demo_two"
  using demo_invited_ok
  by (auto simp: auth_ok_def demo_two_def users_ok_def tokens_ok_def keyed_def dict_ok_def demo_user_def split: if_splits)

lemma deleted_users_token_opens_next_account_witness:
  "\<exists>u d'. register default_sqlite demo_auth_cfg 20 21 \<lparr>rq_username = ''eve'', rq_password = ''12345678'', rq_display_name = None\<rparr>
      ''tok'' ''hash'' ''se'' (drop_user default_sqlite 2 demo_two) = (Inr u, d') \<and>
    fst (user_from_token id 30 ''k'' d') = Some u \<and> username u = ''eve''"
proof -
  let ?rq = "\<lparr>rq_username = ''eve'', rq_password = ''12345678'', rq_display_name = None\<rparr>"
  obtain u d' where r: "register default_sqlite demo_auth_cfg 20 21 ?rq ''tok'' ''hash'' ''se'' (drop_user default_sqlite 2 demo_two) = (Inr u, d')"
    and n: "username u = ''eve''"
    by (simp add: register_def register_request_ok_def demo_auth_cfg_def registration_role_def drop_user_def default_sqlite_def
        demo_two_def demo_invited_def demo_auth_def demo_user_def invitation_by_token_def invitation_valid_def
        user_by_name_def invitation_use_def nonempty_def st_defs create_session_def Let_def)
  have "u_id u = 2 \<and> fst (user_from_token id 30 ''k'' d') = (if enforces_fk default_sqlite then None else Some u)"
    by (rule deleted_users_token_opens_next_account [OF default_sqlite_ok demo_two_ok _ _ _ _ _ r])
      (auto simp: demo_two_def token_by_hash_def)
  with r n show ?thesis by (simp add: default_sqlite_def)
qed

text \<open>A request without credentials passes the dependency that promises an authenticated user.
  With authentication enabled, \<open>get_current_user\<close> never answers 401: it always returns a user, the
  anonymous one for a request with no credentials; so such a request can create an API token (when
  foreign keys are not enforced), filed under the anonymous user's key \<open>-1\<close>.\<close>

theorem anonymous_passes_current_user:
  assumes "AUTH_ENABLED cfg"
  shows "(\<exists>u. fst (get_current_user h cfg now cr d) = Inr u) \<and>
    (cr = \<lparr>admin_token = None, authorization = None, session_cookie = None\<rparr> \<and> \<not> enforces_fk sq \<and>
       nm \<noteq> [] \<and> length nm \<le> 100 \<and> token_by_hash (h p) d = None \<longrightarrow>
     (\<exists>t. create_token h sq cfg now cr nm p d = (Inr t, d\<lparr>api_tokens := AList.update (at_id t) t (api_tokens d)\<rparr>) \<and>
          at_user t = -1))"
  using assms
  by (auto simp: get_current_user_def case_prod_beta create_token_def bind_st_def get_current_user_optional_def
      session_user_def bearer_user_def extract_bearer_token_def nonempty_def anonymous_user_def Let_def)

lemma anonymous_passes_current_user_witness:
  "\<exists>t. fst (create_token id default_sqlite demo_auth_cfg 5
      \<lparr>admin_token = None, authorization = None, session_cookie = None\<rparr> ''ci'' ''secret'' demo_auth) = Inr t \<and> at_user t = -1"
  using anonymous_passes_current_user [of demo_auth_cfg id 5 "\<lparr>admin_token = None, authorization = None, session_cookie = None\<rparr>"
      demo_auth default_sqlite "''ci''" "''secret''"]
  by (auto simp: demo_auth_cfg_def default_sqlite_def token_by_hash_def demo_auth_def)

lemma index_of_None: "index_of x xs = None \<longleftrightarrow> x \<notin> set xs"
  by (induction xs) auto

lemma is_at_least_trans: "is_at_least a b \<Longrightarrow> is_at_least b c \<Longrightarrow> is_at_least a c"
  by (auto simp: is_at_least_def split: option.splits)

lemma is_at_least_known: "is_at_least a b \<Longrightarrow> a \<in> set role_hierarchy"
  using index_of_None [of a role_hierarchy] by (auto simp: is_at_least_def split: option.splits)

text \<open>The role gate.  \<open>require_role r\<close> lets through exactly the users whose role is at least
  \<open>r\<close> in the hierarchy anony, viewer, user, operator, admin; it answers 401 to the anonymous user and
  403 to everybody else.  Roles are ranked by their position, so a user who passes a gate passes
  every lower one, and an unknown role passes none.\<close>

theorem role_gate:
  "(check_role r u = Inr u \<longleftrightarrow> is_at_least (role u) r) \<and>
   (\<not> is_at_least (role u) r \<longrightarrow>
      (\<exists>msg. check_role r u = Inl (HTTPException (if role u = ''anony'' then 401 else 403) msg))) \<and>
   (is_at_least (role u) r \<and> is_at_least r r' \<longrightarrow> check_role r' u = Inr u) \<and>
   (role u \<notin> set role_hierarchy \<longrightarrow> check_role r u \<noteq> Inr u)"
  using is_at_least_trans [of "role u" r r'] is_at_least_known [of "role u" r]
  by (simp add: check_role_def has_role_def)

lemma role_gate_witness:
  "check_role ''operator'' (demo_user 1 ''olga'' ''operator'') = Inr (demo_user 1 ''olga'' ''operator'') \<and>
   check_role ''viewer'' (demo_user 1 ''olga'' ''operator'') = Inr (demo_user 1 ''olga'' ''operator'') \<and>
   check_role ''admin'' (demo_user 1 ''olga'' ''operator'') \<noteq> Inr (demo_user 1 ''olga'' ''operator'')"
proof -
  let ?u = "demo_user 1 ''olga'' ''operator''"
  have "is_at_least ''operator'' ''operator''" "is_at_least ''operator'' ''viewer''" "\<not> is_at_least ''operator'' ''admin''"
    by (simp_all add: is_at_least_def role_hierarchy_def)
  with role_gate [of "''operator''" ?u "''viewer''"] role_gate [of "''admin''" ?u "''viewer''"] show ?thesis
    by (simp add: demo_user_def)
qed

end
