(* ===== verification/Docker_Naming.thy ===== *)
theory Docker_Naming
  imports Py_Strings
begin

text \<open>
  The names of containers and images (\<^verbatim>\<open>docker/naming.py\<close>): generators, parsers and labels.
  The host uses the container name of a task as the key under which it holds and releases the
  task's overlay addresses, so that the names are injective is part of the correctness of the
  address bookkeeping.
\<close>

section \<open>Prefixes and generators\<close>

definition KOHAKURIVER_PREFIX :: string where "KOHAKURIVER_PREFIX = ''kohakuriver''"
definition TASK_PREFIX :: string where "TASK_PREFIX = KOHAKURIVER_PREFIX @ ''-task''"
definition VPS_PREFIX :: string where "VPS_PREFIX = KOHAKURIVER_PREFIX @ ''-vps''"
definition ENV_PREFIX :: string where "ENV_PREFIX = KOHAKURIVER_PREFIX @ ''-env''"
definition SNAPSHOT_PREFIX :: string where "SNAPSHOT_PREFIX = KOHAKURIVER_PREFIX @ ''-snapshot''"

lemmas name_prefixes =
  KOHAKURIVER_PREFIX_def TASK_PREFIX_def VPS_PREFIX_def ENV_PREFIX_def SNAPSHOT_PREFIX_def

definition task_container_name :: "int \<Rightarrow> string" where
  "task_container_name task_id = TASK_PREFIX @ ''-'' @ str_of_int task_id"

definition vps_container_name :: "int \<Rightarrow> string" where
  "vps_container_name task_id = VPS_PREFIX @ ''-'' @ str_of_int task_id"

definition env_container_name :: "string \<Rightarrow> string" where
  "env_container_name env_name = ENV_PREFIX @ ''-'' @ env_name"

definition image_tag :: "string \<Rightarrow> string \<Rightarrow> string" where
  "image_tag env_name tag = KOHAKURIVER_PREFIX @ ''/'' @ env_name @ '':'' @ tag"

definition snapshot_image_tag :: "int \<Rightarrow> int \<Rightarrow> string" where
  "snapshot_image_tag task_id timestamp =
     SNAPSHOT_PREFIX @ ''/vps-'' @ str_of_int task_id @ '':'' @ str_of_int timestamp"

section \<open>Parsers\<close>

text \<open>\<^verbatim>\<open>s.split(c, 1)\<close> of a string that has a \<open>c\<close>.\<close>

definition split1 :: "char \<Rightarrow> string \<Rightarrow> string \<times> string" where
  "split1 c s = (takeWhile (\<lambda>x. x \<noteq> c) s, tl (dropWhile (\<lambda>x. x \<noteq> c) s))"

definition parse_snapshot_tag :: "string \<Rightarrow> (int \<times> int) option" where
  "parse_snapshot_tag tag =
     (let pre = SNAPSHOT_PREFIX @ ''/vps-'' in
      if \<not> startswith tag pre then None
      else
        let rest = drop (length pre) tag in
        if CHR '':'' \<notin> set rest then None
        else
          case split1 CHR '':'' rest of (task_id_str, timestamp_str) \<Rightarrow>
            (case int_of_str 10 task_id_str of
               None \<Rightarrow> None
             | Some i \<Rightarrow> map_option (Pair i) (int_of_str 10 timestamp_str)))"

text \<open>\<^verbatim>\<open>"/".join(parts)\<close>.\<close>

fun join_on :: "char \<Rightarrow> string list \<Rightarrow> string" where
  "join_on c [] = []"
| "join_on c [s] = s"
| "join_on c (s # t # ts) = s @ c # join_on c (t # ts)"

definition parse_image_tag :: "string \<Rightarrow> string \<times> string \<times> string" where
  "parse_image_tag full_tag =
     (let parts = split_on CHR ''/'' full_tag;
          (namespace, name_tag) =
            (case parts of
               [] \<Rightarrow> ([], [])
             | [p] \<Rightarrow> ([], p)
             | p # rest \<Rightarrow> (p, join_on CHR ''/'' rest));
          (nm, tg) = (case rsplit1 CHR '':'' name_tag of None \<Rightarrow> (name_tag, ''latest'') | Some (n, t) \<Rightarrow> (n, t))
      in (namespace, nm, tg))"

definition make_labels :: "int \<Rightarrow> string \<Rightarrow> string option \<Rightarrow> (string, string) dict" where
  "make_labels task_id task_type node =
     [(''kohakuriver.managed'', ''true''), (''kohakuriver.task_id'', str_of_int task_id),
      (''kohakuriver.task_type'', task_type)]
     @ (case node of None \<Rightarrow> [] | Some n \<Rightarrow> if n = [] then [] else [(''kohakuriver.node'', n)])"

definition is_kohakuriver_container :: "string \<Rightarrow> bool" where
  "is_kohakuriver_container nm = startswith nm KOHAKURIVER_PREFIX"

definition extract_task_id_from_name :: "string \<Rightarrow> int option" where
  "extract_task_id_from_name nm =
     (if startswith nm (TASK_PREFIX @ ''-'') then int_of_str 10 (drop (length (TASK_PREFIX @ ''-'')) nm)
      else if startswith nm (VPS_PREFIX @ ''-'') then int_of_str 10 (drop (length (VPS_PREFIX @ ''-'')) nm)
      else None)"

section \<open>Names identify tasks\<close>

lemma extract_task_name [simp]: "extract_task_id_from_name (task_container_name i) = Some i"
  by (simp add: extract_task_id_from_name_def task_container_name_def name_prefixes)

lemma extract_vps_name [simp]: "extract_task_id_from_name (vps_container_name i) = Some i"
  by (simp add: extract_task_id_from_name_def vps_container_name_def name_prefixes)

lemma container_names_inject [simp]:
  "task_container_name i = task_container_name j \<longleftrightarrow> i = j"
  "vps_container_name i = vps_container_name j \<longleftrightarrow> i = j"
  by (simp_all add: task_container_name_def vps_container_name_def)

lemma container_names_differ [simp]:
  "task_container_name i \<noteq> vps_container_name j" "vps_container_name j \<noteq> task_container_name i"
  "task_container_name i \<noteq> []" "vps_container_name j \<noteq> []"
  by (simp_all add: task_container_name_def vps_container_name_def name_prefixes)

lemma str_of_int_no_colon [simp]: "CHR '':'' \<notin> set (str_of_int i)"
  by (simp add: str_of_int_def)

lemma split1_first: "c \<notin> set s \<Longrightarrow> split1 c (s @ c # t) = (s, t)"
  by (induction s) (auto simp: split1_def)

lemma join_split [simp]: "join_on c (split_on c s) = s"
proof (induction s)
  case (Cons x xs)
  then obtain y ys where "split_on c xs = y # ys" by (cases "split_on c xs") simp_all
  with Cons show ?case by (cases ys) auto
qed simp

text \<open>Container and image names are faithful.  The name of a task's or VPS's container
  determines the task's identifier, a command task and a VPS never share a name, a snapshot tag
  gives back the task and the time it was made from, and an environment's image tag gives back
  the environment and the tag (for tags without a colon).\<close>

theorem names_roundtrip:
  assumes tag: "CHR '':'' \<notin> set tag"
  shows "extract_task_id_from_name (task_container_name i) = Some i \<and>
    extract_task_id_from_name (vps_container_name i) = Some i \<and>
    task_container_name i \<noteq> vps_container_name j \<and>
    parse_snapshot_tag (snapshot_image_tag i t) = Some (i, t) \<and>
    parse_image_tag (image_tag env tag) = (''kohakuriver'', env, tag)"
proof -
  have 1: "parse_snapshot_tag (snapshot_image_tag i t) = Some (i, t)"
    using split1_first [of "CHR '':''" "str_of_int i" "str_of_int t"]
    by (simp add: parse_snapshot_tag_def snapshot_image_tag_def name_prefixes)
  have sp: "split_on CHR ''/'' (image_tag env tag) = ''kohakuriver'' # split_on CHR ''/'' (env @ CHR '':'' # tag)"
    by (simp add: image_tag_def name_prefixes split_on_Cons [of "CHR ''/''" "''kohakuriver''", simplified])
  obtain y ys where ys: "split_on CHR ''/'' (env @ CHR '':'' # tag) = y # ys"
    by (cases "split_on CHR ''/'' (env @ CHR '':'' # tag)") simp_all
  have j: "join_on CHR ''/'' (y # ys) = env @ CHR '':'' # tag"
    unfolding ys [symmetric] by (rule join_split)
  have "parse_image_tag (image_tag env tag) = (''kohakuriver'', env, tag)"
    unfolding parse_image_tag_def sp ys using rsplit1_last [OF tag, of env] j by simp
  with 1 show ?thesis by simp
qed

lemma names_roundtrip_witness:
  "parse_image_tag (image_tag ''team/ubuntu'' ''base'') = (''kohakuriver'', ''team/ubuntu'', ''base'') \<and>
   parse_snapshot_tag (snapshot_image_tag 7 9) = Some (7, 9)"
  using names_roundtrip [of "''base''" 7 8 9 "''team/ubuntu''"] by simp

end
