(* ===== verification/Db_Models.thy ===== *)
theory Db_Models
  imports IP_Safety Auth_Model Docker_Naming
begin

text \<open>
  The task and node tables (\<^verbatim>\<open>db/task.py\<close>, \<^verbatim>\<open>db/node.py\<close>, \<^verbatim>\<open>models/enums.py\<close>) and the state of
  the host process.  A table is a dictionary keyed by its primary key, in the order of insertion;
  \<^verbatim>\<open>Model.save()\<close> writes every column of the instance in hand, which may be older than the row;
  JSON columns are the values they hold.  A status is a string, since the runners' callback
  supplies it unchecked.

  A handler that awaits an answer of a runner is split there: it leaves an \<open>await\<close> value, holding
  the instance it will go on with, in \<open>suspended\<close>, and the arrival of the reply is an event of its
  own.  Coroutines that release a task's addresses are started with \<^verbatim>\<open>create_task\<close>: their
  container names wait in \<open>releases\<close> until an event runs them.  \<open>outbox\<close> lists the requests sent to
  runners.
\<close>

section \<open>Tasks\<close>

text \<open>The columns written when the task is created and never again.\<close>

record task_spec =
  task_id :: int
  task_type :: string
  batch_id :: "int option"
  t_name :: "string option"
  t_command :: string
  t_arguments :: "string list"
  t_env_vars :: "(string, string) dict"
  required_cores :: int
  required_gpus :: "int list"
  required_memory_bytes :: "int option"
  target_numa_node_id :: "int option"
  owner_id :: "int option"
  container_name :: "string option"
  registry_image :: "string option"
  docker_image_name :: "string option"
  docker_privileged :: bool
  docker_mount_dirs :: "string list"
  vps_backend :: string
  vm_image :: "string option"
  vm_disk_size :: "string option"
  t_network_name :: "string option"
  stdout_path :: string
  stderr_path :: string
  submitted_at :: int

record task = task_spec +
  approval_status :: "string option"
  approved_by_id :: "int option"
  approved_at :: "int option"
  rejection_reason :: "string option"
  status :: string
  assigned_node :: "string option"
  assignment_suspicion_count :: int
  ssh_port :: "int option"
  vm_ip :: "string option"
  exit_code :: "int option"
  error_message :: "string option"
  started_at :: "int option"
  completed_at :: "int option"

text \<open>The states \<^verbatim>\<open>TERMINAL_TASK_STATES\<close>, which every handler repeats as a literal.\<close>

definition TERMINAL_TASK_STATES :: "string list" where
  "TERMINAL_TASK_STATES = [''completed'', ''failed'', ''killed'', ''killed_oom'', ''lost'', ''stopped'']"

definition is_pending :: "task \<Rightarrow> bool" where "is_pending t \<longleftrightarrow> status t = ''pending''"
definition is_running :: "task \<Rightarrow> bool" where "is_running t \<longleftrightarrow> status t = ''running''"
definition is_paused :: "task \<Rightarrow> bool" where "is_paused t \<longleftrightarrow> status t = ''paused''"

definition is_finished :: "task \<Rightarrow> bool" where
  "is_finished t \<longleftrightarrow> status t \<in> set TERMINAL_TASK_STATES"

definition is_vps :: "task \<Rightarrow> bool" where
  "is_vps t \<longleftrightarrow> task_type t = ''vps''"

definition mark_running :: "int \<Rightarrow> string \<Rightarrow> task \<Rightarrow> task" where
  "mark_running now hostname t = t\<lparr>status := ''running'', assigned_node := Some hostname, started_at := Some now\<rparr>"

definition mark_completed :: "int \<Rightarrow> int \<Rightarrow> task \<Rightarrow> task" where
  "mark_completed now code t = t\<lparr>status := ''completed'', exit_code := Some code, completed_at := Some now\<rparr>"

definition mark_failed :: "int \<Rightarrow> string option \<Rightarrow> int \<Rightarrow> task \<Rightarrow> task" where
  "mark_failed now msg code t =
     t\<lparr>status := ''failed'', error_message := msg, exit_code := Some code, completed_at := Some now\<rparr>"

definition mark_killed :: "int \<Rightarrow> bool \<Rightarrow> task \<Rightarrow> task" where
  "mark_killed now oom t = t\<lparr>status := (if oom then ''killed_oom'' else ''killed''), completed_at := Some now\<rparr>"

definition mark_lost :: "int \<Rightarrow> task \<Rightarrow> task" where
  "mark_lost now t = t\<lparr>status := ''lost'', completed_at := Some now\<rparr>"

definition mark_paused :: "task \<Rightarrow> task" where "mark_paused t = t\<lparr>status := ''paused''\<rparr>"
definition mark_resumed :: "task \<Rightarrow> task" where "mark_resumed t = t\<lparr>status := ''running''\<rparr>"

text \<open>The container of a task, as every handler computes it.\<close>

definition container_of :: "task \<Rightarrow> string" where
  "container_of t = (if task_type t = ''vps'' then vps_container_name (task_id t) else task_container_name (task_id t))"

section \<open>Nodes\<close>

text \<open>Of a GPU entry only the \<^verbatim>\<open>gpu_id\<close> key is read.  The measured percentages and temperatures are
  stored and shown, never computed with: they are the texts received.\<close>

record node =
  hostname :: string
  url :: string
  total_cores :: int
  memory_total_bytes :: "int option"
  n_status :: string
  last_heartbeat :: int
  cpu_percent :: "string option"
  memory_percent :: "string option"
  memory_used_bytes :: "int option"
  current_avg_temp :: "string option"
  current_max_temp :: "string option"
  numa_topology :: "(string, int list) dict option"
  gpu_info :: "int option list"
  vm_capable :: bool
  vfio_gpus :: "int option list"
  runner_version :: "string option"

text \<open>\<^verbatim>\<open>{int(k): v for k, v in data.items()}\<close>, or \<^verbatim>\<open>None\<close> when a key is not a number.\<close>

fun int_keyed :: "(string, int list) dict \<Rightarrow> (int, int list) dict \<Rightarrow> (int, int list) dict option" where
  "int_keyed [] acc = Some acc"
| "int_keyed ((k, v) # d) acc = (case int_of_str 10 k of None \<Rightarrow> None | Some i \<Rightarrow> int_keyed d (AList.update i v acc))"

definition get_numa_topology :: "node \<Rightarrow> (int, int list) dict option" where
  "get_numa_topology n = (case numa_topology n of None \<Rightarrow> None | Some d \<Rightarrow> int_keyed d [])"

definition get_gpu_info :: "node \<Rightarrow> int option list" where "get_gpu_info n = gpu_info n"
definition get_vfio_gpus :: "node \<Rightarrow> int option list" where "get_vfio_gpus n = vfio_gpus n"

definition is_online :: "node \<Rightarrow> bool" where "is_online n \<longleftrightarrow> n_status n = ''online''"
definition is_offline :: "node \<Rightarrow> bool" where "is_offline n \<longleftrightarrow> n_status n = ''offline''"
definition mark_online :: "node \<Rightarrow> node" where "mark_online n = n\<lparr>n_status := ''online''\<rparr>"
definition mark_offline :: "node \<Rightarrow> node" where "mark_offline n = n\<lparr>n_status := ''offline''\<rparr>"
definition update_heartbeat :: "int \<Rightarrow> node \<Rightarrow> node" where "update_heartbeat now n = n\<lparr>last_heartbeat := now\<rparr>"

section \<open>The host process\<close>

record host_settings =
  hs_overlay_enabled :: bool
  heartbeat_interval :: int
  heartbeat_timeout_factor :: int
  default_container :: string
  tasks_privileged :: bool
  additional_mounts :: "string list"
  shared_dir :: string

text \<open>What is sent to a runner with a task.  The SSH keys of a VPS and the image, disk and memory of a
  VM travel with it unchanged and are left out.\<close>

record dispatch =
  d_task :: task
  d_container :: "string option"
  d_registry :: "string option"
  d_ip :: "string option"
  d_network :: "string option"
  d_networks :: "string list option"
  d_ips :: "(string, string) dict option"

datatype runner_call =
    ExecuteCall string dispatch
  | VpsCall string dispatch
  | KillCall string int string
  | VpsStopCall string int
  | VmRestartCall string int
  | PauseCall string int string
  | ResumeCall string int string
  | VmDeleteCall string int bool

text \<open>What a suspended handler waits for and goes on with.  How a request to a runner ends: with a JSON object (empty or not, of which two keys are
  read), unreachable, or with an error status.\<close>

record answer =
  a_empty :: bool
  a_ssh_port :: "int option"
  a_vm_ip :: "string option"

datatype reply = Answer answer | RequestError string | HTTPStatusError int

datatype await =
    AwaitKill int
  | AwaitPause task
  | AwaitResume task
  | AwaitSubmitVps task
  | AwaitApproveVps task
  | AwaitCreateVps task
  | AwaitStopBeforeRestart task string
  | AwaitRestartVps task
  | AwaitVmDelete "task option" \<comment> \<open>the row to mark when the runner has deleted the instance\<close>
  | AwaitOverlayLock string "node list" \<comment> \<open>the monitor: the node in hand and the dead ones still to come\<close>

record 'k host =
  tasks :: "(int, task) dict"
  nodes :: "(string, node) dict"
  releases :: "string list"
  suspended :: "await list"
  outbox :: "runner_call list"
  overlay :: "multi_manager option"
  ip_manager :: "ipr_state option"
  kernel :: 'k

definition get_task :: "int \<Rightarrow> 'k host \<Rightarrow> task option" where
  "get_task i h = map_of (tasks h) i"

definition get_node :: "string \<Rightarrow> 'k host \<Rightarrow> node option" where
  "get_node n h = map_of (nodes h) n"

text \<open>\<^verbatim>\<open>UPDATE ... WHERE task_id = ?\<close>: all columns, no effect when the row is missing.\<close>

definition save_task :: "task \<Rightarrow> 'k host \<Rightarrow> 'k host" where
  "save_task t h =
     (if task_id t \<in> set (dict_keys (tasks h)) then h\<lparr>tasks := AList.update (task_id t) t (tasks h)\<rparr> else h)"

definition save_node :: "node \<Rightarrow> 'k host \<Rightarrow> 'k host" where
  "save_node n h =
     (if hostname n \<in> set (dict_keys (nodes h)) then h\<lparr>nodes := AList.update (hostname n) n (nodes h)\<rparr> else h)"

definition select_tasks :: "(task \<Rightarrow> bool) \<Rightarrow> 'k host \<Rightarrow> task list" where
  "select_tasks P h = filter P (dict_values (tasks h))"

definition select_nodes :: "(node \<Rightarrow> bool) \<Rightarrow> 'k host \<Rightarrow> node list" where
  "select_nodes P h = filter P (dict_values (nodes h))"

definition send_call :: "runner_call \<Rightarrow> 'k host \<Rightarrow> 'k host" where
  "send_call c h = h\<lparr>outbox := outbox h @ [c]\<rparr>"

definition suspend :: "await \<Rightarrow> 'k host \<Rightarrow> 'k host" where
  "suspend a h = h\<lparr>suspended := suspended h @ [a]\<rparr>"

text \<open>\<^verbatim>\<open>get_overlay_manager()\<close> and \<^verbatim>\<open>get_ip_reservation_manager()\<close>.\<close>

definition get_overlay_manager :: "host_settings \<Rightarrow> 'k host \<Rightarrow> multi_manager option" where
  "get_overlay_manager cfg h = (if \<not> hs_overlay_enabled cfg then None else overlay h)"

definition get_ip_reservation_manager :: "host_settings \<Rightarrow> 'k host \<Rightarrow> ipr_state option" where
  "get_ip_reservation_manager cfg h = (if \<not> hs_overlay_enabled cfg then None else ip_manager h)"

end
