(* ===== verification/Node_Manager.thy ===== *)
theory Node_Manager
  imports Db_Models
begin

text \<open>
  Resource accounting and node selection (\<^verbatim>\<open>host/services/node_manager.py\<close>): what is left of a
  node's cores, GPUs and memory, the choice of a node for a task, a VPS or a VM, and the status
  listing.  Everything is computed from the task and node tables.
\<close>

section \<open>What is left of a node\<close>

text \<open>The tasks that count against a node: \<^verbatim>\<open>status.in_(["running", "assigning"])\<close>.\<close>

definition occupies :: "string \<Rightarrow> task \<Rightarrow> bool" where
  "occupies n t \<longleftrightarrow> assigned_node t = Some n \<and> status t \<in> {''running'', ''assigning''}"

definition used_cores :: "string \<Rightarrow> 'k host \<Rightarrow> int" where
  "used_cores n h = sum_list (map required_cores (select_tasks (occupies n) h))"

definition get_node_available_cores :: "node \<Rightarrow> 'k host \<Rightarrow> int" where
  "get_node_available_cores n h = total_cores n - used_cores (hostname n) h"

definition zero_if_none :: "int option \<Rightarrow> int" where
  "zero_if_none x = (case x of None \<Rightarrow> 0 | Some i \<Rightarrow> i)"

definition all_gpu_ids :: "node \<Rightarrow> int list" where
  "all_gpu_ids n = map (\<lambda>(i, g). case g of None \<Rightarrow> int i | Some k \<Rightarrow> k) (enumerate 0 (get_gpu_info n))"

definition get_node_available_gpus :: "node \<Rightarrow> 'k host \<Rightarrow> int list" where
  "get_node_available_gpus n h =
     (let used_gpus = concat (map required_gpus (select_tasks (occupies (hostname n)) h))
      in filter (\<lambda>g. g \<notin> set used_gpus) (remdups (all_gpu_ids n)))"

definition get_node_available_memory :: "node \<Rightarrow> 'k host \<Rightarrow> int" where
  "get_node_available_memory n h =
     (let reserved = sum_list (map (\<lambda>t. zero_if_none (required_memory_bytes t)) (select_tasks (occupies (hostname n)) h));
          currently_used = zero_if_none (memory_used_bytes n);
          total = zero_if_none (memory_total_bytes n)
      in max 0 (total - max reserved currently_used))"

section \<open>Node selection\<close>

definition truthy_int :: "int option \<Rightarrow> bool" where
  "truthy_int x \<longleftrightarrow> x \<noteq> None \<and> x \<noteq> Some 0"

text \<open>The NUMA check asks the topology, a dictionary with integer keys, for the key
  \<^verbatim>\<open>"numa_nodes"\<close>; a node without a topology has no \<^verbatim>\<open>get\<close>.\<close>

definition node_meets_requirements ::
  "node \<Rightarrow> int \<Rightarrow> int list \<Rightarrow> int option \<Rightarrow> int option \<Rightarrow> 'k host \<Rightarrow> bool res" where
  "node_meets_requirements n cores gpus mem numa h =
     (if get_node_available_cores n h < cores then Inr False
      else if gpus \<noteq> [] \<and> \<not> list_all (\<lambda>g. g \<in> set (get_node_available_gpus n h)) gpus then Inr False
      else if truthy_int mem \<and> get_node_available_memory n h < the mem then Inr False
      else if numa = None then Inr True
      else
        (case get_numa_topology n of
           None \<Rightarrow> Inl (AttributeError ''NoneType object has no attribute get'')
         | Some topology \<Rightarrow> Inr False))"

text \<open>\<^verbatim>\<open>for node in nodes: if not _node_meets_requirements(...): continue; ...append((node, cores))\<close>\<close>

fun suitable_nodes ::
  "int \<Rightarrow> int list \<Rightarrow> int option \<Rightarrow> int option \<Rightarrow> 'k host \<Rightarrow> node list \<Rightarrow> (node \<times> int) list res" where
  "suitable_nodes cores gpus mem numa h [] = Inr []"
| "suitable_nodes cores gpus mem numa h (n # ns) =
     bind_res (node_meets_requirements n cores gpus mem numa h) (\<lambda>ok.
     bind_res (suitable_nodes cores gpus mem numa h ns) (\<lambda>rest.
       Inr (if ok then (n, get_node_available_cores n h) # rest else rest)))"

text \<open>\<^verbatim>\<open>sort(key=..., reverse=True)\<close> keeps the order of equal keys, as the ascending sort of the
  negated key does.\<close>

definition most_free :: "(node \<times> int) list \<Rightarrow> node option" where
  "most_free xs = (case sort_key (\<lambda>x. - snd x) xs of [] \<Rightarrow> None | x # _ \<Rightarrow> Some (fst x))"

definition find_suitable_node ::
  "int \<Rightarrow> int list \<Rightarrow> int option \<Rightarrow> string option \<Rightarrow> int option \<Rightarrow> 'k host \<Rightarrow> node option res" where
  "find_suitable_node cores gpus mem target numa h =
     (let candidates = select_nodes (\<lambda>n. is_online n \<and> (truthy target \<longrightarrow> Some (hostname n) = target)) h
      in bind_res (suitable_nodes cores gpus mem numa h candidates) (\<lambda>xs. Inr (most_free xs)))"

subsection \<open>Nodes for virtual machines\<close>

datatype rejection = FewCores string int int | LittleMemory string | MissingGpus string "int list"

datatype vm_reason =
    NodeNotFound string
  | NodeNotOnline string string
  | NodeNotVmCapable string
  | NoVmNodes
  | AllRejected "rejection list"
  | NoReason

definition vm_candidate_checks :: "node \<Rightarrow> int \<Rightarrow> int list \<Rightarrow> int option \<Rightarrow> 'k host \<Rightarrow> rejection option res" where
  "vm_candidate_checks n cores gpus mem h =
     (if get_node_available_cores n h < cores
      then Inr (Some (FewCores (hostname n) (get_node_available_cores n h) cores))
      else if truthy_int mem \<and> get_node_available_memory n h < the mem then Inr (Some (LittleMemory (hostname n)))
      else if gpus = [] then Inr None
      else
        let vfio_ids = remdups (get_vfio_gpus n);
            available_vfio = filter (\<lambda>g. Some g \<in> set vfio_ids) (get_node_available_gpus n h);
            missing = filter (\<lambda>g. g \<notin> set available_vfio) gpus
        in if missing = [] then Inr None
           else if None \<in> set vfio_ids \<and> 1 < length vfio_ids
           then Inl (TypeError ''< not supported between instances of NoneType and int'')
           else Inr (Some (MissingGpus (hostname n) missing)))"

fun vm_suitable_nodes ::
  "int \<Rightarrow> int list \<Rightarrow> int option \<Rightarrow> 'k host \<Rightarrow> node list \<Rightarrow> ((node \<times> int) list \<times> rejection list) res" where
  "vm_suitable_nodes cores gpus mem h [] = Inr ([], [])"
| "vm_suitable_nodes cores gpus mem h (n # ns) =
     bind_res (vm_candidate_checks n cores gpus mem h) (\<lambda>r.
     bind_res (vm_suitable_nodes cores gpus mem h ns) (\<lambda>(xs, rs).
       Inr (case r of None \<Rightarrow> ((n, get_node_available_cores n h) # xs, rs) | Some x \<Rightarrow> (xs, x # rs))))"

definition find_suitable_node_for_vm ::
  "int \<Rightarrow> int list \<Rightarrow> int option \<Rightarrow> string option \<Rightarrow> 'k host \<Rightarrow> (node option \<times> vm_reason) res" where
  "find_suitable_node_for_vm cores gpus mem target h =
     (let candidates = select_nodes (\<lambda>n. is_online n \<and> vm_capable n \<and> (truthy target \<longrightarrow> Some (hostname n) = target)) h
      in if candidates = []
         then Inr (None,
                (if truthy target
                 then (case get_node (the target) h of
                         None \<Rightarrow> NodeNotFound (the target)
                       | Some n \<Rightarrow> if n_status n \<noteq> ''online'' then NodeNotOnline (the target) (n_status n)
                                  else NodeNotVmCapable (the target))
                 else NoVmNodes))
         else
           bind_res (vm_suitable_nodes cores gpus mem h candidates) (\<lambda>(xs, rs).
             Inr (case most_free xs of None \<Rightarrow> (None, AllRejected rs) | Some n \<Rightarrow> (Some n, NoReason))))"

section \<open>Status listing\<close>

text \<open>The sum of each group of the query, and the test of the loop over them, which leaves the group of
  the empty name out.\<close>

definition calculate_cores_in_use :: "node list \<Rightarrow> 'k host \<Rightarrow> (string, int) dict" where
  "calculate_cores_in_use ns h =
     (let online_hostnames = map hostname (filter is_online ns)
      in if online_hostnames = [] then []
         else fold (\<lambda>t d.
                  if truthy (assigned_node t)
                  then let n = the (assigned_node t) in AList.update n (zero_if_none (map_of d n) + required_cores t) d
                  else d)
                (select_tasks (\<lambda>t. status t \<in> {''running'', ''assigning''} \<and> assigned_node t \<in> Some ` set online_hostnames) h) [])"

record node_status =
  ns_node :: node
  ns_cores_in_use :: "int option" \<comment> \<open>\<open>None\<close> is \<^verbatim>\<open>"N/A"\<close>\<close>
  ns_available :: int
  ns_numa :: "(int, int list) dict option"

definition build_node_status :: "node \<Rightarrow> (string, int) dict \<Rightarrow> node_status" where
  "build_node_status n cores_in_use =
     (if is_online n
      then let used = zero_if_none (map_of cores_in_use (hostname n))
           in \<lparr>ns_node = n, ns_cores_in_use = Some used, ns_available = total_cores n - used, ns_numa = get_numa_topology n\<rparr>
      else \<lparr>ns_node = n, ns_cores_in_use = None, ns_available = 0, ns_numa = get_numa_topology n\<rparr>)"

definition get_all_nodes_status :: "'k host \<Rightarrow> node_status list" where
  "get_all_nodes_status h =
     (let ns = dict_values (nodes h) in map (\<lambda>n. build_node_status n (calculate_cores_in_use ns h)) ns)"

end
