(* ===== verification/Task_Scheduler.thy ===== *)
theory Task_Scheduler
  imports Node_Manager
begin

text \<open>
  Status updates and their consequences (\<^verbatim>\<open>host/services/task_scheduler.py\<close>): the runner's
  callback, the kill mark, and the release of a task's addresses, which is scheduled when a task
  reaches a terminal state and run later.
\<close>

section \<open>Releasing addresses\<close>

text \<open>\<^verbatim>\<open>loop.create_task(release_task_ips(task))\<close>.\<close>

definition schedule_ip_release :: "task \<Rightarrow> 'k host \<Rightarrow> 'k host" where
  "schedule_ip_release t h = h\<lparr>releases := releases h @ [container_of t]\<rparr>"

text \<open>The body of \<^verbatim>\<open>release_task_ips\<close> for the container name it computes.\<close>

definition release_task_ips :: "host_settings \<Rightarrow> string \<Rightarrow> 'k host \<Rightarrow> 'k host" where
  "release_task_ips cfg c h =
     (case get_ip_reservation_manager cfg h of
        None \<Rightarrow> h
      | Some m \<Rightarrow> h\<lparr>ip_manager := Some (snd (release_by_container c m))\<rparr>)"

definition remove_nth :: "nat \<Rightarrow> 'a list \<Rightarrow> 'a list" where
  "remove_nth i xs = take i xs @ drop (Suc i) xs"

text \<open>The event loop runs one of the scheduled coroutines.\<close>

definition run_release :: "host_settings \<Rightarrow> nat \<Rightarrow> 'k host \<Rightarrow> 'k host" where
  "run_release cfg i h =
     (if i < length (releases h)
      then release_task_ips cfg (releases h ! i) (h\<lparr>releases := remove_nth i (releases h)\<rparr>)
      else h)"

section \<open>Marks\<close>

definition mark_task_killed :: "int \<Rightarrow> string \<Rightarrow> task \<Rightarrow> 'k host \<Rightarrow> 'k host" where
  "mark_task_killed now message t h =
     schedule_ip_release t
       (save_task (t\<lparr>status := ''killed'', error_message := Some message, completed_at := Some now\<rparr>) h)"

text \<open>\<^verbatim>\<open>_update_task_error_message\<close>, after a kill request that found the runner unreachable.\<close>

definition update_task_error_message :: "int \<Rightarrow> string \<Rightarrow> 'k host \<Rightarrow> 'k host" where
  "update_task_error_message i extra h =
     (case get_task i h of
        None \<Rightarrow> h
      | Some t \<Rightarrow>
          if status t = ''killed''
          then save_task (t\<lparr>error_message :=
                 Some ((case error_message t of None \<Rightarrow> '''' | Some m \<Rightarrow> m) @ '' | '' @ extra)\<rparr>) h
          else h)"

definition finish_kill :: "int \<Rightarrow> reply \<Rightarrow> 'k host \<Rightarrow> 'k host" where
  "finish_kill i r h =
     (case r of RequestError e \<Rightarrow> update_task_error_message i (''Runner unreachable: '' @ e) h | _ \<Rightarrow> h)"

section \<open>The runner's status callback\<close>

record status_update =
  su_status :: string
  su_exit_code :: "int option"
  su_message :: "string option"
  su_started_at :: "int option"
  su_completed_at :: "int option"
  su_ssh_port :: "int option"

definition validate_status_transition :: "task \<Rightarrow> string \<Rightarrow> bool" where
  "validate_status_transition t new_status =
     (if \<not> is_finished t then True
      else if new_status \<in> set TERMINAL_TASK_STATES then True
      else if task_type t = ''vps'' \<and> status t = ''lost'' \<and> new_status = ''running'' then True
      else False)"

definition apply_task_updates :: "int \<Rightarrow> status_update \<Rightarrow> bool \<Rightarrow> task \<Rightarrow> task" where
  "apply_task_updates now u is_recovering t =
     t\<lparr>status := su_status u, exit_code := su_exit_code u, error_message := su_message u,
       started_at := (if su_started_at u \<noteq> None \<and> started_at t = None then su_started_at u else started_at t),
       completed_at :=
         (if is_recovering then None
          else if su_completed_at u \<noteq> None then su_completed_at u
          else if su_status u \<in> set TERMINAL_TASK_STATES \<and> completed_at t = None then Some now
          else completed_at t),
       ssh_port := (if su_ssh_port u \<noteq> None then su_ssh_port u else ssh_port t),
       assignment_suspicion_count := (if assignment_suspicion_count t > 0 then 0 else assignment_suspicion_count t)\<rparr>"

definition update_task_status :: "int \<Rightarrow> int \<Rightarrow> status_update \<Rightarrow> 'k host \<Rightarrow> bool \<times> 'k host" where
  "update_task_status now i u h =
     (case get_task i h of
        None \<Rightarrow> (False, h)
      | Some t \<Rightarrow>
          if \<not> validate_status_transition t (su_status u) then (False, h)
          else
            let is_recovering = (status t = ''lost'' \<and> su_status u = ''running'');
                t' = apply_task_updates now u is_recovering t;
                h1 = save_task t' h
            in (True, if su_status u \<in> set TERMINAL_TASK_STATES then schedule_ip_release t' h1 else h1))"

section \<open>Dispatch\<close>

definition send_task_to_runner :: "string \<Rightarrow> dispatch \<Rightarrow> 'k host \<Rightarrow> 'k host" where
  "send_task_to_runner runner_url d h = send_call (ExecuteCall runner_url d) h"

text \<open>\<^verbatim>\<open>send_vps_task_to_runner\<close> after its request: the instance with the port the runner chose, and
  whether the runner accepted.\<close>

definition vps_task_sent :: "task \<Rightarrow> reply \<Rightarrow> 'k host \<Rightarrow> bool \<times> task \<times> 'k host" where
  "vps_task_sent t r h =
     (case r of
        Answer a \<Rightarrow>
          if truthy_int (a_ssh_port a)
          then (let t' = t\<lparr>ssh_port := a_ssh_port a\<rparr> in (True, t', save_task t' h))
          else (True, t, h)
      | _ \<Rightarrow> (False, t, h))"

end
