(* ===== verification/Runner_Monitor.thy ===== *)
theory Runner_Monitor
  imports Task_Scheduler
begin

text \<open>
  The background pass over the tables (\<^verbatim>\<open>host/background/runner_monitor.py\<close>): nodes that missed
  their heartbeats go offline and their tasks are lost; pending tasks that nobody will run fail.
  With an overlay, the pass awaits the overlay manager's lock after every dead node, and an
  allocation holds that lock while it waits for a thread: other events may come between two dead
  nodes, and the pass goes on with the node instances it selected at its start.  So the pass is
  split there.  The values of \<^verbatim>\<open>datetime.now()\<close> within one such part are one argument.
\<close>

definition seconds :: "int \<Rightarrow> int" where
  "seconds s = s * 1000000"

definition find_dead_nodes :: "host_settings \<Rightarrow> int \<Rightarrow> 'k host \<Rightarrow> node list" where
  "find_dead_nodes cfg now h =
     (let timeout_threshold = now - seconds (heartbeat_interval cfg * heartbeat_timeout_factor cfg)
      in select_nodes (\<lambda>n. is_online n \<and> last_heartbeat n < timeout_threshold) h)"

definition mark_node_offline :: "node \<Rightarrow> 'k host \<Rightarrow> 'k host" where
  "mark_node_offline n h = save_node (n\<lparr>n_status := ''offline''\<rparr>) h"

text \<open>The mark every branch below gives a task, and what follows it.\<close>

definition end_task :: "string \<Rightarrow> string \<Rightarrow> int \<Rightarrow> int \<Rightarrow> task \<Rightarrow> 'k host \<Rightarrow> 'k host" where
  "end_task st msg code now t h =
     (let t' = t\<lparr>status := st, error_message := Some msg, completed_at := Some now, exit_code := Some code\<rparr>
      in schedule_ip_release t' (save_task t' h))"

definition mark_node_tasks_lost :: "int \<Rightarrow> node \<Rightarrow> 'k host \<Rightarrow> 'k host" where
  "mark_node_tasks_lost now n h =
     fold (end_task ''lost'' (''Node '' @ hostname n @ '' went offline (heartbeat timeout)'') (-1) now)
       (select_tasks (\<lambda>t. assigned_node t = Some (hostname n) \<and> status t \<in> {''running'', ''assigning'', ''pending''}) h) h"

definition mark_overlay_inactive :: "host_settings \<Rightarrow> string \<Rightarrow> 'k host \<Rightarrow> 'k host" where
  "mark_overlay_inactive cfg n h =
     (case get_overlay_manager cfg h of
        None \<Rightarrow> h
      | Some ms \<Rightarrow> h\<lparr>overlay := Some (multi_mark_runner_inactive n ms)\<rparr>)"

text \<open>The body of the loop up to its await.\<close>

definition handle_dead_node :: "int \<Rightarrow> node \<Rightarrow> 'k host \<Rightarrow> 'k host" where
  "handle_dead_node now n h = mark_node_tasks_lost now n (mark_node_offline n h)"

definition cleanup_orphaned_pending_tasks :: "int \<Rightarrow> 'k host \<Rightarrow> 'k host" where
  "cleanup_orphaned_pending_tasks now h =
     (let offline_nodes = map hostname (select_nodes is_offline h);
          h1 = fold (\<lambda>t. end_task ''failed'' (''Assigned node '' @ the (assigned_node t) @ '' is offline. Task cannot be scheduled.'') (-1) now t)
                 (select_tasks (\<lambda>t. is_pending t \<and> assigned_node t \<in> Some ` set offline_nodes) h) h
      in fold (end_task ''failed'' ''Task pending for over 30 minutes without assignment. No suitable runner was available.'' (-1) now)
           (select_tasks (\<lambda>t. is_pending t \<and> assigned_node t = None \<and> submitted_at t < now - seconds (30 * 60)) h1) h1)"

text \<open>The loop over the dead nodes; without an overlay manager there is nothing to wait for.\<close>

fun monitor_nodes :: "host_settings \<Rightarrow> int \<Rightarrow> node list \<Rightarrow> 'k host \<Rightarrow> 'k host" where
  "monitor_nodes cfg now [] h = cleanup_orphaned_pending_tasks now h"
| "monitor_nodes cfg now (n # ns) h =
     (let h1 = handle_dead_node now n h
      in if get_overlay_manager cfg h1 = None then monitor_nodes cfg now ns h1
         else suspend (AwaitOverlayLock (hostname n) ns) h1)"

text \<open>The monitor is one coroutine: no new pass starts before the last one has ended.\<close>

fun is_monitor :: "await \<Rightarrow> bool" where
  "is_monitor (AwaitOverlayLock x ns) \<longleftrightarrow> True"
| "is_monitor a \<longleftrightarrow> False"

definition check_dead_runners :: "host_settings \<Rightarrow> int \<Rightarrow> 'k host \<Rightarrow> 'k host" where
  "check_dead_runners cfg now h =
     (if list_ex is_monitor (suspended h) then h
      else monitor_nodes cfg now (find_dead_nodes cfg now h) h)"

text \<open>After the lock.\<close>

definition finish_mark_inactive :: "host_settings \<Rightarrow> int \<Rightarrow> string \<Rightarrow> node list \<Rightarrow> 'k host \<Rightarrow> 'k host" where
  "finish_mark_inactive cfg now x ns h = monitor_nodes cfg now ns (mark_overlay_inactive cfg x h)"

end
