(* ===== verification/Node_Heartbeat.thy ===== *)
theory Node_Heartbeat
  imports Runner_Monitor
begin

text \<open>
  Registration and heartbeats of runners (\<^verbatim>\<open>host/endpoints/nodes.py\<close>), with the reconciliation of
  the task table against what the runner reports and the upkeep of its overlay allocation.
\<close>

section \<open>Registration\<close>

record register_node_request =
  rn_hostname :: string
  rn_url :: string
  rn_total_cores :: int
  rn_numa :: "(string, int list) dict option"
  rn_gpu_info :: "int option list option"

text \<open>\<^verbatim>\<open>urlparse(url).hostname or "127.0.0.1"\<close>: \<open>url_host\<close> is \<^verbatim>\<open>urlparse(...).hostname\<close>.\<close>

definition extract_ip_from_url :: "(string \<Rightarrow> string option) \<Rightarrow> string \<Rightarrow> string" where
  "extract_ip_from_url url_host u = (case url_host u of None \<Rightarrow> ''127.0.0.1'' | Some s \<Rightarrow> if s = [] then ''127.0.0.1'' else s)"

record overlay_net_info =
  oi_name :: string
  oi_runner_id :: int
  oi_subnet :: string
  oi_gateway :: string
  oi_host_ip :: string
  oi_network_cidr :: string
  oi_host_ip_on_subnet :: string
  oi_masquerade :: bool
  oi_vxlan_id_base :: int
  oi_vxlan_port :: int
  oi_mtu :: int

definition overlay_info_for :: "overlay_manager \<Rightarrow> string \<Rightarrow> overlay_allocation \<Rightarrow> overlay_net_info res" where
  "overlay_info_for m nm a =
     bind_res (get_host_ip_on_runner_subnet (subnet_config m) (runner_id a)) (\<lambda>hs.
       Inr \<lparr>oi_name = nm, oi_runner_id = runner_id a, oi_subnet = subnet a, oi_gateway = gateway a,
            oi_host_ip = host_ip m, oi_network_cidr = get_overlay_network_cidr (subnet_config m),
            oi_host_ip_on_subnet = hs, oi_masquerade = masquerade m, oi_vxlan_id_base = base_vxlan_id m,
            oi_vxlan_port = vxlan_port m, oi_mtu = mtu m\<rparr>)"

text \<open>\<open>None\<close> is the answer without overlay information, also when an exception was caught.\<close>

definition allocate_overlay_for_runner ::
  "'k netlink \<Rightarrow> (string \<Rightarrow> string option) \<Rightarrow> host_settings \<Rightarrow> int \<Rightarrow> string \<Rightarrow> string \<Rightarrow> 'k host
   \<Rightarrow> overlay_net_info list option \<times> 'k host" where
  "allocate_overlay_for_runner nl url_host cfg now n u h =
     (case get_overlay_manager cfg h of
        None \<Rightarrow> (None, h)
      | Some ms \<Rightarrow>
          (case multi_allocate_for_runner nl now n (extract_ip_from_url url_host u) ms (kernel h) of
             (allocs, ms', k) \<Rightarrow>
               let h' = h\<lparr>overlay := Some ms', kernel := k\<rparr>;
                   known = filter (\<lambda>(nm, a). get_manager ms' nm \<noteq> None) allocs
               in (case map_res (\<lambda>(nm, a). overlay_info_for (the (get_manager ms' nm)) nm a) known of
                     Inl e \<Rightarrow> (None, h')
                   | Inr infos \<Rightarrow> (if infos = [] then None else Some infos, h'))))"

definition register_node ::
  "'k netlink \<Rightarrow> (string \<Rightarrow> string option) \<Rightarrow> host_settings \<Rightarrow> int \<Rightarrow> register_node_request \<Rightarrow> 'k host
   \<Rightarrow> (bool \<times> overlay_net_info list option) \<times> 'k host" where
  "register_node nl url_host cfg now rq h =
     (let numa_given = (case rn_numa rq of None \<Rightarrow> False | Some d \<Rightarrow> d \<noteq> []);
          gpus_given = (case rn_gpu_info rq of None \<Rightarrow> False | Some g \<Rightarrow> g \<noteq> []);
          (created, h1) =
            (case get_node (rn_hostname rq) h of
               None \<Rightarrow>
                 (True, h\<lparr>nodes := AList.update (rn_hostname rq)
                    \<lparr>hostname = rn_hostname rq, url = rn_url rq, total_cores = rn_total_cores rq, memory_total_bytes = None,
                     n_status = ''online'', last_heartbeat = now, cpu_percent = None, memory_percent = None,
                     memory_used_bytes = None, current_avg_temp = None, current_max_temp = None,
                     numa_topology = Some (if numa_given then the (rn_numa rq) else []),
                     gpu_info = (if gpus_given then the (rn_gpu_info rq) else []),
                     vm_capable = False, vfio_gpus = [], runner_version = None\<rparr> (nodes h)\<rparr>)
             | Some n \<Rightarrow>
                 (False, save_node (n\<lparr>url := rn_url rq, total_cores := rn_total_cores rq, n_status := ''online'',
                    last_heartbeat := now,
                    numa_topology := (if numa_given then rn_numa rq else numa_topology n),
                    gpu_info := (if gpus_given then the (rn_gpu_info rq) else gpu_info n)\<rparr>) h));
          (info, h2) = (if hs_overlay_enabled cfg
                        then allocate_overlay_for_runner nl url_host cfg now (rn_hostname rq) (rn_url rq) h1
                        else (None, h1))
      in ((created, info), h2))"

section \<open>Heartbeats\<close>

record heartbeat_request =
  hb_running :: "int list"
  hb_killed :: "(int \<times> string) list" \<comment> \<open>task id and reason\<close>
  hb_cpu_percent :: "string option"
  hb_memory_percent :: "string option"
  hb_memory_used :: "int option"
  hb_memory_total :: "int option"
  hb_avg_temp :: "string option"
  hb_max_temp :: "string option"
  hb_gpu_info :: "int option list option"
  hb_vm_capable :: bool
  hb_vfio :: "int option list option"
  hb_version :: "string option"

definition update_node_metrics :: "int \<Rightarrow> heartbeat_request \<Rightarrow> node \<Rightarrow> 'k host \<Rightarrow> 'k host" where
  "update_node_metrics now rq n h =
     save_node (n\<lparr>last_heartbeat := now, cpu_percent := hb_cpu_percent rq, memory_percent := hb_memory_percent rq,
       memory_used_bytes := hb_memory_used rq, memory_total_bytes := hb_memory_total rq,
       current_avg_temp := hb_avg_temp rq, current_max_temp := hb_max_temp rq,
       gpu_info := (case hb_gpu_info rq of None \<Rightarrow> gpu_info n | Some g \<Rightarrow> if g = [] then gpu_info n else g),
       vm_capable := hb_vm_capable rq,
       vfio_gpus := (case hb_vfio rq of None \<Rightarrow> vfio_gpus n | Some g \<Rightarrow> g),
       runner_version := (case hb_version rq of None \<Rightarrow> runner_version n | Some v \<Rightarrow> Some v),
       n_status := ''online''\<rparr>) h"

definition process_killed_task :: "int \<Rightarrow> int \<times> string \<Rightarrow> 'k host \<Rightarrow> 'k host" where
  "process_killed_task now k h =
     (case get_task (fst k) h of
        None \<Rightarrow> h
      | Some t \<Rightarrow>
          if is_finished t then h
          else end_task (if snd k = ''oom'' then ''killed_oom'' else ''failed'') (''Killed by runner: '' @ snd k) (-9) now t h)"

definition process_killed_tasks :: "int \<Rightarrow> (int \<times> string) list \<Rightarrow> 'k host \<Rightarrow> 'k host" where
  "process_killed_tasks now ks h = fold (process_killed_task now) ks h"

definition confirm_task_running :: "int \<Rightarrow> task \<Rightarrow> 'k host \<Rightarrow> 'k host" where
  "confirm_task_running now t h =
     save_task (t\<lparr>status := ''running'',
       started_at := (if started_at t = None then Some now else started_at t),
       assignment_suspicion_count := (if assignment_suspicion_count t > 0 then 0 else assignment_suspicion_count t)\<rparr>) h"

definition check_task_assignment_timeout :: "host_settings \<Rightarrow> string \<Rightarrow> int \<Rightarrow> task \<Rightarrow> 'k host \<Rightarrow> 'k host" where
  "check_task_assignment_timeout cfg n now t h =
     (if now - submitted_at t \<le> seconds (heartbeat_interval cfg * 3) then h
      else if assignment_suspicion_count t < 2
      then save_task (t\<lparr>assignment_suspicion_count := assignment_suspicion_count t + 1\<rparr>) h
      else end_task ''failed'' (''Task assignment failed. Runner '' @ n @ '' did not confirm start after multiple checks.'') (-1) now t h)"

definition reconcile_assigning_tasks :: "host_settings \<Rightarrow> int list \<Rightarrow> string \<Rightarrow> int \<Rightarrow> 'k host \<Rightarrow> 'k host" where
  "reconcile_assigning_tasks cfg running n now h =
     fold (\<lambda>t. if task_id t \<in> set running then confirm_task_running now t else check_task_assignment_timeout cfg n now t)
       (select_tasks (\<lambda>t. assigned_node t = Some n \<and> status t = ''assigning'') h) h"

definition reconcile_pending_task :: "host_settings \<Rightarrow> int list \<Rightarrow> string \<Rightarrow> int \<Rightarrow> task \<Rightarrow> 'k host \<Rightarrow> 'k host" where
  "reconcile_pending_task cfg running n now t h =
     (if task_id t \<in> set running then confirm_task_running now t h
      else if now - submitted_at t \<le> seconds (heartbeat_interval cfg * heartbeat_timeout_factor cfg * 3) then h
      else end_task ''failed''
             (''Task stuck in pending state on '' @ n @ ''. Runner does not have this task after multiple heartbeat cycles.'')
             (-1) now t h)"

definition reconcile_pending_tasks :: "host_settings \<Rightarrow> int list \<Rightarrow> string \<Rightarrow> int \<Rightarrow> 'k host \<Rightarrow> 'k host" where
  "reconcile_pending_tasks cfg running n now h =
     fold (reconcile_pending_task cfg running n now)
       (select_tasks (\<lambda>t. assigned_node t = Some n \<and> status t = ''pending'') h) h"

definition mark_overlay_active ::
  "'k netlink \<Rightarrow> (string \<Rightarrow> string option) \<Rightarrow> host_settings \<Rightarrow> int \<Rightarrow> string \<Rightarrow> 'k host \<Rightarrow> 'k host" where
  "mark_overlay_active nl url_host cfg now n h =
     (case get_overlay_manager cfg h of
        None \<Rightarrow> h
      | Some ms \<Rightarrow>
          (case multi_get_allocation ms n of
             Some a \<Rightarrow> h\<lparr>overlay := Some (multi_mark_runner_active now n ms)\<rparr>
           | None \<Rightarrow>
               (case get_node n h of
                  None \<Rightarrow> h
                | Some nd \<Rightarrow>
                    if url nd = [] then h
                    else (case multi_allocate_for_runner nl now n (extract_ip_from_url url_host (url nd)) ms (kernel h) of
                            (allocs, ms', k) \<Rightarrow> h\<lparr>overlay := Some ms', kernel := k\<rparr>))))"

definition heartbeat ::
  "'k netlink \<Rightarrow> (string \<Rightarrow> string option) \<Rightarrow> host_settings \<Rightarrow> int \<Rightarrow> string \<Rightarrow> heartbeat_request \<Rightarrow> ('k host, unit) st" where
  "heartbeat nl url_host cfg now n rq = (\<lambda>h.
     case get_node n h of
       None \<Rightarrow> (Inl (HTTPException 404 (''Node '' @ n @ '' not registered. Please register first.'')), h)
     | Some nd \<Rightarrow>
         let h1 = update_node_metrics now rq nd h;
             h2 = process_killed_tasks now (hb_killed rq) h1;
             h3 = reconcile_assigning_tasks cfg (hb_running rq) n now h2;
             h4 = reconcile_pending_tasks cfg (hb_running rq) n now h3
         in (Inr (), if hs_overlay_enabled cfg then mark_overlay_active nl url_host cfg now n h4 else h4))"

end
