(* ===== verification/Overlay_Endpoints.thy ===== *)
theory Overlay_Endpoints
  imports Node_Heartbeat
begin

text \<open>
  The overlay and IP reservation endpoints of \<^verbatim>\<open>host/endpoints/nodes.py\<close>: thin handlers over the
  managers, whose guards and error answers are modelled here.  The overlay manager the host keeps
  is the wrapper over several networks; two handlers call methods it does not have.
\<close>

definition with_overlay :: "host_settings \<Rightarrow> (multi_manager \<Rightarrow> 'a res) \<Rightarrow> 'k host \<Rightarrow> 'a res" where
  "with_overlay cfg f h =
     (if \<not> hs_overlay_enabled cfg then Inl (HTTPException 400 ''Overlay network is not enabled'')
      else case get_overlay_manager cfg h of
             None \<Rightarrow> Inl (HTTPException 500 ''Overlay manager not initialized'')
           | Some ms \<Rightarrow> f ms)"

text \<open>\<^verbatim>\<open>MultiOverlayManager\<close> defines neither \<^verbatim>\<open>release_runner\<close> nor \<^verbatim>\<open>cleanup_inactive\<close>.\<close>

definition release_overlay_allocation :: "host_settings \<Rightarrow> string \<Rightarrow> 'k host \<Rightarrow> bool res" where
  "release_overlay_allocation cfg n h =
     with_overlay cfg (\<lambda>ms. Inl (AttributeError ''MultiOverlayManager object has no attribute release_runner'')) h"

definition cleanup_overlay :: "host_settings \<Rightarrow> 'k host \<Rightarrow> int res" where
  "cleanup_overlay cfg h =
     with_overlay cfg (\<lambda>ms. Inl (AttributeError ''MultiOverlayManager object has no attribute cleanup_inactive'')) h"

record overlay_status =
  os_enabled :: bool
  os_networks :: "string list"
  os_host_ip :: "(string \<times> int) option"
  os_allocations :: "overlay_allocation list"
  os_stats :: "(string, overlay_stats) dict"

definition get_overlay_status :: "host_settings \<Rightarrow> 'k host \<Rightarrow> overlay_status" where
  "get_overlay_status cfg h =
     (case get_overlay_manager cfg h of
        None \<Rightarrow> \<lparr>os_enabled = hs_overlay_enabled cfg, os_networks = [], os_host_ip = None, os_allocations = [], os_stats = []\<rparr>
      | Some ms \<Rightarrow>
          \<lparr>os_enabled = True, os_networks = dict_keys ms,
           os_host_ip = map_option (\<lambda>m. (host_ip m, host_prefix m)) (get_default_manager ms),
           os_allocations = multi_get_all_allocations ms, os_stats = multi_get_stats ms\<rparr>)"

text \<open>The guard the IP endpoints share; the operation gets the manager and may change it.\<close>

definition with_ip_manager :: "host_settings \<Rightarrow> (ipr_state, 'a) st \<Rightarrow> ('k host, 'a) st" where
  "with_ip_manager cfg f = (\<lambda>h.
     if \<not> hs_overlay_enabled cfg then (Inl (HTTPException 400 ''Overlay network is not enabled''), h)
     else case get_ip_reservation_manager cfg h of
            None \<Rightarrow> (Inl (HTTPException 500 ''IP reservation manager not initialized''), h)
          | Some m \<Rightarrow> (case f m of (r, m') \<Rightarrow> (r, h\<lparr>ip_manager := Some m'\<rparr>)))"

text \<open>The overlay manager the reservation manager was given at start-up.\<close>

definition overlay_of :: "'k host \<Rightarrow> overlay_ref" where
  "overlay_of h = Multi (case overlay h of None \<Rightarrow> [] | Some ms \<Rightarrow> ms)"

definition ep_get_available_ips ::
  "host_settings \<Rightarrow> int \<Rightarrow> string option \<Rightarrow> int \<Rightarrow> string \<Rightarrow> ('k host, (string, string list) dict) st" where
  "ep_get_available_ips cfg now runner lim net = (\<lambda>h.
     if lim < 1 \<or> 1000 < lim then (Inl (HTTPException 422 ''Validation error''), h)
     else with_ip_manager cfg (\<lambda>m. (get_available_ips (overlay_of h) m now runner (nat lim) net, m)) h)"

definition ep_get_runner_ip_info :: "host_settings \<Rightarrow> int \<Rightarrow> string \<Rightarrow> string \<Rightarrow> ('k host, ip_info) st" where
  "ep_get_runner_ip_info cfg now runner net = (\<lambda>h.
     with_ip_manager cfg (\<lambda>m.
       (bind_res (get_ip_info (overlay_of h) m now runner net)
          (\<lambda>i. case i of None \<Rightarrow> Inl (HTTPException 404 ''error'') | Some x \<Rightarrow> Inr x), m)) h)"

definition ep_reserve_ip ::
  "token_lib \<Rightarrow> host_settings \<Rightarrow> int \<Rightarrow> nat \<Rightarrow> string \<Rightarrow> string option \<Rightarrow> int \<Rightarrow> string \<Rightarrow> ('k host, ip_reservation) st" where
  "ep_reserve_ip lib cfg now rand runner wanted ttl net = (\<lambda>h.
     if ttl < 60 \<or> 1800 < ttl then (Inl (HTTPException 422 ''Validation error''), h)
     else with_ip_manager cfg (\<lambda>m.
       case reserve_ip lib (overlay_of h) now rand runner wanted (Some ttl) net m of
         (Inr None, m') \<Rightarrow> (Inl (HTTPException 409 ''IP unavailable or runner not found''), m')
       | (Inr (Some r), m') \<Rightarrow> (Inr r, m')
       | (Inl e, m') \<Rightarrow> (Inl e, m')) h)"

definition ep_release_ip_reservation :: "host_settings \<Rightarrow> string \<Rightarrow> ('k host, unit) st" where
  "ep_release_ip_reservation cfg tok =
     with_ip_manager cfg (\<lambda>m.
       case release_by_token tok m of
         (ok, m') \<Rightarrow> (if ok then Inr () else Inl (HTTPException 404 ''Reservation not found, expired, or in use''), m'))"

text \<open>The listing shows at most 20 characters of a token.\<close>

definition shown_token :: "string \<Rightarrow> string" where
  "shown_token tok = (if length tok > 20 then take 20 tok @ ''...'' else tok)"

definition ep_list_ip_reservations ::
  "host_settings \<Rightarrow> int \<Rightarrow> string option \<Rightarrow> bool \<Rightarrow> string option \<Rightarrow> ('k host, (ip_reservation \<times> string) list) st" where
  "ep_list_ip_reservations cfg now runner include_used net =
     with_ip_manager cfg (\<lambda>m.
       case get_reservations now runner include_used net m of
         (rs, m') \<Rightarrow> (Inr (map (\<lambda>r. (r, shown_token (token r))) rs), m'))"

definition ep_validate_ip_token ::
  "token_lib \<Rightarrow> host_settings \<Rightarrow> int \<Rightarrow> string \<Rightarrow> string option \<Rightarrow> ('k host, ip_reservation) st" where
  "ep_validate_ip_token lib cfg now tok runner =
     with_ip_manager cfg (\<lambda>m.
       (case validate_token lib now tok runner None m of
          None \<Rightarrow> Inl (HTTPException 404 ''Token invalid, expired, or runner mismatch'')
        | Some r \<Rightarrow> Inr r, m))"

definition ep_ip_stats :: "host_settings \<Rightarrow> int \<Rightarrow> ('k host, ipr_stats) st" where
  "ep_ip_stats cfg now = with_ip_manager cfg (\<lambda>m. case ipr_get_stats now m of (x, m') \<Rightarrow> (Inr x, m'))"

end
