(* ===== verification/Task_Control.thy ===== *)
theory Task_Control
  imports Overlay_Endpoints
begin

text \<open>
  Kill, pause and resume (\<^verbatim>\<open>host/endpoints/task_control.py\<close>) and approval and rejection
  (\<^verbatim>\<open>host/endpoints/task_approval.py\<close>).  The user is the one the dependency resolved; its role
  check is the first step of each handler.
\<close>

section \<open>Control\<close>

text \<open>A user may act on its own tasks only; every other role that got here on any.\<close>

definition may_control :: "user \<Rightarrow> task \<Rightarrow> bool" where
  "may_control u t \<longleftrightarrow> (role u = ''user'' \<longrightarrow> owner_id t = Some (u_id u))"

text \<open>The handlers raise before they change anything, so an error leaves the state alone.\<close>

definition guard_role :: "string \<Rightarrow> user \<Rightarrow> ('s, 'a) st \<Rightarrow> ('s, 'a) st" where
  "guard_role r u f = (\<lambda>s. case check_role r u of Inl e \<Rightarrow> (Inl e, s) | Inr _ \<Rightarrow> f s)"

text \<open>\<^verbatim>\<open>Task.get_or_none(...)\<close>, and 404 for no row.\<close>

definition with_row :: "('k host \<Rightarrow> task option) \<Rightarrow> string \<Rightarrow> (task \<Rightarrow> ('k host, 'a) st) \<Rightarrow> ('k host, 'a) st" where
  "with_row find_row msg f = (\<lambda>h. case find_row h of None \<Rightarrow> (Inl (HTTPException 404 msg), h) | Some t \<Rightarrow> f t h)"

definition killable_states :: "string list" where
  "killable_states = [''pending'', ''assigning'', ''running'', ''paused'']"

definition request_kill_task :: "int \<Rightarrow> user \<Rightarrow> int \<Rightarrow> ('k host, unit) st" where
  "request_kill_task now u i = guard_role ''user'' u (with_row (get_task i) ''Task not found.'' (\<lambda>t h.
         if \<not> may_control u t then (Inl (HTTPException 403 ''Access denied to this task''), h)
         else if status t \<notin> set killable_states
         then (Inl (HTTPException 409 (''Task cannot be killed (state: '' @ status t @ '')'')), h)
         else
           let h1 = mark_task_killed now ''Kill requested by user.'' t h
           in (Inr (),
               if status t \<in> {''running'', ''paused''} \<and> truthy (assigned_node t)
               then (case get_node (the (assigned_node t)) h1 of
                       None \<Rightarrow> h1
                     | Some n \<Rightarrow>
                         if is_online n
                         then suspend (AwaitKill i) (send_call (KillCall (url n) i (container_of t)) h1)
                         else h1)
               else h1)))"

text \<open>\<^verbatim>\<open>send_command_to_task\<close> up to its await.\<close>

definition send_command_to_task :: "user \<Rightarrow> int \<Rightarrow> string \<Rightarrow> ('k host, unit) st" where
  "send_command_to_task u i command = guard_role ''user'' u (with_row (get_task i) ''Task not found.'' (\<lambda>t h.
         if \<not> may_control u t then (Inl (HTTPException 403 ''Access denied to this task''), h)
         else if \<not> truthy (assigned_node t) then (Inl (HTTPException 400 ''Task has no assigned node.''), h)
         else
           (case get_node (the (assigned_node t)) h of
              None \<Rightarrow> (Inl (HTTPException 400 ''Assigned node not found.''), h)
            | Some n \<Rightarrow>
                if command = ''pause'' \<and> status t = ''running''
                then (Inr (), suspend (AwaitPause t) (send_call (PauseCall (url n) i (container_of t)) h))
                else if command = ''resume'' \<and> status t = ''paused''
                then (Inr (), suspend (AwaitResume t) (send_call (ResumeCall (url n) i (container_of t)) h))
                else (Inl (HTTPException 400 ''Invalid command or task state''), h))))"

text \<open>And after it: only the answer of a runner that accepted contains "successfully".\<close>

definition finish_command :: "string \<Rightarrow> task \<Rightarrow> reply \<Rightarrow> 'k host \<Rightarrow> 'k host" where
  "finish_command new_status t r h =
     (case r of Answer a \<Rightarrow> save_task (t\<lparr>status := new_status\<rparr>) h | _ \<Rightarrow> h)"

section \<open>Output\<close>

text \<open>\<open>files\<close> gives the lines of a file that exists (\<^verbatim>\<open>readlines\<close>); \<^verbatim>\<open>lines\<close> from the end, where
  \<^verbatim>\<open>xs[-n:]\<close> is everything for \<open>n = 0\<close> and drops from the front for a negative \<open>n\<close>.\<close>

definition last_lines :: "int \<Rightarrow> 'a list \<Rightarrow> 'a list" where
  "last_lines n xs =
     (if n = 0 then xs
      else if n > 0 then drop (length xs - nat n) xs
      else drop (nat (- n)) xs)"

definition get_task_output ::
  "(string \<Rightarrow> string list option) \<Rightarrow> user \<Rightarrow> int \<Rightarrow> bool \<Rightarrow> int option \<Rightarrow> 'k host \<Rightarrow> string res" where
  "get_task_output files u i want_stdout lns h =
     bind_res (check_role ''user'' u) (\<lambda>_.
       case get_task i h of
         None \<Rightarrow> Inl (HTTPException 404 ''Task not found.'')
       | Some t \<Rightarrow>
           if \<not> may_control u t then Inl (HTTPException 403 ''Access denied to this task'')
           else if task_type t = ''vps'' then Inl (HTTPException 400 ''VPS tasks do not have output.'')
           else
             let path = (if want_stdout then stdout_path t else stderr_path t)
             in if path = [] then Inr []
                else (case files path of
                        None \<Rightarrow> Inr []
                      | Some ls \<Rightarrow> Inr (concat (case lns of None \<Rightarrow> ls | Some n \<Rightarrow> last_lines n ls))))"

section \<open>Approval\<close>

definition approved_task :: "int \<Rightarrow> user \<Rightarrow> task \<Rightarrow> task" where
  "approved_task now u t =
     t\<lparr>approval_status := Some ''approved'', approved_by_id := Some (u_id u), approved_at := Some now, status := ''assigning''\<rparr>"

text \<open>From "Get assigned node and dispatch" on.\<close>

definition dispatch_approved :: "task \<Rightarrow> 'k host \<Rightarrow> 'k host" where
  "dispatch_approved t h =
     (if \<not> truthy (assigned_node t) then h
      else
        let offline = save_task (t\<lparr>status := ''pending'', assigned_node := None\<rparr>) h
        in case get_node (the (assigned_node t)) h of
             None \<Rightarrow> offline
           | Some n \<Rightarrow>
               if \<not> is_online n then offline
               else
                 let d = \<lparr>d_task = t, d_container = container_name t, d_registry = registry_image t,
                          d_ip = None, d_network = None, d_networks = None, d_ips = None\<rparr>
                 in if task_type t = ''vps''
                    then suspend (AwaitApproveVps t) (send_call (VpsCall (url n) d) h)
                    else send_task_to_runner (url n) d h)"

definition approve_task :: "int \<Rightarrow> user \<Rightarrow> int \<Rightarrow> ('k host, unit) st" where
  "approve_task now u i = guard_role ''operator'' u (with_row (get_task i) ''Task not found.'' (\<lambda>t h.
     if status t \<noteq> ''pending_approval''
     then (Inl (HTTPException 409 (''Task is not pending approval (status: '' @ status t @ '')'')), h)
     else let t' = approved_task now u t in (Inr (), dispatch_approved t' (save_task t' h))))"

text \<open>The rest of the handler for a VPS; a refusal is answered 502.\<close>

definition finish_approve_vps :: "int \<Rightarrow> task \<Rightarrow> reply \<Rightarrow> 'k host \<Rightarrow> 'k host" where
  "finish_approve_vps now t r h =
     (case vps_task_sent t r h of
        (ok, t', h') \<Rightarrow>
          if ok then h'
          else save_task (t'\<lparr>status := ''failed'', error_message := Some ''Failed to dispatch VPS to runner after approval'',
                             completed_at := Some now\<rparr>) h')"

definition reject_task :: "int \<Rightarrow> user \<Rightarrow> int \<Rightarrow> string option \<Rightarrow> ('k host, unit) st" where
  "reject_task now u i reason = guard_role ''operator'' u (with_row (get_task i) ''Task not found.'' (\<lambda>t h.
         if status t \<noteq> ''pending_approval''
         then (Inl (HTTPException 409 (''Task is not pending approval (status: '' @ status t @ '')'')), h)
         else (Inr (), save_task (t\<lparr>status := ''rejected'', approval_status := Some ''rejected'',
                 approved_by_id := Some (u_id u), approved_at := Some now, rejection_reason := reason\<rparr>) h)))"

definition list_pending_approval_tasks :: "user \<Rightarrow> nat \<Rightarrow> nat \<Rightarrow> 'k host \<Rightarrow> task list res" where
  "list_pending_approval_tasks u lim off h =
     bind_res (check_role ''operator'' u) (\<lambda>_.
       Inr (take lim (drop off (rev (sort_key submitted_at (rev (select_tasks (\<lambda>t. status t = ''pending_approval'') h)))))))"

end
