(* ===== verification/Task_Submission.thy ===== *)
theory Task_Submission
  imports Task_Control
begin

text \<open>
  Task submission (\<^verbatim>\<open>host/endpoints/task_submission.py\<close>): validation, the choice of targets, the
  resource checks, the task record, the addresses of flat networks and the dispatch.  Snowflake
  identifiers and the random choices of addresses are arguments.  The methods of the reservation
  manager hold a lock that nothing keeps across an await, so their awaits do not interleave; the
  only suspension is the dispatch of a VPS, which has a single target.
\<close>

section \<open>SSH ports\<close>

definition ssh_ports_in_use :: "'k host \<Rightarrow> int list" where
  "ssh_ports_in_use h =
     map (\<lambda>t. the (ssh_port t))
       (filter (\<lambda>t. truthy_int (ssh_port t))
         (select_tasks (\<lambda>t. task_type t = ''vps'' \<and> status t \<in> {''pending'', ''assigning'', ''running'', ''paused''} \<and> ssh_port t \<noteq> None) h))"

text \<open>\<^verbatim>\<open>while port in existing_ports: port += 1\<close>.  The loop removes the port it passes from the
  ports still to meet, which get fewer.\<close>

function next_free_port :: "int \<Rightarrow> int list \<Rightarrow> int" where
  "next_free_port p ports = (if p \<in> set ports then next_free_port (p + 1) (removeAll p ports) else p)"
  by pat_completeness auto
termination
  by (relation "measure (\<lambda>(p, ports). length ports)") (auto simp: length_removeAll_less)

declare next_free_port.simps [simp del]

definition allocate_ssh_port :: "'k host \<Rightarrow> int" where
  "allocate_ssh_port h = next_free_port 2222 (ssh_ports_in_use h)"

section \<open>The request\<close>

record submission =
  sb_task_type :: string
  sb_command :: string
  sb_arguments :: "string list"
  sb_env_vars :: "(string, string) dict"
  sb_cores :: int
  sb_gpus :: "int list list option"
  sb_memory :: "int option"
  sb_targets :: "string list option"
  sb_container :: "string option"
  sb_registry :: "string option"
  sb_privileged :: "bool option"
  sb_mounts :: "string list option"
  sb_ip_token :: "string option"
  sb_network :: "string option"
  sb_networks :: "string list option"

text \<open>The field constraints of \<^verbatim>\<open>TaskSubmission\<close>.\<close>

definition submission_ok :: "submission \<Rightarrow> bool" where
  "submission_ok rq \<longleftrightarrow> 0 \<le> sb_cores rq \<and> (case sb_memory rq of None \<Rightarrow> True | Some m \<Rightarrow> 0 \<le> m)"

definition validate_submission :: "submission \<Rightarrow> submission res" where
  "validate_submission rq =
     (if sb_task_type rq \<notin> {''command'', ''vps''}
      then Inl (HTTPException 400 ''Invalid task type. Only command and vps are supported.'')
      else Inr (if sb_task_type rq = ''vps'' then rq\<lparr>sb_arguments := [], sb_env_vars := []\<rparr> else rq))"

record task_config =
  tc_container :: "string option"
  tc_registry :: "string option"
  tc_image_tag :: "string option"
  tc_privileged :: bool
  tc_mounts :: "string list"
  tc_output_dir :: string
  tc_owner_id :: "int option"
  tc_owner_role :: string

definition prepare_task_config :: "host_settings \<Rightarrow> submission \<Rightarrow> user \<Rightarrow> task_config res" where
  "prepare_task_config cfg rq u =
     (let rest = (\<lambda>c tag. \<lparr>tc_container = c, tc_registry = sb_registry rq, tc_image_tag = tag,
                   tc_privileged = (case sb_privileged rq of None \<Rightarrow> tasks_privileged cfg | Some b \<Rightarrow> b),
                   tc_mounts = (case sb_mounts rq of None \<Rightarrow> additional_mounts cfg | Some m \<Rightarrow> m),
                   tc_output_dir = path_join (shared_dir cfg) ''logs'',
                   tc_owner_id = (if u_id u > 0 then Some (u_id u) else None), tc_owner_role = role u\<rparr>)
      in if truthy (sb_registry rq) then Inr (rest None (sb_registry rq))
         else if sb_container rq = Some ''NULL''
         then (if sb_task_type rq = ''vps'' then Inl (HTTPException 400 ''VPS tasks require a Docker container.'')
               else Inr (rest None None))
         else
           let c = (if truthy (sb_container rq) then the (sb_container rq) else default_container cfg)
           in Inr (rest (Some c) (Some (image_tag c ''base''))))"

section \<open>Targets\<close>

definition resolve_targets :: "submission \<Rightarrow> 'k host \<Rightarrow> (string list \<times> int list list) res" where
  "resolve_targets rq h =
     (let given = (case sb_targets rq of None \<Rightarrow> [] | Some ts \<Rightarrow> ts);
          gpus_given = (case sb_gpus rq of None \<Rightarrow> [] | Some g \<Rightarrow> g)
      in bind_res
           (if given \<noteq> [] then Inr given
            else if gpus_given \<noteq> [] then Inl (HTTPException 400 ''No target node specified for GPU task is not allowed.'')
            else bind_res (find_suitable_node (sb_cores rq) [] None None None h)
                   (\<lambda>n. case n of None \<Rightarrow> Inl (HTTPException 503 ''No suitable node available for this task.'')
                        | Some nd \<Rightarrow> Inr [hostname nd]))
           (\<lambda>targets.
              let gpus = (if gpus_given \<noteq> [] then gpus_given else map (\<lambda>_. []) targets)
              in if length gpus \<noteq> length targets
                 then Inl (HTTPException 400 ''required_gpus length must match targets length.'')
                 else if length targets > 1 \<and> sb_task_type rq = ''vps''
                 then Inl (HTTPException 400 ''VPS tasks cannot be submitted to multiple targets.'')
                 else Inr (targets, gpus)))"

text \<open>\<open>None\<close> is \<^verbatim>\<open>(None, None)\<close>.\<close>

definition parse_target_string :: "string \<Rightarrow> (string \<times> int option) option" where
  "parse_target_string s =
     (case split_on CHR '':'' s of
        [] \<Rightarrow> None
      | [n] \<Rightarrow> Some (n, None)
      | n # k # _ \<Rightarrow>
          (case int_of_str 10 k of
             None \<Rightarrow> None
           | Some i \<Rightarrow> if i < 0 then None else Some (n, Some i)))"

definition validate_node :: "string \<Rightarrow> 'k host \<Rightarrow> string + node" where
  "validate_node n h =
     (case get_node n h of
        None \<Rightarrow> Inl ''Node not registered''
      | Some nd \<Rightarrow> if n_status nd \<noteq> ''online'' then Inl (''Node status is '' @ n_status nd) else Inr nd)"

definition validate_node_resources :: "node \<Rightarrow> int option \<Rightarrow> int list \<Rightarrow> submission \<Rightarrow> 'k host \<Rightarrow> string option" where
  "validate_node_resources n numa gpus rq h =
     (if numa \<noteq> None \<and> get_numa_topology n = None then Some ''Node has no NUMA topology''
      else if numa \<noteq> None \<and> map_of (the (get_numa_topology n)) (the numa) = None then Some ''Invalid NUMA ID''
      else if get_gpu_info n \<noteq> [] \<and> gpus \<noteq> [] \<and>
              \<not> list_all (\<lambda>g. 0 \<le> g \<and> g < int (length (get_gpu_info n))) gpus
      then Some ''Invalid GPU IDs''
      else if get_gpu_info n \<noteq> [] \<and> gpus \<noteq> [] \<and> \<not> set gpus \<subseteq> set (get_node_available_gpus n h)
      then Some ''Requested GPUs not available''
      else if sb_cores rq \<noteq> 0 \<and> get_node_available_cores n h < sb_cores rq then Some ''Insufficient available cores''
      else if truthy_int (sb_memory rq) \<and> get_node_available_memory n h < the (sb_memory rq)
      then Some ''Insufficient available memory''
      else None)"

section \<open>Addresses\<close>

text \<open>\<^verbatim>\<open>req.network_names[0] if req.network_names else req.network_name\<close>.\<close>

definition primary_network :: "submission \<Rightarrow> string option" where
  "primary_network rq = (case sb_networks rq of Some (n # ns) \<Rightarrow> Some n | _ \<Rightarrow> sb_network rq)"

definition resolved_networks :: "submission \<Rightarrow> string list option" where
  "resolved_networks rq =
     (case sb_networks rq of
        Some (n # ns) \<Rightarrow> Some (n # ns)
      | _ \<Rightarrow> if truthy (sb_network rq) then Some [the (sb_network rq)] else None)"

text \<open>The outcome is the reserved address or the detail of the refusal.\<close>

definition validate_ip_reservation ::
  "token_lib \<Rightarrow> host_settings \<Rightarrow> int \<Rightarrow> submission \<Rightarrow> string \<Rightarrow> 'k host \<Rightarrow> string + string option" where
  "validate_ip_reservation lib cfg now rq target h =
     (if \<not> truthy (sb_ip_token rq) then Inr None
      else if \<not> hs_overlay_enabled cfg then Inl ''IP reservation requires overlay network to be enabled''
      else case get_ip_reservation_manager cfg h of
             None \<Rightarrow> Inl ''IP reservation manager not initialized''
           | Some m \<Rightarrow>
               (case validate_token lib now (the (sb_ip_token rq)) (Some target) (primary_network rq) m of
                  None \<Rightarrow> Inl ''Invalid IP reservation token, expired, or node/network mismatch''
                | Some r \<Rightarrow> Inr (Some (ip r))))"

text \<open>The loop over the networks: an explicitly reserved primary address is taken as it is,
  networks that are unknown or not flat are skipped, and an exhausted pool gives back what the
  container already got.\<close>

fun allocate_networks ::
  "multi_manager \<Rightarrow> overlay_ref \<Rightarrow> int \<Rightarrow> (nat \<Rightarrow> nat) \<Rightarrow> string \<Rightarrow> string option \<Rightarrow> string option \<Rightarrow> string
   \<Rightarrow> nat \<Rightarrow> string list \<Rightarrow> (string, string) dict \<Rightarrow> (ipr_state, (string, string) dict) st" where
  "allocate_networks ms ov now rnd target rip primary c idx [] got s = (Inr got, s)"
| "allocate_networks ms ov now rnd target rip primary c idx (net # nets) got s =
     (if idx = 0 \<and> truthy rip \<and> (\<not> truthy primary \<or> primary = Some net)
      then allocate_networks ms ov now rnd target rip primary c (Suc idx) nets (AList.update net (the rip) got) s
      else
        (case get_manager ms net of
           None \<Rightarrow> allocate_networks ms ov now rnd target rip primary c (Suc idx) nets got s
         | Some m \<Rightarrow>
             if \<not> is_flat (subnet_config m)
             then allocate_networks ms ov now rnd target rip primary c (Suc idx) nets got s
             else
               (case auto_allocate_ip ov now (rnd idx) target net c s of
                  (Inl e, s') \<Rightarrow> (Inl e, s')
                | (Inr (Some x), s') \<Rightarrow>
                    allocate_networks ms ov now rnd target rip primary c (Suc idx) nets (AList.update net x got) s'
                | (Inr None, s') \<Rightarrow>
                    (Inl (HTTPException 503 (''No available IP in network '' @ net)), snd (release_by_container c s')))))"

definition auto_allocate_flat_ips ::
  "host_settings \<Rightarrow> int \<Rightarrow> (nat \<Rightarrow> nat) \<Rightarrow> string \<Rightarrow> string list option \<Rightarrow> string option \<Rightarrow> string option \<Rightarrow> string
   \<Rightarrow> ('k host, (string, string) dict option) st" where
  "auto_allocate_flat_ips cfg now rnd target networks rip primary c = (\<lambda>h.
     case networks of
       None \<Rightarrow> (Inr None, h)
     | Some nets \<Rightarrow>
         if nets = [] then (Inr None, h)
         else case get_overlay_manager cfg h of
           None \<Rightarrow> (Inr None, h)
         | Some ms \<Rightarrow>
             (case get_ip_reservation_manager cfg h of
                None \<Rightarrow> (Inr None, h)
              | Some m \<Rightarrow>
                  (case allocate_networks ms (overlay_of h) now rnd target rip primary c 0 nets [] m of
                     (r, m') \<Rightarrow> (bind_res r (\<lambda>got. Inr (if got = [] then None else Some got)), h\<lparr>ip_manager := Some m'\<rparr>))))"

section \<open>The record\<close>

text \<open>\<^verbatim>\<open>Task.create\<close> fails on a key that exists, and the handler turns that into \<^verbatim>\<open>None\<close>.\<close>

definition create_task :: "task \<Rightarrow> 'k host \<Rightarrow> (task \<times> 'k host) option" where
  "create_task t h =
     (if task_id t \<in> set (dict_keys (tasks h)) then None
      else Some (t, h\<lparr>tasks := AList.update (task_id t) t (tasks h)\<rparr>))"

definition new_task :: "int \<Rightarrow> int \<Rightarrow> submission \<Rightarrow> node \<Rightarrow> int option \<Rightarrow> int list \<Rightarrow> task_config \<Rightarrow> int \<Rightarrow> int option \<Rightarrow> task" where
  "new_task now i rq n numa gpus tc batch port =
     (let needs_approval = (tc_owner_role tc = ''user'');
          dir = path_join (tc_output_dir tc) (str_of_int i)
      in \<lparr>task_id = i, task_type = sb_task_type rq, batch_id = Some batch, t_name = None,
          t_command = sb_command rq, t_arguments = sb_arguments rq, t_env_vars = sb_env_vars rq,
          required_cores = sb_cores rq, required_gpus = gpus, required_memory_bytes = sb_memory rq,
          target_numa_node_id = numa, owner_id = tc_owner_id tc,
          container_name = tc_container tc, registry_image = tc_registry tc, docker_image_name = tc_image_tag tc,
          docker_privileged = tc_privileged tc, docker_mount_dirs = tc_mounts tc,
          vps_backend = ''docker'', vm_image = None, vm_disk_size = None, t_network_name = None,
          stdout_path = path_join dir ''stdout.log'', stderr_path = path_join dir ''stderr.log'', submitted_at = now,
          approval_status =
            (if needs_approval then Some ''pending'' else if truthy_int (tc_owner_id tc) then Some ''approved'' else None),
          approved_by_id = (if needs_approval then None else tc_owner_id tc),
          approved_at = (if \<not> needs_approval \<and> truthy_int (tc_owner_id tc) then Some now else None),
          rejection_reason = None,
          status = (if needs_approval then ''pending_approval'' else ''assigning''),
          assigned_node = Some (hostname n), assignment_suspicion_count = 0, ssh_port = port, vm_ip = None,
          exit_code = None, error_message = None, started_at = None, completed_at = None\<rparr>)"

definition create_task_record ::
  "int \<Rightarrow> int \<Rightarrow> submission \<Rightarrow> node \<Rightarrow> int option \<Rightarrow> int list \<Rightarrow> task_config \<Rightarrow> int \<Rightarrow> 'k host \<Rightarrow> (task \<times> 'k host) option" where
  "create_task_record now i rq n numa gpus tc batch h =
     create_task (new_task now i rq n numa gpus tc batch
       (if sb_task_type rq = ''vps'' then Some (allocate_ssh_port h) else None)) h"

section \<open>Dispatch and the whole submission\<close>

text \<open>The result of a target: created, created with the answer of its runner still to come, or an
  error.\<close>

datatype target_result = Created int | Dispatching int | Failed string

definition dispatch_task :: "task \<Rightarrow> node \<Rightarrow> submission \<Rightarrow> dispatch \<Rightarrow> 'k host \<Rightarrow> target_result \<times> 'k host" where
  "dispatch_task t n rq d h =
     (if sb_task_type rq = ''vps''
      then (Dispatching (task_id t), suspend (AwaitSubmitVps t) (send_call (VpsCall (url n) d) h))
      else (Created (task_id t), send_task_to_runner (url n) d h))"

text \<open>The end of \<^verbatim>\<open>_dispatch_task\<close> for a VPS: a refusal fails the task (and the whole submission,
  which had no other target).\<close>

definition finish_dispatch_vps :: "int \<Rightarrow> task \<Rightarrow> reply \<Rightarrow> 'k host \<Rightarrow> 'k host" where
  "finish_dispatch_vps now t r h =
     (case vps_task_sent t r h of
        (ok, t', h') \<Rightarrow>
          if ok then h'
          else save_task (t'\<lparr>status := ''failed'', error_message := Some ''Failed to create VPS on runner.'',
                             completed_at := Some now\<rparr>) h')"

text \<open>\<^verbatim>\<open>if reserved_ip and req.ip_reservation_token\<close>: the reservation is bound to the container.\<close>

definition claim_reservation ::
  "token_lib \<Rightarrow> host_settings \<Rightarrow> int \<Rightarrow> submission \<Rightarrow> string \<Rightarrow> string option \<Rightarrow> string \<Rightarrow> 'k host \<Rightarrow> 'k host" where
  "claim_reservation lib cfg now rq target rip c h =
     (if truthy rip \<and> truthy (sb_ip_token rq)
      then (case get_ip_reservation_manager cfg h of
              None \<Rightarrow> h
            | Some m \<Rightarrow> h\<lparr>ip_manager := Some (snd (use_reservation lib now (the (sb_ip_token rq)) c (Some target) (primary_network rq) m))\<rparr>)
      else h)"

text \<open>What follows the task record when no approval is needed.\<close>

definition place_task ::
  "token_lib \<Rightarrow> host_settings \<Rightarrow> int \<Rightarrow> (nat \<Rightarrow> nat) \<Rightarrow> submission \<Rightarrow> string \<Rightarrow> node \<Rightarrow> string option \<Rightarrow> task
   \<Rightarrow> ('k host, target_result) st" where
  "place_task lib cfg now rnd rq target n rip t = (\<lambda>h.
     let h1 = claim_reservation lib cfg now rq target rip (container_of t) h in
     case auto_allocate_flat_ips cfg now rnd target (resolved_networks rq) rip (sb_network rq) (container_of t) h1 of
       (Inl (HTTPException c msg), h2) \<Rightarrow>
         (let t' = t\<lparr>status := ''failed'', error_message := Some ''IP allocation failed: flat-subnet pool exhausted.'',
                     completed_at := Some now\<rparr>
          in (Inl (HTTPException c msg), schedule_ip_release t' (save_task t' h2)))
     | (Inl e, h2) \<Rightarrow> (Inl e, h2)
     | (Inr ips, h2) \<Rightarrow>
         (case dispatch_task t n rq
            \<lparr>d_task = t, d_container = container_name t, d_registry = registry_image t, d_ip = rip,
             d_network = sb_network rq, d_networks = resolved_networks rq, d_ips = ips\<rparr> h2 of
            (r, h3) \<Rightarrow> (Inr r, h3)))"

definition process_target ::
  "token_lib \<Rightarrow> host_settings \<Rightarrow> int \<Rightarrow> (nat \<Rightarrow> nat) \<Rightarrow> int \<Rightarrow> submission \<Rightarrow> string \<Rightarrow> int list \<Rightarrow> task_config \<Rightarrow> int option
   \<Rightarrow> ('k host, target_result) st" where
  "process_target lib cfg now rnd new_id rq target_str gpus tc batch = (\<lambda>h.
     case parse_target_string target_str of
       None \<Rightarrow> (Inr (Failed ''Invalid target format''), h)
     | Some (target, numa) \<Rightarrow>
         (case validate_node target h of
            Inl reason \<Rightarrow> (Inr (Failed reason), h)
          | Inr n \<Rightarrow>
              (case validate_node_resources n numa gpus rq h of
                 Some reason \<Rightarrow> (Inr (Failed reason), h)
               | None \<Rightarrow>
                   (case validate_ip_reservation lib cfg now rq target h of
                      Inl reason \<Rightarrow> (Inr (Failed reason), h)
                    | Inr rip \<Rightarrow>
                        (case create_task_record now new_id rq n numa gpus tc
                                (case batch of None \<Rightarrow> new_id | Some b \<Rightarrow> b) h of
                           None \<Rightarrow> (Inr (Failed ''Database error during task creation''), h)
                         | Some (t, h1) \<Rightarrow>
                             if status t = ''pending_approval'' then (Inr (Created new_id), h1)
                             else place_task lib cfg now rnd rq target n rip t h1)))))"

text \<open>The loop over the targets: \<open>ids\<close> are the snowflakes it draws, and an exception leaves the
  earlier targets submitted.\<close>

fun process_targets ::
  "token_lib \<Rightarrow> host_settings \<Rightarrow> int \<Rightarrow> (nat \<Rightarrow> nat \<Rightarrow> nat) \<Rightarrow> (nat \<Rightarrow> int) \<Rightarrow> submission \<Rightarrow> task_config
   \<Rightarrow> nat \<Rightarrow> int option \<Rightarrow> (string \<times> int list) list \<Rightarrow> ('k host, (string \<times> target_result) list) st" where
  "process_targets lib cfg now rnd ids rq tc k first [] h = (Inr [], h)"
| "process_targets lib cfg now rnd ids rq tc k first ((target, gpus) # rest) h =
     (case process_target lib cfg now (rnd k) (ids k) rq target gpus tc first h of
        (Inl e, h') \<Rightarrow> (Inl e, h')
      | (Inr r, h') \<Rightarrow>
          (let first' = (case (first, r) of (None, Created i) \<Rightarrow> Some i | (None, Dispatching i) \<Rightarrow> Some i | _ \<Rightarrow> first)
           in case process_targets lib cfg now rnd ids rq tc (Suc k) first' rest h' of
                (Inl e, h'') \<Rightarrow> (Inl e, h'')
              | (Inr rs, h'') \<Rightarrow> (Inr ((target, r) # rs), h'')))"

definition failed_result :: "target_result \<Rightarrow> bool" where
  "failed_result r \<longleftrightarrow> (case r of Failed _ \<Rightarrow> True | _ \<Rightarrow> False)"

text \<open>\<^verbatim>\<open>_build_submission_response\<close>: the results by target, or 503 when all of them failed.\<close>

definition build_submission_response :: "(string \<times> target_result) list \<Rightarrow> (string \<times> target_result) list res" where
  "build_submission_response rs =
     (if rs \<noteq> [] \<and> list_all (\<lambda>(t, r). failed_result r) rs
      then Inl (HTTPException 503 ''Failed to schedule task for any target.'')
      else Inr rs)"

definition submit_task ::
  "token_lib \<Rightarrow> host_settings \<Rightarrow> int \<Rightarrow> (nat \<Rightarrow> nat \<Rightarrow> nat) \<Rightarrow> (nat \<Rightarrow> int) \<Rightarrow> user \<Rightarrow> submission
   \<Rightarrow> ('k host, (string \<times> target_result) list) st" where
  "submit_task lib cfg now rnd ids u rq0 = guard_role ''user'' u (\<lambda>h.
     if \<not> submission_ok rq0 then (Inl (HTTPException 422 ''Validation error''), h)
     else
       case validate_submission rq0 of
         Inl e \<Rightarrow> (Inl e, h)
       | Inr rq \<Rightarrow>
           (case prepare_task_config cfg rq u of
              Inl e \<Rightarrow> (Inl e, h)
            | Inr tc \<Rightarrow>
                (case resolve_targets rq h of
                   Inl e \<Rightarrow> (Inl e, h)
                 | Inr (targets, gpus) \<Rightarrow>
                     (case process_targets lib cfg now rnd ids rq tc 0 None (zip targets gpus) h of
                        (Inl e, h') \<Rightarrow> (Inl e, h')
                      | (Inr rs, h') \<Rightarrow> (build_submission_response rs, h')))))"

end
