(* ===== verification/Vps_Lifecycle.thy ===== *)
theory Vps_Lifecycle
  imports Task_Submission
begin

text \<open>
  VPS creation, stop and restart (\<^verbatim>\<open>host/endpoints/vps_lifecycle.py\<close>).  \<open>keygen\<close> is \<^verbatim>\<open>ssh-keygen\<close>:
  a key pair (private, public) or the message of its failure.  Each handler is split at the
  requests whose answer it acts on.
\<close>

record vps_submission =
  vs_name :: "string option"
  vs_cores :: int
  vs_gpus :: "int list option"
  vs_memory :: "int option"
  vs_target :: "string option"
  vs_numa :: "int option"
  vs_container :: "string option"
  vs_registry :: "string option"
  vs_key_mode :: string
  vs_public_key :: "string option"
  vs_ip_token :: "string option"
  vs_network :: "string option"
  vs_networks :: "string list option"
  vs_backend :: string
  vs_vm_image :: "string option"
  vs_vm_disk :: "string option"
  vs_memory_mb :: "int option"

definition validate_vps_submission :: "vps_submission \<Rightarrow> (string \<times> string) res" where
  "validate_vps_submission s =
     (let backend = (if vs_backend s = [] then ''docker'' else vs_backend s);
          mode = (if vs_key_mode s = [] then ''disabled'' else vs_key_mode s)
      in if backend \<notin> {''docker'', ''qemu''}
         then Inl (HTTPException 400 (''Invalid vps_backend: '' @ backend))
         else if mode \<notin> {''disabled'', ''none'', ''upload'', ''generate''}
         then Inl (HTTPException 400 (''Invalid ssh_key_mode: '' @ mode))
         else if mode = ''upload'' \<and> \<not> truthy (vs_public_key s)
         then Inl (HTTPException 400 ''ssh_public_key is required when ssh_key_mode is upload.'')
         else Inr (backend, mode))"

text \<open>The public and the private key.\<close>

definition resolve_ssh_keys ::
  "(int \<Rightarrow> string + (string \<times> string)) \<Rightarrow> string \<Rightarrow> vps_submission \<Rightarrow> int \<Rightarrow> (string option \<times> string option) res" where
  "resolve_ssh_keys keygen mode s i =
     (if mode = ''upload'' then Inr (vs_public_key s, None)
      else if mode = ''generate''
      then (case keygen i of
              Inl e \<Rightarrow> Inl (HTTPException 500 (''Failed to generate SSH keypair: '' @ e))
            | Inr (priv, pub) \<Rightarrow> Inr (Some pub, Some priv))
      else Inr (None, None))"

definition vps_allocate_ssh_port :: "'k host \<Rightarrow> int" where
  "vps_allocate_ssh_port h = next_free_port 2222 (ssh_ports_in_use h)"

definition vps_networks :: "vps_submission \<Rightarrow> string list option" where
  "vps_networks s =
     (case vs_networks s of
        Some (n # ns) \<Rightarrow> Some (n # ns)
      | _ \<Rightarrow> if truthy (vs_network s) then Some [the (vs_network s)] else None)"

definition vps_primary_network :: "vps_submission \<Rightarrow> string option" where
  "vps_primary_network s = (case vps_networks s of Some (n # ns) \<Rightarrow> Some n | _ \<Rightarrow> None)"

definition auto_allocate_flat_ips_vps ::
  "host_settings \<Rightarrow> int \<Rightarrow> (nat \<Rightarrow> nat) \<Rightarrow> string \<Rightarrow> string list option \<Rightarrow> string \<Rightarrow> string option \<Rightarrow> string option
   \<Rightarrow> ('k host, (string, string) dict option) st" where
  "auto_allocate_flat_ips_vps cfg now rnd target networks c rip primary =
     auto_allocate_flat_ips cfg now rnd target networks rip primary c"

definition new_vps_task :: "int \<Rightarrow> int \<Rightarrow> vps_submission \<Rightarrow> int \<Rightarrow> node \<Rightarrow> string option \<Rightarrow> string \<Rightarrow> user \<Rightarrow> task" where
  "new_vps_task now i s port n c backend u =
     \<lparr>task_id = i, task_type = ''vps'', batch_id = None, t_name = vs_name s, t_command = ''vps'',
      t_arguments = [], t_env_vars = [], required_cores = vs_cores s,
      required_gpus = (case vs_gpus s of None \<Rightarrow> [] | Some g \<Rightarrow> g), required_memory_bytes = vs_memory s,
      target_numa_node_id = vs_numa s, owner_id = (if u_id u > 0 then Some (u_id u) else None),
      container_name = c, registry_image = vs_registry s,
      docker_image_name = (if truthy (vs_registry s) then vs_registry s
                           else if truthy c then Some (image_tag (the c) ''base'') else None),
      docker_privileged = False, docker_mount_dirs = [], vps_backend = backend,
      vm_image = (if backend = ''qemu'' then vs_vm_image s else None),
      vm_disk_size = (if backend = ''qemu'' then vs_vm_disk s else None),
      t_network_name = vs_network s, stdout_path = [], stderr_path = [], submitted_at = now,
      approval_status = None, approved_by_id = None, approved_at = None, rejection_reason = None,
      status = ''assigning'', assigned_node = Some (hostname n), assignment_suspicion_count = 0, ssh_port = Some port,
      vm_ip = None, exit_code = None, error_message = None, started_at = None, completed_at = None\<rparr>"

text \<open>The node for the backend, or the refusal.\<close>

definition vps_node :: "string \<Rightarrow> vps_submission \<Rightarrow> 'k host \<Rightarrow> node res" where
  "vps_node backend s h =
     (let gpus = (case vs_gpus s of None \<Rightarrow> [] | Some g \<Rightarrow> g)
      in if backend = ''qemu''
         then bind_res (find_suitable_node_for_vm (vs_cores s) gpus (vs_memory s) (vs_target s) h)
                (\<lambda>(n, reason). case n of None \<Rightarrow> Inl (HTTPException 503 ''No suitable VM node'') | Some nd \<Rightarrow> Inr nd)
         else bind_res (find_suitable_node (vs_cores s) gpus (vs_memory s) (vs_target s) (vs_numa s) h)
                (\<lambda>n. case n of None \<Rightarrow> Inl (HTTPException 503 ''No suitable node available for this VPS.'') | Some nd \<Rightarrow> Inr nd))"

text \<open>The reservation token, checked and bound before the record exists.\<close>

definition vps_claim ::
  "token_lib \<Rightarrow> host_settings \<Rightarrow> int \<Rightarrow> vps_submission \<Rightarrow> string \<Rightarrow> string \<Rightarrow> ('k host, string option) st" where
  "vps_claim lib cfg now s target c = (\<lambda>h.
     if \<not> truthy (vs_ip_token s) then (Inr None, h)
     else case get_ip_reservation_manager cfg h of
            None \<Rightarrow> (Inl (HTTPException 500 ''IP reservation manager not initialized''), h)
          | Some m \<Rightarrow>
              let tok = the (vs_ip_token s) in
              (case validate_token lib now tok (Some target) (vps_primary_network s) m of
                 None \<Rightarrow> (Inl (HTTPException 400 ''Invalid IP reservation token, expired, or runner/network mismatch''), h)
               | Some r \<Rightarrow>
                   (case use_reservation lib now tok c (Some target) (vps_primary_network s) m of
                      (x, m') \<Rightarrow> (Inr x, h\<lparr>ip_manager := Some m'\<rparr>))))"

text \<open>The record, the addresses of flat networks and the request to the runner.\<close>

definition vps_place ::
  "host_settings \<Rightarrow> int \<Rightarrow> (nat \<Rightarrow> nat) \<Rightarrow> vps_submission \<Rightarrow> node \<Rightarrow> task \<Rightarrow> string option \<Rightarrow> ('k host, int) st" where
  "vps_place cfg now rnd s n t rip = (\<lambda>h.
     case create_task t h of
       None \<Rightarrow> (Inl IntegrityError, h)
     | Some (t, h1) \<Rightarrow>
         (case auto_allocate_flat_ips_vps cfg now rnd (hostname n) (vps_networks s) (container_of t) rip (vps_primary_network s) h1 of
            (Inl (HTTPException c msg), h2) \<Rightarrow>
              (let t' = t\<lparr>status := ''failed'', error_message := Some ''IP allocation failed: flat-subnet pool exhausted.'',
                          completed_at := Some now\<rparr>
               in (Inl (HTTPException c msg), schedule_ip_release t' (save_task t' h2)))
          | (Inl e, h2) \<Rightarrow> (Inl e, h2)
          | (Inr ips, h2) \<Rightarrow>
              (Inr (task_id t),
               suspend (AwaitCreateVps t)
                 (send_call (VpsCall (url n)
                    \<lparr>d_task = t, d_container = Some (case container_name t of None \<Rightarrow> '''' | Some c \<Rightarrow> c),
                     d_registry = registry_image t, d_ip = rip, d_network = vs_network s, d_networks = vs_networks s,
                     d_ips = ips\<rparr>) h2))))"

definition submit_vps ::
  "token_lib \<Rightarrow> (int \<Rightarrow> string + (string \<times> string)) \<Rightarrow> host_settings \<Rightarrow> int \<Rightarrow> (nat \<Rightarrow> nat) \<Rightarrow> int \<Rightarrow> user \<Rightarrow> vps_submission
   \<Rightarrow> ('k host, int) st" where
  "submit_vps lib keygen cfg now rnd i u s = guard_role ''operator'' u (\<lambda>h.
     case validate_vps_submission s of
       Inl e \<Rightarrow> (Inl e, h)
     | Inr (backend, mode) \<Rightarrow>
         (case vps_node backend s h of
            Inl e \<Rightarrow> (Inl e, h)
          | Inr n \<Rightarrow>
              let port = vps_allocate_ssh_port h;
                  c = (if truthy (vs_registry s) then None
                       else Some (if truthy (vs_container s) then the (vs_container s) else default_container cfg))
              in (case resolve_ssh_keys keygen mode s i of
                    Inl e \<Rightarrow> (Inl e, h)
                  | Inr keys \<Rightarrow>
                      bind_st (vps_claim lib cfg now s (hostname n) (vps_container_name i))
                        (vps_place cfg now rnd s n (new_vps_task now i s port n c backend u)) h)))"

text \<open>After the runner's answer: a refusal fails the VPS, silence leaves it assigning, and a VM's
  address is stored.\<close>

definition finish_create_vps :: "int \<Rightarrow> task \<Rightarrow> reply \<Rightarrow> 'k host \<Rightarrow> 'k host" where
  "finish_create_vps now t r h =
     (case r of
        HTTPStatusError code \<Rightarrow>
          (let t' = t\<lparr>status := ''failed'', error_message := Some ''Runner rejected VPS creation.'', completed_at := Some now\<rparr>
           in schedule_ip_release t' (save_task t' h))
      | RequestError e \<Rightarrow> h
      | Answer a \<Rightarrow>
          if a_empty a then h
          else if vps_backend t = ''qemu'' \<and> truthy (a_vm_ip a) then save_task (t\<lparr>vm_ip := a_vm_ip a\<rparr>) h
          else h)"

section \<open>Stop and restart\<close>

definition get_vps :: "int \<Rightarrow> 'k host \<Rightarrow> task option" where
  "get_vps i h = (case get_task i h of None \<Rightarrow> None | Some t \<Rightarrow> if task_type t = ''vps'' then Some t else None)"

definition stop_vps :: "int \<Rightarrow> user \<Rightarrow> int \<Rightarrow> ('k host, unit) st" where
  "stop_vps now u i = guard_role ''operator'' u (with_row (get_vps i) ''VPS not found.'' (\<lambda>t h.
         if status t \<notin> set killable_states
         then (Inl (HTTPException 409 (''VPS cannot be stopped (state: '' @ status t @ '')'')), h)
         else
           let t' = t\<lparr>status := ''stopped'', error_message := Some ''Stopped by user.'', completed_at := Some now\<rparr>;
               h1 = schedule_ip_release t' (save_task t' h)
           in (Inr (),
               if status t \<in> {''running'', ''paused''} \<and> truthy (assigned_node t)
               then (case get_node (the (assigned_node t)) h1 of
                       None \<Rightarrow> h1
                     | Some n \<Rightarrow> if is_online n then send_call (VpsStopCall (url n) i) h1 else h1)
               else h1)))"

text \<open>Steps 2 and 3 of a Docker restart, with the instance the handler holds.\<close>

definition restart_create :: "host_settings \<Rightarrow> task \<Rightarrow> string \<Rightarrow> 'k host \<Rightarrow> 'k host" where
  "restart_create cfg t u h =
     (let t' = t\<lparr>status := ''assigning'', error_message := None, started_at := None, completed_at := None\<rparr>
      in suspend (AwaitRestartVps t')
           (send_call (VpsCall u
              \<lparr>d_task = t', d_container = Some (if truthy (container_name t) then the (container_name t) else default_container cfg),
               d_registry = registry_image t, d_ip = None, d_network = t_network_name t, d_networks = None, d_ips = None\<rparr>)
              (save_task t' h)))"

definition restart_vps :: "host_settings \<Rightarrow> user \<Rightarrow> int \<Rightarrow> ('k host, unit) st" where
  "restart_vps cfg u i = guard_role ''operator'' u (with_row (get_vps i) ''VPS not found.'' (\<lambda>t h.
         if status t \<notin> {''running'', ''paused'', ''failed''}
         then (Inl (HTTPException 409 (''VPS cannot be restarted (state: '' @ status t @ '')'')), h)
         else if \<not> truthy (assigned_node t) then (Inl (HTTPException 400 ''VPS has no assigned node.''), h)
         else
           (case get_node (the (assigned_node t)) h of
              None \<Rightarrow> (Inl (HTTPException 503 ''Assigned node is not online.''), h)
            | Some n \<Rightarrow>
                if \<not> is_online n then (Inl (HTTPException 503 ''Assigned node is not online.''), h)
                else if vps_backend t = ''qemu'' then (Inr (), send_call (VmRestartCall (url n) i) h)
                else if status t \<in> {''running'', ''paused''}
                then (Inr (), suspend (AwaitStopBeforeRestart t (url n)) (send_call (VpsStopCall (url n) i) h))
                else (Inr (), restart_create cfg t (url n) h))))"

definition finish_restart_vps :: "int \<Rightarrow> task \<Rightarrow> reply \<Rightarrow> 'k host \<Rightarrow> 'k host" where
  "finish_restart_vps now t r h =
     (case r of
        HTTPStatusError code \<Rightarrow>
          (let t' = t\<lparr>status := ''failed'', error_message := Some ''Runner rejected VPS restart.'', completed_at := Some now\<rparr>
           in schedule_ip_release t' (save_task t' h))
      | _ \<Rightarrow> h)"

end
