(* ===== verification/Vm_Instances.thy ===== *)
theory Vm_Instances
  imports Vps_Lifecycle
begin

text \<open>
  The deletion of a VM instance by an administrator (\<^verbatim>\<open>host/endpoints/vm_instances.py\<close>): the request
  goes to the runner of the task or, for an instance without a row, to a node the caller names; a
  forced deletion of a task that was active marks it stopped once the runner has answered.
\<close>

definition named_node :: "string \<Rightarrow> string" where
  "named_node x = ''Node '' @ CHR 0x27 # x @ [CHR 0x27]"

definition delete_target :: "task option \<Rightarrow> string option \<Rightarrow> string option" where
  "delete_target row node =
     (case row of
        Some t \<Rightarrow> if truthy (assigned_node t) then assigned_node t else if truthy node then node else None
      | None \<Rightarrow> if truthy node then node else None)"

text \<open>The flag and the status tested after the answer are those read before it, so what the handler
  will write is settled when it suspends.\<close>

definition delete_marks :: "bool \<Rightarrow> task option \<Rightarrow> task option" where
  "delete_marks force row =
     (case row of
        None \<Rightarrow> None
      | Some t \<Rightarrow> if force \<and> status t \<in> {''running'', ''paused'', ''assigning''} then Some t else None)"

definition host_delete_vm_instance :: "user \<Rightarrow> int \<Rightarrow> string option \<Rightarrow> bool \<Rightarrow> ('k host, unit) st" where
  "host_delete_vm_instance u i node force = guard_role ''admin'' u (\<lambda>h.
     case delete_target (get_task i h) node of
       None \<Rightarrow>
         (Inl (HTTPException 400 (''Task not found in DB. Provide '' @ CHR 0x27 # ''hostname'' @ CHR 0x27 #
            '' query parameter to identify the runner.'')), h)
     | Some x \<Rightarrow>
         (case get_node x h of
            None \<Rightarrow> (Inl (HTTPException 404 (named_node x @ '' not found.'')), h)
          | Some n \<Rightarrow>
              if \<not> is_online n then (Inl (HTTPException 503 (named_node x @ '' is not online.'')), h)
              else (Inr (), suspend (AwaitVmDelete (delete_marks force (get_task i h)))
                     (send_call (VmDeleteCall (url n) i force) h))))"

text \<open>After the runner's answer; a refusal or silence becomes an error of the endpoint.\<close>

definition finish_vm_delete :: "int \<Rightarrow> task option \<Rightarrow> reply \<Rightarrow> 'k host \<Rightarrow> 'k host" where
  "finish_vm_delete now row r h =
     (case (r, row) of
        (Answer a, Some t) \<Rightarrow>
          (let t' = t\<lparr>status := ''stopped'', error_message := Some ''Stopped by admin (VM instance cleanup).'',
                       completed_at := Some now\<rparr>
           in schedule_ip_release t' (save_task t' h))
      | _ \<Rightarrow> h)"

end
