(* ===== verification/Host_System.thy ===== *)
theory Host_System
  imports Vm_Instances
begin

text \<open>
  The host as one machine.  An event is a request to an endpoint, a callback of a runner, the
  start of a pass of the monitor, what a suspended handler or pass waits for (the reply of a
  runner, or the overlay's lock), or one scheduled release of addresses; the events of a run are
  their order on the event loop.  What lies outside the program (the
  kernel, \<^verbatim>\<open>urlparse\<close>, the token library, \<^verbatim>\<open>ssh-keygen\<close>) is a record given to the step function.
\<close>

record 'k environment =
  env_lib :: token_lib
  env_keygen :: "int \<Rightarrow> string + (string \<times> string)"
  env_netlink :: "'k netlink"
  env_url_host :: "string \<Rightarrow> string option"
  env_cfg :: host_settings

datatype host_event =
    RegisterNode int register_node_request
  | NodeHeartbeat int string heartbeat_request
  | StatusUpdate int int status_update \<comment> \<open>time, task\<close>
  | MonitorPass int
  | Submit int "nat \<Rightarrow> nat \<Rightarrow> nat" "nat \<Rightarrow> int" user submission \<comment> \<open>time, random choices, snowflakes\<close>
  | Approve int user int
  | Reject int user int "string option"
  | Kill int user int
  | Command user int string
  | CreateVps int "nat \<Rightarrow> nat" int user vps_submission \<comment> \<open>time, random choices, snowflake\<close>
  | StopVps int user int
  | RestartVps user int
  | ReplyArrives int nat reply \<comment> \<open>time, position in \<open>suspended\<close>\<close>
  | RunRelease nat \<comment> \<open>position in \<open>releases\<close>\<close>
  | ReserveIp int nat string "string option" int string
  | ReleaseToken string
  | DeleteVmInstance user int "string option" bool
  | ListReservations int "string option" bool "string option"

text \<open>A suspended handler goes on with the reply it waited for.\<close>

definition resume_handler :: "host_settings \<Rightarrow> int \<Rightarrow> await \<Rightarrow> reply \<Rightarrow> 'k host \<Rightarrow> 'k host" where
  "resume_handler cfg now a r h =
     (case a of
        AwaitKill i \<Rightarrow> finish_kill i r h
      | AwaitPause t \<Rightarrow> finish_command ''paused'' t r h
      | AwaitResume t \<Rightarrow> finish_command ''running'' t r h
      | AwaitSubmitVps t \<Rightarrow> finish_dispatch_vps now t r h
      | AwaitApproveVps t \<Rightarrow> finish_approve_vps now t r h
      | AwaitCreateVps t \<Rightarrow> finish_create_vps now t r h
      | AwaitStopBeforeRestart t u \<Rightarrow> restart_create cfg t u h
      | AwaitRestartVps t \<Rightarrow> finish_restart_vps now t r h
      | AwaitVmDelete row \<Rightarrow> finish_vm_delete now row r h
      | AwaitOverlayLock x ns \<Rightarrow> finish_mark_inactive cfg now x ns h)"

definition reply_arrives :: "host_settings \<Rightarrow> int \<Rightarrow> nat \<Rightarrow> reply \<Rightarrow> 'k host \<Rightarrow> 'k host" where
  "reply_arrives cfg now n r h =
     (if n < length (suspended h)
      then resume_handler cfg now (suspended h ! n) r (h\<lparr>suspended := remove_nth n (suspended h)\<rparr>)
      else h)"

fun host_step :: "'k environment \<Rightarrow> host_event \<Rightarrow> 'k host \<Rightarrow> 'k host" where
  "host_step env (RegisterNode now rq) h = snd (register_node (env_netlink env) (env_url_host env) (env_cfg env) now rq h)"
| "host_step env (NodeHeartbeat now n rq) h = snd (heartbeat (env_netlink env) (env_url_host env) (env_cfg env) now n rq h)"
| "host_step env (StatusUpdate now i u) h = snd (update_task_status now i u h)"
| "host_step env (MonitorPass now) h = check_dead_runners (env_cfg env) now h"
| "host_step env (Submit now rnd ids u rq) h = snd (submit_task (env_lib env) (env_cfg env) now rnd ids u rq h)"
| "host_step env (Approve now u i) h = snd (approve_task now u i h)"
| "host_step env (Reject now u i reason) h = snd (reject_task now u i reason h)"
| "host_step env (Kill now u i) h = snd (request_kill_task now u i h)"
| "host_step env (Command u i c) h = snd (send_command_to_task u i c h)"
| "host_step env (CreateVps now rnd i u s) h = snd (submit_vps (env_lib env) (env_keygen env) (env_cfg env) now rnd i u s h)"
| "host_step env (StopVps now u i) h = snd (stop_vps now u i h)"
| "host_step env (RestartVps u i) h = snd (restart_vps (env_cfg env) u i h)"
| "host_step env (ReplyArrives now n r) h = reply_arrives (env_cfg env) now n r h"
| "host_step env (RunRelease n) h = run_release (env_cfg env) n h"
| "host_step env (ReserveIp now rand runner wanted ttl net) h =
     snd (ep_reserve_ip (env_lib env) (env_cfg env) now rand runner wanted ttl net h)"
| "host_step env (ReleaseToken tok) h = snd (ep_release_ip_reservation (env_cfg env) tok h)"
| "host_step env (DeleteVmInstance u i node force) h = snd (host_delete_vm_instance u i node force h)"
| "host_step env (ListReservations now runner inc net) h = snd (ep_list_ip_reservations (env_cfg env) now runner inc net h)"

section \<open>The life of a task\<close>

text \<open>What a run may hold: whether approvals, and which reports of a runner.\<close>

type_synonym permit = "bool \<times> (string \<Rightarrow> bool)"

abbreviation anything :: permit where "anything \<equiv> (True, \<lambda>st. True)"
abbreviation no_approval :: permit where "no_approval \<equiv> (False, \<lambda>st. True)"

text \<open>One write of a task's row by a handler that has just read it: what each handler may change,
  and from which states.\<close>

inductive moves :: "permit \<Rightarrow> task \<Rightarrow> task \<Rightarrow> bool" for ap where
  updated: "snd ap (su_status u) \<Longrightarrow> validate_status_transition t (su_status u) \<Longrightarrow>
    moves ap t (apply_task_updates now u (status t = ''lost'' \<and> su_status u = ''running'') t)"
| ended: "\<not> is_finished t \<Longrightarrow> st \<in> set TERMINAL_TASK_STATES \<Longrightarrow> st \<noteq> ''completed'' \<Longrightarrow>
    moves ap t (t\<lparr>status := st, error_message := msg, completed_at := Some now, exit_code := code\<rparr>)"
| confirmed: "status t \<in> {''assigning'', ''pending''} \<Longrightarrow>
    moves ap t (t\<lparr>status := ''running'', started_at := s, assignment_suspicion_count := n\<rparr>)"
| suspected: "moves ap t (t\<lparr>assignment_suspicion_count := n\<rparr>)"
| noted: "moves ap t (t\<lparr>error_message := m\<rparr>)"
| approved: "fst ap \<Longrightarrow> status t = ''pending_approval'' \<Longrightarrow>
    moves ap t (t\<lparr>approval_status := Some ''approved'', approved_by_id := a, approved_at := w, status := ''assigning''\<rparr>)"
| unplaced: "status t = ''assigning'' \<Longrightarrow> moves ap t (t\<lparr>status := ''pending'', assigned_node := None\<rparr>)"
| rejected: "status t = ''pending_approval'' \<Longrightarrow>
    moves ap t (t\<lparr>status := ''rejected'', approval_status := Some ''rejected'', approved_by_id := a, approved_at := w,
               rejection_reason := m\<rparr>)"
| restarted: "is_vps t \<Longrightarrow> status t = ''failed'' \<Longrightarrow>
    moves ap t (t\<lparr>status := ''assigning'', error_message := None, started_at := None, completed_at := None\<rparr>)"

text \<open>A row as \<^verbatim>\<open>Task.create\<close> writes it.\<close>

definition newborn :: "task \<Rightarrow> bool" where
  "newborn t \<longleftrightarrow> status t \<in> {''pending_approval'', ''assigning''} \<and> completed_at t = None \<and>
     (status t = ''pending_approval'' \<longrightarrow> approval_status t = Some ''pending'') \<and>
     (status t = ''assigning'' \<longrightarrow> approval_status t \<notin> {Some ''pending'', Some ''rejected''})"

abbreviation moves_to :: "permit \<Rightarrow> task \<Rightarrow> task \<Rightarrow> bool" where
  "moves_to ap \<equiv> (moves ap)\<^sup>*\<^sup>*"

text \<open>Whatever is sealed at creation stays.\<close>

lemma moves_spec: "moves ap t t' \<Longrightarrow> task_spec.truncate t' = task_spec.truncate t"
  by (induction rule: moves.induct) (simp_all add: apply_task_updates_def task_spec.truncate_def)

lemma moves_to_spec: "moves_to ap t t' \<Longrightarrow> task_spec.truncate t' = task_spec.truncate t"
  by (induction rule: rtranclp_induct) (simp_all add: moves_spec)

lemma same_spec:
  "task_spec.truncate t' = task_spec.truncate t \<Longrightarrow>
   task_id t' = task_id t \<and> container_of t' = container_of t \<and> is_vps t' = is_vps t"
  by (simp add: task_spec.truncate_def container_of_def is_vps_def)

lemmas moves_same = moves_spec [THEN same_spec]
lemmas moves_to_same = moves_to_spec [THEN same_spec]

lemma moves_mono: "moves ap t t' \<Longrightarrow> moves anything t t'"
  by (induction rule: moves.induct) (auto intro: moves.intros)

section \<open>What a handler does to the host\<close>

text \<open>Where a value of the row type comes from: a row of the table, or a row newly created, that has
  moved.\<close>

definition origin :: "permit \<Rightarrow> 'k host \<Rightarrow> task \<Rightarrow> bool" where
  "origin ap h t \<longleftrightarrow>
     (\<exists>t0. (get_task (task_id t) h = Some t0 \<or> get_task (task_id t) h = None \<and> newborn t0) \<and> moves_to ap t0 t)"

text \<open>No row disappears, rows move, and new rows are newborn ones that may have moved.\<close>

definition rows :: "permit \<Rightarrow> 'k host \<Rightarrow> 'k host \<Rightarrow> bool" where
  "rows ap h h' \<longleftrightarrow>
     (\<forall>i t. get_task i h = Some t \<longrightarrow> (\<exists>t'. get_task i h' = Some t' \<and> moves_to ap t t')) \<and>
     (\<forall>i t'. get_task i h = None \<and> get_task i h' = Some t' \<longrightarrow> (\<exists>t. newborn t \<and> moves_to ap t t'))"

text \<open>The instance a suspended handler holds, and the one a request to a runner carries.\<close>

fun instance_of :: "await \<Rightarrow> task option" where
  "instance_of (AwaitKill i) = None"
| "instance_of (AwaitPause t) = Some t"
| "instance_of (AwaitResume t) = Some t"
| "instance_of (AwaitSubmitVps t) = Some t"
| "instance_of (AwaitApproveVps t) = Some t"
| "instance_of (AwaitCreateVps t) = Some t"
| "instance_of (AwaitStopBeforeRestart t u) = Some t"
| "instance_of (AwaitRestartVps t) = Some t"
| "instance_of (AwaitVmDelete row) = row"
| "instance_of (AwaitOverlayLock x ns) = None"

fun dispatched :: "runner_call \<Rightarrow> task option" where
  "dispatched (ExecuteCall u d) = Some (d_task d)"
| "dispatched (VpsCall u d) = Some (d_task d)"
| "dispatched c = None"

text \<open>A request to run a command task names the container of its row.\<close>

fun carries :: "runner_call \<Rightarrow> bool" where
  "carries (ExecuteCall u d) \<longleftrightarrow> d_container d = container_name (d_task d)"
| "carries c \<longleftrightarrow> True"

lemma carries_other [simp]: "dispatched c = None \<Longrightarrow> carries c"
  by (cases c) simp_all

definition cleared :: "task \<Rightarrow> bool" where
  "cleared t \<longleftrightarrow> is_vps t \<or> approval_status t \<notin> {Some ''pending'', Some ''rejected''}"

definition has_row :: "task \<Rightarrow> 'k host \<Rightarrow> bool" where
  "has_row t h \<longleftrightarrow> (\<exists>r. get_task (task_id t) h = Some r \<and> task_spec.truncate r = task_spec.truncate t)"

text \<open>What a handler may suspend with: no task that has ended, and a VPS before a restart.\<close>

definition suits :: "await \<Rightarrow> task \<Rightarrow> bool" where
  "suits a t \<longleftrightarrow> \<not> is_finished t \<and> (\<forall>u. a = AwaitStopBeforeRestart t u \<longrightarrow> is_vps t)"

definition waits :: "permit \<Rightarrow> 'k host \<Rightarrow> 'k host \<Rightarrow> bool" where
  "waits ap h h' \<longleftrightarrow>
     (\<forall>a t. a \<in> set (suspended h') \<and> instance_of a = Some t \<longrightarrow>
        a \<in> set (suspended h) \<or> origin ap h t \<and> suits a t \<and> has_row t h')"

definition sent :: "permit \<Rightarrow> 'k host \<Rightarrow> 'k host \<Rightarrow> bool" where
  "sent ap h h' \<longleftrightarrow>
     (\<exists>cs. outbox h' = outbox h @ cs \<and>
        (\<forall>c t. c \<in> set cs \<and> dispatched c = Some t \<longrightarrow>
           origin ap h t \<and> cleared t \<and> has_row t h' \<and> carries c))"

text \<open>A task that ends has the release of its addresses scheduled.\<close>

definition freed :: "'k host \<Rightarrow> 'k host \<Rightarrow> bool" where
  "freed h h' \<longleftrightarrow>
     set (releases h) \<subseteq> set (releases h') \<and>
     (\<forall>i t'. get_task i h' = Some t' \<and> is_finished t' \<and> (\<forall>t. get_task i h = Some t \<longrightarrow> \<not> is_finished t) \<longrightarrow>
        container_of t' \<in> set (releases h'))"

abbreviation tasks_keyed :: "'k host \<Rightarrow> bool" where
  "tasks_keyed h \<equiv> keyed task_id (tasks h)"

definition evolves :: "permit \<Rightarrow> 'k host \<Rightarrow> 'k host \<Rightarrow> bool" where
  "evolves ap h h' \<longleftrightarrow>
     (tasks_keyed h \<longrightarrow> tasks_keyed h' \<and> rows ap h h' \<and> waits ap h h' \<and> sent ap h h' \<and> freed h h')"

subsection \<open>Transitivity\<close>

lemma rows_row: "rows ap h h' \<Longrightarrow> get_task i h = Some t \<Longrightarrow> \<exists>t'. get_task i h' = Some t' \<and> moves_to ap t t'"
  by (simp add: rows_def)

lemma rows_new: "rows ap h h' \<Longrightarrow> get_task i h = None \<Longrightarrow> get_task i h' = Some t' \<Longrightarrow> \<exists>t. newborn t \<and> moves_to ap t t'"
  by (simp add: rows_def)

lemma has_row_rows: "rows ap h h' \<Longrightarrow> has_row t h \<Longrightarrow> has_row t h'"
  unfolding has_row_def using rows_row [of ap h h'] moves_to_spec by metis

lemma rows_refl [simp, intro]: "rows ap h h"
  unfolding rows_def by auto

lemma rows_trans:
  assumes a: "rows ap h1 h2" and b: "rows ap h2 h3"
  shows "rows ap h1 h3"
  unfolding rows_def
proof (intro conjI allI impI)
  fix i t assume "get_task i h1 = Some t"
  with rows_row [OF a] obtain t2 where "get_task i h2 = Some t2" "moves_to ap t t2" by blast
  moreover from rows_row [OF b this(1)] obtain t3 where "get_task i h3 = Some t3" "moves_to ap t2 t3" by blast
  ultimately show "\<exists>t'. get_task i h3 = Some t' \<and> moves_to ap t t'" by auto
next
  fix i t' assume n: "get_task i h1 = None \<and> get_task i h3 = Some t'"
  show "\<exists>t. newborn t \<and> moves_to ap t t'"
  proof (cases "get_task i h2")
    case None
    with n rows_new [OF b] show ?thesis by blast
  next
    case (Some t2)
    with n rows_new [OF a] obtain t where "newborn t" "moves_to ap t t2" by blast
    moreover from rows_row [OF b Some] n have "moves_to ap t2 t'" by simp
    ultimately show ?thesis by (meson rtranclp_trans)
  qed
qed

lemma origin_row: "get_task (task_id t) h = Some t \<Longrightarrow> origin ap h t"
  unfolding origin_def by blast

lemma origin_trans:
  assumes a: "rows ap h1 h2" and b: "origin ap h2 t"
  shows "origin ap h1 t"
proof -
  from b obtain t0 where t0: "get_task (task_id t) h2 = Some t0 \<or> get_task (task_id t) h2 = None \<and> newborn t0"
    "moves_to ap t0 t" unfolding origin_def by blast
  show ?thesis
  proof (cases "get_task (task_id t) h1")
    case None
    then show ?thesis
    proof (cases "get_task (task_id t) h2")
      case (Some t2)
      with rows_new [OF a None] t0 show ?thesis unfolding origin_def using None by (metis option.inject option.simps(3) rtranclp_trans)
    qed (use t0 None in \<open>auto simp: origin_def\<close>)
  next
    case (Some t1)
    from rows_row [OF a Some] t0 show ?thesis unfolding origin_def using Some by (metis option.inject option.simps(3) rtranclp_trans)
  qed
qed

lemma freed_trans:
  assumes r: "rows ap h2 h3" and a: "freed h1 h2" and b: "freed h2 h3"
  shows "freed h1 h3"
  unfolding freed_def
proof (intro conjI allI impI)
  show "set (releases h1) \<subseteq> set (releases h3)" using a b unfolding freed_def by blast
  fix i t' assume t': "get_task i h3 = Some t' \<and> is_finished t' \<and> (\<forall>t. get_task i h1 = Some t \<longrightarrow> \<not> is_finished t)"
  show "container_of t' \<in> set (releases h3)"
  proof (cases "\<exists>t2. get_task i h2 = Some t2 \<and> is_finished t2")
    case True
    then obtain t2 where t2: "get_task i h2 = Some t2" "is_finished t2" by blast
    with a t' have "container_of t2 \<in> set (releases h2)" unfolding freed_def by blast
    moreover from rows_row [OF r t2(1)] t' have "container_of t' = container_of t2" by (auto dest: moves_to_same)
    ultimately show ?thesis using b unfolding freed_def by auto
  next
    case False
    with b t' show ?thesis unfolding freed_def by blast
  qed
qed

lemma evolves_trans:
  assumes "evolves ap h1 h2" "evolves ap h2 h3"
  shows "evolves ap h1 h3"
  unfolding evolves_def
proof
  assume k: "tasks_keyed h1"
  with assms(1) have a: "tasks_keyed h2" "rows ap h1 h2" "waits ap h1 h2" "sent ap h1 h2" "freed h1 h2"
    by (simp_all add: evolves_def)
  with assms(2) have b: "tasks_keyed h3" "rows ap h2 h3" "waits ap h2 h3" "sent ap h2 h3" "freed h2 h3"
    by (simp_all add: evolves_def)
  have x: "has_row t h2 \<Longrightarrow> has_row t h3" for t using b(2) by (rule has_row_rows)
  have "waits ap h1 h3"
    using a(3) b(3) origin_trans [OF a(2)] x unfolding waits_def by blast
  moreover have "sent ap h1 h3"
  proof -
    from a(4) obtain cs where c: "outbox h2 = outbox h1 @ cs"
      "\<And>c t. c \<in> set cs \<Longrightarrow> dispatched c = Some t \<Longrightarrow> origin ap h1 t \<and> cleared t \<and> has_row t h2 \<and> carries c" unfolding sent_def by blast
    from b(4) obtain ds where d: "outbox h3 = outbox h2 @ ds"
      "\<And>c t. c \<in> set ds \<Longrightarrow> dispatched c = Some t \<Longrightarrow> origin ap h2 t \<and> cleared t \<and> has_row t h3 \<and> carries c" unfolding sent_def by blast
    show ?thesis unfolding sent_def
      by (rule exI [of _ "cs @ ds"]) (use c d origin_trans [OF a(2)] x in force)
  qed
  ultimately show "tasks_keyed h3 \<and> rows ap h1 h3 \<and> waits ap h1 h3 \<and> sent ap h1 h3 \<and> freed h1 h3"
    using b(1) rows_trans [OF a(2) b(2)] freed_trans [OF b(2) a(5) b(5)] by simp
qed

subsection \<open>The table stays keyed\<close>

lemma get_task_save:
  "get_task i (save_task t h) =
     (if i = task_id t then (if get_task i h = None then None else Some t) else get_task i h)"
  by (auto simp: get_task_def save_task_def get_update map_of_eq_None_iff)

lemma save_task_frame [simp]:
  "nodes (save_task t h) = nodes h" "releases (save_task t h) = releases h" "suspended (save_task t h) = suspended h"
  "outbox (save_task t h) = outbox h" "overlay (save_task t h) = overlay h" "ip_manager (save_task t h) = ip_manager h"
  "kernel (save_task t h) = kernel h"
  by (simp_all add: save_task_def)

lemma tasks_keyed_save [simp, intro]: "tasks_keyed h \<Longrightarrow> tasks_keyed (save_task t h)"
  by (simp add: save_task_def)

lemma row_id: "tasks_keyed h \<Longrightarrow> get_task i h = Some t \<Longrightarrow> task_id t = i"
  unfolding get_task_def by (rule keyed_get)

lemma row_in_hand: "tasks_keyed h \<Longrightarrow> get_task i h = Some t \<Longrightarrow> get_task (task_id t) h = Some t"
  by (simp add: row_id)

lemma select_tasks_row: "tasks_keyed h \<Longrightarrow> t \<in> set (select_tasks P h) \<longleftrightarrow> get_task (task_id t) h = Some t \<and> P t"
  by (auto simp: select_tasks_def get_task_def keyed_values simp del: set_map)

lemma select_tasks_distinct: "tasks_keyed h \<Longrightarrow> distinct (map task_id (select_tasks P h))"
  unfolding select_tasks_def
  by (rule distinct_map_filter) (simp only: keyed_keys, simp add: keyed_def dict_ok_def)

text \<open>Changes outside the task table.\<close>

lemma tasks_frames [simp]:
  "tasks (schedule_ip_release t h) = tasks h" "tasks (suspend a h) = tasks h" "tasks (send_call c h) = tasks h"
  "tasks (save_node n h) = tasks h" "tasks (release_task_ips cfg cn h) = tasks h" "tasks (run_release cfg k h) = tasks h"
  "tasks (mark_node_offline n h) = tasks h" "tasks (mark_overlay_inactive cfg m h) = tasks h"
  "tasks (mark_overlay_active nl uh cfg now m h) = tasks h" "tasks (claim_reservation lib cfg now rq tg rip cn h) = tasks h"
  by (simp_all add: schedule_ip_release_def suspend_def send_call_def save_node_def release_task_ips_def run_release_def
      mark_node_offline_def mark_overlay_inactive_def mark_overlay_active_def claim_reservation_def
      split: option.split prod.split)

text \<open>The three queues.\<close>

definition same_queues :: "'k host \<Rightarrow> 'k host \<Rightarrow> bool" where
  "same_queues h h' \<longleftrightarrow> suspended h' = suspended h \<and> outbox h' = outbox h \<and> releases h' = releases h"

lemma same_queues_refl [simp]: "same_queues h h"
  by (simp add: same_queues_def)

lemma queues_frames [simp]:
  "same_queues h (save_node n h)" "same_queues h (mark_node_offline n h)" "same_queues h (mark_overlay_inactive cfg m h)"
  "same_queues h (mark_overlay_active nl uh cfg now m h)" "same_queues h (claim_reservation lib cfg now rq tg rip cn h)"
  by (simp_all add: same_queues_def save_node_def mark_node_offline_def mark_overlay_inactive_def mark_overlay_active_def
      claim_reservation_def split: option.split prod.split)

lemma queue_updates [simp]:
  "suspended (schedule_ip_release t h) = suspended h" "outbox (schedule_ip_release t h) = outbox h"
  "releases (schedule_ip_release t h) = releases h @ [container_of t]"
  "suspended (suspend a h) = suspended h @ [a]" "outbox (suspend a h) = outbox h" "releases (suspend a h) = releases h"
  "suspended (send_call c h) = suspended h" "outbox (send_call c h) = outbox h @ [c]" "releases (send_call c h) = releases h"
  by (simp_all add: schedule_ip_release_def suspend_def send_call_def)

lemma get_task_frames [simp]:
  "get_task i (schedule_ip_release t h) = get_task i h" "get_task i (suspend a h) = get_task i h"
  "get_task i (send_call c h) = get_task i h"
  by (simp_all add: get_task_def)

subsection \<open>Elementary steps\<close>

lemma evolves_keyed: "(tasks_keyed h \<Longrightarrow> evolves ap h h') \<Longrightarrow> evolves ap h h'"
  by (simp add: evolves_def)

lemma rows_same: "tasks h' = tasks h \<Longrightarrow> rows ap h h'"
  unfolding rows_def get_task_def by auto

lemma evolves_same: "tasks h' = tasks h \<Longrightarrow> same_queues h h' \<Longrightarrow> evolves ap h h'"
  by (auto simp: evolves_def rows_same waits_def sent_def freed_def same_queues_def get_task_def)

lemma evolves_refl [simp, intro]: "evolves ap h h"
  by (simp add: evolves_same)

lemma evolves_schedule: "evolves ap h (schedule_ip_release t h)"
  by (auto simp: evolves_def rows_same waits_def sent_def freed_def get_task_def)

lemma evolves_suspend:
  assumes "\<And>t. instance_of a = Some t \<Longrightarrow> get_task (task_id t) h = Some t \<and> suits a t"
  shows "evolves ap h (suspend a h)"
  using assms by (auto simp: evolves_def rows_same waits_def sent_def freed_def get_task_def [symmetric] origin_row has_row_def)

lemma evolves_send:
  assumes "\<And>t. dispatched c = Some t \<Longrightarrow> get_task (task_id t) h = Some t \<and> cleared t \<and> carries c"
  shows "evolves ap h (send_call c h)"
  using assms by (auto simp: evolves_def rows_same waits_def sent_def freed_def get_task_def [symmetric] origin_row has_row_def)

lemma rows_save:
  assumes "get_task (task_id t) h = Some t" "task_id t' = task_id t" "moves ap t t'"
  shows "rows ap h (save_task t' h)"
  using assms unfolding rows_def by (auto simp: get_task_save)

text \<open>A write of the row just read; a write that ends the task comes with the scheduling of its
  release.\<close>

lemma evolves_save:
  assumes "get_task i h = Some t" "moves ap t t'" "is_finished t' \<Longrightarrow> is_finished t"
  shows "evolves ap h (save_task t' h)"
proof (rule evolves_keyed)
  assume k: "tasks_keyed h"
  have t: "get_task (task_id t) h = Some t" "task_id t = i" "task_id t' = i"
    using row_in_hand [OF k assms(1)] row_id [OF k assms(1)] moves_same [OF assms(2)] by simp_all
  have "freed h (save_task t' h)"
    using assms t by (auto simp: freed_def get_task_save)
  then show ?thesis
    using k rows_save [OF t(1) _ assms(2)] t(2,3) by (auto simp: evolves_def waits_def sent_def)
qed

lemma evolves_finish:
  assumes "get_task i h = Some t" "moves ap t t'" "container_of t'' = container_of t"
  shows "evolves ap h (schedule_ip_release t'' (save_task t' h))"
proof (rule evolves_keyed)
  assume k: "tasks_keyed h"
  have t: "get_task (task_id t) h = Some t" "task_id t = i" "task_id t' = i" "container_of t' = container_of t''"
    using row_in_hand [OF k assms(1)] row_id [OF k assms(1)] moves_same [OF assms(2)] assms(3) by simp_all
  have "freed h (schedule_ip_release t'' (save_task t' h))"
    using assms(1) t by (auto simp: freed_def get_task_save)
  moreover have "rows ap h (schedule_ip_release t'' (save_task t' h))"
    using rows_trans [OF rows_save [OF t(1) _ assms(2)] rows_same] t(2,3) by simp
  ultimately show ?thesis using k by (auto simp: evolves_def waits_def sent_def)
qed

lemma create_task_row: "create_task t h = Some (t', h') \<Longrightarrow> t' = t \<and> get_task (task_id t) h' = Some t"
  by (auto simp: create_task_def get_task_def get_update split: if_splits)

lemma create_task_get:
  assumes "create_task t h = Some (t', h')"
  shows "get_task i h' = (if i = task_id t then Some t else get_task i h)" "get_task (task_id t) h = None"
  using assms by (auto simp: create_task_def get_task_def get_update map_of_eq_None_iff split: if_splits)

lemma evolves_create:
  assumes "create_task t h = Some (t', h')" "newborn t"
  shows "evolves ap h h'"
proof -
  note g = create_task_get [OF assms(1)]
  have n: "\<not> is_finished t" using assms(2) by (auto simp: newborn_def is_finished_def TERMINAL_TASK_STATES_def)
  have "rows ap h h'" using g assms(2) unfolding rows_def by auto
  moreover have "tasks_keyed h \<Longrightarrow> tasks_keyed h'" "same_queues h h'"
    using assms(1) by (auto simp: create_task_def same_queues_def split: if_splits)
  ultimately show ?thesis using n g by (auto simp: evolves_def waits_def sent_def freed_def same_queues_def)
qed

lemma evolves_then_same: "evolves ap h h' \<Longrightarrow> tasks h'' = tasks h' \<Longrightarrow> same_queues h' h'' \<Longrightarrow> evolves ap h h''"
  by (rule evolves_trans [OF _ evolves_same])

text \<open>A pass that handles every task of a selection, each once: the instance in hand is still the
  row when its turn comes.\<close>

lemma fold_evolves:
  assumes "\<And>t s. get_task (task_id t) s = Some t \<Longrightarrow> P t \<Longrightarrow> evolves ap s (f t s)"
    and "\<And>t s i. i \<noteq> task_id t \<Longrightarrow> get_task i (f t s) = get_task i s"
  shows "evolves ap h (fold f (select_tasks P h) h)"
proof -
  have "evolves ap s (fold f ts s)"
    if "distinct (map task_id ts)" "\<forall>t \<in> set ts. get_task (task_id t) s = Some t \<and> P t" for ts s
    using that
  proof (induction ts arbitrary: s)
    case (Cons t ts)
    have f: "evolves ap s (f t s)" using assms(1) [of t s] Cons.prems by simp
    have "get_task (task_id t') (f t s) = Some t' \<and> P t'" if m: "t' \<in> set ts" for t'
    proof -
      have "task_id t' \<noteq> task_id t" using Cons.prems(1) imageI [OF m, of task_id] by auto
      with assms(2) [of "task_id t'" t s] Cons.prems(2) m show ?thesis by simp
    qed
    with Cons.IH [of "f t s"] Cons.prems(1) f show ?case by (auto intro: evolves_trans)
  qed simp
  then show ?thesis
    by (rule evolves_keyed) (use select_tasks_row [of h _ P] in \<open>auto simp: select_tasks_distinct\<close>)
qed

end
