(* ===== verification/Host_Lifecycle.thy ===== *)
theory Host_Lifecycle
  imports Host_System
begin

text \<open>
  Every handler that works on the rows it has just read moves them along \<open>moves\<close>, holds and
  dispatches only instances it has just read, and schedules the release of what it ends; only the
  handlers that go on after a reply write an older instance.
\<close>

section \<open>Each handler\<close>

lemma evolves_end_task:
  assumes "get_task i h = Some t" "\<not> is_finished t" "st \<in> set TERMINAL_TASK_STATES" "st \<noteq> ''completed''"
  shows "evolves ap h (end_task st msg code now t h)"
  unfolding end_task_def Let_def
  by (rule evolves_finish [OF assms(1) ended [OF assms(2-4)]]) (simp add: container_of_def)

lemma get_task_end_task: "i \<noteq> task_id t \<Longrightarrow> get_task i (end_task st msg code now t h) = get_task i h"
  by (simp add: end_task_def Let_def get_task_save)

lemma terminal [simp]:
  "''completed'' \<in> set TERMINAL_TASK_STATES" "''failed'' \<in> set TERMINAL_TASK_STATES"
  "''killed'' \<in> set TERMINAL_TASK_STATES" "''killed_oom'' \<in> set TERMINAL_TASK_STATES"
  "''lost'' \<in> set TERMINAL_TASK_STATES" "''stopped'' \<in> set TERMINAL_TASK_STATES"
  "''running'' \<notin> set TERMINAL_TASK_STATES" "''assigning'' \<notin> set TERMINAL_TASK_STATES"
  "''pending'' \<notin> set TERMINAL_TASK_STATES" "''paused'' \<notin> set TERMINAL_TASK_STATES"
  "''pending_approval'' \<notin> set TERMINAL_TASK_STATES" "''rejected'' \<notin> set TERMINAL_TASK_STATES"
  by (simp_all add: TERMINAL_TASK_STATES_def)

lemma fold_end_task:
  assumes "\<And>t. P t \<Longrightarrow> \<not> is_finished t" "st \<in> set TERMINAL_TASK_STATES" "st \<noteq> ''completed''"
  shows "evolves ap h (fold (\<lambda>t. end_task st (msg t) code now t) (select_tasks P h) h)"
  by (rule fold_evolves) (use assms in \<open>auto intro: evolves_end_task simp: get_task_end_task\<close>)

lemma update_task_status_evolves:
  assumes "snd ap (su_status u)"
  shows "evolves ap h (snd (update_task_status now i u h))"
proof (cases "get_task i h")
  case (Some t)
  show ?thesis
  proof (cases "validate_status_transition t (su_status u)")
    case True
    let ?t = "apply_task_updates now u (status t = ''lost'' \<and> su_status u = ''running'') t"
    have "evolves ap h (save_task ?t h)" if "su_status u \<notin> set TERMINAL_TASK_STATES"
      by (rule evolves_save [OF Some updated [OF assms True]]) (use that in \<open>simp add: is_finished_def apply_task_updates_def\<close>)
    moreover have "evolves ap h (schedule_ip_release ?t (save_task ?t h))"
      by (rule evolves_finish [OF Some updated [OF assms True]]) (simp add: container_of_def apply_task_updates_def)
    ultimately show ?thesis using True Some by (simp add: update_task_status_def Let_def)
  qed (simp add: update_task_status_def Some)
qed (simp add: update_task_status_def)

lemma handle_dead_node_evolves: "evolves ap h (handle_dead_node now n h)"
  unfolding handle_dead_node_def mark_node_tasks_lost_def
  by (rule evolves_trans [OF evolves_same fold_end_task]) (auto simp: is_finished_def)

lemma cleanup_evolves: "evolves ap h (cleanup_orphaned_pending_tasks now h)"
  unfolding cleanup_orphaned_pending_tasks_def Let_def
  by (rule evolves_trans [OF fold_end_task fold_end_task])
    (auto simp: is_pending_def is_finished_def)

lemma monitor_nodes_evolves: "evolves ap h (monitor_nodes cfg now ns h)"
proof (induction ns arbitrary: h)
  case (Cons n ns)
  have d: "evolves ap h (handle_dead_node now n h)" by (rule handle_dead_node_evolves)
  then have "evolves ap h (suspend (AwaitOverlayLock (hostname n) ns) (handle_dead_node now n h))"
    by (rule evolves_trans [OF _ evolves_suspend]) simp
  with evolves_trans [OF d Cons.IH] show ?case by (simp add: Let_def)
qed (simp add: cleanup_evolves)

lemma check_dead_runners_evolves: "evolves ap h (check_dead_runners cfg now h)"
  by (simp add: check_dead_runners_def monitor_nodes_evolves)

lemma finish_mark_inactive_evolves: "evolves ap h (finish_mark_inactive cfg now x ns h)"
  unfolding finish_mark_inactive_def
  by (rule evolves_trans [OF evolves_same monitor_nodes_evolves]) simp_all

lemma confirm_evolves:
  "get_task i h = Some t \<Longrightarrow> status t \<in> {''assigning'', ''pending''} \<Longrightarrow> evolves ap h (confirm_task_running now t h)"
  unfolding confirm_task_running_def
  by (rule evolves_save, assumption, rule confirmed) (simp_all add: is_finished_def)

lemma get_task_confirm: "i \<noteq> task_id t \<Longrightarrow> get_task i (confirm_task_running now t h) = get_task i h"
  by (simp add: confirm_task_running_def get_task_save)

lemma reconcile_evolves:
  "evolves ap h (reconcile_assigning_tasks cfg running n now h)" (is ?A)
  "evolves ap h (reconcile_pending_tasks cfg running n now h)" (is ?B)
proof -
  show ?A unfolding reconcile_assigning_tasks_def
  proof (rule fold_evolves)
    fix t s i
    let ?f = "if task_id t \<in> set running then confirm_task_running now t else check_task_assignment_timeout cfg n now t"
    show "evolves ap s (?f s)" if "get_task (task_id t) s = Some t" "assigned_node t = Some n \<and> status t = ''assigning''"
      for s :: "'a host"
    proof -
      have "evolves ap s (save_task (t\<lparr>assignment_suspicion_count := assignment_suspicion_count t + 1\<rparr>) s)"
        by (rule evolves_save [OF that(1) suspected]) (simp add: is_finished_def)
      with that show ?thesis
        by (auto simp: check_task_assignment_timeout_def is_finished_def intro: confirm_evolves evolves_end_task)
    qed
    show "get_task i (?f s) = get_task i s" if "i \<noteq> task_id t" for s :: "'a host"
      using that by (simp add: check_task_assignment_timeout_def get_task_confirm get_task_save get_task_end_task)
  qed
  show ?B unfolding reconcile_pending_tasks_def
    by (rule fold_evolves)
      (auto simp: reconcile_pending_task_def is_finished_def get_task_confirm get_task_end_task
        intro: confirm_evolves evolves_end_task)
qed

lemma process_killed_evolves: "evolves ap h (process_killed_tasks now ks h)"
proof -
  have "evolves ap s (process_killed_task now k s)" for k and s :: "'a host"
    by (auto simp: process_killed_task_def intro: evolves_end_task split: option.split)
  then show ?thesis unfolding process_killed_tasks_def
    by (induction ks arbitrary: h) (simp, metis evolves_trans fold_simps(2))
qed

lemma heartbeat_evolves: "evolves ap h (snd (heartbeat nl uh cfg now n rq h))"
proof (cases "get_node n h")
  case (Some nd)
  let ?h1 = "update_node_metrics now rq nd h"
  let ?h4 = "reconcile_pending_tasks cfg (hb_running rq) n now
    (reconcile_assigning_tasks cfg (hb_running rq) n now (process_killed_tasks now (hb_killed rq) ?h1))"
  have "evolves ap h ?h1" by (rule evolves_same) (simp_all add: update_node_metrics_def)
  then have e: "evolves ap h ?h4"
    by (blast intro: evolves_trans process_killed_evolves reconcile_evolves)
  have "evolves ap h (mark_overlay_active nl uh cfg now n ?h4)" by (rule evolves_then_same [OF e]) simp_all
  with e Some show ?thesis by (simp add: heartbeat_def Let_def)
qed (simp add: heartbeat_def)

lemma allocate_overlay_frame [simp]:
  "tasks (snd (allocate_overlay_for_runner nl uh cfg now n u h)) = tasks h"
  "same_queues h (snd (allocate_overlay_for_runner nl uh cfg now n u h))"
  by (simp_all add: allocate_overlay_for_runner_def same_queues_def Let_def split: option.split prod.split sum.split)

lemma register_node_evolves: "evolves ap h (snd (register_node nl uh cfg now rq h))"
proof (rule evolves_same)
  show "tasks (snd (register_node nl uh cfg now rq h)) = tasks h"
    by (simp add: register_node_def Let_def case_prod_beta split: option.split)
  have q: "same_queues h (snd (allocate_overlay_for_runner nl uh cfg now n u s))" if "same_queues h s" for n u s
    using that allocate_overlay_frame(2) [of s nl uh cfg now n u] by (simp add: same_queues_def)
  show "same_queues h (snd (register_node nl uh cfg now rq h))"
    by (auto simp: register_node_def Let_def case_prod_beta intro!: q split: option.split) (simp_all add: same_queues_def save_node_def)
qed

lemma guard_role_evolves: "evolves ap h (snd (f h)) \<Longrightarrow> evolves ap h (snd (guard_role r u f h))"
  by (simp add: guard_role_def split: sum.split)

lemma ended_keep_code:
  "\<not> is_finished t \<Longrightarrow> st \<in> set TERMINAL_TASK_STATES \<Longrightarrow> st \<noteq> ''completed'' \<Longrightarrow>
   moves ap t (t\<lparr>status := st, error_message := msg, completed_at := Some now\<rparr>)"
proof -
  assume a: "\<not> is_finished t" "st \<in> set TERMINAL_TASK_STATES" "st \<noteq> ''completed''"
  have e: "t\<lparr>status := st, error_message := msg, completed_at := Some now, exit_code := exit_code t\<rparr> =
      t\<lparr>status := st, error_message := msg, completed_at := Some now\<rparr>"
    by (rule task.equality) simp_all
  show ?thesis using ended [OF a, where msg = msg and now = now and code = "exit_code t"] unfolding e .
qed

lemma moves_new_task_fails:
  "status t = ''assigning'' \<Longrightarrow> moves ap t (t\<lparr>status := ''failed'', error_message := msg, completed_at := Some now\<rparr>)"
  by (rule ended_keep_code) (simp_all add: is_finished_def)

lemma with_row_evolves:
  "(\<And>t. find_row h = Some t \<Longrightarrow> evolves ap h (snd (f t h))) \<Longrightarrow> evolves ap h (snd (with_row find_row msg f h))"
  by (simp add: with_row_def split: option.split)

lemma mark_task_killed_evolves:
  "get_task i h = Some t \<Longrightarrow> status t \<in> set killable_states \<Longrightarrow> evolves ap h (mark_task_killed now m t h)"
  unfolding mark_task_killed_def
  by (rule evolves_finish [OF _ ended_keep_code]) (auto simp: is_finished_def killable_states_def)

lemma evolves_notify: "evolves ap h h' \<Longrightarrow> dispatched c = None \<Longrightarrow> evolves ap h (send_call c h')"
  by (rule evolves_trans [OF _ evolves_send]) auto

lemma evolves_await: "evolves ap h h' \<Longrightarrow> instance_of a = None \<Longrightarrow> evolves ap h (suspend a h')"
  by (rule evolves_trans [OF _ evolves_suspend]) auto

lemma request_kill_evolves: "evolves ap h (snd (request_kill_task now u i h))"
  unfolding request_kill_task_def
  by (intro guard_role_evolves with_row_evolves)
    (auto simp: Let_def intro!: evolves_notify evolves_await mark_task_killed_evolves split: option.split)

text \<open>A request sent and a handler suspended with the row just read.\<close>

lemma evolves_ask:
  assumes "get_task i h = Some t" "suits a t" "instance_of a = Some t" "dispatched c = None \<or> dispatched c = Some t \<and> cleared t \<and> carries c"
  shows "evolves ap h (suspend a (send_call c h))"
proof (rule evolves_keyed)
  assume "tasks_keyed h"
  then have "get_task (task_id t) h = Some t" using assms(1) by (rule row_in_hand)
  with assms show ?thesis by (auto intro!: evolves_trans [OF evolves_send evolves_suspend])
qed

lemma command_evolves: "evolves ap h (snd (send_command_to_task u i c h))"
  unfolding send_command_to_task_def
  by (intro guard_role_evolves with_row_evolves)
    (auto intro!: evolves_ask simp: suits_def is_finished_def split: option.split)

lemma saved_row: "tasks_keyed h \<Longrightarrow> get_task i h = Some t \<Longrightarrow> task_id t' = task_id t \<Longrightarrow>
  get_task (task_id t') (save_task t' h) = Some t'"
  by (simp add: get_task_save row_id)

lemma evolves_dispatch:
  assumes "get_task i h = Some t" "cleared t" "dispatched c = Some t" "carries c"
  shows "evolves ap h (send_call c h)"
proof (rule evolves_keyed)
  assume "tasks_keyed h"
  then have "get_task (task_id t) h = Some t" using assms(1) by (rule row_in_hand)
  with assms show ?thesis by (auto intro: evolves_send)
qed

lemma dispatch_approved_evolves:
  assumes "get_task i h = Some t" "status t = ''assigning''" "cleared t"
  shows "evolves ap h (dispatch_approved t h)"
proof -
  have "evolves ap h (save_task (t\<lparr>status := ''pending'', assigned_node := None\<rparr>) h)"
    by (rule evolves_save [OF assms(1) unplaced [OF assms(2)]]) (simp add: is_finished_def)
  with assms show ?thesis
    by (auto simp: dispatch_approved_def send_task_to_runner_def Let_def suits_def is_finished_def
        intro!: evolves_ask evolves_dispatch split: option.split)
qed

lemma approve_task_evolves:
  assumes "\<not> isl (check_role ''operator'' u) \<Longrightarrow> fst ap"
  shows "evolves ap h (snd (approve_task now u i h))"
proof (cases "check_role ''operator'' u")
  case (Inr x)
  with assms have ap: "fst ap" by simp
  show ?thesis unfolding approve_task_def
  proof (intro guard_role_evolves with_row_evolves)
    fix t assume t: "get_task i h = Some t"
    let ?t = "approved_task now u t"
    have "evolves ap h (dispatch_approved ?t (save_task ?t h))" if p: "status t = ''pending_approval''"
    proof (rule evolves_keyed)
      assume k: "tasks_keyed h"
      have "evolves ap h (save_task ?t h)"
        unfolding approved_task_def
        by (rule evolves_save [OF t approved [OF ap p]]) (simp add: is_finished_def)
      moreover have "evolves ap (save_task ?t h) (dispatch_approved ?t (save_task ?t h))"
        by (rule dispatch_approved_evolves [OF saved_row [OF k t]]) (simp_all add: approved_task_def cleared_def)
      ultimately show "evolves ap h (dispatch_approved ?t (save_task ?t h))" by (rule evolves_trans)
    qed
    then show "evolves ap h (snd (if status t \<noteq> ''pending_approval''
       then (Inl (HTTPException 409 (''Task is not pending approval (status: '' @ status t @ '')'')), h)
       else let t' = approved_task now u t in (Inr (), dispatch_approved t' (save_task t' h))))"
      by (simp add: Let_def)
  qed
qed (simp add: approve_task_def guard_role_def)

lemma reject_task_evolves: "evolves ap h (snd (reject_task now u i reason h))"
  unfolding reject_task_def
  by (intro guard_role_evolves with_row_evolves) (auto intro!: evolves_save rejected simp: is_finished_def)

section \<open>Submission\<close>

lemma auto_allocate_frame [simp]:
  "tasks (snd (auto_allocate_flat_ips cfg now rnd tg nets rip pr c h)) = tasks h"
  "same_queues h (snd (auto_allocate_flat_ips cfg now rnd tg nets rip pr c h))"
  by (simp_all add: auto_allocate_flat_ips_def same_queues_def split: option.split prod.split)

lemma new_task_newborn: "newborn (new_task now i rq n numa gpus tc batch port)"
  by (simp add: newborn_def new_task_def Let_def)

lemma new_vps_newborn: "newborn (new_vps_task now i s port n c backend u)"
  by (simp add: newborn_def new_vps_task_def)

text \<open>What follows the record, for command tasks and VPS alike: the row is left alone, or fails when
  the address pool is exhausted.\<close>

lemma fail_new_evolves:
  assumes "get_task i h = Some t" "status t = ''assigning''" "tasks h2 = tasks h" "same_queues h h2"
    "container_of t' = container_of t"
  shows "evolves ap h (schedule_ip_release t' (save_task (t\<lparr>status := ''failed'', error_message := msg, completed_at := Some now\<rparr>) h2))"
proof (rule evolves_trans [OF evolves_same [OF assms(3,4)]])
  have "get_task i h2 = Some t" using assms(1,3) by (simp add: get_task_def)
  then show "evolves ap h2 (schedule_ip_release t' (save_task (t\<lparr>status := ''failed'', error_message := msg, completed_at := Some now\<rparr>) h2))"
    by (rule evolves_finish [OF _ moves_new_task_fails]) (simp_all add: assms)
qed

lemma dispatch_task_evolves:
  assumes "get_task i h = Some t" "status t = ''assigning''" "cleared t" "d_task d = t" "d_container d = container_name t"
  shows "evolves ap h (snd (dispatch_task t n rq d h))"
  using assms
  by (auto simp: dispatch_task_def send_task_to_runner_def suits_def is_finished_def intro!: evolves_ask evolves_dispatch)

lemma place_task_evolves:
  assumes "get_task (task_id t) h = Some t" "status t = ''assigning''" "cleared t"
  shows "evolves ap h (snd (place_task lib cfg now rnd rq tg n rip t h))"
proof -
  let ?h1 = "claim_reservation lib cfg now rq tg rip (container_of t) h"
  obtain r h2 where a: "auto_allocate_flat_ips cfg now rnd tg (resolved_networks rq) rip (sb_network rq) (container_of t) ?h1 = (r, h2)"
    by fastforce
  then have h2: "tasks h2 = tasks h" "same_queues h h2"
    using auto_allocate_frame(1) [of cfg now rnd tg "resolved_networks rq" rip "sb_network rq" "container_of t" ?h1]
      auto_allocate_frame(2) [of ?h1 cfg now rnd tg "resolved_networks rq" rip "sb_network rq" "container_of t"]
      queues_frames(5) [of h lib cfg now rq tg rip "container_of t"] by (simp_all add: same_queues_def)
  show ?thesis
  proof (cases r)
    case (Inl e)
    with a h2 show ?thesis
      by (cases e) (auto simp: place_task_def Let_def container_of_def intro: evolves_same fail_new_evolves [OF assms(1,2)])
  next
    case (Inr ips)
    have "get_task (task_id t) h2 = Some t" using assms(1) h2 by (simp add: get_task_def)
    with evolves_same [OF h2, of ap] have "evolves ap h (snd (dispatch_task t n rq d h2))" if "d_task d = t" "d_container d = container_name t" for d
      using that assms by (blast intro: evolves_trans dispatch_task_evolves)
    with a Inr show ?thesis by (auto simp: place_task_def Let_def case_prod_beta)
  qed
qed

lemma newborn_cleared: "newborn t \<Longrightarrow> status t \<noteq> ''pending_approval'' \<Longrightarrow> status t = ''assigning'' \<and> cleared t"
  by (auto simp: newborn_def cleared_def)

lemma process_target_evolves: "evolves ap h (snd (process_target lib cfg now rnd i rq ts gpus tc batch h))"
proof -
  have "evolves ap h h1 \<and> evolves ap h (snd (place_task lib cfg now rnd rq tg n rip t h1))"
    if "create_task_record now i rq n numa gpus tc b h = Some (t, h1)" "status t \<noteq> ''pending_approval''" for t h1 n numa b tg rip
  proof -
    from that(1) have c: "create_task t h = Some (t, h1)" "newborn t"
      by (auto simp: create_task_record_def new_task_newborn dest: create_task_row)
    have "evolves ap h1 (snd (place_task lib cfg now rnd rq tg n rip t h1))"
      using newborn_cleared [OF c(2) that(2)] create_task_row [OF c(1)] by (intro place_task_evolves) auto
    with evolves_create [OF c] show ?thesis by (blast intro: evolves_trans)
  qed
  moreover have "evolves ap h h1" if "create_task_record now i rq n numa gpus tc b h = Some (t, h1)" for t h1 n numa b
    using that by (auto simp: create_task_record_def intro: evolves_create new_task_newborn)
  ultimately show ?thesis
    by (auto simp: process_target_def split: option.split prod.split sum.split)
qed

lemma process_targets_evolves: "evolves ap h (snd (process_targets lib cfg now rnd ids rq tc k first ts h))"
proof (induction ts arbitrary: k first h)
  case (Cons t ts)
  obtain tg gpus where t: "t = (tg, gpus)" by fastforce
  obtain r h' where p: "process_target lib cfg now (rnd k) (ids k) rq tg gpus tc first h = (r, h')" by fastforce
  then have e: "evolves ap h h'"
    using process_target_evolves [of ap h lib cfg now "rnd k" "ids k" rq tg gpus tc first] by simp
  show ?case
  proof (cases r)
    case (Inr x)
    let ?first = "case (first, x) of (None, Created i) \<Rightarrow> Some i | (None, Dispatching i) \<Rightarrow> Some i | _ \<Rightarrow> first"
    obtain rs h'' where q: "process_targets lib cfg now rnd ids rq tc (Suc k) ?first ts h' = (rs, h'')" by fastforce
    then have "evolves ap h' h''" using Cons.IH [of h' "Suc k" ?first] by simp
    with e have "evolves ap h h''" by (rule evolves_trans)
    with p q Inr t show ?thesis by (simp add: Let_def split: sum.split)
  qed (use e p t in simp)
qed simp

lemma submit_task_evolves: "evolves ap h (snd (submit_task lib cfg now rnd ids u rq h))"
proof -
  have "evolves ap h h'" if "process_targets lib cfg now rnd ids rq' tc 0 None ts h = (r, h')" for rq' tc ts r h'
    using process_targets_evolves [of ap h lib cfg now rnd ids rq' tc 0 None ts] that by simp
  then show ?thesis unfolding submit_task_def
    by (rule_tac guard_role_evolves) (simp split: sum.split prod.split)
qed

section \<open>VPS\<close>

lemma vps_claim_frame [simp]:
  "tasks (snd (vps_claim lib cfg now s tg c h)) = tasks h" "same_queues h (snd (vps_claim lib cfg now s tg c h))"
  by (simp_all add: vps_claim_def Let_def same_queues_def split: option.split prod.split)

lemma vps_place_created:
  assumes c: "create_task t h = Some (t, h1)" and t: "newborn t" "status t = ''assigning''"
  shows "evolves ap h1 (snd (vps_place cfg now rnd s n t rip h))"
proof -
  have row: "get_task (task_id t) h1 = Some t" using create_task_row [OF c] by simp
  obtain r h2 where a: "auto_allocate_flat_ips_vps cfg now rnd (hostname n) (vps_networks s) (container_of t) rip
      (vps_primary_network s) h1 = (r, h2)" by fastforce
  then have h2: "tasks h2 = tasks h1" "same_queues h1 h2"
    using auto_allocate_frame(1) [of cfg now rnd "hostname n" "vps_networks s" rip "vps_primary_network s" "container_of t" h1]
      auto_allocate_frame(2) [of h1 cfg now rnd "hostname n" "vps_networks s" rip "vps_primary_network s" "container_of t"]
    by (simp_all add: auto_allocate_flat_ips_vps_def)
  show ?thesis
  proof (cases r)
    case (Inl x)
    with a c h2 show ?thesis
      by (cases x) (auto simp: vps_place_def Let_def container_of_def intro: evolves_same fail_new_evolves [OF row t(2)])
  next
    case (Inr ips)
    have "get_task (task_id t) h2 = Some t" using row h2 by (simp add: get_task_def)
    moreover have "\<not> is_finished t" "cleared t" using t newborn_cleared [OF t(1)] by (simp_all add: is_finished_def)
    ultimately have "evolves ap h2 (suspend (AwaitCreateVps t) (send_call c h2))" if "dispatched c = Some t" "carries c" for c
      using that by (auto intro: evolves_ask simp: suits_def)
    with a c Inr show ?thesis by (auto simp: vps_place_def Let_def intro: evolves_trans [OF evolves_same [OF h2]])
  qed
qed

lemma vps_place_evolves:
  assumes "newborn t" "status t = ''assigning''"
  shows "evolves ap h (snd (vps_place cfg now rnd s n t rip h))"
proof (cases "create_task t h")
  case (Some p)
  then obtain h1 where c: "create_task t h = Some (t, h1)" using create_task_row by (metis surj_pair)
  from evolves_trans [OF evolves_create [OF c assms(1)] vps_place_created [OF c assms]] show ?thesis .
qed (simp add: vps_place_def)

lemma bind_st_evolves:
  "evolves ap h (snd (m h)) \<Longrightarrow> (\<And>x s. evolves ap s (snd (f x s))) \<Longrightarrow> evolves ap h (snd (bind_st m f h))"
  by (auto simp: bind_st_def split: prod.splits sum.splits) (metis evolves_trans snd_conv)

lemma submit_vps_evolves: "evolves ap h (snd (submit_vps lib keygen cfg now rnd i u s h))"
proof -
  have "evolves ap h (snd (bind_st (vps_claim lib cfg now s (hostname n) (vps_container_name i))
          (vps_place cfg now rnd s n (new_vps_task now i s port n c backend u)) h))" for n port c backend
    by (rule bind_st_evolves)
      (simp add: evolves_same, rule vps_place_evolves [OF new_vps_newborn], simp add: new_vps_task_def)
  then show ?thesis unfolding submit_vps_def
    by (intro guard_role_evolves) (simp add: Let_def split: sum.split prod.split)
qed

lemma get_vps_row: "get_vps i h = Some t \<Longrightarrow> get_task i h = Some t \<and> is_vps t"
  by (auto simp: get_vps_def is_vps_def split: option.splits if_splits)

lemma stop_vps_evolves: "evolves ap h (snd (stop_vps now u i h))"
  unfolding stop_vps_def
proof (intro guard_role_evolves with_row_evolves)
  fix t assume t: "get_vps i h = Some t"
  let ?t = "t\<lparr>status := ''stopped'', error_message := Some ''Stopped by user.'', completed_at := Some now\<rparr>"
  have e: "evolves ap h (schedule_ip_release ?t (save_task ?t h))" if "status t \<in> set killable_states"
    by (rule evolves_finish [OF conjunct1 [OF get_vps_row [OF t]] ended_keep_code])
      (use that in \<open>auto simp: is_finished_def killable_states_def container_of_def\<close>)
  show "evolves ap h (snd (if status t \<notin> set killable_states
         then (Inl (HTTPException 409 (''VPS cannot be stopped (state: '' @ status t @ '')'')), h)
         else
           let t' = ?t; h1 = schedule_ip_release t' (save_task t' h)
           in (Inr (),
               if status t \<in> {''running'', ''paused''} \<and> truthy (assigned_node t)
               then (case get_node (the (assigned_node t)) h1 of
                       None \<Rightarrow> h1
                     | Some n \<Rightarrow> if is_online n then send_call (VpsStopCall (url n) i) h1 else h1)
               else h1)))"
    using e by (auto simp: Let_def intro: evolves_notify split: option.split)
qed

lemma restart_create_evolves:
  assumes "get_task i h = Some t" "is_vps t" "status t = ''failed''"
  shows "evolves ap h (restart_create cfg t u h)"
proof (rule evolves_keyed)
  assume k: "tasks_keyed h"
  let ?t = "t\<lparr>status := ''assigning'', error_message := None, started_at := None, completed_at := None\<rparr>"
  have "evolves ap h (save_task ?t h)"
    by (rule evolves_save [OF assms(1) restarted [OF assms(2,3)]]) (simp add: is_finished_def)
  moreover have "evolves ap (save_task ?t h) (suspend (AwaitRestartVps ?t) (send_call c (save_task ?t h)))"
    if "dispatched c = Some ?t" "carries c" for c
    by (rule evolves_ask [OF saved_row [OF k assms(1)]]) (use assms that in \<open>simp_all add: suits_def is_finished_def cleared_def is_vps_def\<close>)
  ultimately show "evolves ap h (restart_create cfg t u h)"
    unfolding restart_create_def Let_def by (auto intro: evolves_trans)
qed

lemma restart_vps_evolves: "evolves ap h (snd (restart_vps cfg u i h))"
  unfolding restart_vps_def
  by (intro guard_role_evolves with_row_evolves)
    (auto dest!: get_vps_row intro!: restart_create_evolves evolves_ask evolves_notify simp: suits_def is_finished_def split: option.split)

lemma delete_vm_evolves: "evolves ap h (snd (host_delete_vm_instance u i node force h))"
proof -
  have ask: "evolves ap h (suspend (AwaitVmDelete (delete_marks force (get_task i h))) (send_call (VmDeleteCall v i force) h))" for v
  proof (cases "delete_marks force (get_task i h)")
    case None
    show ?thesis unfolding None by (rule evolves_await [OF evolves_notify]) simp_all
  next
    case (Some t)
    then have "get_task i h = Some t" "\<not> is_finished t"
      by (auto simp: delete_marks_def is_finished_def split: option.splits if_splits)
    then show ?thesis unfolding Some by (intro evolves_ask) (simp_all add: suits_def)
  qed
  show ?thesis unfolding host_delete_vm_instance_def
    by (rule guard_role_evolves) (use ask in \<open>auto split: option.split\<close>)
qed

section \<open>All handlers but the replies and the releases\<close>

lemma ip_endpoint_frame [simp]:
  "tasks (snd (with_ip_manager cfg f h)) = tasks h" "same_queues h (snd (with_ip_manager cfg f h))"
  by (simp_all add: with_ip_manager_def same_queues_def split: option.split prod.split)

text \<open>The events that only read rows, move them and note what follows.\<close>

fun fresh_handler :: "host_event \<Rightarrow> bool" where
  "fresh_handler (ReplyArrives now n r) \<longleftrightarrow> False"
| "fresh_handler (RunRelease n) \<longleftrightarrow> False"
| "fresh_handler e \<longleftrightarrow> True"

fun approver :: "host_event \<Rightarrow> bool" where
  "approver (Approve now u i) \<longleftrightarrow> \<not> isl (check_role ''operator'' u)"
| "approver e \<longleftrightarrow> False"

theorem host_step_evolves:
  assumes "fresh_handler e" "approver e \<Longrightarrow> fst ap" "\<And>now i u. e = StatusUpdate now i u \<Longrightarrow> snd ap (su_status u)"
  shows "evolves ap h (host_step env e h)"
  using assms
  by (cases e)
    (simp_all add: evolves_same register_node_evolves heartbeat_evolves update_task_status_evolves check_dead_runners_evolves
      submit_task_evolves approve_task_evolves reject_task_evolves request_kill_evolves command_evolves submit_vps_evolves
      stop_vps_evolves restart_vps_evolves delete_vm_evolves ep_reserve_ip_def ep_release_ip_reservation_def ep_list_ip_reservations_def)

end
