(* ===== verification/Host_Runs.thy ===== *)
theory Host_Runs
  imports Host_Lifecycle
begin

text \<open>
  The handlers that go on after a reply write the instance they hold, which may be older than the
  row.  The interface \<open>row_law\<close> says what a statement about one task needs in order to survive every
  sequence of events: it is kept by the writes of rows just read, it carries over to the instances
  taken from such rows, and it comes back with the writes of old instances.
\<close>

section \<open>Writes of an old instance\<close>

inductive overwrites :: "task \<Rightarrow> task \<Rightarrow> bool" where
  commanded: "st \<in> {''paused'', ''running''} \<Longrightarrow> overwrites t (t\<lparr>status := st\<rparr>)"
| ported: "overwrites t (t\<lparr>ssh_port := p\<rparr>)"
| addressed: "overwrites t (t\<lparr>vm_ip := p\<rparr>)"
| refused: "overwrites t (t\<lparr>status := ''failed'', error_message := m, completed_at := Some now\<rparr>)"
| stopped: "overwrites t (t\<lparr>status := ''stopped'', error_message := m, completed_at := Some now\<rparr>)"
| recreated: "overwrites t (t\<lparr>status := ''assigning'', error_message := None, started_at := None, completed_at := None\<rparr>)"

lemma overwrites_spec: "overwrites t t' \<Longrightarrow> task_spec.truncate t' = task_spec.truncate t"
  by (induction rule: overwrites.induct) (simp_all add: task_spec.truncate_def)

lemmas overwrites_same = overwrites_spec [THEN same_spec]

text \<open>What the arrival of a reply does to the host: nothing to the rows, or one such write.\<close>

definition written :: "task \<Rightarrow> task \<Rightarrow> 'k host \<Rightarrow> 'k host \<Rightarrow> bool" where
  "written t t' h h' \<longleftrightarrow>
     overwrites t t' \<and> tasks h' = tasks (save_task t' h) \<and> set (releases h) \<subseteq> set (releases h') \<and> ip_manager h' = ip_manager h"

definition quiet :: "'k host \<Rightarrow> 'k host \<Rightarrow> bool" where
  "quiet h h' \<longleftrightarrow> suspended h' = suspended h \<and> outbox h' = outbox h"

lemma finish_kill_evolves: "evolves ap h (finish_kill i r h)"
proof -
  have "evolves ap h (save_task (t\<lparr>error_message := m\<rparr>) h)" if "get_task i h = Some t" for t m
    by (rule evolves_save [OF that noted]) (simp add: is_finished_def)
  then show ?thesis by (auto simp: finish_kill_def update_task_error_message_def split: reply.split option.split)
qed

lemma vps_task_sent_refused: "vps_task_sent t r h = (False, t', h') \<Longrightarrow> t' = t \<and> h' = h"
  by (auto simp: vps_task_sent_def Let_def split: reply.splits if_splits)

lemma vps_task_sent_accepted:
  "vps_task_sent t r h = (True, t', h') \<Longrightarrow> h' = h \<or> overwrites t t' \<and> h' = save_task t' h"
  by (auto simp: vps_task_sent_def Let_def intro: ported split: reply.splits if_splits)

text \<open>The handlers and the pass that hold no instance of a task read the rows anew.\<close>

lemma resume_fresh:
  assumes "instance_of a = None"
  shows "evolves ap h (resume_handler cfg now a r h)"
  using assms
  by (cases a) (auto simp: resume_handler_def finish_kill_evolves finish_mark_inactive_evolves finish_vm_delete_def split: reply.split)

text \<open>The handlers that only write.\<close>

fun plain_await :: "await \<Rightarrow> bool" where
  "plain_await (AwaitStopBeforeRestart t u) \<longleftrightarrow> False"
| "plain_await a \<longleftrightarrow> True"

definition settled :: "task \<Rightarrow> 'k host \<Rightarrow> 'k host \<Rightarrow> bool" where
  "settled t h h' \<longleftrightarrow> quiet h h' \<and> (h' = h \<or> (\<exists>t'. written t t' h h'))"

lemma settled_same [simp, intro]: "settled t h h"
  by (simp add: settled_def quiet_def)

lemma settled_save: "overwrites t t' \<Longrightarrow> settled t h (save_task t' h)"
  by (auto simp: settled_def quiet_def written_def)

lemma ip_manager_frames [simp]:
  "ip_manager (schedule_ip_release t h) = ip_manager h" "ip_manager (suspend a h) = ip_manager h"
  "ip_manager (send_call c h) = ip_manager h" "ip_manager (save_node n h) = ip_manager h"
  by (simp_all add: schedule_ip_release_def suspend_def send_call_def save_node_def)

lemma settled_end: "overwrites t t' \<Longrightarrow> settled t h (schedule_ip_release t'' (save_task t' h))"
  by (auto simp: settled_def quiet_def written_def)

lemma settled_dispatch:
  "settled t h (case vps_task_sent t r h of (ok, t', h') \<Rightarrow>
     if ok then h' else save_task (t'\<lparr>status := ''failed'', error_message := m, completed_at := Some now\<rparr>) h')"
proof -
  obtain ok t1 h1 where v: "vps_task_sent t r h = (ok, t1, h1)" by (cases "vps_task_sent t r h") auto
  show ?thesis
  proof (cases ok)
    case True
    with v vps_task_sent_accepted [of t r h t1 h1] show ?thesis by (auto intro: settled_save)
  next
    case False
    with v vps_task_sent_refused [of t r h t1 h1] show ?thesis by (auto intro: settled_save refused)
  qed
qed

lemma resume_plain:
  assumes "plain_await a" "instance_of a = Some t"
  shows "settled t h (resume_handler cfg now a r h)"
  using assms
  by (cases a)
    (auto simp: resume_handler_def finish_command_def finish_create_vps_def finish_restart_vps_def Let_def
       finish_dispatch_vps_def finish_approve_vps_def finish_vm_delete_def
       intro: commanded addressed refused stopped intro!: settled_dispatch settled_save settled_end split: reply.split)

text \<open>The other two.\<close>

definition recreated_task :: "task \<Rightarrow> task" where
  "recreated_task t = t\<lparr>status := ''assigning'', error_message := None, started_at := None, completed_at := None\<rparr>"

lemma restart_create_effect:
  "tasks (restart_create cfg t u h) = tasks (save_task (recreated_task t) h)"
  "suspended (restart_create cfg t u h) = suspended h @ [AwaitRestartVps (recreated_task t)]"
  "\<exists>d. outbox (restart_create cfg t u h) = outbox h @ [VpsCall u d] \<and> d_task d = recreated_task t"
  "releases (restart_create cfg t u h) = releases h" "ip_manager (restart_create cfg t u h) = ip_manager h"
  by (simp_all add: restart_create_def recreated_task_def Let_def)

lemma remove_nth_set: "n < length xs \<Longrightarrow> set xs = insert (xs ! n) (set (remove_nth n xs))"
  by (simp add: remove_nth_def) (metis Un_insert_right id_take_nth_drop list.simps(15) set_append)

section \<open>Statements about one task\<close>

text \<open>An approval of another task.\<close>

lemma dispatch_approved_frame:
  "j \<noteq> task_id t \<Longrightarrow> get_task j (dispatch_approved t h) = get_task j h"
  by (simp add: dispatch_approved_def Let_def get_task_save send_task_to_runner_def split: option.split)

lemma dispatch_approved_suspended:
  "a \<in> set (suspended (dispatch_approved t h)) \<Longrightarrow> a \<in> set (suspended h) \<or> instance_of a = Some t"
  by (auto simp: dispatch_approved_def Let_def send_task_to_runner_def split: option.splits if_splits)

lemma dispatch_approved_outbox:
  "\<exists>cs. outbox (dispatch_approved t h) = outbox h @ cs \<and> (\<forall>c t'. c \<in> set cs \<and> dispatched c = Some t' \<longrightarrow> task_id t' = task_id t)"
  by (auto simp: dispatch_approved_def Let_def send_task_to_runner_def split: option.splits if_splits)

lemma approve_effect:
  assumes "tasks_keyed h"
  obtains (Nothing) "snd (approve_task now u i h) = h"
  | (Dispatch) t where "task_id t = i" "snd (approve_task now u i h) = dispatch_approved t (save_task t h)"
proof -
  have "snd (approve_task now u i h) = h \<or>
    (\<exists>t. get_task i h = Some t \<and>
       snd (approve_task now u i h) = dispatch_approved (approved_task now u t) (save_task (approved_task now u t) h))"
    by (auto simp: approve_task_def guard_role_def with_row_def Let_def split: sum.split option.split)
  moreover have "task_id (approved_task now u t) = i" if "get_task i h = Some t" for t
    using row_id [OF assms that] by (simp add: approved_task_def)
  ultimately show ?thesis using that by blast
qed

lemma approve_other_row:
  assumes "tasks_keyed h" "j \<noteq> i"
  shows "get_task j (snd (approve_task now u i h)) = get_task j h"
  using assms(1) by (cases rule: approve_effect [of h now u i]) (use assms(2) in \<open>simp_all add: dispatch_approved_frame get_task_save\<close>)

lemma approve_suspended:
  assumes "tasks_keyed h" "a \<in> set (suspended (snd (approve_task now u i h)))"
  shows "a \<in> set (suspended h) \<or> (\<exists>t. instance_of a = Some t \<and> task_id t = i)"
  using assms(1)
proof (cases rule: approve_effect [of h now u i])
  case (Dispatch t)
  with assms(2) dispatch_approved_suspended [of a t "save_task t h"] show ?thesis by auto
qed (use assms(2) in simp)

lemma approve_outbox:
  assumes "tasks_keyed h"
  shows "\<exists>cs. outbox (snd (approve_task now u i h)) = outbox h @ cs \<and>
      (\<forall>c t. c \<in> set cs \<and> dispatched c = Some t \<longrightarrow> task_id t = i)"
  using assms
proof (cases rule: approve_effect [of h now u i])
  case (Dispatch t)
  with dispatch_approved_outbox [of t "save_task t h"] show ?thesis by simp
qed simp

fun approves :: "int \<Rightarrow> host_event \<Rightarrow> bool" where
  "approves i (Approve now u j) \<longleftrightarrow> j = i \<and> \<not> isl (check_role ''operator'' u)"
| "approves i e \<longleftrightarrow> False"

lemma update_other_row:
  assumes "tasks_keyed h" "i \<noteq> j"
  shows "get_task i (snd (update_task_status now j u h)) = get_task i h"
proof (cases "get_task j h")
  case (Some t)
  with assms(1) have "task_id t = j" by (auto simp: get_task_def keyed_def dest: map_of_SomeD)
  then show ?thesis using assms(2) Some
    by (simp add: update_task_status_def Let_def get_task_save apply_task_updates_def schedule_ip_release_def) (simp add: get_task_def save_task_def get_update)
qed (simp add: update_task_status_def)

lemma update_same_queues:
  "suspended (snd (update_task_status now j u h)) = suspended h" "outbox (snd (update_task_status now j u h)) = outbox h"
  by (simp_all add: update_task_status_def Let_def save_task_def schedule_ip_release_def split: option.split)

text \<open>The events of a task that a permit excludes.\<close>

fun excluded :: "permit \<Rightarrow> int \<Rightarrow> host_event \<Rightarrow> bool" where
  "excluded ap i (StatusUpdate now j u) \<longleftrightarrow> j = i \<and> \<not> snd ap (su_status u)"
| "excluded ap i e \<longleftrightarrow> \<not> fst ap \<and> approves i e"

lemma nothing_excluded [simp]: "\<not> excluded anything i e"
  by (cases e) simp_all

lemma excluded_approval [simp]: "excluded no_approval i e \<longleftrightarrow> approves i e"
  by (cases e) simp_all

definition host_init :: "'k host \<Rightarrow> bool" where
  "host_init h \<longleftrightarrow> tasks h = [] \<and> suspended h = [] \<and> outbox h = [] \<and> releases h = []"

lemma reply_arrives_cases:
  assumes "n < length (suspended h)"
  obtains (Fresh) "instance_of (suspended h ! n) = None"
  | (Restart) t u where "suspended h ! n = AwaitStopBeforeRestart t u"
  | (Plain) t where "plain_await (suspended h ! n)" "instance_of (suspended h ! n) = Some t"
  by (cases "suspended h ! n"; cases "instance_of (suspended h ! n)") auto

lemma host_step_keyed: "tasks_keyed h \<Longrightarrow> tasks_keyed (host_step env e h)"
proof (cases "fresh_handler e")
  case True
  assume "tasks_keyed h"
  with host_step_evolves [OF True, of anything h env] show ?thesis by (simp add: evolves_def)
next
  case False
  assume k: "tasks_keyed h"
  show ?thesis
  proof (cases e)
    case (ReplyArrives now n r)
    let ?a = "suspended h ! n" and ?h = "h\<lparr>suspended := remove_nth n (suspended h)\<rparr>"
    have k': "tasks_keyed ?h" using k by simp
    show ?thesis
    proof (cases "n < length (suspended h)")
      case True
      then show ?thesis
      proof (cases rule: reply_arrives_cases)
        case Fresh
        from resume_fresh [OF this, of anything ?h "env_cfg env" now r] k' True ReplyArrives show ?thesis
          by (simp add: reply_arrives_def evolves_def)
      next
        case (Restart t u)
        with k' True ReplyArrives show ?thesis
          by (simp add: reply_arrives_def resume_handler_def restart_create_effect)
      next
        case (Plain t)
        from resume_plain [OF this, of ?h "env_cfg env" now r] k' True ReplyArrives show ?thesis
          by (auto simp: reply_arrives_def settled_def written_def)
      qed
    qed (use k ReplyArrives in \<open>simp add: reply_arrives_def\<close>)
  qed (use False k in auto)
qed

text \<open>\<open>R\<close> of the rows with identifiers in \<open>I\<close>, and \<open>A\<close> of the instances of them that handlers hold.\<close>

definition lawful :: "(task \<Rightarrow> bool) \<Rightarrow> (await \<Rightarrow> task \<Rightarrow> bool) \<Rightarrow> int set \<Rightarrow> 'k host \<Rightarrow> bool" where
  "lawful R A I h \<longleftrightarrow>
     (\<forall>i t. i \<in> I \<and> get_task i h = Some t \<longrightarrow> R t) \<and>
     (\<forall>a t. a \<in> set (suspended h) \<and> instance_of a = Some t \<and> task_id t \<in> I \<longrightarrow> A a t)"

lemma lawful_row: "lawful R A I h \<Longrightarrow> i \<in> I \<Longrightarrow> get_task i h = Some t \<Longrightarrow> R t"
  by (simp add: lawful_def)

lemma lawful_await: "lawful R A I h \<Longrightarrow> a \<in> set (suspended h) \<Longrightarrow> instance_of a = Some t \<Longrightarrow> task_id t \<in> I \<Longrightarrow> A a t"
  by (simp add: lawful_def)

definition exist :: "int set \<Rightarrow> 'k host \<Rightarrow> bool" where
  "exist I h \<longleftrightarrow> (\<forall>i \<in> I. get_task i h \<noteq> None)"

lemma exist_evolves: "tasks_keyed h \<Longrightarrow> evolves ap h h' \<Longrightarrow> exist I h \<Longrightarrow> exist I h'"
  unfolding exist_def evolves_def rows_def by fastforce

lemma exist_written: "written t t' h h' \<Longrightarrow> exist I h \<Longrightarrow> exist I h'"
  by (auto simp: exist_def written_def get_task_def save_task_def get_update)

lemma get_task_written:
  "written t t' h h' \<Longrightarrow> get_task i h' = (if i = task_id t then (if get_task i h = None then None else Some t') else get_task i h)"
  using overwrites_same [of t t'] get_task_save [of i t' h] by (simp add: written_def get_task_def)

lemma run_release_suspended: "suspended (run_release cfg n h) = suspended h" "outbox (run_release cfg n h) = outbox h"
  by (simp_all add: run_release_def release_task_ips_def split: option.split)

text \<open>No event takes a row away.\<close>

lemma host_step_grows:
  assumes "tasks_keyed h" "get_task i h \<noteq> None"
  shows "get_task i (host_step env e h) \<noteq> None"
proof (cases "fresh_handler e")
  case True
  have "exist {i} h" using assms(2) by (simp add: exist_def)
  from exist_evolves [OF assms(1) host_step_evolves [OF True, of anything] this] show ?thesis by (simp add: exist_def)
next
  case False
  show ?thesis
  proof (cases e)
    case (ReplyArrives now n r)
    let ?a = "suspended h ! n" and ?h = "h\<lparr>suspended := remove_nth n (suspended h)\<rparr>"
    have k': "tasks_keyed ?h" and x: "exist {i} ?h" using assms by (simp_all add: exist_def get_task_def)
    have "exist {i} (host_step env e h)"
    proof (cases "n < length (suspended h)")
      case True
      then show ?thesis
      proof (cases rule: reply_arrives_cases)
        case Fresh
        from exist_evolves [OF k' resume_fresh [OF this, of anything] x] True ReplyArrives show ?thesis
          by (simp add: reply_arrives_def)
      next
        case (Restart t u)
        with x True ReplyArrives show ?thesis
          by (auto simp: reply_arrives_def resume_handler_def restart_create_effect exist_def get_task_def save_task_def get_update)
      next
        case (Plain t)
        from resume_plain [OF this, of ?h "env_cfg env" now r] x True ReplyArrives show ?thesis
          by (auto simp: reply_arrives_def settled_def intro: exist_written)
      qed
    qed (use x ReplyArrives in \<open>simp add: reply_arrives_def exist_def get_task_def\<close>)
    then show ?thesis by (simp add: exist_def)
  qed (use False assms in \<open>auto simp: get_task_def\<close>)
qed

text \<open>The laws of a statement about one task, and what they give: from a host where the statement
  holds of a task, it holds after every event that is not an approval the statement excludes.\<close>

locale row_law =
  fixes R :: "task \<Rightarrow> bool" and A :: "await \<Rightarrow> task \<Rightarrow> bool" and ap :: permit
  assumes R_moves: "R t \<Longrightarrow> moves ap t t' \<Longrightarrow> R t'"
    and R_held: "R t \<Longrightarrow> suits a t \<Longrightarrow> A a t"
    and A_overwrites: "A a t \<Longrightarrow> overwrites t t' \<Longrightarrow> R t'"
begin

lemma R_moves_to: "moves_to ap t t' \<Longrightarrow> R t \<Longrightarrow> R t'"
  by (induction rule: rtranclp_induct) (auto intro: R_moves)

lemma origin_lawful:
  assumes "origin ap h t" "lawful R A I h" "task_id t \<in> I" "exist I h \<or> (\<forall>t. newborn t \<longrightarrow> R t)"
  shows "R t"
  using assms unfolding origin_def by (auto intro: R_moves_to lawful_row simp: exist_def)

lemma evolves_lawful:
  assumes "tasks_keyed h" "evolves ap h h'" "lawful R A I h" "exist I h \<or> (\<forall>t. newborn t \<longrightarrow> R t)"
  shows "lawful R A I h'"
proof -
  from assms(1,2) have r: "rows ap h h'" and w: "waits ap h h'" by (simp_all add: evolves_def)
  have "R t" if i: "i \<in> I" "get_task i h' = Some t" for i t
  proof (cases "get_task i h")
    case None
    then have "\<forall>t. newborn t \<longrightarrow> R t" using assms(4) i(1) by (auto simp: exist_def)
    with rows_new [OF r None i(2)] show ?thesis by (auto intro: R_moves_to)
  next
    case (Some t0)
    with rows_row [OF r Some] i(2) lawful_row [OF assms(3) i(1) Some] show ?thesis by (auto intro: R_moves_to)
  qed
  moreover have "A a t" if a: "a \<in> set (suspended h')" "instance_of a = Some t" "task_id t \<in> I" for a t
  proof (cases "a \<in> set (suspended h)")
    case True
    then show ?thesis using a(2,3) by (rule lawful_await [OF assms(3)])
  next
    case False
    with w a have "origin ap h t" "suits a t" unfolding waits_def by auto
    with origin_lawful [OF _ assms(3) a(3) assms(4)] show ?thesis by (blast intro: R_held)
  qed
  ultimately show ?thesis unfolding lawful_def by blast
qed

lemma written_lawful:
  assumes "written t t' h h'" "set (suspended h') \<subseteq> set (suspended h)" "lawful R A I h" "task_id t \<in> I \<Longrightarrow> A a t"
  shows "lawful R A I h'"
  unfolding lawful_def
proof (intro conjI allI impI)
  from assms(1) have o: "overwrites t t'" by (simp add: written_def)
  show "R s" if "i \<in> I \<and> get_task i h' = Some s" for i s
    using that get_task_written [OF assms(1), of i] lawful_row [OF assms(3)] assms(4) A_overwrites [OF _ o]
    by (auto split: if_splits)
  show "A b s" if "b \<in> set (suspended h') \<and> instance_of b = Some s \<and> task_id s \<in> I" for b s
    using that assms(2) lawful_await [OF assms(3)] by blast
qed

lemma reply_lawful:
  assumes k: "tasks_keyed h" and l: "lawful R A I h" and x: "exist I h \<or> (\<forall>t. newborn t \<longrightarrow> R t)"
  shows "lawful R A I (reply_arrives cfg now n r h)"
proof (cases "n < length (suspended h)")
  case True
  let ?a = "suspended h ! n" and ?h = "h\<lparr>suspended := remove_nth n (suspended h)\<rparr>"
  have e: "reply_arrives cfg now n r h = resume_handler cfg now ?a r ?h" using True by (simp add: reply_arrives_def)
  have s: "set (suspended h) = insert ?a (set (suspended ?h))" using remove_nth_set [OF True] by simp
  have l': "lawful R A I ?h" using l s by (auto simp: lawful_def get_task_def)
  have x': "exist I ?h \<or> (\<forall>t. newborn t \<longrightarrow> R t)" using x by (simp add: exist_def get_task_def)
  have a: "A ?a t" if "instance_of ?a = Some t" "task_id t \<in> I" for t
    using lawful_await [OF l nth_mem [OF True] that] .
  show ?thesis
    using True
  proof (cases rule: reply_arrives_cases)
    case Fresh
    from evolves_lawful [OF _ resume_fresh [OF this] l' x'] k e show ?thesis by simp
  next
    case (Restart t u)
    have o: "overwrites t (recreated_task t)" unfolding recreated_task_def by (rule recreated)
    have "lawful R A I (save_task (recreated_task t) ?h)"
      by (rule written_lawful [OF _ _ l', of t "recreated_task t" _ ?a]) (use a Restart o in \<open>auto simp: written_def\<close>)
    moreover have "A (AwaitRestartVps (recreated_task t)) (recreated_task t)" if "task_id t \<in> I"
      using A_overwrites [OF a [OF _ that] o] Restart
      by (intro R_held) (auto simp: suits_def is_finished_def recreated_task_def)
    ultimately show ?thesis
      using e Restart overwrites_same [OF o] restart_create_effect [of cfg t u ?h]
      by (auto simp: lawful_def resume_handler_def get_task_def)
  next
    case (Plain t)
    from resume_plain [OF this, of ?h cfg now r]
    consider "resume_handler cfg now ?a r ?h = ?h"
      | t' where "written t t' ?h (resume_handler cfg now ?a r ?h)" "suspended (resume_handler cfg now ?a r ?h) = suspended ?h"
      unfolding settled_def quiet_def by blast
    then show ?thesis
    proof cases
      case (2 t')
      with written_lawful [OF this(1) _ l', of ?a] a Plain(2) e show ?thesis by simp
    qed (use e l' in simp)
  qed
qed (use l in \<open>simp add: reply_arrives_def\<close>)

text \<open>The events that may come, for one task.\<close>

lemma exists_step:
  assumes "tasks_keyed h" "exist I h"
  shows "exist I (host_step env e h)"
  using host_step_grows [OF assms(1), of _ env e] assms(2) by (auto simp: exist_def)

lemma step_lawful:
  assumes k: "tasks_keyed h" and l: "lawful R A I h" and x: "exist I h \<or> (\<forall>t. newborn t \<longrightarrow> R t)"
    and ap: "\<forall>i \<in> I. \<not> excluded ap i e"
  shows "lawful R A I (host_step env e h)"
proof (cases "fresh_handler e")
  case False
  have "lawful R A I (run_release cfg n h)" for cfg n
    using l by (simp add: lawful_def get_task_def run_release_suspended)
  with False reply_lawful [OF k l x] show ?thesis by (cases e) simp_all
next
  case True
  show ?thesis
  proof (cases "(approver e \<longrightarrow> fst ap) \<and> (\<forall>now i u. e = StatusUpdate now i u \<longrightarrow> snd ap (su_status u))")
    case ok: True
    have "evolves ap h (host_step env e h)" by (rule host_step_evolves [OF True]) (use ok in auto)
    then show ?thesis by (rule evolves_lawful [OF k _ l x])
  next
    case bad: False
    show ?thesis
    proof (cases "approver e")
      case False
      with bad obtain now j u where e: "e = StatusUpdate now j u" "\<not> snd ap (su_status u)" by auto
      with ap have j: "j \<notin> I" by auto
      then have "get_task i (host_step env e h) = get_task i h" if "i \<in> I" for i
        using that j update_other_row [OF k, of i j now u] e(1) by (cases "i = j") simp_all
      then show ?thesis using l e update_same_queues [of now j u h] unfolding lawful_def by (metis host_step.simps(3))
    next
    case Ap: True
    then obtain now u j where e: "e = Approve now u j" by (cases e) simp_all
    with bad Ap ap have j: "j \<notin> I" by auto
    then have "i \<in> I \<Longrightarrow> i \<noteq> j" for i by blast
    then have "get_task i (host_step env e h) = get_task i h" if "i \<in> I" for i
      using that approve_other_row [OF k] e by simp
    moreover have "a \<in> set (suspended (host_step env e h)) \<Longrightarrow> instance_of a = Some t \<Longrightarrow> task_id t \<in> I \<Longrightarrow> a \<in> set (suspended h)" for a t
      using approve_suspended [OF k, of a now u j] e j by auto
    ultimately show ?thesis using l unfolding lawful_def by metis
    qed
  qed
qed

lemma existing_step:
  assumes "tasks_keyed h" "exist {i} h \<and> lawful R A {i} h" "\<not> excluded ap i e"
  shows "exist {i} (host_step env e h) \<and> lawful R A {i} (host_step env e h)"
  using step_lawful [of h "{i}" e env] exists_step [of h "{i}" env e] assms by simp

end

sublocale row_law \<subseteq> task: guarded_machine host_init "host_step env" tasks_keyed
  "\<lambda>e. \<not> excluded ap i e" "\<lambda>h. exist {i} h \<and> lawful R A {i} h" for env :: "'k environment" and i
  by unfold_locales (auto simp: host_init_def host_step_keyed dest: existing_step)

text \<open>A statement that also holds of newborn rows holds of every task of a run.\<close>

locale born_law = row_law R A anything for R A +
  assumes R_newborn: "newborn t \<Longrightarrow> R t"

sublocale born_law \<subseteq> every: machine host_init "host_step env" "\<lambda>h. tasks_keyed h \<and> lawful R A UNIV h"
  for env :: "'k environment"
proof unfold_locales
  show "tasks_keyed h \<and> lawful R A UNIV h" if "host_init h" for h :: "'k host"
    using that by (simp add: host_init_def lawful_def get_task_def)
  show "tasks_keyed (host_step env e h) \<and> lawful R A UNIV (host_step env e h)" if "tasks_keyed h \<and> lawful R A UNIV h" for e h
    using that R_newborn by (simp add: host_step_keyed step_lawful)
qed

section \<open>What handlers hold and what runners were sent\<close>

text \<open>Every instance held or sent belongs to a row with the same sealed columns.\<close>

definition known :: "'k host \<Rightarrow> bool" where
  "known h \<longleftrightarrow>
     (\<forall>a t. a \<in> set (suspended h) \<and> instance_of a = Some t \<longrightarrow> has_row t h) \<and>
     (\<forall>c t. c \<in> set (outbox h) \<and> dispatched c = Some t \<longrightarrow> has_row t h \<and> carries c)"

lemma known_evolves:
  assumes "tasks_keyed h" "evolves ap h h'" "known h"
  shows "known h'"
proof -
  from assms(1,2) have r: "rows ap h h'" and w: "waits ap h h'" and s: "sent ap h h'" by (simp_all add: evolves_def)
  note keep = has_row_rows [OF r]
  from s obtain cs where "outbox h' = outbox h @ cs" "\<And>c t. c \<in> set cs \<Longrightarrow> dispatched c = Some t \<Longrightarrow> has_row t h' \<and> carries c"
    unfolding sent_def by blast
  then show ?thesis using w assms(3) keep unfolding known_def waits_def by (metis Un_iff set_append)
qed

lemma has_row_written: "written t t' h h' \<Longrightarrow> has_row t h \<Longrightarrow> has_row s h \<Longrightarrow> has_row s h'"
  using overwrites_spec [of t t'] by (auto simp: has_row_def get_task_written) (auto simp: written_def)

lemma known_written:
  "written t t' h h' \<Longrightarrow> has_row t h \<Longrightarrow> known h \<Longrightarrow> quiet h h' \<Longrightarrow> known h'"
  by (auto simp: known_def quiet_def intro: has_row_written)

lemma known_reply:
  assumes "tasks_keyed h" "known h"
  shows "known (reply_arrives cfg now n r h)"
proof (cases "n < length (suspended h)")
  case True
  let ?a = "suspended h ! n" and ?h = "h\<lparr>suspended := remove_nth n (suspended h)\<rparr>"
  have e: "reply_arrives cfg now n r h = resume_handler cfg now ?a r ?h" using True by (simp add: reply_arrives_def)
  have k: "known ?h" "\<And>t. instance_of ?a = Some t \<Longrightarrow> has_row t ?h"
    using assms(2) remove_nth_set [OF True] by (auto simp: known_def has_row_def get_task_def)
  show ?thesis
    using True
  proof (cases rule: reply_arrives_cases)
    case Fresh
    have "tasks_keyed ?h" using assms(1) by simp
    from known_evolves [OF this resume_fresh [OF Fresh] k(1)] e show ?thesis by simp
  next
    case (Restart t u)
    let ?t = "recreated_task t"
    have w: "written t ?t ?h (save_task ?t ?h)" and t: "task_id ?t = task_id t" "task_spec.truncate ?t = task_spec.truncate t"
      by (auto simp: written_def recreated_task_def intro: recreated) (simp add: task_spec.truncate_def)
    have h: "has_row t ?h" using k(2) Restart by simp
    have kn: "known (save_task ?t ?h)" by (rule known_written [OF w h k(1)]) (simp add: quiet_def)
    have "has_row ?t (save_task ?t ?h)" using has_row_written [OF w h h] t by (simp add: has_row_def)
    with kn show ?thesis
      using e Restart restart_create_effect [of cfg t u ?h]
      by (auto simp: resume_handler_def known_def has_row_def get_task_def)
  next
    case (Plain t)
    from resume_plain [OF this, of ?h cfg now r] known_written [OF _ k(2) [OF Plain(2)] k(1)] k(1) e show ?thesis
      by (auto simp: settled_def)
  qed
qed (use assms in \<open>simp add: reply_arrives_def\<close>)

interpretation known: machine host_init "host_step env" "\<lambda>h. tasks_keyed h \<and> known h" for env :: "'k environment"
proof unfold_locales
  show "tasks_keyed h \<and> known h" if "host_init h" for h :: "'k host" using that by (simp add: host_init_def known_def)
  show "tasks_keyed (host_step env e h) \<and> known (host_step env e h)" if k: "tasks_keyed h \<and> known h" for e h
  proof -
    have "known (run_release cfg n h)" for cfg n
      using k by (simp add: known_def run_release_suspended has_row_def get_task_def)
    then have "known (host_step env e h)"
      using k known_reply known_evolves [OF _ host_step_evolves [of e anything h env]] by (cases "fresh_handler e") (auto, cases e, auto)
    then show ?thesis using k host_step_keyed by blast
  qed
qed

text \<open>The requests sent that carry a task.\<close>

definition calls :: "int \<Rightarrow> 'k host \<Rightarrow> runner_call list" where
  "calls i h = filter (\<lambda>c. case dispatched c of None \<Rightarrow> False | Some t \<Rightarrow> task_id t = i) (outbox h)"

lemma known_await: "known h \<Longrightarrow> a \<in> set (suspended h) \<Longrightarrow> instance_of a = Some t \<Longrightarrow> get_task (task_id t) h \<noteq> None"
  unfolding known_def has_row_def by blast

lemma known_calls:
  assumes "known h" "get_task i h = None"
  shows "calls i h = []"
proof -
  have "task_id t \<noteq> i" if "c \<in> set (outbox h)" "dispatched c = Some t" for c t
    using assms that unfolding known_def has_row_def by fastforce
  then show ?thesis by (auto simp: calls_def filter_empty_conv split: option.split)
qed

end
