(* ===== verification/Host_Examples.thy ===== *)
theory Host_Examples
  imports Host_Runs IP_Properties
begin

text \<open>
  A small host for the witnesses: one runner with eight cores on a flat overlay network, a user, an
  operator, and their requests.
\<close>

definition demo_env :: "unit environment" where
  "demo_env =
     \<lparr>env_lib = demo_lib, env_keygen = (\<lambda>i. Inr (''priv'', ''pub'')),
      env_netlink = \<lparr>nl_links = (\<lambda>k. []), nl_addrs = (\<lambda>i k. []), nl_exec = (\<lambda>c k. (Inr (), k)), fw_which = False,
        fw_state = (\<lambda>k. None), fw_add = (\<lambda>n k. k)\<rparr>,
      env_url_host = (\<lambda>u. None),
      env_cfg = \<lparr>hs_overlay_enabled = True, heartbeat_interval = 5, heartbeat_timeout_factor = 6,
        default_container = ''base-env'', tasks_privileged = False, additional_mounts = [], shared_dir = ''/shared''\<rparr>\<rparr>"

definition demo_node :: node where
  "demo_node =
     \<lparr>hostname = ''alpha'', url = ''http://alpha:8001'', total_cores = 8, memory_total_bytes = None, n_status = ''online'',
      last_heartbeat = 0, cpu_percent = None, memory_percent = None, memory_used_bytes = None, current_avg_temp = None,
      current_max_temp = None, numa_topology = None, gpu_info = [], vm_capable = False, vfio_gpus = [], runner_version = None\<rparr>"

definition demo_host :: "unit host" where
  "demo_host =
     \<lparr>tasks = [], nodes = [(''alpha'', demo_node)], releases = [], suspended = [], outbox = [],
      overlay = Some [(''flat'', demo_flat)], ip_manager = Some demo_ipr, kernel = ()\<rparr>"

definition demo_account :: "int \<Rightarrow> string \<Rightarrow> user" where
  "demo_account i r =
     \<lparr>u_id = i, username = ''someone'', display_name = None, password_hash = [], u_active = True, role = r, u_created_at = 0\<rparr>"

definition demo_user :: user where "demo_user = demo_account 7 ''user''"
definition demo_operator :: user where "demo_operator = demo_account 2 ''operator''"

definition demo_request :: "string \<Rightarrow> string option \<Rightarrow> submission" where
  "demo_request typ net =
     \<lparr>sb_task_type = typ, sb_command = ''run'', sb_arguments = [], sb_env_vars = [], sb_cores = 2, sb_gpus = None,
      sb_memory = None, sb_targets = Some [''alpha''], sb_container = None, sb_registry = Some ''img'', sb_privileged = None,
      sb_mounts = None, sb_ip_token = None, sb_network = net, sb_networks = None\<rparr>"

definition demo_update :: "string \<Rightarrow> status_update" where
  "demo_update st = \<lparr>su_status = st, su_exit_code = Some 0, su_message = None, su_started_at = None, su_completed_at = None,
     su_ssh_port = None\<rparr>"

abbreviation demo_submit :: "user \<Rightarrow> string \<Rightarrow> string option \<Rightarrow> host_event" where
  "demo_submit u typ net \<equiv> Submit 0 (\<lambda>_ _. 0) (\<lambda>_. 1) u (demo_request typ net)"

lemma demo_host_init: "host_init demo_host"
  by (simp add: host_init_def demo_host_def)

end
