(* ===== verification/Host_Properties.thy ===== *)
theory Host_Properties
  imports Host_Examples
begin

text \<open>
  What holds of the tasks of the host over every sequence of events: the columns that never change,
  the finality of a command task's end, the approval gate, and the race that brings an ended task
  back.
\<close>

section \<open>Laws\<close>

interpretation sealed: row_law "\<lambda>t. task_spec.truncate t = spec" "\<lambda>a t. task_spec.truncate t = spec" anything for spec
  by unfold_locales (auto simp: moves_spec overwrites_spec)

text \<open>A task that has ended has the time it ended.\<close>

definition timed :: "task \<Rightarrow> bool" where
  "timed t \<longleftrightarrow> (is_finished t \<longrightarrow> completed_at t \<noteq> None)"

lemma timed_moves: "timed t \<Longrightarrow> moves ap t t' \<Longrightarrow> timed t'"
  by (erule moves.cases) (simp_all add: timed_def is_finished_def apply_task_updates_def)

lemma timed_overwrites: "\<not> is_finished t \<Longrightarrow> overwrites t t' \<Longrightarrow> timed t'"
  by (erule overwrites.cases) (auto simp: timed_def is_finished_def)

interpretation timed: born_law timed "\<lambda>a t. \<not> is_finished t"
proof unfold_locales
  show "newborn t \<Longrightarrow> timed t" for t by (auto simp: newborn_def timed_def is_finished_def)
qed (auto intro: timed_moves timed_overwrites simp: suits_def)

text \<open>A command task that has ended.\<close>

definition over :: "task \<Rightarrow> bool" where
  "over t \<longleftrightarrow> is_finished t \<and> \<not> is_vps t"

lemma over_moves: "over t \<Longrightarrow> moves ap t t' \<Longrightarrow> over t'"
  by (erule moves.cases)
    (auto simp: over_def is_vps_def is_finished_def apply_task_updates_def validate_status_transition_def split: if_splits)

interpretation over: row_law over "\<lambda>a t. False" anything
proof unfold_locales
  show "over t \<Longrightarrow> suits a t \<Longrightarrow> False" for a t by (simp add: over_def suits_def)
qed (blast intro: over_moves)+

text \<open>A command task that nobody has approved.\<close>

definition unapproved :: "task \<Rightarrow> bool" where
  "unapproved t \<longleftrightarrow> \<not> cleared t"

lemma unapproved_moves: "unapproved t \<Longrightarrow> moves no_approval t t' \<Longrightarrow> unapproved t'"
  by (erule moves.cases) (simp_all add: unapproved_def cleared_def is_vps_def apply_task_updates_def)

lemma unapproved_overwrites: "unapproved t \<Longrightarrow> overwrites t t' \<Longrightarrow> unapproved t'"
  by (erule overwrites.cases) (simp_all add: unapproved_def cleared_def is_vps_def)

interpretation gate: row_law unapproved "\<lambda>a t. unapproved t \<and> (\<forall>u. a \<noteq> AwaitStopBeforeRestart t u)" no_approval
proof unfold_locales
  show "unapproved t \<and> (\<forall>u. a \<noteq> AwaitStopBeforeRestart t u)" if "unapproved t" "suits a t" for a t
    using that by (auto simp: unapproved_def cleared_def suits_def)
qed (blast intro: unapproved_moves unapproved_overwrites)+

lemma gate_sent:
  assumes "tasks_keyed h" "exist {i} h" "lawful unapproved A {i} h" "sent no_approval h h'"
  shows "calls i h' = calls i h"
proof -
  from assms(4) obtain cs where o: "outbox h' = outbox h @ cs"
    and cs: "\<And>c t. c \<in> set cs \<Longrightarrow> dispatched c = Some t \<Longrightarrow> origin no_approval h t \<and> cleared t"
    unfolding sent_def by blast
  have "\<not> (case dispatched c of None \<Rightarrow> False | Some t \<Rightarrow> task_id t = i)" if "c \<in> set cs" for c
  proof (cases "dispatched c")
    case (Some t)
    have "unapproved t" if i: "task_id t = i"
    proof -
      from cs [OF \<open>c \<in> set cs\<close> Some] obtain t0 where "get_task i h = Some t0" "moves_to no_approval t0 t"
        using assms(2) i unfolding origin_def exist_def by auto
      with lawful_row [OF assms(3)] show ?thesis by (auto intro: gate.R_moves_to)
    qed
    with cs [OF that Some] Some show ?thesis by (auto simp: unapproved_def)
  qed simp
  then show ?thesis by (simp add: calls_def o filter_empty_conv)
qed

abbreviation gated :: "int \<Rightarrow> 'k host \<Rightarrow> bool" where
  "gated i h \<equiv> exist {i} h \<and> lawful unapproved (\<lambda>a t. unapproved t \<and> (\<forall>u. a \<noteq> AwaitStopBeforeRestart t u)) {i} h"

lemma lawful_fewer:
  "lawful R A I h \<Longrightarrow> tasks h' = tasks h \<Longrightarrow> set (suspended h') \<subseteq> set (suspended h) \<Longrightarrow> lawful R A I h'"
  unfolding lawful_def get_task_def by auto

lemma gate_reply:
  assumes "tasks_keyed h" "gated i h"
  shows "calls i (reply_arrives cfg now n r h) = calls i h"
proof (cases "n < length (suspended h)")
  case True
  let ?a = "suspended h ! n" and ?h = "h\<lparr>suspended := remove_nth n (suspended h)\<rparr>"
  have e: "reply_arrives cfg now n r h = resume_handler cfg now ?a r ?h" using True by (simp add: reply_arrives_def)
  show ?thesis
    using True
  proof (cases rule: reply_arrives_cases)
    case Fresh
    have "tasks_keyed ?h" "exist {i} ?h" using assms by (simp_all add: exist_def get_task_def)
    moreover have "lawful unapproved (\<lambda>a t. unapproved t \<and> (\<forall>u. a \<noteq> AwaitStopBeforeRestart t u)) {i} ?h"
      by (rule lawful_fewer [OF conjunct2 [OF assms(2)]]) (use remove_nth_set [OF True] in auto)
    ultimately have "calls i (resume_handler cfg now ?a r ?h) = calls i ?h"
      using resume_fresh [OF Fresh, of no_approval ?h cfg now r] by (intro gate_sent) (auto simp: evolves_def)
    with e show ?thesis by (simp add: calls_def)
  next
    case (Restart t u)
    have "task_id t \<noteq> i" using lawful_await [OF conjunct2 [OF assms(2)] nth_mem [OF True], of t] Restart by auto
    then have "task_id (recreated_task t) \<noteq> i" by (simp add: recreated_task_def)
    with Restart e restart_create_effect(3) [of cfg t u ?h] show ?thesis by (auto simp: resume_handler_def calls_def)
  next
    case (Plain t)
    from resume_plain [OF this, of ?h cfg now r] e show ?thesis by (auto simp: settled_def quiet_def calls_def)
  qed
qed (simp add: reply_arrives_def)

lemma gate_calls:
  assumes "tasks_keyed h" "gated i h" "\<not> approves i e"
  shows "calls i (host_step env e h) = calls i h"
proof (cases "fresh_handler e")
  case False
  then show ?thesis using gate_reply [OF assms(1,2)] by (cases e) (simp_all add: calls_def run_release_suspended)
next
  case True
  show ?thesis
  proof (cases "approver e")
    case False
    with True have "evolves no_approval h (host_step env e h)" by (auto intro: host_step_evolves)
    with assms(1) have "sent no_approval h (host_step env e h)" by (simp add: evolves_def)
    then show ?thesis using assms by (blast intro: gate_sent)
  next
    case Ap: True
    then obtain now u j where e: "e = Approve now u j" by (cases e) simp_all
    with Ap assms(3) have "j \<noteq> i" by auto
    with approve_outbox [OF assms(1), of now u j] e show ?thesis by (auto simp: calls_def filter_empty_conv split: option.split)
  qed
qed

interpretation approval: guarded_machine host_init "host_step env" tasks_keyed "\<lambda>e. \<not> approves i e" "\<lambda>h. gated i h \<and> calls i h = cs"
  for env :: "'k environment" and i cs
  by unfold_locales (auto simp: host_init_def host_step_keyed gate_calls gate.existing_step)

section \<open>A submission that needs approval\<close>

text \<open>New rows wait for approval, and nothing else happens.\<close>

definition parked :: "'k host \<Rightarrow> 'k host \<Rightarrow> bool" where
  "parked h h' \<longleftrightarrow> suspended h' = suspended h \<and> outbox h' = outbox h \<and>
     (\<forall>i t. get_task i h = Some t \<longrightarrow> get_task i h' = Some t) \<and>
     (\<forall>i t. get_task i h = None \<and> get_task i h' = Some t \<longrightarrow>
        status t = ''pending_approval'' \<and> approval_status t = Some ''pending'')"

lemma parked_refl [simp, intro]: "parked h h"
  by (auto simp: parked_def)

lemma parked_trans: "parked h1 h2 \<Longrightarrow> parked h2 h3 \<Longrightarrow> parked h1 h3"
proof -
  assume a: "parked h1 h2" and b: "parked h2 h3"
  have "status t = ''pending_approval'' \<and> approval_status t = Some ''pending''"
    if t: "get_task i h1 = None" "get_task i h3 = Some t" for i t
  proof (cases "get_task i h2")
    case None
    with b t(2) show ?thesis by (auto simp: parked_def)
  next
    case (Some t2)
    with b t(2) have "t2 = t" by (auto simp: parked_def)
    with a t(1) Some show ?thesis by (auto simp: parked_def)
  qed
  with a b show "parked h1 h3" by (auto simp: parked_def)
qed

lemma prepare_role: "prepare_task_config cfg rq u = Inr tc \<Longrightarrow> tc_owner_role tc = role u"
  by (auto simp: prepare_task_config_def Let_def split: if_splits)

lemma create_record_parked:
  assumes "tc_owner_role tc = ''user''" "create_task_record now i rq n numa gpus tc b h = Some (t, h1)"
  shows "status t = ''pending_approval'' \<and> parked h h1"
proof -
  let ?t = "new_task now i rq n numa gpus tc b (if sb_task_type rq = ''vps'' then Some (allocate_ssh_port h) else None)"
  from assms(2) have c: "create_task ?t h = Some (t, h1)" by (simp add: create_task_record_def)
  have s: "status ?t = ''pending_approval''" "approval_status ?t = Some ''pending''"
    using assms(1) by (simp_all add: new_task_def Let_def)
  have q: "suspended h1 = suspended h" "outbox h1 = outbox h" using c by (auto simp: create_task_def split: if_splits)
  have "parked h h1"
    unfolding parked_def using create_task_get [OF c] s q by auto
  with s create_task_row [OF c] show ?thesis by simp
qed

lemma process_target_parked:
  assumes "tc_owner_role tc = ''user''"
  shows "parked h (snd (process_target lib cfg now rnd i rq ts gpus tc batch h))"
proof -
  have "status t = ''pending_approval''" "parked h h1"
    if "create_task_record now i rq n numa gpus tc b h = Some (t, h1)" for n numa b t h1
    using create_record_parked [OF assms that] by simp_all
  then show ?thesis by (simp add: process_target_def split: option.split prod.split sum.split)
qed

lemma process_targets_parked:
  assumes "tc_owner_role tc = ''user''"
  shows "parked h (snd (process_targets lib cfg now rnd ids rq tc k first ts h))"
proof (induction ts arbitrary: k first h)
  case (Cons t ts)
  obtain tg gpus where t: "t = (tg, gpus)" by fastforce
  obtain r h' where p: "process_target lib cfg now (rnd k) (ids k) rq tg gpus tc first h = (r, h')" by fastforce
  then have e: "parked h h'"
    using process_target_parked [OF assms, of h lib cfg now "rnd k" "ids k" rq tg gpus first] by simp
  show ?case
  proof (cases r)
    case (Inr x)
    let ?first = "case (first, x) of (None, Created i) \<Rightarrow> Some i | (None, Dispatching i) \<Rightarrow> Some i | _ \<Rightarrow> first"
    obtain rs h'' where q: "process_targets lib cfg now rnd ids rq tc (Suc k) ?first ts h' = (rs, h'')" by fastforce
    then have "parked h' h''" using Cons.IH [of h' "Suc k" ?first] by simp
    with e have "parked h h''" by (rule parked_trans)
    with p q Inr t show ?thesis by (simp add: Let_def split: sum.split)
  qed (use e p t in simp)
qed simp

lemma submit_parked:
  assumes "role u = ''user''"
  shows "parked h (snd (submit_task lib cfg now rnd ids u rq h))"
proof -
  have "parked h h'" if "process_targets lib cfg now rnd ids rq' tc 0 None ts h = (r, h')" "prepare_task_config cfg rq' u = Inr tc"
    for rq' tc ts r h'
    using process_targets_parked [of tc h lib cfg now rnd ids rq' 0 None ts] prepare_role [OF that(2)] that(1) assms by simp
  then show ?thesis by (simp add: submit_task_def guard_role_def split: sum.split prod.split)
qed

text \<open>A row stays, with the columns that are sealed.\<close>

lemma row_spec_stays:
  assumes "tasks_keyed h" "known h" "get_task i h = Some t"
  shows "\<exists>t'. get_task i (fold (host_step env) es h) = Some t' \<and> task_spec.truncate t' = task_spec.truncate t"
proof -
  have "exist {i} h \<and> lawful (\<lambda>s. task_spec.truncate s = task_spec.truncate t)
      (\<lambda>a s. task_spec.truncate s = task_spec.truncate t) {i} h"
    using assms(2,3) by (fastforce simp: exist_def lawful_def known_def has_row_def)
  then have "exist {i} (fold (host_step env) es h) \<and> lawful (\<lambda>s. task_spec.truncate s = task_spec.truncate t)
      (\<lambda>a s. task_spec.truncate s = task_spec.truncate t) {i} (fold (host_step env) es h)"
    by (rule sealed.task.run_held [OF assms(1)]) (simp add: list_all_iff)
  then show ?thesis by (auto simp: exist_def lawful_def)
qed

text \<open>After such a submission the task waits behind the gate, and nothing was sent of it.\<close>

lemma submitted_gated:
  assumes k: "tasks_keyed h" "known h" and new: "get_task i h = None" and u: "role u = ''user''"
    and h1: "h1 = host_step env (Submit now rnd ids u rq) h" "get_task i h1 = Some t" "\<not> is_vps t"
  shows "gated i h1 \<and> calls i h1 = []"
proof -
  have p: "parked h h1" using submit_parked [OF u] h1(1) by simp
  have a: "approval_status t = Some ''pending''" using p new h1(2) by (auto simp: parked_def)
  have "instance_of x = Some s \<Longrightarrow> task_id s \<noteq> i" if "x \<in> set (suspended h1)" for x s
    using that p known_await [OF k(2), of x s] new by (auto simp: parked_def)
  then have "gated i h1" using h1(2,3) a by (auto simp: exist_def lawful_def unapproved_def cleared_def)
  moreover have "calls i h1 = []" using p known_calls [OF k(2) new] by (simp add: calls_def parked_def)
  ultimately show ?thesis by simp
qed

section \<open>Properties\<close>

text \<open>C1: the task table of every run.  After any events, from an empty table, every row is filed
  under its own identifier and a task in a terminal state carries the time it ended; and whatever
  happens next, no row disappears and the columns written at submission (command, resources,
  owner, image, ...) stay what they were.\<close>

theorem task_table_sound:
  assumes "host_init h0" "h = fold (host_step env) es h0" "get_task i h = Some t"
  shows "task_id t = i \<and> (is_finished t \<longrightarrow> completed_at t \<noteq> None) \<and>
    (\<exists>t'. get_task i (fold (host_step env) es' h) = Some t' \<and> task_spec.truncate t' = task_spec.truncate t)"
proof -
  have k: "tasks_keyed h" "known h" using known.run_inv [OF assms(1), of env es] assms(2) by simp_all
  have id: "task_id t = i" using k(1) assms(3) by (rule row_id)
  have "timed t" using timed.every.run_inv [OF assms(1), of env es] assms(2,3) by (auto simp: lawful_def)
  with id row_spec_stays [OF k assms(3), of env es'] show ?thesis by (simp add: timed_def)
qed

text \<open>C2: the end of a command task is final.  In a run, once a task that is not a VPS is in a
  terminal state and no suspended handler holds an instance of it, it stays in a terminal state,
  with a completion time, whatever the users, the runners' callbacks, the monitor and the replies
  to other handlers do afterwards.\<close>

theorem finished_command_final:
  assumes "host_init h0" "h = fold (host_step env) es h0" "get_task i h = Some t" "is_finished t" "\<not> is_vps t"
    and "\<forall>a s. a \<in> set (suspended h) \<and> instance_of a = Some s \<longrightarrow> task_id s \<noteq> i"
  shows "\<exists>t'. get_task i (fold (host_step env) es' h) = Some t' \<and> is_finished t' \<and> completed_at t' \<noteq> None"
proof -
  have k: "tasks_keyed h" using known.run_inv [OF assms(1), of env es] assms(2) by simp
  have "exist {i} h \<and> lawful over (\<lambda>a t. False) {i} h"
    using assms(3-6) by (fastforce simp: exist_def lawful_def over_def)
  then have "exist {i} (fold (host_step env) es' h) \<and> lawful over (\<lambda>a t. False) {i} (fold (host_step env) es' h)"
    by (rule over.task.run_held [OF k]) (simp add: list_all_iff)
  moreover have "lawful timed (\<lambda>a t. \<not> is_finished t) UNIV (fold (host_step env) es' h)"
    using timed.every.run_inv [OF assms(1), of env "es @ es'"] assms(2) by simp
  ultimately show ?thesis by (auto simp: exist_def lawful_def over_def timed_def)
qed

text \<open>The runs of the witnesses: a command task submitted by the operator and completed.\<close>

abbreviation demo_done :: "host_event list" where
  "demo_done \<equiv> [demo_submit demo_operator ''command'' None, StatusUpdate 5 1 (demo_update ''completed'')]"

lemma demo_done_row:
  "\<exists>t. get_task 1 (fold (host_step demo_env) demo_done demo_host) = Some t \<and> is_finished t \<and> \<not> is_vps t"
proof -
  have "case get_task 1 (fold (host_step demo_env) demo_done demo_host) of None \<Rightarrow> False | Some t \<Rightarrow> is_finished t \<and> \<not> is_vps t"
    by code_simp
  then show ?thesis by (auto split: option.splits)
qed

lemma demo_done_free: "suspended (fold (host_step demo_env) demo_done demo_host) = []"
  by code_simp

lemma task_table_sound_witness:
  "\<exists>t t'. get_task 1 (fold (host_step demo_env) demo_done demo_host) = Some t \<and> completed_at t \<noteq> None \<and>
     get_task 1 (fold (host_step demo_env) [Kill 9 demo_operator 1] (fold (host_step demo_env) demo_done demo_host)) = Some t' \<and>
     task_spec.truncate t' = task_spec.truncate t"
proof -
  obtain t where t: "get_task 1 (fold (host_step demo_env) demo_done demo_host) = Some t" "is_finished t"
    using demo_done_row by blast
  from task_table_sound [OF demo_host_init refl t(1), of "[Kill 9 demo_operator 1]"] t show ?thesis by blast
qed

lemma finished_command_final_witness:
  "\<exists>t'. get_task 1 (fold (host_step demo_env) [StatusUpdate 9 1 (demo_update ''running''), Kill 9 demo_operator 1]
      (fold (host_step demo_env) demo_done demo_host)) = Some t' \<and> is_finished t'"
proof -
  obtain t where t: "get_task 1 (fold (host_step demo_env) demo_done demo_host) = Some t" "is_finished t" "\<not> is_vps t"
    using demo_done_row by blast
  show ?thesis
    using finished_command_final [OF demo_host_init refl t, of "[StatusUpdate 9 1 (demo_update ''running''), Kill 9 demo_operator 1]"]
      demo_done_free by auto
qed

text \<open>C3: the approval gate.  When a user of role \<open>user\<close> submits a command task in a run, no request
  that carries the task is ever sent to a runner until an operator approves it: whatever else
  happens (callbacks for the task, pauses, kills, rejection, replies in any order, approvals by
  users who are not operators), none is in the outbox, and the task never counts as approved.\<close>

theorem approval_gate:
  assumes "host_init h0" "h = fold (host_step env) es h0" "get_task i h = None" "role u = ''user''"
    and "h1 = host_step env (Submit now rnd ids u rq) h" "get_task i h1 = Some t" "\<not> is_vps t"
    and "list_all (\<lambda>e. \<not> approves i e) es'"
  shows "calls i (fold (host_step env) es' h1) = [] \<and>
    (\<exists>t'. get_task i (fold (host_step env) es' h1) = Some t' \<and> approval_status t' \<noteq> Some ''approved'')"
proof -
  have k: "tasks_keyed h" "known h" using known.run_inv [OF assms(1), of env es] assms(2) by simp_all
  have k1: "tasks_keyed h1" unfolding assms(5) by (rule host_step_keyed [OF k(1)])
  have "gated i h1 \<and> calls i h1 = []" by (rule submitted_gated [OF k assms(3-7)])
  then have "gated i (fold (host_step env) es' h1) \<and> calls i (fold (host_step env) es' h1) = []"
    using approval.run_held [OF k1 _ assms(8), of "[]" env] by blast
  then show ?thesis by (auto simp: exist_def lawful_def unapproved_def cleared_def)
qed

lemma approval_gate_witness:
  "calls 1 (fold (host_step demo_env) [StatusUpdate 5 1 (demo_update ''running''), Approve 6 demo_user 1, Reject 7 demo_operator 1 None]
     (host_step demo_env (demo_submit demo_user ''command'' None) demo_host)) = []"
proof -
  let ?h1 = "host_step demo_env (demo_submit demo_user ''command'' None) demo_host"
  have "case get_task 1 ?h1 of None \<Rightarrow> False | Some t \<Rightarrow> \<not> is_vps t" by code_simp
  then obtain t where t: "get_task 1 ?h1 = Some t" "\<not> is_vps t" by (auto split: option.splits)
  have "get_task 1 demo_host = None" "role demo_user = ''user''"
    "list_all (\<lambda>e. \<not> approves 1 e) [StatusUpdate 5 1 (demo_update ''running''), Approve 6 demo_user 1, Reject 7 demo_operator 1 None]"
    by code_simp+
  from approval_gate [OF demo_host_init, of demo_host demo_env "[]" 1, OF _ this(1,2) refl t this(3)] show ?thesis by simp
qed

text \<open>A reply that comes late brings a killed task back.  The pause handler reads the row, waits
  for the runner and then writes the row it had read: if the task is killed meanwhile, its killed
  mark and completion time are overwritten and it is \<open>paused\<close> again, although its container was
  killed and the release of its addresses is already scheduled.\<close>

theorem late_pause_revives:
  assumes "tasks_keyed h" "get_task i h = Some t" "status t = ''running''" "suspended h = []"
    and "truthy (assigned_node t)" "get_node (the (assigned_node t)) h = Some n" "is_online n"
    and "\<not> isl (check_role ''user'' u)" "may_control u t"
    and "h1 = fold (host_step env) [Command u i ''pause'', Kill now u i] h"
  shows "map_option status (get_task i h1) = Some ''killed'' \<and> container_of t \<in> set (releases h1) \<and>
    get_task i (host_step env (ReplyArrives now' 0 (Answer a)) h1) = Some (t\<lparr>status := ''paused''\<rparr>)"
proof -
  have id: "task_id t = i" using assms(1,2) by (rule row_id)
  let ?h1 = "suspend (AwaitPause t) (send_call (PauseCall (url n) i (container_of t)) h)"
  have c: "host_step env (Command u i ''pause'') h = ?h1"
    using assms(2-9) by (cases "check_role ''user'' u")
      (simp_all add: send_command_to_task_def guard_role_def with_row_def)
  let ?t = "t\<lparr>status := ''killed'', error_message := Some ''Kill requested by user.'', completed_at := Some now\<rparr>"
  let ?h2 = "mark_task_killed now ''Kill requested by user.'' t ?h1"
  have n: "get_node (the (assigned_node t)) ?h2 = Some n"
    using assms(6) by (simp add: mark_task_killed_def get_node_def schedule_ip_release_def suspend_def send_call_def)
  have d: "host_step env (Kill now u i) ?h1 = suspend (AwaitKill i) (send_call (KillCall (url n) i (container_of t)) ?h2)"
    using assms(2-9) n by (cases "check_role ''user'' u")
      (simp_all add: request_kill_task_def guard_role_def with_row_def killable_states_def Let_def)
  have h1: "h1 = suspend (AwaitKill i) (send_call (KillCall (url n) i (container_of t)) ?h2)"
    using assms(10) c d by simp
  have s: "suspended h1 = [AwaitPause t, AwaitKill i]" using assms(4) by (simp add: h1 mark_task_killed_def)
  have r: "get_task i h1 = Some ?t" "releases h1 = releases h @ [container_of t]"
    using assms(2) id by (simp_all add: h1 mark_task_killed_def get_task_save)
  have "get_task i (host_step env (ReplyArrives now' 0 (Answer a)) h1) = Some (t\<lparr>status := ''paused''\<rparr>)"
    using s r(1) id
    by (simp add: reply_arrives_def resume_handler_def finish_command_def get_task_save remove_nth_def) (simp add: get_task_def)
  with r show ?thesis by simp
qed

lemma late_pause_revives_witness:
  "\<exists>t. get_task 1 (fold (host_step demo_env) [demo_submit demo_operator ''command'' None, StatusUpdate 5 1 (demo_update ''running'')]
      demo_host) = Some t \<and>
   get_task 1 (host_step demo_env (ReplyArrives 8 0 (Answer \<lparr>a_empty = False, a_ssh_port = None, a_vm_ip = None\<rparr>))
     (fold (host_step demo_env) [Command demo_operator 1 ''pause'', Kill 7 demo_operator 1]
       (fold (host_step demo_env) [demo_submit demo_operator ''command'' None, StatusUpdate 5 1 (demo_update ''running'')] demo_host)))
   = Some (t\<lparr>status := ''paused''\<rparr>)"
proof -
  let ?h = "fold (host_step demo_env) [demo_submit demo_operator ''command'' None, StatusUpdate 5 1 (demo_update ''running'')] demo_host"
  have "case get_task 1 ?h of None \<Rightarrow> False | Some t \<Rightarrow> status t = ''running'' \<and> truthy (assigned_node t) \<and> the (assigned_node t) = ''alpha''"
    by code_simp
  then obtain t where t: "get_task 1 ?h = Some t" "status t = ''running''" "truthy (assigned_node t)" "the (assigned_node t) = ''alpha''"
    by (auto split: option.splits)
  have k: "tasks_keyed ?h" using known.run_inv [OF demo_host_init] by blast
  have e: "suspended ?h = []" "\<not> isl (check_role ''user'' demo_operator)" by code_simp+
  have "case get_node ''alpha'' ?h of None \<Rightarrow> False | Some n \<Rightarrow> is_online n" by code_simp
  then obtain n where n: "get_node (the (assigned_node t)) ?h = Some n" "is_online n" using t(4) by (auto split: option.splits)
  have m: "may_control demo_operator t" by (simp add: may_control_def demo_operator_def demo_account_def)
  from late_pause_revives [OF k t(1,2) e(1) t(3) n e(2) m refl] t(1) show ?thesis by blast
qed

end
