(* ===== verification/Host_Addresses.thy ===== *)
theory Host_Addresses
  imports Host_Properties
begin

text \<open>
  Addresses across the scheduler and the reservation manager: every address bound to a container
  belongs to a task that has not ended, or its release is scheduled.
\<close>

section \<open>Who holds addresses\<close>

definition holders :: "ipr_state \<Rightarrow> string set" where
  "holders m = {c. \<exists>k r. map_of (reservations m) k = Some r \<and> container_id r = Some c}"

lemma holders_cleanup: "ipr_ok m \<Longrightarrow> holders (cleanup_expired_sync now m) \<subseteq> holders m"
  by (auto simp: holders_def cleanup_get [OF ipr_ok_dict] split: option.splits if_splits)

lemma holders_insert:
  "holders (m\<lparr>reservations := AList.update k r d\<rparr>) \<subseteq> set_option (container_id r) \<union> holders (m\<lparr>reservations := d\<rparr>)"
  by (auto simp: holders_def get_update)

lemma holders_add_used [simp]: "holders (add_used rn n x m) = holders m"
  by (simp add: holders_def)

lemma holders_auto:
  assumes "ipr_ok m"
  shows "holders (snd (auto_allocate_ip ov now rand runner net c m)) \<subseteq> insert c (holders m)"
proof -
  obtain res m' where e: "auto_allocate_ip ov now rand runner net c m = (res, m')" by fastforce
  then show ?thesis
  proof (cases rule: auto_allocate_cases)
    case no
    with e holders_cleanup [OF assms, of now] show ?thesis by auto
  next
    case (yes x r xs)
    with e holders_cleanup [OF assms, of now]
      holders_insert [where m = "cleanup_expired_sync now m" and k = "(net, x)" and r = r and d = "reservations (cleanup_expired_sync now m)"]
    show ?thesis by auto
  qed
qed

lemma holders_use:
  assumes "ipr_ok m"
  shows "holders (snd (use_reservation lib now tok c er en m)) \<subseteq> insert c (holders m)"
proof -
  obtain res m' where e: "use_reservation lib now tok c er en m = (res, m')" by fastforce
  with assms show ?thesis
  proof (cases rule: use_reservation_cases)
    case (yes r)
    with e holders_insert [where m = m and k = "(res_network r, ip r)" and r = "r\<lparr>container_id := Some c\<rparr>" and d = "reservations m"] show ?thesis by auto
  qed (use e in auto)
qed

lemma holders_release:
  assumes "ipr_ok m"
  shows "holders (snd (release_by_container c m)) \<subseteq> holders m - {c}"
  using ipr_ok_dict [OF assms]
  by (auto simp: holders_def release_by_container_def release_loop_get item_get split: if_splits)

lemma holders_reserve:
  assumes "ipr_ok m"
  shows "holders (snd (reserve_ip lib ov now rand runner wanted ttl net m)) \<subseteq> holders m"
proof -
  obtain res m' where e: "reserve_ip lib ov now rand runner wanted ttl net m = (res, m')" by fastforce
  then show ?thesis
  proof (cases rule: reserve_ip_cases)
    case no
    with e holders_cleanup [OF assms] show ?thesis by simp
  next
    case (yes r xs)
    have "holders m' \<subseteq> holders (cleanup_expired_sync now m)"
      using yes(6,10) by (auto simp: holders_def get_update is_used_def)
    with e holders_cleanup [OF assms, of now] show ?thesis by auto
  qed
qed

lemma holders_release_token: "holders (snd (release_by_token tok m)) \<subseteq> holders m"
  by (auto simp: release_by_token_def holders_def get_delete split: option.splits if_splits)

text \<open>The pool: what a sequence of operations for one container does to it.\<close>

definition serves :: "string \<Rightarrow> ipr_state \<Rightarrow> ipr_state \<Rightarrow> bool" where
  "serves c m m' \<longleftrightarrow> (ipr_ok m \<longrightarrow> ipr_ok m' \<and> holders m' \<subseteq> insert c (holders m))"

lemma serves_refl [simp]: "serves c m m"
  by (auto simp: serves_def)

lemma serves_trans: "serves c m1 m2 \<Longrightarrow> serves c m2 m3 \<Longrightarrow> serves c m1 m3"
  unfolding serves_def by blast

lemma serves_ops:
  "serves c m (snd (auto_allocate_ip ov now rand runner net c m))"
  "serves c m (snd (use_reservation lib now tok c er en m))"
  "serves c m (snd (release_by_container c' m))"
  by (simp_all add: serves_def ipr_ok_auto ipr_ok_use ipr_ok_release holders_auto holders_use)
    (use holders_release [of m c'] in blast)

lemma allocate_networks_serves:
  "serves c m (snd (allocate_networks ms ov now rnd target rip primary c idx nets got m))"
proof (induction nets arbitrary: idx got m)
  case (Cons net nets)
  obtain r m' where a: "auto_allocate_ip ov now (rnd idx) target net c m = (r, m')" by fastforce
  then have s: "serves c m m'" using serves_ops(1) [of c m ov now "rnd idx" target net] by simp
  have "serves c m (snd (allocate_networks ms ov now rnd target rip primary c (Suc idx) nets g m'))" for g
    using serves_trans [OF s Cons.IH] .
  moreover have "serves c m (snd (release_by_container c m'))" using serves_trans [OF s serves_ops(3)] .
  ultimately show ?case
    using a s Cons.IH by (auto split: option.split sum.split)
qed simp

section \<open>The pool of the host\<close>

definition pool_ok :: "'k host \<Rightarrow> bool" where
  "pool_ok h \<longleftrightarrow> (\<forall>m. ip_manager h = Some m \<longrightarrow> ipr_ok m)"

definition bound :: "host_settings \<Rightarrow> 'k host \<Rightarrow> string set" where
  "bound cfg h = (case get_ip_reservation_manager cfg h of None \<Rightarrow> {} | Some m \<Rightarrow> holders m)"

lemma boundI:
  "(case get_ip_reservation_manager cfg h of None \<Rightarrow> False
    | Some m \<Rightarrow> (case map_of (reservations m) k of None \<Rightarrow> False | Some r \<Rightarrow> container_id r = Some c)) \<Longrightarrow> c \<in> bound cfg h"
  unfolding bound_def holders_def by (cases k) (auto split: option.splits)

text \<open>A container that may hold addresses.\<close>

definition covers :: "'k host \<Rightarrow> string \<Rightarrow> bool" where
  "covers h c \<longleftrightarrow>
     c \<in> set (releases h) \<or> (\<exists>i t. get_task i h = Some t \<and> \<not> is_finished t \<and> container_of t = c)"

lemma covers_row: "get_task i h = Some t \<Longrightarrow> \<not> is_finished t \<Longrightarrow> covers h (container_of t)"
  by (auto simp: covers_def)

lemma covers_release: "c \<in> set (releases h) \<Longrightarrow> covers h c"
  by (simp add: covers_def)

text \<open>A row that had not ended, or did not exist, is covered afterwards, whatever became of it.\<close>

lemma covers_freed:
  assumes "freed h h'" "get_task i h' = Some t" "\<And>s. get_task i h = Some s \<Longrightarrow> \<not> is_finished s"
  shows "covers h' (container_of t)"
proof (cases "is_finished t")
  case True
  with assms have "container_of t \<in> set (releases h')" unfolding freed_def by blast
  then show ?thesis by (rule covers_release)
qed (use assms(2) in \<open>rule covers_row\<close>)

lemma covers_evolves:
  assumes "tasks_keyed h" "evolves ap h h'" "covers h c"
  shows "covers h' c"
proof -
  from assms(1,2) have r: "rows ap h h'" and f: "freed h h'" by (simp_all add: evolves_def)
  from assms(3) consider "c \<in> set (releases h)" | i t where "get_task i h = Some t" "\<not> is_finished t" "container_of t = c"
    unfolding covers_def by blast
  then show ?thesis
  proof cases
    case (2 i t)
    from rows_row [OF r 2(1)] obtain t' where "get_task i h' = Some t'" "container_of t' = c"
      using 2(3) moves_to_same by metis
    with covers_freed [OF f this(1)] 2(1,2) show ?thesis by simp
  qed (use f in \<open>auto simp: freed_def intro: covers_release\<close>)
qed

lemma covers_new:
  "tasks_keyed h \<Longrightarrow> evolves ap h h' \<Longrightarrow> get_task i h = None \<Longrightarrow> get_task i h' = Some t \<Longrightarrow> covers h' (container_of t)"
  by (rule covers_freed) (auto simp: evolves_def)

definition accounts :: "host_settings \<Rightarrow> 'k host \<Rightarrow> 'k host \<Rightarrow> bool" where
  "accounts cfg h h' \<longleftrightarrow>
     evolves anything h h' \<and>
     (tasks_keyed h \<and> pool_ok h \<longrightarrow> pool_ok h' \<and> (\<forall>c \<in> bound cfg h'. c \<in> bound cfg h \<or> covers h' c))"

lemma accounts_trans:
  assumes "accounts cfg h1 h2" "accounts cfg h2 h3"
  shows "accounts cfg h1 h3"
proof -
  have e: "evolves anything h1 h2" "evolves anything h2 h3" using assms by (simp_all add: accounts_def)
  then have "evolves anything h1 h3" by (rule evolves_trans)
  moreover have "pool_ok h3 \<and> (\<forall>c \<in> bound cfg h3. c \<in> bound cfg h1 \<or> covers h3 c)" if k: "tasks_keyed h1" "pool_ok h1"
  proof -
    have k2: "tasks_keyed h2" "pool_ok h2" using assms(1) k e(1) by (simp_all add: accounts_def evolves_def)
    from assms(2) k2 have b: "pool_ok h3" "\<And>c. c \<in> bound cfg h3 \<Longrightarrow> c \<in> bound cfg h2 \<or> covers h3 c" by (simp_all add: accounts_def)
    from assms(1) k have "\<And>c. c \<in> bound cfg h2 \<Longrightarrow> c \<in> bound cfg h1 \<or> covers h2 c" by (simp add: accounts_def)
    with b covers_evolves [OF k2(1) e(2)] show ?thesis by blast
  qed
  ultimately show ?thesis by (simp add: accounts_def)
qed

lemma accounts_same: "evolves anything h h' \<Longrightarrow> ip_manager h' = ip_manager h \<Longrightarrow> accounts cfg h h'"
  by (auto simp: accounts_def pool_ok_def bound_def get_ip_reservation_manager_def)

lemma accounts_refl [simp, intro]: "accounts cfg h h"
  by (simp add: accounts_same)

definition host_serves :: "string \<Rightarrow> 'k host \<Rightarrow> 'k host \<Rightarrow> bool" where
  "host_serves c h h' \<longleftrightarrow>
     (case ip_manager h of None \<Rightarrow> ip_manager h' = None
      | Some m \<Rightarrow> (\<exists>m'. ip_manager h' = Some m' \<and> serves c m m'))"

lemma host_serves_same: "ip_manager h' = ip_manager h \<Longrightarrow> host_serves c h h'"
  by (simp add: host_serves_def split: option.split)

lemma host_serves_trans: "host_serves c h1 h2 \<Longrightarrow> host_serves c h2 h3 \<Longrightarrow> host_serves c h1 h3"
  by (auto simp: host_serves_def intro: serves_trans split: option.splits)

lemma accounts_serves:
  assumes "evolves anything h h'" "host_serves c h h'" "tasks_keyed h \<Longrightarrow> covers h' c"
  shows "accounts cfg h h'"
  using assms
  by (auto simp: accounts_def host_serves_def pool_ok_def bound_def get_ip_reservation_manager_def serves_def
      split: option.splits if_splits)

section \<open>Placing a task\<close>

lemma claim_serves: "host_serves c h (claim_reservation lib cfg now rq tg rip c h)"
  by (auto simp: claim_reservation_def host_serves_def get_ip_reservation_manager_def serves_ops split: option.splits if_splits)

lemma auto_allocate_serves: "host_serves c h (snd (auto_allocate_flat_ips cfg now rnd tg nets rip pr c h))"
proof -
  have "serves c m m'" if "allocate_networks ms ov now rnd tg rip pr c 0 ns [] m = (r, m')" for ms ov ns m r m'
    using allocate_networks_serves [of c m ms ov now rnd tg rip pr 0 ns "[]"] that by simp
  then show ?thesis
    by (auto simp: auto_allocate_flat_ips_def host_serves_def get_ip_reservation_manager_def split: option.splits prod.splits if_splits)
qed

lemma save_task_ip [simp]: "ip_manager (save_task t h) = ip_manager h"
  by simp

lemma dispatch_task_ip [simp]: "ip_manager (snd (dispatch_task t n rq d h)) = ip_manager h"
  by (simp add: dispatch_task_def send_task_to_runner_def)

lemma place_task_serves: "host_serves (container_of t) h (snd (place_task lib cfg now rnd rq tg n rip t h))"
proof -
  let ?h1 = "claim_reservation lib cfg now rq tg rip (container_of t) h"
  obtain r h2 where a: "auto_allocate_flat_ips cfg now rnd tg (resolved_networks rq) rip (sb_network rq) (container_of t) ?h1 = (r, h2)"
    by fastforce
  then have "host_serves (container_of t) ?h1 h2"
    using auto_allocate_serves [of "container_of t" ?h1 cfg now rnd tg "resolved_networks rq" rip "sb_network rq"] by simp
  with claim_serves have s: "host_serves (container_of t) h h2" by (rule host_serves_trans)
  have "ip_manager (snd (place_task lib cfg now rnd rq tg n rip t h)) = ip_manager h2"
    using a by (auto simp: place_task_def Let_def case_prod_beta split: sum.split pyexn.split)
  with s show ?thesis by (blast intro: host_serves_trans host_serves_same)
qed

lemma create_task_ip: "create_task t h = Some (t', h') \<Longrightarrow> ip_manager h' = ip_manager h"
  by (auto simp: create_task_def split: if_splits)

lemma process_target_accounts: "accounts cfg h (snd (process_target lib cfg now rnd i rq ts gpus tc batch h))"
proof -
  have "accounts cfg h h1 \<and> (status t \<noteq> ''pending_approval'' \<longrightarrow> accounts cfg h (snd (place_task lib cfg now rnd rq tg n rip t h1)))"
    if r: "create_task_record now i rq n numa gpus tc b h = Some (t, h1)" for t h1 n numa b tg rip
  proof -
    from r have c: "create_task t h = Some (t, h1)" "newborn t"
      by (auto simp: create_task_record_def new_task_newborn dest: create_task_row)
    have a: "accounts cfg h h1" by (rule accounts_same [OF evolves_create [OF c] create_task_ip [OF c(1)]])
    have row: "get_task (task_id t) h1 = Some t" using create_task_row [OF c(1)] by simp
    have "accounts cfg h1 (snd (place_task lib cfg now rnd rq tg n rip t h1))" if p: "status t \<noteq> ''pending_approval''"
    proof (rule accounts_serves [OF _ place_task_serves])
      note n = newborn_cleared [OF c(2) p]
      show e: "evolves anything h1 (snd (place_task lib cfg now rnd rq tg n rip t h1))"
        using n row by (intro place_task_evolves) auto
      have "covers h1 (container_of t)" using row n by (intro covers_row) (auto simp: is_finished_def)
      then show "tasks_keyed h1 \<Longrightarrow> covers (snd (place_task lib cfg now rnd rq tg n rip t h1)) (container_of t)"
        using e by (blast intro: covers_evolves)
    qed
    with a show ?thesis by (blast intro: accounts_trans)
  qed
  then show ?thesis by (auto simp: process_target_def split: option.split prod.split sum.split)
qed

lemma process_targets_accounts: "accounts cfg h (snd (process_targets lib cfg now rnd ids rq tc k first ts h))"
proof (induction ts arbitrary: k first h)
  case (Cons t ts)
  obtain tg gpus where t: "t = (tg, gpus)" by fastforce
  obtain r h' where p: "process_target lib cfg now (rnd k) (ids k) rq tg gpus tc first h = (r, h')" by fastforce
  then have e: "accounts cfg h h'"
    using process_target_accounts [of cfg h lib now "rnd k" "ids k" rq tg gpus tc first] by simp
  show ?case
  proof (cases r)
    case (Inr x)
    let ?first = "case (first, x) of (None, Created i) \<Rightarrow> Some i | (None, Dispatching i) \<Rightarrow> Some i | _ \<Rightarrow> first"
    obtain rs h'' where q: "process_targets lib cfg now rnd ids rq tc (Suc k) ?first ts h' = (rs, h'')" by fastforce
    then have "accounts cfg h' h''" using Cons.IH [of h' "Suc k" ?first] by simp
    with e have "accounts cfg h h''" by (rule accounts_trans)
    with p q Inr t show ?thesis by (simp add: Let_def split: sum.split)
  qed (use e p t in simp)
qed simp

lemma submit_task_accounts: "accounts cfg h (snd (submit_task lib cfg now rnd ids u rq h))"
proof -
  have "accounts cfg h h'" if "process_targets lib cfg now rnd ids rq' tc 0 None ts h = (r, h')" for rq' tc ts r h'
    using process_targets_accounts [of cfg h lib now rnd ids rq' tc 0 None ts] that by simp
  then show ?thesis by (simp add: submit_task_def guard_role_def split: sum.split prod.split)
qed

section \<open>VPS\<close>

lemma vps_claim_serves: "host_serves c h (snd (vps_claim lib cfg now s tg c h))"
proof -
  have "serves c m m'" if "use_reservation lib now tok c er en m = (x, m')" for tok er en m x m'
    using serves_ops(2) [of c m lib now tok er en] that by simp
  then show ?thesis
    by (auto simp: vps_claim_def host_serves_def get_ip_reservation_manager_def Let_def split: option.splits prod.splits if_splits)
qed

lemma vps_claim_error: "vps_claim lib cfg now s tg c h = (Inl e, h') \<Longrightarrow> h' = h"
  by (auto simp: vps_claim_def Let_def split: option.splits prod.splits if_splits)

lemma vps_place_serves:
  assumes "create_task t h = Some (t, h1)"
  shows "host_serves (container_of t) h (snd (vps_place cfg now rnd s n t rip h))"
proof -
  obtain r h2 where a: "auto_allocate_flat_ips_vps cfg now rnd (hostname n) (vps_networks s) (container_of t) rip
      (vps_primary_network s) h1 = (r, h2)" by fastforce
  then have "host_serves (container_of t) h1 h2"
    using auto_allocate_serves [of "container_of t" h1 cfg now rnd "hostname n" "vps_networks s" rip "vps_primary_network s"]
    by (simp add: auto_allocate_flat_ips_vps_def)
  with host_serves_same [OF create_task_ip [OF assms]] have s: "host_serves (container_of t) h h2" by (rule host_serves_trans)
  have "ip_manager (snd (vps_place cfg now rnd s n t rip h)) = ip_manager h2"
    using a assms by (auto simp: vps_place_def Let_def split: sum.split pyexn.split)
  with s show ?thesis by (blast intro: host_serves_trans host_serves_same)
qed

lemma vps_claim_place_accounts:
  assumes "get_task i h = None" "newborn t" "status t = ''assigning''" "task_id t = i" "container_of t = c"
  shows "accounts cfg h (snd (bind_st (vps_claim lib cfg now s (hostname n) c) (vps_place cfg now rnd s n t) h))"
proof (cases "vps_claim lib cfg now s (hostname n) c h")
  case (Pair r h1)
  have h1: "tasks h1 = tasks h" "same_queues h h1" "host_serves c h h1"
    using vps_claim_frame(1) [of lib cfg now s "hostname n" c h] vps_claim_frame(2) [of h lib cfg now s "hostname n" c]
      vps_claim_serves [of c h lib cfg now s "hostname n"] Pair by simp_all
  show ?thesis
  proof (cases r)
    case (Inl e)
    with Pair vps_claim_error [of lib cfg now s "hostname n" c h e h1] show ?thesis by (simp add: bind_st_def)
  next
    case (Inr rip)
    let ?h' = "snd (vps_place cfg now rnd s n t rip h1)"
    have "task_id t \<notin> set (dict_keys (tasks h1))"
      using assms(1,4) h1(1) by (simp add: get_task_def map_of_eq_None_iff)
    then obtain h2 where c: "create_task t h1 = Some (t, h2)" by (simp add: create_task_def)
    have e: "evolves anything h ?h'"
      using evolves_trans [OF evolves_same [OF h1(1,2)] vps_place_evolves [OF assms(2,3)]] .
    have "covers h2 c"
      using covers_row [of "task_id t" h2 t] create_task_row [OF c] assms(3,5) by (simp add: is_finished_def)
    moreover have "tasks_keyed h \<Longrightarrow> tasks_keyed h2"
      using evolves_create [OF c assms(2), of anything] h1(1) by (simp add: evolves_def)
    ultimately have "tasks_keyed h \<Longrightarrow> covers ?h' c"
      using vps_place_created [OF c assms(2,3)] by (blast intro: covers_evolves)
    moreover have "host_serves c h ?h'"
      using host_serves_trans [OF h1(3)] vps_place_serves [OF c] assms(5) by blast
    ultimately have "accounts cfg h ?h'" using e by (blast intro: accounts_serves)
    with Pair Inr show ?thesis by (simp add: bind_st_def)
  qed
qed

lemma submit_vps_accounts:
  assumes "get_task i h = None"
  shows "accounts cfg h (snd (submit_vps lib keygen cfg now rnd i u s h))"
proof -
  have "accounts cfg h (snd (bind_st (vps_claim lib cfg now s (hostname n) (vps_container_name i))
          (vps_place cfg now rnd s n (new_vps_task now i s port n c backend u)) h))" for n port c backend
    by (rule vps_claim_place_accounts [OF assms new_vps_newborn]) (simp_all add: new_vps_task_def container_of_def)
  then show ?thesis by (simp add: submit_vps_def guard_role_def Let_def split: sum.split prod.split)
qed

section \<open>Handlers that do not touch the pool\<close>

lemma fold_ip: "(\<And>x s. ip_manager (f x s) = ip_manager s) \<Longrightarrow> ip_manager (fold f xs h) = ip_manager h"
  by (induction xs arbitrary: h) simp_all

lemma end_task_ip [simp]: "ip_manager (end_task st msg code now t h) = ip_manager h"
  by (simp add: end_task_def Let_def)

lemma node_frames_ip [simp]:
  "ip_manager (mark_node_offline n h) = ip_manager h" "ip_manager (mark_overlay_inactive cfg m h) = ip_manager h"
  "ip_manager (mark_overlay_active nl uh cfg now m h) = ip_manager h" "ip_manager (update_node_metrics now rq nd h) = ip_manager h"
  "ip_manager (confirm_task_running now t h) = ip_manager h" "ip_manager (mark_task_killed now msg t h) = ip_manager h"
  "ip_manager (dispatch_approved t h) = ip_manager h" "ip_manager (restart_create cfg t u h) = ip_manager h"
  "ip_manager (snd (allocate_overlay_for_runner nl uh cfg now n' u h)) = ip_manager h"
  by (simp_all add: mark_node_offline_def mark_overlay_inactive_def mark_overlay_active_def update_node_metrics_def
      confirm_task_running_def mark_task_killed_def dispatch_approved_def send_task_to_runner_def restart_create_def
      allocate_overlay_for_runner_def Let_def split: option.split prod.split sum.split)

lemma guard_role_ip: "ip_manager (snd (f h)) = ip_manager h \<Longrightarrow> ip_manager (snd (guard_role r u f h)) = ip_manager h"
  by (simp add: guard_role_def split: sum.split)

lemma with_row_ip:
  "(\<And>t. ip_manager (snd (f t h)) = ip_manager h) \<Longrightarrow> ip_manager (snd (with_row g msg f h)) = ip_manager h"
  by (simp add: with_row_def split: option.split)

lemma pass_ip [simp]:
  "ip_manager (handle_dead_node now nd h) = ip_manager h"
  "ip_manager (cleanup_orphaned_pending_tasks now h) = ip_manager h"
  "ip_manager (process_killed_tasks now ks h) = ip_manager h"
  "ip_manager (reconcile_assigning_tasks cfg running n now h) = ip_manager h"
  "ip_manager (reconcile_pending_tasks cfg running n now h) = ip_manager h"
  by (auto simp: cleanup_orphaned_pending_tasks_def handle_dead_node_def mark_node_tasks_lost_def Let_def
      process_killed_tasks_def process_killed_task_def reconcile_assigning_tasks_def check_task_assignment_timeout_def
      reconcile_pending_tasks_def reconcile_pending_task_def split: option.split intro!: fold_ip [THEN trans] fold_ip)

lemma monitor_ip [simp]:
  "ip_manager (monitor_nodes cfg now ns h) = ip_manager h" "ip_manager (check_dead_runners cfg now h) = ip_manager h"
proof -
  show m: "ip_manager (monitor_nodes cfg now ns h) = ip_manager h" for ns and h :: "'a host"
    by (induction ns arbitrary: h) (simp_all add: Let_def)
  show "ip_manager (check_dead_runners cfg now h) = ip_manager h" by (simp add: check_dead_runners_def m)
qed

lemma resume_fresh_ip:
  assumes "instance_of a = None"
  shows "ip_manager (resume_handler cfg now a r h) = ip_manager h"
  using assms
  by (cases a) (auto simp: resume_handler_def finish_kill_def update_task_error_message_def finish_vm_delete_def
      finish_mark_inactive_def split: reply.split option.split)

lemma handlers_ip:
  "ip_manager (snd (register_node nl uh cfg now rn h)) = ip_manager h"
  "ip_manager (snd (heartbeat nl uh cfg now n rq h)) = ip_manager h"
  "ip_manager (snd (update_task_status now i su h)) = ip_manager h"
  "ip_manager (snd (approve_task now u i h)) = ip_manager h"
  "ip_manager (snd (reject_task now u i reason h)) = ip_manager h"
  "ip_manager (snd (request_kill_task now u i h)) = ip_manager h"
  "ip_manager (snd (send_command_to_task u i c h)) = ip_manager h"
  "ip_manager (snd (stop_vps now u i h)) = ip_manager h"
  "ip_manager (snd (restart_vps cfg u i h)) = ip_manager h"
  "ip_manager (snd (host_delete_vm_instance u i node force h)) = ip_manager h"
  unfolding host_delete_vm_instance_def approve_task_def reject_task_def request_kill_task_def send_command_to_task_def stop_vps_def restart_vps_def
  by (simp_all add: register_node_def heartbeat_def update_task_status_def Let_def case_prod_beta
      guard_role_ip with_row_ip split: option.split)

section \<open>Steps and runs\<close>

lemma with_ip_manager_accounts:
  assumes "\<And>m. ipr_ok m \<Longrightarrow> ipr_ok (snd (f m)) \<and> holders (snd (f m)) \<subseteq> holders m"
  shows "accounts cfg h (snd (with_ip_manager cfg f h))"
proof (cases "hs_overlay_enabled cfg \<and> ip_manager h \<noteq> None")
  case True
  then obtain m where m: "hs_overlay_enabled cfg" "ip_manager h = Some m" by auto
  obtain r m' where f: "f m = (r, m')" by fastforce
  have w: "snd (with_ip_manager cfg f h) = h\<lparr>ip_manager := Some m'\<rparr>"
    using m f by (simp add: with_ip_manager_def get_ip_reservation_manager_def)
  have "evolves anything h (h\<lparr>ip_manager := Some m'\<rparr>)" by (rule evolves_same) (simp_all add: same_queues_def)
  with assms [of m] m f show ?thesis
    unfolding w by (auto simp: accounts_def pool_ok_def bound_def get_ip_reservation_manager_def)
qed (auto simp: with_ip_manager_def get_ip_reservation_manager_def)

lemma ip_endpoints_accounts:
  "accounts cfg h (snd (ep_reserve_ip lib cfg now rand runner wanted ttl net h))"
  "accounts cfg h (snd (ep_release_ip_reservation cfg tok h))"
  "accounts cfg h (snd (ep_list_ip_reservations cfg now rn inc nt h))"
proof -
  have 1: "ipr_ok (snd (case reserve_ip lib ov now rand runner wanted (Some ttl) net m of
        (Inr None, m') \<Rightarrow> (Inl (HTTPException 409 ''IP unavailable or runner not found''), m')
      | (Inr (Some r), m') \<Rightarrow> (Inr r, m') | (Inl e, m') \<Rightarrow> (Inl e, m'))) \<and>
     holders (snd (case reserve_ip lib ov now rand runner wanted (Some ttl) net m of
        (Inr None, m') \<Rightarrow> (Inl (HTTPException 409 ''IP unavailable or runner not found''), m')
      | (Inr (Some r), m') \<Rightarrow> (Inr r, m') | (Inl e, m') \<Rightarrow> (Inl e, m'))) \<subseteq> holders m" if m: "ipr_ok m" for ov m
    using ipr_ok_reserve [OF m, of lib ov now rand runner wanted "Some ttl" net]
      holders_reserve [OF m, of lib ov now rand runner wanted "Some ttl" net]
    by (auto split: prod.split sum.split option.split)
  show "accounts cfg h (snd (ep_reserve_ip lib cfg now rand runner wanted ttl net h))"
    using 1 by (auto simp: ep_reserve_ip_def intro!: with_ip_manager_accounts)
  have 2: "ipr_ok (snd (case release_by_token tok m of (ok, m') \<Rightarrow>
       (if ok then Inr () else Inl (HTTPException 404 ''Reservation not found, expired, or in use''), m'))) \<and>
     holders (snd (case release_by_token tok m of (ok, m') \<Rightarrow>
       (if ok then Inr () else Inl (HTTPException 404 ''Reservation not found, expired, or in use''), m'))) \<subseteq> holders m"
    if m: "ipr_ok m" for m
    using ipr_ok_release_token [OF m, of tok] holders_release_token [of tok m] by (auto split: prod.split)
  show "accounts cfg h (snd (ep_release_ip_reservation cfg tok h))"
    unfolding ep_release_ip_reservation_def by (rule with_ip_manager_accounts [OF 2])
  have 3: "snd (get_reservations now rn inc nt m) = cleanup_expired_sync now m" for m
    by (simp add: get_reservations_def Let_def)
  show "accounts cfg h (snd (ep_list_ip_reservations cfg now rn inc nt h))"
    unfolding ep_list_ip_reservations_def
    by (rule with_ip_manager_accounts) (use 3 ipr_ok_cleanup holders_cleanup in \<open>auto simp: case_prod_beta\<close>)
qed

text \<open>Two things the statement excludes: a runner that refuses a VPS that \<open>/submit\<close> or an approval
  sent it, and an identifier drawn for a VPS that a task already has.\<close>

fun accepted :: "reply \<Rightarrow> bool" where
  "accepted (Answer a) \<longleftrightarrow> True"
| "accepted r \<longleftrightarrow> False"

fun smooth :: "host_event \<Rightarrow> 'k host \<Rightarrow> bool" where
  "smooth (CreateVps now rnd i u s) h \<longleftrightarrow> get_task i h = None"
| "smooth (ReplyArrives now n r) h \<longleftrightarrow>
     (n < length (suspended h) \<longrightarrow>
        (case suspended h ! n of
           AwaitSubmitVps t \<Rightarrow> accepted r
         | AwaitApproveVps t \<Rightarrow> accepted r
         | _ \<Rightarrow> True))"
| "smooth e h \<longleftrightarrow> True"

fun smooth_run :: "'k environment \<Rightarrow> host_event list \<Rightarrow> 'k host \<Rightarrow> bool" where
  "smooth_run env [] h \<longleftrightarrow> True"
| "smooth_run env (e # es) h \<longleftrightarrow> smooth e h \<and> smooth_run env es (host_step env e h)"

lemma fresh_accounts:
  assumes "fresh_handler e" "smooth e h"
  shows "accounts (env_cfg env) h (host_step env e h)"
proof (cases e)
  case (Submit now rnd ids u rq)
  then show ?thesis by (simp add: submit_task_accounts)
next
  case (CreateVps now rnd i u s)
  with assms(2) show ?thesis by (simp add: submit_vps_accounts)
next
  case (ReserveIp now rand runner wanted ttl net)
  then show ?thesis by (simp add: ip_endpoints_accounts)
next
  case (ReleaseToken tok)
  then show ?thesis by (simp add: ip_endpoints_accounts)
next
  case (ListReservations now runner inc net)
  then show ?thesis by (simp add: ip_endpoints_accounts)
qed (use assms(1) host_step_evolves [OF assms(1), of anything h env] in \<open>auto intro!: accounts_same simp: handlers_ip\<close>)

definition all_covered :: "host_settings \<Rightarrow> 'k host \<Rightarrow> bool" where
  "all_covered cfg h \<longleftrightarrow> pool_ok h \<and> (\<forall>c \<in> bound cfg h. covers h c)"

lemma covered_accounts:
  assumes "tasks_keyed h" "accounts cfg h h'" "all_covered cfg h"
  shows "all_covered cfg h'"
  using assms covers_evolves [OF assms(1), of anything h'] unfolding accounts_def all_covered_def by blast

lemma covered_release:
  assumes "all_covered cfg h"
  shows "all_covered cfg (run_release cfg n h)"
proof (cases "n < length (releases h)")
  case True
  let ?c = "releases h ! n"
  have s: "set (releases h) \<subseteq> insert ?c (set (remove_nth n (releases h)))" using remove_nth_set [OF True] by simp
  show ?thesis
  proof (cases "get_ip_reservation_manager cfg h")
    case None
    with assms True show ?thesis
      by (auto simp: all_covered_def bound_def run_release_def release_task_ips_def get_ip_reservation_manager_def pool_ok_def
          split: if_splits)
  next
    case (Some m)
    then have m: "hs_overlay_enabled cfg" "ip_manager h = Some m" by (auto simp: get_ip_reservation_manager_def split: if_splits)
    with assms have ok: "ipr_ok m" "\<forall>c \<in> holders m. covers h c"
      by (auto simp: all_covered_def pool_ok_def bound_def get_ip_reservation_manager_def)
    let ?h = "h\<lparr>releases := remove_nth n (releases h), ip_manager := Some (snd (release_by_container ?c m))\<rparr>"
    have r: "run_release cfg n h = ?h"
      using True m by (simp add: run_release_def release_task_ips_def get_ip_reservation_manager_def)
    have "covers ?h c" if "c \<in> holders m" "c \<noteq> ?c" for c
      using that ok(2) s unfolding covers_def get_task_def by fastforce
    then show ?thesis
      unfolding r using m(1) ipr_ok_release [OF ok(1)] holders_release [OF ok(1), of ?c]
      by (auto simp: all_covered_def pool_ok_def bound_def get_ip_reservation_manager_def)
  qed
qed (use assms in \<open>simp add: run_release_def\<close>)

text \<open>Replies.\<close>

definition tidy :: "task \<Rightarrow> 'k host \<Rightarrow> 'k host \<Rightarrow> bool" where
  "tidy t h h' \<longleftrightarrow>
     h' = h \<or> (\<exists>t'. written t t' h h' \<and> (is_finished t' \<longrightarrow> container_of t' \<in> set (releases h')))"

lemma tidy_save: "overwrites t t' \<Longrightarrow> \<not> is_finished t' \<Longrightarrow> tidy t h (save_task t' h)"
  unfolding tidy_def written_def by force

lemma tidy_end: "overwrites t t' \<Longrightarrow> tidy t h (schedule_ip_release t' (save_task t' h))"
  unfolding tidy_def written_def by force

lemma tidy_dispatch:
  assumes "\<not> is_finished t"
  shows "accepted r \<Longrightarrow> tidy t h (case vps_task_sent t r h of (ok, t', h') \<Rightarrow>
     if ok then h' else save_task (t'\<lparr>status := ''failed'', error_message := m, completed_at := Some now\<rparr>) h')"
proof -
  have "\<not> is_finished (t\<lparr>ssh_port := p\<rparr>)" for p using assms by (simp add: is_finished_def)
  then show "accepted r \<Longrightarrow> ?thesis"
    by (cases r) (auto simp: vps_task_sent_def Let_def intro: tidy_save ported, simp add: tidy_def)
qed

lemma resume_smooth:
  assumes "plain_await a" "instance_of a = Some t" "\<not> is_finished t"
    and "\<And>s. a = AwaitSubmitVps s \<or> a = AwaitApproveVps s \<Longrightarrow> accepted r"
  shows "tidy t h (resume_handler cfg now a r h)"
proof -
  have n: "tidy t h h" by (simp add: tidy_def)
  have f: "\<not> is_finished (t\<lparr>vm_ip := v\<rparr>)" "\<not> is_finished (t\<lparr>status := ''paused''\<rparr>)" "\<not> is_finished (t\<lparr>status := ''running''\<rparr>)" for v
    using assms(3) by (simp_all add: is_finished_def)
  show ?thesis
    using assms
    by (cases a)
      (auto simp: resume_handler_def finish_command_def finish_create_vps_def finish_restart_vps_def Let_def
         finish_dispatch_vps_def finish_approve_vps_def finish_vm_delete_def n f
         intro: commanded addressed refused stopped intro!: tidy_dispatch tidy_save tidy_end split: reply.split)
qed

lemma covers_written:
  assumes "written t t' h h'" "has_row t h" "is_finished t' \<longrightarrow> container_of t' \<in> set (releases h')" "covers h c"
  shows "covers h' c"
proof -
  from assms(1) have o: "overwrites t t'" and r: "set (releases h) \<subseteq> set (releases h')" by (simp_all add: written_def)
  from assms(4) consider "c \<in> set (releases h)" | i s where "get_task i h = Some s" "\<not> is_finished s" "container_of s = c"
    unfolding covers_def by blast
  then show ?thesis
  proof cases
    case (2 i s)
    show ?thesis
    proof (cases "i = task_id t")
      case True
      with assms(2) 2(1) have "container_of s = container_of t" unfolding has_row_def by (auto dest: same_spec)
      with 2(3) have c: "container_of t' = c" using overwrites_same [OF o] by simp
      have "get_task i h' = Some t'" using get_task_written [OF assms(1), of i] True 2(1) by simp
      then show ?thesis using assms(3) c covers_row covers_release by (cases "is_finished t'") auto
    next
      case False
      then have "get_task i h' = Some s" using get_task_written [OF assms(1), of i] 2(1) by simp
      with 2 covers_row show ?thesis by blast
    qed
  qed (use r in \<open>auto intro: covers_release\<close>)
qed

lemma covered_tidy:
  assumes "tidy t h h'" "has_row t h" "all_covered cfg h"
  shows "all_covered cfg h'"
proof (cases "h' = h")
  case False
  with assms(1) obtain t' where w: "written t t' h h'" "is_finished t' \<longrightarrow> container_of t' \<in> set (releases h')"
    unfolding tidy_def by blast
  then have "ip_manager h' = ip_manager h" by (simp add: written_def)
  with assms(3) covers_written [OF w(1) assms(2) w(2)] show ?thesis
    by (simp add: all_covered_def pool_ok_def bound_def get_ip_reservation_manager_def)
qed (use assms in simp)

lemma covered_same:
  "all_covered cfg h \<Longrightarrow> tasks h' = tasks h \<Longrightarrow> releases h' = releases h \<Longrightarrow> ip_manager h' = ip_manager h \<Longrightarrow> all_covered cfg h'"
  by (simp add: all_covered_def pool_ok_def bound_def get_ip_reservation_manager_def covers_def get_task_def)

lemma covered_reply:
  assumes k: "tasks_keyed h" "known h" and l: "lawful timed (\<lambda>a t. \<not> is_finished t) UNIV h"
    and s: "smooth (ReplyArrives now n r) h" and c: "all_covered cfg h"
  shows "all_covered cfg (reply_arrives cfg' now n r h)"
proof (cases "n < length (suspended h)")
  case True
  let ?a = "suspended h ! n" and ?h = "h\<lparr>suspended := remove_nth n (suspended h)\<rparr>"
  have e: "reply_arrives cfg' now n r h = resume_handler cfg' now ?a r ?h" using True by (simp add: reply_arrives_def)
  have c': "all_covered cfg ?h" using c by (rule covered_same) simp_all
  have row: "has_row t ?h" "\<not> is_finished t" if "instance_of ?a = Some t" for t
    using that k(2) nth_mem [OF True] lawful_await [OF l nth_mem [OF True] that]
    by (auto simp: known_def has_row_def get_task_def)
  show ?thesis
    using True
  proof (cases rule: reply_arrives_cases)
    case Fresh
    then have "ip_manager (resume_handler cfg' now ?a r ?h) = ip_manager ?h" by (rule resume_fresh_ip)
    with covered_accounts [OF _ accounts_same [OF resume_fresh [OF Fresh] this] c'] k(1) e show ?thesis by simp
  next
    case (Restart t u)
    let ?t = "recreated_task t"
    have "tidy t ?h (save_task ?t ?h)"
      by (rule tidy_save) (simp_all add: recreated_task_def recreated is_finished_def)
    from covered_tidy [OF this row(1) c'] Restart have "all_covered cfg (save_task ?t ?h)" by simp
    then have "all_covered cfg (restart_create cfg' t u ?h)"
      by (rule covered_same) (simp_all add: restart_create_effect)
    with e Restart show ?thesis by (simp add: resume_handler_def)
  next
    case (Plain t)
    have "tidy t ?h (resume_handler cfg' now ?a r ?h)"
      by (rule resume_smooth [OF Plain row(2) [OF Plain(2)]]) (use s True in auto)
    with e covered_tidy [OF this row(1) [OF Plain(2)] c'] show ?thesis by simp
  qed
qed (use c in \<open>simp add: reply_arrives_def\<close>)

lemma covered_step:
  assumes "tasks_keyed h" "known h" "lawful timed (\<lambda>a t. \<not> is_finished t) UNIV h" "smooth e h" "all_covered (env_cfg env) h"
  shows "all_covered (env_cfg env) (host_step env e h)"
proof (cases "fresh_handler e")
  case True
  then show ?thesis using assms by (blast intro: covered_accounts fresh_accounts)
next
  case False
  then show ?thesis using covered_reply [OF assms(1-3) _ assms(5)] covered_release [OF assms(5)] assms(4) by (cases e) simp_all
qed

lemma covered_run:
  "tasks_keyed h \<Longrightarrow> known h \<Longrightarrow> lawful timed (\<lambda>a t. \<not> is_finished t) UNIV h \<Longrightarrow> smooth_run env es h \<Longrightarrow>
   all_covered (env_cfg env) h \<Longrightarrow> all_covered (env_cfg env) (fold (host_step env) es h)"
proof (induction es arbitrary: h)
  case (Cons e es)
  have "all_covered (env_cfg env) (host_step env e h)" using Cons.prems by (intro covered_step) simp_all
  moreover have "tasks_keyed (host_step env e h)" "known (host_step env e h)"
    using known.inv_step [of h env e] Cons.prems by simp_all
  moreover have "lawful timed (\<lambda>a t. \<not> is_finished t) UNIV (host_step env e h)"
    using timed.every.inv_step [of h env e] Cons.prems by simp
  ultimately show ?case using Cons.IH Cons.prems by simp
qed simp

section \<open>Properties\<close>

text \<open>C7: no address is stranded.  Over every run from an empty table with an unused pool, in which
  no runner refuses a VPS sent by \<open>/submit\<close> or an approval, every address bound to a container
  belongs to a task that has not ended, or the release of that container is still scheduled.  So
  once the scheduled releases have run, no ended task holds an address.\<close>

theorem addresses_accounted:
  assumes "host_init h0" "pool_ok h0" "bound (env_cfg env) h0 = {}" "smooth_run env es h0"
    and "h = fold (host_step env) es h0" "c \<in> bound (env_cfg env) h"
  shows "c \<in> set (releases h) \<or> (\<exists>i t. get_task i h = Some t \<and> \<not> is_finished t \<and> container_of t = c)"
proof -
  have k: "tasks_keyed h0" "known h0" using known.inv_init [OF assms(1)] by simp_all
  have l: "lawful timed (\<lambda>a t. \<not> is_finished t) UNIV h0" using timed.every.inv_init [OF assms(1)] by simp
  have "all_covered (env_cfg env) h0" using assms(2,3) by (simp add: all_covered_def)
  from covered_run [OF k l assms(4) this] assms(5,6) show ?thesis by (simp add: all_covered_def covers_def)
qed

abbreviation demo_flat_run :: "host_event list" where
  "demo_flat_run \<equiv> [demo_submit demo_operator ''command'' (Some ''flat'')]"

lemma demo_pool: "pool_ok demo_host" "bound (env_cfg demo_env) demo_host = {}"
  by (simp add: pool_ok_def demo_host_def demo_ipr_def ipr_ok_new)
    (simp add: bound_def get_ip_reservation_manager_def holders_def demo_host_def demo_ipr_def new_ipr_def)

lemma addresses_accounted_witness:
  "\<exists>c. c \<in> bound (env_cfg demo_env) (fold (host_step demo_env) demo_flat_run demo_host) \<and>
     (\<exists>i t. get_task i (fold (host_step demo_env) demo_flat_run demo_host) = Some t \<and> \<not> is_finished t \<and> container_of t = c)"
proof -
  let ?h = "fold (host_step demo_env) demo_flat_run demo_host"
  have c: "task_container_name 1 \<in> bound (env_cfg demo_env) ?h"
    by (rule boundI [where k = "(''flat'', ''10.0.0.2'')"]) code_simp
  have r: "releases ?h = []" "smooth_run demo_env demo_flat_run demo_host" by code_simp+
  from addresses_accounted [OF demo_host_init demo_pool r(2) refl c] r(1) c show ?thesis by auto
qed

text \<open>The exception.  When a runner refuses the VPS that \<open>/submit\<close> sent it, the task fails at once,
  but no release is scheduled and the reservation manager is left alone: the addresses bound to its
  container stay bound with nothing left to free them.\<close>

theorem refused_vps_strands_addresses:
  assumes "tasks_keyed h" "n < length (suspended h)" "suspended h ! n = AwaitSubmitVps t" "get_task (task_id t) h = Some s"
    and "r = HTTPStatusError code \<or> r = RequestError e"
    and "h' = host_step env (ReplyArrives now n r) h"
  shows "(\<exists>t'. get_task (task_id t) h' = Some t' \<and> status t' = ''failed'' \<and> is_finished t') \<and>
    releases h' = releases h \<and> bound (env_cfg env) h' = bound (env_cfg env) h"
proof -
  let ?h = "h\<lparr>suspended := remove_nth n (suspended h)\<rparr>"
  let ?t = "t\<lparr>status := ''failed'', error_message := Some ''Failed to create VPS on runner.'', completed_at := Some now\<rparr>"
  have h': "h' = save_task ?t ?h"
    using assms(2,3,5,6) by (auto simp: reply_arrives_def resume_handler_def finish_dispatch_vps_def vps_task_sent_def)
  have "get_task (task_id t) ?h = Some s" using assms(4) by (simp add: get_task_def)
  then show ?thesis
    unfolding h' by (simp add: get_task_save is_finished_def bound_def get_ip_reservation_manager_def)
qed

lemma refused_vps_strands_addresses_witness:
  "\<exists>t. get_task 1 (fold (host_step demo_env) [demo_submit demo_operator ''vps'' (Some ''flat''), ReplyArrives 3 0 (HTTPStatusError 409)]
      demo_host) = Some t \<and> is_finished t \<and>
     vps_container_name 1 \<in> bound (env_cfg demo_env) (fold (host_step demo_env)
      [demo_submit demo_operator ''vps'' (Some ''flat''), ReplyArrives 3 0 (HTTPStatusError 409)] demo_host)"
proof -
  let ?h = "fold (host_step demo_env) [demo_submit demo_operator ''vps'' (Some ''flat'')] demo_host"
  have "case suspended ?h ! 0 of AwaitSubmitVps t \<Rightarrow> task_id t = 1 | _ \<Rightarrow> False" "0 < length (suspended ?h)"
    "get_task 1 ?h \<noteq> None"
    by code_simp+
  moreover have b: "vps_container_name 1 \<in> bound (env_cfg demo_env) ?h"
    by (rule boundI [where k = "(''flat'', ''10.0.0.2'')"]) code_simp
  ultimately obtain t s where a: "suspended ?h ! 0 = AwaitSubmitVps t" "task_id t = 1" "0 < length (suspended ?h)"
      "get_task 1 ?h = Some s"
    by (auto simp del: fold_simps fold.simps split: await.splits)
  have k: "tasks_keyed ?h" using known.run_inv [OF demo_host_init] by blast
  from refused_vps_strands_addresses [OF k, of 0 t s "HTTPStatusError 409" 409 "''''", OF _ _ _ _ refl, of demo_env 3] a b
  show ?thesis by auto
qed

end
