(* ===== verification/Node_Properties.thy ===== *)
theory Node_Properties
  imports Host_Examples
begin

text \<open>
  Placement: the node chosen for a task, the status listing against the accounting it should agree
  with, the cores that submissions may take, and the SSH port given to a VPS.
\<close>

section \<open>Choosing a node\<close>

definition eligible :: "int \<Rightarrow> int list \<Rightarrow> int option \<Rightarrow> string option \<Rightarrow> 'k host \<Rightarrow> node \<Rightarrow> bool" where
  "eligible cores gpus mem target h n \<longleftrightarrow>
     n \<in> set (dict_values (nodes h)) \<and> is_online n \<and> (truthy target \<longrightarrow> Some (hostname n) = target) \<and>
     cores \<le> get_node_available_cores n h \<and>
     set gpus \<subseteq> set (get_node_available_gpus n h) \<and>
     (truthy_int mem \<longrightarrow> the mem \<le> get_node_available_memory n h)"

lemma node_meets_plain:
  "node_meets_requirements n cores gpus mem None h = Inr (cores \<le> get_node_available_cores n h \<and>
     set gpus \<subseteq> set (get_node_available_gpus n h) \<and> (truthy_int mem \<longrightarrow> the mem \<le> get_node_available_memory n h))"
  by (auto simp: node_meets_requirements_def list_all_iff)

lemma suitable_nodes_plain:
  "suitable_nodes cores gpus mem None h ns =
     Inr (map (\<lambda>n. (n, get_node_available_cores n h))
       (filter (\<lambda>n. cores \<le> get_node_available_cores n h \<and> set gpus \<subseteq> set (get_node_available_gpus n h) \<and>
          (truthy_int mem \<longrightarrow> the mem \<le> get_node_available_memory n h)) ns))"
  by (induction ns) (simp_all add: node_meets_plain)

text \<open>The first of the entries with the most cores: those before it have fewer, those after it no more.\<close>

lemma most_free_spec:
  "case most_free xs of
     None \<Rightarrow> xs = []
   | Some n \<Rightarrow> (\<exists>ys c zs. xs = ys @ (n, c) # zs \<and> (\<forall>y \<in> set ys. snd y < c) \<and> (\<forall>z \<in> set zs. snd z \<le> c))"
proof (cases "sort_key (\<lambda>x. - snd x) xs")
  case Nil
  then have "set xs = {}" by (metis empty_set set_sort)
  with Nil show ?thesis by (simp add: most_free_def)
next
  case (Cons p ps)
  let ?top = "filter (\<lambda>x. - snd x = - snd p)"
  have most: "snd q \<le> snd p" if "q \<in> set xs" for q
  proof -
    have "q \<in> set (p # ps)" using that Cons by (metis set_sort)
    moreover have "sorted (map (\<lambda>x. - snd x) (p # ps))" using Cons by (metis sorted_sort_key)
    ultimately show ?thesis by auto
  qed
  have "?top xs = ?top (p # ps)" using sort_key_stable [of "\<lambda>x. - snd x" "- snd p" xs] Cons by simp
  then have "?top xs = p # ?top ps" by simp
  from filter_eq_ConsD [OF this] obtain ys zs where x: "xs = ys @ p # zs" "\<forall>y \<in> set ys. - snd y \<noteq> - snd p" by blast
  have "\<forall>y \<in> set ys. snd y < snd p" using x most by (force simp: order_less_le)
  moreover have "\<forall>z \<in> set zs. snd z \<le> snd p" using x(1) most by simp
  ultimately have "\<exists>ys c zs. xs = ys @ (fst p, c) # zs \<and> (\<forall>y \<in> set ys. snd y < c) \<and> (\<forall>z \<in> set zs. snd z \<le> c)"
    using x(1) by (intro exI [of _ ys] exI [of _ "snd p"] exI [of _ zs]) simp
  moreover have "most_free xs = Some (fst p)" using Cons by (simp add: most_free_def)
  ultimately show ?thesis by simp
qed

lemma map_split: "map f ns = ys @ b # zs \<Longrightarrow> \<exists>us n vs. ns = us @ n # vs \<and> ys = map f us \<and> b = f n \<and> zs = map f vs"
  by (auto simp: map_eq_append_conv map_eq_Cons_conv)

text \<open>C15: the chosen node.  Without a NUMA requirement the search always answers.  Among the nodes that are
  online, are the requested one if one was requested, and have the cores, GPUs and memory asked for,
  in the order of the table, it takes the first of those with the most free cores: the ones before it
  have fewer and the ones after it have no more.  It answers nothing exactly when there is no such node.\<close>

theorem find_suitable_node_best:
  "\<exists>r. find_suitable_node cores gpus mem target None h = Inr r \<and>
     (case r of
        None \<Rightarrow> filter (eligible cores gpus mem target h) (dict_values (nodes h)) = []
      | Some n \<Rightarrow> (\<exists>ys zs. filter (eligible cores gpus mem target h) (dict_values (nodes h)) = ys @ n # zs \<and>
          (\<forall>y \<in> set ys. get_node_available_cores y h < get_node_available_cores n h) \<and>
          (\<forall>z \<in> set zs. get_node_available_cores z h \<le> get_node_available_cores n h)))"
proof -
  let ?P = "\<lambda>n. cores \<le> get_node_available_cores n h \<and> set gpus \<subseteq> set (get_node_available_gpus n h) \<and>
          (truthy_int mem \<longrightarrow> the mem \<le> get_node_available_memory n h)"
  let ?es = "filter (eligible cores gpus mem target h) (dict_values (nodes h))"
  let ?xs = "map (\<lambda>n. (n, get_node_available_cores n h)) ?es"
  have "filter ?P (select_nodes (\<lambda>n. is_online n \<and> (truthy target \<longrightarrow> Some (hostname n) = target)) h) = ?es"
    unfolding select_nodes_def filter_filter by (rule filter_cong [OF refl]) (auto simp: eligible_def)
  then have "find_suitable_node cores gpus mem target None h = Inr (most_free ?xs)"
    by (simp add: find_suitable_node_def suitable_nodes_plain Let_def)
  moreover have "case most_free ?xs of None \<Rightarrow> ?es = []
      | Some n \<Rightarrow> (\<exists>ys zs. ?es = ys @ n # zs \<and>
          (\<forall>y \<in> set ys. get_node_available_cores y h < get_node_available_cores n h) \<and>
          (\<forall>z \<in> set zs. get_node_available_cores z h \<le> get_node_available_cores n h))"
  proof (cases "most_free ?xs")
    case None
    with most_free_spec [of ?xs] show ?thesis by simp
  next
    case (Some n)
    with most_free_spec [of ?xs] obtain ys c zs where x: "?xs = ys @ (n, c) # zs"
      "\<forall>y \<in> set ys. snd y < c" "\<forall>z \<in> set zs. snd z \<le> c" by auto
    from map_split [OF x(1)] obtain us m vs where "?es = us @ m # vs"
      "ys = map (\<lambda>n. (n, get_node_available_cores n h)) us" "(n, c) = (m, get_node_available_cores m h)"
      "zs = map (\<lambda>n. (n, get_node_available_cores n h)) vs" by blast
    with x(2,3) Some show ?thesis by auto
  qed
  ultimately show ?thesis by blast
qed

text \<open>Two nodes of the same size: the first is chosen.\<close>

definition demo_twins :: "unit host" where
  "demo_twins = demo_host\<lparr>nodes := [(''alpha'', demo_node), (''beta'', demo_node\<lparr>hostname := ''beta''\<rparr>)]\<rparr>"

lemma find_suitable_node_best_witness:
  "find_suitable_node 4 [] None None None demo_twins = Inr (Some demo_node)"
proof -
  let ?b = "demo_node\<lparr>hostname := ''beta''\<rparr>"
  have c: "get_node_available_cores n demo_twins = total_cores n" for n
    by (simp add: get_node_available_cores_def used_cores_def select_tasks_def demo_twins_def demo_host_def)
  have f: "filter (eligible 4 [] None None demo_twins) (dict_values (nodes demo_twins)) = [demo_node, ?b]"
  proof -
    have v: "dict_values (nodes demo_twins) = [demo_node, ?b]" by (simp add: demo_twins_def)
    show ?thesis unfolding v by (simp add: eligible_def v c is_online_def truthy_def truthy_int_def) (simp add: demo_node_def)
  qed
  obtain r where r: "find_suitable_node 4 [] None None None demo_twins = Inr r"
    "case r of None \<Rightarrow> filter (eligible 4 [] None None demo_twins) (dict_values (nodes demo_twins)) = []
      | Some n \<Rightarrow> (\<exists>ys zs. filter (eligible 4 [] None None demo_twins) (dict_values (nodes demo_twins)) = ys @ n # zs \<and>
          (\<forall>y \<in> set ys. get_node_available_cores y demo_twins < get_node_available_cores n demo_twins) \<and>
          (\<forall>z \<in> set zs. get_node_available_cores z demo_twins \<le> get_node_available_cores n demo_twins))"
    using find_suitable_node_best [of 4 "[]" None None demo_twins] by blast
  from r(2) obtain n ys zs where n: "r = Some n" "[demo_node, ?b] = ys @ n # zs" "\<forall>y \<in> set ys. total_cores y < total_cores n"
    unfolding f c by (auto split: option.splits)
  then have "n = demo_node" by (cases ys) (auto simp: Cons_eq_append_conv)
  then show ?thesis using r(1) n(1) by simp
qed

text \<open>A NUMA requirement is never met.  Whatever the nodes, a search that asks for a NUMA node
  finds none or dies with an \<open>AttributeError\<close>: the check looks for the key \<open>"numa_nodes"\<close> in a
  dictionary whose keys are numbers, or in \<open>None\<close>.\<close>

theorem numa_never_placed:
  "find_suitable_node cores gpus mem target (Some k) h = Inr None \<or>
   (\<exists>msg. find_suitable_node cores gpus mem target (Some k) h = Inl (AttributeError msg))"
proof -
  have m: "node_meets_requirements n cores gpus mem (Some k) h = Inr False \<or>
      (\<exists>msg. node_meets_requirements n cores gpus mem (Some k) h = Inl (AttributeError msg))" for n
    by (auto simp: node_meets_requirements_def split: option.split)
  have "suitable_nodes cores gpus mem (Some k) h ns = Inr [] \<or>
      (\<exists>msg. suitable_nodes cores gpus mem (Some k) h ns = Inl (AttributeError msg))" for ns
  proof (induction ns)
    case (Cons n ns)
    from m [of n] show ?case
    proof
      assume "node_meets_requirements n cores gpus mem (Some k) h = Inr False"
      with Cons show ?case by auto
    qed auto
  qed simp
  from this [of "select_nodes (\<lambda>n. is_online n \<and> (truthy target \<longrightarrow> Some (hostname n) = target)) h"]
  show ?thesis by (auto simp: find_suitable_node_def Let_def most_free_def)
qed

section \<open>The status listing\<close>

lemma used_cores_fold:
  "zero_if_none (map_of (fold (\<lambda>t d.
       if truthy (assigned_node t)
       then let n = the (assigned_node t) in AList.update n (zero_if_none (map_of d n) + required_cores t) d
       else d) ts d) n) =
   zero_if_none (map_of d n) + sum_list (map required_cores (filter (\<lambda>t. truthy (assigned_node t) \<and> the (assigned_node t) = n) ts))"
  by (induction ts arbitrary: d) (auto simp: Let_def get_update zero_if_none_def)

lemma cores_in_use_used:
  assumes "n \<in> set ns" "is_online n"
  shows "zero_if_none (map_of (calculate_cores_in_use ns h) (hostname n)) =
    (if hostname n = [] then 0 else used_cores (hostname n) h)"
proof -
  let ?on = "map hostname (filter is_online ns)"
  have on: "hostname n \<in> set ?on" using assms by auto
  let ?ts = "select_tasks (\<lambda>t. status t \<in> {''running'', ''assigning''} \<and> assigned_node t \<in> Some ` set ?on) h"
  have "filter (\<lambda>t. truthy (assigned_node t) \<and> the (assigned_node t) = hostname n) ?ts =
      (if hostname n = [] then [] else select_tasks (occupies (hostname n)) h)"
  proof (cases "hostname n = []")
    case True
    have "\<not> (truthy (assigned_node t) \<and> the (assigned_node t) = hostname n)" for t
      using True by (auto simp: truthy_def split: option.splits)
    with True show ?thesis by (auto simp: filter_empty_conv)
  next
    case False
    have "filter (\<lambda>t. truthy (assigned_node t) \<and> the (assigned_node t) = hostname n) ?ts = select_tasks (occupies (hostname n)) h"
      unfolding select_tasks_def filter_filter
      by (rule filter_cong [OF refl]) (use on False in \<open>auto simp: occupies_def truthy_def split: option.splits\<close>)
    with False show ?thesis by simp
  qed
  moreover have "?on \<noteq> []" using on by (metis list.set(1) empty_iff)
  ultimately show ?thesis
    by (simp add: calculate_cores_in_use_def used_cores_fold used_cores_def) (simp add: zero_if_none_def)
qed

text \<open>C17: the status listing agrees with the accounting the scheduler uses.  The listing counts the
  cores of all online nodes in one pass over the tasks; for every online node with a name it shows
  exactly what the per-node query gives.  An online node registered under the empty name shows no
  core in use, whatever runs there, and a node that is not online shows no figure and nothing
  available.\<close>

theorem status_listing_equals:
  "get_all_nodes_status h =
     map (\<lambda>n.
        if \<not> is_online n
        then \<lparr>ns_node = n, ns_cores_in_use = None, ns_available = 0, ns_numa = get_numa_topology n\<rparr>
        else if hostname n = []
        then \<lparr>ns_node = n, ns_cores_in_use = Some 0, ns_available = total_cores n, ns_numa = get_numa_topology n\<rparr>
        else \<lparr>ns_node = n, ns_cores_in_use = Some (used_cores (hostname n) h),
              ns_available = get_node_available_cores n h, ns_numa = get_numa_topology n\<rparr>)
     (dict_values (nodes h))"
  unfolding get_all_nodes_status_def Let_def
  by (rule map_cong [OF refl])
    (simp add: build_node_status_def cores_in_use_used get_node_available_cores_def Let_def)

section \<open>SSH ports\<close>

lemma next_free_port_spec:
  "p \<le> next_free_port p ports \<and> next_free_port p ports \<notin> set ports \<and>
   {p..<next_free_port p ports} \<subseteq> set ports \<and> next_free_port p ports \<le> p + int (length ports)"
proof (induction p ports rule: next_free_port.induct)
  case (1 p ports)
  show ?case
  proof (cases "p \<in> set ports")
    case True
    define q where "q = next_free_port (p + 1) (removeAll p ports)"
    have e: "next_free_port p ports = q" using True by (simp add: next_free_port.simps [of p ports] q_def)
    have ih: "p + 1 \<le> q" "q \<notin> set (removeAll p ports)" "{p + 1..<q} \<subseteq> set (removeAll p ports)"
      "q \<le> p + 1 + int (length (removeAll p ports))"
      using 1 [OF True] unfolding q_def by blast+
    have l: "int (length (removeAll p ports)) < int (length ports)" using length_removeAll_less [OF True] by simp
    have "{p..<q} = insert p {p + 1..<q}" using ih(1) by auto
    with ih(3) True have "{p..<q} \<subseteq> set ports" by auto
    with ih l show ?thesis unfolding e by auto
  next
    case False
    then show ?thesis by (simp add: next_free_port.simps [of p ports])
  qed
qed


section \<open>Cores that are promised\<close>

definition share :: "string \<Rightarrow> task \<Rightarrow> int" where
  "share n t = (if occupies n t then required_cores t else 0)"

lemma used_cores_shares: "used_cores n h = sum_list (map (share n \<circ> snd) (tasks h))"
proof -
  have "sum_list (map required_cores (filter (occupies n) (map snd d))) = sum_list (map (share n \<circ> snd) d)" for d :: "(int, task) dict"
    by (induction d) (simp_all add: share_def)
  then show ?thesis by (simp add: used_cores_def select_tasks_def)
qed

lemma sum_update:
  "sum_list (map (f \<circ> snd) (AList.update k v d)) =
     sum_list (map (f \<circ> snd) d) - (case map_of d k of None \<Rightarrow> 0 | Some w \<Rightarrow> f w) + (f v :: int)"
  by (induction d) (auto split: option.split)

lemma used_cores_create:
  assumes "create_task t h = Some (t', h')"
  shows "used_cores n h' = used_cores n h + share n t"
proof -
  from assms have "map_of (tasks h) (task_id t) = None" "tasks h' = AList.update (task_id t) t (tasks h)"
    by (auto simp: create_task_def map_of_eq_None_iff split: if_splits)
  then show ?thesis by (simp add: used_cores_shares sum_update)
qed

lemma used_cores_save:
  assumes "get_task (task_id t) h = Some s"
  shows "used_cores n (save_task t h) = used_cores n h - share n s + share n t"
proof -
  from assms have m: "map_of (tasks h) (task_id t) = Some s" by (simp add: get_task_def)
  then have "tasks (save_task t h) = AList.update (task_id t) t (tasks h)"
    using map_of_eq_None_iff [of "tasks h" "task_id t"] by (simp add: save_task_def)
  with m show ?thesis by (simp add: used_cores_shares sum_update)
qed

lemma used_cores_tasks: "tasks h' = tasks h \<Longrightarrow> used_cores n h' = used_cores n h"
  by (simp add: used_cores_shares)

lemma used_cores_schedule [simp]: "used_cores n (schedule_ip_release t h) = used_cores n h"
  by (rule used_cores_tasks) simp

text \<open>No node has promised more cores than it has.\<close>

definition within_capacity :: "'k host \<Rightarrow> bool" where
  "within_capacity h \<longleftrightarrow>
     keyed hostname (nodes h) \<and> (\<forall>n \<in> set (dict_values (nodes h)). 0 \<le> get_node_available_cores n h)"

text \<open>What a placement on node \<open>n\<close> may do to the cores in use.\<close>

lemma capacity_placed:
  assumes "within_capacity h" "nodes h' = nodes h" "n \<in> set (dict_values (nodes h))"
    and "\<And>m. used_cores m h' = used_cores m h \<or> used_cores m h' = used_cores m h + (if m = hostname n then c else 0)"
    and "c = 0 \<or> c \<le> get_node_available_cores n h"
  shows "within_capacity h'"
proof -
  have "0 \<le> get_node_available_cores m h'" if m: "m \<in> set (dict_values (nodes h))" for m
  proof (cases "hostname m = hostname n")
    case True
    with assms(1,3) m have "m = n" unfolding within_capacity_def by (metis keyed_values option.inject)
    with assms(1,3,5) assms(4) [of "hostname n"] show ?thesis
      unfolding within_capacity_def get_node_available_cores_def by auto
  next
    case False
    with assms(1) m assms(4) [of "hostname m"] show ?thesis unfolding within_capacity_def get_node_available_cores_def by auto
  qed
  with assms(1,2) show ?thesis by (simp add: within_capacity_def)
qed

lemma claim_nodes [simp]: "nodes (claim_reservation lib cfg now rq tg rip c h) = nodes h"
  by (simp add: claim_reservation_def split: option.split)

lemma auto_allocate_nodes [simp]: "nodes (snd (auto_allocate_flat_ips cfg now rnd tg nets rip pr c h)) = nodes h"
  by (simp add: auto_allocate_flat_ips_def split: option.split prod.split)

lemma queue_nodes [simp]:
  "nodes (schedule_ip_release t h) = nodes h" "nodes (suspend a h) = nodes h" "nodes (send_call c h) = nodes h"
  by (simp_all add: schedule_ip_release_def suspend_def send_call_def)

text \<open>The failing mark gives the cores back.\<close>

lemma used_cores_failed:
  assumes "get_task (task_id t) h = Some t" "tasks h2 = tasks h"
  shows "used_cores m (schedule_ip_release t' (save_task (t\<lparr>status := ''failed'', error_message := e, completed_at := w\<rparr>) h2)) =
    used_cores m h - share m t"
proof -
  have "get_task (task_id t) h2 = Some t" using assms by (simp add: get_task_def)
  then show ?thesis
    using used_cores_save [of "t\<lparr>status := ''failed'', error_message := e, completed_at := w\<rparr>" h2 t m] assms(2)
      used_cores_tasks [of h2 h m]
    by (simp add: share_def occupies_def)
qed

lemma place_task_cores:
  assumes "get_task (task_id t) h = Some t"
  shows "nodes (snd (place_task lib cfg now rnd rq tg n rip t h)) = nodes h \<and>
    ((\<forall>m. used_cores m (snd (place_task lib cfg now rnd rq tg n rip t h)) = used_cores m h) \<or>
     (\<forall>m. used_cores m (snd (place_task lib cfg now rnd rq tg n rip t h)) = used_cores m h - share m t))"
proof -
  let ?h1 = "claim_reservation lib cfg now rq tg rip (container_of t) h"
  obtain r h2 where a: "auto_allocate_flat_ips cfg now rnd tg (resolved_networks rq) rip (sb_network rq) (container_of t) ?h1 = (r, h2)"
    by fastforce
  then have h2: "tasks h2 = tasks h" "nodes h2 = nodes h"
    using auto_allocate_frame(1) [of cfg now rnd tg "resolved_networks rq" rip "sb_network rq" "container_of t" ?h1]
      auto_allocate_nodes [of cfg now rnd tg "resolved_networks rq" rip "sb_network rq" "container_of t" ?h1] by simp_all
  have u: "used_cores m h2 = used_cores m h" for m using h2(1) by (rule used_cores_tasks)
  show ?thesis
  proof (cases r)
    case (Inl e)
    let ?r = "snd (place_task lib cfg now rnd rq tg n rip t h)"
    have "?r = h2 \<or> (\<exists>t' msg. ?r = schedule_ip_release t' (save_task (t\<lparr>status := ''failed'', error_message := msg, completed_at := Some now\<rparr>) h2))"
      using a Inl by (cases e) (auto simp: place_task_def Let_def)
    then show ?thesis
    proof (elim disjE exE)
      assume "?r = h2"
      with h2 u show ?thesis by simp
    next
      fix t' msg
      assume r: "?r = schedule_ip_release t' (save_task (t\<lparr>status := ''failed'', error_message := msg, completed_at := Some now\<rparr>) h2)"
      have "used_cores m ?r = used_cores m h - share m t" for m
        unfolding r by (rule used_cores_failed [OF assms h2(1)])
      moreover have "nodes ?r = nodes h" unfolding r using h2(2) by simp
      ultimately show ?thesis by blast
    qed
  next
    case (Inr ips)
    have "tasks (snd (dispatch_task t n rq d h2)) = tasks h" "nodes (snd (dispatch_task t n rq d h2)) = nodes h" for d
      using h2 by (simp_all add: dispatch_task_def send_task_to_runner_def)
    then have "nodes (snd (dispatch_task t n rq d h2)) = nodes h \<and> (\<forall>m. used_cores m (snd (dispatch_task t n rq d h2)) = used_cores m h)" for d
      using used_cores_tasks by blast
    moreover have "\<exists>d. snd (place_task lib cfg now rnd rq tg n rip t h) = snd (dispatch_task t n rq d h2)"
      using a Inr by (auto simp: place_task_def Let_def case_prod_beta)
    ultimately show ?thesis by metis
  qed
qed

lemma validate_node_some: "validate_node tg h = Inr n \<Longrightarrow> get_node tg h = Some n"
  by (simp add: validate_node_def split: option.splits if_splits)

lemma node_listed: "get_node tg h = Some n \<Longrightarrow> n \<in> set (dict_values (nodes h))"
  unfolding get_node_def by (drule get_item) force

lemma resources_cores: "validate_node_resources n numa gpus rq h = None \<Longrightarrow> sb_cores rq = 0 \<or> sb_cores rq \<le> get_node_available_cores n h"
  by (auto simp: validate_node_resources_def split: if_splits)

lemma new_task_share: "share m (new_task now i rq n numa gpus tc b port) \<in> {0, if m = hostname n then sb_cores rq else 0}"
  by (auto simp: share_def occupies_def new_task_def Let_def)

lemma process_target_capacity:
  assumes "within_capacity h"
  shows "within_capacity (snd (process_target lib cfg now rnd i rq ts gpus tc batch h))"
proof -
  have "within_capacity h1 \<and> within_capacity (snd (place_task lib cfg now rnd rq tg n rip t h1))"
    if v: "validate_node tg' h = Inr n" "validate_node_resources n numa gpus rq h = None"
      and r: "create_task_record now i rq n numa gpus tc b h = Some (t, h1)" for t h1 n numa b tg tg' rip
  proof -
    let ?t = "new_task now i rq n numa gpus tc b (if sb_task_type rq = ''vps'' then Some (allocate_ssh_port h) else None)"
    from r have c: "create_task ?t h = Some (t, h1)" and t: "t = ?t"
      by (auto simp: create_task_record_def dest: create_task_row)
    note n = node_listed [OF validate_node_some [OF v(1)]] and k = resources_cores [OF v(2)]
    have u: "used_cores m h1 = used_cores m h + share m t" for m using used_cores_create [OF c] t by simp
    have s: "share m t = 0 \<or> share m t = (if m = hostname n then sb_cores rq else 0)" for m
      using new_task_share [of m now i rq n numa gpus tc b] t by auto
    have n1: "nodes h1 = nodes h" using c by (auto simp: create_task_def split: if_splits)
    have row: "get_task (task_id t) h1 = Some t" using create_task_row [OF c] t by simp
    note p = place_task_cores [OF row, of lib cfg now rnd rq tg n rip]
    have "used_cores m h1 = used_cores m h \<or> used_cores m h1 = used_cores m h + (if m = hostname n then sb_cores rq else 0)" for m
      using u [of m] s [of m] by auto
    moreover have "used_cores m (snd (place_task lib cfg now rnd rq tg n rip t h1)) = used_cores m h \<or>
        used_cores m (snd (place_task lib cfg now rnd rq tg n rip t h1)) =
          used_cores m h + (if m = hostname n then sb_cores rq else 0)" for m
      using u [of m] s [of m] p by auto
    moreover have "nodes (snd (place_task lib cfg now rnd rq tg n rip t h1)) = nodes h" using p n1 by simp
    ultimately show ?thesis
      using capacity_placed [OF assms n1 n _ k] capacity_placed [OF assms _ n _ k] by blast
  qed
  with assms show ?thesis by (auto simp: process_target_def split: option.split prod.split sum.split)
qed

lemma process_targets_capacity:
  "within_capacity h \<Longrightarrow> within_capacity (snd (process_targets lib cfg now rnd ids rq tc k first ts h))"
proof (induction ts arbitrary: k first h)
  case (Cons t ts)
  obtain tg gpus where t: "t = (tg, gpus)" by fastforce
  obtain r h' where p: "process_target lib cfg now (rnd k) (ids k) rq tg gpus tc first h = (r, h')" by fastforce
  then have e: "within_capacity h'"
    using process_target_capacity [OF Cons.prems, of lib cfg now "rnd k" "ids k" rq tg gpus tc first] by simp
  show ?case
  proof (cases r)
    case (Inr x)
    let ?first = "case (first, x) of (None, Created i) \<Rightarrow> Some i | (None, Dispatching i) \<Rightarrow> Some i | _ \<Rightarrow> first"
    obtain rs h'' where q: "process_targets lib cfg now rnd ids rq tc (Suc k) ?first ts h' = (rs, h'')" by fastforce
    then have "within_capacity h''" using Cons.IH [OF e, of "Suc k" ?first] by simp
    with p q Inr t show ?thesis by (simp add: Let_def split: sum.split)
  qed (use e p t in simp)
qed simp

lemma submit_task_capacity:
  assumes "within_capacity h"
  shows "within_capacity (snd (submit_task lib cfg now rnd ids u rq h))"
proof -
  have "within_capacity h'" if "process_targets lib cfg now rnd ids rq' tc 0 None ts h = (r, h')" for rq' tc ts r h'
    using process_targets_capacity [OF assms, of lib cfg now rnd ids rq' tc 0 None ts] that by simp
  with assms show ?thesis by (simp add: submit_task_def guard_role_def split: sum.split prod.split)
qed

text \<open>The node of a VPS has the cores.\<close>

lemma node_meets_cores: "node_meets_requirements n cores gpus mem numa h = Inr True \<Longrightarrow> cores \<le> get_node_available_cores n h"
  by (auto simp: node_meets_requirements_def split: if_splits option.splits)

lemma suitable_nodes_cores:
  "suitable_nodes cores gpus mem numa h ns = Inr xs \<Longrightarrow> (n, c) \<in> set xs \<Longrightarrow> n \<in> set ns \<and> cores \<le> get_node_available_cores n h"
  by (induction ns arbitrary: xs) (auto simp: bind_res_Inr_iff dest: node_meets_cores split: if_splits)

lemma vm_checks_cores: "vm_candidate_checks n cores gpus mem h = Inr None \<Longrightarrow> cores \<le> get_node_available_cores n h"
  by (auto simp: vm_candidate_checks_def split: if_splits)

lemma vm_suitable_cores:
  "vm_suitable_nodes cores gpus mem h ns = Inr (xs, rs) \<Longrightarrow> (n, c) \<in> set xs \<Longrightarrow> n \<in> set ns \<and> cores \<le> get_node_available_cores n h"
  by (induction ns arbitrary: xs rs)
    (auto simp: bind_res_Inr_iff dest: vm_checks_cores split: option.splits prod.splits)

lemma most_free_in: "most_free xs = Some n \<Longrightarrow> \<exists>c. (n, c) \<in> set xs"
  using most_free_spec [of xs] by auto

lemma vps_node_cores:
  assumes "vps_node backend s h = Inr n"
  shows "n \<in> set (dict_values (nodes h)) \<and> vs_cores s \<le> get_node_available_cores n h"
proof -
  have "n \<in> set (dict_values (nodes h)) \<and> cores \<le> get_node_available_cores n h"
    if f: "find_suitable_node cores gpus mem target numa h = Inr (Some n)" for cores gpus mem target numa
  proof -
    let ?ns = "select_nodes (\<lambda>n. is_online n \<and> (truthy target \<longrightarrow> Some (hostname n) = target)) h"
    from f obtain xs where "suitable_nodes cores gpus mem numa h ?ns = Inr xs" "most_free xs = Some n"
      by (auto simp: find_suitable_node_def Let_def bind_res_Inr_iff)
    then show ?thesis by (auto dest!: most_free_in suitable_nodes_cores simp: select_nodes_def)
  qed
  moreover have "n \<in> set (dict_values (nodes h)) \<and> cores \<le> get_node_available_cores n h"
    if f: "find_suitable_node_for_vm cores gpus mem target h = Inr (Some n, why)" for cores gpus mem target why
  proof -
    let ?ns = "select_nodes (\<lambda>n. is_online n \<and> vm_capable n \<and> (truthy target \<longrightarrow> Some (hostname n) = target)) h"
    from f obtain xs rs where "vm_suitable_nodes cores gpus mem h ?ns = Inr (xs, rs)" "most_free xs = Some n"
      by (auto simp: find_suitable_node_for_vm_def Let_def bind_res_Inr_iff split: if_splits option.splits prod.splits)
    then show ?thesis by (auto dest!: most_free_in vm_suitable_cores simp: select_nodes_def)
  qed
  ultimately show ?thesis
    using assms by (auto simp: vps_node_def Let_def bind_res_Inr_iff split: if_splits option.splits prod.splits)
qed

lemma vps_place_capacity:
  assumes w: "within_capacity h" and n: "n \<in> set (dict_values (nodes h))" "required_cores t \<le> get_node_available_cores n h"
    and t: "assigned_node t = Some (hostname n)" "status t = ''assigning''"
  shows "within_capacity (snd (vps_place cfg now rnd s n t rip h))"
proof (cases "create_task t h")
  case (Some p)
  then obtain h1 where c: "create_task t h = Some (t, h1)" using create_task_row by (metis surj_pair)
  have row: "get_task (task_id t) h1 = Some t" using create_task_row [OF c] by simp
  have n1: "nodes h1 = nodes h" using c by (auto simp: create_task_def split: if_splits)
  have u: "used_cores m h1 = used_cores m h + (if m = hostname n then required_cores t else 0)" for m
    using used_cores_create [OF c, of m] t by (simp add: share_def occupies_def)
  obtain r h2 where a: "auto_allocate_flat_ips_vps cfg now rnd (hostname n) (vps_networks s) (container_of t) rip
      (vps_primary_network s) h1 = (r, h2)" by fastforce
  then have h2: "tasks h2 = tasks h1" "nodes h2 = nodes h"
    using auto_allocate_frame(1) [of cfg now rnd "hostname n" "vps_networks s" rip "vps_primary_network s" "container_of t" h1]
      auto_allocate_nodes [of cfg now rnd "hostname n" "vps_networks s" rip "vps_primary_network s" "container_of t" h1] n1
    by (simp_all add: auto_allocate_flat_ips_vps_def)
  let ?r = "snd (vps_place cfg now rnd s n t rip h)"
  have u2: "used_cores m h2 = used_cores m h1" for m using h2(1) by (rule used_cores_tasks)
  have "tasks ?r = tasks h2 \<and> nodes ?r = nodes h2 \<or>
      (\<exists>t' msg. ?r = schedule_ip_release t' (save_task (t\<lparr>status := ''failed'', error_message := msg, completed_at := Some now\<rparr>) h2))"
  proof (cases r)
    case (Inl e)
    then show ?thesis using a c by (cases e) (auto simp: vps_place_def Let_def)
  qed (use a c in \<open>auto simp: vps_place_def Let_def\<close>)
  then show ?thesis
  proof (elim disjE exE conjE)
    assume r: "tasks ?r = tasks h2" "nodes ?r = nodes h2"
    have "used_cores m ?r = used_cores m h + (if m = hostname n then required_cores t else 0)" for m
      using used_cores_tasks [OF r(1), of m] u u2 by simp
    moreover have "nodes ?r = nodes h" using r(2) h2(2) by simp
    ultimately show ?thesis using capacity_placed [OF w _ n(1) _ disjI2 [OF n(2)]] by blast
  next
    fix t' msg
    assume r: "?r = schedule_ip_release t' (save_task (t\<lparr>status := ''failed'', error_message := msg, completed_at := Some now\<rparr>) h2)"
    have "used_cores m ?r = used_cores m h" for m
      unfolding r using used_cores_failed [OF row h2(1), of m] u [of m] t by (simp add: share_def occupies_def)
    moreover have "nodes ?r = nodes h" unfolding r using h2(2) by simp
    ultimately show ?thesis using capacity_placed [OF w _ n(1) _ disjI1 [OF refl]] by blast
  qed
qed (use w in \<open>simp add: vps_place_def\<close>)

lemma submit_vps_capacity:
  assumes "within_capacity h"
  shows "within_capacity (snd (submit_vps lib keygen cfg now rnd i u s h))"
proof -
  have "within_capacity (snd (bind_st (vps_claim lib cfg now s (hostname n) (vps_container_name i))
          (vps_place cfg now rnd s n (new_vps_task now i s port n c backend u)) h))"
    if v: "vps_node b s h = Inr n" for n port c b backend
  proof -
    obtain r h1 where p: "vps_claim lib cfg now s (hostname n) (vps_container_name i) h = (r, h1)" by fastforce
    then have "tasks h1 = tasks h" using vps_claim_frame(1) [of lib cfg now s "hostname n" "vps_container_name i" h] by simp
    then have u: "used_cores m h1 = used_cores m h" for m by (rule used_cores_tasks)
    have d: "nodes h1 = nodes h" using p by (auto simp: vps_claim_def Let_def split: if_splits option.splits prod.splits)
    note n = vps_node_cores [OF v]
    have w: "within_capacity h1" using capacity_placed [OF assms d conjunct1 [OF n] _ disjI1 [OF refl]] u by simp
    have "vs_cores s \<le> get_node_available_cores n h1" using n u by (simp add: get_node_available_cores_def)
    with w n d have "within_capacity (snd (vps_place cfg now rnd s n (new_vps_task now i s port n c backend u) rip h1))" for rip
      by (intro vps_place_capacity) (simp_all add: new_vps_task_def)
    with p w show ?thesis by (simp add: bind_st_def split: sum.split)
  qed
  with assms show ?thesis by (simp add: submit_vps_def guard_role_def Let_def split: sum.split prod.split)
qed

text \<open>C8: submissions never promise cores a node does not have.  If no node has promised more than
  it has, none has after any submission of tasks or of a VPS, by anyone, to any targets: the check
  before each target counts what the earlier targets of the same submission took.\<close>

theorem submissions_within_capacity:
  assumes "within_capacity h"
  shows "within_capacity (host_step env (Submit now rnd ids u rq) h) \<and>
    within_capacity (host_step env (CreateVps now rnd' i u s) h)"
  using assms by (simp add: submit_task_capacity submit_vps_capacity)

lemma submissions_within_capacity_witness:
  "within_capacity (host_step demo_env (demo_submit demo_operator ''command'' None) demo_host) \<and>
   get_node_available_cores demo_node (host_step demo_env (demo_submit demo_operator ''command'' None) demo_host) = 6"
proof -
  have "within_capacity demo_host"
    by (simp add: within_capacity_def demo_host_def demo_node_def keyed_def dict_ok_def get_node_available_cores_def used_cores_def select_tasks_def)
  from submissions_within_capacity [OF this, of demo_env 0 "\<lambda>_ _. 0" "\<lambda>_. 1" demo_operator "demo_request ''command'' None"]
  have "within_capacity (host_step demo_env (demo_submit demo_operator ''command'' None) demo_host)" by blast
  moreover have "get_node_available_cores demo_node (host_step demo_env (demo_submit demo_operator ''command'' None) demo_host) = 6"
    by code_simp
  ultimately show ?thesis by blast
qed

end
