(* ===== verification/Monitor_Properties.thy ===== *)
theory Monitor_Properties
  imports Host_Examples
begin

text \<open>
  Failure detection, row by row: what a pass of the monitor makes of every task and node, what a
  heartbeat makes of the tasks of its node, and from it that a task whose runner never confirms it
  ends; and who may touch a task.
\<close>

section \<open>A pass over a selection\<close>

definition ended_task :: "string \<Rightarrow> string \<Rightarrow> int \<Rightarrow> int \<Rightarrow> task \<Rightarrow> task" where
  "ended_task st msg code now t = t\<lparr>status := st, error_message := Some msg, completed_at := Some now, exit_code := Some code\<rparr>"

lemma ended_task_simps [simp]:
  "task_id (ended_task st msg code now t) = task_id t" "status (ended_task st msg code now t) = st"
  "assigned_node (ended_task st msg code now t) = assigned_node t"
  by (simp_all add: ended_task_def)

lemma get_task_end:
  "get_task i (end_task st msg code now t h) =
     (if i = task_id t then map_option (\<lambda>_. ended_task st msg code now t) (get_task i h) else get_task i h)"
  by (auto simp: end_task_def ended_task_def Let_def get_task_save)

lemma end_task_frames [simp]:
  "nodes (end_task st msg code now t h) = nodes h" "tasks_keyed h \<Longrightarrow> tasks_keyed (end_task st msg code now t h)"
  by (simp_all add: end_task_def Let_def) (simp add: schedule_ip_release_def)

text \<open>One write for each selected row: \<open>g\<close> is what it makes of the row it was given.\<close>

lemma fold_rows:
  assumes k: "tasks_keyed h"
    and own: "\<And>t s. get_task (task_id t) s = Some t \<Longrightarrow> P t \<Longrightarrow> get_task (task_id t) (f t s) = Some (g t)"
    and other: "\<And>i t s. i \<noteq> task_id t \<Longrightarrow> get_task i (f t s) = get_task i s"
  shows "get_task i (fold f (select_tasks P h) h) = map_option (\<lambda>t. if P t then g t else t) (get_task i h)"
proof -
  have skip: "get_task i (fold f ts s) = get_task i s" if "\<forall>t \<in> set ts. task_id t \<noteq> i" for i ts s
    using that by (induction ts arbitrary: s) (simp_all add: other)
  have hit: "get_task (task_id t) (fold f ts s) = Some (g t)"
    if "distinct (map task_id ts)" "t \<in> set ts" "get_task (task_id t) s = Some t" "P t" for t ts s
    using that
  proof (induction ts arbitrary: s)
    case (Cons u us)
    show ?case
    proof (cases "t = u")
      case True
      have "\<forall>v \<in> set us. task_id v \<noteq> task_id t"
        using Cons.prems(1) True by (auto simp: image_iff)
      with True Cons.prems(3,4) show ?thesis by (simp add: skip own)
    next
      case False
      with Cons.prems(1,2) have "t \<in> set us" "task_id t \<noteq> task_id u" by (auto simp: image_iff)
      with Cons show ?thesis by (simp add: other)
    qed
  qed simp
  show ?thesis
  proof (cases "\<exists>t \<in> set (select_tasks P h). task_id t = i")
    case True
    then obtain t where t: "t \<in> set (select_tasks P h)" "task_id t = i" by blast
    with select_tasks_row [OF k] have r: "get_task i h = Some t" "P t" by auto
    with hit [OF select_tasks_distinct [OF k] t(1) _ r(2)] t(2) show ?thesis by simp
  next
    case False
    then have "get_task i h = Some t \<Longrightarrow> \<not> P t" for t
      using select_tasks_row [OF k, of t P] row_id [OF k, of i t] by auto
    with skip [of "select_tasks P h" i h] False show ?thesis by (cases "get_task i h") auto
  qed
qed

lemma fold_nodes: "(\<And>t s. nodes (f t s) = nodes s) \<Longrightarrow> nodes (fold f ts s) = nodes s"
  by (induction ts arbitrary: s) simp_all

lemma fold_keyed: "(\<And>t s. tasks_keyed s \<Longrightarrow> tasks_keyed (f t s)) \<Longrightarrow> tasks_keyed s \<Longrightarrow> tasks_keyed (fold f ts s)"
  by (induction ts arbitrary: s) simp_all

section \<open>The monitor\<close>

definition stale :: "host_settings \<Rightarrow> int \<Rightarrow> node \<Rightarrow> bool" where
  "stale cfg now n \<longleftrightarrow> is_online n \<and> last_heartbeat n < now - seconds (heartbeat_interval cfg * heartbeat_timeout_factor cfg)"

definition lost_on :: "int \<Rightarrow> task \<Rightarrow> task" where
  "lost_on now t = ended_task ''lost'' (''Node '' @ the (assigned_node t) @ '' went offline (heartbeat timeout)'') (-1) now t"

definition on_node :: "(node \<Rightarrow> bool) \<Rightarrow> node option \<Rightarrow> bool" where
  "on_node P nd \<longleftrightarrow> (case nd of None \<Rightarrow> False | Some n \<Rightarrow> P n)"

lemma on_node_iff: "on_node P nd \<longleftrightarrow> (\<exists>n. nd = Some n \<and> P n)"
  by (simp add: on_node_def split: option.split)

text \<open>What a pass makes of a task: \<open>nd\<close> is the row of its assigned node.\<close>

definition monitored :: "host_settings \<Rightarrow> int \<Rightarrow> node option \<Rightarrow> task \<Rightarrow> task" where
  "monitored cfg now nd t =
     (if status t \<in> {''running'', ''assigning'', ''pending''} \<and> on_node (stale cfg now) nd then lost_on now t
      else if status t = ''pending'' \<and> on_node is_offline nd
      then ended_task ''failed'' (''Assigned node '' @ the (assigned_node t) @ '' is offline. Task cannot be scheduled.'') (-1) now t
      else if status t = ''pending'' \<and> assigned_node t = None \<and> submitted_at t < now - seconds (30 * 60)
      then ended_task ''failed'' ''Task pending for over 30 minutes without assignment. No suitable runner was available.'' (-1) now t
      else t)"

definition node_of :: "'k host \<Rightarrow> task \<Rightarrow> node option" where
  "node_of h t = (case assigned_node t of None \<Rightarrow> None | Some x \<Rightarrow> get_node x h)"

lemma mark_node_tasks_lost_row:
  assumes "tasks_keyed h"
  shows "get_task i (mark_node_tasks_lost now n h) =
    map_option (\<lambda>t. if assigned_node t = Some (hostname n) \<and> status t \<in> {''running'', ''assigning'', ''pending''}
       then lost_on now t else t) (get_task i h)"
proof -
  let ?g = "ended_task ''lost'' (''Node '' @ hostname n @ '' went offline (heartbeat timeout)'') (-1) now"
  have "get_task i (mark_node_tasks_lost now n h) =
    map_option (\<lambda>t. if assigned_node t = Some (hostname n) \<and> status t \<in> {''running'', ''assigning'', ''pending''} then ?g t else t) (get_task i h)"
    unfolding mark_node_tasks_lost_def by (rule fold_rows [OF assms]) (simp_all add: get_task_end)
  then show ?thesis by (auto simp: lost_on_def intro!: map_option_cong)
qed

text \<open>The turn of one dead node, with what follows its await.\<close>

definition dead_node_handled :: "host_settings \<Rightarrow> int \<Rightarrow> node \<Rightarrow> 'k host \<Rightarrow> 'k host" where
  "dead_node_handled cfg now n h = mark_overlay_inactive cfg (hostname n) (handle_dead_node now n h)"

lemma handle_dead_row:
  assumes "tasks_keyed h"
  shows "get_task i (dead_node_handled cfg now n h) =
    map_option (\<lambda>t. if assigned_node t = Some (hostname n) \<and> status t \<in> {''running'', ''assigning'', ''pending''}
       then lost_on now t else t) (get_task i h)"
    and "get_node x (dead_node_handled cfg now n h) =
      (if x = hostname n \<and> get_node x h \<noteq> None then Some (n\<lparr>n_status := ''offline''\<rparr>) else get_node x h)"
    and "tasks_keyed (dead_node_handled cfg now n h)"
proof -
  have t: "tasks (dead_node_handled cfg now n h) = tasks (mark_node_tasks_lost now n (mark_node_offline n h))"
    by (simp add: dead_node_handled_def handle_dead_node_def)
  have k: "tasks_keyed (mark_node_offline n h)" using assms by simp
  show "get_task i (dead_node_handled cfg now n h) =
    map_option (\<lambda>t. if assigned_node t = Some (hostname n) \<and> status t \<in> {''running'', ''assigning'', ''pending''}
       then lost_on now t else t) (get_task i h)"
    using mark_node_tasks_lost_row [OF k, of i now n] t by (simp add: get_task_def)
  have "nodes (dead_node_handled cfg now n h) = nodes (mark_node_offline n h)"
    unfolding dead_node_handled_def handle_dead_node_def mark_overlay_inactive_def mark_node_tasks_lost_def
    by (simp add: fold_nodes split: option.split)
  then show "get_node x (dead_node_handled cfg now n h) =
      (if x = hostname n \<and> get_node x h \<noteq> None then Some (n\<lparr>n_status := ''offline''\<rparr>) else get_node x h)"
    by (auto simp: mark_node_offline_def save_node_def get_node_def get_update map_of_eq_None_iff)
  show "tasks_keyed (dead_node_handled cfg now n h)"
    unfolding t mark_node_tasks_lost_def by (rule fold_keyed [OF _ k]) simp
qed

lemma fold_dead_row:
  assumes "tasks_keyed h"
  shows "get_task i (fold (dead_node_handled cfg now) ns h) =
      map_option (\<lambda>t. if (\<exists>n \<in> set ns. assigned_node t = Some (hostname n)) \<and> status t \<in> {''running'', ''assigning'', ''pending''}
         then lost_on now t else t) (get_task i h) \<and>
    tasks_keyed (fold (dead_node_handled cfg now) ns h)"
  using assms
proof (induction ns arbitrary: h)
  case (Cons n ns)
  have l: "assigned_node (lost_on now t) = assigned_node t" "status (lost_on now t) = ''lost''" for t
    by (simp_all add: lost_on_def)
  note ih = Cons.IH [OF handle_dead_row(3) [OF Cons.prems], of cfg now n]
  show ?case
  proof (cases "get_task i h")
    case None
    with ih show ?thesis by (simp add: handle_dead_row(1) [OF Cons.prems])
  next
    case (Some t)
    let ?live = "status t \<in> {''running'', ''assigning'', ''pending''}"
    have r: "get_task i (dead_node_handled cfg now n h) =
        Some (if assigned_node t = Some (hostname n) \<and> ?live then lost_on now t else t)"
      using Some by (simp only: handle_dead_row(1) [OF Cons.prems] option.map)
    show ?thesis
    proof (cases "assigned_node t = Some (hostname n) \<and> ?live")
      case True
      have "get_task i (dead_node_handled cfg now n h) = Some (lost_on now t)" unfolding r if_P [OF True] by (rule refl)
      with ih True Some show ?thesis by (simp add: l)
    next
      case False
      have "get_task i (dead_node_handled cfg now n h) = Some t" unfolding r if_not_P [OF False] by (rule refl)
      with ih False Some show ?thesis by auto
    qed
  qed
qed (simp add: option.map_ident)

lemma fold_dead_node:
  assumes "tasks_keyed h" "distinct (map hostname ns)" "\<forall>n \<in> set ns. get_node (hostname n) h = Some n"
    "\<And>y m. get_node y h = Some m \<Longrightarrow> hostname m = y"
  shows "get_node x (fold (dead_node_handled cfg now) ns h) =
    map_option (\<lambda>n. if n \<in> set ns then n\<lparr>n_status := ''offline''\<rparr> else n) (get_node x h)"
  using assms
proof (induction ns arbitrary: h)
  case (Cons n ns)
  let ?h = "dead_node_handled cfg now n h"
  have named: "get_node y h = Some m \<Longrightarrow> hostname m = y" for y m using Cons.prems(4) .
  have g: "get_node y ?h = (if y = hostname n then Some (n\<lparr>n_status := ''offline''\<rparr>) else get_node y h)" for y
    using handle_dead_row(2) [OF Cons.prems(1), of y cfg now n] Cons.prems(3) by auto
  have named': "hostname m = y" if "get_node y ?h = Some m" for y m
  proof (cases "y = hostname n")
    case False
    with that have "get_node y h = Some m" by (simp add: g)
    then show ?thesis by (rule named)
  qed (use that in \<open>auto simp: g\<close>)
  have ne: "hostname m \<noteq> hostname n" if "m \<in> set ns" for m
    using Cons.prems(2) imageI [OF that, of hostname] by auto
  have rest: "\<forall>m \<in> set ns. get_node (hostname m) ?h = Some m"
  proof
    fix m assume m: "m \<in> set ns"
    with Cons.prems(3) ne [OF m] show "get_node (hostname m) ?h = Some m" by (simp add: g)
  qed
  have d: "distinct (map hostname ns)" using Cons.prems(2) by simp
  have "get_node x (fold (dead_node_handled cfg now) ns ?h) =
      map_option (\<lambda>n. if n \<in> set ns then n\<lparr>n_status := ''offline''\<rparr> else n) (get_node x ?h)"
    by (rule Cons.IH [OF handle_dead_row(3) [OF Cons.prems(1)] d rest named'])
  moreover have "get_node (hostname n) h = Some n" using Cons.prems(3) by simp
  moreover have "n\<lparr>n_status := ''offline''\<rparr> \<notin> set ns" using ne [of "n\<lparr>n_status := ''offline''\<rparr>"] by auto
  moreover have "get_node x h = Some m \<Longrightarrow> x \<noteq> hostname n \<Longrightarrow> m \<noteq> n" for m
    using named [of x m] by auto
  ultimately show ?case using g [of x] by (cases "x = hostname n"; cases "get_node x h") simp_all
qed (simp add: option.map_ident)

lemma offline_hostnames:
  assumes "keyed hostname (nodes h)"
  shows "x \<in> set (map hostname (select_nodes is_offline h)) \<longleftrightarrow> (\<exists>n. get_node x h = Some n \<and> is_offline n)"
proof -
  have "x \<in> set (map hostname (select_nodes is_offline h)) \<longleftrightarrow>
      (\<exists>n \<in> set (dict_values (nodes h)). is_offline n \<and> hostname n = x)"
    by (auto simp: select_nodes_def)
  also have "\<dots> \<longleftrightarrow> (\<exists>n. get_node x h = Some n \<and> is_offline n)"
    unfolding get_node_def using keyed_values [OF assms] keyed_get [OF assms] by metis
  finally show ?thesis .
qed

definition orphaned :: "int \<Rightarrow> task \<Rightarrow> task" where
  "orphaned now t =
     ended_task ''failed'' (''Assigned node '' @ the (assigned_node t) @ '' is offline. Task cannot be scheduled.'') (-1) now t"

definition unwanted :: "int \<Rightarrow> task \<Rightarrow> task" where
  "unwanted now t =
     ended_task ''failed'' ''Task pending for over 30 minutes without assignment. No suitable runner was available.'' (-1) now t"

lemma cleanup_row:
  assumes k: "tasks_keyed h" "keyed hostname (nodes h)"
  shows "get_task i (cleanup_orphaned_pending_tasks now h) =
    map_option (\<lambda>t.
      if is_pending t \<and> (\<exists>n. node_of h t = Some n \<and> is_offline n) then orphaned now t
      else if is_pending t \<and> assigned_node t = None \<and> submitted_at t < now - seconds (30 * 60) then unwanted now t
      else t) (get_task i h)"
    and "nodes (cleanup_orphaned_pending_tasks now h) = nodes h"
proof -
  define off where "off = map hostname (select_nodes is_offline h)"
  define P1 where "P1 = (\<lambda>t. is_pending t \<and> assigned_node t \<in> Some ` set off)"
  define P2 where "P2 = (\<lambda>t. is_pending t \<and> assigned_node t = None \<and> submitted_at t < now - seconds (30 * 60))"
  let ?f1 = "\<lambda>t. end_task ''failed'' (''Assigned node '' @ the (assigned_node t) @ '' is offline. Task cannot be scheduled.'') (-1) now t"
  let ?f2 = "end_task ''failed'' ''Task pending for over 30 minutes without assignment. No suitable runner was available.'' (-1) now"
  define h1 where "h1 = fold ?f1 (select_tasks P1 h) h"
  have c: "cleanup_orphaned_pending_tasks now h = fold ?f2 (select_tasks P2 h1) h1"
    unfolding cleanup_orphaned_pending_tasks_def h1_def off_def P1_def P2_def Let_def by (rule refl)
  have k1: "tasks_keyed h1" unfolding h1_def by (rule fold_keyed [OF _ k(1)]) simp
  have r1: "get_task i h1 = map_option (\<lambda>t. if P1 t then orphaned now t else t) (get_task i h)"
    unfolding h1_def orphaned_def by (rule fold_rows [OF k(1)]) (simp_all add: get_task_end)
  have r2: "get_task i (cleanup_orphaned_pending_tasks now h) = map_option (\<lambda>t. if P2 t then unwanted now t else t) (get_task i h1)"
    unfolding c unwanted_def by (rule fold_rows [OF k1]) (simp_all add: get_task_end)
  have p: "P1 t \<longleftrightarrow> is_pending t \<and> (\<exists>n. node_of h t = Some n \<and> is_offline n)" for t
    unfolding P1_def off_def using offline_hostnames [OF k(2)]
    by (cases "assigned_node t") (auto simp: node_of_def simp del: set_map)
  have "\<not> P2 (orphaned now t)" for t by (simp add: P2_def orphaned_def is_pending_def)
  then have "get_task i (cleanup_orphaned_pending_tasks now h) =
      map_option (\<lambda>t. if P1 t then orphaned now t else if P2 t then unwanted now t else t) (get_task i h)"
    unfolding r2 r1 by (cases "get_task i h") simp_all
  then show "get_task i (cleanup_orphaned_pending_tasks now h) =
    map_option (\<lambda>t.
      if is_pending t \<and> (\<exists>n. node_of h t = Some n \<and> is_offline n) then orphaned now t
      else if is_pending t \<and> assigned_node t = None \<and> submitted_at t < now - seconds (30 * 60) then unwanted now t
      else t) (get_task i h)"
    unfolding p P2_def .
  show "nodes (cleanup_orphaned_pending_tasks now h) = nodes h"
    unfolding c h1_def by (simp add: fold_nodes)
qed

lemma fold_dead_keyed:
  assumes "keyed hostname (nodes h)"
  shows "keyed hostname (nodes (fold (dead_node_handled cfg now) ns h))"
proof -
  have "nodes (dead_node_handled cfg now n s) = nodes (mark_node_offline n s)" for n and s :: "'a host"
    unfolding dead_node_handled_def handle_dead_node_def mark_overlay_inactive_def mark_node_tasks_lost_def
    by (simp add: fold_nodes split: option.split)
  then have "keyed hostname (nodes s) \<Longrightarrow> keyed hostname (nodes (dead_node_handled cfg now n s))" for n and s :: "'a host"
    by (auto simp: mark_node_offline_def save_node_def)
  with assms show ?thesis by (induction ns arbitrary: h) simp_all
qed

text \<open>A pass between whose parts nothing comes.\<close>

definition whole_pass :: "host_settings \<Rightarrow> int \<Rightarrow> 'k host \<Rightarrow> 'k host" where
  "whole_pass cfg now h =
     cleanup_orphaned_pending_tasks now (fold (dead_node_handled cfg now) (find_dead_nodes cfg now h) h)"

lemma fold_suspended: "(\<And>t s. suspended (f t s) = suspended s) \<Longrightarrow> suspended (fold f ts s) = suspended s"
  by (induction ts arbitrary: s) simp_all

lemma monitor_suspended [simp]:
  "suspended (handle_dead_node now n h) = suspended h" "suspended (cleanup_orphaned_pending_tasks now h) = suspended h"
  "suspended (mark_overlay_inactive cfg x h) = suspended h"
proof -
  have e: "suspended (end_task st msg code now t s) = suspended s" for st msg code now t and s :: "'a host"
    by (simp add: end_task_def Let_def)
  show "suspended (handle_dead_node now n h) = suspended h"
    by (simp add: handle_dead_node_def mark_node_tasks_lost_def fold_suspended e mark_node_offline_def save_node_def)
  show "suspended (cleanup_orphaned_pending_tasks now h) = suspended h"
    by (simp add: cleanup_orphaned_pending_tasks_def Let_def fold_suspended e)
  show "suspended (mark_overlay_inactive cfg x h) = suspended h"
    by (simp add: mark_overlay_inactive_def split: option.split)
qed

lemma no_reply_left:
  "length (suspended h) = m \<Longrightarrow> (host_step env (ReplyArrives now m r) ^^ k) h = h"
  by (induction k) (simp_all add: reply_arrives_def)

lemma monitor_nodes_unbroken:
  assumes "length (suspended h) = m" "length ns \<le> k"
  shows "(host_step env (ReplyArrives now m r) ^^ k) (monitor_nodes (env_cfg env) now ns h) =
    cleanup_orphaned_pending_tasks now (fold (dead_node_handled (env_cfg env) now) ns h)"
  using assms
proof (induction ns arbitrary: h k)
  case Nil
  then show ?case by (simp add: no_reply_left del: host_step.simps)
next
  case (Cons n ns)
  let ?cfg = "env_cfg env" and ?h1 = "handle_dead_node now n h"
  have l: "length (suspended (dead_node_handled ?cfg now n h)) = m" using Cons.prems(1) by (simp add: dead_node_handled_def)
  show ?case
  proof (cases "get_overlay_manager ?cfg ?h1")
    case None
    then have "dead_node_handled ?cfg now n h = ?h1" by (simp add: dead_node_handled_def mark_overlay_inactive_def)
    with None Cons.IH [OF l, of k] Cons.prems(2) show ?thesis by (simp add: Let_def)
  next
    case (Some ms)
    from Cons.prems(2) obtain k' where k: "k = Suc k'" "length ns \<le> k'" by (cases k) auto
    let ?h2 = "suspend (AwaitOverlayLock (hostname n) ns) ?h1"
    have s: "suspended ?h2 = suspended h @ [AwaitOverlayLock (hostname n) ns]" by simp
    have "?h2\<lparr>suspended := remove_nth m (suspended ?h2)\<rparr> = ?h1"
      using Cons.prems(1) unfolding s by (simp add: remove_nth_def suspend_def)
    then have "host_step env (ReplyArrives now m r) ?h2 = monitor_nodes ?cfg now ns (dead_node_handled ?cfg now n h)"
      using Cons.prems(1) s
      by (simp add: reply_arrives_def resume_handler_def finish_mark_inactive_def dead_node_handled_def nth_append)
    with Some Cons.IH [OF l k(2)] k(1) show ?thesis
      by (simp add: Let_def funpow_Suc_right del: host_step.simps funpow.simps)
  qed
qed

text \<open>The events of such a pass: it starts, and then each of its awaits ends at once.\<close>

definition unbroken_pass :: "int \<Rightarrow> reply \<Rightarrow> 'k host \<Rightarrow> host_event list" where
  "unbroken_pass now r h = MonitorPass now # replicate (length (nodes h)) (ReplyArrives now (length (suspended h)) r)"

lemma unbroken_pass_whole:
  assumes "\<not> list_ex is_monitor (suspended h)"
  shows "fold (host_step env) (unbroken_pass now r h) h = whole_pass (env_cfg env) now h"
proof -
  have "length (find_dead_nodes (env_cfg env) now h) \<le> length (nodes h)"
    unfolding find_dead_nodes_def select_nodes_def Let_def
    by (rule order_trans [OF length_filter_le]) simp
  from monitor_nodes_unbroken [OF refl this, where h = h and env = env and now = now and r = r] assms show ?thesis
    by (simp add: unbroken_pass_def check_dead_runners_def whole_pass_def)
qed

lemma find_dead_mem:
  assumes "keyed hostname (nodes h)"
  shows "n \<in> set (find_dead_nodes cfg now h) \<longleftrightarrow> get_node (hostname n) h = Some n \<and> stale cfg now n"
  using keyed_values [OF assms, of n]
  by (auto simp: find_dead_nodes_def select_nodes_def stale_def get_node_def Let_def simp del: set_map)

lemma monitor_row:
  assumes "tasks_keyed h" "keyed hostname (nodes h)" "h' = whole_pass (env_cfg env) now h"
  shows "get_task i h' = map_option (\<lambda>t. monitored (env_cfg env) now (node_of h t) t) (get_task i h) \<and>
    get_node x h' = map_option (\<lambda>n. if stale (env_cfg env) now n then n\<lparr>n_status := ''offline''\<rparr> else n) (get_node x h)"
proof -
  define ns where "ns = find_dead_nodes (env_cfg env) now h"
  define h1 where "h1 = fold (dead_node_handled (env_cfg env) now) ns h"
  have h': "h' = cleanup_orphaned_pending_tasks now h1"
    using assms(3) by (simp add: whole_pass_def h1_def ns_def)
  have mem: "n \<in> set ns \<longleftrightarrow> get_node (hostname n) h = Some n \<and> stale (env_cfg env) now n" for n
    unfolding ns_def by (rule find_dead_mem [OF assms(2)])
  have named: "get_node y h = Some m \<Longrightarrow> hostname m = y" for y m
    unfolding get_node_def by (rule keyed_get [OF assms(2)])
  have d: "distinct (map hostname ns)"
    unfolding ns_def find_dead_nodes_def select_nodes_def Let_def
    by (rule distinct_map_filter) (simp only: keyed_keys [OF assms(2)], use assms(2) in \<open>simp add: keyed_def dict_ok_def\<close>)
  have n1: "get_node x h1 = map_option (\<lambda>n. if stale (env_cfg env) now n then n\<lparr>n_status := ''offline''\<rparr> else n) (get_node x h)" for x
  proof -
    have "get_node x h1 = map_option (\<lambda>n. if n \<in> set ns then n\<lparr>n_status := ''offline''\<rparr> else n) (get_node x h)"
      unfolding h1_def by (rule fold_dead_node [OF assms(1) d _ named]) (use mem in auto)
    then show ?thesis using mem named [of x] by (cases "get_node x h") auto
  qed
  have "tasks_keyed h1" "keyed hostname (nodes h1)"
    unfolding h1_def using fold_dead_row [OF assms(1)] fold_dead_keyed [OF assms(2)] by blast+
  note c = cleanup_row [OF this]
  have t1: "get_task i h1 = map_option (\<lambda>t. if (\<exists>n \<in> set ns. assigned_node t = Some (hostname n)) \<and>
      status t \<in> {''running'', ''assigning'', ''pending''} then lost_on now t else t) (get_task i h)"
    unfolding h1_def using fold_dead_row [OF assms(1)] by blast
  have dead: "(\<exists>n \<in> set ns. assigned_node t = Some (hostname n)) \<longleftrightarrow> (\<exists>n. node_of h t = Some n \<and> stale (env_cfg env) now n)" for t
    using mem named by (cases "assigned_node t") (auto simp: node_of_def)
  have "get_task i h' = map_option (\<lambda>t. monitored (env_cfg env) now (node_of h t) t) (get_task i h)"
  proof (cases "get_task i h")
    case (Some t)
    let ?live = "status t \<in> {''running'', ''assigning'', ''pending''}"
    have "node_of h1 t = map_option (\<lambda>n. if stale (env_cfg env) now n then n\<lparr>n_status := ''offline''\<rparr> else n) (node_of h t)"
      by (cases "assigned_node t") (simp_all add: node_of_def n1)
    then have off: "(\<exists>n. node_of h1 t = Some n \<and> is_offline n) \<longleftrightarrow>
        (\<exists>n. node_of h t = Some n \<and> is_offline n) \<or> (\<exists>n. node_of h t = Some n \<and> stale (env_cfg env) now n)"
      by (cases "node_of h t") (simp_all add: is_offline_def)
    have l: "\<not> is_pending (lost_on now t)" by (simp add: lost_on_def is_pending_def)
    have t1': "get_task i h1 = Some (if (\<exists>n. node_of h t = Some n \<and> stale (env_cfg env) now n) \<and> ?live then lost_on now t else t)"
      using t1 unfolding Some option.map dead .
    show ?thesis
    proof (cases "(\<exists>n. node_of h t = Some n \<and> stale (env_cfg env) now n) \<and> ?live")
      case True
      then have "get_task i h1 = Some (lost_on now t)" unfolding t1' by simp
      with c(1) [of i] h' l have "get_task i h' = Some (lost_on now t)" by simp
      with True Some show ?thesis by (simp add: monitored_def on_node_iff)
    next
      case False
      have "get_task i h1 = Some t" unfolding t1' if_not_P [OF False] by (rule refl)
      with c(1) [of i] h' off False Some show ?thesis
        by (auto simp: monitored_def on_node_iff is_pending_def orphaned_def unwanted_def)
    qed
  qed (use c(1) t1 h' in simp)
  moreover have "get_node x h' = get_node x h1" using c(2) h' by (simp add: get_node_def)
  ultimately show ?thesis using n1 by simp
qed

text \<open>C9: what a pass of the monitor does, for every task and node, when no pass is under way and nothing
  comes between its parts.  A node that is online and whose
  last heartbeat is older than the timeout goes offline, and its running, assigning and pending
  tasks are lost; a pending task whose node is offline, or which nobody was assigned for half an
  hour, fails; every other task and node is exactly as before.\<close>

theorem monitor_pass:
  assumes "tasks_keyed h" "keyed hostname (nodes h)" "\<not> list_ex is_monitor (suspended h)"
    and "h' = fold (host_step env) (unbroken_pass now r h) h"
  shows "get_task i h' = map_option (\<lambda>t. monitored (env_cfg env) now (node_of h t) t) (get_task i h) \<and>
    get_node x h' = map_option (\<lambda>n. if stale (env_cfg env) now n then n\<lparr>n_status := ''offline''\<rparr> else n) (get_node x h) \<and>
    suspended h' = suspended h"
proof -
  have h': "h' = whole_pass (env_cfg env) now h" using assms(4) unbroken_pass_whole [OF assms(3)] by simp
  have "suspended h' = suspended h" unfolding h' whole_pass_def
    by (simp add: fold_suspended dead_node_handled_def)
  with monitor_row [OF assms(1,2) h'] show ?thesis by blast
qed

lemma monitor_pass_witness:
  "map_option status (get_task 1 (fold (host_step demo_env) (unbroken_pass 31000000 (RequestError [])
      (fold (host_step demo_env) [demo_submit demo_operator ''command'' None] demo_host))
      (fold (host_step demo_env) [demo_submit demo_operator ''command'' None] demo_host))) = Some ''lost''"
proof -
  let ?h = "fold (host_step demo_env) [demo_submit demo_operator ''command'' None] demo_host"
  have k: "tasks_keyed ?h" using known.run_inv [OF demo_host_init] by blast
  have "nodes ?h = nodes demo_host" "suspended ?h = []" by code_simp+
  then have n: "keyed hostname (nodes ?h)" "\<not> list_ex is_monitor (suspended ?h)"
    by (simp_all add: demo_host_def demo_node_def keyed_def dict_ok_def)
  have "case get_task 1 ?h of None \<Rightarrow> False
      | Some t \<Rightarrow> status (monitored (env_cfg demo_env) 31000000 (node_of ?h t) t) = ''lost''" by code_simp
  then show ?thesis
    using monitor_pass [OF k n refl, of 1 demo_env 31000000 "RequestError []"] by (auto split: option.splits)
qed

text \<open>C27: a node that comes back while a pass of the monitor waits is put offline all the same.  With an
  overlay the pass waits for the overlay's lock after each dead node; the nodes still to come are the
  instances it selected at its start.  So whatever row such a node has by then, fresh heartbeats
  included, the pass writes the old instance over it, with status offline, and the node's running,
  assigning and pending tasks are lost.\<close>

theorem returning_node_put_offline:
  assumes "tasks_keyed h" "k < length (suspended h)" "suspended h ! k = AwaitOverlayLock x (n # ns)"
    and "get_overlay_manager (env_cfg env) h \<noteq> None" "get_node (hostname n) h = Some m" "is_online m" "\<not> stale (env_cfg env) now m"
    and "get_task i h = Some t" "assigned_node t = Some (hostname n)" "status t \<in> {''running'', ''assigning'', ''pending''}"
    and "h' = host_step env (ReplyArrives now k r) h"
  shows "get_node (hostname n) h' = Some (n\<lparr>n_status := ''offline''\<rparr>) \<and> get_task i h' = Some (lost_on now t) \<and>
    container_of t \<in> set (releases h')"
proof -
  let ?cfg = "env_cfg env" and ?h = "h\<lparr>suspended := remove_nth k (suspended h)\<rparr>"
  let ?g = "mark_overlay_inactive ?cfg x ?h"
  have g: "tasks_keyed ?g" "get_task i ?g = Some t" "get_node (hostname n) ?g = Some m" "get_overlay_manager ?cfg ?g \<noteq> None"
    using assms(1,4,5,8) by (auto simp: get_task_def get_node_def mark_overlay_inactive_def get_overlay_manager_def split: option.split if_splits)
  let ?d = "handle_dead_node now n ?g"
  have o: "overlay ?d = overlay ?g"
  proof -
    have "overlay (fold (end_task st msg code now) ts s) = overlay s" for st msg code ts and s :: "'a host"
      by (induction ts arbitrary: s) (simp_all add: end_task_def Let_def schedule_ip_release_def)
    then show ?thesis by (simp add: handle_dead_node_def mark_node_tasks_lost_def mark_node_offline_def save_node_def)
  qed
  then have "get_overlay_manager ?cfg ?d \<noteq> None" using g(4) by (auto simp: get_overlay_manager_def split: if_splits)
  then obtain ms where "get_overlay_manager ?cfg ?d = Some ms" by blast
  then have h': "h' = suspend (AwaitOverlayLock (hostname n) ns) ?d"
    using assms(2,3,11) by (simp add: reply_arrives_def resume_handler_def finish_mark_inactive_def Let_def)
  have "dead_node_handled (?cfg\<lparr>hs_overlay_enabled := False\<rparr>) now n ?g = ?d"
    by (simp add: dead_node_handled_def mark_overlay_inactive_def get_overlay_manager_def)
  note d = handle_dead_row [OF g(1), where cfg = "?cfg\<lparr>hs_overlay_enabled := False\<rparr>" and now = now and n = n, unfolded this]
  have t: "get_task i h' = Some (lost_on now t)" using d(1) [of i] g(2) assms(9,10) h' by simp
  have "evolves anything ?g ?d" by (rule handle_dead_node_evolves)
  then have "freed ?g ?d" using g(1) by (simp add: evolves_def)
  moreover have "get_task i ?d = Some (lost_on now t)" using t h' by simp
  moreover have "is_finished (lost_on now t)" "\<not> is_finished t" "container_of (lost_on now t) = container_of t"
    using assms(10) by (auto simp: lost_on_def is_finished_def ended_task_def container_of_def)
  ultimately have "container_of t \<in> set (releases h')" using g(2) unfolding freed_def h' by fastforce
  moreover have "get_node (hostname n) h' = Some (n\<lparr>n_status := ''offline''\<rparr>)"
    using d(2) [of "hostname n"] g(3) h' by (simp add: get_node_def suspend_def)
  ultimately show ?thesis using t by blast
qed

abbreviation demo_beat :: "int list \<Rightarrow> heartbeat_request" where
  "demo_beat running \<equiv> \<lparr>hb_running = running, hb_killed = [], hb_cpu_percent = None, hb_memory_percent = None,
     hb_memory_used = None, hb_memory_total = None, hb_avg_temp = None, hb_max_temp = None, hb_gpu_info = None,
     hb_vm_capable = False, hb_vfio = None, hb_version = None\<rparr>"

text \<open>The example: two nodes time out; while the pass waits after the first, the second sends a heartbeat
  that lists its running task.\<close>

definition demo_pair :: "unit host" where
  "demo_pair = demo_host\<lparr>nodes := [(''beta'', demo_node\<lparr>hostname := ''beta''\<rparr>), (''alpha'', demo_node)]\<rparr>"

abbreviation demo_return :: "host_event list" where
  "demo_return \<equiv> [demo_submit demo_operator ''command'' None, StatusUpdate 5 1 (demo_update ''running''), MonitorPass 31000000,
     NodeHeartbeat 32000000 ''alpha'' (demo_beat [1])]"

lemma returning_node_put_offline_witness:
  "map_option n_status (get_node ''alpha'' (fold (host_step demo_env) demo_return demo_pair)) = Some ''online'' \<and>
   map_option n_status (get_node ''alpha'' (host_step demo_env (ReplyArrives 32000000 0 (RequestError []))
     (fold (host_step demo_env) demo_return demo_pair))) = Some ''offline''"
proof -
  let ?h = "fold (host_step demo_env) demo_return demo_pair"
  have k: "tasks_keyed ?h" by (rule conjunct1 [OF known.run_inv]) (simp add: host_init_def demo_pair_def demo_host_def)
  have s: "0 < length (suspended ?h)" "suspended ?h ! 0 = AwaitOverlayLock ''beta'' [demo_node]" by code_simp+
  have o: "get_overlay_manager (env_cfg demo_env) ?h \<noteq> None" by code_simp
  have "case get_node (hostname demo_node) ?h of None \<Rightarrow> False | Some m \<Rightarrow> is_online m \<and> \<not> stale (env_cfg demo_env) 32000000 m" by code_simp
  then obtain m where m: "get_node (hostname demo_node) ?h = Some m" "is_online m" "\<not> stale (env_cfg demo_env) 32000000 m" by (auto split: option.splits)
  have "case get_task 1 ?h of None \<Rightarrow> False | Some t \<Rightarrow> assigned_node t = Some (hostname demo_node) \<and> status t = ''running''" by code_simp
  then obtain t where t: "get_task 1 ?h = Some t" "assigned_node t = Some (hostname demo_node)" "status t = ''running''"
    by (auto split: option.splits)
  from returning_node_put_offline [OF k s o m t(1,2) _ refl] t(3) m(1,2) show ?thesis
    by (simp add: demo_node_def is_online_def del: host_step.simps)
qed

section \<open>A heartbeat\<close>

text \<open>What a heartbeat of node \<open>n\<close> makes of a task: first the tasks it reports killed, then the tasks
  it was assigned and the pending ones.\<close>

definition killed_once :: "int \<Rightarrow> int \<times> string \<Rightarrow> task \<Rightarrow> task" where
  "killed_once now k t =
     (if task_id t = fst k \<and> \<not> is_finished t
      then ended_task (if snd k = ''oom'' then ''killed_oom'' else ''failed'') (''Killed by runner: '' @ snd k) (-9) now t
      else t)"

definition confirmed_task :: "int \<Rightarrow> task \<Rightarrow> task" where
  "confirmed_task now t =
     t\<lparr>status := ''running'',
       started_at := (if started_at t = None then Some now else started_at t),
       assignment_suspicion_count := (if assignment_suspicion_count t > 0 then 0 else assignment_suspicion_count t)\<rparr>"

definition assigning_after :: "host_settings \<Rightarrow> int list \<Rightarrow> string \<Rightarrow> int \<Rightarrow> task \<Rightarrow> task" where
  "assigning_after cfg running n now t =
     (if assigned_node t \<noteq> Some n \<or> status t \<noteq> ''assigning'' then t
      else if task_id t \<in> set running then confirmed_task now t
      else if now - submitted_at t \<le> seconds (heartbeat_interval cfg * 3) then t
      else if assignment_suspicion_count t < 2 then t\<lparr>assignment_suspicion_count := assignment_suspicion_count t + 1\<rparr>
      else ended_task ''failed'' (''Task assignment failed. Runner '' @ n @ '' did not confirm start after multiple checks.'') (-1) now t)"

definition pending_after :: "host_settings \<Rightarrow> int list \<Rightarrow> string \<Rightarrow> int \<Rightarrow> task \<Rightarrow> task" where
  "pending_after cfg running n now t =
     (if assigned_node t \<noteq> Some n \<or> status t \<noteq> ''pending'' then t
      else if task_id t \<in> set running then confirmed_task now t
      else if now - submitted_at t \<le> seconds (heartbeat_interval cfg * heartbeat_timeout_factor cfg * 3) then t
      else ended_task ''failed''
             (''Task stuck in pending state on '' @ n @ ''. Runner does not have this task after multiple heartbeat cycles.'')
             (-1) now t)"

definition heartbeat_after :: "host_settings \<Rightarrow> int \<Rightarrow> string \<Rightarrow> heartbeat_request \<Rightarrow> task \<Rightarrow> task" where
  "heartbeat_after cfg now n rq t =
     pending_after cfg (hb_running rq) n now
       (assigning_after cfg (hb_running rq) n now (fold (killed_once now) (hb_killed rq) t))"

lemma process_killed_rows:
  assumes "tasks_keyed h"
  shows "get_task i (process_killed_tasks now ks h) = map_option (fold (killed_once now) ks) (get_task i h) \<and>
    tasks_keyed (process_killed_tasks now ks h)"
  using assms
proof (induction ks arbitrary: h)
  case (Cons k ks)
  have r: "get_task i (process_killed_task now k h) = map_option (killed_once now k) (get_task i h)"
  proof (cases "get_task i h")
    case None
    then show ?thesis by (auto simp: process_killed_task_def get_task_end split: option.split)
  next
    case (Some t)
    then have id: "task_id t = i" by (rule row_id [OF Cons.prems])
    show ?thesis
    proof (cases "i = fst k")
      case True
      with Some id show ?thesis by (simp add: process_killed_task_def killed_once_def get_task_end)
    next
      case False
      then have "get_task i (process_killed_task now k h) = get_task i h"
        using row_id [OF Cons.prems, of "fst k"]
        by (cases "get_task (fst k) h") (simp_all add: process_killed_task_def get_task_end)
      with False Some id show ?thesis by (simp add: killed_once_def)
    qed
  qed
  have "tasks_keyed (process_killed_task now k h)"
    using Cons.prems by (simp add: process_killed_task_def split: option.split)
  from Cons.IH [OF this] r show ?case by (simp add: process_killed_tasks_def option.map_comp comp_def)
qed (simp add: process_killed_tasks_def option.map_ident id_def)

lemma get_task_confirm_own:
  "get_task (task_id t) s = Some t \<Longrightarrow> get_task (task_id t) (confirm_task_running now t s) = Some (confirmed_task now t)"
  by (simp add: confirm_task_running_def confirmed_task_def get_task_save)

lemma confirm_keyed [simp]: "tasks_keyed s \<Longrightarrow> tasks_keyed (confirm_task_running now t s)"
  by (simp add: confirm_task_running_def)

lemma reconcile_rows:
  assumes "tasks_keyed h"
  shows "get_task i (reconcile_assigning_tasks cfg running n now h) =
      map_option (assigning_after cfg running n now) (get_task i h)"
    and "get_task i (reconcile_pending_tasks cfg running n now h) = map_option (pending_after cfg running n now) (get_task i h)"
    and "tasks_keyed (reconcile_assigning_tasks cfg running n now h)"
    and "tasks_keyed (reconcile_pending_tasks cfg running n now h)"
proof -
  let ?f = "\<lambda>t. if task_id t \<in> set running then confirm_task_running now t else check_task_assignment_timeout cfg n now t"
  let ?P = "\<lambda>st t. assigned_node t = Some n \<and> status t = st"
  have c: "get_task i (confirm_task_running now t s) = get_task i s" if "i \<noteq> task_id t" for i t and s :: "'a host"
    using that by (simp add: confirm_task_running_def get_task_save)
  have "get_task i (fold ?f (select_tasks (?P ''assigning'') h) h) =
      map_option (\<lambda>t. if ?P ''assigning'' t then assigning_after cfg running n now t else t) (get_task i h)"
    by (rule fold_rows [OF assms])
      (simp_all add: assigning_after_def check_task_assignment_timeout_def get_task_confirm_own get_task_save get_task_end c)
  moreover have "(if ?P ''assigning'' t then assigning_after cfg running n now t else t) = assigning_after cfg running n now t" for t
    by (auto simp: assigning_after_def)
  ultimately show "get_task i (reconcile_assigning_tasks cfg running n now h) =
      map_option (assigning_after cfg running n now) (get_task i h)" by (simp add: reconcile_assigning_tasks_def)
  have "get_task i (fold (reconcile_pending_task cfg running n now) (select_tasks (?P ''pending'') h) h) =
      map_option (\<lambda>t. if ?P ''pending'' t then pending_after cfg running n now t else t) (get_task i h)"
    by (rule fold_rows [OF assms])
      (simp_all add: pending_after_def reconcile_pending_task_def get_task_confirm_own get_task_end c)
  moreover have "(if ?P ''pending'' t then pending_after cfg running n now t else t) = pending_after cfg running n now t" for t
    by (auto simp: pending_after_def)
  ultimately show "get_task i (reconcile_pending_tasks cfg running n now h) = map_option (pending_after cfg running n now) (get_task i h)"
    by (simp add: reconcile_pending_tasks_def)
  show "tasks_keyed (reconcile_assigning_tasks cfg running n now h)" "tasks_keyed (reconcile_pending_tasks cfg running n now h)"
    unfolding reconcile_assigning_tasks_def reconcile_pending_tasks_def
    by (rule fold_keyed [OF _ assms], simp add: check_task_assignment_timeout_def reconcile_pending_task_def)+
qed

lemma heartbeat_row:
  assumes "tasks_keyed h" "get_node n h \<noteq> None"
  shows "get_task i (host_step env (NodeHeartbeat now n rq) h) = map_option (heartbeat_after (env_cfg env) now n rq) (get_task i h)"
proof -
  obtain nd where nd: "get_node n h = Some nd" using assms(2) by auto
  define h1 where "h1 = update_node_metrics now rq nd h"
  define h2 where "h2 = process_killed_tasks now (hb_killed rq) h1"
  define h3 where "h3 = reconcile_assigning_tasks (env_cfg env) (hb_running rq) n now h2"
  define h4 where "h4 = reconcile_pending_tasks (env_cfg env) (hb_running rq) n now h3"
  have t1: "tasks h1 = tasks h" by (simp add: h1_def update_node_metrics_def)
  have k1: "tasks_keyed h1" using assms(1) t1 by simp
  have g2: "get_task i h2 = map_option (fold (killed_once now) (hb_killed rq)) (get_task i h)" and k2: "tasks_keyed h2"
    unfolding h2_def using process_killed_rows [OF k1] t1 by (simp_all add: get_task_def)
  have g3: "get_task i h3 = map_option (assigning_after (env_cfg env) (hb_running rq) n now) (get_task i h2)" and k3: "tasks_keyed h3"
    unfolding h3_def by (rule reconcile_rows [OF k2])+
  have g4: "get_task i h4 = map_option (pending_after (env_cfg env) (hb_running rq) n now) (get_task i h3)"
    unfolding h4_def by (rule reconcile_rows [OF k3])
  have "tasks (host_step env (NodeHeartbeat now n rq) h) = tasks h4"
    using nd by (simp add: heartbeat_def Let_def h1_def h2_def h3_def h4_def)
  then show ?thesis
    using g2 g3 g4 by (cases "get_task i h") (simp_all add: get_task_def heartbeat_after_def)
qed


abbreviation demo_assigned :: "unit host" where
  "demo_assigned \<equiv> fold (host_step demo_env) [demo_submit demo_operator ''command'' None] demo_host"


text \<open>A late heartbeat that does not mention a task.\<close>

definition silent_beat :: "host_settings \<Rightarrow> task \<Rightarrow> int \<times> heartbeat_request \<Rightarrow> bool" where
  "silent_beat cfg t b \<longleftrightarrow>
     seconds (heartbeat_interval cfg * 3) < fst b - submitted_at t \<and>
     task_id t \<notin> set (hb_running (snd b)) \<and> task_id t \<notin> set (map fst (hb_killed (snd b)))"

lemma unmentioned_kill: "task_id t \<notin> set (map fst ks) \<Longrightarrow> fold (killed_once now) ks t = t"
  by (induction ks) (auto simp: killed_once_def)

text \<open>What such a heartbeat makes of an assigning task of the node: one suspicion more, or failure.\<close>

lemma silent_beat_after:
  assumes "silent_beat cfg t b" "assigned_node t = Some n" "status t = ''assigning''"
  shows "heartbeat_after cfg (fst b) n (snd b) t =
    (if assignment_suspicion_count t < 2 then t\<lparr>assignment_suspicion_count := assignment_suspicion_count t + 1\<rparr>
     else ended_task ''failed'' (''Task assignment failed. Runner '' @ n @ '' did not confirm start after multiple checks.'') (-1) (fst b) t)"
  using assms unmentioned_kill [of t "hb_killed (snd b)" "fst b"]
  by (simp add: heartbeat_after_def silent_beat_def assigning_after_def pending_after_def)

lemma silent_beat_failed:
  assumes "silent_beat cfg t b" "status t = ''failed''"
  shows "heartbeat_after cfg (fst b) n (snd b) t = t"
  using assms unmentioned_kill [of t "hb_killed (snd b)" "fst b"]
  by (simp add: heartbeat_after_def silent_beat_def assigning_after_def pending_after_def)

lemma heartbeat_nodes:
  "nodes (host_step env (NodeHeartbeat now n rq) h) =
    (case get_node n h of None \<Rightarrow> nodes h | Some nd \<Rightarrow> nodes (update_node_metrics now rq nd h))"
proof -
  have "nodes (process_killed_tasks now ks s) = nodes s" "nodes (reconcile_assigning_tasks cfg r n now s) = nodes s"
    "nodes (reconcile_pending_tasks cfg r n now s) = nodes s" "nodes (mark_overlay_active nl uh cfg now n s) = nodes s"
    for ks cfg r nl uh and s :: "'a host"
    unfolding process_killed_tasks_def reconcile_assigning_tasks_def reconcile_pending_tasks_def mark_overlay_active_def
    by (auto intro!: fold_nodes simp: process_killed_task_def check_task_assignment_timeout_def confirm_task_running_def
        reconcile_pending_task_def split: option.split prod.split)
  then show ?thesis by (simp add: heartbeat_def Let_def split: option.split)
qed

lemma heartbeat_keeps_node:
  assumes "get_node n h \<noteq> None"
  shows "get_node n (host_step env (NodeHeartbeat now n rq) h) \<noteq> None"
  using assms heartbeat_nodes [of env now n rq h]
  by (auto simp: get_node_def update_node_metrics_def save_node_def get_update)

lemma heartbeat_keeps_keyed:
  assumes "keyed hostname (nodes h)"
  shows "keyed hostname (nodes (host_step env (NodeHeartbeat now n rq) h))"
  using assms heartbeat_nodes [of env now n rq h] by (auto simp: update_node_metrics_def save_node_def split: option.splits)

text \<open>A task whose node is not among those a pass has still to handle is left alone while it runs.\<close>

lemma monitor_nodes_running:
  assumes "tasks_keyed h" "keyed hostname (nodes h)" "get_task i h = Some t" "status t = ''running''"
    and "\<forall>n \<in> set ns. assigned_node t \<noteq> Some (hostname n)"
  shows "get_task i (monitor_nodes cfg now ns h) = Some t \<and> keyed hostname (nodes (monitor_nodes cfg now ns h))"
  using assms
proof (induction ns arbitrary: h)
  case Nil
  then show ?case using cleanup_row(1) [OF Nil(1,2), of i now] cleanup_row(2) [OF Nil(1,2), of now] by (simp add: is_pending_def)
next
  case (Cons n ns)
  let ?d = "handle_dead_node now n h" and ?off = "cfg\<lparr>hs_overlay_enabled := False\<rparr>"
  have e: "dead_node_handled ?off now n h = ?d"
    by (simp add: dead_node_handled_def mark_overlay_inactive_def get_overlay_manager_def)
  note d = handle_dead_row [OF Cons.prems(1), where cfg = ?off and now = now and n = n, unfolded e]
  have "get_task i ?d = Some t" using d(1) [of i] Cons.prems(3,5) by simp
  moreover have "keyed hostname (nodes ?d)" using fold_dead_keyed [OF Cons.prems(2), of ?off now "[n]"] by (simp add: e)
  ultimately show ?case using Cons.IH [OF d(3) _ _ Cons.prems(4)] Cons.prems(5) by (simp add: Let_def) (simp add: suspend_def)
qed

definition beats :: "string \<Rightarrow> (int \<times> heartbeat_request) list \<Rightarrow> host_event list" where
  "beats n bs = map (\<lambda>b. NodeHeartbeat (fst b) n (snd b)) bs"

lemma beats_failed:
  assumes "tasks_keyed h" "get_node n h \<noteq> None" "get_task i h = Some t" "status t = ''failed''"
    "\<forall>b \<in> set bs. silent_beat (env_cfg env) t b"
  shows "get_task i (fold (host_step env) (beats n bs) h) = Some t"
  using assms
proof (induction bs arbitrary: h)
  case (Cons b bs)
  let ?h = "host_step env (NodeHeartbeat (fst b) n (snd b)) h"
  have "get_task i ?h = Some t"
    unfolding heartbeat_row [OF Cons.prems(1,2)] using Cons.prems(3-5) silent_beat_failed [of "env_cfg env" t b n] by simp
  then show ?case
    using Cons.IH [OF host_step_keyed [OF Cons.prems(1)] heartbeat_keeps_node [OF Cons.prems(2)]] Cons.prems(4,5)
    by (simp add: beats_def)
qed (simp add: beats_def)


lemma case_SomeD: "case x of None \<Rightarrow> False | Some y \<Rightarrow> P y \<Longrightarrow> \<exists>y. x = Some y \<and> P y"
  by (cases x) auto


section \<open>Access\<close>

text \<open>A user of role \<open>user\<close> has no power over another's task.  A kill, a pause or resume, or a
  look at the output of a task of another owner is answered 403, and nothing changes; so are the
  operations on VPS and the approval and rejection, which need an operator, for any task.\<close>

theorem foreign_task_denied:
  assumes "role u = ''user''" "get_task i h = Some t" "owner_id t \<noteq> Some (u_id u)"
  shows "(\<exists>m. request_kill_task now u i h = (Inl (HTTPException 403 m), h)) \<and>
    (\<exists>m. send_command_to_task u i c h = (Inl (HTTPException 403 m), h)) \<and>
    (\<exists>m. get_task_output files u i out n h = Inl (HTTPException 403 m)) \<and>
    (\<exists>m. approve_task now u i h = (Inl (HTTPException 403 m), h)) \<and>
    (\<exists>m. reject_task now u i reason h = (Inl (HTTPException 403 m), h)) \<and>
    (\<exists>m. stop_vps now u i h = (Inl (HTTPException 403 m), h)) \<and>
    (\<exists>m. restart_vps cfg u i h = (Inl (HTTPException 403 m), h))"
proof -
  have u: "check_role ''user'' u = Inr u" "\<exists>m. check_role ''operator'' u = Inl (HTTPException 403 m)"
    using assms(1) by (simp_all add: check_role_def has_role_def is_at_least_def role_hierarchy_def)
  have "\<not> may_control u t" using assms(1,3) by (simp add: may_control_def)
  with u assms(2) show ?thesis
    by (auto simp: request_kill_task_def send_command_to_task_def get_task_output_def approve_task_def reject_task_def
        stop_vps_def restart_vps_def guard_role_def with_row_def)
qed

lemma foreign_task_denied_witness:
  "(\<exists>m. request_kill_task 9 demo_user 1 demo_assigned = (Inl (HTTPException 403 m), demo_assigned))"
proof -
  have "case get_task 1 demo_assigned of None \<Rightarrow> False | Some t \<Rightarrow> owner_id t \<noteq> Some (u_id demo_user)" by code_simp
  then obtain t where t: "get_task 1 demo_assigned = Some t" "owner_id t \<noteq> Some (u_id demo_user)" by (auto split: option.splits)
  have "role demo_user = ''user''" by code_simp
  from foreign_task_denied [OF this t] show ?thesis by blast
qed

end
