(* ===== verification/Runner_Config.thy ===== *)
theory Runner_Config
  imports Docker_Naming
begin

text \<open>
  The runner's configuration (\<^verbatim>\<open>runner/config.py\<close>): the values its services read, and the networks
  that were set up, which are added to it while the runner starts.  An attribute that may not have
  been set yet, which the code asks for with \<^verbatim>\<open>hasattr\<close>, starts empty.
\<close>

record overlay_net =
  on_gateway :: string
  on_docker_network :: string

record runner_config =
  HOST_ADDRESS :: string
  HOST_PORT :: int
  RUNNER_PORT :: int
  SHARED_DIR :: string
  LOCAL_TEMP_DIR :: string
  CONTAINER_TAR_DIR :: string
  NUMACTL_PATH :: string
  TASKS_PRIVILEGED :: bool
  ADDITIONAL_MOUNTS :: "string list"
  TUNNEL_ENABLED :: bool
  TUNNEL_CLIENT_PATH :: string
  DOCKER_NETWORK_NAME :: string
  DOCKER_NETWORK_GATEWAY :: string
  OVERLAY_ENABLED :: bool
  OVERLAY_NETWORK_NAME :: string
  OVERLAY_SUBNET_CIDR :: string
  VM_BRIDGE_NAME :: string
  VM_BRIDGE_SUBNET :: string
  VM_BRIDGE_GATEWAY :: string
  AUTO_SNAPSHOT_ON_STOP :: bool
  MAX_SNAPSHOTS_PER_VPS :: int
  AUTO_RESTORE_ON_CREATE :: bool
  overlay_networks :: "(string, overlay_net) dict"
  overlay_configured :: bool
  overlay_gateway :: "string option"

definition get_host_url :: "runner_config \<Rightarrow> string" where
  "get_host_url cfg = ''http://'' @ HOST_ADDRESS cfg @ '':'' @ str_of_int (HOST_PORT cfg)"

definition get_container_tar_dir :: "runner_config \<Rightarrow> string" where
  "get_container_tar_dir cfg =
     (if CONTAINER_TAR_DIR cfg \<noteq> [] then CONTAINER_TAR_DIR cfg else path_join (SHARED_DIR cfg) ''kohakuriver-containers'')"

definition get_numactl_path :: "runner_config \<Rightarrow> string" where
  "get_numactl_path cfg = (if NUMACTL_PATH cfg \<noteq> [] then NUMACTL_PATH cfg else ''numactl'')"

section \<open>The tunnel client\<close>

text \<open>\<open>isfile\<close> and \<open>abspath\<close> are those of \<^verbatim>\<open>os.path\<close>, \<open>home\<close> the home directory when it is set and
  exists, \<open>dev\<close> the path of a development build.\<close>

definition tunnel_search_paths :: "string option \<Rightarrow> string \<Rightarrow> runner_config \<Rightarrow> string list" where
  "tunnel_search_paths home dev cfg =
     [''./tunnel-client''] @
     (case home of None \<Rightarrow> [] | Some d \<Rightarrow> [path_join (path_join d ''.kohakuriver'') ''tunnel-client'']) @
     [''/usr/local/bin/tunnel-client'', ''/usr/bin/tunnel-client'',
      path_join (path_join (SHARED_DIR cfg) ''bin'') ''tunnel-client'', dev]"

definition get_tunnel_client_path ::
  "(string \<Rightarrow> bool) \<Rightarrow> (string \<Rightarrow> string) \<Rightarrow> string option \<Rightarrow> string \<Rightarrow> runner_config \<Rightarrow> string option" where
  "get_tunnel_client_path isfile abspath home dev cfg =
     (if \<not> TUNNEL_ENABLED cfg then None
      else if TUNNEL_CLIENT_PATH cfg \<noteq> []
      then (if isfile (TUNNEL_CLIENT_PATH cfg) then Some (TUNNEL_CLIENT_PATH cfg) else None)
      else map_option abspath (find isfile (tunnel_search_paths home dev cfg)))"

section \<open>Container networks\<close>

definition get_container_network :: "string option \<Rightarrow> runner_config \<Rightarrow> string res" where
  "get_container_network n cfg =
     (case overlay_networks cfg of
        (k, first) # rest \<Rightarrow>
          if truthy n
          then (case map_of (overlay_networks cfg) (the n) of
                  Some net \<Rightarrow> Inr (on_docker_network net)
                | None \<Rightarrow> Inl (ValueError (''Unknown overlay network '' @ the n)))
          else Inr (on_docker_network first)
      | [] \<Rightarrow>
          if OVERLAY_ENABLED cfg \<and> overlay_configured cfg
          then (if truthy n \<and> n \<noteq> Some ''default'' then Inl (ValueError (''Unknown overlay network '' @ the n))
                else Inr (OVERLAY_NETWORK_NAME cfg))
          else if truthy n then Inl (ValueError (''Unknown overlay network '' @ the n))
          else Inr (DOCKER_NETWORK_NAME cfg))"

definition get_container_gateway :: "string option \<Rightarrow> runner_config \<Rightarrow> string" where
  "get_container_gateway n cfg =
     (case overlay_networks cfg of
        (k, first) # rest \<Rightarrow>
          (if truthy n
           then (case map_of (overlay_networks cfg) (the n) of Some net \<Rightarrow> on_gateway net | None \<Rightarrow> on_gateway first)
           else on_gateway first)
      | [] \<Rightarrow>
          if OVERLAY_ENABLED cfg \<and> truthy (overlay_gateway cfg) then the (overlay_gateway cfg)
          else DOCKER_NETWORK_GATEWAY cfg)"

definition get_runner_ws_url :: "runner_config \<Rightarrow> string" where
  "get_runner_ws_url cfg = ''ws://'' @ get_container_gateway None cfg @ '':'' @ str_of_int (RUNNER_PORT cfg)"

definition add_overlay_network :: "string \<Rightarrow> string \<Rightarrow> string \<Rightarrow> runner_config \<Rightarrow> runner_config" where
  "add_overlay_network n gw docker cfg =
     cfg\<lparr>overlay_networks := AList.update n \<lparr>on_gateway = gw, on_docker_network = docker\<rparr> (overlay_networks cfg)\<rparr>"

definition get_overlay_network_names :: "runner_config \<Rightarrow> string list" where
  "get_overlay_network_names cfg = dict_keys (overlay_networks cfg)"

definition set_overlay_configured :: "string \<Rightarrow> runner_config \<Rightarrow> runner_config" where
  "set_overlay_configured gw cfg = cfg\<lparr>overlay_configured := True, overlay_gateway := Some gw\<rparr>"

text \<open>A configuration for examples.\<close>

definition demo_runner :: runner_config where
  "demo_runner = \<lparr>HOST_ADDRESS = ''10.0.0.1'', HOST_PORT = 8000, RUNNER_PORT = 8001, SHARED_DIR = ''/s'', LOCAL_TEMP_DIR = ''/l'',
     CONTAINER_TAR_DIR = ''/t'', NUMACTL_PATH = ''/usr/bin/numactl'', TASKS_PRIVILEGED = False, ADDITIONAL_MOUNTS = [],
     TUNNEL_ENABLED = True, TUNNEL_CLIENT_PATH = '''', DOCKER_NETWORK_NAME = ''net'', DOCKER_NETWORK_GATEWAY = ''172.30.0.1'',
     OVERLAY_ENABLED = False, OVERLAY_NETWORK_NAME = ''overlay'', OVERLAY_SUBNET_CIDR = ''10.128.0.0/12/6/14'',
     VM_BRIDGE_NAME = ''kohaku-br0'', VM_BRIDGE_SUBNET = ''10.200.0.0/24'', VM_BRIDGE_GATEWAY = ''10.200.0.1'', AUTO_SNAPSHOT_ON_STOP = True, MAX_SNAPSHOTS_PER_VPS = 3,
     AUTO_RESTORE_ON_CREATE = True, overlay_networks = [],
     overlay_configured = False, overlay_gateway = None\<rparr>"

end
