(* ===== verification/Shell_Words.thy ===== *)
theory Shell_Words
  imports Docker_Naming
begin

text \<open>
  How the runner writes shell text, and how a POSIX shell reads it.  \<open>shlex_quote\<close> is
  \<^verbatim>\<open>shlex.quote\<close> of Python's standard library, which \<^verbatim>\<open>runner/services/task_executor.py\<close> applies to every
  argument and log path.  The specification is the shell's side: \<open>plain_words\<close> splits a text into words
  and gives up on everything the shell would expand or take as an operator.
\<close>

section \<open>Quoting\<close>

text \<open>The characters \<^verbatim>\<open>shlex.quote\<close> leaves alone: \<^verbatim>\<open>[\\w@%+=:,./-]\<close>, of ASCII.\<close>

definition safe_char :: "char \<Rightarrow> bool" where
  "safe_char c \<longleftrightarrow> is_alnum_char c \<or> c \<in> set ''_@%+=:,./-''"

text \<open>\<^verbatim>\<open>s.replace("'", "'\"'\"'")\<close>.\<close>

definition quote_char :: "char \<Rightarrow> string" where
  "quote_char c = (if c = CHR 0x27 then [CHR 0x27, CHR 0x22, CHR 0x27, CHR 0x22, CHR 0x27] else [c])"

definition shlex_quote :: "string \<Rightarrow> string" where
  "shlex_quote s =
     (if s = [] then [CHR 0x27, CHR 0x27]
      else if list_all safe_char s then s
      else CHR 0x27 # concat (map quote_char s) @ [CHR 0x27])"

section \<open>The words a shell reads\<close>

datatype reading = Between | InWord string | InSingle string | InDouble string

text \<open>The word under way is kept in reverse.\<close>

fun read_words :: "reading \<Rightarrow> string \<Rightarrow> string list option" where
  "read_words Between [] = Some []"
| "read_words (InWord w) [] = Some [rev w]"
| "read_words (InSingle w) [] = None"
| "read_words (InDouble w) [] = None"
| "read_words Between (c # cs) =
     (if c = CHR '' '' then read_words Between cs
      else if c = CHR 0x27 then read_words (InSingle []) cs
      else if c = CHR 0x22 then read_words (InDouble []) cs
      else if safe_char c then read_words (InWord [c]) cs else None)"
| "read_words (InWord w) (c # cs) =
     (if c = CHR '' '' then map_option (\<lambda>ws. rev w # ws) (read_words Between cs)
      else if c = CHR 0x27 then read_words (InSingle w) cs
      else if c = CHR 0x22 then read_words (InDouble w) cs
      else if safe_char c then read_words (InWord (c # w)) cs else None)"
| "read_words (InSingle w) (c # cs) =
     (if c = CHR 0x27 then read_words (InWord w) cs else read_words (InSingle (c # w)) cs)"
| "read_words (InDouble w) (c # cs) =
     (if c = CHR 0x22 then read_words (InWord w) cs
      else if c \<in> {CHR ''$'', CHR 0x60, CHR 0x5C} then None
      else read_words (InDouble (c # w)) cs)"

definition plain_words :: "string \<Rightarrow> string list option" where
  "plain_words s = read_words Between s"

section \<open>Reading what was quoted\<close>

lemma safe_not_special: "safe_char c \<Longrightarrow> c \<noteq> CHR '' '' \<and> c \<noteq> CHR 0x27 \<and> c \<noteq> CHR 0x22"
  by (auto simp: safe_char_def is_alnum_char_def)

text \<open>From inside or at the start of a word, a run of safe characters extends it.\<close>

lemma read_safe: "list_all safe_char s \<Longrightarrow> read_words (InWord w) (s @ t) = read_words (InWord (rev s @ w)) t"
  by (induction s arbitrary: w) (simp_all add: safe_not_special)

lemma read_single:
  "read_words (InSingle w) (concat (map quote_char s) @ CHR 0x27 # t) = read_words (InWord (rev s @ w)) t"
  by (induction s arbitrary: w) (simp_all add: quote_char_def)

lemma read_raw_single:
  "CHR 0x27 \<notin> set s \<Longrightarrow> read_words (InSingle w) (s @ CHR 0x27 # t) = read_words (InWord (rev s @ w)) t"
  by (induction s arbitrary: w) auto

lemma read_quoted: "read_words Between (shlex_quote s @ t) = read_words (InWord (rev s)) t"
proof (cases "s \<noteq> [] \<and> list_all safe_char s")
  case True
  then obtain c cs where s: "s = c # cs" "safe_char c" "list_all safe_char cs" by (cases s) auto
  then show ?thesis by (simp add: shlex_quote_def safe_not_special read_safe)
next
  case False
  then show ?thesis using read_single [of "[]" s t] by (auto simp: shlex_quote_def)
qed

lemma read_spaced: "read_words (InWord w) (CHR '' '' # t) = map_option (\<lambda>ws. rev w # ws) (read_words Between t)"
  by simp

lemma read_joined:
  "as \<noteq> [] \<Longrightarrow> read_words Between (join_on CHR '' '' (map shlex_quote as)) = Some as"
proof (induction as)
  case (Cons a as)
  show ?case
  proof (cases as)
    case Nil
    then show ?thesis using read_quoted [of a "[]"] by simp
  next
    case (Cons b bs)
    then show ?thesis using read_quoted [of a "CHR '' '' # join_on CHR '' '' (map shlex_quote (b # bs))"] Cons.IH by simp
  qed
qed simp

lemma plain_words_quoted [simp]: "plain_words (join_on CHR '' '' (map shlex_quote as)) = Some as"
  by (cases "as = []") (simp_all add: plain_words_def read_joined)

text \<open>A word that needs no quoting, and what follows it.\<close>

lemma read_plain_then:
  "s \<noteq> [] \<Longrightarrow> list_all safe_char s \<Longrightarrow>
   read_words Between (s @ CHR '' '' # t) = map_option (\<lambda>ws. s # ws) (read_words Between t)"
  using read_quoted [of s "CHR '' '' # t"] by (simp add: shlex_quote_def)

end
