(* ===== verification/Vault_Store.thy ===== *)
theory Vault_Store
  imports Py_Strings
begin

text \<open>
  The runner's persistent store (\<^verbatim>\<open>storage/vault.py\<close>).  The library \<^verbatim>\<open>kohakuvault\<close> underneath is an
  argument, \<open>kvault\<close>: the dictionary operations the stores call on it.  What the stores rely on is
  that it behaves as a dictionary, \<open>kvault_ok\<close>.  The stores add string keys made of task
  identifiers, defaults, and the shapes of the values.
\<close>

section \<open>The library underneath\<close>

record ('s, 'v) kvault =
  kv_get :: "'s \<Rightarrow> string \<Rightarrow> 'v option" \<comment> \<open>\<open>None\<close>: \<^verbatim>\<open>KeyError\<close>\<close>
  kv_put :: "'s \<Rightarrow> string \<Rightarrow> 'v \<Rightarrow> 's"
  kv_del :: "'s \<Rightarrow> string \<Rightarrow> 's"
  kv_keys :: "'s \<Rightarrow> string list" \<comment> \<open>iteration\<close>

locale vault =
  fixes V :: "('s, 'v) kvault"
  assumes get_put: "kv_get V (kv_put V s k v) k' = (if k' = k then Some v else kv_get V s k')"
    and get_del: "kv_get V (kv_del V s k) k' = (if k' = k then None else kv_get V s k')"
    and set_keys: "set (kv_keys V s) = {k. kv_get V s k \<noteq> None}"
    and distinct_keys: "distinct (kv_keys V s)"

text \<open>The same as a predicate, for the statements at the top level.\<close>

definition kvault_ok :: "('s, 'v) kvault \<Rightarrow> bool" where
  "kvault_ok V \<longleftrightarrow> vault V"

section \<open>\<^verbatim>\<open>RunnerStateStore\<close>\<close>

definition store_getitem :: "('s, 'v) kvault \<Rightarrow> 's \<Rightarrow> string \<Rightarrow> 'v option" where
  "store_getitem V s k = kv_get V s k"

definition store_setitem :: "('s, 'v) kvault \<Rightarrow> string \<Rightarrow> 'v \<Rightarrow> 's \<Rightarrow> 's" where
  "store_setitem V k v s = kv_put V s k v"

definition store_delitem :: "('s, 'v) kvault \<Rightarrow> string \<Rightarrow> 's \<Rightarrow> 's option" where
  "store_delitem V k s = (if kv_get V s k = None then None else Some (kv_del V s k))"

definition store_contains :: "('s, 'v) kvault \<Rightarrow> 's \<Rightarrow> string \<Rightarrow> bool" where
  "store_contains V s k = (case kv_get V s k of Some v \<Rightarrow> True | None \<Rightarrow> False)"

definition store_len :: "('s, 'v) kvault \<Rightarrow> 's \<Rightarrow> nat" where
  "store_len V s = length (kv_keys V s)"

definition store_get :: "('s, 'v) kvault \<Rightarrow> 's \<Rightarrow> string \<Rightarrow> 'v option \<Rightarrow> 'v option" where
  "store_get V s k dflt = (case kv_get V s k of Some v \<Rightarrow> Some v | None \<Rightarrow> dflt)"

definition store_keys :: "('s, 'v) kvault \<Rightarrow> 's \<Rightarrow> string list" where
  "store_keys V s = kv_keys V s"

definition store_items :: "('s, 'v) kvault \<Rightarrow> 's \<Rightarrow> (string \<times> 'v) list" where
  "store_items V s = map (\<lambda>k. (k, the (kv_get V s k))) (kv_keys V s)"

definition store_values :: "('s, 'v) kvault \<Rightarrow> 's \<Rightarrow> 'v list" where
  "store_values V s = map (\<lambda>k. the (kv_get V s k)) (kv_keys V s)"

definition store_clear :: "('s, 'v) kvault \<Rightarrow> 's \<Rightarrow> 's" where
  "store_clear V s = fold (\<lambda>k s. kv_del V s k) (kv_keys V s) s"

definition store_pop :: "('s, 'v) kvault \<Rightarrow> string \<Rightarrow> 'v option \<Rightarrow> 's \<Rightarrow> 'v option \<times> 's" where
  "store_pop V k dflt s = (case kv_get V s k of Some v \<Rightarrow> (Some v, kv_del V s k) | None \<Rightarrow> (dflt, s))"

section \<open>The specialised stores\<close>

text \<open>\<^verbatim>\<open>add_task\<close> keeps what it is given: a list of cores as documented, or the number of cores that
  the executor passes.\<close>

datatype cores_value = CoreList "int list" | CoreCount int

fun cores_or_empty :: "cores_value option \<Rightarrow> cores_value" where
  "cores_or_empty None = CoreList []"
| "cores_or_empty (Some (CoreList xs)) = CoreList xs"
| "cores_or_empty (Some (CoreCount n)) = (if n = 0 then CoreList [] else CoreCount n)"

text \<open>A network interface of a VM, as its state keeps it; every key may be missing.\<close>

record vm_iface_state =
  vi_network :: "string option"
  vi_tap :: "string option"
  vi_ip :: "string option"
  vi_bridge :: "string option"
  vi_mode :: "string option"
  vi_token :: "string option"

text \<open>What the state of a VM adds to that of a task.\<close>

record vm_state =
  vm_gpu_addrs :: "string list"
  vm_taps :: "string list"
  vm_tap :: string
  vm_addr :: string
  vm_gateway :: string
  vm_mac :: string
  vm_bridge :: string
  vm_mode :: string
  vm_prefix :: int
  vm_ssh_port :: "int option"
  vm_ifaces :: "vm_iface_state list"

record task_state =
  ts_task_id :: int
  ts_container :: string
  ts_cores :: cores_value
  ts_gpus :: "int list"
  ts_numa :: "int option"
  ts_vm :: "vm_state option"

definition add_task ::
  "('s, task_state) kvault \<Rightarrow> int \<Rightarrow> string \<Rightarrow> cores_value option \<Rightarrow> int list option \<Rightarrow> int option \<Rightarrow> 's \<Rightarrow> 's" where
  "add_task V i c cores gpus numa =
     store_setitem V (str_of_int i)
       \<lparr>ts_task_id = i, ts_container = c, ts_cores = cores_or_empty cores,
        ts_gpus = (case gpus of None \<Rightarrow> [] | Some g \<Rightarrow> g), ts_numa = numa, ts_vm = None\<rparr>"

definition remove_task :: "('s, 'v) kvault \<Rightarrow> int \<Rightarrow> 's \<Rightarrow> 'v option \<times> 's" where
  "remove_task V i s = store_pop V (str_of_int i) None s"

definition stored_task :: "('s, 'v) kvault \<Rightarrow> int \<Rightarrow> 's \<Rightarrow> 'v option" where
  "stored_task V i s = store_get V s (str_of_int i) None"

definition list_tasks :: "('s, 'v) kvault \<Rightarrow> 's \<Rightarrow> 'v list" where
  "list_tasks V s = store_values V s"

text \<open>\<^verbatim>\<open>[int(k) for k in self.keys()]\<close>\<close>

definition get_all_task_ids :: "('s, 'v) kvault \<Rightarrow> 's \<Rightarrow> int list option" where
  "get_all_task_ids V s =
     (let ids = map (int_of_str 10) (store_keys V s)
      in if None \<in> set ids then None else Some (map the ids))"

record vps_state =
  vp_task_id :: int
  vp_container :: string
  vp_ssh_port :: int
  vp_has_key :: bool
  vp_cores :: "int list"
  vp_gpus :: "int list"
  vp_numa :: "int option"

definition add_vps ::
  "('s, vps_state) kvault \<Rightarrow> int \<Rightarrow> string \<Rightarrow> int \<Rightarrow> bool \<Rightarrow> int list option \<Rightarrow> int list option \<Rightarrow> int option \<Rightarrow> 's \<Rightarrow> 's" where
  "add_vps V i c port key cores gpus numa =
     store_setitem V (str_of_int i)
       \<lparr>vp_task_id = i, vp_container = c, vp_ssh_port = port, vp_has_key = key,
        vp_cores = (case cores of None \<Rightarrow> [] | Some x \<Rightarrow> x), vp_gpus = (case gpus of None \<Rightarrow> [] | Some x \<Rightarrow> x),
        vp_numa = numa\<rparr>"

definition remove_vps :: "('s, 'v) kvault \<Rightarrow> int \<Rightarrow> 's \<Rightarrow> 'v option \<times> 's" where
  "remove_vps V i s = store_pop V (str_of_int i) None s"

definition get_vps_state :: "('s, 'v) kvault \<Rightarrow> int \<Rightarrow> 's \<Rightarrow> 'v option" where
  "get_vps_state V i s = store_get V s (str_of_int i) None"

definition list_vps :: "('s, 'v) kvault \<Rightarrow> 's \<Rightarrow> 'v list" where
  "list_vps V s = store_values V s"

definition add_paused :: "('s, int \<times> string) kvault \<Rightarrow> int \<Rightarrow> string \<Rightarrow> 's \<Rightarrow> 's" where
  "add_paused V i c = store_setitem V (str_of_int i) (i, c)"

definition remove_paused :: "('s, 'v) kvault \<Rightarrow> int \<Rightarrow> 's \<Rightarrow> 'v option \<times> 's" where
  "remove_paused V i s = store_pop V (str_of_int i) None s"

definition is_paused_task :: "('s, 'v) kvault \<Rightarrow> int \<Rightarrow> 's \<Rightarrow> bool" where
  "is_paused_task V i s = store_contains V s (str_of_int i)"

lemmas store_defs =
  store_getitem_def store_setitem_def store_delitem_def store_contains_def store_len_def store_get_def
  store_keys_def store_items_def store_values_def store_pop_def
  add_task_def remove_task_def stored_task_def list_tasks_def
  add_vps_def remove_vps_def get_vps_state_def list_vps_def add_paused_def remove_paused_def is_paused_task_def

section \<open>A store of tasks is a map from identifiers\<close>

text \<open>Every key is the text of a task identifier, which \<^verbatim>\<open>get_all_task_ids\<close> needs.\<close>

definition id_keys :: "('s, 'v) kvault \<Rightarrow> 's \<Rightarrow> bool" where
  "id_keys V s \<longleftrightarrow> (\<forall>k. kv_get V s k \<noteq> None \<longrightarrow> (\<exists>i. k = str_of_int i))"

context vault
begin

lemma put_task: "stored_task V j (store_setitem V (str_of_int i) v s) = (if j = i then Some v else stored_task V j s)"
  by (simp add: store_defs get_put split: option.split)

lemma remove_task_simps:
  "fst (remove_task V i s) = stored_task V i s"
  "stored_task V j (snd (remove_task V i s)) = (if j = i then None else stored_task V j s)"
  by (simp_all add: store_defs get_del split: option.split)

lemma id_keys_put: "id_keys V s \<Longrightarrow> id_keys V (store_setitem V (str_of_int i) v s)"
  by (auto simp: id_keys_def store_defs get_put)

lemma id_keys_remove: "id_keys V s \<Longrightarrow> id_keys V (snd (remove_task V i s))"
  by (auto simp: id_keys_def store_defs get_del split: option.split)

lemma all_task_ids:
  assumes "id_keys V s"
  shows "\<exists>ids. get_all_task_ids V s = Some ids \<and> distinct ids \<and> set ids = {i. stored_task V i s \<noteq> None} \<and>
           map str_of_int ids = kv_keys V s"
proof -
  let ?ids = "map (\<lambda>k. the (int_of_str 10 k)) (kv_keys V s)"
  have k: "\<exists>i. k = str_of_int i" if "k \<in> set (kv_keys V s)" for k
    using assms that by (auto simp: id_keys_def set_keys)
  have some: "int_of_str 10 k \<noteq> None" if "k \<in> set (kv_keys V s)" for k
    using k [OF that] by auto
  then have 1: "get_all_task_ids V s = Some ?ids"
    by (fastforce simp: get_all_task_ids_def store_keys_def Let_def comp_def image_iff)
  have keys: "map str_of_int ?ids = kv_keys V s"
    using k by (force intro: map_idI simp: comp_def)
  then have d: "distinct ?ids" using distinct_keys [of s] by (metis distinct_map)
  have "i \<in> set ?ids \<longleftrightarrow> str_of_int i \<in> set (kv_keys V s)" for i
    using k by (force simp: image_iff intro: rev_bexI)
  then have "set ?ids = {i. stored_task V i s \<noteq> None}"
    by (auto simp: set_keys store_defs split: option.splits)
  with 1 keys d show ?thesis by blast
qed

lemma items_get: "(k, v) \<in> set (store_items V s) \<longleftrightarrow> kv_get V s k = Some v"
  by (auto simp: store_items_def set_keys)

lemma items_keys: "map fst (store_items V s) = kv_keys V s"
  by (simp add: store_items_def comp_def)

lemma dels_get: "kv_get V (fold (\<lambda>k s. kv_del V s k) ks s) k = (if k \<in> set ks then None else kv_get V s k)"
  by (induction ks arbitrary: s) (auto simp: get_del)

lemma clear_get: "kv_get V (store_clear V s) k = None"
  using set_keys [of s] by (simp add: store_clear_def dels_get)

end

text \<open>A dictionary is such a library.\<close>

definition dict_vault :: "((string, 'v) dict, 'v) kvault" where
  "dict_vault = \<lparr>kv_get = map_of, kv_put = (\<lambda>s k v. AList.update k v (AList.clearjunk s)), kv_del = (\<lambda>s k. AList.delete k s),
     kv_keys = (\<lambda>s. remdups (map fst s))\<rparr>"

interpretation dict_vault: vault dict_vault
proof
  show "set (kv_keys dict_vault s) = {k. kv_get dict_vault s k \<noteq> None}" for s :: "(string, 'v) dict"
    by (auto simp: dict_vault_def dom_map_of_conv_image_fst [symmetric] dom_def)
qed (simp_all add: dict_vault_def get_delete update_conv' map_of_clearjunk)

lemma dict_vault_ok: "kvault_ok dict_vault"
  unfolding kvault_ok_def by (rule dict_vault.vault_axioms)

section \<open>Properties\<close>

text \<open>C26: the task store is the map from task identifiers to states that its interface promises,
  on top of any library that behaves as a dictionary.  Adding and removing act on that map and
  nothing else, removing hands back what was there, and the identifiers sent with a heartbeat are
  exactly those of the tasks in the store, each once.\<close>

theorem task_store_refines_map:
  assumes "kvault_ok V" "id_keys V s" "view = (\<lambda>s i. stored_task V i s)"
  shows "(\<exists>t. view (add_task V i c cores gpus numa s) = (view s)(i \<mapsto> t) \<and> ts_task_id t = i \<and> ts_container t = c) \<and>
    view (snd (remove_task V i s)) = (view s)(i := None) \<and> fst (remove_task V i s) = view s i \<and>
    (\<exists>ids. get_all_task_ids V s = Some ids \<and> distinct ids \<and> set ids = dom (view s)) \<and>
    id_keys V (add_task V i c cores gpus numa s) \<and> id_keys V (snd (remove_task V i s))"
proof -
  have v: "vault V" using assms(1) by (simp add: kvault_ok_def)
  have "view (add_task V i c cores gpus numa s) = (view s)(i \<mapsto>
      \<lparr>ts_task_id = i, ts_container = c, ts_cores = cores_or_empty cores,
       ts_gpus = (case gpus of None \<Rightarrow> [] | Some g \<Rightarrow> g), ts_numa = numa, ts_vm = None\<rparr>)"
    by (rule ext) (simp add: assms(3) add_task_def vault.put_task [OF v])
  moreover have "view (snd (remove_task V i s)) = (view s)(i := None)"
    by (rule ext) (simp add: assms(3) vault.remove_task_simps [OF v])
  moreover have "set ids = dom (view s) \<longleftrightarrow> set ids = {i. stored_task V i s \<noteq> None}" for ids
    by (simp add: assms(3) dom_def)
  ultimately show ?thesis
    using vault.all_task_ids [OF v assms(2)] vault.remove_task_simps(1) [OF v, of i s]
      vault.id_keys_put [OF v assms(2)] vault.id_keys_remove [OF v assms(2)]
    by (auto simp: assms(3) add_task_def)
qed

lemma task_store_refines_map_witness:
  "id_keys dict_vault (add_task dict_vault 7 ''c'' None None None []) \<and>
   get_all_task_ids dict_vault (add_task dict_vault 7 ''c'' None None None []) = Some [7]"
proof -
  have e: "id_keys dict_vault ([] :: (string, task_state) dict)" by (simp add: id_keys_def dict_vault_def)
  from task_store_refines_map [OF dict_vault_ok this refl, of 7 "''c''" None None None]
  have "id_keys dict_vault (add_task dict_vault 7 ''c'' None None None [])" by blast
  moreover have "get_all_task_ids dict_vault (add_task dict_vault 7 ''c'' None None None []) = Some [7]" by code_simp
  ultimately show ?thesis by blast
qed

end
