(* ===== verification/Container_Commands.thy ===== *)
theory Container_Commands
  imports Runner_Config Shell_Words Vault_Store
begin

text \<open>
  The \<^verbatim>\<open>docker run\<close> command lines the runner starts containers with
  (\<^verbatim>\<open>build_docker_run_command\<close> and \<^verbatim>\<open>_build_task_env\<close> in \<^verbatim>\<open>runner/services/task_executor.py\<close>,
  \<^verbatim>\<open>_build_vps_docker_command\<close> in \<^verbatim>\<open>runner/services/vps_creation.py\<close>), the NUMA prefix
  (\<^verbatim>\<open>runner/numa/detector.py\<close>) and the tunnel client's start
  (\<^verbatim>\<open>runner/services/tunnel_helper.py\<close>).  \<open>tp\<close> is the value of \<^verbatim>\<open>config.get_tunnel_client_path()\<close>.
\<close>

text \<open>The two quote characters around a text.\<close>

definition in_single :: "string \<Rightarrow> string" where "in_single s = CHR 0x27 # s @ [CHR 0x27]"
definition in_double :: "string \<Rightarrow> string" where "in_double s = CHR 0x22 # s @ [CHR 0x22]"

section \<open>The tunnel client\<close>

definition TUNNEL_CLIENT_CONTAINER_PATH :: string where
  "TUNNEL_CLIENT_CONTAINER_PATH = ''/usr/local/bin/tunnel-client''"

definition TUNNEL_LOG_PATH :: string where
  "TUNNEL_LOG_PATH = ''/tmp/tunnel-client.log''"

definition get_tunnel_mount :: "string option \<Rightarrow> string option" where
  "get_tunnel_mount tp = (if truthy tp then Some (the tp @ '':'' @ TUNNEL_CLIENT_CONTAINER_PATH @ '':ro'') else None)"

definition get_tunnel_env_vars :: "runner_config \<Rightarrow> string \<Rightarrow> (string, string) dict" where
  "get_tunnel_env_vars cfg container_id =
     (if \<not> TUNNEL_ENABLED cfg then []
      else [(''KOHAKURIVER_TUNNEL_URL'', get_runner_ws_url cfg), (''KOHAKURIVER_CONTAINER_ID'', container_id)])"

definition tunnel_start :: string where
  "tunnel_start =
     ''(nohup '' @ TUNNEL_CLIENT_CONTAINER_PATH @ '' --runner-url '' @ in_double ''$KOHAKURIVER_TUNNEL_URL'' @
     '' --container-id '' @ in_double ''$KOHAKURIVER_CONTAINER_ID'' @ '' --log-level info > '' @ TUNNEL_LOG_PATH @
     '' 2>&1 &) && sleep 0.1''"

definition wrap_command_with_tunnel :: "runner_config \<Rightarrow> string option \<Rightarrow> string \<Rightarrow> string" where
  "wrap_command_with_tunnel cfg tp shell_cmd =
     (if \<not> TUNNEL_ENABLED cfg \<or> \<not> truthy tp then shell_cmd else tunnel_start @ '' && '' @ shell_cmd)"

section \<open>NUMA\<close>

text \<open>Of the detected topology only its node ids matter.\<close>

definition get_numa_prefix :: "runner_config \<Rightarrow> int option \<Rightarrow> int list option \<Rightarrow> string" where
  "get_numa_prefix cfg numa topology =
     (case numa of
        None \<Rightarrow> ''''
      | Some n \<Rightarrow>
          if NUMACTL_PATH cfg = [] then ''''
          else case topology of
                 None \<Rightarrow> ''''
               | Some ids \<Rightarrow>
                   if n \<notin> set ids then ''''
                   else NUMACTL_PATH cfg @ '' --cpunodebind='' @ str_of_int n @ '' --membind='' @ str_of_int n)"

section \<open>Parts of a command line\<close>

text \<open>A mount specification \<^verbatim>\<open>host:container[:option...]\<close>; others are skipped.\<close>

definition mount_flags :: "string list \<Rightarrow> string list" where
  "mount_flags mounts =
     concat (map (\<lambda>m. case split_on CHR '':'' m of
         host # container # options \<Rightarrow>
           [''--mount'', ''type=bind,source='' @ host @ '',target='' @ container @
              (if options = [] then '''' else '','' @ join_on CHR '','' options)]
       | _ \<Rightarrow> []) mounts)"

definition env_flags :: "(string, string) dict \<Rightarrow> string list" where
  "env_flags env = concat (map (\<lambda>(k, v). [''-e'', k @ ''='' @ v]) env)"

text \<open>\<^verbatim>\<open>f"{n / d:.0f}"\<close> for \<open>n\<close> whose quotient is a double: ties go to the even neighbour.\<close>

definition round_half_even :: "int \<Rightarrow> int \<Rightarrow> int" where
  "round_half_even n d =
     (let q = n div d; r = n mod d
      in if 2 * r < d then q else if d < 2 * r then q + 1 else if even q then q else q + 1)"

definition memory_mb :: "int \<Rightarrow> string" where
  "memory_mb bytes = str_of_int (round_half_even bytes (1024 * 1024)) @ ''m''"

definition gpu_flag :: "int list \<Rightarrow> string list" where
  "gpu_flag gpus =
     (if gpus = [] then [] else [''--gpus'', in_double (''device='' @ join_on CHR '','' (map str_of_int gpus))])"

definition privilege_flags :: "bool \<Rightarrow> string list" where
  "privilege_flags p = (if p then [''--privileged''] else [''--cap-add'', ''SYS_NICE''])"

definition flag_if :: "bool \<Rightarrow> string \<Rightarrow> string \<Rightarrow> string list" where
  "flag_if b opt v = (if b then [opt, v] else [])"

section \<open>Tasks\<close>

definition build_task_env :: "runner_config \<Rightarrow> int \<Rightarrow> (string, string) dict \<Rightarrow> int option \<Rightarrow> (string, string) dict" where
  "build_task_env cfg i env numa =
     (let e = AList.update ''KOHAKURIVER_SHARED_DIR'' (SHARED_DIR cfg)
                (AList.update ''KOHAKURIVER_LOCAL_TEMP_DIR'' (LOCAL_TEMP_DIR cfg)
                  (AList.update ''KOHAKURIVER_TASK_ID'' (str_of_int i) env))
      in case numa of None \<Rightarrow> e | Some n \<Rightarrow> AList.update ''KOHAKURIVER_TARGET_NUMA_NODE'' (str_of_int n) e)"

text \<open>The program and its quoted arguments, bound to a NUMA node if asked for.\<close>

definition inner_command :: "string \<Rightarrow> string \<Rightarrow> string list \<Rightarrow> string" where
  "inner_command numa_prefix command arguments =
     (let args_str = join_on CHR '' '' (map shlex_quote arguments)
      in strip ((if numa_prefix \<noteq> [] then numa_prefix @ '' '' else '''') @ command @ '' '' @ args_str))"

definition shell_command :: "string \<Rightarrow> string \<Rightarrow> string \<Rightarrow> string" where
  "shell_command inner out err = ''exec '' @ inner @ '' > '' @ shlex_quote out @ '' 2> '' @ shlex_quote err"

definition task_mounts :: "runner_config \<Rightarrow> string option \<Rightarrow> string list" where
  "task_mounts cfg tp =
     [SHARED_DIR cfg @ ''/shared_data:/shared'', SHARED_DIR cfg @ ''/logs:/kohakuriver-logs'',
      LOCAL_TEMP_DIR cfg @ '':/local_temp''] @ ADDITIONAL_MOUNTS cfg @
     (case get_tunnel_mount tp of None \<Rightarrow> [] | Some m \<Rightarrow> [m])"

record run_request =
  rr_task_id :: int
  rr_image :: string
  rr_command :: string
  rr_arguments :: "string list"
  rr_working_dir :: string
  rr_stdout :: string
  rr_stderr :: string
  rr_numa_prefix :: string
  rr_cores :: int
  rr_memory :: "int option"
  rr_gpus :: "int list"
  rr_env :: "(string, string) dict"
  rr_privileged :: bool
  rr_reserved_ip :: "string option"
  rr_network :: "string option"

definition build_docker_run_command :: "runner_config \<Rightarrow> string option \<Rightarrow> run_request \<Rightarrow> string list res" where
  "build_docker_run_command cfg tp r =
     bind_res (get_container_network (rr_network r) cfg) (\<lambda>net.
       let full = task_container_name (rr_task_id r) in
       Inr ([''docker'', ''run'', ''--rm'', ''--name'', full, ''--network'', net] @
         flag_if (truthy (rr_reserved_ip r)) ''--ip'' (the (rr_reserved_ip r)) @
         privilege_flags (rr_privileged r) @
         mount_flags (task_mounts cfg tp) @
         flag_if (rr_working_dir r \<noteq> []) ''--workdir'' (rr_working_dir r) @
         flag_if (rr_cores r > 0) ''--cpus'' (str_of_int (rr_cores r)) @
         flag_if (rr_memory r \<noteq> None \<and> the (rr_memory r) > 0) ''--memory'' (memory_mb (the (rr_memory r))) @
         gpu_flag (rr_gpus r) @
         env_flags (rr_env r) @ env_flags (get_tunnel_env_vars cfg full) @
         [rr_image r, ''/bin/sh'', ''-c'',
          wrap_command_with_tunnel cfg tp
            (shell_command (inner_command (rr_numa_prefix r) (rr_command r) (rr_arguments r)) (rr_stdout r) (rr_stderr r))]))"

section \<open>VPS\<close>

definition has_substring :: "string \<Rightarrow> string \<Rightarrow> bool" where
  "has_substring p s \<longleftrightarrow> list_ex (\<lambda>i. startswith (drop i s) p) [0..<Suc (length s)]"

definition detect_package_manager :: "string \<Rightarrow> string" where
  "detect_package_manager img =
     (let l = lower img;
          pkg_map = [([''alpine''], ''apk''), ([''ubuntu'', ''debian''], ''apt''), ([''fedora''], ''dnf''),
                     ([''centos'', ''rhel'', ''redhat'', ''rocky'', ''alma''], ''yum''),
                     ([''opensuse'', ''suse''], ''zypper''), ([''arch''], ''pacman'')]
      in case find (\<lambda>(kws, m). list_ex (\<lambda>k. has_substring k l) kws) pkg_map of
           Some (kws, m) \<Rightarrow> m
         | None \<Rightarrow> ''apt'')"

definition get_ssh_install_cmd :: "string \<Rightarrow> string" where
  "get_ssh_install_cmd m =
     (if m = ''apk'' then ''apk update && apk add --no-cache openssh''
      else if m = ''apt'' then ''apt update && apt install -y openssh-server''
      else if m = ''dnf'' then ''dnf install -y openssh-server''
      else if m = ''yum'' then ''yum install -y openssh-server''
      else if m = ''zypper'' then ''zypper refresh && zypper install -y openssh''
      else if m = ''pacman'' then ''pacman -Syu --noconfirm openssh''
      else ''apt update && apt install -y openssh-server'')"

definition sshd_line :: "string \<Rightarrow> string" where
  "sshd_line setting = ''echo '' @ in_single setting @ '' >> /etc/ssh/sshd_config && ''"

text \<open>The command that writes the key: it stands between quotes as it is.\<close>

definition authorize_command :: "string \<Rightarrow> string" where
  "authorize_command key = ''echo '' @ in_single key"

definition vps_setup_command :: "string \<Rightarrow> string \<Rightarrow> string option \<Rightarrow> string res" where
  "vps_setup_command img mode key =
     (let install = get_ssh_install_cmd (detect_package_manager img) @ '' && ssh-keygen -A && ''
      in if mode = ''disabled'' then Inr ''tail -f /dev/null''
         else if mode = ''none''
         then Inr (install @ sshd_line ''PasswordAuthentication yes'' @ sshd_line ''PermitRootLogin yes'' @
                   sshd_line ''PermitEmptyPasswords yes'' @
                   ''passwd -d root && mkdir -p /run/sshd && chmod 0755 /run/sshd && /usr/sbin/sshd -D -e'')
         else if mode \<in> {''upload'', ''generate''}
         then (if \<not> truthy key then Inl (ValueError (''ssh_public_key required for mode '' @ mode))
               else Inr (install @ sshd_line ''PasswordAuthentication no'' @ sshd_line ''PermitRootLogin yes'' @
                   ''mkdir -p /run/sshd && chmod 0755 /run/sshd && mkdir -p /root/.ssh && '' @
                   authorize_command (the key) @ '' > /root/.ssh/authorized_keys && '' @
                   ''chmod 700 /root/.ssh && chmod 600 /root/.ssh/authorized_keys && /usr/sbin/sshd -D -e''))
         else Inl (ValueError (''Invalid ssh_key_mode: '' @ mode)))"

record vps_run_request =
  vr_task_id :: int
  vr_image :: string
  vr_key_mode :: string
  vr_public_key :: "string option"
  vr_mounts :: "string list"
  vr_working_dir :: string
  vr_cores :: int
  vr_memory :: "int option"
  vr_gpus :: "int list"
  vr_privileged :: bool
  vr_reserved_ip :: "string option"
  vr_network :: "string option"

definition build_vps_docker_command :: "runner_config \<Rightarrow> string option \<Rightarrow> vps_run_request \<Rightarrow> string list res" where
  "build_vps_docker_command cfg tp r =
     bind_res (get_container_network (vr_network r) cfg) (\<lambda>net.
     bind_res (vps_setup_command (vr_image r) (vr_key_mode r) (vr_public_key r)) (\<lambda>setup.
       let full = vps_container_name (vr_task_id r) in
       Inr ([''docker'', ''run'', ''--restart'', ''unless-stopped'', ''-d'', ''--name'', full, ''--network'', net] @
         flag_if (truthy (vr_reserved_ip r)) ''--ip'' (the (vr_reserved_ip r)) @
         flag_if (vr_key_mode r \<noteq> ''disabled'') ''-p'' ''0:22'' @
         privilege_flags (vr_privileged r) @
         mount_flags (vr_mounts r) @
         flag_if (vr_working_dir r \<noteq> []) ''--workdir'' (vr_working_dir r) @
         flag_if (vr_cores r > 0) ''--cpus'' (str_of_int (vr_cores r)) @
         flag_if (vr_memory r \<noteq> None \<and> vr_memory r \<noteq> Some 0) ''--memory'' (str_of_int (the (vr_memory r))) @
         gpu_flag (vr_gpus r) @
         env_flags (get_tunnel_env_vars cfg full) @
         [vr_image r, ''/bin/sh'', ''-c'', wrap_command_with_tunnel cfg tp setup])))"

definition vps_mounts :: "runner_config \<Rightarrow> string option \<Rightarrow> string list" where
  "vps_mounts cfg tp =
     [SHARED_DIR cfg @ ''/shared_data:/shared'', LOCAL_TEMP_DIR cfg @ '':/local_temp''] @ ADDITIONAL_MOUNTS cfg @
     (case get_tunnel_mount tp of None \<Rightarrow> [] | Some m \<Rightarrow> [m])"

end
