(* ===== verification/Command_Properties.thy ===== *)
theory Command_Properties
  imports Container_Commands
begin

text \<open>
  What Docker and the shell make of the command lines of \<^verbatim>\<open>Container_Commands\<close>.  \<open>docker_run_args\<close> is
  the specification of Docker's side: it reads options until the first word that is none, which is the
  image, and leaves the rest as the container's command.
\<close>

section \<open>How Docker reads a command line\<close>

record run_spec =
  sp_flags :: "string list"
  sp_opts :: "(string \<times> string) list"
  sp_image :: string
  sp_command :: "string list"

definition run_flags :: "string list" where
  "run_flags = [''--rm'', ''-d'', ''--privileged'']"

definition run_options :: "string list" where
  "run_options = [''--name'', ''--network'', ''--ip'', ''--cap-add'', ''--mount'', ''--workdir'', ''--cpus'', ''--memory'',
     ''--gpus'', ''-e'', ''-p'', ''--restart'']"

fun docker_run_args :: "string list \<Rightarrow> run_spec \<Rightarrow> run_spec option" where
  "docker_run_args [] s = None"
| "docker_run_args [x] s =
     (if x \<in> set run_flags \<or> startswith x ''-'' then None else Some (s\<lparr>sp_image := x, sp_command := []\<rparr>))"
| "docker_run_args (x # y # xs) s =
     (if x \<in> set run_flags then docker_run_args (y # xs) (s\<lparr>sp_flags := sp_flags s @ [x]\<rparr>)
      else if x \<in> set run_options then docker_run_args xs (s\<lparr>sp_opts := sp_opts s @ [(x, y)]\<rparr>)
      else if startswith x ''-'' then None
      else Some (s\<lparr>sp_image := x, sp_command := y # xs\<rparr>))"

definition docker_reads :: "string list \<Rightarrow> run_spec option" where
  "docker_reads cmd =
     (case cmd of
        d # r # xs \<Rightarrow>
          if d = ''docker'' \<and> r = ''run''
          then docker_run_args xs \<lparr>sp_flags = [], sp_opts = [], sp_image = [], sp_command = []\<rparr> else None
      | _ \<Rightarrow> None)"

text \<open>Options with values, one after the other.\<close>

definition opt_words :: "(string \<times> string) list \<Rightarrow> string list" where
  "opt_words os = concat (map (\<lambda>(k, v). [k, v]) os)"

lemma opt_words_simps [simp]:
  "opt_words [] = []" "opt_words ((k, v) # os) = k # v # opt_words os" "opt_words (os @ os') = opt_words os @ opt_words os'"
  by (simp_all add: opt_words_def)

lemma read_opts:
  "set (map fst os) \<subseteq> set run_options \<Longrightarrow> set (map fst os) \<inter> set run_flags = {} \<Longrightarrow>
   docker_run_args (opt_words os @ xs) s = docker_run_args xs (s\<lparr>sp_opts := sp_opts s @ os\<rparr>)"
  by (induction os arbitrary: s) auto

lemma read_flag: "x \<in> set run_flags \<Longrightarrow> xs \<noteq> [] \<Longrightarrow>
    docker_run_args (x # xs) s = docker_run_args xs (s\<lparr>sp_flags := sp_flags s @ [x]\<rparr>)"
  by (cases xs) auto

lemma dash_cases: "x \<in> set run_flags \<or> x \<in> set run_options \<Longrightarrow> startswith x ''-''"
  by (auto simp: run_flags_def run_options_def)

lemma read_image: "\<not> startswith x ''-'' \<Longrightarrow> xs \<noteq> [] \<Longrightarrow>
    docker_run_args (x # xs) s = Some (s\<lparr>sp_image := x, sp_command := xs\<rparr>)"
  using dash_cases [of x] by (cases xs) auto

section \<open>The parts as options\<close>

definition mount_opts :: "string list \<Rightarrow> (string \<times> string) list" where
  "mount_opts mounts =
     concat (map (\<lambda>m. case split_on CHR '':'' m of
         host # container # options \<Rightarrow>
           [(''--mount'', ''type=bind,source='' @ host @ '',target='' @ container @
              (if options = [] then '''' else '','' @ join_on CHR '','' options))]
       | _ \<Rightarrow> []) mounts)"

definition env_opts :: "(string, string) dict \<Rightarrow> (string \<times> string) list" where
  "env_opts env = map (\<lambda>(k, v). (''-e'', k @ ''='' @ v)) env"

definition opt_if :: "bool \<Rightarrow> string \<Rightarrow> string \<Rightarrow> (string \<times> string) list" where
  "opt_if b k v = (if b then [(k, v)] else [])"

lemma flags_as_opts:
  "mount_flags ms = opt_words (mount_opts ms)"
  "env_flags env = opt_words (env_opts env)"
  "flag_if b k v = opt_words (opt_if b k v)"
  "gpu_flag gs = opt_words (opt_if (gs \<noteq> []) ''--gpus'' (in_double (''device='' @ join_on CHR '','' (map str_of_int gs))))"
proof -
  show "mount_flags ms = opt_words (mount_opts ms)"
    by (induction ms) (auto simp: mount_flags_def mount_opts_def split: list.split)
  show "env_flags env = opt_words (env_opts env)"
    by (induction env) (auto simp: env_flags_def env_opts_def)
qed (simp_all add: flag_if_def opt_if_def gpu_flag_def)

lemma keys_of_opts:
  "set (map fst (mount_opts ms)) \<subseteq> {''--mount''}"
  "set (map fst (env_opts env)) \<subseteq> {''-e''}"
  "set (map fst (opt_if b k v)) \<subseteq> {k}"
  by (auto simp: mount_opts_def env_opts_def opt_if_def split: list.splits)

definition task_opts :: "runner_config \<Rightarrow> string option \<Rightarrow> string \<Rightarrow> run_request \<Rightarrow> (string \<times> string) list" where
  "task_opts cfg tp net r =
     [(''--name'', task_container_name (rr_task_id r)), (''--network'', net)] @
     opt_if (truthy (rr_reserved_ip r)) ''--ip'' (the (rr_reserved_ip r)) @
     opt_if (\<not> rr_privileged r) ''--cap-add'' ''SYS_NICE'' @
     mount_opts (task_mounts cfg tp) @
     opt_if (rr_working_dir r \<noteq> []) ''--workdir'' (rr_working_dir r) @
     opt_if (rr_cores r > 0) ''--cpus'' (str_of_int (rr_cores r)) @
     opt_if (rr_memory r \<noteq> None \<and> the (rr_memory r) > 0) ''--memory'' (memory_mb (the (rr_memory r))) @
     opt_if (rr_gpus r \<noteq> []) ''--gpus'' (in_double (''device='' @ join_on CHR '','' (map str_of_int (rr_gpus r)))) @
     env_opts (rr_env r) @ env_opts (get_tunnel_env_vars cfg (task_container_name (rr_task_id r)))"

definition vps_opts :: "runner_config \<Rightarrow> string \<Rightarrow> vps_run_request \<Rightarrow> (string \<times> string) list" where
  "vps_opts cfg net r =
     [(''--restart'', ''unless-stopped''), (''--name'', vps_container_name (vr_task_id r)), (''--network'', net)] @
     opt_if (truthy (vr_reserved_ip r)) ''--ip'' (the (vr_reserved_ip r)) @
     opt_if (vr_key_mode r \<noteq> ''disabled'') ''-p'' ''0:22'' @
     opt_if (\<not> vr_privileged r) ''--cap-add'' ''SYS_NICE'' @
     mount_opts (vr_mounts r) @
     opt_if (vr_working_dir r \<noteq> []) ''--workdir'' (vr_working_dir r) @
     opt_if (vr_cores r > 0) ''--cpus'' (str_of_int (vr_cores r)) @
     opt_if (vr_memory r \<noteq> None \<and> vr_memory r \<noteq> Some 0) ''--memory'' (str_of_int (the (vr_memory r))) @
     opt_if (vr_gpus r \<noteq> []) ''--gpus'' (in_double (''device='' @ join_on CHR '','' (map str_of_int (vr_gpus r)))) @
     env_opts (get_tunnel_env_vars cfg (vps_container_name (vr_task_id r)))"

text \<open>All keys are options of Docker.\<close>

definition known_opts :: "(string \<times> string) list \<Rightarrow> bool" where
  "known_opts os \<longleftrightarrow> list_all (\<lambda>(k, v). k \<in> set run_options \<and> k \<notin> set run_flags) os"

lemma known_opts_simps [simp]:
  "known_opts []" "known_opts (os @ os') \<longleftrightarrow> known_opts os \<and> known_opts os'"
  "known_opts ((k, v) # os) \<longleftrightarrow> k \<in> set run_options \<and> k \<notin> set run_flags \<and> known_opts os"
  by (simp_all add: known_opts_def)

lemma known_parts:
  "known_opts (mount_opts ms)" "known_opts (env_opts env)"
  "k \<in> set run_options \<Longrightarrow> k \<notin> set run_flags \<Longrightarrow> known_opts (opt_if b k v)"
proof -
  show "known_opts (mount_opts ms)"
    by (induction ms) (auto simp: mount_opts_def known_opts_def run_options_def run_flags_def split: list.split)
  show "known_opts (env_opts env)"
    by (induction env) (auto simp: env_opts_def known_opts_def run_options_def run_flags_def)
qed (simp add: opt_if_def)

lemma option_keys:
  "k \<in> {''--name'', ''--network'', ''--ip'', ''--cap-add'', ''--mount'', ''--workdir'', ''--cpus'', ''--memory'', ''--gpus'', ''-e'', ''-p'', ''--restart''}
   \<Longrightarrow> k \<in> set run_options \<and> k \<notin> set run_flags"
  by (auto simp: run_options_def run_flags_def)

lemma read_known: "known_opts os \<Longrightarrow>
    docker_run_args (opt_words os @ xs) s = docker_run_args xs (s\<lparr>sp_opts := sp_opts s @ os\<rparr>)"
  by (rule read_opts) (auto simp: known_opts_def list_all_iff)

text \<open>Options, the privilege flag or capability, more options, the image and the command.\<close>

lemma read_whole:
  assumes "known_opts os" "known_opts os'" "\<not> startswith img ''-''" "cmd \<noteq> []"
  shows "docker_run_args (opt_words os @ privilege_flags p @ opt_words os' @ img # cmd) s =
    Some (s\<lparr>sp_flags := sp_flags s @ (if p then [''--privileged''] else []),
            sp_opts := sp_opts s @ os @ opt_if (\<not> p) ''--cap-add'' ''SYS_NICE'' @ os',
            sp_image := img, sp_command := cmd\<rparr>)"
proof (cases p)
  case True
  have "docker_run_args (''--privileged'' # opt_words os' @ img # cmd) s' =
      docker_run_args (opt_words os' @ img # cmd) (s'\<lparr>sp_flags := sp_flags s' @ [''--privileged'']\<rparr>)" for s'
    by (rule read_flag) (simp_all add: run_flags_def)
  then show ?thesis using True assms by (simp add: read_known privilege_flags_def opt_if_def read_image del: docker_run_args.simps)
next
  case False
  have "docker_run_args (opt_words [(''--cap-add'', ''SYS_NICE'')] @ opt_words os' @ img # cmd) s' =
      docker_run_args (opt_words os' @ img # cmd) (s'\<lparr>sp_opts := sp_opts s' @ [(''--cap-add'', ''SYS_NICE'')]\<rparr>)" for s'
    by (rule read_known) (simp add: option_keys)
  then show ?thesis using False assms by (simp add: read_known privilege_flags_def opt_if_def read_image del: docker_run_args.simps)
qed

lemma read_line:
  assumes "known_opts o0" "known_opts os" "known_opts os'" "\<not> startswith img ''-''" "cmd \<noteq> []" "f \<in> set run_flags"
  shows "docker_reads (''docker'' # ''run'' # opt_words o0 @ f # opt_words os @ privilege_flags p @ opt_words os' @ img # cmd) =
    Some \<lparr>sp_flags = f # (if p then [''--privileged''] else []), sp_opts = o0 @ os @ opt_if (\<not> p) ''--cap-add'' ''SYS_NICE'' @ os',
          sp_image = img, sp_command = cmd\<rparr>"
proof -
  have "docker_run_args (f # opt_words os @ privilege_flags p @ opt_words os' @ img # cmd) s' =
      docker_run_args (opt_words os @ privilege_flags p @ opt_words os' @ img # cmd) (s'\<lparr>sp_flags := sp_flags s' @ [f]\<rparr>)" for s'
    by (rule read_flag) (simp_all add: assms(6))
  then show ?thesis using assms(1-5) read_whole [OF assms(2-5), of p]
    by (simp add: docker_reads_def read_known [OF assms(1)] del: docker_run_args.simps)
qed

text \<open>The image is a word without a dash in front, so an image that starts with one is not read as such.\<close>

lemma image_has_no_dash: "docker_run_args xs s = Some sp \<Longrightarrow> \<not> startswith (sp_image sp) ''-''"
  by (induction xs s rule: docker_run_args.induct) (auto split: if_splits)

lemma dashed_image_unread: "startswith img ''-'' \<Longrightarrow> map_option sp_image (docker_reads cmd) \<noteq> Some img"
  using image_has_no_dash by (auto simp: docker_reads_def split: list.splits if_splits)

section \<open>Properties\<close>


definition demo_run :: run_request where
  "demo_run = \<lparr>rr_task_id = 5, rr_image = ''ubuntu'', rr_command = ''ls'', rr_arguments = [''a b''], rr_working_dir = ''/shared'',
     rr_stdout = ''/o'', rr_stderr = ''/e'', rr_numa_prefix = '''', rr_cores = 2, rr_memory = None, rr_gpus = [],
     rr_env = [(''A'', ''--privileged'')], rr_privileged = False, rr_reserved_ip = None, rr_network = None\<rparr>"


section \<open>Words of the shell\<close>

lemma not_space_chars: "\<not> is_space CHR 0x27" "\<not> is_space CHR 0x22" "c \<in> set ''_@%+=:,./-'' \<Longrightarrow> \<not> is_space c"
  by (auto simp: is_space_def of_char_def)

lemma safe_no_space: "safe_char c \<Longrightarrow> \<not> is_space c"
proof (cases "is_alnum_char c")
  case True
  then show ?thesis by (auto simp: is_alnum_char_def is_space_def Let_def)
next
  case False
  moreover assume "safe_char c"
  ultimately show ?thesis using not_space_chars(3) [of c] by (simp add: safe_char_def)
qed

lemma read_trailing:
  "is_space c \<Longrightarrow> read_words st (s @ [c]) = Some ws \<Longrightarrow> read_words st s = Some ws"
proof (induction st s arbitrary: ws rule: read_words.induct)
  case 1
  then show ?case by (auto simp: not_space_chars split: if_splits dest: safe_no_space)
next
  case (2 w)
  then show ?case by (auto simp: not_space_chars split: if_splits dest: safe_no_space)
qed (auto simp: not_space_chars split: if_splits)

lemma words_of_strip: "plain_words s = Some ws \<Longrightarrow> plain_words (strip s) = Some ws"
proof -
  have lead: "read_words Between s = Some ws \<Longrightarrow> read_words Between (dropWhile is_space s) = Some ws" for s ws
  proof (induction s)
    case (Cons c s)
    show ?case
    proof (cases "is_space c")
      case True
      then have "c = CHR '' ''" using Cons.prems by (auto simp: not_space_chars dest: safe_no_space split: if_splits)
      then show ?thesis using Cons True by simp
    qed (use Cons.prems in simp)
  qed simp
  have trail: "read_words Between (rev s) = Some ws \<Longrightarrow> read_words Between (rev (dropWhile is_space s)) = Some ws" for s ws
  proof (induction s)
    case (Cons c s)
    then show ?case using read_trailing [of c Between "rev s" ws] by (cases "is_space c") simp_all
  qed simp
  show "plain_words s = Some ws \<Longrightarrow> plain_words (strip s) = Some ws"
    unfolding plain_words_def strip_def by (rule trail) (simp add: lead)
qed

lemma safe_str_of_int: "list_all safe_char (str_of_int i)"
proof -
  have "list_all safe_char (str_of_nat n)" for n
    using isdigit_str_of_nat [of n]
    by (auto simp: isdigit_def list_all_iff safe_char_def is_alnum_char_def is_digit_char_def Let_def)
  then show ?thesis by (simp add: str_of_int_def) (simp add: safe_char_def)
qed

text \<open>C31: a program gets its arguments word for word.  If the program is a plain word (and so is the path of
  \<^verbatim>\<open>numactl\<close>), which is not quoted and not checked, then what \<^verbatim>\<open>/bin/sh\<close> reads in the inner command of the
  task, without the redirections and the start of the tunnel around it, is the program followed by exactly
  the arguments submitted, whatever characters they contain, after the words that bind it to a NUMA node
  when one was asked for and exists.\<close>

theorem task_arguments_verbatim:
  assumes "command \<noteq> []" "list_all safe_char command" "list_all safe_char (NUMACTL_PATH cfg)"
  shows "plain_words (inner_command (get_numa_prefix cfg numa topology) command arguments) =
    Some ((case (numa, topology) of
        (Some n, Some ids) \<Rightarrow> if n \<in> set ids \<and> NUMACTL_PATH cfg \<noteq> []
          then [NUMACTL_PATH cfg, ''--cpunodebind='' @ str_of_int n, ''--membind='' @ str_of_int n] else []
      | _ \<Rightarrow> []) @ command # arguments)"
proof -
  let ?rest = "command @ '' '' @ join_on CHR '' '' (map shlex_quote arguments)"
  have rest: "read_words Between ?rest = Some (command # arguments)"
    using assms(1,2) plain_words_quoted [of arguments] by (simp add: read_plain_then plain_words_def)
  have numa: "read_words Between (NUMACTL_PATH cfg @ '' --cpunodebind='' @ str_of_int n @ '' --membind='' @ str_of_int n @ '' '' @ t) =
      map_option (\<lambda>ws. NUMACTL_PATH cfg # (''--cpunodebind='' @ str_of_int n) # (''--membind='' @ str_of_int n) # ws) (read_words Between t)"
    if "NUMACTL_PATH cfg \<noteq> []" for n t
  proof -
    have 1: "read_words Between (''--membind='' @ str_of_int n @ '' '' @ t) =
        map_option (\<lambda>ws. (''--membind='' @ str_of_int n) # ws) (read_words Between t)"
      using read_plain_then [of "''--membind='' @ str_of_int n" t] by (simp add: safe_str_of_int safe_char_def is_alnum_char_def del: str_of_int_nat)
    have 2: "read_words Between (''--cpunodebind='' @ str_of_int n @ '' '' @ t') =
        map_option (\<lambda>ws. (''--cpunodebind='' @ str_of_int n) # ws) (read_words Between t')" for t'
      using read_plain_then [of "''--cpunodebind='' @ str_of_int n" t'] by (simp add: safe_str_of_int safe_char_def is_alnum_char_def del: str_of_int_nat)
    show ?thesis using read_plain_then [OF that assms(3), of "''--cpunodebind='' @ str_of_int n @ '' '' @ ''--membind='' @ str_of_int n @ '' '' @ t"]
      1 2 [of "''--membind='' @ str_of_int n @ '' '' @ t"] by (simp add: option.map_comp comp_def)
  qed
  show ?thesis unfolding inner_command_def Let_def
    by (rule words_of_strip) (use rest numa [of _ ?rest] in \<open>auto simp: plain_words_def get_numa_prefix_def split: option.split\<close>)
qed

lemma task_arguments_verbatim_witness:
  "plain_words (inner_command (get_numa_prefix demo_runner (Some 1) (Some [0, 1])) ''python'' [''-c'', ''print(1); $HOME'']) =
    Some [''/usr/bin/numactl'', ''--cpunodebind=1'', ''--membind=1'', ''python'', ''-c'', ''print(1); $HOME'']"
proof -
  have h: "''python'' \<noteq> []" "list_all safe_char ''python''" "list_all safe_char (NUMACTL_PATH demo_runner)" by code_simp+
  have s: "str_of_int 1 = ''1''" by code_simp
  show ?thesis using task_arguments_verbatim [OF h, of "Some 1" "Some [0, 1]" "[''-c'', ''print(1); $HOME'']"]
    by (simp add: s demo_runner_def del: str_of_int_nat)
qed

text \<open>The key of a VPS is written between single quotes without escaping.  A key with no quote
  character reaches \<^verbatim>\<open>echo\<close> as one word; but a key that closes the quote goes on in the shell, here with
  a second word of its own choice.\<close>

theorem ssh_key_leaves_quotes:
  assumes "CHR 0x27 \<notin> set key" "CHR 0x27 \<notin> set rest"
  shows "plain_words (authorize_command key) = Some [''echo'', key] \<and>
    plain_words (authorize_command (key @ [CHR 0x27, CHR '' '', CHR 0x27] @ rest)) = Some [''echo'', key, rest]"
proof -
  have echo: "read_words Between (''echo '' @ t) = map_option (\<lambda>ws. ''echo'' # ws) (read_words Between t)" for t
    using read_plain_then [of "''echo''" t] by (simp add: safe_char_def is_alnum_char_def of_char_def)
  have "authorize_command (key @ [CHR 0x27, CHR '' '', CHR 0x27] @ rest) =
      ''echo '' @ (CHR 0x27 # key @ CHR 0x27 # CHR '' '' # CHR 0x27 # rest @ [CHR 0x27])"
    by (simp add: authorize_command_def in_single_def)
  moreover have "authorize_command key = ''echo '' @ (CHR 0x27 # key @ [CHR 0x27])"
    by (simp add: authorize_command_def in_single_def)
  ultimately show ?thesis unfolding plain_words_def
    by (simp only: echo) (simp add: read_raw_single [OF assms(1)] read_raw_single [OF assms(2)])
qed

lemma ssh_key_leaves_quotes_witness:
  "plain_words (authorize_command ''ssh-ed25519 AAAA'') = Some [''echo'', ''ssh-ed25519 AAAA'']"
  using ssh_key_leaves_quotes [of "''ssh-ed25519 AAAA''" "[]"] by simp

text \<open>The memory limit of a task, which Docker gets in whole megabytes, is within half a megabyte
  of the one asked for; a request of at most half a megabyte becomes \<^verbatim>\<open>0m\<close>, which Docker takes for no
  limit at all.\<close>

theorem memory_limit_rounded:
  assumes "0 < n"
  shows "\<exists>mb. memory_mb n = str_of_int mb @ ''m'' \<and> 0 \<le> mb \<and> \<bar>mb * (1024 * 1024) - n\<bar> \<le> 512 * 1024 \<and>
    (mb = 0 \<longleftrightarrow> n \<le> 512 * 1024)"
proof -
  define q r where qr: "q = n div (1024 * 1024)" "r = n mod (1024 * 1024)"
  have n: "n = q * (1024 * 1024) + r" "0 \<le> r" "r < 1024 * 1024" "0 \<le> q" using assms by (simp_all add: qr)
  have odd: "odd q \<Longrightarrow> 1 \<le> q" using n(4) by presburger
  have "round_half_even n (1024 * 1024) = q \<and> r \<le> 512 * 1024 \<and> (r = 512 * 1024 \<longrightarrow> even q) \<or>
      round_half_even n (1024 * 1024) = q + 1 \<and> 512 * 1024 \<le> r \<and> (r = 512 * 1024 \<longrightarrow> odd q)"
    unfolding round_half_even_def Let_def by (fold qr) auto
  then have "0 \<le> round_half_even n (1024 * 1024) \<and> \<bar>round_half_even n (1024 * 1024) * (1024 * 1024) - n\<bar> \<le> 512 * 1024 \<and>
      (round_half_even n (1024 * 1024) = 0 \<longleftrightarrow> n \<le> 512 * 1024)"
    using n odd by (elim disjE) (auto simp: algebra_simps)
  then show ?thesis by (intro exI [of _ "round_half_even n (1024 * 1024)"]) (simp add: memory_mb_def)
qed

lemma memory_limit_rounded_witness: "memory_mb (300 * 1024) = ''0m''"
proof -
  from memory_limit_rounded [of "300 * 1024"] obtain mb where "memory_mb (300 * 1024) = str_of_int mb @ ''m''" "mb = 0" by auto
  moreover have "str_of_int 0 = ''0''" by code_simp
  ultimately show ?thesis by (simp del: str_of_int_nat)
qed

end
