(* ===== verification/Runner_Tasks.thy ===== *)
theory Runner_Tasks
  imports Container_Commands Task_Submission
begin

text \<open>
  A runner as a machine: the execution of command tasks (\<^verbatim>\<open>runner/services/task_executor.py\<close>), the
  endpoints over it (\<^verbatim>\<open>runner/endpoints/tasks.py\<close>), the creation and stop of Docker VPS
  (\<^verbatim>\<open>runner/services/vps_creation.py\<close>, \<^verbatim>\<open>runner/services/vps_manager.py\<close>) and the heartbeat's queue of
  killed tasks (\<^verbatim>\<open>runner/background/heartbeat.py\<close>).  A coroutine is split at the points where it awaits:
  what it will go on with is kept in \<open>r_execs\<close> and \<open>r_creations\<close>, and what it waited for is an event.
  Docker, the file system and the network are in those events: exit codes, whether an image could be
  made ready, what \<^verbatim>\<open>docker port\<close> printed.  \<open>r_reports\<close> lists the status updates sent to the host,
  \<open>r_commands\<close> the Docker commands started.
\<close>

section \<open>Requests\<close>

record exec_request =
  er_task_id :: int
  er_command :: string
  er_arguments :: "string list"
  er_env :: "(string, string) dict"
  er_cores :: int
  er_gpus :: "int list"
  er_memory :: "int option"
  er_numa :: "int option"
  er_container :: string
  er_registry :: "string option"
  er_working_dir :: string
  er_stdout :: string
  er_stderr :: string
  er_reserved_ip :: "string option"
  er_reserved_ips :: "(string, string) dict option"
  er_network :: "string option"
  er_networks :: "string list option"

text \<open>The host's payload as the runner's \<^verbatim>\<open>TaskExecuteRequest\<close>: every field is taken over, and
  \<^verbatim>\<open>container_name\<close> has to be a string.\<close>

definition received_task :: "dispatch \<Rightarrow> exec_request res" where
  "received_task d =
     (case d_container d of
        None \<Rightarrow> Inl (HTTPException 422 ''container_name: Input should be a valid string'')
      | Some c \<Rightarrow>
          let t = d_task d in
          Inr \<lparr>er_task_id = task_id t, er_command = t_command t, er_arguments = t_arguments t, er_env = t_env_vars t,
               er_cores = required_cores t, er_gpus = required_gpus t, er_memory = required_memory_bytes t,
               er_numa = target_numa_node_id t, er_container = c, er_registry = d_registry d,
               er_working_dir = ''/shared'', er_stdout = stdout_path t, er_stderr = stderr_path t,
               er_reserved_ip = d_ip d, er_reserved_ips = d_ips d, er_network = d_network d, er_networks = d_networks d\<rparr>)"

record vps_create_request =
  vc_task_id :: int
  vc_cores :: int
  vc_gpus :: "int list"
  vc_memory :: "int option"
  vc_numa :: "int option"
  vc_container :: string
  vc_registry :: "string option"
  vc_key_mode :: string
  vc_public_key :: "string option"
  vc_reserved_ip :: "string option"
  vc_reserved_ips :: "(string, string) dict option"
  vc_network :: "string option"
  vc_networks :: "string list option"

section \<open>The state\<close>

text \<open>Where an execution waits: for the host's answer to its first report, for the image, for the host's
  answer to the report that it is running, for the container.\<close>

datatype exec_stage = AwaitAck | AwaitImage | AwaitRunningAck "string list" | AwaitExit

record execution =
  ex_request :: exec_request
  ex_start :: int
  ex_stage :: exec_stage

datatype vps_stage = VpsAwaitAck | VpsAwaitImage "string option" | VpsAwaitRun | VpsAwaitPort | VpsAwaitRunningAck int

record creation =
  cr_request :: vps_create_request
  cr_start :: int
  cr_stage :: vps_stage

type_synonym report = "int \<times> status_update"

record 's runner =
  r_store :: 's
  r_execs :: "execution list"
  r_creations :: "creation list"
  r_reports :: "report list"
  r_commands :: "string list list"
  r_heart :: bool \<comment> \<open>the heartbeat loop is alive\<close>
  r_killed :: "(int \<times> string) list"
  r_beat :: "(int \<times> string) list option" \<comment> \<open>killed tasks in the heartbeat under way\<close>
  r_delivered :: "(int \<times> string) list" \<comment> \<open>killed tasks of acknowledged heartbeats\<close>

text \<open>\<^verbatim>\<open>TaskStatusUpdate(task_id=..., status=...)\<close> with the other fields left out.\<close>

definition bare_update :: "string \<Rightarrow> status_update" where
  "bare_update st = \<lparr>su_status = st, su_exit_code = None, su_message = None, su_started_at = None,
     su_completed_at = None, su_ssh_port = None\<rparr>"

definition report_status_to_host :: "int \<Rightarrow> status_update \<Rightarrow> 's runner \<Rightarrow> 's runner" where
  "report_status_to_host i u r = r\<lparr>r_reports := r_reports r @ [(i, u)]\<rparr>"

definition run_command :: "string list \<Rightarrow> 's runner \<Rightarrow> 's runner" where
  "run_command cmd r = r\<lparr>r_commands := r_commands r @ [cmd]\<rparr>"

section \<open>The execution of a command task\<close>

definition interpret_exit_code :: "int \<Rightarrow> string option \<Rightarrow> string \<times> string option" where
  "interpret_exit_code code err =
     (if code = 0 then (''completed'', None)
      else if code = 137 then (''killed_oom'', Some ''Container killed (SIGKILL) - likely out of memory.'')
      else if code = 143 then (''failed'', Some ''Container terminated (SIGTERM).'')
      else (''failed'', Some (''Container exited with code '' @ str_of_int code @ ''.'' @
             (case err of
                None \<Rightarrow> ''''
              | Some e \<Rightarrow> if strip e = [] then '''' else '' Docker stderr: '' @ take 500 (strip e)))))"

text \<open>\<^verbatim>\<open>network_names or ([network_name] if network_name else [None])\<close>, first and rest.\<close>

definition resolve_networks :: "string list option \<Rightarrow> string option \<Rightarrow> string option \<times> string list" where
  "resolve_networks names n =
     (case names of
        Some (x # xs) \<Rightarrow> (Some x, xs)
      | _ \<Rightarrow> (if truthy n then n else None, []))"

definition primary_ip :: "string option \<Rightarrow> string option \<Rightarrow> (string, string) dict option \<Rightarrow> string option" where
  "primary_ip primary rip rips =
     (case rips of
        None \<Rightarrow> rip
      | Some d \<Rightarrow> if truthy primary \<and> map_of d (the primary) \<noteq> None \<and> \<not> truthy rip then map_of d (the primary) else rip)"

text \<open>\<^verbatim>\<open>s.replace(old, new, 1)\<close> for \<open>old\<close> not empty.\<close>

fun replace_first :: "string \<Rightarrow> string \<Rightarrow> string \<Rightarrow> string" where
  "replace_first old new [] = []"
| "replace_first old new (c # cs) =
     (if startswith (c # cs) old then new @ drop (length old) (c # cs) else c # replace_first old new cs)"

text \<open>Step 2 of \<^verbatim>\<open>execute_task\<close>: from the request to the command line.\<close>

definition task_run_request :: "runner_config \<Rightarrow> int list option \<Rightarrow> exec_request \<Rightarrow> run_request" where
  "task_run_request cfg topology q =
     (let logs = path_join (SHARED_DIR cfg) ''logs'';
          primary = fst (resolve_networks (er_networks q) (er_network q))
      in \<lparr>rr_task_id = er_task_id q,
          rr_image = (if truthy (er_registry q) then the (er_registry q) else image_tag (er_container q) ''base''),
          rr_command = er_command q, rr_arguments = er_arguments q, rr_working_dir = er_working_dir q,
          rr_stdout = replace_first logs ''/kohakuriver-logs'' (er_stdout q),
          rr_stderr = replace_first logs ''/kohakuriver-logs'' (er_stderr q),
          rr_numa_prefix = get_numa_prefix cfg (er_numa q) topology,
          rr_cores = er_cores q, rr_memory = er_memory q, rr_gpus = er_gpus q,
          rr_env = build_task_env cfg (er_task_id q) (er_env q) (er_numa q),
          rr_privileged = TASKS_PRIVILEGED cfg,
          rr_reserved_ip = primary_ip primary (er_reserved_ip q) (er_reserved_ips q),
          rr_network = primary\<rparr>)"

text \<open>The commands that attach a container to its further networks, up to an unknown network, which
  raises.  Each is tried up to three times while the container starts; the repetitions are left out.\<close>

fun attach_networks :: "runner_config \<Rightarrow> string \<Rightarrow> (string, string) dict option \<Rightarrow> string list \<Rightarrow> string list list \<times> pyexn option" where
  "attach_networks cfg c rips [] = ([], None)"
| "attach_networks cfg c rips (net # nets) =
     (if net = [] then attach_networks cfg c rips nets
      else case get_container_network (Some net) cfg of
             Inl e \<Rightarrow> ([], Some e)
           | Inr docker \<Rightarrow>
               (case attach_networks cfg c rips nets of
                  (cmds, e) \<Rightarrow>
                    (([''docker'', ''network'', ''connect''] @
                      (case rips of None \<Rightarrow> [] | Some d \<Rightarrow> (case map_of d net of None \<Rightarrow> [] | Some x \<Rightarrow> [''--ip'', x])) @
                      [docker, c]) # cmds, e)))"

text \<open>\<^verbatim>\<open>_report_task_failure\<close>.\<close>

definition report_task_failure :: "('s, task_state) kvault \<Rightarrow> int \<Rightarrow> int \<Rightarrow> string \<Rightarrow> int \<Rightarrow> 's runner \<Rightarrow> 's runner" where
  "report_task_failure V now i msg start r =
     report_status_to_host i
       ((bare_update ''failed'')\<lparr>su_message := Some msg, su_started_at := Some start, su_completed_at := Some now\<rparr>)
       (r\<lparr>r_store := snd (remove_task V i (r_store r))\<rparr>)"

text \<open>What an execution waited for.\<close>

datatype exec_input =
    Acked bool \<comment> \<open>the report is over; the flag: the output directories could be made\<close>
  | ImageReady bool
  | Spawned "string option" \<comment> \<open>the report is over; the message of the exception if the process did not start\<close>
  | Exited int "string option" \<comment> \<open>exit code and standard error\<close>
  | Broken string \<comment> \<open>the message of the exception that ended the wait for the container\<close>

text \<open>One execution goes on; \<open>None\<close> when it is over, also by an exception that nothing catches.\<close>

definition resume_execution ::
  "('s, task_state) kvault \<Rightarrow> runner_config \<Rightarrow> string option \<Rightarrow> int list option \<Rightarrow> int \<Rightarrow> exec_input \<Rightarrow> execution \<Rightarrow> 's runner
   \<Rightarrow> execution option \<times> 's runner" where
  "resume_execution V cfg tp topology now inp x r =
     (let q = ex_request x; i = er_task_id q; full = task_container_name i in
      case (ex_stage x, inp) of
        (AwaitAck, Acked made) \<Rightarrow> (if made then Some (x\<lparr>ex_stage := AwaitImage\<rparr>) else None, r)
      | (AwaitImage, ImageReady ok) \<Rightarrow>
          if \<not> ok
          then (None, report_status_to_host i
                 ((bare_update ''failed'')\<lparr>su_message := Some
                    (if truthy (er_registry q) then ''Failed to pull registry image '' @ the (er_registry q)
                     else ''Docker image sync failed for container '' @ er_container q),
                  su_completed_at := Some now\<rparr>) r)
          else
            (case build_docker_run_command cfg tp (task_run_request cfg topology q) of
               Inl e \<Rightarrow> (None, r)
             | Inr cmd \<Rightarrow>
                 (Some (x\<lparr>ex_stage := AwaitRunningAck cmd\<rparr>),
                  report_status_to_host i ((bare_update ''running'')\<lparr>su_started_at := Some (ex_start x)\<rparr>)
                    (r\<lparr>r_store := add_task V i full (Some (CoreCount (er_cores q))) (Some (er_gpus q)) (er_numa q) (r_store r)\<rparr>)))
      | (AwaitRunningAck cmd, Spawned failure) \<Rightarrow>
          (case failure of
             Some e \<Rightarrow> (None, report_task_failure V now i (''Task execution failed: '' @ e) (ex_start x) r)
           | None \<Rightarrow>
               (Some (x\<lparr>ex_stage := AwaitExit\<rparr>),
                fold run_command
                  (cmd # fst (attach_networks cfg full (er_reserved_ips q) (snd (resolve_networks (er_networks q) (er_network q))))) r))
      | (AwaitExit, Exited code err) \<Rightarrow>
          (case stored_task V i (r_store r) of
             None \<Rightarrow> (None, r)
           | Some t \<Rightarrow>
               let (st, msg) = interpret_exit_code code err in
               (None, report_status_to_host i
                  ((bare_update st)\<lparr>su_exit_code := Some code, su_message := msg, su_started_at := Some (ex_start x),
                                    su_completed_at := Some now\<rparr>)
                  (r\<lparr>r_store := snd (remove_task V i (r_store r))\<rparr>)))
      | (AwaitExit, Broken e) \<Rightarrow> (None, report_task_failure V now i (''Task execution failed: '' @ e) (ex_start x) r)
      | _ \<Rightarrow> (Some x, r))"

definition replace_nth :: "nat \<Rightarrow> 'a option \<Rightarrow> 'a list \<Rightarrow> 'a list" where
  "replace_nth n y xs = take n xs @ (case y of None \<Rightarrow> [] | Some z \<Rightarrow> [z]) @ drop (Suc n) xs"

definition execution_resumes ::
  "('s, task_state) kvault \<Rightarrow> runner_config \<Rightarrow> string option \<Rightarrow> int list option \<Rightarrow> int \<Rightarrow> nat \<Rightarrow> exec_input \<Rightarrow> 's runner \<Rightarrow> 's runner" where
  "execution_resumes V cfg tp topology now n inp r =
     (if n < length (r_execs r)
      then (case resume_execution V cfg tp topology now inp (r_execs r ! n) r of
              (y, r') \<Rightarrow> r'\<lparr>r_execs := replace_nth n y (r_execs r)\<rparr>)
      else r)"

section \<open>The task endpoints\<close>

text \<open>\<open>temp_ok\<close>: \<^verbatim>\<open>os.path.isdir(config.LOCAL_TEMP_DIR)\<close>.  The background task starts with its report.\<close>

definition execute_task_endpoint :: "('s, task_state) kvault \<Rightarrow> bool \<Rightarrow> int \<Rightarrow> exec_request \<Rightarrow> ('s runner, unit) st" where
  "execute_task_endpoint V temp_ok now q = (\<lambda>r.
     if stored_task V (er_task_id q) (r_store r) \<noteq> None
     then (Inl (HTTPException 409 ''Task is already running on this node.''), r)
     else if \<not> temp_ok then (Inl (HTTPException 500 ''Configuration error: LOCAL_TEMP_DIR missing on node.''), r)
     else
       let q' = (if er_working_dir q = [] then q\<lparr>er_working_dir := ''/shared''\<rparr> else q) in
       (Inr (), report_status_to_host (er_task_id q) ((bare_update ''pending'')\<lparr>su_started_at := Some now\<rparr>)
          (r\<lparr>r_execs := r_execs r @ [\<lparr>ex_request = q', ex_start = now, ex_stage = AwaitAck\<rparr>]\<rparr>)))"

text \<open>How a Docker command ends: with its exit code, or in an exception.\<close>

datatype docker_result = Returned int | Raised

definition kill_task :: "('s, task_state) kvault \<Rightarrow> int \<Rightarrow> string \<Rightarrow> docker_result \<Rightarrow> 's runner \<Rightarrow> bool \<times> 's runner" where
  "kill_task V i c res r =
     (res \<noteq> Raised,
      run_command [''docker'', ''kill'', c] (r\<lparr>r_store := snd (remove_task V i (r_store r))\<rparr>))"

definition pause_task :: "int \<Rightarrow> string \<Rightarrow> docker_result \<Rightarrow> 's runner \<Rightarrow> bool \<times> 's runner" where
  "pause_task i c res r = (res = Returned 0, run_command [''docker'', ''pause'', c] r)"

definition resume_task :: "int \<Rightarrow> string \<Rightarrow> docker_result \<Rightarrow> 's runner \<Rightarrow> bool \<times> 's runner" where
  "resume_task i c res r = (res = Returned 0, run_command [''docker'', ''unpause'', c] r)"

text \<open>What the three endpoints share: 404 for a task not in the store, 500 when the operation failed.\<close>

definition controlled :: "('s, task_state) kvault \<Rightarrow> int \<Rightarrow> string \<Rightarrow> ('s runner \<Rightarrow> bool \<times> 's runner) \<Rightarrow> ('s runner, unit) st" where
  "controlled V i msg op = (\<lambda>r.
     if stored_task V i (r_store r) = None then (Inl (HTTPException 404 (''Task not found.'')), r)
     else (case op r of (ok, r') \<Rightarrow> (if ok then Inr () else Inl (HTTPException 500 msg), r')))"

definition kill_task_endpoint :: "('s, task_state) kvault \<Rightarrow> int \<Rightarrow> string \<Rightarrow> docker_result \<Rightarrow> ('s runner, unit) st" where
  "kill_task_endpoint V i c res = controlled V i ''Failed to kill task.'' (kill_task V i c res)"

definition pause_task_endpoint :: "('s, task_state) kvault \<Rightarrow> int \<Rightarrow> string \<Rightarrow> docker_result \<Rightarrow> ('s runner, unit) st" where
  "pause_task_endpoint V i c res = controlled V i ''Failed to pause task.'' (pause_task i c res)"

definition resume_task_endpoint :: "('s, task_state) kvault \<Rightarrow> int \<Rightarrow> string \<Rightarrow> docker_result \<Rightarrow> ('s runner, unit) st" where
  "resume_task_endpoint V i c res = controlled V i ''Failed to resume task.'' (resume_task i c res)"

section \<open>Docker VPS\<close>

text \<open>What a creation waited for: the host's answer, with the latest snapshot found then; the image; the
  exit of \<^verbatim>\<open>docker run\<close> with its standard error, or the exception of an attempt to start it; the port; the host's answer.\<close>

datatype vps_input = VpsAcked "string option" | VpsImage bool | VpsRan int string | VpsRaised string | VpsPort int | VpsRunningAcked

definition vps_run_of :: "runner_config \<Rightarrow> string option \<Rightarrow> string option \<Rightarrow> vps_create_request \<Rightarrow> vps_run_request" where
  "vps_run_of cfg tp snapshot q =
     (let primary = fst (resolve_networks (vc_networks q) (vc_network q))
      in \<lparr>vr_task_id = vc_task_id q,
          vr_image = (if truthy snapshot then the snapshot
                      else if truthy (vc_registry q) then the (vc_registry q) else image_tag (vc_container q) ''base''),
          vr_key_mode = vc_key_mode q, vr_public_key = vc_public_key q, vr_mounts = vps_mounts cfg tp,
          vr_working_dir = ''/shared'', vr_cores = vc_cores q, vr_memory = vc_memory q, vr_gpus = vc_gpus q,
          vr_privileged = TASKS_PRIVILEGED cfg,
          vr_reserved_ip = primary_ip primary (vc_reserved_ip q) (vc_reserved_ips q), vr_network = primary\<rparr>)"

text \<open>\<^verbatim>\<open>str(e)\<close>.\<close>

fun exn_text :: "pyexn \<Rightarrow> string" where
  "exn_text (ValueError m) = m"
| "exn_text (RuntimeError m) = m"
| "exn_text (AttributeError m) = m"
| "exn_text (TypeError m) = m"
| "exn_text (QEMUError m) = m"
| "exn_text (VFIOBindError m) = m"
| "exn_text (VMCreationError m) = m"
| "exn_text (FileNotFoundError m) = m"
| "exn_text (DockerError m) = m"
| "exn_text (HTTPException code m) = str_of_int code @ '': '' @ m"
| "exn_text _ = ''''"

text \<open>\<^verbatim>\<open>_report_vps_failure\<close>, and the endpoint's answer to it.\<close>

definition vps_failure :: "int \<Rightarrow> int \<Rightarrow> string \<Rightarrow> int option \<Rightarrow> 's runner \<Rightarrow> (creation + int res) \<times> 's runner" where
  "vps_failure now i msg code r =
     (Inr (Inl (HTTPException 500 msg)),
      report_status_to_host i ((bare_update ''failed'')\<lparr>su_message := Some msg, su_completed_at := Some now, su_exit_code := code\<rparr>) r)"

text \<open>Steps 3 and 4 up to \<^verbatim>\<open>docker run\<close>.\<close>

definition start_vps_container ::
  "runner_config \<Rightarrow> string option \<Rightarrow> string option \<Rightarrow> creation \<Rightarrow> 's runner \<Rightarrow> (creation + int res) \<times> 's runner" where
  "start_vps_container cfg tp snapshot x r =
     (case build_vps_docker_command cfg tp (vps_run_of cfg tp snapshot (cr_request x)) of
        Inl e \<Rightarrow> (Inr (Inl e), r)
      | Inr cmd \<Rightarrow> (Inl (x\<lparr>cr_stage := VpsAwaitRun\<rparr>), run_command cmd r))"

definition finalize_vps :: "('s, task_state) kvault \<Rightarrow> int \<Rightarrow> creation \<Rightarrow> 's runner \<Rightarrow> (creation + int res) \<times> 's runner" where
  "finalize_vps V port x r =
     (let q = cr_request x in
      (Inl (x\<lparr>cr_stage := VpsAwaitRunningAck port\<rparr>),
       report_status_to_host (vc_task_id q)
         ((bare_update ''running'')\<lparr>su_started_at := Some (cr_start x), su_ssh_port := Some port\<rparr>)
         (r\<lparr>r_store := add_task V (vc_task_id q) (vps_container_name (vc_task_id q)) (Some (CoreCount (vc_cores q)))
                         (Some (vc_gpus q)) (vc_numa q) (r_store r)\<rparr>)))"

text \<open>The creation goes on, or it answers the host: the port, or an exception.\<close>

definition resume_creation ::
  "('s, task_state) kvault \<Rightarrow> runner_config \<Rightarrow> string option \<Rightarrow> int \<Rightarrow> vps_input \<Rightarrow> creation \<Rightarrow> 's runner
   \<Rightarrow> (creation + int res) \<times> 's runner" where
  "resume_creation V cfg tp now inp x r =
     (let q = cr_request x; i = vc_task_id q; full = vps_container_name i in
      case (cr_stage x, inp) of
        (VpsAwaitAck, VpsAcked snapshot) \<Rightarrow>
          if truthy snapshot then start_vps_container cfg tp snapshot x r
          else (Inl (x\<lparr>cr_stage := VpsAwaitImage snapshot\<rparr>), r)
      | (VpsAwaitImage snapshot, VpsImage ok) \<Rightarrow>
          if ok then start_vps_container cfg tp snapshot x r
          else vps_failure now i
                 (if truthy (vc_registry q) then ''Failed to pull registry image '' @ the (vc_registry q)
                  else ''Docker image sync failed for container '' @ vc_container q) None r
      | (VpsAwaitRun, VpsRan code err) \<Rightarrow>
          if code \<noteq> 0 then vps_failure now i (''Docker run failed: '' @ strip err) (Some code) r
          else
            (case attach_networks cfg full (vc_reserved_ips q) (snd (resolve_networks (vc_networks q) (vc_network q))) of
               (cmds, Some e) \<Rightarrow> vps_failure now i (''VPS creation failed: '' @ exn_text e) None (fold run_command cmds r)
             | (cmds, None) \<Rightarrow>
                 if vc_key_mode q = ''disabled'' then finalize_vps V 0 x (fold run_command cmds r)
                 else (Inl (x\<lparr>cr_stage := VpsAwaitPort\<rparr>), fold run_command cmds r))
      | (VpsAwaitRun, VpsRaised e) \<Rightarrow> vps_failure now i (''VPS creation failed: '' @ e) None r
      | (VpsAwaitPort, VpsPort port) \<Rightarrow> finalize_vps V port x r
      | (VpsAwaitRunningAck port, VpsRunningAcked) \<Rightarrow> (Inr (Inr port), r)
      | _ \<Rightarrow> (Inl x, r))"

definition creation_resumes ::
  "('s, task_state) kvault \<Rightarrow> runner_config \<Rightarrow> string option \<Rightarrow> int \<Rightarrow> nat \<Rightarrow> vps_input \<Rightarrow> 's runner \<Rightarrow> 's runner" where
  "creation_resumes V cfg tp now n inp r =
     (if n < length (r_creations r)
      then (case resume_creation V cfg tp now inp (r_creations r ! n) r of
              (y, r') \<Rightarrow> r'\<lparr>r_creations := replace_nth n (case y of Inl x \<Rightarrow> Some x | Inr a \<Rightarrow> None) (r_creations r)\<rparr>)
      else r)"

definition create_docker_vps :: "('s, task_state) kvault \<Rightarrow> bool \<Rightarrow> int \<Rightarrow> vps_create_request \<Rightarrow> ('s runner, unit) st" where
  "create_docker_vps V temp_ok now q = (\<lambda>r.
     if stored_task V (vc_task_id q) (r_store r) \<noteq> None
     then (Inl (HTTPException 409 ''VPS is already running on this node.''), r)
     else if \<not> temp_ok then (Inl (HTTPException 500 ''Configuration error: LOCAL_TEMP_DIR missing on node.''), r)
     else
       let q' = (if vc_key_mode q = [] then q\<lparr>vc_key_mode := ''upload''\<rparr> else q) in
       (Inr (), report_status_to_host (vc_task_id q) (bare_update ''pending'')
          (r\<lparr>r_creations := r_creations r @ [\<lparr>cr_request = q', cr_start = now, cr_stage = VpsAwaitAck\<rparr>]\<rparr>)))"

text \<open>Stopping a Docker VPS: \<open>stopped\<close> and \<open>removed\<close> are the results of \<^verbatim>\<open>docker stop\<close> and \<^verbatim>\<open>docker rm\<close>.
  Only after both does the store forget the VPS.\<close>

definition runner_stop_vps :: "('s, task_state) kvault \<Rightarrow> int \<Rightarrow> docker_result \<Rightarrow> docker_result \<Rightarrow> ('s runner, unit) st" where
  "runner_stop_vps V i stopped removed = (\<lambda>r.
     if stored_task V i (r_store r) = None then (Inl (HTTPException 404 ''VPS not found.''), r)
     else
       let c = vps_container_name i; r1 = run_command [''docker'', ''stop'', c] r in
       if stopped \<noteq> Returned 0 then (Inl (HTTPException 500 ''Failed to stop VPS.''), r1)
       else
         let r2 = run_command [''docker'', ''rm'', c] r1 in
         if removed \<noteq> Returned 0 then (Inl (HTTPException 500 ''Failed to stop VPS.''), r2)
         else (Inr (), r2\<lparr>r_store := snd (remove_task V i (r_store r2))\<rparr>))"

text \<open>Pause and resume work for VPS as for tasks, on the container of the VPS.\<close>

definition pause_vps_endpoint :: "('s, task_state) kvault \<Rightarrow> int \<Rightarrow> docker_result \<Rightarrow> ('s runner, unit) st" where
  "pause_vps_endpoint V i res = controlled V i ''Failed to pause VPS.'' (pause_task i (vps_container_name i) res)"

definition resume_vps_endpoint :: "('s, task_state) kvault \<Rightarrow> int \<Rightarrow> docker_result \<Rightarrow> ('s runner, unit) st" where
  "resume_vps_endpoint V i res = controlled V i ''Failed to resume VPS.'' (resume_task i (vps_container_name i) res)"

section \<open>Heartbeats\<close>

definition report_killed_task :: "int \<Rightarrow> string \<Rightarrow> 's runner \<Rightarrow> 's runner" where
  "report_killed_task i reason r = r\<lparr>r_killed := r_killed r @ [(i, reason)]\<rparr>"

text \<open>One round of \<^verbatim>\<open>send_heartbeat\<close> up to its request: the identifiers it reports and the killed tasks
  it takes along.  The loop waits for the answer before the next round.  \<open>built\<close>: the statistics and the
  request could be made.  The queue is emptied before they are, and the loop catches nothing: an
  exception ends the heartbeat task for good, and the killed tasks taken along are gone.\<close>

definition begin_heartbeat ::
  "('s, task_state) kvault \<Rightarrow> bool \<Rightarrow> 's runner \<Rightarrow> (int list \<times> (int \<times> string) list) option \<times> 's runner" where
  "begin_heartbeat V built r =
     (if \<not> r_heart r \<or> r_beat r \<noteq> None then (None, r)
      else
        (case get_all_task_ids V (r_store r) of
           None \<Rightarrow> (None, r\<lparr>r_heart := False\<rparr>)
         | Some ids \<Rightarrow>
             if \<not> built then (None, r\<lparr>r_killed := [], r_heart := False\<rparr>)
             else (Some (ids, r_killed r), r\<lparr>r_killed := [], r_beat := Some (r_killed r)\<rparr>)))"

text \<open>\<^verbatim>\<open>_send_heartbeat_to_host\<close> after the answer: on any failure the killed tasks are queued again.  A node
  the host does not know registers again; what that request does is the host's part.\<close>

definition finish_heartbeat :: "bool \<Rightarrow> 's runner \<Rightarrow> 's runner" where
  "finish_heartbeat success r =
     (case r_beat r of
        None \<Rightarrow> r
      | Some ks \<Rightarrow>
          if success then r\<lparr>r_beat := None, r_delivered := r_delivered r @ ks\<rparr>
          else r\<lparr>r_beat := None, r_killed := r_killed r @ ks\<rparr>)"

section \<open>The machine\<close>

datatype runner_event =
    ExecuteRequest bool int exec_request
  | ExecutionResumes int nat exec_input
  | KillRequest int string docker_result
  | PauseRequest int string docker_result
  | ResumeRequest int string docker_result
  | CreateVpsRequest bool int vps_create_request
  | CreationResumes int nat vps_input
  | StopVpsRequest int docker_result docker_result
  | PauseVpsRequest int docker_result
  | ResumeVpsRequest int docker_result
  | KilledTask int string
  | HeartbeatTick bool
  | HeartbeatAnswer bool

record 's runner_env =
  re_vault :: "('s, task_state) kvault"
  re_cfg :: runner_config
  re_tunnel :: "string option"
  re_topology :: "int list option"

fun runner_step :: "'s runner_env \<Rightarrow> runner_event \<Rightarrow> 's runner \<Rightarrow> 's runner" where
  "runner_step env (ExecuteRequest ok now q) r = snd (execute_task_endpoint (re_vault env) ok now q r)"
| "runner_step env (ExecutionResumes now n inp) r =
     execution_resumes (re_vault env) (re_cfg env) (re_tunnel env) (re_topology env) now n inp r"
| "runner_step env (KillRequest i c res) r = snd (kill_task_endpoint (re_vault env) i c res r)"
| "runner_step env (PauseRequest i c res) r = snd (pause_task_endpoint (re_vault env) i c res r)"
| "runner_step env (ResumeRequest i c res) r = snd (resume_task_endpoint (re_vault env) i c res r)"
| "runner_step env (CreateVpsRequest ok now q) r = snd (create_docker_vps (re_vault env) ok now q r)"
| "runner_step env (CreationResumes now n inp) r = creation_resumes (re_vault env) (re_cfg env) (re_tunnel env) now n inp r"
| "runner_step env (StopVpsRequest i a b) r = snd (runner_stop_vps (re_vault env) i a b r)"
| "runner_step env (PauseVpsRequest i res) r = snd (pause_vps_endpoint (re_vault env) i res r)"
| "runner_step env (ResumeVpsRequest i res) r = snd (resume_vps_endpoint (re_vault env) i res r)"
| "runner_step env (KilledTask i reason) r = report_killed_task i reason r"
| "runner_step env (HeartbeatTick built) r = snd (begin_heartbeat (re_vault env) built r)"
| "runner_step env (HeartbeatAnswer ok) r = finish_heartbeat ok r"

end
