(* ===== verification/Runner_Properties.thy ===== *)
theory Runner_Properties
  imports Runner_Tasks "HOL-Library.Multiset"
begin

text \<open>
  What a runner promises over every sequence of its events: reports of killed tasks are kept until a
  heartbeat delivered them, unless one cannot be built, which ends the heartbeats; a task that was killed
  stays silent, and each execution reports in order.
\<close>

section \<open>Frames\<close>

lemmas runner_defs =
  execute_task_endpoint_def execution_resumes_def resume_execution_def controlled_def kill_task_endpoint_def
  pause_task_endpoint_def resume_task_endpoint_def kill_task_def pause_task_def resume_task_def
  create_docker_vps_def creation_resumes_def resume_creation_def start_vps_container_def finalize_vps_def vps_failure_def
  runner_stop_vps_def pause_vps_endpoint_def resume_vps_endpoint_def report_killed_task_def begin_heartbeat_def finish_heartbeat_def
  report_status_to_host_def run_command_def report_task_failure_def

lemma run_commands [simp]:
  "fold run_command cmds r = r\<lparr>r_commands := r_commands r @ cmds\<rparr>"
  by (induction cmds arbitrary: r) (simp_all add: run_command_def)

text \<open>Only the heartbeat touches the queue of killed tasks.\<close>

definition same_queue :: "'s runner \<Rightarrow> 's runner \<Rightarrow> bool" where
  "same_queue r r' \<longleftrightarrow> r_killed r' = r_killed r \<and> r_beat r' = r_beat r \<and> r_delivered r' = r_delivered r"

lemma resume_execution_queue: "same_queue r (snd (resume_execution V cfg tp topology now inp x r))"
  unfolding resume_execution_def
  by (auto simp: same_queue_def report_status_to_host_def report_task_failure_def run_command_def Let_def
      split: exec_stage.splits exec_input.splits option.splits sum.splits prod.splits)

lemma resume_creation_queue: "same_queue r (snd (resume_creation V cfg tp now inp x r))"
  unfolding resume_creation_def start_vps_container_def finalize_vps_def vps_failure_def
  by (auto simp: same_queue_def report_status_to_host_def run_command_def Let_def
      split: vps_stage.splits vps_input.splits option.splits sum.splits prod.splits)

fun killed_of :: "runner_event \<Rightarrow> (int \<times> string) list" where
  "killed_of (KilledTask i reason) = [(i, reason)]"
| "killed_of _ = []"

definition beat_of :: "'s runner \<Rightarrow> (int \<times> string) list" where
  "beat_of r = (case r_beat r of None \<Rightarrow> [] | Some ks \<Rightarrow> ks)"

definition known_killed :: "'s runner \<Rightarrow> (int \<times> string) multiset" where
  "known_killed r = mset (r_killed r) + mset (beat_of r) + mset (r_delivered r)"

lemma same_queue_known: "same_queue r r' \<Longrightarrow> known_killed r' = known_killed r"
  by (simp add: same_queue_def known_killed_def beat_of_def)

lemma step_known:
  "e \<noteq> HeartbeatTick False \<Longrightarrow> known_killed (runner_step env e r) = known_killed r + mset (killed_of e)"
proof (cases e)
  case (ExecutionResumes now n inp)
  then show ?thesis
    using resume_execution_queue [of r "re_vault env" "re_cfg env" "re_tunnel env" "re_topology env" now inp "r_execs r ! n"]
    by (auto simp: execution_resumes_def same_queue_def known_killed_def beat_of_def split: prod.split)
next
  case (CreationResumes now n inp)
  then show ?thesis
    using resume_creation_queue [of r "re_vault env" "re_cfg env" "re_tunnel env" now inp "r_creations r ! n"]
    by (auto simp: creation_resumes_def same_queue_def known_killed_def beat_of_def split: prod.split)
next
  assume "e \<noteq> HeartbeatTick False"
  moreover case (HeartbeatTick built)
  ultimately show ?thesis by (auto simp: begin_heartbeat_def known_killed_def beat_of_def split: option.split)
next
  case (HeartbeatAnswer ok)
  then show ?thesis by (auto simp: finish_heartbeat_def known_killed_def beat_of_def split: option.split)
qed (auto simp: runner_defs known_killed_def beat_of_def Let_def split: option.split)

text \<open>No report of a killed task is lost while every heartbeat can be built.  Over every run of the runner,
  with heartbeats that succeed or fail in any pattern, the killed tasks that were reported are, each as often
  as reported, waiting for the next heartbeat, in the one under way, or delivered in one the host
  acknowledged.  (Nothing in the program calls \<^verbatim>\<open>report_killed_task\<close>.)\<close>

theorem killed_reports_kept:
  "list_all (\<lambda>e. e \<noteq> HeartbeatTick False) es \<Longrightarrow>
   known_killed (fold (runner_step env) es r) = known_killed r + mset (concat (map killed_of es))"
  by (induction es arbitrary: r) (simp_all add: step_known ac_simps)

text \<open>One that cannot be built is the last: the loop ends, the reports it had taken from the queue are never
  delivered, and whatever happens afterwards the runner sends no heartbeat.\<close>

lemma dead_heart_step:
  assumes "\<not> r_heart r" "r_beat r = None"
  shows "\<not> r_heart (runner_step env e r) \<and> r_beat (runner_step env e r) = None \<and> r_delivered (runner_step env e r) = r_delivered r"
proof (cases e)
  case (ExecutionResumes now n inp)
  then show ?thesis using assms
    by (auto simp: execution_resumes_def resume_execution_def report_task_failure_def report_status_to_host_def Let_def run_command_def
        split: exec_stage.split exec_input.split option.split sum.split prod.split)
next
  case (CreationResumes now n inp)
  then show ?thesis using assms
    by (auto simp: creation_resumes_def resume_creation_def start_vps_container_def finalize_vps_def vps_failure_def
        report_status_to_host_def Let_def run_command_def
        split: vps_stage.split vps_input.split option.split sum.split prod.split)
qed (use assms in \<open>auto simp: runner_defs Let_def split: option.split\<close>)

lemma dead_heart_steps:
  "\<not> r_heart r \<Longrightarrow> r_beat r = None \<Longrightarrow>
   \<not> r_heart (fold (runner_step env) es r) \<and> r_beat (fold (runner_step env) es r) = None \<and>
   r_delivered (fold (runner_step env) es r) = r_delivered r"
  by (induction es arbitrary: r) (simp_all add: dead_heart_step)

theorem broken_heartbeat_is_last:
  assumes "r_beat r = None" "r' = fold (runner_step env) (HeartbeatTick False # es) r"
  shows "fst (begin_heartbeat (re_vault env) built r') = None \<and> r_delivered r' = r_delivered r"
proof -
  let ?r = "runner_step env (HeartbeatTick False) r"
  have "\<not> r_heart ?r" "r_beat ?r = None" "r_delivered ?r = r_delivered r"
    using assms(1) by (auto simp: begin_heartbeat_def split: option.split)
  from dead_heart_steps [OF this(1,2), of env es] this(3) assms(2) show ?thesis by (simp add: begin_heartbeat_def)
qed

lemma broken_heartbeat_is_last_witness:
  "\<exists>r. r_beat r = None \<and> fst (begin_heartbeat dict_vault True r) \<noteq> None \<and>
     fst (begin_heartbeat dict_vault True (fold (runner_step \<lparr>re_vault = dict_vault, re_cfg = demo_runner, re_tunnel = None, re_topology = None\<rparr>)
       [HeartbeatTick False, HeartbeatTick True] r)) = None"
proof -
  let ?env = "\<lparr>re_vault = dict_vault, re_cfg = demo_runner, re_tunnel = None, re_topology = None\<rparr>"
  let ?r = "\<lparr>r_store = [], r_execs = [], r_creations = [], r_reports = [], r_commands = [], r_heart = True, r_killed = [],
     r_beat = None, r_delivered = []\<rparr>"
  have "fst (begin_heartbeat dict_vault True ?r) \<noteq> None" by code_simp
  moreover have "fst (begin_heartbeat dict_vault True (fold (runner_step ?env) [HeartbeatTick False, HeartbeatTick True] ?r)) = None"
    using broken_heartbeat_is_last [OF _ refl, where r = ?r and env = ?env and es = "[HeartbeatTick True]" and built = True] by simp
  ultimately show ?thesis by (intro exI [of _ ?r]) (simp del: fold.simps)
qed

section \<open>One execution\<close>

definition execs_of :: "int \<Rightarrow> 's runner \<Rightarrow> execution list" where
  "execs_of i r = filter (\<lambda>x. er_task_id (ex_request x) = i) (r_execs r)"

definition creations_of :: "int \<Rightarrow> 's runner \<Rightarrow> creation list" where
  "creations_of i r = filter (\<lambda>x. vc_task_id (cr_request x) = i) (r_creations r)"

definition reports_of :: "int \<Rightarrow> 's runner \<Rightarrow> status_update list" where
  "reports_of i r = map snd (filter (\<lambda>p. fst p = i) (r_reports r))"

definition pending_report :: "int \<Rightarrow> status_update" where
  "pending_report start = (bare_update ''pending'')\<lparr>su_started_at := Some start\<rparr>"

definition running_report :: "int \<Rightarrow> status_update" where
  "running_report start = (bare_update ''running'')\<lparr>su_started_at := Some start\<rparr>"

text \<open>The specification: what an execution has reported at each of its stages, and when it is over.\<close>

definition over_reports :: "status_update list \<Rightarrow> bool" where
  "over_reports us \<longleftrightarrow>
     (\<exists>start. us = [pending_report start] \<or> us = [pending_report start, running_report start] \<or>
       (\<exists>u. us = [pending_report start, u] \<and> su_status u = ''failed'' \<and> su_completed_at u \<noteq> None) \<or>
       (\<exists>u. us = [pending_report start, running_report start, u] \<and>
          su_status u \<in> {''completed'', ''failed'', ''killed_oom''} \<and> su_started_at u = Some start \<and> su_completed_at u \<noteq> None))"

definition stage_reports :: "execution \<Rightarrow> status_update list" where
  "stage_reports x =
     (case ex_stage x of
        AwaitAck \<Rightarrow> [pending_report (ex_start x)]
      | AwaitImage \<Rightarrow> [pending_report (ex_start x)]
      | _ \<Rightarrow> [pending_report (ex_start x), running_report (ex_start x)])"

definition follows_run :: "execution list \<Rightarrow> status_update list \<Rightarrow> bool" where
  "follows_run xs us \<longleftrightarrow>
     (case xs of [] \<Rightarrow> us = [] \<or> over_reports us | [x] \<Rightarrow> us = stage_reports x | _ \<Rightarrow> False)"

text \<open>What one step of an execution changes: its own stage, reports of its own task, the store of its
  own task, and the commands.\<close>

definition new_reports :: "'s runner \<Rightarrow> 's runner \<Rightarrow> status_update list" where
  "new_reports r r' = map snd (drop (length (r_reports r)) (r_reports r'))"

definition own_step :: "execution \<Rightarrow> execution option \<Rightarrow> 's runner \<Rightarrow> 's runner \<Rightarrow> bool" where
  "own_step x y r r' \<longleftrightarrow>
     r_reports r' = r_reports r @ map (Pair (er_task_id (ex_request x))) (new_reports r r') \<and>
     (case y of
        None \<Rightarrow> over_reports (stage_reports x @ new_reports r r')
      | Some z \<Rightarrow> ex_request z = ex_request x \<and> stage_reports z = stage_reports x @ new_reports r r') \<and>
     r_execs r' = r_execs r \<and> r_creations r' = r_creations r"

lemma interpreted: "fst (interpret_exit_code code err) \<in> {''completed'', ''failed'', ''killed_oom''}"
  by (simp add: interpret_exit_code_def)

lemma report_fields [simp]:
  "r_reports (report_status_to_host i u r) = r_reports r @ [(i, u)]"
  "r_execs (report_status_to_host i u r) = r_execs r"
  "r_creations (report_status_to_host i u r) = r_creations r"
  "r_store (report_status_to_host i u r) = r_store r"
  by (simp_all add: report_status_to_host_def)

lemma run_fields [simp]:
  "r_reports (run_command cmd r) = r_reports r" "r_execs (run_command cmd r) = r_execs r"
  "r_creations (run_command cmd r) = r_creations r" "r_store (run_command cmd r) = r_store r"
  by (simp_all add: run_command_def)

lemma resume_own_step:
  assumes "resume_execution V cfg tp topology now inp x r = (y, r')"
  shows "own_step x y r r'"
proof -
  note defs = own_step_def new_reports_def stage_reports_def over_reports_def pending_report_def running_report_def bare_update_def
  show ?thesis
  proof (cases "ex_stage x")
    case AwaitAck
    then show ?thesis using assms by (auto simp: resume_execution_def defs split: exec_input.splits if_splits)
  next
    case AwaitImage
    then show ?thesis using assms
      by (auto simp: resume_execution_def defs Let_def split: exec_input.splits if_splits sum.splits)
  next
    case (AwaitRunningAck cmd)
    then show ?thesis using assms
      by (auto simp: resume_execution_def report_task_failure_def defs Let_def split: exec_input.splits option.splits)
  next
    case AwaitExit
    show ?thesis
    proof (cases inp)
      case (Exited code err)
      then show ?thesis using assms AwaitExit interpreted [of code err]
        by (auto simp: resume_execution_def defs Let_def split: option.splits prod.splits)
    next
      case (Broken e)
      then show ?thesis using assms AwaitExit
        by (auto simp: resume_execution_def report_task_failure_def defs Let_def)
    qed (use assms AwaitExit in \<open>auto simp: resume_execution_def defs Let_def\<close>)
  qed
qed

lemma filter_replaced:
  assumes "n < length xs"
  shows "filter P xs = filter P (take n xs) @ filter P [xs ! n] @ filter P (drop (Suc n) xs)"
    "filter P (replace_nth n y xs) =
      filter P (take n xs) @ (case y of None \<Rightarrow> [] | Some z \<Rightarrow> filter P [z]) @ filter P (drop (Suc n) xs)"
  using assms by (subst id_take_nth_drop [OF assms], simp del: append_take_drop_id) (simp add: replace_nth_def split: option.split)

lemma filter_replaced_other:
  "n < length xs \<Longrightarrow> \<not> P (xs ! n) \<Longrightarrow> (case y of None \<Rightarrow> True | Some z \<Rightarrow> \<not> P z) \<Longrightarrow> filter P (replace_nth n y xs) = filter P xs"
  using filter_replaced [of n xs P] by (auto split: option.splits)

lemma filter_replaced_only:
  assumes "n < length xs" "P (xs ! n)" "filter P xs = [x]" "case y of None \<Rightarrow> True | Some z \<Rightarrow> P z"
  shows "xs ! n = x" "filter P (replace_nth n y xs) = (case y of None \<Rightarrow> [] | Some z \<Rightarrow> [z])"
  using filter_replaced [OF assms(1), of P] assms(2-4) by (auto simp: Cons_eq_append_conv split: option.splits)

text \<open>A creation works on its own task as well.\<close>

lemma creation_own_step:
  assumes "resume_creation V cfg tp now inp x r = (y, r')"
  shows "r_reports r' = r_reports r @ map (Pair (vc_task_id (cr_request x))) (new_reports r r')"
    "case y of Inl z \<Rightarrow> cr_request z = cr_request x | Inr _ \<Rightarrow> True"
    "r_execs r' = r_execs r \<and> r_creations r' = r_creations r"
  using assms unfolding resume_creation_def start_vps_container_def finalize_vps_def vps_failure_def
  by (auto simp: new_reports_def Let_def split: vps_stage.splits vps_input.splits option.splits sum.splits prod.splits if_splits)

lemma reports_of_append [simp]:
  "reports_of i (r\<lparr>r_reports := xs @ ys\<rparr>) = map snd (filter (\<lambda>p. fst p = i) xs) @ map snd (filter (\<lambda>p. fst p = i) ys)"
  by (simp add: reports_of_def)

lemma reports_of_own:
  "r_reports r' = r_reports r @ map (Pair j) us \<Longrightarrow> reports_of i r' = reports_of i r @ (if j = i then us else [])"
  by (simp add: reports_of_def comp_def)

lemma execs_of_resumed:
  assumes "own_step x y r r'" "n < length (r_execs r)" "x = r_execs r ! n"
  defines "s \<equiv> r'\<lparr>r_execs := replace_nth n y (r_execs r)\<rparr>"
  shows "er_task_id (ex_request x) \<noteq> i \<Longrightarrow> execs_of i s = execs_of i r \<and> reports_of i s = reports_of i r"
    and "er_task_id (ex_request x) = i \<Longrightarrow> execs_of i r = [z] \<Longrightarrow>
      x = z \<and> execs_of i s = (case y of None \<Rightarrow> [] | Some w \<Rightarrow> [w]) \<and> reports_of i s = reports_of i r @ new_reports r r'"
proof -
  have rep: "reports_of i s = reports_of i r @ (if er_task_id (ex_request x) = i then new_reports r r' else [])"
    using reports_of_own [of r' r _ _ i] assms(1) by (simp add: own_step_def s_def reports_of_def)
  have y: "er_task_id (ex_request w) = er_task_id (ex_request x)" if "y = Some w" for w
    using assms(1) that by (simp add: own_step_def)
  show "er_task_id (ex_request x) \<noteq> i \<Longrightarrow> execs_of i s = execs_of i r \<and> reports_of i s = reports_of i r"
    using rep y filter_replaced_other [OF assms(2), of "\<lambda>x. er_task_id (ex_request x) = i" y] assms(3)
    by (auto simp: s_def execs_of_def split: option.splits)
  show "er_task_id (ex_request x) = i \<Longrightarrow> execs_of i r = [z] \<Longrightarrow>
      x = z \<and> execs_of i s = (case y of None \<Rightarrow> [] | Some w \<Rightarrow> [w]) \<and> reports_of i s = reports_of i r @ new_reports r r'"
    using rep y filter_replaced_only [OF assms(2), of "\<lambda>x. er_task_id (ex_request x) = i" z y] assms(3)
    by (auto simp: s_def execs_of_def split: option.splits)
qed

section \<open>The life of a task on its runner\<close>

fun asks_for :: "int \<Rightarrow> runner_event \<Rightarrow> bool" where
  "asks_for i (ExecuteRequest ok now q) = (er_task_id q = i)"
| "asks_for i (CreateVpsRequest ok now q) = (vc_task_id q = i)"
| "asks_for i _ = False"

fun creates_vps :: "int \<Rightarrow> runner_event \<Rightarrow> bool" where
  "creates_vps i (CreateVpsRequest ok now q) = (vc_task_id q = i)"
| "creates_vps i _ = False"

text \<open>Where task \<open>i\<close> stands: its executions, creations and reports.\<close>

definition standing :: "int \<Rightarrow> 's runner \<Rightarrow> execution list \<times> creation list \<times> status_update list" where
  "standing i r = (execs_of i r, creations_of i r, reports_of i r)"

lemma standing_fields:
  "r_execs r' = r_execs r \<Longrightarrow> r_creations r' = r_creations r \<Longrightarrow> r_reports r' = r_reports r \<Longrightarrow> standing i r' = standing i r"
  by (simp add: standing_def execs_of_def creations_of_def reports_of_def)

lemma creation_standing:
  assumes "creations_of i r = []"
  shows "standing i (creation_resumes V cfg tp now n inp r) = standing i r"
proof (cases "n < length (r_creations r)")
  case True
  let ?x = "r_creations r ! n"
  obtain y r' where y: "resume_creation V cfg tp now inp ?x r = (y, r')" by (cases "resume_creation V cfg tp now inp ?x r")
  note own = creation_own_step [OF y]
  have x: "vc_task_id (cr_request ?x) \<noteq> i"
    using assms nth_mem [OF True] by (auto simp: creations_of_def filter_empty_conv)
  have "filter (\<lambda>x. vc_task_id (cr_request x) = i) (replace_nth n (case y of Inl x \<Rightarrow> Some x | Inr a \<Rightarrow> None) (r_creations r)) =
      filter (\<lambda>x. vc_task_id (cr_request x) = i) (r_creations r)"
    by (rule filter_replaced_other [OF True]) (use x own(2) in \<open>auto split: sum.splits\<close>)
  moreover have "reports_of i r' = reports_of i r" using reports_of_own [OF own(1), of i] x by simp
  ultimately show ?thesis using True own(3)
    by (simp add: creation_resumes_def y standing_def execs_of_def creations_of_def reports_of_def)
qed (simp add: creation_resumes_def)

text \<open>No event but its own execution and a request for it changes where a task stands.\<close>

lemma step_standing:
  assumes "\<not> asks_for i e" "\<And>now n inp. e \<noteq> ExecutionResumes now n inp" "creations_of i r = []"
  shows "standing i (runner_step env e r) = standing i r"
proof (cases e)
  case (CreationResumes now n inp)
  then show ?thesis using creation_standing [OF assms(3)] by simp
next
  case (ExecuteRequest ok now q)
  then show ?thesis using assms(1)
    by (auto simp: execute_task_endpoint_def standing_def execs_of_def creations_of_def reports_of_def report_status_to_host_def)
next
  case (CreateVpsRequest ok now q)
  then show ?thesis using assms(1)
    by (auto simp: create_docker_vps_def standing_def execs_of_def creations_of_def reports_of_def report_status_to_host_def Let_def)
qed (use assms(2) in \<open>auto simp: runner_defs Let_def intro!: standing_fields split: option.split\<close>)

definition follows :: "int \<Rightarrow> 's runner \<Rightarrow> bool" where
  "follows i r \<longleftrightarrow> creations_of i r = [] \<and> follows_run (execs_of i r) (reports_of i r)"

lemma follows_standing: "standing i r' = standing i r \<Longrightarrow> follows i r' = follows i r"
  by (simp add: standing_def follows_def)

lemma step_follows:
  assumes "follows i r" "\<not> asks_for i e"
  shows "follows i (runner_step env e r)"
proof (cases "\<exists>now n inp. e = ExecutionResumes now n inp")
  case False
  then show ?thesis using step_standing [of i e r env] assms follows_standing by (metis follows_def)
next
  case True
  then obtain now n inp where e: "e = ExecutionResumes now n inp" by blast
  show ?thesis
  proof (cases "n < length (r_execs r)")
    case lt: True
    let ?x = "r_execs r ! n"
    obtain y r' where y: "resume_execution (re_vault env) (re_cfg env) (re_tunnel env) (re_topology env) now inp ?x r = (y, r')"
      by (cases "resume_execution (re_vault env) (re_cfg env) (re_tunnel env) (re_topology env) now inp ?x r")
    note own = resume_own_step [OF y]
    note res = execs_of_resumed [OF own lt refl, of i]
    have c: "creations_of i (r'\<lparr>r_execs := replace_nth n y (r_execs r)\<rparr>) = creations_of i r"
      using own by (simp add: own_step_def creations_of_def)
    show ?thesis
    proof (cases "er_task_id (ex_request ?x) = i")
      case same: True
      then have "?x \<in> set (execs_of i r)" using lt by (simp add: execs_of_def)
      then obtain z where z: "execs_of i r = [z]" "reports_of i r = stage_reports z"
        using assms(1) by (auto simp: follows_def follows_run_def split: list.splits)
      with res(2) [OF same z(1)] own c assms(1) lt show ?thesis
        by (cases y) (auto simp: e execution_resumes_def y follows_def follows_run_def own_step_def)
    next
      case other: False
      with res(1) c assms(1) lt show ?thesis by (simp add: e execution_resumes_def y follows_def)
    qed
  qed (use assms(1) in \<open>simp add: e execution_resumes_def\<close>)
qed

lemma request_follows:
  assumes "standing i r = ([], [], [])" "er_task_id q = i"
  shows "follows i (runner_step env (ExecuteRequest ok now q) r)"
  using assms by (auto simp: execute_task_endpoint_def standing_def follows_def follows_run_def execs_of_def creations_of_def
      reports_of_def report_status_to_host_def stage_reports_def pending_report_def Let_def)

lemma standing_follows: "standing i r = ([], [], []) \<Longrightarrow> follows i r"
  by (simp add: standing_def follows_def follows_run_def)

lemma steps_follow:
  "follows i r \<Longrightarrow> list_all (\<lambda>e. \<not> asks_for i e) es \<Longrightarrow> follows i (fold (runner_step env) es r)"
  by (induction es arbitrary: r) (auto simp: step_follows)

text \<open>While it is not asked for, a task that nothing waits for stays so, and nothing is reported of it.\<close>

lemma step_nowhere:
  assumes "standing i r = ([], [], us)" "\<not> asks_for i e"
  shows "standing i (runner_step env e r) = ([], [], us)"
proof (cases "\<exists>now n inp. e = ExecutionResumes now n inp")
  case False
  then show ?thesis using step_standing [of i e r env] assms by (metis prod.inject standing_def)
next
  case True
  then obtain now n inp where e: "e = ExecutionResumes now n inp" by blast
  show ?thesis
  proof (cases "n < length (r_execs r)")
    case lt: True
    let ?x = "r_execs r ! n"
    obtain y r' where y: "resume_execution (re_vault env) (re_cfg env) (re_tunnel env) (re_topology env) now inp ?x r = (y, r')"
      by (cases "resume_execution (re_vault env) (re_cfg env) (re_tunnel env) (re_topology env) now inp ?x r")
    note own = resume_own_step [OF y]
    have "er_task_id (ex_request ?x) \<noteq> i"
      using assms(1) nth_mem [OF lt] by (auto simp: standing_def execs_of_def filter_empty_conv)
    with execs_of_resumed(1) [OF own lt refl, of i] own assms(1) lt show ?thesis
      by (simp add: e execution_resumes_def y standing_def own_step_def creations_of_def)
  qed (use assms(1) in \<open>simp add: e execution_resumes_def\<close>)
qed

lemma steps_nowhere:
  "standing i r = ([], [], us) \<Longrightarrow> list_all (\<lambda>e. \<not> asks_for i e) es \<Longrightarrow> standing i (fold (runner_step env) es r) = ([], [], us)"
  by (induction es arbitrary: r) (auto simp: step_nowhere)

text \<open>C21: what the host can hear of a command task.  From a runner that knows nothing of a task, over
  every sequence of events in which the task is requested once, with other tasks, kills, pauses, VPS and
  heartbeats in between, the reports of the task are in order: pending first, then running with the same
  start time, then at most one final report, with its completion time; nothing follows a final report.\<close>

theorem execution_reports_in_order:
  assumes "r_execs r = []" "r_creations r = []" "reports_of i r = []"
    and "list_all (\<lambda>e. \<not> asks_for i e) before" "list_all (\<lambda>e. \<not> asks_for i e) after" "er_task_id q = i"
    and "r' = fold (runner_step env) (before @ ExecuteRequest ok now q # after) r"
  shows "follows_run (execs_of i r') (reports_of i r')"
proof -
  have "standing i r = ([], [], [])" using assms(1-3) by (simp add: standing_def execs_of_def creations_of_def)
  from steps_follow [OF request_follows [OF steps_nowhere [OF this assms(4)] assms(6)] assms(5), of env env ok now env]
  show ?thesis by (simp add: assms(7) follows_def)
qed

text \<open>An example environment and runner.\<close>

definition demo_runner_env :: "(string, task_state) dict runner_env" where
  "demo_runner_env = \<lparr>re_vault = dict_vault, re_cfg = demo_runner, re_tunnel = None, re_topology = None\<rparr>"

definition idle_runner :: "(string, task_state) dict runner" where
  "idle_runner = \<lparr>r_store = [], r_execs = [], r_creations = [], r_reports = [], r_commands = [], r_heart = True, r_killed = [],
     r_beat = None, r_delivered = []\<rparr>"

definition demo_exec :: exec_request where
  "demo_exec = \<lparr>er_task_id = 5, er_command = ''ls'', er_arguments = [], er_env = [], er_cores = 1, er_gpus = [],
     er_memory = None, er_numa = None, er_container = ''base'', er_registry = None, er_working_dir = ''/shared'',
     er_stdout = ''/s/logs/o'', er_stderr = ''/s/logs/e'', er_reserved_ip = None, er_reserved_ips = None,
     er_network = None, er_networks = None\<rparr>"

text \<open>The whole life of a task that exits with code 0.\<close>

definition demo_life :: "runner_event list" where
  "demo_life = [ExecutionResumes 11 0 (Acked True), ExecutionResumes 12 0 (ImageReady True),
     ExecutionResumes 13 0 (Spawned None), ExecutionResumes 20 0 (Exited 0 None)]"

lemma execution_reports_in_order_witness:
  "follows_run (execs_of 5 (fold (runner_step demo_runner_env) ([] @ ExecuteRequest True 10 demo_exec # demo_life) idle_runner))
     (reports_of 5 (fold (runner_step demo_runner_env) ([] @ ExecuteRequest True 10 demo_exec # demo_life) idle_runner))"
  by (rule execution_reports_in_order [OF _ _ _ _ _ _ refl])
    (simp_all add: idle_runner_def demo_life_def demo_exec_def reports_of_def)

section \<open>Kills\<close>

text \<open>The wait for a container ends in an exception.\<close>

fun breaks :: "runner_event \<Rightarrow> bool" where
  "breaks (ExecutionResumes now n (Broken e)) \<longleftrightarrow> True"
| "breaks e \<longleftrightarrow> False"

text \<open>A killed task that was already waiting for its container stays out of the store and says nothing more.\<close>

definition hushed :: "('s, task_state) kvault \<Rightarrow> int \<Rightarrow> 's runner \<Rightarrow> bool" where
  "hushed V i r \<longleftrightarrow> stored_task V i (r_store r) = None \<and> creations_of i r = [] \<and>
     (\<forall>x \<in> set (execs_of i r). ex_stage x = AwaitExit)"

text \<open>A vault of task states, as the runner's store is one.\<close>

locale task_vault = vault V for V :: "('s, task_state) kvault"
begin

lemma add_task_get: "stored_task V i (add_task V j c cores gpus numa s) = None \<longleftrightarrow> i \<noteq> j \<and> stored_task V i s = None"
  by (simp add: add_task_def put_task)

lemma resume_store_other:
  assumes "resume_execution V cfg tp topology now inp x r = (y, r')" "er_task_id (ex_request x) \<noteq> i"
  shows "stored_task V i (r_store r') = stored_task V i (r_store r)"
  using assms unfolding resume_execution_def
  by (auto simp: report_task_failure_def Let_def add_task_def put_task remove_task_simps
      split: exec_stage.splits exec_input.splits option.splits sum.splits prod.splits if_splits)

lemma resume_hushed:
  assumes "resume_execution V cfg tp topology now inp x r = (y, r')" "ex_stage x = AwaitExit"
    "stored_task V (er_task_id (ex_request x)) (r_store r) = None"
  shows "(y = None \<or> y = Some x) \<and> stored_task V (er_task_id (ex_request x)) (r_store r') = None \<and>
    (\<forall>u \<in> set (new_reports r r'). su_status u = ''failed'') \<and> ((\<forall>e. inp \<noteq> Broken e) \<longrightarrow> new_reports r r' = [])"
  using assms by (cases inp) (auto simp: resume_execution_def report_task_failure_def new_reports_def remove_task_simps bare_update_def Let_def)

lemma creation_store_other:
  assumes "resume_creation V cfg tp now inp x r = (y, r')" "vc_task_id (cr_request x) \<noteq> i"
  shows "stored_task V i (r_store r') = stored_task V i (r_store r)"
  using assms unfolding resume_creation_def start_vps_container_def finalize_vps_def vps_failure_def
  by (auto simp: Let_def add_task_def put_task split: vps_stage.splits vps_input.splits option.splits sum.splits prod.splits if_splits)

text \<open>What may still be reported of such a task: that the wait for its container broke.\<close>

lemma step_hushed:
  assumes "re_vault env = V" "hushed V i r" "\<not> asks_for i e"
  shows "hushed V i (runner_step env e r) \<and> (\<exists>us. reports_of i (runner_step env e r) = reports_of i r @ us \<and>
    (\<forall>u \<in> set us. su_status u = ''failed'') \<and> (\<not> breaks e \<or> execs_of i r = [] \<longrightarrow> us = [])) \<and>
    (execs_of i r = [] \<longrightarrow> execs_of i (runner_step env e r) = [])"
proof -
  have hush: "hushed V i r' \<and> (\<exists>us. reports_of i r' = reports_of i r @ us \<and>
      (\<forall>u \<in> set us. su_status u = ''failed'') \<and> (\<not> breaks e \<or> execs_of i r = [] \<longrightarrow> us = [])) \<and>
      (execs_of i r = [] \<longrightarrow> execs_of i r' = [])"
    if "standing i r' = standing i r" "stored_task V i (r_store r) = None \<longrightarrow> stored_task V i (r_store r') = None" for r'
    using assms(2) that by (simp add: hushed_def standing_def)
  show ?thesis
  proof (cases e)
    case (ExecutionResumes now n inp)
    show ?thesis
    proof (cases "n < length (r_execs r)")
      case lt: True
      let ?x = "r_execs r ! n"
      obtain y r' where y: "resume_execution V (re_cfg env) (re_tunnel env) (re_topology env) now inp ?x r = (y, r')"
        by (cases "resume_execution V (re_cfg env) (re_tunnel env) (re_topology env) now inp ?x r")
      note own = resume_own_step [OF y]
      have st: "runner_step env e r = r'\<lparr>r_execs := replace_nth n y (r_execs r)\<rparr>"
        using lt assms(1) by (simp add: ExecutionResumes execution_resumes_def y)
      show ?thesis
      proof (cases "er_task_id (ex_request ?x) = i")
        case True
        then have x: "?x \<in> set (execs_of i r)" using lt by (simp add: execs_of_def)
        then have r': "y = None \<or> y = Some ?x" "stored_task V i (r_store r') = None"
          "\<forall>u \<in> set (new_reports r r'). su_status u = ''failed''" "\<not> breaks e \<longrightarrow> new_reports r r' = []"
          using resume_hushed [OF y] assms(2) True ExecutionResumes by (auto simp: hushed_def)
        have "set (execs_of i (r'\<lparr>r_execs := replace_nth n y (r_execs r)\<rparr>)) \<subseteq> set (execs_of i r)"
          using r'(1) nth_mem [OF lt] by (auto simp: execs_of_def replace_nth_def dest: in_set_takeD in_set_dropD)
        moreover have "reports_of i r' = reports_of i r @ new_reports r r'"
          using reports_of_own [of r' r i "new_reports r r'" i] own True by (simp add: own_step_def)
        then have "reports_of i (r'\<lparr>r_execs := replace_nth n y (r_execs r)\<rparr>) = reports_of i r @ new_reports r r'"
          by (simp add: reports_of_def)
        moreover have "creations_of i r' = []" using own assms(2) by (simp add: own_step_def creations_of_def hushed_def)
        ultimately show ?thesis using r'(2-4) assms(2) x unfolding st
          by (auto simp: hushed_def creations_of_def)
      next
        case False
        with execs_of_resumed(1) [OF own lt refl False] own resume_store_other [OF y False] show ?thesis
          unfolding st by (intro hush) (simp_all add: standing_def own_step_def creations_of_def)
      qed
    qed (use assms in \<open>simp add: ExecutionResumes execution_resumes_def\<close>)
  next
    case (CreationResumes now n inp)
    have "stored_task V i (r_store (runner_step env e r)) = stored_task V i (r_store r)"
    proof (cases "n < length (r_creations r)")
      case lt: True
      obtain y r' where y: "resume_creation V (re_cfg env) (re_tunnel env) now inp (r_creations r ! n) r = (y, r')"
        by (cases "resume_creation V (re_cfg env) (re_tunnel env) now inp (r_creations r ! n) r")
      have "vc_task_id (cr_request (r_creations r ! n)) \<noteq> i"
        using assms(2) nth_mem [OF lt] by (auto simp: hushed_def creations_of_def filter_empty_conv)
      from creation_store_other [OF y this] show ?thesis
        using lt assms(1) by (simp add: CreationResumes creation_resumes_def y)
    qed (simp add: CreationResumes creation_resumes_def)
    then show ?thesis using assms(2) step_standing [of i e r env] assms(3)
      by (intro hush) (simp_all add: CreationResumes hushed_def)
  next
    case (ExecuteRequest ok now q)
    then show ?thesis using assms step_standing [of i e r env]
      by (intro hush) (auto simp: hushed_def execute_task_endpoint_def)
  next
    case (CreateVpsRequest ok now q)
    then show ?thesis using assms step_standing [of i e r env]
      by (intro hush) (auto simp: hushed_def create_docker_vps_def Let_def)
  qed ((rule hush, (use assms(2,3) step_standing [of i e r env] in \<open>simp add: hushed_def\<close>)[1],
      (use assms(1,2) in \<open>auto simp: runner_defs hushed_def Let_def remove_task_simps split: option.split\<close>)[1])+)
qed

lemma steps_hushed:
  "re_vault env = V \<Longrightarrow> hushed V i r \<Longrightarrow> list_all (\<lambda>e. \<not> asks_for i e) es \<Longrightarrow>
   hushed V i (fold (runner_step env) es r) \<and> (\<exists>us. reports_of i (fold (runner_step env) es r) = reports_of i r @ us \<and>
     (\<forall>u \<in> set us. su_status u = ''failed'') \<and> (list_all (\<lambda>e. \<not> breaks e) es \<or> execs_of i r = [] \<longrightarrow> us = [])) \<and>
     (execs_of i r = [] \<longrightarrow> execs_of i (fold (runner_step env) es r) = [])"
proof (induction es arbitrary: r)
  case (Cons e es)
  from step_hushed [OF Cons.prems(1,2), of e] Cons.prems(3) obtain us where
    h: "hushed V i (runner_step env e r)" "execs_of i r = [] \<longrightarrow> execs_of i (runner_step env e r) = []"
    and us: "reports_of i (runner_step env e r) = reports_of i r @ us" "\<forall>u \<in> set us. su_status u = ''failed''"
      "\<not> breaks e \<or> execs_of i r = [] \<longrightarrow> us = []" by auto
  from Cons.IH [OF Cons.prems(1) h(1)] Cons.prems(3) obtain vs where
    vs: "hushed V i (fold (runner_step env) es (runner_step env e r))"
      "reports_of i (fold (runner_step env) es (runner_step env e r)) = reports_of i (runner_step env e r) @ vs"
      "\<forall>u \<in> set vs. su_status u = ''failed''" "list_all (\<lambda>e. \<not> breaks e) es \<or> execs_of i (runner_step env e r) = [] \<longrightarrow> vs = []"
      "execs_of i (runner_step env e r) = [] \<longrightarrow> execs_of i (fold (runner_step env) es (runner_step env e r)) = []" by auto
  show ?case using h(2) us vs by (intro conjI exI [of _ "us @ vs"]) auto
qed simp

lemma kill_hushes:
  assumes "stored_task V i (r_store r) \<noteq> None" "creations_of i r = []" "\<forall>x \<in> set (execs_of i r). ex_stage x = AwaitExit"
  shows "hushed V i (snd (kill_task_endpoint V i c res r)) \<and> reports_of i (snd (kill_task_endpoint V i c res r)) = reports_of i r"
  using assms by (simp add: runner_defs hushed_def remove_task_simps creations_of_def execs_of_def reports_of_def)

end

interpretation dict_tasks: task_vault dict_vault ..

lemma task_vault_of: "kvault_ok V \<Longrightarrow> task_vault V"
  by (simp add: kvault_ok_def task_vault_def)

text \<open>The example up to the report that the task is running.\<close>

definition demo_execution :: "exec_stage \<Rightarrow> execution" where
  "demo_execution st = \<lparr>ex_request = demo_exec, ex_start = 10, ex_stage = st\<rparr>"

definition demo_stored :: "(string, task_state) dict" where
  "demo_stored = add_task dict_vault 5 (task_container_name 5) (Some (CoreCount 1)) (Some []) None []"

lemma demo_ids: "er_task_id demo_exec = 5" "er_working_dir demo_exec \<noteq> []" "er_cores demo_exec = 1"
    "er_gpus demo_exec = []" "er_numa demo_exec = None" "stored_task dict_vault 5 [] = None"
    "stored_task dict_vault 5 demo_stored \<noteq> None"
  unfolding demo_stored_def dict_tasks.add_task_get by (simp_all add: demo_exec_def store_defs dict_vault_def)

lemma demo_steps:
  "runner_step demo_runner_env (ExecuteRequest True 10 demo_exec) idle_runner =
     idle_runner\<lparr>r_execs := [demo_execution AwaitAck], r_reports := [(5, pending_report 10)]\<rparr>"
  "runner_step demo_runner_env (ExecutionResumes 11 0 (Acked True))
     (idle_runner\<lparr>r_execs := [demo_execution AwaitAck], r_reports := [(5, pending_report 10)]\<rparr>) =
     idle_runner\<lparr>r_execs := [demo_execution AwaitImage], r_reports := [(5, pending_report 10)]\<rparr>"
  "\<exists>cmd. runner_step demo_runner_env (ExecutionResumes 12 0 (ImageReady True))
     (idle_runner\<lparr>r_execs := [demo_execution AwaitImage], r_reports := [(5, pending_report 10)]\<rparr>) =
     idle_runner\<lparr>r_execs := [demo_execution (AwaitRunningAck cmd)], r_reports := [(5, pending_report 10), (5, running_report 10)],
       r_store := demo_stored\<rparr>"
proof -
  show "runner_step demo_runner_env (ExecuteRequest True 10 demo_exec) idle_runner =
      idle_runner\<lparr>r_execs := [demo_execution AwaitAck], r_reports := [(5, pending_report 10)]\<rparr>"
    by (simp add: execute_task_endpoint_def report_status_to_host_def demo_ids idle_runner_def demo_runner_env_def demo_execution_def
        pending_report_def Let_def)
  show "runner_step demo_runner_env (ExecutionResumes 11 0 (Acked True))
      (idle_runner\<lparr>r_execs := [demo_execution AwaitAck], r_reports := [(5, pending_report 10)]\<rparr>) =
      idle_runner\<lparr>r_execs := [demo_execution AwaitImage], r_reports := [(5, pending_report 10)]\<rparr>"
    by (simp add: execution_resumes_def resume_execution_def replace_nth_def demo_execution_def idle_runner_def Let_def)
  obtain cmd where cmd: "build_docker_run_command demo_runner None (task_run_request demo_runner None demo_exec) = Inr cmd"
    by (simp add: build_docker_run_command_def task_run_request_def demo_runner_def demo_exec_def resolve_networks_def
        get_container_network_def truthy_def Let_def)
  show "\<exists>cmd. runner_step demo_runner_env (ExecutionResumes 12 0 (ImageReady True))
     (idle_runner\<lparr>r_execs := [demo_execution AwaitImage], r_reports := [(5, pending_report 10)]\<rparr>) =
     idle_runner\<lparr>r_execs := [demo_execution (AwaitRunningAck cmd)], r_reports := [(5, pending_report 10), (5, running_report 10)],
       r_store := demo_stored\<rparr>"
    by (intro exI [of _ cmd]) (simp add: execution_resumes_def resume_execution_def replace_nth_def demo_execution_def idle_runner_def
        Let_def demo_runner_env_def cmd demo_ids demo_stored_def report_status_to_host_def running_report_def)
qed

text \<open>C22: a task that was killed while its container ran stays killed.  From the acceptance of the kill
  on, whatever \<^verbatim>\<open>docker kill\<close> answers and whatever exit code the container ends with, its runner sends
  no further report of the task and does not list it as running, until the task is requested again.  Only if
  the wait for a container ends in an exception may something still be reported of it: that it failed.\<close>

theorem killed_task_silent:
  assumes "kvault_ok (re_vault env)" "stored_task (re_vault env) i (r_store r) \<noteq> None"
    and "creations_of i r = []" "\<forall>x \<in> set (execs_of i r). ex_stage x = AwaitExit"
    and "list_all (\<lambda>e. \<not> asks_for i e) es"
    and "r' = fold (runner_step env) (KillRequest i c res # es) r"
  shows "stored_task (re_vault env) i (r_store r') = None \<and>
    (\<exists>us. reports_of i r' = reports_of i r @ us \<and> (\<forall>u \<in> set us. su_status u = ''failed'') \<and>
       (list_all (\<lambda>e. \<not> breaks e) es \<longrightarrow> us = []))"
proof -
  have k: "hushed (re_vault env) i (runner_step env (KillRequest i c res) r)"
    "reports_of i (runner_step env (KillRequest i c res) r) = reports_of i r"
    using task_vault.kill_hushes [OF task_vault_of [OF assms(1)] assms(2-4), of c res] by simp_all
  from task_vault.steps_hushed [OF task_vault_of [OF assms(1)] refl k(1) assms(5)] k(2) show ?thesis
    by (auto simp: assms(6) hushed_def)
qed

lemma killed_task_silent_witness:
  "reports_of 5 (fold (runner_step demo_runner_env) [ExecuteRequest True 10 demo_exec, ExecutionResumes 11 0 (Acked True),
      ExecutionResumes 12 0 (ImageReady True), ExecutionResumes 13 0 (Spawned None), KillRequest 5 (task_container_name 5) (Returned 0),
      ExecutionResumes 20 0 (Exited 137 None)] idle_runner) = [pending_report 10, running_report 10]"
proof -
  obtain cmd where cmd: "runner_step demo_runner_env (ExecutionResumes 12 0 (ImageReady True))
     (idle_runner\<lparr>r_execs := [demo_execution AwaitImage], r_reports := [(5, pending_report 10)]\<rparr>) =
     idle_runner\<lparr>r_execs := [demo_execution (AwaitRunningAck cmd)], r_reports := [(5, pending_report 10), (5, running_report 10)],
       r_store := demo_stored\<rparr>" using demo_steps(3) by blast
  define r where "r = runner_step demo_runner_env (ExecutionResumes 13 0 (Spawned None)) (idle_runner\<lparr>r_execs := [demo_execution (AwaitRunningAck cmd)],
      r_reports := [(5, pending_report 10), (5, running_report 10)], r_store := demo_stored\<rparr>)"
  have r: "r_execs r = [demo_execution AwaitExit]" "r_creations r = []" "r_store r = demo_stored"
      "r_reports r = [(5, pending_report 10), (5, running_report 10)]"
    by (simp_all add: r_def execution_resumes_def resume_execution_def replace_nth_def demo_execution_def idle_runner_def Let_def)
  have "reports_of 5 (fold (runner_step demo_runner_env) (KillRequest 5 (task_container_name 5) (Returned 0) # [ExecutionResumes 20 0 (Exited 137 None)]) r) =
      reports_of 5 r"
    using killed_task_silent [OF _ _ _ _ _ refl, of demo_runner_env 5 r "[ExecutionResumes 20 0 (Exited 137 None)]"
      "task_container_name 5" "Returned 0"] demo_ids
    by (simp add: r demo_runner_env_def dict_vault_ok creations_of_def execs_of_def demo_execution_def)
  then show ?thesis by (simp only: fold.simps comp_def id_def demo_steps(1,2) cmd r_def [symmetric]) (simp add: reports_of_def r)
qed

text \<open>A kill between the report that a task is running and the start of its container does not stop it.
  The task is in the store, so the kill is accepted; \<^verbatim>\<open>docker kill\<close> finds no container, which the
  answer hides; the container is then started all the same, and when it ends nothing is reported.\<close>

theorem kill_before_start_runs:
  assumes "kvault_ok (re_vault env)" "er_task_id (ex_request x) = i" "ex_stage x = AwaitRunningAck cmd" "r_execs r = [x]"
    and "stored_task (re_vault env) i (r_store r) \<noteq> None" "code \<noteq> 0"
    and "r1 = runner_step env (ExecutionResumes now 0 (Spawned None)) (runner_step env (KillRequest i c (Returned code)) r)"
    and "r2 = runner_step env (ExecutionResumes later 0 (Exited ec err)) r1"
  shows "fst (kill_task_endpoint (re_vault env) i c (Returned code) r) = Inr () \<and>
    (\<exists>nets. r_commands r1 = r_commands r @ [[''docker'', ''kill'', c], cmd] @ nets) \<and>
    stored_task (re_vault env) i (r_store r1) = None \<and> reports_of i r2 = reports_of i r \<and> r_execs r2 = []"
proof -
  have V: "task_vault (re_vault env)" by (rule task_vault_of [OF assms(1)])
  note gone = vault.remove_task_simps(2) [OF task_vault.axioms [OF V]]
  obtain t where t: "stored_task (re_vault env) i (r_store r) = Some t" using assms(5) by blast
  define nets where "nets = fst (attach_networks (re_cfg env) (task_container_name i) (er_reserved_ips (ex_request x))
      (snd (resolve_networks (er_networks (ex_request x)) (er_network (ex_request x)))))"
  have r1: "r1 = r\<lparr>r_store := snd (remove_task (re_vault env) i (r_store r)), r_execs := [x\<lparr>ex_stage := AwaitExit\<rparr>],
      r_commands := r_commands r @ [[''docker'', ''kill'', c], cmd] @ nets\<rparr>"
    unfolding assms(7) using assms(2-4) t
    by (simp add: kill_task_endpoint_def controlled_def kill_task_def execution_resumes_def resume_execution_def
        replace_nth_def run_command_def Let_def nets_def)
  have r2: "r2 = r1\<lparr>r_execs := []\<rparr>"
    unfolding assms(8) r1 by (simp add: execution_resumes_def resume_execution_def replace_nth_def Let_def assms(2) gone)
  have "fst (kill_task_endpoint (re_vault env) i c (Returned code) r) = Inr ()"
    by (simp add: kill_task_endpoint_def controlled_def kill_task_def t)
  then show ?thesis by (simp add: r2 r1 reports_of_def gone)
qed

lemma kill_before_start_runs_witness:
  "\<exists>cmd nets. r_commands (fold (runner_step demo_runner_env) [ExecuteRequest True 10 demo_exec, ExecutionResumes 11 0 (Acked True),
      ExecutionResumes 12 0 (ImageReady True), KillRequest 5 (task_container_name 5) (Returned 1),
      ExecutionResumes 13 0 (Spawned None)] idle_runner) = [[''docker'', ''kill'', task_container_name 5], cmd] @ nets"
proof -
  obtain cmd where cmd: "runner_step demo_runner_env (ExecutionResumes 12 0 (ImageReady True))
     (idle_runner\<lparr>r_execs := [demo_execution AwaitImage], r_reports := [(5, pending_report 10)]\<rparr>) =
     idle_runner\<lparr>r_execs := [demo_execution (AwaitRunningAck cmd)], r_reports := [(5, pending_report 10), (5, running_report 10)],
       r_store := demo_stored\<rparr>" using demo_steps(3) by blast
  define r where "r = idle_runner\<lparr>r_execs := [demo_execution (AwaitRunningAck cmd)],
      r_reports := [(5, pending_report 10), (5, running_report 10)], r_store := demo_stored\<rparr>"
  have "\<exists>nets. r_commands (runner_step demo_runner_env (ExecutionResumes 13 0 (Spawned None))
      (runner_step demo_runner_env (KillRequest 5 (task_container_name 5) (Returned 1)) r)) = r_commands r @ [[''docker'', ''kill'', task_container_name 5], cmd] @ nets"
    by (rule conjunct1 [OF conjunct2 [OF kill_before_start_runs [of demo_runner_env "demo_execution (AwaitRunningAck cmd)" 5, OF _ _ _ _ _ _ refl refl]]])
      (use demo_ids in \<open>simp_all add: r_def idle_runner_def demo_runner_env_def dict_vault_ok demo_execution_def\<close>)
  then show ?thesis
    by (simp only: fold.simps comp_def id_def demo_steps(1,2) cmd r_def [symmetric]) (intro exI [of _ cmd], simp add: r_def idle_runner_def)
qed

end
