(* ===== verification/Vps_Snapshots.thy ===== *)
theory Vps_Snapshots
  imports Container_Commands "HOL-Library.Multiset"
begin

text \<open>
  Snapshots of Docker VPS (\<^verbatim>\<open>runner/services/vps_manager.py\<close>, the endpoints over them in
  \<^verbatim>\<open>runner/endpoints/vps.py\<close>, and the choice of the image to restore in
  \<^verbatim>\<open>runner/services/vps_creation.py\<close>).  The images live in the Docker daemon, which is an argument,
  \<open>image_daemon\<close>: the calls the service makes of its client library.  What is relied on is that images
  carry tags, each tag once, that a commit puts its tag on the new image and that a removal takes the
  tag away or changes nothing, \<open>image_daemon_ok\<close>.
\<close>

section \<open>The daemon\<close>

record docker_image =
  im_tags :: "string list"
  im_size :: int
  im_created :: string

datatype removal = Removed | NoSuchImage | RemoveFailed

record 'd image_daemon =
  di_up :: "'d \<Rightarrow> bool" \<comment> \<open>\<^verbatim>\<open>docker.from_env\<close> and \<^verbatim>\<open>images.list\<close> do not raise\<close>
  di_images :: "'d \<Rightarrow> docker_image list"
  di_commit :: "string \<Rightarrow> string \<Rightarrow> string \<Rightarrow> string \<Rightarrow> 'd \<Rightarrow> 'd option" \<comment> \<open>container, repository, tag, message\<close>
  di_remove :: "string \<Rightarrow> 'd \<Rightarrow> removal \<times> 'd"

definition all_tags :: "'d image_daemon \<Rightarrow> 'd \<Rightarrow> string list" where
  "all_tags D d = concat (map im_tags (di_images D d))"

locale image_store =
  fixes D :: "'d image_daemon"
  assumes tags_once: "distinct (all_tags D d)"
    and commit_tags: "di_commit D c repo tag msg d = Some d' \<Longrightarrow>
      set (all_tags D d') = insert (repo @ CHR '':'' # tag) (set (all_tags D d)) \<and> di_up D d'"
    and remove_tags: "di_remove D t d = (res, d') \<Longrightarrow>
      (if res = RemoveFailed then d' = d else set (all_tags D d') = set (all_tags D d) - {t})"
    and remove_up: "di_up D d \<Longrightarrow> di_up D (snd (di_remove D t d))"

definition image_daemon_ok :: "'d image_daemon \<Rightarrow> bool" where
  "image_daemon_ok D \<longleftrightarrow> image_store D"

section \<open>Listing\<close>

record snapshot =
  sn_tag :: string
  sn_task :: int
  sn_time :: int
  sn_size :: int
  sn_created :: string

definition tag_prefix :: "int \<Rightarrow> string" where
  "tag_prefix i = SNAPSHOT_PREFIX @ ''/vps-'' @ str_of_int i @ '':''"

definition snapshot_of :: "int \<Rightarrow> docker_image \<Rightarrow> string \<Rightarrow> snapshot option" where
  "snapshot_of i im tag =
     (if startswith tag (tag_prefix i)
      then (case parse_snapshot_tag tag of
              None \<Rightarrow> None
            | Some (j, t) \<Rightarrow> Some \<lparr>sn_tag = tag, sn_task = i, sn_time = t, sn_size = im_size im, sn_created = im_created im\<rparr>)
      else None)"

definition list_snapshots :: "'d image_daemon \<Rightarrow> int \<Rightarrow> 'd \<Rightarrow> snapshot list" where
  "list_snapshots D i d =
     (if \<not> di_up D d then []
      else sort_key (\<lambda>s. - sn_time s)
             (concat (map (\<lambda>im. List.map_filter (snapshot_of i im) (im_tags im)) (di_images D d))))"

definition get_latest_snapshot :: "'d image_daemon \<Rightarrow> int \<Rightarrow> 'd \<Rightarrow> string option" where
  "get_latest_snapshot D i d = (case list_snapshots D i d of [] \<Rightarrow> None | s # _ \<Rightarrow> Some (sn_tag s))"

section \<open>Creating and removing\<close>

text \<open>The loops over tags count what they removed; \<open>missing\<close>: a tag that is gone counts too.\<close>

definition remove_tag :: "'d image_daemon \<Rightarrow> bool \<Rightarrow> snapshot \<Rightarrow> int \<times> 'd \<Rightarrow> int \<times> 'd" where
  "remove_tag D missing s = (\<lambda>(n, d).
     case di_remove D (sn_tag s) d of
       (Removed, d') \<Rightarrow> (n + 1, d')
     | (NoSuchImage, d') \<Rightarrow> (if missing then n + 1 else n, d')
     | (RemoveFailed, d') \<Rightarrow> (n, d'))"

definition cleanup_old_snapshots :: "'d image_daemon \<Rightarrow> int \<Rightarrow> int \<Rightarrow> 'd \<Rightarrow> int \<times> 'd" where
  "cleanup_old_snapshots D i keep d =
     (let snapshots = list_snapshots D i d in
      if int (length snapshots) \<le> keep then (0, d)
      else if \<not> di_up D d then (0, d)
      else fold (remove_tag D True) (drop (nat keep) snapshots) (0, d))"

definition create_snapshot :: "'d image_daemon \<Rightarrow> runner_config \<Rightarrow> int \<Rightarrow> int \<Rightarrow> string \<Rightarrow> 'd \<Rightarrow> string option \<times> 'd" where
  "create_snapshot D cfg now i msg d =
     (let comment = (if msg \<noteq> [] then msg else ''VPS '' @ str_of_int i @ '' snapshot at '' @ str_of_int now)
      in case di_commit D (vps_container_name i) (SNAPSHOT_PREFIX @ ''/vps-'' @ str_of_int i) (str_of_int now) comment d of
           None \<Rightarrow> (None, d)
         | Some d' \<Rightarrow>
             (Some (snapshot_image_tag i now),
              if MAX_SNAPSHOTS_PER_VPS cfg > 0 then snd (cleanup_old_snapshots D i (MAX_SNAPSHOTS_PER_VPS cfg) d') else d'))"

definition delete_snapshot :: "'d image_daemon \<Rightarrow> int \<Rightarrow> int \<Rightarrow> 'd \<Rightarrow> bool \<times> 'd" where
  "delete_snapshot D i t d =
     (if \<not> di_up D d then (False, d)
      else case di_remove D (snapshot_image_tag i t) d of (res, d') \<Rightarrow> (res = Removed, d'))"

definition delete_all_snapshots :: "'d image_daemon \<Rightarrow> int \<Rightarrow> 'd \<Rightarrow> int \<times> 'd" where
  "delete_all_snapshots D i d =
     (let snapshots = list_snapshots D i d in
      if \<not> di_up D d then (0, d) else fold (remove_tag D False) snapshots (0, d))"

text \<open>What \<^verbatim>\<open>stop_vps\<close> does first, and what \<^verbatim>\<open>create_vps\<close> starts from.\<close>

definition snapshot_before_stop :: "'d image_daemon \<Rightarrow> runner_config \<Rightarrow> int \<Rightarrow> int \<Rightarrow> bool option \<Rightarrow> 'd \<Rightarrow> 'd" where
  "snapshot_before_stop D cfg now i wish d =
     (if (case wish of None \<Rightarrow> AUTO_SNAPSHOT_ON_STOP cfg | Some b \<Rightarrow> b)
      then snd (create_snapshot D cfg now i ''Auto-snapshot on stop'' d) else d)"

definition snapshot_to_restore :: "'d image_daemon \<Rightarrow> runner_config \<Rightarrow> int \<Rightarrow> bool option \<Rightarrow> 'd \<Rightarrow> string option" where
  "snapshot_to_restore D cfg i wish d =
     (if (case wish of None \<Rightarrow> AUTO_RESTORE_ON_CREATE cfg | Some b \<Rightarrow> b) then get_latest_snapshot D i d else None)"

section \<open>Endpoints\<close>

definition create_snapshot_endpoint ::
  "('s, task_state) kvault \<Rightarrow> 's \<Rightarrow> 'd image_daemon \<Rightarrow> runner_config \<Rightarrow> int \<Rightarrow> int \<Rightarrow> string option \<Rightarrow> ('d, string) st" where
  "create_snapshot_endpoint V s D cfg now i msg = (\<lambda>d.
     if stored_task V i s = None then (Inl (HTTPException 404 ''VPS is not running on this node.''), d)
     else (case create_snapshot D cfg now i (case msg of None \<Rightarrow> '''' | Some m \<Rightarrow> m) d of
             (None, d') \<Rightarrow> (Inl (HTTPException 500 ''Failed to create snapshot.''), d')
           | (Some tag, d') \<Rightarrow> (Inr tag, d')))"

definition delete_snapshot_endpoint :: "'d image_daemon \<Rightarrow> int \<Rightarrow> int \<Rightarrow> ('d, unit) st" where
  "delete_snapshot_endpoint D i t = (\<lambda>d.
     case delete_snapshot D i t d of
       (ok, d') \<Rightarrow> (if ok then Inr () else Inl (HTTPException 404 ''Snapshot not found or failed to delete.''), d'))"

definition delete_all_snapshots_endpoint :: "'d image_daemon \<Rightarrow> int \<Rightarrow> ('d, int) st" where
  "delete_all_snapshots_endpoint D i = (\<lambda>d. case delete_all_snapshots D i d of (n, d') \<Rightarrow> (Inr n, d'))"

definition get_latest_snapshot_endpoint :: "'d image_daemon \<Rightarrow> int \<Rightarrow> 'd \<Rightarrow> string res" where
  "get_latest_snapshot_endpoint D i d =
     (case get_latest_snapshot D i d of
        None \<Rightarrow> Inl (HTTPException 404 ''No snapshots found.'')
      | Some tag \<Rightarrow> if tag = [] then Inl (HTTPException 404 ''No snapshots found.'') else Inr tag)"

definition list_snapshots_endpoint :: "'d image_daemon \<Rightarrow> int \<Rightarrow> 'd \<Rightarrow> snapshot list \<times> int" where
  "list_snapshots_endpoint D i d = (let snapshots = list_snapshots D i d in (snapshots, int (length snapshots)))"

section \<open>The tags of a VPS\<close>

text \<open>The specification: the tags of the VPS among the daemon's, with their times.\<close>

definition vps_tags :: "'d image_daemon \<Rightarrow> int \<Rightarrow> 'd \<Rightarrow> (string \<times> int) set" where
  "vps_tags D i d = {(tag, t). tag \<in> set (all_tags D d) \<and>
     startswith tag (tag_prefix i) \<and> (\<exists>j. parse_snapshot_tag tag = Some (j, t))}"

lemma parse_own_tag [simp]: "parse_snapshot_tag (snapshot_image_tag i t) = Some (i, t)"
  using split1_first [of "CHR '':''" "str_of_int i" "str_of_int t"]
  by (simp add: parse_snapshot_tag_def snapshot_image_tag_def name_prefixes)

lemma own_prefix [simp]: "startswith (snapshot_image_tag i t) (tag_prefix i)"
  by (simp add: snapshot_image_tag_def tag_prefix_def)

lemma prefix_parses: 
  assumes "startswith tag (tag_prefix i)" "parse_snapshot_tag tag = Some (j, t)"
  shows "j = i"
proof -
  obtain r where r: "tag = SNAPSHOT_PREFIX @ ''/vps-'' @ str_of_int i @ CHR '':'' # r"
    using assms(1) by (auto simp: tag_prefix_def elim!: prefixE)
  show ?thesis using assms(2) split1_first [of "CHR '':''" "str_of_int i" r]
    by (simp add: r parse_snapshot_tag_def split: option.splits)
qed

lemma snapshot_of_parts:
  "snapshot_of i im tag = Some s \<longleftrightarrow>
   startswith tag (tag_prefix i) \<and>
   parse_snapshot_tag tag = Some (i, sn_time s) \<and> sn_tag s = tag \<and> sn_task s = i \<and>
   sn_size s = im_size im \<and> sn_created s = im_created im"
  using prefix_parses [of i tag] by (cases s) (auto simp: snapshot_of_def split: option.splits)

lemma snapshot_of_with:
  "(\<exists>s. snapshot_of i im t = Some s \<and> sn_tag s = a \<and> sn_time s = b) \<longleftrightarrow>
   t = a \<and> startswith a (tag_prefix i) \<and> parse_snapshot_tag a = Some (i, b)"
  using prefix_parses [of i t] by (auto simp: snapshot_of_def split: option.splits)

lemma snapshot_of_tag: "snapshot_of i im tag = Some s \<Longrightarrow> sn_tag s = tag"
  by (simp add: snapshot_of_parts)

lemma snapshot_of_ex: "snapshot_of i im t \<noteq> None \<longleftrightarrow> startswith t (tag_prefix i) \<and> parse_snapshot_tag t \<noteq> None"
  by (auto simp: snapshot_of_def split: option.splits)

lemma map_filter_tags:
  "map sn_tag (List.map_filter (snapshot_of i im) ts) = filter (\<lambda>t. startswith t (tag_prefix i) \<and> parse_snapshot_tag t \<noteq> None) ts"
  unfolding snapshot_of_ex [of i im, symmetric]
  by (induction ts) (auto simp: List.map_filter_simps dest: snapshot_of_tag split: option.split)

lemma listed_tags:
  "map sn_tag (concat (map (\<lambda>im. List.map_filter (snapshot_of i im) (im_tags im)) ims)) =
   filter (\<lambda>t. startswith t (tag_prefix i) \<and> parse_snapshot_tag t \<noteq> None) (concat (map im_tags ims))"
  by (induction ims) (simp_all add: map_filter_tags)

lemma snapshot_tags_distinct: "distinct (all_tags D d) \<Longrightarrow> distinct (map sn_tag (list_snapshots D i d))"
proof -
  have "mset (map sn_tag (sort_key f xs)) = mset (map sn_tag xs)" for f :: "snapshot \<Rightarrow> int" and xs by simp
  from mset_eq_imp_distinct_iff [OF this]
  show "distinct (all_tags D d) \<Longrightarrow> distinct (map sn_tag (list_snapshots D i d))"
    unfolding list_snapshots_def by (simp add: listed_tags all_tags_def)
qed

lemma set_map_filter: "set (List.map_filter f xs) = {y. \<exists>x \<in> set xs. f x = Some y}"
  by (induction xs) (auto simp: List.map_filter_simps split: option.splits)

lemma snapshots_in:
  "s \<in> set (list_snapshots D i d) \<longleftrightarrow>
     di_up D d \<and> (\<exists>im \<in> set (di_images D d). \<exists>t \<in> set (im_tags im). snapshot_of i im t = Some s)"
  by (force simp: list_snapshots_def set_map_filter)

lemma snapshot_tags: "di_up D d \<Longrightarrow> (\<lambda>s. (sn_tag s, sn_time s)) ` set (list_snapshots D i d) = vps_tags D i d"
proof (rule set_eqI)
  fix p :: "string \<times> int" assume up: "di_up D d"
  obtain a :: string and b :: int where p: "p = (a, b)" by (cases p)
  have "p \<in> vps_tags D i d \<longleftrightarrow> (\<exists>im \<in> set (di_images D d). a \<in> set (im_tags im) \<and> startswith a (tag_prefix i) \<and> parse_snapshot_tag a = Some (i, b))"
    using prefix_parses [of i a] by (fastforce simp: vps_tags_def all_tags_def p)
  also have "\<dots> \<longleftrightarrow> (\<exists>im \<in> set (di_images D d). \<exists>t \<in> set (im_tags im). \<exists>s. snapshot_of i im t = Some s \<and> sn_tag s = a \<and> sn_time s = b)"
    by (auto simp: snapshot_of_with)
  also have "\<dots> \<longleftrightarrow> p \<in> (\<lambda>s. (sn_tag s, sn_time s)) ` set (list_snapshots D i d)"
    unfolding image_iff p Bex_def snapshots_in using up by auto
  finally show "p \<in> (\<lambda>s. (sn_tag s, sn_time s)) ` set (list_snapshots D i d) \<longleftrightarrow> p \<in> vps_tags D i d" ..
qed

lemma snapshots_sorted: "sorted (map (\<lambda>s. - sn_time s) (list_snapshots D i d))"
  by (simp add: list_snapshots_def)

lemma latest_is_max:
  assumes "di_up D d" "(tag, t) \<in> vps_tags D i d" "\<And>tag' t'. (tag', t') \<in> vps_tags D i d \<Longrightarrow> tag' \<noteq> tag \<Longrightarrow> t' < t"
  shows "\<exists>s ss. list_snapshots D i d = s # ss \<and> sn_tag s = tag"
proof -
  have "(tag, t) \<in> (\<lambda>s. (sn_tag s, sn_time s)) ` set (list_snapshots D i d)"
    using assms(2) by (simp only: snapshot_tags [OF assms(1)])
  then obtain x where x: "x \<in> set (list_snapshots D i d)" "sn_time x = t" by auto
  then obtain s ss where s: "list_snapshots D i d = s # ss" by (cases "list_snapshots D i d") auto
  have "t \<le> sn_time s" using snapshots_sorted [of D i d] x by (auto simp: s)
  moreover have "(sn_tag s, sn_time s) \<in> vps_tags D i d"
    by (simp add: snapshot_tags [OF assms(1), symmetric] s)
  ultimately have "sn_tag s = tag" using assms(3) by fastforce
  with s show ?thesis by blast
qed

section \<open>What a service that keeps the laws does\<close>

text \<open>The tags of all other VPS.\<close>

definition other_tags :: "'d image_daemon \<Rightarrow> int \<Rightarrow> 'd \<Rightarrow> string set" where
  "other_tags D i d = {tag \<in> set (all_tags D d). \<not> startswith tag (tag_prefix i)}"

context image_store
begin

lemma remove_tag_step:
  assumes "remove_tag D m s (n, d) = (k, e)"
  shows "di_up D d \<Longrightarrow> di_up D e"
    "set (all_tags D e) = set (all_tags D d) - {sn_tag s} \<or> e = d \<and> fst (di_remove D (sn_tag s) d) = RemoveFailed"
proof -
  obtain res d1 where r: "di_remove D (sn_tag s) d = (res, d1)" by (cases "di_remove D (sn_tag s) d")
  have e: "e = d1" using assms by (cases res) (simp_all add: remove_tag_def r)
  show "di_up D d \<Longrightarrow> di_up D e" using remove_up [of d "sn_tag s"] r e by simp
  show "set (all_tags D e) = set (all_tags D d) - {sn_tag s} \<or> e = d \<and> fst (di_remove D (sn_tag s) d) = RemoveFailed"
    using remove_tags [OF r] r e by (auto split: if_splits)
qed

lemma remove_tags_fold:
  assumes "fold (remove_tag D m) ss (n, d) = (n', d')"
  shows "set (all_tags D d) - sn_tag ` set ss \<subseteq> set (all_tags D d') \<and>
    set (all_tags D d') \<subseteq> set (all_tags D d) \<and> (di_up D d \<longrightarrow> di_up D d') \<and>
    ((\<forall>t e. fst (di_remove D t e) \<noteq> RemoveFailed) \<longrightarrow> set (all_tags D d') = set (all_tags D d) - sn_tag ` set ss)"
  using assms
proof (induction ss arbitrary: n d)
  case (Cons s ss)
  obtain k e where k: "remove_tag D m s (n, d) = (k, e)" by (cases "remove_tag D m s (n, d)")
  have "fold (remove_tag D m) ss (k, e) = (n', d')" using Cons.prems by (simp add: k)
  from Cons.IH [OF this] remove_tag_step [OF k] show ?case by auto
qed simp

lemma cleanup_tags:
  assumes "cleanup_old_snapshots D i keep d = (n, d')" "0 < keep" "di_up D d"
    and "list_snapshots D i d = s # ss"
  shows "sn_tag s \<in> set (all_tags D d')" "set (all_tags D d') \<subseteq> set (all_tags D d)"
    "other_tags D i d' = other_tags D i d" "di_up D d'"
    "(\<And>t e. fst (di_remove D t e) \<noteq> RemoveFailed) \<Longrightarrow> card (vps_tags D i d') \<le> nat keep"
proof -
  let ?L = "list_snapshots D i d" and ?old = "drop (nat keep) (list_snapshots D i d)"
  have inj: "inj_on sn_tag (set ?L)" "distinct ?L"
    using snapshot_tags_distinct [OF tags_once, of i d] by (simp_all add: distinct_map)
  have f: "(n, d') = (if int (length ?L) \<le> keep then (0, d) else fold (remove_tag D True) ?old (0, d))"
    unfolding assms(1) [symmetric] using assms(3) by (simp add: cleanup_old_snapshots_def Let_def)
  have old: "sn_tag ` set ?old \<subseteq> {t. startswith t (tag_prefix i)}"
    by (auto simp: snapshots_in snapshot_of_parts dest!: in_set_dropD)
  have s: "s \<in> set ?L" "s \<notin> set ?old"
    using inj(2) assms(2,4) by (auto dest: in_set_dropD simp: drop_Cons' split: if_splits)
  have keep: "sn_tag s \<notin> sn_tag ` set ?old"
    using inj_onD [OF inj(1) _ s(1)] s(2) by (auto dest: in_set_dropD)
  have in_d: "sn_tag s \<in> set (all_tags D d)"
    using snapshot_tags [OF assms(3), of i] s(1) by (force simp: vps_tags_def)
  show up: "di_up D d'"
    using f remove_tags_fold assms(3) by (metis prod.inject)
  show sub: "set (all_tags D d') \<subseteq> set (all_tags D d)"
    using f remove_tags_fold [of True ?old 0 d n d'] by (auto split: if_splits)
  have sup: "set (all_tags D d) - sn_tag ` set ?old \<subseteq> set (all_tags D d')"
    using f remove_tags_fold [of True ?old 0 d n d'] by (auto split: if_splits)
  show "sn_tag s \<in> set (all_tags D d')" using sup keep in_d by blast
  show "other_tags D i d' = other_tags D i d" using sub sup old unfolding other_tags_def by blast
  assume none: "\<And>t e. fst (di_remove D t e) \<noteq> RemoveFailed"
  have fin: "finite (vps_tags D i e)" if "di_up D e" for e
    using snapshot_tags [OF that, of i, symmetric] by simp
  show "card (vps_tags D i d') \<le> nat keep"
  proof (cases "int (length ?L) \<le> keep")
    case True
    then have "d' = d" using f by simp
    then show ?thesis using True card_image_le [of "set ?L" "\<lambda>s. (sn_tag s, sn_time s)"] card_length [of ?L]
      by (simp add: snapshot_tags [OF assms(3)])
  next
    case False
    then have t: "set (all_tags D d') = set (all_tags D d) - sn_tag ` set ?old"
      using f remove_tags_fold [of True ?old 0 d n d'] none by auto
    have "vps_tags D i d' \<subseteq> (\<lambda>s. (sn_tag s, sn_time s)) ` set (take (nat keep) ?L)"
    proof
      fix p assume p: "p \<in> vps_tags D i d'"
      then have "p \<in> vps_tags D i d" using t by (auto simp: vps_tags_def)
      then obtain x where x: "x \<in> set ?L" "p = (sn_tag x, sn_time x)"
        by (auto simp: snapshot_tags [OF assms(3), symmetric])
      moreover have "x \<notin> set ?old" using p t x(2) by (auto simp: vps_tags_def)
      moreover have "set ?L = set (take (nat keep) ?L) \<union> set ?old" by (metis append_take_drop_id set_append)
      ultimately show "p \<in> (\<lambda>s. (sn_tag s, sn_time s)) ` set (take (nat keep) ?L)" by blast
    qed
    then have "card (vps_tags D i d') \<le> card ((\<lambda>s. (sn_tag s, sn_time s)) ` set (take (nat keep) ?L))"
      by (rule card_mono [rotated]) simp
    also have "\<dots> \<le> card (set (take (nat keep) ?L))" by (rule card_image_le) simp
    also have "\<dots> \<le> nat keep" by (rule order_trans [OF card_length]) simp
    finally show ?thesis .
  qed
qed

end

text \<open>A daemon whose state is the list of its tags keeps the laws.\<close>

definition tag_daemon :: "string list image_daemon" where
  "tag_daemon = \<lparr>di_up = (\<lambda>d. True),
     di_images = (\<lambda>d. map (\<lambda>t. \<lparr>im_tags = [t], im_size = 0, im_created = ''''\<rparr>) (remdups d)),
     di_commit = (\<lambda>c repo tag msg d. Some ((repo @ CHR '':'' # tag) # d)),
     di_remove = (\<lambda>t d. (if t \<in> set d then Removed else NoSuchImage, removeAll t d))\<rparr>"

lemma tag_daemon_tags: "all_tags tag_daemon d = remdups d"
  by (simp add: all_tags_def tag_daemon_def comp_def)

interpretation tag_daemon: image_store tag_daemon
  by unfold_locales (auto simp: tag_daemon_tags, auto simp: tag_daemon_def split: if_splits)

lemma tag_daemon_ok: "image_daemon_ok tag_daemon"
  unfolding image_daemon_ok_def by (rule tag_daemon.image_store_axioms)

section \<open>Properties\<close>

text \<open>C28: a VPS that is stopped comes back as it was.  Once the snapshot of the stop was committed, the
  next creation of the VPS starts from exactly that image, as long as no older snapshot carries a later
  time; whatever the cleanup of old snapshots then removes, no tag of another VPS is touched, and at
  most the configured number of snapshots stays unless Docker refuses to remove one.\<close>

theorem snapshot_then_restore:
  assumes "image_daemon_ok D" "create_snapshot D cfg now i msg d = (Some tag, d')"
    and "\<And>old t. (old, t) \<in> vps_tags D i d \<Longrightarrow> t < now"
  shows "tag = snapshot_image_tag i now \<and> get_latest_snapshot D i d' = Some tag \<and>
    (AUTO_RESTORE_ON_CREATE cfg \<longrightarrow> snapshot_to_restore D cfg i None d' = Some tag) \<and>
    (\<forall>j. j \<noteq> i \<longrightarrow> vps_tags D j d' = vps_tags D j d) \<and>
    (MAX_SNAPSHOTS_PER_VPS cfg > 0 \<and> (\<forall>t e. fst (di_remove D t e) \<noteq> RemoveFailed) \<longrightarrow>
       card (vps_tags D i d') \<le> nat (MAX_SNAPSHOTS_PER_VPS cfg))"
proof -
  have D: "image_store D" using assms(1) by (simp add: image_daemon_ok_def)
  obtain txt0 e where c: "di_commit D (vps_container_name i) (SNAPSHOT_PREFIX @ ''/vps-'' @ str_of_int i) (str_of_int now) txt0 d = Some e"
      and tag: "tag = snapshot_image_tag i now"
      and d': "d' = (if MAX_SNAPSHOTS_PER_VPS cfg > 0 then snd (cleanup_old_snapshots D i (MAX_SNAPSHOTS_PER_VPS cfg) e) else e)"
    using assms(2) unfolding create_snapshot_def Let_def by (cases "msg = []") (auto split: option.splits)
  have e: "set (all_tags D e) = insert tag (set (all_tags D d))" "di_up D e"
    using image_store.commit_tags [OF D c] by (simp_all add: tag snapshot_image_tag_def)
  have own: "vps_tags D i e = insert (tag, now) (vps_tags D i d)"
    by (auto simp: vps_tags_def e(1) tag)
  obtain s ss where s: "list_snapshots D i e = s # ss" "sn_tag s = tag"
    using latest_is_max [OF e(2), of tag now i] assms(3) own by (metis insertI1 insertE Pair_inject)
  obtain n where n: "MAX_SNAPSHOTS_PER_VPS cfg > 0 \<Longrightarrow> cleanup_old_snapshots D i (MAX_SNAPSHOTS_PER_VPS cfg) e = (n, d')"
    using d' by (metis prod.collapse)
  have after: "tag \<in> set (all_tags D d') \<and> set (all_tags D d') \<subseteq> set (all_tags D e) \<and> other_tags D i d' = other_tags D i e \<and> di_up D d'"
    using image_store.cleanup_tags(1-4) [OF D n _ e(2) s(1)] d' s(2) e by (cases "MAX_SNAPSHOTS_PER_VPS cfg > 0") auto
  have mine: "(tag, now) \<in> vps_tags D i d'" using after by (auto simp: vps_tags_def tag)
  have "(old, t) \<in> vps_tags D i e" if "(old, t) \<in> vps_tags D i d'" for old t
    using that after by (auto simp: vps_tags_def)
  then have "\<exists>s ss. list_snapshots D i d' = s # ss \<and> sn_tag s = tag"
    using latest_is_max [OF conjunct2 [OF conjunct2 [OF conjunct2 [OF after]]] mine] assms(3) own by blast
  then have latest: "get_latest_snapshot D i d' = Some tag" by (auto simp: get_latest_snapshot_def)
  have others: "vps_tags D j d' = vps_tags D j d" if "j \<noteq> i" for j
  proof -
    have "other_tags D i e = other_tags D i d"
      unfolding other_tags_def e(1) using own_prefix [of i now] tag by blast
    then have o: "other_tags D i d' = other_tags D i d" using after by (simp only:)
    have "(t, x) \<in> vps_tags D j f \<longleftrightarrow> t \<in> other_tags D i f \<and> startswith t (tag_prefix j) \<and> parse_snapshot_tag t = Some (j, x)" for t x f
      unfolding vps_tags_def other_tags_def mem_Collect_eq case_prod_conv
      using that prefix_parses [of j t] prefix_parses [of i t] by blast
    then show ?thesis by (simp add: set_eq_iff split_paired_all o)
  qed
  show ?thesis using tag latest others image_store.cleanup_tags(5) [OF D n _ e(2) s(1)]
    by (simp add: snapshot_to_restore_def)
qed

lemma snapshot_then_restore_witness:
  "get_latest_snapshot tag_daemon 7
     (snd (create_snapshot tag_daemon (demo_runner\<lparr>MAX_SNAPSHOTS_PER_VPS := 1\<rparr>) 30 7 '''' [snapshot_image_tag 7 20, snapshot_image_tag 8 90]))
   = Some (snapshot_image_tag 7 30)"
proof -
  let ?d = "[snapshot_image_tag 7 20, snapshot_image_tag 8 90]" and ?cfg = "demo_runner\<lparr>MAX_SNAPSHOTS_PER_VPS := 1\<rparr>"
  have "fst (create_snapshot tag_daemon ?cfg 30 7 '''' ?d) = Some (snapshot_image_tag 7 30)"
    by (simp add: create_snapshot_def tag_daemon_def)
  then have c: "create_snapshot tag_daemon ?cfg 30 7 '''' ?d =
      (Some (snapshot_image_tag 7 30), snd (create_snapshot tag_daemon ?cfg 30 7 '''' ?d))"
    by (metis prod.collapse)
  have "t < 30" if "(old, t) \<in> vps_tags tag_daemon 7 ?d" for old t
    using that prefix_parses [of 7 "snapshot_image_tag 8 90"]
    by (auto simp: vps_tags_def tag_daemon_tags split: if_splits)
  from snapshot_then_restore [OF tag_daemon_ok c this] show ?thesis by simp
qed

end
