(* ===== verification/Vm_Network.thy ===== *)
theory Vm_Network
  imports Runner_Config Vault_Store Overlay_Subnet
begin

text \<open>
  Networks of virtual machines on a runner (\<^verbatim>\<open>runner/services/vm_network_manager.py\<close>): TAP devices on the
  overlay bridges with addresses reserved at the host, or on a NAT bridge with addresses of a local
  pool.  The kernel is an argument, \<open>vm_kernel\<close>, with the calls of pyroute2, \<^verbatim>\<open>ip\<close> and \<^verbatim>\<open>iptables\<close> that
  the manager makes; so are the hash functions and the host's answers to reservation requests.
\<close>

section \<open>The kernel\<close>

record 'k vm_kernel =
  vk_links :: "'k \<Rightarrow> (string \<times> int) list" \<comment> \<open>names and indices\<close>
  vk_addrs :: "int \<Rightarrow> 'k \<Rightarrow> (string \<times> int) list" \<comment> \<open>addresses and prefix lengths\<close>
  vk_tuntap :: "string \<Rightarrow> 'k \<Rightarrow> bool \<times> 'k" \<comment> \<open>\<^verbatim>\<open>ip tuntap add\<close>: whether it returned 0\<close>
  vk_add_bridge :: "string \<Rightarrow> ('k, unit) st"
  vk_add_addr :: "int \<Rightarrow> string \<Rightarrow> int \<Rightarrow> ('k, unit) st"
  vk_master :: "int \<Rightarrow> int \<Rightarrow> ('k, unit) st"
  vk_up :: "int \<Rightarrow> ('k, unit) st"
  vk_del :: "int \<Rightarrow> ('k, unit) st"
  vk_forward :: "'k \<Rightarrow> 'k" \<comment> \<open>writes 1 to \<^verbatim>\<open>ip_forward\<close>, if it can\<close>
  vk_iptables :: "string list \<Rightarrow> 'k \<Rightarrow> bool \<times> 'k" \<comment> \<open>whether it returned 0\<close>

definition link_names :: "'k vm_kernel \<Rightarrow> 'k \<Rightarrow> string set" where
  "link_names K k = set (map fst (vk_links K k))"

section \<open>Names\<close>

record hashes =
  hx_hex :: "string \<Rightarrow> string" \<comment> \<open>\<^verbatim>\<open>hashlib.sha3_224(s).hexdigest()\<close>\<close>
  hx_bytes :: "string \<Rightarrow> nat list" \<comment> \<open>\<^verbatim>\<open>.digest()\<close>\<close>

definition tap_name :: "hashes \<Rightarrow> int \<Rightarrow> string \<Rightarrow> string" where
  "tap_name hx i sfx = ''tap-'' @ take 7 (hx_hex hx (str_of_int i)) @ sfx"

definition hex2 :: "nat \<Rightarrow> string" where
  "hex2 n = [digit_char (n div 16 mod 16), digit_char (n mod 16)]"

definition generate_mac :: "hashes \<Rightarrow> int \<Rightarrow> nat \<Rightarrow> string" where
  "generate_mac hx i n =
     (let h = hx_bytes hx (str_of_int i @ '':'' @ str_of_nat n)
      in ''52:54:00:'' @ hex2 (h ! 0) @ '':'' @ hex2 (h ! 1) @ '':'' @ hex2 (h ! 2))"

section \<open>State\<close>

record vm_iface =
  if_network :: string
  if_tap :: string
  if_mac :: string
  if_ip :: string
  if_gateway :: string
  if_bridge :: string
  if_netmask :: string
  if_prefix :: int
  if_dns :: "string list"
  if_mode :: string
  if_token :: "string option"

record vm_network_info =
  ni_interfaces :: "vm_iface list"
  ni_runner_url :: string

definition primary_iface :: "vm_network_info \<Rightarrow> vm_iface" where
  "primary_iface info = ni_interfaces info ! 0"

text \<open>\<open>vn_released\<close>: the tokens whose release was asked of the host.\<close>

record 'k vm_net =
  vn_kernel :: 'k
  vn_overlay :: bool
  vn_nat_ready :: bool
  vn_allocs :: "(int, vm_network_info) dict"
  vn_used :: "string list"
  vn_released :: "string list"

definition NAT_PREFIX :: int where "NAT_PREFIX = 24"
definition NAT_POOL_START :: nat where "NAT_POOL_START = 10"
definition NAT_POOL_END :: nat where "NAT_POOL_END = 254"
definition DNS_SERVERS :: "string list" where "DNS_SERVERS = [''8.8.8.8'', ''8.8.4.4'']"
definition DEFAULT_OVERLAY_BRIDGE :: string where "DEFAULT_OVERLAY_BRIDGE = ''kohaku-overlay''"

text \<open>An operation on the kernel as one of the manager.\<close>

definition on_kernel :: "('k, 'a) st \<Rightarrow> ('k vm_net, 'a) st" where
  "on_kernel f = (\<lambda>s. case f (vn_kernel s) of (res, k) \<Rightarrow> (res, s\<lparr>vn_kernel := k\<rparr>))"

section \<open>TAP devices\<close>

definition create_tap :: "'k vm_kernel \<Rightarrow> string \<Rightarrow> string \<Rightarrow> ('k, unit) st" where
  "create_tap K tap bridge = (\<lambda>k0.
     let (ok, k) = (if tap \<in> link_names K k0 then (True, k0) else vk_tuntap K tap k0);
         links = rev (vk_links K k)
     in if \<not> ok then (Inl (RuntimeError (''Failed to create TAP '' @ tap)), k)
        else case map_of links tap of
               None \<Rightarrow> (Inl (RuntimeError (''TAP '' @ tap @ '' not found after creation'')), k)
             | Some ti \<Rightarrow>
                 (case (if bridge = tap then None else map_of links bridge) of
                    None \<Rightarrow> (Inl (RuntimeError (''Bridge '' @ bridge @ '' not found'')), k)
                  | Some bi \<Rightarrow> bind_st (vk_master K ti bi) (\<lambda>_. vk_up K ti) k))"

text \<open>Every exception is caught.\<close>

definition delete_tap :: "'k vm_kernel \<Rightarrow> string \<Rightarrow> 'k \<Rightarrow> 'k" where
  "delete_tap K tap k = (case map_of (vk_links K k) tap of None \<Rightarrow> k | Some i \<Rightarrow> snd (vk_del K i k))"

section \<open>Set-up\<close>

definition check_bridge_exists :: "'k vm_kernel \<Rightarrow> string \<Rightarrow> 'k \<Rightarrow> bool" where
  "check_bridge_exists K bridge k = (bridge \<in> link_names K k)"

text \<open>A rule is checked with one option and added with another when the check fails.\<close>

definition ensure_rule :: "'k vm_kernel \<Rightarrow> string list \<Rightarrow> string list \<Rightarrow> 'k \<Rightarrow> 'k" where
  "ensure_rule K check add k =
     (case vk_iptables K check k of (ok, k1) \<Rightarrow> if ok then k1 else snd (vk_iptables K add k1))"

definition setup_nat_firewall_rules :: "'k vm_kernel \<Rightarrow> runner_config \<Rightarrow> 'k \<Rightarrow> 'k" where
  "setup_nat_firewall_rules K cfg k =
     (let subnet = VM_BRIDGE_SUBNET cfg;
          nat = [''POSTROUTING'', ''-s'', subnet, ''!'', ''-d'', subnet, ''-j'', ''MASQUERADE''];
          forward = (\<lambda>d. [d, subnet, ''-j'', ''ACCEPT''])
      in fold (\<lambda>d. ensure_rule K ([''iptables'', ''-C'', ''FORWARD''] @ forward d) ([''iptables'', ''-I'', ''FORWARD'', ''1''] @ forward d))
           [''-s'', ''-d'']
           (ensure_rule K ([''iptables'', ''-t'', ''nat'', ''-C''] @ nat) ([''iptables'', ''-t'', ''nat'', ''-A''] @ nat) k))"

definition setup_nat_bridge :: "'k vm_kernel \<Rightarrow> runner_config \<Rightarrow> ('k, unit) st" where
  "setup_nat_bridge K cfg =
     bind_st (\<lambda>k. case map_of (vk_links K k) (VM_BRIDGE_NAME cfg) of
          Some i \<Rightarrow> (Inr i, k)
        | None \<Rightarrow> bind_st (vk_add_bridge K (VM_BRIDGE_NAME cfg)) (\<lambda>_ k1.
            case map_of (vk_links K k1) (VM_BRIDGE_NAME cfg) of
              Some i \<Rightarrow> (Inr i, k1)
            | None \<Rightarrow> (Inl (RuntimeError (''Failed to create bridge '' @ VM_BRIDGE_NAME cfg)), k1)) k) (\<lambda>i.
     bind_st (vk_up K i) (\<lambda>_.
     bind_st (\<lambda>k. if VM_BRIDGE_GATEWAY cfg \<in> set (map fst (vk_addrs K i k)) then (Inr (), k)
                  else vk_add_addr K i (VM_BRIDGE_GATEWAY cfg) NAT_PREFIX k) (\<lambda>_ k.
     (Inr (), setup_nat_firewall_rules K cfg (vk_forward K k)))))"

text \<open>The bridge that a network's containers and VMs are on; the kernel allows 15 characters.\<close>

definition overlay_bridge :: "string option \<Rightarrow> string" where
  "overlay_bridge n =
     (if truthy n \<and> n \<noteq> Some ''default'' then take 15 (''kohaku-'' @ the n) else DEFAULT_OVERLAY_BRIDGE)"

definition setup_vm_network :: "'k vm_kernel \<Rightarrow> runner_config \<Rightarrow> ('k vm_net, unit) st" where
  "setup_vm_network K cfg = (\<lambda>s0.
     let s = s0\<lparr>vn_overlay := OVERLAY_ENABLED cfg \<and> overlay_configured cfg\<rparr> in
     if vn_overlay s
     then
       let probe = (case get_overlay_network_names cfg of
                      n # _ \<Rightarrow> if n \<noteq> ''default'' then take 15 (''kohaku-'' @ n) else DEFAULT_OVERLAY_BRIDGE
                    | [] \<Rightarrow> DEFAULT_OVERLAY_BRIDGE)
       in if check_bridge_exists K probe (vn_kernel s) then (Inr (), s)
          else (Inl (RuntimeError (''Overlay mode but bridge '' @ probe @ '' not found'')), s)
     else bind_st (on_kernel (setup_nat_bridge K cfg)) (\<lambda>_ s. (Inr (), s\<lparr>vn_nat_ready := True\<rparr>)) s)"

section \<open>Standard mode\<close>

definition local_pool :: "runner_config \<Rightarrow> string list" where
  "local_pool cfg =
     (let net = hd (split_on CHR ''/'' (VM_BRIDGE_SUBNET cfg));
          base = (case rsplit1 CHR ''.'' net of None \<Rightarrow> net | Some (b, _) \<Rightarrow> b)
      in map (\<lambda>i. base @ ''.'' @ str_of_nat i) [NAT_POOL_START..<Suc NAT_POOL_END])"

definition allocate_local_ip :: "runner_config \<Rightarrow> ('k vm_net, string) st" where
  "allocate_local_ip cfg = (\<lambda>s.
     case find (\<lambda>a. a \<notin> set (vn_used s)) (local_pool cfg) of
       None \<Rightarrow> (Inl (RuntimeError ''No available IPs in VM NAT pool''), s)
     | Some a \<Rightarrow> (Inr a, s\<lparr>vn_used := vn_used s @ [a]\<rparr>))"

definition release_local_ip :: "string \<Rightarrow> 'k vm_net \<Rightarrow> 'k vm_net" where
  "release_local_ip a s = s\<lparr>vn_used := removeAll a (vn_used s)\<rparr>"

definition netmask_of :: "int \<Rightarrow> string" where
  "netmask_of p = ipv4_str (2 ^ 32 - 2 ^ nat (32 - p))"

text \<open>\<^verbatim>\<open>ipaddress.IPv4Network(s)\<close> rejects an address with host bits.\<close>

definition strict_network :: "string \<Rightarrow> ipv4_network res" where
  "strict_network s =
     bind_res (ipv4_network s) (\<lambda>n.
     bind_res (parse_ipv4 (hd (split_on CHR ''/'' s))) (\<lambda>a.
     if a = network_address n then Inr n else Inl (ValueError (s @ '' has host bits set''))))"

definition create_standard_vm_network :: "'k vm_kernel \<Rightarrow> hashes \<Rightarrow> runner_config \<Rightarrow> int \<Rightarrow> ('k vm_net, vm_network_info) st" where
  "create_standard_vm_network K hx cfg i =
     bind_st (allocate_local_ip cfg) (\<lambda>a.
     bind_st (on_kernel (create_tap K (tap_name hx i '''') (VM_BRIDGE_NAME cfg))) (\<lambda>_.
     bind_st (lift_res (strict_network (VM_BRIDGE_SUBNET cfg))) (\<lambda>net.
       return_st \<lparr>ni_interfaces =
           [\<lparr>if_network = ''standard'', if_tap = tap_name hx i '''', if_mac = generate_mac hx i 0, if_ip = a,
             if_gateway = VM_BRIDGE_GATEWAY cfg, if_bridge = VM_BRIDGE_NAME cfg, if_netmask = netmask_of (prefixlen net),
             if_prefix = NAT_PREFIX, if_dns = DNS_SERVERS, if_mode = ''standard'', if_token = None\<rparr>],
         ni_runner_url = ''http://'' @ VM_BRIDGE_GATEWAY cfg @ '':'' @ str_of_int (RUNNER_PORT cfg)\<rparr>)))"

section \<open>Overlay mode\<close>

definition get_bridge_prefix :: "'k vm_kernel \<Rightarrow> runner_config \<Rightarrow> string \<Rightarrow> string \<Rightarrow> 'k \<Rightarrow> int res" where
  "get_bridge_prefix K cfg bridge gateway k =
     (case concat (map (\<lambda>(n, i). if n = bridge then filter (\<lambda>(a, p). a = gateway) (vk_addrs K i k) else []) (vk_links K k)) of
        (a, p) # _ \<Rightarrow> Inr p
      | [] \<Rightarrow> bind_res (subnet_parse (OVERLAY_SUBNET_CIDR cfg)) (\<lambda>c. Inr (runner_prefix c)))"

definition release_overlay_ip_token :: "string \<Rightarrow> 'k vm_net \<Rightarrow> 'k vm_net" where
  "release_overlay_ip_token tok s = s\<lparr>vn_released := vn_released s @ [tok]\<rparr>"

definition release_if :: "string option \<Rightarrow> 'k vm_net \<Rightarrow> 'k vm_net" where
  "release_if tok s = (if truthy tok then release_overlay_ip_token (the tok) s else s)"

definition drop_tap :: "'k vm_kernel \<Rightarrow> string \<Rightarrow> 'k vm_net \<Rightarrow> 'k vm_net" where
  "drop_tap K tap s = s\<lparr>vn_kernel := delete_tap K tap (vn_kernel s)\<rparr>"

text \<open>The part of \<^verbatim>\<open>_create_overlay_interface\<close> after the reservation; \<open>tok\<close> is what it got.\<close>

definition build_overlay_interface ::
  "'k vm_kernel \<Rightarrow> hashes \<Rightarrow> runner_config \<Rightarrow> int \<Rightarrow> string option \<Rightarrow> nat \<Rightarrow> string \<Rightarrow> string option \<Rightarrow> ('k vm_net, vm_iface) st" where
  "build_overlay_interface K hx cfg i net idx addr tok =
     (let tap = tap_name hx i (if idx > 0 then ''-'' @ str_of_nat idx else '''');
          bridge = overlay_bridge net
      in bind_st (lift_res (if truthy net \<and> net \<noteq> Some ''default'' then Inr (get_container_gateway net cfg)
                            else case overlay_gateway cfg of
                                   Some g \<Rightarrow> Inr g
                                 | None \<Rightarrow> Inl (AttributeError ''_overlay_gateway''))) (\<lambda>gateway.
         bind_st (on_kernel (create_tap K tap bridge)) (\<lambda>_ s.
           case bind_res (get_bridge_prefix K cfg bridge gateway (vn_kernel s)) (\<lambda>p.
                bind_res (ipv4_network (gateway @ ''/'' @ str_of_int p)) (\<lambda>n. Inr (p, n))) of
             Inl e \<Rightarrow> (Inl e, drop_tap K tap s)
           | Inr (p, n) \<Rightarrow>
               (Inr \<lparr>if_network = (if truthy net then the net else ''default''), if_tap = tap, if_mac = generate_mac hx i idx,
                     if_ip = addr, if_gateway = gateway, if_bridge = bridge, if_netmask = netmask_of (prefixlen n),
                     if_prefix = p, if_dns = DNS_SERVERS, if_mode = ''overlay'', if_token = tok\<rparr>, s))))"

text \<open>\<open>answer\<close>: the address and token the host reserved, \<open>None\<close> if the request failed.\<close>

definition reserve_overlay_ip :: "(string \<times> string) option \<Rightarrow> ('k vm_net, string \<times> string option) st" where
  "reserve_overlay_ip answer = (\<lambda>s.
     case answer of
       None \<Rightarrow> (Inl (RuntimeError ''Failed to reserve overlay IP''), s)
     | Some (a, tok) \<Rightarrow> (Inr (a, Some tok), s))"

definition create_overlay_interface ::
  "'k vm_kernel \<Rightarrow> hashes \<Rightarrow> runner_config \<Rightarrow> (string \<times> string) option \<Rightarrow> int \<Rightarrow> string option \<Rightarrow> nat \<Rightarrow> string option
   \<Rightarrow> ('k vm_net, vm_iface) st" where
  "create_overlay_interface K hx cfg answer i net idx reserved =
     bind_st (if truthy reserved then return_st (the reserved, None) else reserve_overlay_ip answer) (\<lambda>(a, tok) s.
       case build_overlay_interface K hx cfg i net idx a tok s of
         (Inr x, s') \<Rightarrow> (Inr x, s')
       | (Inl e, s') \<Rightarrow> (Inl e, release_if tok s'))"

definition roll_back :: "'k vm_kernel \<Rightarrow> vm_iface \<Rightarrow> 'k vm_net \<Rightarrow> 'k vm_net" where
  "roll_back K x s = release_if (if_token x) (drop_tap K (if_tap x) s)"

text \<open>The loop over the networks, with the interfaces made so far; a failure rolls them back.\<close>

fun create_interfaces ::
  "'k vm_kernel \<Rightarrow> hashes \<Rightarrow> runner_config \<Rightarrow> (nat \<Rightarrow> (string \<times> string) option) \<Rightarrow> int \<Rightarrow> (string, string) dict
   \<Rightarrow> vm_iface list \<Rightarrow> string option list \<Rightarrow> ('k vm_net, vm_iface list) st" where
  "create_interfaces K hx cfg answers i rips made [] = return_st made"
| "create_interfaces K hx cfg answers i rips made (net # nets) = (\<lambda>s.
     let idx = length made; reserved = (if truthy net then map_of rips (the net) else None)
     in case create_overlay_interface K hx cfg (answers idx) i net idx reserved s of
          (Inr x, s') \<Rightarrow> create_interfaces K hx cfg answers i rips (made @ [x]) nets s'
        | (Inl e, s') \<Rightarrow> (Inl e, fold (roll_back K) made s'))"

definition net_list :: "runner_config \<Rightarrow> string list option \<Rightarrow> string option list" where
  "net_list cfg names =
     (case names of
        Some (n # ns) \<Rightarrow> map Some (n # ns)
      | _ \<Rightarrow> (case get_overlay_network_names cfg of [] \<Rightarrow> [None] | a # _ \<Rightarrow> [Some a]))"

definition create_vm_network ::
  "'k vm_kernel \<Rightarrow> hashes \<Rightarrow> runner_config \<Rightarrow> (nat \<Rightarrow> (string \<times> string) option) \<Rightarrow> int \<Rightarrow> string list option
   \<Rightarrow> (string, string) dict option \<Rightarrow> ('k vm_net, vm_network_info) st" where
  "create_vm_network K hx cfg answers i names rips = (\<lambda>s.
     bind_st (if \<not> vn_overlay s then create_standard_vm_network K hx cfg i
              else bind_st (create_interfaces K hx cfg answers i (case rips of None \<Rightarrow> [] | Some d \<Rightarrow> d) [] (net_list cfg names)) (\<lambda>xs.
                return_st \<lparr>ni_interfaces = xs,
                  ni_runner_url = ''http://'' @ if_gateway (xs ! 0) @ '':'' @ str_of_int (RUNNER_PORT cfg)\<rparr>)) (\<lambda>info s.
       (Inr info, s\<lparr>vn_allocs := AList.update i info (vn_allocs s)\<rparr>)) s)"

definition cleanup_iface :: "'k vm_kernel \<Rightarrow> vm_iface \<Rightarrow> 'k vm_net \<Rightarrow> 'k vm_net" where
  "cleanup_iface K x s =
     (let s1 = drop_tap K (if_tap x) s
      in if if_mode x = ''overlay'' then release_if (if_token x) s1 else release_local_ip (if_ip x) s1)"

definition cleanup_vm_network :: "'k vm_kernel \<Rightarrow> int \<Rightarrow> 'k vm_net \<Rightarrow> 'k vm_net" where
  "cleanup_vm_network K i s =
     (case map_of (vn_allocs s) i of
        None \<Rightarrow> s
      | Some info \<Rightarrow> fold (cleanup_iface K) (ni_interfaces info) (s\<lparr>vn_allocs := AList.delete i (vn_allocs s)\<rparr>))"

section \<open>What the guest is told\<close>

record guest_network =
  gn_mac :: string
  gn_address :: string
  gn_gateway :: string
  gn_dns :: "string list"

definition get_cloud_init_network_config :: "vm_network_info \<Rightarrow> guest_network" where
  "get_cloud_init_network_config info =
     (let p = primary_iface info
      in \<lparr>gn_mac = if_mac p, gn_address = if_ip p @ ''/'' @ str_of_int (if_prefix p), gn_gateway = if_gateway p, gn_dns = if_dns p\<rparr>)"

definition get_vm_runner_url :: "vm_network_info \<Rightarrow> string" where
  "get_vm_runner_url info = ni_runner_url info"

section \<open>After a restart of the runner\<close>

text \<open>\<^verbatim>\<open>_recover_network_allocation\<close> in \<^verbatim>\<open>runner/background/startup_check.py\<close>, from the stored state of
  a VM.\<close>

definition recovered_iface :: "vm_state \<Rightarrow> vm_iface_state \<Rightarrow> vm_iface" where
  "recovered_iface d x =
     \<lparr>if_network = (case vi_network x of None \<Rightarrow> ''default'' | Some n \<Rightarrow> n),
      if_tap = (case vi_tap x of None \<Rightarrow> '''' | Some t \<Rightarrow> t),
      if_mac = (if vi_network x = vi_network (hd (vm_ifaces d)) then vm_mac d else ''''),
      if_ip = (case vi_ip x of None \<Rightarrow> '''' | Some a \<Rightarrow> a), if_gateway = vm_gateway d,
      if_bridge = (case vi_bridge x of None \<Rightarrow> '''' | Some b \<Rightarrow> b), if_netmask = '''', if_prefix = vm_prefix d, if_dns = [],
      if_mode = (case vi_mode x of None \<Rightarrow> vm_mode d | Some m \<Rightarrow> m), if_token = vi_token x\<rparr>"

definition recovered_ifaces :: "vm_state \<Rightarrow> vm_iface list" where
  "recovered_ifaces d =
     (if vm_ifaces d \<noteq> [] then map (recovered_iface d) (vm_ifaces d)
      else [\<lparr>if_network = ''default'', if_tap = vm_tap d, if_mac = vm_mac d, if_ip = vm_addr d, if_gateway = vm_gateway d,
             if_bridge = vm_bridge d, if_netmask = '''', if_prefix = vm_prefix d, if_dns = [], if_mode = vm_mode d, if_token = None\<rparr>])"

definition recover_network_allocation :: "int \<Rightarrow> vm_state \<Rightarrow> 'k vm_net \<Rightarrow> 'k vm_net" where
  "recover_network_allocation i d s =
     (if vm_addr d = [] then s
      else
        let xs = recovered_ifaces d;
            mine = filter (\<lambda>a. a \<noteq> []) (map if_ip (filter (\<lambda>x. if_mode x = ''standard'') xs))
        in s\<lparr>vn_allocs := AList.update i \<lparr>ni_interfaces = xs, ni_runner_url = ''''\<rparr> (vn_allocs s),
             vn_used := fold List.insert mine (vn_used s)\<rparr>)"

end
