(* ===== verification/Vm_Properties.thy ===== *)
theory Vm_Properties
  imports Vm_Network Host_Examples Subnet_Properties
begin

text \<open>
  What the VM networks promise: no two VMs share a local address, a creation that fails takes back what
  it made, and where that promise ends: the device of a missing bridge, and the term of the host's
  reservation.
\<close>

section \<open>The kernel's laws\<close>

text \<open>Names and indices of links are unique; only adding and removing a link changes the names.\<close>

locale tap_kernel =
  fixes K :: "'k vm_kernel"
  assumes links_once: "distinct (map fst (vk_links K k)) \<and> distinct (map snd (vk_links K k))"
    and tuntap_names: "vk_tuntap K t k = (ok, k') \<Longrightarrow> link_names K k' = (if ok then insert t (link_names K k) else link_names K k)"
    and master_names: "link_names K (snd (vk_master K a b k)) = link_names K k"
    and up_names: "link_names K (snd (vk_up K a k)) = link_names K k"
    and del_names: "map_of (vk_links K k) t = Some a \<Longrightarrow> vk_del K a k = (res, k') \<Longrightarrow>
      link_names K k' = (case res of Inl e \<Rightarrow> link_names K k | Inr u \<Rightarrow> link_names K k - {t})"

definition tap_kernel_ok :: "'k vm_kernel \<Rightarrow> bool" where
  "tap_kernel_ok K \<longleftrightarrow> tap_kernel K"

text \<open>The kernel removes every link it is asked to.\<close>

definition deletes :: "'k vm_kernel \<Rightarrow> bool" where
  "deletes K \<longleftrightarrow> (\<forall>a k. \<exists>u. fst (vk_del K a k) = Inr u)"

lemma map_of_name: "map_of (vk_links K k) t = None \<longleftrightarrow> t \<notin> link_names K k"
  by (simp add: link_names_def map_of_eq_None_iff)

lemma on_kernel_fields:
  "on_kernel f s = (res, s') \<Longrightarrow> s' = s\<lparr>vn_kernel := snd (f (vn_kernel s))\<rparr> \<and> res = fst (f (vn_kernel s))"
  by (auto simp: on_kernel_def split: prod.splits)

lemma drop_tap_fields [simp]:
  "vn_allocs (drop_tap K t s) = vn_allocs s" "vn_used (drop_tap K t s) = vn_used s"
  "vn_released (drop_tap K t s) = vn_released s" "vn_overlay (drop_tap K t s) = vn_overlay s"
  "vn_kernel (drop_tap K t s) = delete_tap K t (vn_kernel s)"
  by (simp_all add: drop_tap_def)

definition given :: "string option \<Rightarrow> string list" where
  "given tok = (if truthy tok then [the tok] else [])"

lemma release_if_fields [simp]:
  "vn_allocs (release_if tok s) = vn_allocs s" "vn_used (release_if tok s) = vn_used s"
  "vn_released (release_if tok s) = vn_released s @ given tok" "vn_overlay (release_if tok s) = vn_overlay s"
  "vn_kernel (release_if tok s) = vn_kernel s"
  by (simp_all add: release_if_def release_overlay_ip_token_def given_def)

context tap_kernel
begin

lemma delete_tap_names:
  "link_names K (delete_tap K t k) \<subseteq> link_names K k"
  "deletes K \<Longrightarrow> link_names K (delete_tap K t k) = link_names K k - {t}"
proof -
  have 1: "link_names K (delete_tap K t k) = link_names K k - {t} \<or> link_names K (delete_tap K t k) = link_names K k \<and> \<not> deletes K"
  proof (cases "map_of (vk_links K k) t")
    case None
    then show ?thesis using map_of_name [of K k t] by (simp add: delete_tap_def)
  next
    case (Some a)
    obtain res k' where d: "vk_del K a k = (res, k')" by (cases "vk_del K a k")
    have "res = Inr () \<or> \<not> deletes K" unfolding deletes_def using d by (metis fst_conv old.unit.exhaust)
    with del_names [OF Some d] show ?thesis by (cases res) (auto simp: delete_tap_def Some d)
  qed
  then show "link_names K (delete_tap K t k) \<subseteq> link_names K k" by blast
  show "deletes K \<Longrightarrow> link_names K (delete_tap K t k) = link_names K k - {t}" using 1 by blast
qed

lemma create_tap_names:
  assumes "create_tap K t b k = (res, k')"
  shows "link_names K k' \<subseteq> insert t (link_names K k)"
proof -
  obtain ok k1 where k1: "(if t \<in> link_names K k then (True, k) else vk_tuntap K t k) = (ok, k1)" by force
  have 1: "link_names K k1 \<subseteq> insert t (link_names K k)"
    using k1 tuntap_names [of t k ok k1] by (auto split: if_splits)
  have "link_names K k' = link_names K k1"
    using assms k1 unfolding create_tap_def Let_def
    by (auto simp: bind_st_def up_names split: option.splits if_splits prod.splits sum.splits)
      (metis master_names snd_conv up_names)+
  with 1 show ?thesis by simp
qed

end

section \<open>Interfaces\<close>

definition nic_tap :: "hashes \<Rightarrow> int \<Rightarrow> nat \<Rightarrow> string" where
  "nic_tap hx i idx = tap_name hx i (if idx > 0 then ''-'' @ str_of_nat idx else '''')"

text \<open>What an operation of the manager leaves alone.\<close>

definition same_books :: "'k vm_net \<Rightarrow> 'k vm_net \<Rightarrow> bool" where
  "same_books s s' \<longleftrightarrow> vn_allocs s' = vn_allocs s \<and> vn_used s' = vn_used s \<and> vn_overlay s' = vn_overlay s"

text \<open>The token obtained at the host for the interface at \<open>idx\<close>, if one was asked for.\<close>

definition obtained :: "(nat \<Rightarrow> (string \<times> string) option) \<Rightarrow> (string, string) dict \<Rightarrow> string option \<Rightarrow> nat \<Rightarrow> string option" where
  "obtained answers rips net idx =
     (if truthy (if truthy net then map_of rips (the net) else None) then None else map_option snd (answers idx))"

context tap_kernel
begin

lemma build_interface:
  assumes "build_overlay_interface K hx cfg i net idx a tok s = (res, s')"
  shows "same_books s s'" "vn_released s' = vn_released s"
    "link_names K (vn_kernel s') \<subseteq> insert (nic_tap hx i idx) (link_names K (vn_kernel s))"
    "\<And>x. res = Inr x \<Longrightarrow> if_tap x = nic_tap hx i idx \<and> if_token x = tok \<and> if_ip x = a \<and> if_mode x = ''overlay''"
proof -
  let ?t = "nic_tap hx i idx"
  obtain g where g: "(if truthy net \<and> net \<noteq> Some ''default'' then Inr (get_container_gateway net cfg)
      else case overlay_gateway cfg of Some g \<Rightarrow> Inr g | None \<Rightarrow> Inl (AttributeError ''_overlay_gateway'')) = g" by blast
  obtain res1 k1 where k1: "create_tap K ?t (overlay_bridge net) (vn_kernel s) = (res1, k1)" by (cases "create_tap K ?t (overlay_bridge net) (vn_kernel s)")
  note names = create_tap_names [OF k1]
  define s1 where "s1 = s\<lparr>vn_kernel := k1\<rparr>"
  have b: "(res, s') =
      (case g of Inl e \<Rightarrow> (Inl e, s)
       | Inr gw \<Rightarrow> (case res1 of Inl e \<Rightarrow> (Inl e, s1)
         | Inr u \<Rightarrow> (case bind_res (get_bridge_prefix K cfg (overlay_bridge net) gw k1) (\<lambda>p.
                bind_res (ipv4_network (gw @ ''/'' @ str_of_int p)) (\<lambda>n. Inr (p, n))) of
             Inl e \<Rightarrow> (Inl e, drop_tap K ?t s1)
           | Inr (p, n) \<Rightarrow>
               (Inr \<lparr>if_network = (if truthy net then the net else ''default''), if_tap = ?t, if_mac = generate_mac hx i idx,
                     if_ip = a, if_gateway = gw, if_bridge = overlay_bridge net, if_netmask = netmask_of (prefixlen n),
                     if_prefix = p, if_dns = DNS_SERVERS, if_mode = ''overlay'', if_token = tok\<rparr>, s1))))"
    unfolding assms [symmetric] build_overlay_interface_def Let_def nic_tap_def [symmetric] g s1_def
    by (cases g; cases res1) (simp_all add: bind_st_def lift_res_def on_kernel_def k1)
  have all: "same_books s s' \<and> vn_released s' = vn_released s \<and>
      link_names K (vn_kernel s') \<subseteq> insert ?t (link_names K (vn_kernel s)) \<and>
      (\<forall>x. res = Inr x \<longrightarrow> if_tap x = ?t \<and> if_token x = tok \<and> if_ip x = a \<and> if_mode x = ''overlay'')"
  proof (cases g)
    case (Inr gw)
    let ?p = "bind_res (get_bridge_prefix K cfg (overlay_bridge net) gw k1) (\<lambda>p. bind_res (ipv4_network (gw @ ''/'' @ str_of_int p)) (\<lambda>n. Inr (p, n)))"
    show ?thesis
    proof (cases res1)
      case ok: (Inr u)
      show ?thesis
      proof (cases ?p)
        case (Inl e)
        then have "s' = drop_tap K ?t s1" "res = Inl e" using b by (simp_all add: Inr ok)
        then show ?thesis using names delete_tap_names(1) [of ?t k1] by (auto simp: same_books_def s1_def)
      next
        case pn: (Inr pn)
        then have "s' = s1" "\<forall>x. res = Inr x \<longrightarrow> if_tap x = ?t \<and> if_token x = tok \<and> if_ip x = a \<and> if_mode x = ''overlay''"
          using b by (auto simp: Inr ok split: prod.splits)
        then show ?thesis using names by (simp add: same_books_def s1_def)
      qed
    qed (use b names Inr in \<open>simp add: same_books_def s1_def\<close>)
  qed (use b in \<open>auto simp: same_books_def\<close>)
  then show "same_books s s'" "vn_released s' = vn_released s"
    "link_names K (vn_kernel s') \<subseteq> insert ?t (link_names K (vn_kernel s))" by blast+
  show "\<And>x. res = Inr x \<Longrightarrow> if_tap x = ?t \<and> if_token x = tok \<and> if_ip x = a \<and> if_mode x = ''overlay''"
    using all by blast
qed

lemma create_interface:
  assumes "create_overlay_interface K hx cfg answer i net idx rsv s = (res, s')"
  defines "tok \<equiv> if truthy rsv then None else map_option snd answer"
  shows "same_books s s'"
    "link_names K (vn_kernel s') \<subseteq> insert (nic_tap hx i idx) (link_names K (vn_kernel s))"
    "vn_released s' = vn_released s @ (case res of Inl e \<Rightarrow> given tok | Inr x \<Rightarrow> [])"
    "\<And>x. res = Inr x \<Longrightarrow> if_tap x = nic_tap hx i idx \<and> if_token x = tok \<and> if_mode x = ''overlay'' \<and>
       if_ip x = (if truthy rsv then the rsv else fst (the answer))"
proof -
  have fails: "s' = s \<and> (\<exists>e. res = Inl e) \<and> given tok = []" if "\<not> truthy rsv" "answer = None"
    using assms that by (auto simp: create_overlay_interface_def reserve_overlay_ip_def bind_st_def given_def truthy_def)
  have built: "\<exists>res1 s1. build_overlay_interface K hx cfg i net idx (if truthy rsv then the rsv else fst (the answer)) tok s = (res1, s1) \<and>
      (case res1 of Inr x \<Rightarrow> res = Inr x \<and> s' = s1 | Inl e \<Rightarrow> res = Inl e \<and> s' = release_if tok s1)"
    if "truthy rsv \<or> answer \<noteq> None"
  proof -
    obtain r1 s1 where b: "build_overlay_interface K hx cfg i net idx (if truthy rsv then the rsv else fst (the answer)) tok s = (r1, s1)"
      by (metis surj_pair)
    have "(res, s') = (case r1 of Inr x \<Rightarrow> (Inr x, s1) | Inl e \<Rightarrow> (Inl e, release_if tok s1))"
      using that b unfolding assms(1) [symmetric] tok_def
      by (auto simp: create_overlay_interface_def reserve_overlay_ip_def bind_st_def return_st_def split: sum.split)
    then show ?thesis using b by (cases r1) auto
  qed
  have all: "same_books s s' \<and> link_names K (vn_kernel s') \<subseteq> insert (nic_tap hx i idx) (link_names K (vn_kernel s)) \<and>
      vn_released s' = vn_released s @ (case res of Inl e \<Rightarrow> given tok | Inr x \<Rightarrow> []) \<and>
      (\<forall>x. res = Inr x \<longrightarrow> if_tap x = nic_tap hx i idx \<and> if_token x = tok \<and> if_mode x = ''overlay'' \<and>
         if_ip x = (if truthy rsv then the rsv else fst (the answer)))"
  proof (cases "truthy rsv \<or> answer \<noteq> None")
    case True
    then obtain res1 s1 where 1: "build_overlay_interface K hx cfg i net idx (if truthy rsv then the rsv else fst (the answer)) tok s = (res1, s1)"
        "case res1 of Inr x \<Rightarrow> res = Inr x \<and> s' = s1 | Inl e \<Rightarrow> res = Inl e \<and> s' = release_if tok s1" using built by blast
    from build_interface [OF 1(1)] 1(2) show ?thesis by (cases res1) (simp_all add: same_books_def)
  next
    case False
    then have "\<not> truthy rsv" "answer = None" by blast+
    from fails [OF this] show ?thesis by (auto simp: same_books_def)
  qed
  then show "same_books s s'" "link_names K (vn_kernel s') \<subseteq> insert (nic_tap hx i idx) (link_names K (vn_kernel s))"
    "vn_released s' = vn_released s @ (case res of Inl e \<Rightarrow> given tok | Inr x \<Rightarrow> [])" by blast+
  show "\<And>x. res = Inr x \<Longrightarrow> if_tap x = nic_tap hx i idx \<and> if_token x = tok \<and> if_mode x = ''overlay'' \<and>
       if_ip x = (if truthy rsv then the rsv else fst (the answer))"
    using all by blast
qed

end

section \<open>A failed creation\<close>

context tap_kernel
begin

lemma roll_back_all:
  assumes "deletes K"
  shows "same_books s (fold (roll_back K) xs s) \<and>
    vn_released (fold (roll_back K) xs s) = vn_released s @ concat (map (\<lambda>x. given (if_token x)) xs) \<and>
    link_names K (vn_kernel (fold (roll_back K) xs s)) = link_names K (vn_kernel s) - if_tap ` set xs"
proof (induction xs arbitrary: s)
  case (Cons x xs)
  have "same_books s (roll_back K x s)" "vn_released (roll_back K x s) = vn_released s @ given (if_token x)"
    "link_names K (vn_kernel (roll_back K x s)) = link_names K (vn_kernel s) - {if_tap x}"
    by (simp_all add: roll_back_def same_books_def delete_tap_names(2) [OF assms])
  with Cons.IH [of "roll_back K x s"] show ?case by (auto simp: same_books_def)
qed (simp add: same_books_def)

lemma create_interfaces_fail:
  assumes "create_interfaces K hx cfg answers i rips made nets s = (Inl e, s')" "deletes K"
  shows "\<exists>n < length nets. same_books s s' \<and>
    set (vn_released s') = set (vn_released s) \<union> (\<Union>x \<in> set made. set (given (if_token x))) \<union>
      (\<Union>m \<in> {..n}. set (given (obtained answers rips (nets ! m) (length made + m)))) \<and>
    link_names K (vn_kernel s') \<subseteq> insert (nic_tap hx i (length made + n)) (link_names K (vn_kernel s) - if_tap ` set made)"
  using assms(1)
proof (induction nets arbitrary: made s)
  case (Cons net nets)
  let ?r = "if truthy net then map_of rips (the net) else None"
  obtain res s1 where c: "create_overlay_interface K hx cfg (answers (length made)) i net (length made) ?r s = (res, s1)"
    by (cases "create_overlay_interface K hx cfg (answers (length made)) i net (length made) ?r s")
  note one = create_interface [OF c]
  have tok: "(if truthy ?r then None else map_option snd (answers (length made))) = obtained answers rips net (length made)"
    by (simp add: obtained_def)
  show ?case
  proof (cases res)
    case (Inl f)
    then have s': "s' = fold (roll_back K) made s1" using Cons.prems c by simp
    show ?thesis using roll_back_all [OF assms(2), of s1 made] one(1-3) Inl unfolding tok s'
      by (intro exI [of _ 0]) (auto simp: same_books_def)
  next
    case (Inr x)
    then have "create_interfaces K hx cfg answers i rips (made @ [x]) nets s1 = (Inl e, s')" using Cons.prems c by simp
    from Cons.IH [OF this] obtain n where n: "n < length nets" "same_books s1 s'"
        "set (vn_released s') = set (vn_released s1) \<union> (\<Union>y \<in> set (made @ [x]). set (given (if_token y))) \<union>
          (\<Union>m \<in> {..n}. set (given (obtained answers rips (nets ! m) (length (made @ [x]) + m))))"
        "link_names K (vn_kernel s') \<subseteq> insert (nic_tap hx i (length (made @ [x]) + n)) (link_names K (vn_kernel s1) - if_tap ` set (made @ [x]))"
      by blast
    have t: "if_tap x = nic_tap hx i (length made)" "if_token x = obtained answers rips net (length made)"
      using one(4) [OF Inr] tok by auto
    have "(\<Union>m \<in> {..Suc n}. set (given (obtained answers rips ((net # nets) ! m) (length made + m)))) =
        set (given (obtained answers rips net (length made))) \<union>
        (\<Union>m \<in> {..n}. set (given (obtained answers rips (nets ! m) (length (made @ [x]) + m))))"
      by (simp add: atMost_Suc_eq_insert_0)
    then show ?thesis using n one(1-3) Inr t
      by (intro exI [of _ "Suc n"]) (auto simp: same_books_def)
  qed
qed (simp add: return_st_def)

end

text \<open>C33: a creation on overlay networks that fails takes back what it made.  The books are as before,
  every token that was reserved on the way was released, the one of the failing interface included,
  and of the devices only that of the failing interface can be left behind, if the kernel deletes what it
  is asked to.  In standard mode a failure leaves more behind (\<open>missing_bridge_leaves_device\<close>).\<close>

theorem failed_create_rolls_back:
  assumes "tap_kernel_ok K" "deletes K" "vn_overlay s"
    and "create_vm_network K hx cfg answers i names rips s = (Inl e, s')"
  shows "\<exists>n < length (net_list cfg names). vn_allocs s' = vn_allocs s \<and> vn_used s' = vn_used s \<and>
    set (vn_released s') = set (vn_released s) \<union>
      (\<Union>m \<in> {..n}. set (given (obtained answers (case rips of None \<Rightarrow> [] | Some d \<Rightarrow> d) (net_list cfg names ! m) m))) \<and>
    link_names K (vn_kernel s') \<subseteq> insert (nic_tap hx i n) (link_names K (vn_kernel s))"
proof -
  have K: "tap_kernel K" using assms(1) by (simp add: tap_kernel_ok_def)
  have "create_interfaces K hx cfg answers i (case rips of None \<Rightarrow> [] | Some d \<Rightarrow> d) [] (net_list cfg names) s = (Inl e, s')"
    using assms(3,4) by (auto simp: create_vm_network_def bind_st_def return_st_def split: prod.splits sum.splits)
  from tap_kernel.create_interfaces_fail [OF K this assms(2)] show ?thesis by (auto simp: same_books_def)
qed

section \<open>A kernel for examples\<close>

text \<open>A kernel whose state is the list of its links' names; the index of a link is its place.\<close>

definition demo_links :: "string list \<Rightarrow> (string \<times> int) list" where
  "demo_links k = zip (remdups k) (map int [0..<length (remdups k)])"

definition demo_taps :: "string list vm_kernel" where
  "demo_taps = \<lparr>vk_links = demo_links, vk_addrs = (\<lambda>i k. []), vk_tuntap = (\<lambda>t k. (True, k @ [t])),
     vk_add_bridge = (\<lambda>t k. (Inr (), k @ [t])), vk_add_addr = (\<lambda>i a p k. (Inr (), k)),
     vk_master = (\<lambda>a b k. (Inr (), k)), vk_up = (\<lambda>a k. (Inr (), k)),
     vk_del = (\<lambda>a k. (Inr (), filter (\<lambda>n. (n, a) \<notin> set (demo_links k)) k)),
     vk_forward = (\<lambda>k. k), vk_iptables = (\<lambda>c k. (True, k))\<rparr>"

lemma demo_taps_simps:
  "vk_links demo_taps = demo_links" "vk_addrs demo_taps a k = []" "vk_tuntap demo_taps t k = (True, k @ [t])" "vk_master demo_taps a b k = (Inr (), k)"
  "vk_up demo_taps a k = (Inr (), k)" "vk_del demo_taps a k = (Inr (), filter (\<lambda>n. (n, a) \<notin> set (demo_links k)) k)"
  by (simp_all add: demo_taps_def)

lemma demo_link_names [simp]: "link_names demo_taps k = set k"
  by (simp add: link_names_def demo_taps_simps demo_links_def flip: set_map)

lemma demo_links_unique: "(n, a) \<in> set (demo_links k) \<Longrightarrow> (m, a) \<in> set (demo_links k) \<Longrightarrow> n = m"
  by (auto simp: demo_links_def in_set_zip)

interpretation demo_taps: tap_kernel demo_taps
proof
  fix k t a res k'
  assume m: "map_of (vk_links demo_taps k) t = Some a" and d: "vk_del demo_taps a k = (res, k')"
  have "(t, a) \<in> set (demo_links k)" using map_of_SomeD [OF m] by (simp add: demo_taps_simps)
  then have "(n, a) \<in> set (demo_links k) \<longleftrightarrow> n = t" for n
    using demo_links_unique [of n a k t] by (auto simp only:)
  then have "filter (\<lambda>n. (n, a) \<notin> set (demo_links k)) k = filter (\<lambda>n. n \<noteq> t) k" by simp
  then have "res = Inr ()" "k' = filter (\<lambda>n. n \<noteq> t) k" using d by (simp_all add: demo_taps_simps)
  then show "link_names demo_taps k' = (case res of Inl e \<Rightarrow> link_names demo_taps k | Inr u \<Rightarrow> link_names demo_taps k - {t})"
    by auto
next
  show "distinct (map fst (vk_links demo_taps k)) \<and> distinct (map snd (vk_links demo_taps k))" for k
    by (simp add: demo_taps_simps demo_links_def distinct_map inj_on_def)
qed (auto simp: demo_taps_simps)

lemma demo_taps_ok: "tap_kernel_ok demo_taps" "deletes demo_taps"
  unfolding tap_kernel_ok_def deletes_def by (rule demo_taps.tap_kernel_axioms) (simp add: demo_taps_simps)

definition demo_hashes :: hashes where
  "demo_hashes = \<lparr>hx_hex = (\<lambda>s. s @ ''0000000''), hx_bytes = (\<lambda>s. [1, 2, 3])\<rparr>"

definition demo_net :: "bool \<Rightarrow> string list \<Rightarrow> string list vm_net" where
  "demo_net ov links = \<lparr>vn_kernel = links, vn_overlay = ov, vn_nat_ready = \<not> ov, vn_allocs = [], vn_used = [], vn_released = []\<rparr>"

lemma demo_str: "str_of_int 5 = ''5''"
  by code_simp

lemma failed_create_rolls_back_witness:
  "set (vn_released (snd (create_vm_network demo_taps demo_hashes demo_runner (\<lambda>m. Some (''10.128.0.5'', ''tok'')) 5 (Some [''a'']) None
     (demo_net True [])))) = {''tok''}"
proof -
  let ?create = "create_vm_network demo_taps demo_hashes demo_runner (\<lambda>m. Some (''10.128.0.5'', ''tok'')) 5 (Some [''a'']) None (demo_net True [])"
  have "fst ?create = Inl (RuntimeError ''Bridge kohaku-a not found'')"
    by (simp add: create_vm_network_def bind_st_def net_list_def demo_net_def create_overlay_interface_def reserve_overlay_ip_def
        build_overlay_interface_def lift_res_def on_kernel_def create_tap_def demo_taps_simps demo_links_def overlay_bridge_def
        truthy_def tap_name_def demo_hashes_def demo_str Let_def del: str_of_int_nat)
  then have c: "?create = (Inl (RuntimeError ''Bridge kohaku-a not found''), snd ?create)" by (metis prod.collapse)
  have "vn_overlay (demo_net True [])" by (simp add: demo_net_def)
  from failed_create_rolls_back [OF demo_taps_ok this c]
  obtain n where "n < length (net_list demo_runner (Some [''a'']))"
    "set (vn_released (snd ?create)) = set (vn_released (demo_net True [])) \<union>
      (\<Union>m \<in> {..n}. set (given (obtained (\<lambda>m. Some (''10.128.0.5'', ''tok'')) [] (net_list demo_runner (Some [''a'']) ! m) m)))" by auto
  then show ?thesis by (simp add: net_list_def obtained_def given_def truthy_def demo_net_def)
qed

text \<open>A missing bridge.  The device is made before the bridge is looked up, and nothing deletes it when
  the attachment fails: in both modes the failed creation leaves its device behind, and in standard mode
  the address taken from the local pool stays taken, although the VM is in no book.\<close>

theorem missing_bridge_leaves_device:
  assumes "tap_kernel_ok K" "bridge = (if vn_overlay s then overlay_bridge (hd (net_list cfg names)) else VM_BRIDGE_NAME cfg)"
    and "bridge \<notin> link_names K (vn_kernel s)" "bridge \<noteq> nic_tap hx i 0" "fst (vk_tuntap K (nic_tap hx i 0) (vn_kernel s))"
    and "find (\<lambda>a. a \<notin> set (vn_used s)) (local_pool cfg) = Some a" "answers 0 \<noteq> None" "overlay_gateway cfg \<noteq> None"
  shows "\<exists>s'. create_vm_network K hx cfg answers i names rips s = (Inl (RuntimeError (''Bridge '' @ bridge @ '' not found'')), s') \<and>
    nic_tap hx i 0 \<in> link_names K (vn_kernel s') \<and> vn_allocs s' = vn_allocs s \<and>
    vn_used s' = (if vn_overlay s then vn_used s else vn_used s @ [a])"
proof -
  let ?t = "nic_tap hx i 0" and ?k = "vn_kernel s"
  have K: "tap_kernel K" using assms(1) by (simp add: tap_kernel_ok_def)
  obtain ok k1 where k1: "(if ?t \<in> link_names K ?k then (True, ?k) else vk_tuntap K ?t ?k) = (ok, k1)" by force
  have ok: "ok" using k1 assms(5) by (auto split: if_splits)
  have names: "link_names K k1 = insert ?t (link_names K ?k)"
    using k1 ok tap_kernel.tuntap_names [OF K, of ?t ?k ok k1] by (auto split: if_splits)
  have rev: "map_of (rev (vk_links K k1)) n = None \<longleftrightarrow> n \<notin> link_names K k1" for n
    by (simp add: link_names_def map_of_eq_None_iff)
  obtain ti where ti: "map_of (rev (vk_links K k1)) ?t = Some ti" using rev [of ?t] names by auto
  have "map_of (rev (vk_links K k1)) bridge = None" using rev names assms(3,4) by simp
  then have tap: "create_tap K ?t bridge ?k = (Inl (RuntimeError (''Bridge '' @ bridge @ '' not found'')), k1)"
    using k1 ok ti assms(4) by (simp add: create_tap_def Let_def)
  have on: "on_kernel (create_tap K ?t bridge) s' = (Inl (RuntimeError (''Bridge '' @ bridge @ '' not found'')), s'\<lparr>vn_kernel := k1\<rparr>)"
    if "vn_kernel s' = ?k" for s' using that by (simp add: on_kernel_def tap)
  show ?thesis
  proof (cases "vn_overlay s")
    case False
    then have "create_vm_network K hx cfg answers i names rips s =
        (Inl (RuntimeError (''Bridge '' @ bridge @ '' not found'')), s\<lparr>vn_used := vn_used s @ [a], vn_kernel := k1\<rparr>)"
      using on [of "s\<lparr>vn_used := vn_used s @ [a]\<rparr>"] assms(2,6)
      by (simp add: create_vm_network_def create_standard_vm_network_def bind_st_def allocate_local_ip_def nic_tap_def)
    then show ?thesis using False names by simp
  next
    case True
    obtain net nets where net: "net_list cfg names = net # nets"
      by (cases "net_list cfg names") (auto simp: net_list_def split: option.splits list.splits)
    obtain g where g: "(if truthy net \<and> net \<noteq> Some ''default'' then Inr (get_container_gateway net cfg)
        else case overlay_gateway cfg of Some g \<Rightarrow> Inr g | None \<Rightarrow> Inl (AttributeError ''_overlay_gateway'')) = (Inr g :: string res)"
      using assms(8) by fastforce
    have built: "build_overlay_interface K hx cfg i net 0 x tok s = (Inl (RuntimeError (''Bridge '' @ bridge @ '' not found'')), s\<lparr>vn_kernel := k1\<rparr>)" for x tok
      unfolding build_overlay_interface_def Let_def nic_tap_def [symmetric] g
      using on [of s] True assms(2) net by (simp add: bind_st_def lift_res_def)
    have "\<exists>tok. create_overlay_interface K hx cfg (answers 0) i net 0 r s =
        (Inl (RuntimeError (''Bridge '' @ bridge @ '' not found'')), release_if tok (s\<lparr>vn_kernel := k1\<rparr>))" for r
      using assms(7) by (auto simp: create_overlay_interface_def bind_st_def return_st_def reserve_overlay_ip_def built)
    from this [of "if truthy net then map_of (case rips of None \<Rightarrow> [] | Some d \<Rightarrow> d) (the net) else None"]
    obtain tok where "create_vm_network K hx cfg answers i names rips s =
        (Inl (RuntimeError (''Bridge '' @ bridge @ '' not found'')), release_if tok (s\<lparr>vn_kernel := k1\<rparr>))"
      using True by (auto simp: create_vm_network_def bind_st_def net Let_def)
    then show ?thesis using True names by simp
  qed
qed

lemma missing_bridge_leaves_device_witness:
  "\<exists>s'. create_vm_network demo_taps demo_hashes (set_overlay_configured ''10.0.0.1'' demo_runner) (\<lambda>m. Some (''10.128.0.5'', ''tok'')) 5 None None (demo_net False []) =
     (Inl (RuntimeError ''Bridge kohaku-br0 not found''), s') \<and>
    nic_tap demo_hashes 5 0 \<in> link_names demo_taps (vn_kernel s') \<and> vn_used s' = [''10.200.0.10'']"
proof -
  let ?cfg = "set_overlay_configured ''10.0.0.1'' demo_runner"
  have pool: "find (\<lambda>a. a \<notin> set (vn_used (demo_net False []))) (local_pool ?cfg) = Some ''10.200.0.10''"
  proof -
    have "rsplit1 CHR ''.'' (hd (split_on CHR ''/'' ''10.200.0.0/24'')) = Some (''10.200.0'', ''0'')" "str_of_nat 10 = ''10''" by code_simp+
    then show ?thesis
      by (simp add: local_pool_def set_overlay_configured_def demo_runner_def demo_net_def NAT_POOL_START_def NAT_POOL_END_def upt_conv_Cons)
  qed
  have "VM_BRIDGE_NAME ?cfg = ''kohaku-br0''" "''kohaku-br0'' \<noteq> nic_tap demo_hashes 5 0"
    by (simp_all add: set_overlay_configured_def demo_runner_def nic_tap_def tap_name_def)
  with missing_bridge_leaves_device [OF demo_taps_ok(1) refl, of "demo_net False []" ?cfg None demo_hashes 5, OF _ _ _ pool,
      of "\<lambda>m. Some (''10.128.0.5'', ''tok'')" None]
  show ?thesis by (fastforce simp: demo_net_def demo_taps_simps set_overlay_configured_def)
qed

section \<open>Local addresses\<close>

definition local_ips :: "vm_network_info \<Rightarrow> string list" where
  "local_ips info = map if_ip (filter (\<lambda>x. if_mode x \<noteq> ''overlay'') (ni_interfaces info))"

text \<open>The local addresses of a VM are taken from the pool and marked, and no two VMs have one in common.\<close>

definition local_ok :: "runner_config \<Rightarrow> 'k vm_net \<Rightarrow> bool" where
  "local_ok cfg s \<longleftrightarrow>
     (\<forall>i info. map_of (vn_allocs s) i = Some info \<longrightarrow> set (local_ips info) \<subseteq> set (vn_used s) \<and> distinct (local_ips info)) \<and>
     (\<forall>i j info info'. i \<noteq> j \<longrightarrow> map_of (vn_allocs s) i = Some info \<longrightarrow> map_of (vn_allocs s) j = Some info' \<longrightarrow>
        set (local_ips info) \<inter> set (local_ips info') = {}) \<and>
     set (vn_used s) \<subseteq> set (local_pool cfg)"

lemma local_ok_cong:
  "vn_allocs s' = vn_allocs s \<Longrightarrow> vn_used s' = vn_used s \<Longrightarrow> local_ok cfg s' = local_ok cfg s"
  by (simp add: local_ok_def)

lemma local_ok_update:
  assumes "local_ok cfg s" "vn_allocs s' = AList.update i info (vn_allocs s)" "set (vn_used s) \<subseteq> set (vn_used s')"
    and "set (vn_used s') \<subseteq> set (local_pool cfg)" "set (local_ips info) \<subseteq> set (vn_used s') - set (vn_used s)" "distinct (local_ips info)"
  shows "local_ok cfg s'"
  using assms unfolding local_ok_def by (simp add: get_update) blast

text \<open>The loop of the overlay mode leaves the books alone and makes overlay interfaces.\<close>

lemma fold_roll_back_books: "same_books s (fold (roll_back K) xs s)"
  by (induction xs arbitrary: s) (auto simp: same_books_def roll_back_def)

lemma build_books:
  "build_overlay_interface K hx cfg i net idx a tok s = (res, s') \<Longrightarrow> same_books s s' \<and> (\<forall>x. res = Inr x \<longrightarrow> if_mode x = ''overlay'')"
  unfolding build_overlay_interface_def Let_def
  by (auto simp: same_books_def bind_st_def lift_res_def on_kernel_def split: sum.splits prod.splits)

lemma interface_books:
  "create_overlay_interface K hx cfg answer i net idx r s = (res, s') \<Longrightarrow> same_books s s' \<and> (\<forall>x. res = Inr x \<longrightarrow> if_mode x = ''overlay'')"
  by (auto simp: create_overlay_interface_def bind_st_def return_st_def reserve_overlay_ip_def same_books_def
      dest!: build_books split: if_splits option.splits sum.splits prod.splits)

lemma loop_books:
  "create_interfaces K hx cfg answers i rips made nets s = (res, s') \<Longrightarrow> \<forall>x \<in> set made. if_mode x = ''overlay'' \<Longrightarrow>
   same_books s s' \<and> (\<forall>xs. res = Inr xs \<longrightarrow> (\<forall>x \<in> set xs. if_mode x = ''overlay''))"
proof (induction nets arbitrary: made s)
  case (Cons net nets)
  obtain res1 s1 where c: "create_overlay_interface K hx cfg (answers (length made)) i net (length made)
      (if truthy net then map_of rips (the net) else None) s = (res1, s1)" by (metis surj_pair)
  from interface_books [OF c] have 1: "same_books s s1" "\<And>x. res1 = Inr x \<Longrightarrow> if_mode x = ''overlay''" by auto
  show ?case
  proof (cases res1)
    case (Inl e)
    then have "res = Inl e" "s' = fold (roll_back K) made s1" using Cons.prems(1) c by simp_all
    then show ?thesis using 1(1) fold_roll_back_books [of s1 K made] by (simp add: same_books_def)
  next
    case (Inr x)
    then have "create_interfaces K hx cfg answers i rips (made @ [x]) nets s1 = (res, s')" using Cons.prems(1) c by simp
    from Cons.IH [OF this] 1 Inr Cons.prems(2) show ?thesis by (simp add: same_books_def)
  qed
qed (auto simp: return_st_def same_books_def)

lemma find_first: "find P xs = Some a \<Longrightarrow> a \<in> set xs \<and> P a"
  by (induction xs) (auto split: if_splits)

lemma create_local_ok:
  assumes "local_ok cfg s" "create_vm_network K hx cfg answers i names rips s = (res, s')"
  shows "local_ok cfg s'"
proof (cases "vn_overlay s")
  case True
  obtain res1 s1 where c: "create_interfaces K hx cfg answers i (case rips of None \<Rightarrow> [] | Some d \<Rightarrow> d) [] (net_list cfg names) s = (res1, s1)"
    by (metis surj_pair)
  from loop_books [OF c] have b: "same_books s s1" "\<And>xs. res1 = Inr xs \<Longrightarrow> \<forall>x \<in> set xs. if_mode x = ''overlay''" by auto
  show ?thesis
  proof (cases res1)
    case (Inl e)
    then have "s' = s1" using assms(2) True c by (simp add: create_vm_network_def bind_st_def)
    then show ?thesis using assms(1) b(1) local_ok_cong unfolding same_books_def by metis
  next
    case (Inr xs)
    define info where "info = \<lparr>ni_interfaces = xs, ni_runner_url = ''http://'' @ if_gateway (xs ! 0) @ '':'' @ str_of_int (RUNNER_PORT cfg)\<rparr>"
    have info: "ni_interfaces info = xs" "s' = s1\<lparr>vn_allocs := AList.update i info (vn_allocs s1)\<rparr>"
      using assms(2) True c Inr by (auto simp: create_vm_network_def bind_st_def return_st_def info_def)
    have none: "local_ips info = []" using b(2) [OF Inr] by (simp add: local_ips_def info(1) filter_empty_conv)
    show ?thesis
      by (rule local_ok_update [OF assms(1), of _ i info]) (use info(2) b(1) assms(1) none in \<open>auto simp: same_books_def local_ok_def\<close>)
  qed
next
  case False
  show ?thesis
  proof (cases "find (\<lambda>a. a \<notin> set (vn_used s)) (local_pool cfg)")
    case None
    then have "s' = s" using assms(2) False
      by (auto simp: create_vm_network_def create_standard_vm_network_def bind_st_def allocate_local_ip_def)
    then show ?thesis using assms(1) by simp
  next
    case (Some a)
    have a: "a \<in> set (local_pool cfg)" "a \<notin> set (vn_used s)" using find_first [OF Some] by auto
    have more: "local_ok cfg (s\<lparr>vn_used := vn_used s @ [a]\<rparr>)"
      using assms(1) a(1) unfolding local_ok_def by auto
    have "(vn_allocs s' = vn_allocs s \<and> vn_used s' = vn_used s @ [a]) \<or>
        (\<exists>info. vn_allocs s' = AList.update i info (vn_allocs s) \<and> local_ips info = [a] \<and> vn_used s' = vn_used s @ [a])"
      using assms(2) False
      by (auto simp: create_vm_network_def create_standard_vm_network_def bind_st_def allocate_local_ip_def Some return_st_def
          on_kernel_def lift_res_def local_ips_def split: prod.splits sum.splits)
    then show ?thesis
    proof (elim disjE exE conjE)
      show ?thesis if "vn_allocs s' = vn_allocs s" "vn_used s' = vn_used s @ [a]"
        using more local_ok_cong [of s' "s\<lparr>vn_used := vn_used s @ [a]\<rparr>" cfg] that by simp
      show ?thesis if "vn_allocs s' = AList.update i info (vn_allocs s)" "local_ips info = [a]" "vn_used s' = vn_used s @ [a]" for info
        by (rule local_ok_update [OF assms(1) that(1)]) (use that a assms(1) in \<open>auto simp: local_ok_def\<close>)
    qed
  qed
qed

lemma cleanup_ifaces_books:
  "vn_allocs (fold (cleanup_iface K) xs s) = vn_allocs s"
  "set (vn_used (fold (cleanup_iface K) xs s)) = set (vn_used s) - if_ip ` set (filter (\<lambda>x. if_mode x \<noteq> ''overlay'') xs)"
proof (atomize (full), induction xs arbitrary: s)
  case (Cons x xs)
  have "vn_allocs (cleanup_iface K x s) = vn_allocs s"
    "set (vn_used (cleanup_iface K x s)) = set (vn_used s) - (if if_mode x = ''overlay'' then {} else {if_ip x})"
    by (auto simp: cleanup_iface_def release_local_ip_def Let_def)
  with Cons.IH [of "cleanup_iface K x s"] show ?case by auto
qed simp

lemma cleanup_local_ok:
  assumes "local_ok cfg s"
  shows "local_ok cfg (cleanup_vm_network K i s)"
proof (cases "map_of (vn_allocs s) i")
  case (Some info)
  let ?s = "cleanup_vm_network K i s"
  have s': "vn_allocs ?s = AList.delete i (vn_allocs s)" "set (vn_used ?s) = set (vn_used s) - set (local_ips info)"
    by (simp_all add: cleanup_vm_network_def Some cleanup_ifaces_books local_ips_def del: set_filter)
  have dis: "set (local_ips x) \<inter> set (local_ips info) = {}" if "map_of (vn_allocs s) j = Some x" "j \<noteq> i" for j x
    using assms that Some unfolding local_ok_def by blast
  show ?thesis using assms dis unfolding local_ok_def s' get_delete by (auto split: if_splits) blast+
qed (simp add: cleanup_vm_network_def assms)

datatype vm_net_event =
    CreateVmNet "nat \<Rightarrow> (string \<times> string) option" int "string list option" "(string, string) dict option"
  | CleanupVmNet int

fun vm_net_step :: "'k vm_kernel \<Rightarrow> hashes \<Rightarrow> runner_config \<Rightarrow> vm_net_event \<Rightarrow> 'k vm_net \<Rightarrow> 'k vm_net" where
  "vm_net_step K hx cfg (CreateVmNet answers i names rips) s = snd (create_vm_network K hx cfg answers i names rips s)"
| "vm_net_step K hx cfg (CleanupVmNet i) s = cleanup_vm_network K i s"

definition fresh_net :: "'k vm_net \<Rightarrow> bool" where
  "fresh_net s \<longleftrightarrow> vn_allocs s = [] \<and> vn_used s = []"

interpretation vm_net_machine: machine fresh_net "vm_net_step K hx cfg" "local_ok cfg"
proof
  show "fresh_net s \<Longrightarrow> local_ok cfg s" for s :: "'a vm_net" by (simp add: fresh_net_def local_ok_def)
  show "local_ok cfg s \<Longrightarrow> local_ok cfg (vm_net_step K hx cfg e s)" for s e
    by (cases e) (auto simp: cleanup_local_ok intro: create_local_ok [OF _ prod.collapse [symmetric]])
qed

text \<open>C32: local addresses are exclusive.  From a fresh manager, over every sequence of creations and
  removals of VMs in either mode, with a kernel and a host that fail as they like, the local addresses
  of the VMs lie in the pool, are marked as taken, and no two VMs have one in common.\<close>

theorem local_addresses_exclusive:
  assumes "fresh_net s" "s' = fold (vm_net_step K hx cfg) es s"
    and "map_of (vn_allocs s') i = Some info"
  shows "set (local_ips info) \<subseteq> set (local_pool cfg) \<inter> set (vn_used s') \<and> distinct (local_ips info) \<and>
    (\<forall>j info'. j \<noteq> i \<and> map_of (vn_allocs s') j = Some info' \<longrightarrow> set (local_ips info) \<inter> set (local_ips info') = {})"
proof -
  have ok: "local_ok cfg s'" unfolding assms(2) by (rule vm_net_machine.run_inv [OF assms(1)])
  show ?thesis using ok assms(3) unfolding local_ok_def by blast
qed

lemma demo_local_pool: "local_pool demo_runner = map (\<lambda>n. ''10.200.0.'' @ str_of_nat n) [10..<255]"
proof -
  have "rsplit1 CHR ''.'' (hd (split_on CHR ''/'' ''10.200.0.0/24'')) = Some (''10.200.0'', ''0'')" by code_simp
  then show ?thesis by (simp add: local_pool_def demo_runner_def NAT_POOL_START_def NAT_POOL_END_def)
qed

lemma local_addresses_exclusive_witness:
  "\<exists>info. map_of (vn_allocs (fold (vm_net_step demo_taps demo_hashes demo_runner) [CreateVmNet (\<lambda>m. None) 5 None None]
      (demo_net False [''kohaku-br0'']))) 5 = Some info \<and> local_ips info = [''10.200.0.10''] \<and>
    set (local_ips info) \<subseteq> set (local_pool demo_runner)"
proof -
  let ?s = "fold (vm_net_step demo_taps demo_hashes demo_runner) [CreateVmNet (\<lambda>m. None) 5 None None] (demo_net False [''kohaku-br0''])"
  have net: "strict_network ''10.200.0.0/24'' = Inr \<lparr>network_address = 180879360, prefixlen = 24\<rparr>" and ten: "str_of_nat 10 = ''10''"
    by code_simp+
  have pool: "find (\<lambda>a. True) (local_pool demo_runner) = Some ''10.200.0.10''"
    by (simp add: demo_local_pool upt_conv_Cons ten)
  let ?a = "(demo_net False [''kohaku-br0''])\<lparr>vn_used := [''10.200.0.10'']\<rparr>"
  have alloc: "allocate_local_ip demo_runner (demo_net False [''kohaku-br0'']) = (Inr ''10.200.0.10'', ?a)"
    by (simp add: allocate_local_ip_def demo_net_def pool)
  have cfg: "VM_BRIDGE_NAME demo_runner = ''kohaku-br0''" "VM_BRIDGE_SUBNET demo_runner = ''10.200.0.0/24''"
    by (simp_all add: demo_runner_def)
  have tap: "create_tap demo_taps (tap_name demo_hashes 5 '''') ''kohaku-br0'' [''kohaku-br0''] =
      (Inr (), [''kohaku-br0'', tap_name demo_hashes 5 ''''])"
    by (simp add: create_tap_def demo_taps_simps demo_links_def tap_name_def demo_hashes_def demo_str bind_st_def Let_def del: str_of_int_nat)
  have ov: "\<not> vn_overlay (demo_net False [''kohaku-br0''])" "vn_kernel ?a = [''kohaku-br0'']" by (simp_all add: demo_net_def)
  obtain info where info: "map_of (vn_allocs ?s) 5 = Some info" "local_ips info = [''10.200.0.10'']"
    by (simp add: create_vm_network_def ov create_standard_vm_network_def bind_st_def alloc on_kernel_def cfg tap lift_res_def net
        return_st_def get_update local_ips_def)
  have "fresh_net (demo_net False [''kohaku-br0''])" by (simp add: fresh_net_def demo_net_def)
  from local_addresses_exclusive [OF this refl info(1)] info show ?thesis by blast
qed

section \<open>The term of a reservation\<close>

lemma available_later:
  assumes "get_available_ips_for_runner ov s now runner net = Inr xs" "x \<in> set xs"
    and "used_of s' runner net = used_of s runner net" "x \<notin> set (reserved_of s' now' runner net)"
  shows "\<exists>ys. get_available_ips_for_runner ov s' now' runner net = Inr ys \<and> x \<in> set ys"
  using assms unfolding get_available_ips_for_runner_def
  by (auto simp: Let_def bind_res_Inr_iff split: option.splits prod.splits)

lemma reserve_wanted:
  assumes "get_available_ips_for_runner ov (cleanup_expired_sync now s) now runner net = Inr ys" "x \<in> set ys"
  shows "\<exists>r s'. reserve_ip lib ov now rand runner (Some x) ttl net s = (Inr (Some r), s') \<and> ip r = x"
proof -
  obtain m a where "get_manager_for_network ov net = Some m" "map_of (allocations m) runner = Some a"
    using assms by (fastforce simp: get_available_ips_for_runner_def split: option.splits)
  then show ?thesis using assms by (simp add: reserve_ip_def Let_def)
qed

text \<open>The address of a VM on an overlay network outlives its reservation.  The runner reserves it for
  half an hour, the longest term the host grants, and nothing marks it as used: once the term is over
  the host hands the same address out again on request, while the VM still has it.\<close>

theorem vm_address_reassigned:
  assumes "ep_reserve_ip lib hcfg now rand runner None 1800 net h = (Inr r, h')"
    and "get_ip_reservation_manager hcfg h = Some m" "ipr_ok m" "1800 * 1000000 < later - now"
    and "vn_overlay s" "net \<noteq> []" "answers 0 = Some (ip r, token r)"
    and "create_vm_network K hx cfg answers i (Some [net]) None s = (Inr info, s')"
  shows "if_ip (primary_iface info) = ip r \<and> map_of (vn_allocs s') i = Some info \<and>
    (\<exists>r2 h2. ep_reserve_ip lib hcfg later rand2 runner (Some (ip r)) 1800 net h' = (Inr r2, h2) \<and> ip r2 = ip r)"
proof -
  obtain x s1 where x: "create_overlay_interface K hx cfg (answers 0) i (Some net) 0 None s = (Inr x, s1)"
      and info: "ni_interfaces info = [x]" "map_of (vn_allocs s') i = Some info"
    using assms(5,6,8)
    by (auto simp: create_vm_network_def bind_st_def net_list_def return_st_def truthy_def get_update Let_def
        split: prod.splits sum.splits list.splits)
  have "if_ip x = ip r"
    using x assms(7)
    by (auto simp: create_overlay_interface_def reserve_overlay_ip_def bind_st_def return_st_def truthy_def build_overlay_interface_def
        lift_res_def on_kernel_def Let_def split: prod.splits sum.splits if_splits)
  then have vm: "if_ip (primary_iface info) = ip r" using info(1) by (simp add: primary_iface_def)
  have on: "hs_overlay_enabled hcfg" using assms(1) by (auto simp: ep_reserve_ip_def with_ip_manager_def split: if_splits)
  obtain m1 where m1: "reserve_ip lib (overlay_of h) now rand runner None (Some 1800) net m = (Inr (Some r), m1)"
      and h': "h' = h\<lparr>ip_manager := Some m1\<rparr>"
    using assms(1,2) on by (auto simp: ep_reserve_ip_def with_ip_manager_def split: prod.splits sum.splits option.splits)
  let ?c = "cleanup_expired_sync now m"
  from m1 obtain xs where r: "get_available_ips_for_runner (overlay_of h) ?c now runner net = Inr xs" "ip r \<in> set xs"
      "expires_at r = now + ttl_or_default (Some 1800) m * 1000000" "\<not> is_used r"
      "reservations m1 = AList.update (net, ip r) r (reservations ?c)" "used_ips m1 = used_ips ?c"
    by (elim reserve_ip_cases) auto
  have late: "is_expired later r" using r(3) assms(4) by (simp add: is_expired_def ttl_or_default_def)
  have ok: "ipr_ok m1" using ipr_ok_reserve [OF assms(3)] m1 by (metis snd_conv)
  let ?d = "cleanup_expired_sync later m1"
  have "ip r \<notin> set (reserved_of ?d later runner net)"
  proof
    assume "ip r \<in> set (reserved_of ?d later runner net)"
    then obtain k q where q: "(k, q) \<in> set (reservations ?d)" "fst k = net" "\<not> is_expired later q" "ip q = ip r"
      by (auto simp: reserved_of_def)
    have "k = (net, ip r)" using items_keyed [OF ipr_ok_cleanup [OF ok] q(1)] q(2,4) by simp
    then have "map_of (reservations ?d) (net, ip r) = Some q"
      using item_get [of "reservations ?d"] q(1) ipr_ok_dict [OF ipr_ok_cleanup [OF ok]] by simp
    then have "q = r" using cleanup_get [OF ipr_ok_dict [OF ok], of later "(net, ip r)"] r(4,5) late by (simp add: get_update)
    then show False using q(3) late by simp
  qed
  moreover have "used_of ?d runner net = used_of ?c runner net" by (simp add: used_of_def r(6))
  ultimately obtain ys where "get_available_ips_for_runner (overlay_of h) ?d later runner net = Inr ys" "ip r \<in> set ys"
    using available_later [OF r(1,2)] by blast
  from reserve_wanted [OF this, of lib rand2 "Some 1800"] obtain r2 m2 where
    "reserve_ip lib (overlay_of h) later rand2 runner (Some (ip r)) (Some 1800) net m1 = (Inr (Some r2), m2)" "ip r2 = ip r" by blast
  moreover have "get_ip_reservation_manager hcfg h' = Some m1" "overlay_of h' = overlay_of h"
    using assms(2) on by (simp_all add: h' get_ip_reservation_manager_def overlay_of_def split: if_splits)
  ultimately have "ep_reserve_ip lib hcfg later rand2 runner (Some (ip r)) 1800 net h' = (Inr r2, h'\<lparr>ip_manager := Some m2\<rparr>)"
    using on by (simp add: ep_reserve_ip_def with_ip_manager_def)
  then show ?thesis using vm info(2) \<open>ip r2 = ip r\<close> by blast
qed

lemma demo_reserve:
  "\<exists>r h'. ep_reserve_ip demo_lib (env_cfg demo_env) 0 3 ''alpha'' None 1800 ''flat'' demo_host = (Inr r, h')"
proof -
  have "cleanup_expired_sync 0 demo_ipr = demo_ipr"
    by (simp add: cleanup_expired_sync_def expired_unused_def demo_ipr_def new_ipr_def)
  moreover have "overlay_of demo_host = demo_ov" by (simp add: overlay_of_def demo_host_def demo_ov_def)
  moreover have "map_of (allocations demo_flat) ''alpha'' = Some (demo_alloc ''alpha'' 1)" by (simp add: demo_flat_config)
  ultimately have "\<exists>r m1. reserve_ip demo_lib (overlay_of demo_host) 0 3 ''alpha'' None (Some 1800) ''flat'' demo_ipr = (Inr (Some r), m1)"
    by (simp add: reserve_ip_def demo_ov_flat demo_available Let_def)
  then show ?thesis
    by (auto simp: ep_reserve_ip_def with_ip_manager_def get_ip_reservation_manager_def demo_env_def demo_host_def)
qed

lemma demo_overlay_vm:
  "\<exists>info s'. create_vm_network demo_taps demo_hashes demo_runner (\<lambda>m. Some (a, tok)) 5 (Some [''flat'']) None
     (demo_net True [''kohaku-flat'']) = (Inr info, s')"
proof -
  have tap: "create_tap demo_taps (tap_name demo_hashes 5 '''') ''kohaku-flat'' [''kohaku-flat''] =
      (Inr (), [''kohaku-flat'', tap_name demo_hashes 5 ''''])"
    by (simp add: create_tap_def demo_taps_simps demo_links_def tap_name_def demo_hashes_def demo_str bind_st_def Let_def del: str_of_int_nat)
  have cfg: "get_container_gateway (Some ''flat'') demo_runner = ''172.30.0.1''" "overlay_bridge (Some ''flat'') = ''kohaku-flat''"
      "OVERLAY_SUBNET_CIDR demo_runner = ''10.128.0.0/12/6/14''"
    by (simp_all add: get_container_gateway_def demo_runner_def overlay_bridge_def truthy_def)
  have sub: "\<exists>c. subnet_parse ''10.128.0.0/12/6/14'' = Inr c \<and> runner_prefix c = 18"
    unfolding demo_plan_parse by (simp add: runner_prefix_def demo_plan_def)
  have net: "ipv4_network (''172.30.0.1/'' @ str_of_int 18) = Inr \<lparr>network_address = 2887647232, prefixlen = 18\<rparr>"
    by code_simp
  have none: "concat (map (\<lambda>(n, j). if n = b then filter (\<lambda>(x, p). x = g) (vk_addrs demo_taps j k) else []) ls) = []" for b g k and ls :: "(string \<times> int) list"
    by (induction ls) (auto simp: demo_taps_simps)
  have "get_bridge_prefix demo_taps demo_runner ''kohaku-flat'' ''172.30.0.1'' k = Inr 18" for k
    using sub unfolding get_bridge_prefix_def none cfg by auto
  then show ?thesis using net
    by (auto simp: create_vm_network_def net_list_def demo_net_def bind_st_def create_overlay_interface_def reserve_overlay_ip_def
        build_overlay_interface_def lift_res_def on_kernel_def cfg tap return_st_def truthy_def Let_def simp del: str_of_int_nat)
qed

lemma vm_address_reassigned_witness:
  "\<exists>r h' r2 h2 info s'. ep_reserve_ip demo_lib (env_cfg demo_env) 0 3 ''alpha'' None 1800 ''flat'' demo_host = (Inr r, h') \<and>
    create_vm_network demo_taps demo_hashes demo_runner (\<lambda>m. Some (ip r, token r)) 5 (Some [''flat'']) None
      (demo_net True [''kohaku-flat'']) = (Inr info, s') \<and>
    ep_reserve_ip demo_lib (env_cfg demo_env) 1800000001 7 ''alpha'' (Some (ip r)) 1800 ''flat'' h' = (Inr r2, h2) \<and>
    ip r2 = if_ip (primary_iface info)"
proof -
  obtain r h' where r: "ep_reserve_ip demo_lib (env_cfg demo_env) 0 3 ''alpha'' None 1800 ''flat'' demo_host = (Inr r, h')"
    using demo_reserve by blast
  obtain info s' where vm: "create_vm_network demo_taps demo_hashes demo_runner (\<lambda>m. Some (ip r, token r)) 5 (Some [''flat'']) None
      (demo_net True [''kohaku-flat'']) = (Inr info, s')" using demo_overlay_vm by blast
  have m: "get_ip_reservation_manager (env_cfg demo_env) demo_host = Some demo_ipr"
    by (simp add: get_ip_reservation_manager_def demo_env_def demo_host_def)
  have ok: "ipr_ok demo_ipr" unfolding demo_ipr_def by (rule ipr_ok_new)
  have "vn_overlay (demo_net True [''kohaku-flat''])" by (simp add: demo_net_def)
  from vm_address_reassigned [OF r m ok _ this _ refl vm, of 1800000001 7] r vm show ?thesis by auto
qed

end
