(* ===== verification/Vfio.thy ===== *)
theory Vfio
  imports Py_Strings "HOL-Library.Char_ord" "HOL-Library.List_Lexorder"
begin

text \<open>
  GPUs handed to virtual machines: what the runner finds out about the PCI devices of its node
  (\<^verbatim>\<open>qemu/capability.py\<close>) and how it moves them between drivers (\<^verbatim>\<open>qemu/vfio.py\<close>).  The state \<open>'k\<close> is the
  node's kernel; the files below \<^verbatim>\<open>/sys\<close> are read and written through the operations of \<open>pci\<close>, which the
  definitions take as an argument.
\<close>

section \<open>The kernel's files\<close>

text \<open>A write that may hang is given some seconds: it is refused, done in time, or still hanging.\<close>

datatype sysfs_write = Refused | Written | Hung

record 'k pci =
  pc_link :: "string \<Rightarrow> 'k \<Rightarrow> string option" \<comment> \<open>last component of what a link resolves to\<close>
  pc_file :: "string \<Rightarrow> 'k \<Rightarrow> string option" \<comment> \<open>contents of a file, stripped\<close>
  pc_dir :: "string \<Rightarrow> 'k \<Rightarrow> string list option" \<comment> \<open>names in a directory\<close>
  pc_write :: "string \<Rightarrow> string \<Rightarrow> 'k \<Rightarrow> sysfs_write \<times> 'k"
  pc_systemctl :: "string list \<Rightarrow> 'k \<Rightarrow> bool \<times> 'k" \<comment> \<open>exit code 0\<close>

definition pci_path :: "string \<Rightarrow> string \<Rightarrow> string" where
  "pci_path a f = ''/sys/bus/pci/devices/'' @ a @ ''/'' @ f"

definition group_path :: "int \<Rightarrow> string" where
  "group_path g = ''/sys/kernel/iommu_groups/'' @ str_of_int g @ ''/devices''"

section \<open>IOMMU groups\<close>

definition get_iommu_group :: "('k, 'z) pci_scheme \<Rightarrow> string \<Rightarrow> 'k \<Rightarrow> int option" where
  "get_iommu_group P a k = Option.bind (pc_link P (pci_path a ''iommu_group'') k) (int_of_str 10)"

definition get_pci_device_class :: "('k, 'z) pci_scheme \<Rightarrow> string \<Rightarrow> 'k \<Rightarrow> string option" where
  "get_pci_device_class P a k = pc_file P (pci_path a ''class'') k"

definition is_pci_bridge :: "('k, 'z) pci_scheme \<Rightarrow> string \<Rightarrow> 'k \<Rightarrow> bool" where
  "is_pci_bridge P a k =
     (case get_pci_device_class P a k of None \<Rightarrow> False | Some c \<Rightarrow> startswith c ''0x06'')"

definition get_iommu_group_devices :: "('k, 'z) pci_scheme \<Rightarrow> int \<Rightarrow> 'k \<Rightarrow> string list" where
  "get_iommu_group_devices P g k = (case pc_dir P (group_path g) k of None \<Rightarrow> [] | Some ds \<Rightarrow> sort ds)"

definition get_iommu_group_endpoints :: "('k, 'z) pci_scheme \<Rightarrow> string \<Rightarrow> 'k \<Rightarrow> string list" where
  "get_iommu_group_endpoints P a k =
     (case get_iommu_group P a k of
        None \<Rightarrow> []
      | Some g \<Rightarrow> filter (\<lambda>d. d \<noteq> a \<and> \<not> is_pci_bridge P d k) (get_iommu_group_devices P g k))"

definition is_iommu_group_viable :: "('k, 'z) pci_scheme \<Rightarrow> string \<Rightarrow> 'k \<Rightarrow> bool \<times> string list" where
  "is_iommu_group_viable P a k =
     (case get_iommu_group P a k of
        None \<Rightarrow> (False, [])
      | Some g \<Rightarrow>
         (case pc_dir P (group_path g) k of
            None \<Rightarrow> (False, [])
          | Some ds \<Rightarrow> (True, filter (\<lambda>d. d \<noteq> a \<and> \<not> is_pci_bridge P d k) ds)))"

text \<open>\<^verbatim>\<open>addr.rsplit(".", 1)[0]\<close>\<close>

definition pci_slot :: "string \<Rightarrow> string" where
  "pci_slot a = (case rsplit1 CHR ''.'' a of None \<Rightarrow> a | Some (b, _) \<Rightarrow> b)"

definition is_iommu_group_clean :: "('k, 'z) pci_scheme \<Rightarrow> string \<Rightarrow> 'k \<Rightarrow> bool" where
  "is_iommu_group_clean P a k =
     (case is_iommu_group_viable P a k of
        (viable, peers) \<Rightarrow> viable \<and> list_all (\<lambda>p. pci_slot p = pci_slot a) peers)"

definition get_iommu_group_non_bridge_devices :: "('k, 'z) pci_scheme \<Rightarrow> string \<Rightarrow> 'k \<Rightarrow> string list" where
  "get_iommu_group_non_bridge_devices P a k =
     (case get_iommu_group P a k of
        None \<Rightarrow> [a]
      | Some g \<Rightarrow> filter (\<lambda>d. \<not> is_pci_bridge P d k) (get_iommu_group_devices P g k))"

section \<open>GPUs that can be passed through\<close>

record gpu_info =
  gi_id :: int
  gi_address :: string
  gi_vendor :: string
  gi_device :: string
  gi_group :: int
  gi_name :: string
  gi_audio :: "string option"
  gi_peers :: "string list"

definition has_class :: "('k, 'z) pci_scheme \<Rightarrow> string \<Rightarrow> string \<Rightarrow> 'k \<Rightarrow> bool" where
  "has_class P c a k = (case get_pci_device_class P a k of None \<Rightarrow> False | Some x \<Rightarrow> startswith x c)"

text \<open>The last audio function in the slot of the GPU among the other devices of its group.\<close>

definition audio_of :: "('k, 'z) pci_scheme \<Rightarrow> string \<Rightarrow> string list \<Rightarrow> 'k \<Rightarrow> string option" where
  "audio_of P a peers k = find (\<lambda>p. has_class P ''0x0403'' p k \<and> pci_slot p = pci_slot a) (rev peers)"

text \<open>\<^verbatim>\<open>s.replace("0x", "")\<close>\<close>

fun without_0x :: "string \<Rightarrow> string" where
  "without_0x (a # b # s) = (if a = CHR ''0'' \<and> b = CHR ''x'' then without_0x s else a # without_0x (b # s))"
| "without_0x s = s"

text \<open>One round of the loop in \<^verbatim>\<open>discover_vfio_gpus\<close>; \<open>gpu_name\<close> is what \<^verbatim>\<open>lspci\<close> calls the device.\<close>

definition vfio_gpu :: "('k, 'z) pci_scheme \<Rightarrow> (string \<Rightarrow> string) \<Rightarrow> 'k \<Rightarrow> int \<Rightarrow> string \<Rightarrow> gpu_info option" where
  "vfio_gpu P gpu_name k n a =
     (if \<not> has_class P ''0x03'' a k then None
      else
        case (pc_file P (pci_path a ''vendor'') k, pc_file P (pci_path a ''device'') k) of
          (Some vendor, Some device) \<Rightarrow>
            if without_0x vendor \<noteq> ''10de'' then None
            else (case get_iommu_group P a k of
                    None \<Rightarrow> None
                  | Some g \<Rightarrow>
                     (case is_iommu_group_viable P a k of
                        (False, _) \<Rightarrow> None
                      | (True, peers) \<Rightarrow>
                          Some \<lparr>gi_id = n, gi_address = a, gi_vendor = without_0x vendor,
                                gi_device = without_0x device, gi_group = g, gi_name = gpu_name a,
                                gi_audio = audio_of P a peers k, gi_peers = filter (\<lambda>p. has_class P ''0x03'' p k) peers\<rparr>))
        | _ \<Rightarrow> None)"

fun discover_from :: "('k, 'z) pci_scheme \<Rightarrow> (string \<Rightarrow> string) \<Rightarrow> 'k \<Rightarrow> int \<Rightarrow> string list \<Rightarrow> gpu_info list" where
  "discover_from P gpu_name k n [] = []"
| "discover_from P gpu_name k n (a # as) =
     (case vfio_gpu P gpu_name k n a of
        None \<Rightarrow> discover_from P gpu_name k n as
      | Some g \<Rightarrow> g # discover_from P gpu_name k (n + 1) as)"

definition discover_vfio_gpus :: "('k, 'z) pci_scheme \<Rightarrow> (string \<Rightarrow> string) \<Rightarrow> 'k \<Rightarrow> gpu_info list" where
  "discover_vfio_gpus P gpu_name k =
     (case pc_dir P ''/sys/bus/pci/devices'' k of
        None \<Rightarrow> []
      | Some ds \<Rightarrow> discover_from P gpu_name k 0 (sort ds))"

section \<open>Drivers\<close>

text \<open>The message of a \<^verbatim>\<open>VFIOBindError\<close> (\<^verbatim>\<open>qemu/exceptions.py\<close>).\<close>

definition vfio_error :: "string \<Rightarrow> string \<Rightarrow> pyexn" where
  "vfio_error a m = VFIOBindError (''VFIO bind failed for '' @ a @ '': '' @ m)"

definition write_sysfs_timeout :: "('k, 'z) pci_scheme \<Rightarrow> string \<Rightarrow> string \<Rightarrow> ('k, bool) st" where
  "write_sysfs_timeout P path v = (\<lambda>k.
     case pc_write P path v k of
       (Refused, k') \<Rightarrow> (Inl (vfio_error path (''Failed to write '' @ v @ '' to '' @ path)), k')
     | (Written, k') \<Rightarrow> (Inr True, k')
     | (Hung, k') \<Rightarrow> (Inr False, k'))"

definition get_current_driver :: "('k, 'z) pci_scheme \<Rightarrow> string \<Rightarrow> 'k \<Rightarrow> string option" where
  "get_current_driver P a k = pc_link P (pci_path a ''driver'') k"

definition is_bound_to_vfio :: "('k, 'z) pci_scheme \<Rightarrow> string \<Rightarrow> 'k \<Rightarrow> bool" where
  "is_bound_to_vfio P a k \<longleftrightarrow> get_current_driver P a k = Some ''vfio-pci''"

definition get_device_ids :: "('k, 'z) pci_scheme \<Rightarrow> string \<Rightarrow> ('k, string \<times> string) st" where
  "get_device_ids P a = (\<lambda>k.
     case (pc_file P (pci_path a ''vendor'') k, pc_file P (pci_path a ''device'') k) of
       (Some v, Some d) \<Rightarrow> (Inr (v, d), k)
     | _ \<Rightarrow> (Inl (vfio_error a ''Cannot read device IDs''), k))"

definition is_nvidia_device :: "('k, 'z) pci_scheme \<Rightarrow> string \<Rightarrow> 'k \<Rightarrow> bool" where
  "is_nvidia_device P a k \<longleftrightarrow> pc_file P (pci_path a ''vendor'') k = Some ''0x10de''"

definition stop_nvidia_persistenced :: "('k, 'z) pci_scheme \<Rightarrow> 'k \<Rightarrow> 'k" where
  "stop_nvidia_persistenced P k =
     (case pc_systemctl P [''is-active'', ''--quiet'', ''nvidia-persistenced''] k of
        (False, k1) \<Rightarrow> k1
      | (True, k1) \<Rightarrow> snd (pc_systemctl P [''stop'', ''nvidia-persistenced''] k1))"

definition start_nvidia_persistenced :: "('k, 'z) pci_scheme \<Rightarrow> 'k \<Rightarrow> 'k" where
  "start_nvidia_persistenced P k = snd (pc_systemctl P [''start'', ''nvidia-persistenced''] k)"

text \<open>The unbind write, common to both directions: one that hangs has failed if the device still is
  \<open>held\<close>.\<close>

definition unbind_driver :: "('k, 'z) pci_scheme \<Rightarrow> string \<Rightarrow> (string \<Rightarrow> bool) \<Rightarrow> ('k, unit) st" where
  "unbind_driver P a held =
     bind_st (write_sysfs_timeout P (pci_path a ''driver/unbind'') a) (\<lambda>completed k.
       if completed then (Inr (), k)
       else case get_current_driver P a k of
              None \<Rightarrow> (Inr (), k)
            | Some d \<Rightarrow>
                if held d then (Inl (vfio_error a (''Unbind timed out and '' @ a @ '' still bound to '' @ d)), k)
                else (Inr (), k))"

definition bind_to_vfio :: "('k, 'z) pci_scheme \<Rightarrow> string \<Rightarrow> ('k, unit) st" where
  "bind_to_vfio P a = (\<lambda>k0.
     if is_bound_to_vfio P a k0 then (Inr (), k0)
     else
       bind_st (get_device_ids P a) (\<lambda>_.
       bind_st (case get_current_driver P a k0 of
                  None \<Rightarrow> return_st ()
                | Some d \<Rightarrow> (\<lambda>k. unbind_driver P a (\<lambda>_. True) (if d = ''nvidia'' then stop_nvidia_persistenced P k else k))) (\<lambda>_.
       bind_st (write_sysfs_timeout P (pci_path a ''driver_override'') ''vfio-pci'') (\<lambda>_.
       bind_st (write_sysfs_timeout P ''/sys/bus/pci/drivers_probe'' a) (\<lambda>_.
       bind_st (\<lambda>k. if is_bound_to_vfio P a k then (Inr True, k)
                    else write_sysfs_timeout P ''/sys/bus/pci/drivers/vfio-pci/bind'' a k) (\<lambda>_ k.
       if is_bound_to_vfio P a k then (Inr (), k)
       else (Inl (vfio_error a ''Expected vfio-pci''), k)))))) k0)"

text \<open>\<^verbatim>\<open>try: ... except VFIOBindError: pass\<close>\<close>

definition swallow :: "('k, 'a) st \<Rightarrow> ('k, unit) st" where
  "swallow m = (\<lambda>k. (Inr (), snd (m k)))"

definition unbind_from_vfio :: "('k, 'z) pci_scheme \<Rightarrow> string \<Rightarrow> ('k, unit) st" where
  "unbind_from_vfio P a = (\<lambda>k0.
     if \<not> is_bound_to_vfio P a k0 then (Inr (), k0)
     else
       let nvidia = is_nvidia_device P a k0
       in bind_st (\<lambda>k. unbind_driver P a (\<lambda>d. d = ''vfio-pci'') (if nvidia then stop_nvidia_persistenced P k else k)) (\<lambda>_.
          bind_st (swallow (write_sysfs_timeout P (pci_path a ''driver_override'') [CHR 0x0A])) (\<lambda>_.
          bind_st (write_sysfs_timeout P ''/sys/bus/pci/drivers_probe'' a) (\<lambda>_ k.
          if nvidia \<and> get_current_driver P a k \<noteq> Some ''nvidia''
          then swallow (write_sysfs_timeout P ''/sys/bus/pci/drivers/nvidia/bind'' a) k
          else (Inr (), k)))) k0)"

section \<open>Groups\<close>

text \<open>The loop of \<^verbatim>\<open>bind_iommu_group\<close>: the devices bound so far are returned with the outcome.\<close>

fun bind_devices :: "('k, 'z) pci_scheme \<Rightarrow> string list \<Rightarrow> string list \<Rightarrow> 'k \<Rightarrow> unit res \<times> string list \<times> 'k" where
  "bind_devices P bound [] k = (Inr (), bound, k)"
| "bind_devices P bound (d # ds) k =
     (case bind_to_vfio P d k of
        (Inl e, k') \<Rightarrow> (Inl e, bound, k')
      | (Inr _, k') \<Rightarrow> bind_devices P (bound @ [d]) ds k')"

definition bind_iommu_group :: "('k, 'z) pci_scheme \<Rightarrow> string \<Rightarrow> ('k, string list) st" where
  "bind_iommu_group P a = (\<lambda>k0.
     case bind_devices P [] (get_iommu_group_non_bridge_devices P a k0) k0 of
       (r, bound, k) \<Rightarrow>
         (case r of Inl e \<Rightarrow> Inl e | Inr _ \<Rightarrow> Inr bound,
          if bound \<noteq> [] then start_nvidia_persistenced P k else k))"

fun unbind_devices :: "('k, 'z) pci_scheme \<Rightarrow> string list \<Rightarrow> string list \<Rightarrow> 'k \<Rightarrow> string list \<times> 'k" where
  "unbind_devices P unbound [] k = (unbound, k)"
| "unbind_devices P unbound (d # ds) k =
     (case unbind_from_vfio P d k of
        (Inl e, k') \<Rightarrow> unbind_devices P unbound ds k'
      | (Inr _, k') \<Rightarrow> unbind_devices P (unbound @ [d]) ds k')"

definition unbind_iommu_group :: "('k, 'z) pci_scheme \<Rightarrow> string \<Rightarrow> 'k \<Rightarrow> string list \<times> 'k" where
  "unbind_iommu_group P a k0 =
     (case unbind_devices P [] (get_iommu_group_non_bridge_devices P a k0) k0 of
        (unbound, k) \<Rightarrow> (unbound, if unbound \<noteq> [] then start_nvidia_persistenced P k else k))"

end
