(* ===== verification/Qemu_Client.thy ===== *)
theory Qemu_Client
  imports Vfio Runner_Tasks
begin

text \<open>
  The virtual machines of a runner (\<^verbatim>\<open>qemu/client.py\<close>, \<^verbatim>\<open>qemu/naming.py\<close>): the command line of QEMU and the
  life cycle of a VM with its graphics cards.  The node is the state \<open>'k\<close>; programs, processes, files and
  the control socket of a VM are operations of \<open>machine\<close>, which extends the kernel files of the previous
  theory.
\<close>

section \<open>The node\<close>

record nic_spec =
  nc_tap :: string
  nc_mac :: string
  nc_ip :: string
  nc_gateway :: string
  nc_prefix :: int
  nc_dns :: "string list"

text \<open>What the cloud-init disk is made from.\<close>

record cloud_init_config =
  ci_task_id :: int
  ci_hostname :: string
  ci_ssh_key :: string
  ci_runner_key :: string
  ci_runner_url :: string
  ci_nvidia :: "string option"
  ci_nics :: "(nic_spec \<times> bool) list" \<comment> \<open>with the mark of the primary one\<close>

record 'k machine = "'k pci" +
  os_exists :: "string \<Rightarrow> 'k \<Rightarrow> bool"
  os_makedirs :: "string \<Rightarrow> 'k \<Rightarrow> 'k"
  os_run :: "string list \<Rightarrow> 'k \<Rightarrow> (int \<times> string) option \<times> 'k" \<comment> \<open>exit code and error output; \<open>None\<close>: it raised\<close>
  os_text :: "string \<Rightarrow> 'k \<Rightarrow> string option"
  os_alive :: "int \<Rightarrow> 'k \<Rightarrow> bool"
  os_kill :: "int \<Rightarrow> 'k \<Rightarrow> 'k"
  os_sleep :: "'k \<Rightarrow> 'k" \<comment> \<open>a second passes\<close>
  os_qmp :: "string \<Rightarrow> string \<Rightarrow> 'k \<Rightarrow> bool \<times> 'k" \<comment> \<open>socket and command; whether it was answered\<close>
  os_unlink :: "string \<Rightarrow> 'k \<Rightarrow> 'k"
  os_save_cmd :: "string \<Rightarrow> string list \<Rightarrow> 'k \<Rightarrow> 'k"
  os_load_cmd :: "string \<Rightarrow> 'k \<Rightarrow> string list"
  os_driver_version :: "'k \<Rightarrow> string option"
  os_make_iso :: "string \<Rightarrow> cloud_init_config \<Rightarrow> ('k, unit) st"

section \<open>Names\<close>

definition vm_name :: "int \<Rightarrow> string" where "vm_name i = ''kohaku-vm-'' @ str_of_int i"

definition vm_instance_dir :: "string \<Rightarrow> int \<Rightarrow> string" where
  "vm_instance_dir base i = path_join base (str_of_int i)"

definition vm_root_disk_path :: "string \<Rightarrow> string" where "vm_root_disk_path d = path_join d ''root.qcow2''"
definition vm_cloud_init_path :: "string \<Rightarrow> string" where "vm_cloud_init_path d = path_join d ''seed.iso''"
definition vm_serial_log_path :: "string \<Rightarrow> string" where "vm_serial_log_path d = path_join d ''serial.log''"
definition vm_pidfile_path :: "string \<Rightarrow> string" where "vm_pidfile_path d = path_join d ''qemu.pid''"

definition vm_qmp_socket_path :: "int \<Rightarrow> string" where
  "vm_qmp_socket_path i = ''/run/kohakuriver/vm/'' @ str_of_int i @ ''.qmp''"

definition extract_task_id_from_vm_name :: "string \<Rightarrow> int option" where
  "extract_task_id_from_vm_name n = (if startswith n ''kohaku-vm-'' then int_of_str 10 (drop 10 n) else None)"

section \<open>Instances and requests\<close>

record vm_instance =
  vx_task_id :: int
  vx_pid :: int
  vx_ip :: string
  vx_tap :: string
  vx_gpus :: "string list"
  vx_dir :: string
  vx_qmp :: string
  vx_taps :: "string list"
  vx_created :: int
  vx_cmd :: "string list"
  vx_ssh_ready :: bool
  vx_heartbeat :: "int option"
  vx_gpu_info :: "string list" \<comment> \<open>reports of the guest, kept as they are\<close>
  vx_system :: "string list"

record vm_options =
  vo_task_id :: int
  vo_image :: string
  vo_cores :: int
  vo_memory_mb :: int
  vo_disk_size :: string
  vo_gpus :: "string list"
  vo_ssh_key :: string
  vo_runner_url :: string
  vo_runner_key :: string
  vo_shared :: string
  vo_local :: string
  vo_nics :: "nic_spec list"
  vo_single :: nic_spec \<comment> \<open>the fields used when there is no list\<close>

definition get_interfaces :: "vm_options \<Rightarrow> nic_spec list" where
  "get_interfaces o' = (if vo_nics o' \<noteq> [] then vo_nics o' else [vo_single o'])"

record 'k qemu =
  qm_vms :: "(int, vm_instance) dict"
  qm_os :: 'k

definition get_vm :: "int \<Rightarrow> 'k qemu \<Rightarrow> vm_instance option" where "get_vm i s = map_of (qm_vms s) i"
definition list_vms :: "'k qemu \<Rightarrow> vm_instance list" where "list_vms s = dict_values (qm_vms s)"
definition vm_exists :: "int \<Rightarrow> 'k qemu \<Rightarrow> bool" where "vm_exists i s \<longleftrightarrow> i \<in> set (dict_keys (qm_vms s))"

definition on_os :: "('k, 'a) st \<Rightarrow> ('k qemu, 'a) st" where
  "on_os m = (\<lambda>s. case m (qm_os s) of (r, k) \<Rightarrow> (r, s\<lparr>qm_os := k\<rparr>))"

section \<open>The command line\<close>

definition OVMF_PATHS :: "string list" where
  "OVMF_PATHS = [''/usr/share/OVMF/OVMF_CODE_4M.fd'', ''/usr/share/OVMF/OVMF_CODE.fd'',
     ''/usr/share/edk2/ovmf/OVMF_CODE.fd'', ''/usr/share/qemu/OVMF_CODE.fd'']"

definition nic_flags :: "nat \<times> nic_spec \<Rightarrow> string list" where
  "nic_flags n = (case n of (i, x) \<Rightarrow>
     [''-netdev'', ''tap,id=net'' @ str_of_nat i @ '',ifname='' @ nc_tap x @ '',script=no,downscript=no'',
      ''-device'', ''virtio-net-pci,netdev=net'' @ str_of_nat i @ '',mac='' @ nc_mac x])"

definition share_flags :: "string \<Rightarrow> string \<Rightarrow> string \<Rightarrow> string list" where
  "share_flags fs tag path =
     (if path = [] then []
      else [''-fsdev'', ''local,id='' @ fs @ '',path='' @ path @ '',security_model=passthrough'',
            ''-device'', ''virtio-9p-pci,fsdev='' @ fs @ '',mount_tag='' @ tag])"

definition gpu_device :: "string \<Rightarrow> string list" where
  "gpu_device a = [''-device'', ''vfio-pci,host='' @ a]"

definition build_qemu_command :: "('k, 'z) machine_scheme \<Rightarrow> vm_options \<Rightarrow> string \<Rightarrow> 'k \<Rightarrow> string list" where
  "build_qemu_command N o' d k =
     [''qemu-system-x86_64'', ''-enable-kvm'', ''-machine'', ''q35,accel=kvm'', ''-cpu'', ''host'',
      ''-smp'', str_of_int (vo_cores o'), ''-m'', str_of_int (vo_memory_mb o') @ ''M'',
      ''-daemonize'', ''-pidfile'', vm_pidfile_path d] @
     (case find (\<lambda>p. os_exists N p k) OVMF_PATHS of
        None \<Rightarrow> []
      | Some p \<Rightarrow> [''-drive'', ''if=pflash,format=raw,readonly=on,file='' @ p]) @
     [''-drive'', ''file='' @ vm_root_disk_path d @ '',format=qcow2,if=virtio,cache=writeback'',
      ''-drive'', ''file='' @ vm_cloud_init_path d @ '',format=raw,if=virtio,media=cdrom,readonly=on''] @
     concat (map nic_flags (enumerate 0 (get_interfaces o'))) @
     [''-qmp'', ''unix:'' @ vm_qmp_socket_path (vo_task_id o') @ '',server,nowait'',
      ''-serial'', ''file:'' @ vm_serial_log_path d, ''-display'', ''none'', ''-vga'', ''std''] @
     share_flags ''fs_shared'' ''kohaku_shared'' (vo_shared o') @
     share_flags ''fs_local'' ''kohaku_local'' (vo_local o') @
     concat (map gpu_device (vo_gpus o'))"

section \<open>Creation\<close>

definition vm_creation_error :: "int \<Rightarrow> string \<Rightarrow> pyexn" where
  "vm_creation_error i m = VMCreationError (''VM '' @ str_of_int i @ '' creation failed: '' @ m)"

text \<open>\<^verbatim>\<open>_create_overlay_disk\<close>: a failed resize is only logged.\<close>

definition create_overlay_disk :: "('k, 'z) machine_scheme \<Rightarrow> string \<Rightarrow> string \<Rightarrow> string \<Rightarrow> ('k, unit) st" where
  "create_overlay_disk N base out sz =
     bind_st (\<lambda>k. case os_run N [''qemu-img'', ''create'', ''-f'', ''qcow2'', ''-b'', base, ''-F'', ''qcow2'', out] k of
         (Some (c, e), k') \<Rightarrow> (if c = 0 then Inr () else Inl (QEMUError (''Failed to create overlay disk: '' @ e)), k')
       | (None, k') \<Rightarrow> (Inl (RuntimeError ''qemu-img''), k')) (\<lambda>_ k.
     if sz = [] then (Inr (), k)
     else (case os_run N [''qemu-img'', ''resize'', out, sz] k of
             (Some _, k') \<Rightarrow> (Inr (), k')
           | (None, k') \<Rightarrow> (Inl (RuntimeError ''qemu-img''), k')))"

text \<open>The loop over the GPUs: a group is bound once.\<close>

fun bind_gpus :: "('k, 'z) machine_scheme \<Rightarrow> string list \<Rightarrow> string list \<Rightarrow> ('k, unit) st" where
  "bind_gpus N bound [] = return_st ()"
| "bind_gpus N bound (a # as) =
     (if a \<in> set bound then bind_gpus N bound as
      else bind_st (bind_iommu_group N a) (\<lambda>ds. bind_gpus N (bound @ ds) as))"

fun unbind_gpus :: "('k, 'z) machine_scheme \<Rightarrow> string list \<Rightarrow> string list \<Rightarrow> 'k \<Rightarrow> 'k" where
  "unbind_gpus N unbound [] k = k"
| "unbind_gpus N unbound (a # as) k =
     (if a \<in> set unbound then unbind_gpus N unbound as k
      else case unbind_iommu_group N a k of (ds, k') \<Rightarrow> unbind_gpus N (unbound @ ds) as k')"

text \<open>Starting the daemon with a command and reading the process id it wrote.  The failures are messages:
  \<^verbatim>\<open>create_vm\<close> raises them, \<^verbatim>\<open>restart_vm\<close> logs them.\<close>

definition start_qemu :: "('k, 'z) machine_scheme \<Rightarrow> string list \<Rightarrow> string \<Rightarrow> 'k \<Rightarrow> (string + int) res \<times> 'k" where
  "start_qemu N cmd d k =
     (case os_run N cmd k of
        (None, k') \<Rightarrow> (Inl (RuntimeError ''TimeoutExpired''), k')
      | (Some (c, e), k') \<Rightarrow>
          if c \<noteq> 0
          then (Inr (Inl (if strip e \<noteq> [] then ''QEMU failed to start: '' @ strip e
                          else ''QEMU failed (exit code '' @ str_of_int c @ '')'')), k')
          else (case Option.bind (os_text N (vm_pidfile_path d) k') (int_of_str 10) of
                  None \<Rightarrow> (Inr (Inl (''QEMU started but cannot read PID file '' @ vm_pidfile_path d)), k')
                | Some pid \<Rightarrow>
                    if os_alive N pid k' then (Inr (Inr pid), k')
                    else (Inr (Inl ''QEMU daemon exited immediately after daemonize''), k')))"

definition cloud_init_of :: "vm_options \<Rightarrow> string option \<Rightarrow> cloud_init_config" where
  "cloud_init_of o' version =
     \<lparr>ci_task_id = vo_task_id o', ci_hostname = vm_name (vo_task_id o'), ci_ssh_key = vo_ssh_key o',
      ci_runner_key = vo_runner_key o', ci_runner_url = vo_runner_url o', ci_nvidia = version,
      ci_nics = map (\<lambda>(i, x). (x, i = (0::nat))) (enumerate 0 (get_interfaces o'))\<rparr>"

definition new_instance :: "vm_options \<Rightarrow> string \<Rightarrow> string list \<Rightarrow> int \<Rightarrow> int \<Rightarrow> vm_instance" where
  "new_instance o' d cmd pid now =
     (let p = get_interfaces o' ! 0 in
      \<lparr>vx_task_id = vo_task_id o', vx_pid = pid, vx_ip = nc_ip p, vx_tap = nc_tap p, vx_gpus = vo_gpus o', vx_dir = d,
       vx_qmp = vm_qmp_socket_path (vo_task_id o'), vx_taps = map nc_tap (get_interfaces o'), vx_created = now, vx_cmd = cmd,
       vx_ssh_ready = False, vx_heartbeat = None, vx_gpu_info = [], vx_system = []\<rparr>)"

text \<open>The body of the \<^verbatim>\<open>try\<close> block of \<^verbatim>\<open>create_vm\<close>.\<close>

definition launch_vm :: "('k, 'z) machine_scheme \<Rightarrow> string \<Rightarrow> int \<Rightarrow> vm_options \<Rightarrow> string \<Rightarrow> ('k qemu, vm_instance) st" where
  "launch_vm N images now o' d =
     (let base = path_join images (vo_image o' @ ''.qcow2'') in
      bind_st (on_os (\<lambda>k. if os_exists N base k then (Inr (), k)
                          else (Inl (vm_creation_error (vo_task_id o') (''Base image not found: '' @ base)), k))) (\<lambda>_.
      bind_st (on_os (create_overlay_disk N base (vm_root_disk_path d) (vo_disk_size o'))) (\<lambda>_.
      bind_st (\<lambda>s. (Inr (if vo_gpus o' \<noteq> [] then os_driver_version N (qm_os s) else None), s)) (\<lambda>version.
      bind_st (on_os (bind_gpus N [] (vo_gpus o'))) (\<lambda>_.
      bind_st (on_os (os_make_iso N (vm_cloud_init_path d) (cloud_init_of o' version))) (\<lambda>_.
      bind_st (\<lambda>s. (Inr (build_qemu_command N o' d (qm_os s)), s)) (\<lambda>cmd.
      bind_st (on_os (start_qemu N cmd d)) (\<lambda>r s.
        case r of
          Inl m \<Rightarrow> (Inl (vm_creation_error (vo_task_id o') m), s)
        | Inr pid \<Rightarrow>
            (let vm = new_instance o' d cmd pid now
             in (Inr vm, s\<lparr>qm_os := os_save_cmd N d cmd (qm_os s), qm_vms := AList.update (vo_task_id o') vm (qm_vms s)\<rparr>))))))))))"

definition cleanup_vm_on_error :: "('k, 'z) machine_scheme \<Rightarrow> vm_options \<Rightarrow> 'k qemu \<Rightarrow> 'k qemu" where
  "cleanup_vm_on_error N o' s = s\<lparr>qm_os := unbind_gpus N [] (vo_gpus o') (qm_os s)\<rparr>"

definition create_vm :: "('k, 'z) machine_scheme \<Rightarrow> string \<Rightarrow> string \<Rightarrow> int \<Rightarrow> vm_options \<Rightarrow> ('k qemu, vm_instance) st" where
  "create_vm N instances images now o' = (\<lambda>s.
     if vm_exists (vo_task_id o') s then (Inl (vm_creation_error (vo_task_id o') ''VM already exists''), s)
     else
       let d = vm_instance_dir instances (vo_task_id o')
       in case launch_vm N images now o' d
                 (s\<lparr>qm_os := os_makedirs N ''/run/kohakuriver/vm'' (os_makedirs N d (qm_os s))\<rparr>) of
            (Inr vm, s') \<Rightarrow> (Inr vm, s')
          | (Inl (VMCreationError m), s') \<Rightarrow> (Inl (VMCreationError m), s')
          | (Inl e, s') \<Rightarrow> (Inl (vm_creation_error (vo_task_id o') (exn_text e)), cleanup_vm_on_error N o' s'))"

section \<open>Stop and restart\<close>

fun wait_exit :: "('k, 'z) machine_scheme \<Rightarrow> int \<Rightarrow> nat \<Rightarrow> 'k \<Rightarrow> 'k" where
  "wait_exit N pid 0 k = k"
| "wait_exit N pid (Suc n) k = (if os_alive N pid k then wait_exit N pid n (os_sleep N k) else k)"

text \<open>Graceful shutdown, then force: the first steps of \<^verbatim>\<open>stop_vm\<close> and \<^verbatim>\<open>restart_vm\<close>.\<close>

definition shut_down :: "('k, 'z) machine_scheme \<Rightarrow> vm_instance \<Rightarrow> nat \<Rightarrow> 'k \<Rightarrow> 'k" where
  "shut_down N vm timeout k =
     (let k1 = wait_exit N (vx_pid vm) timeout (snd (os_qmp N (vx_qmp vm) ''system_powerdown'' k))
      in if os_alive N (vx_pid vm) k1 then os_sleep N (os_kill N (vx_pid vm) k1) else k1)"

definition cleanup_vm :: "('k, 'z) machine_scheme \<Rightarrow> int \<Rightarrow> 'k qemu \<Rightarrow> 'k qemu" where
  "cleanup_vm N i s =
     (case get_vm i s of
        None \<Rightarrow> s
      | Some vm \<Rightarrow> \<lparr>qm_vms = AList.delete i (qm_vms s), qm_os = os_unlink N (vx_qmp vm) (unbind_gpus N [] (vx_gpus vm) (qm_os s))\<rparr>)"

definition stop_vm :: "('k, 'z) machine_scheme \<Rightarrow> nat \<Rightarrow> int \<Rightarrow> 'k qemu \<Rightarrow> bool \<times> 'k qemu" where
  "stop_vm N timeout i s =
     (case get_vm i s of
        None \<Rightarrow> (False, s)
      | Some vm \<Rightarrow> (True, cleanup_vm N i (s\<lparr>qm_os := shut_down N vm timeout (qm_os s)\<rparr>)))"

definition kill_vm :: "('k, 'z) machine_scheme \<Rightarrow> int \<Rightarrow> 'k qemu \<Rightarrow> bool \<times> 'k qemu" where
  "kill_vm N i s =
     (case get_vm i s of
        None \<Rightarrow> (False, s)
      | Some vm \<Rightarrow> (True, cleanup_vm N i (s\<lparr>qm_os := os_sleep N (os_kill N (vx_pid vm) (qm_os s))\<rparr>)))"

text \<open>The second half of \<^verbatim>\<open>restart_vm\<close>, after the VM was taken out of the books.\<close>

definition relaunch_vm :: "('k, 'z) machine_scheme \<Rightarrow> vm_instance \<Rightarrow> ('k qemu, bool) st" where
  "relaunch_vm N vm = (\<lambda>s0.
     let k1 = os_unlink N (vx_qmp vm) (qm_os s0);
         k2 = (if vx_gpus vm = [] then (Inr (), k1)
               else bind_gpus N [] (vx_gpus vm) (os_sleep N (unbind_gpus N [] (vx_gpus vm) k1)))
     in case k2 of
          (Inl e, k) \<Rightarrow> (Inr False, s0\<lparr>qm_os := k\<rparr>)
        | (Inr _, k) \<Rightarrow>
            (case start_qemu N (vx_cmd vm) (vx_dir vm) k of
               (Inl e, k') \<Rightarrow> (Inl e, s0\<lparr>qm_os := k'\<rparr>)
             | (Inr (Inl m), k') \<Rightarrow> (Inr False, s0\<lparr>qm_os := k'\<rparr>)
             | (Inr (Inr pid), k') \<Rightarrow>
                 (Inr True, \<lparr>qm_vms = AList.update (vx_task_id vm)
                      (vm\<lparr>vx_pid := pid, vx_ssh_ready := False, vx_heartbeat := None, vx_gpu_info := [], vx_system := []\<rparr>) (qm_vms s0),
                    qm_os = k'\<rparr>)))"

definition restart_vm :: "('k, 'z) machine_scheme \<Rightarrow> nat \<Rightarrow> int \<Rightarrow> ('k qemu, bool) st" where
  "restart_vm N timeout i = (\<lambda>s.
     case get_vm i s of
       None \<Rightarrow> (Inr False, s)
     | Some vm0 \<Rightarrow>
         let vm = (if vx_cmd vm0 = [] then vm0\<lparr>vx_cmd := os_load_cmd N (vx_dir vm0) (qm_os s)\<rparr> else vm0);
             s1 = s\<lparr>qm_vms := AList.update i vm (qm_vms s)\<rparr>
         in if vx_cmd vm = []
            then (Inr True, s1\<lparr>qm_os := snd (os_qmp N (vx_qmp vm) ''system_reset'' (qm_os s))\<rparr>)
            else relaunch_vm N vm (s1\<lparr>qm_vms := AList.delete i (qm_vms s1), qm_os := shut_down N vm timeout (qm_os s)\<rparr>))"

section \<open>Recovery\<close>

record recovered_vm =
  rv_ip :: string
  rv_tap :: string
  rv_taps :: "string list"
  rv_gpus :: "string list"

definition recover_vm :: "('k, 'z) machine_scheme \<Rightarrow> string \<Rightarrow> int \<Rightarrow> int \<Rightarrow> recovered_vm \<Rightarrow> 'k qemu \<Rightarrow> vm_instance option \<times> 'k qemu" where
  "recover_vm N instances now i d s =
     (let dir = vm_instance_dir instances i in
      case Option.bind (os_text N (vm_pidfile_path dir) (qm_os s)) (int_of_str 10) of
        None \<Rightarrow> (None, s)
      | Some pid \<Rightarrow>
          if \<not> os_alive N pid (qm_os s) then (None, s)
          else
            let vm = \<lparr>vx_task_id = i, vx_pid = pid, vx_ip = rv_ip d, vx_tap = rv_tap d, vx_gpus = rv_gpus d, vx_dir = dir,
                  vx_qmp = vm_qmp_socket_path i,
                  vx_taps = (if rv_taps d \<noteq> [] then rv_taps d else if rv_tap d \<noteq> [] then [rv_tap d] else []),
                  vx_created = now, vx_cmd = os_load_cmd N dir (qm_os s), vx_ssh_ready = True, vx_heartbeat = None,
                  vx_gpu_info = [], vx_system = []\<rparr>
            in (Some vm, s\<lparr>qm_vms := AList.update i vm (qm_vms s)\<rparr>))"

end
