(* ===== verification/Vm_Capability.thy ===== *)
theory Vm_Capability
  imports Qemu_Client
begin

text \<open>
  Whether a node can run virtual machines, and with which graphics cards (\<^verbatim>\<open>qemu/capability.py\<close>).  A check
  answers with nothing when it passes and with its message when it does not.
\<close>

definition contains :: "string \<Rightarrow> string \<Rightarrow> bool" where
  "contains p s \<longleftrightarrow> list_ex (\<lambda>i. startswith (drop i s) p) [0..<Suc (length s)]"

text \<open>\<open>accessible\<close>: what \<^verbatim>\<open>os.access\<close> says of \<^verbatim>\<open>/dev/kvm\<close>.\<close>

definition check_kvm :: "('k, 'z) machine_scheme \<Rightarrow> bool \<Rightarrow> 'k \<Rightarrow> string option" where
  "check_kvm N accessible k =
     (if os_exists N ''/dev/kvm'' k
      then if accessible then None else Some ''/dev/kvm exists but not accessible (check permissions)''
      else Some ''/dev/kvm not found (KVM not enabled or kernel module not loaded)'')"

definition check_cpu_virtualization :: "('k, 'z) machine_scheme \<Rightarrow> 'k \<Rightarrow> string option" where
  "check_cpu_virtualization N k =
     (case os_text N ''/proc/cpuinfo'' k of
        None \<Rightarrow> Some ''Cannot read /proc/cpuinfo''
      | Some t \<Rightarrow> if contains ''vmx'' t \<or> contains ''svm'' t then None
                  else Some ''CPU virtualization (VMX/SVM) not found in /proc/cpuinfo'')"

definition check_iommu :: "('k, 'z) machine_scheme \<Rightarrow> 'k \<Rightarrow> string option" where
  "check_iommu N k =
     (case pc_dir N ''/sys/kernel/iommu_groups'' k of
        Some (g # gs) \<Rightarrow> None
      | _ \<Rightarrow> Some ''IOMMU not enabled (add intel_iommu=on or amd_iommu=on to kernel params)'')"

definition join_comma :: "string list \<Rightarrow> string" where
  "join_comma xs = (case xs of [] \<Rightarrow> [] | y # ys \<Rightarrow> y @ concat (map (\<lambda>z. '', '' @ z) ys))"

definition check_vfio_modules :: "('k, 'z) machine_scheme \<Rightarrow> 'k \<Rightarrow> string option" where
  "check_vfio_modules N k =
     (case os_text N ''/proc/modules'' k of
        None \<Rightarrow> Some ''Cannot check kernel modules''
      | Some t \<Rightarrow>
          (let missing = filter (\<lambda>m. \<not> contains m t) [''vfio'', ''vfio_pci'', ''vfio_iommu_type1''];
               builtin_missing = filter (\<lambda>m. \<not> os_exists N (''/sys/module/'' @ m) k) missing
           in if builtin_missing = [] then None
              else Some (''VFIO modules not loaded: '' @ join_comma builtin_missing @ '' (modprobe vfio-pci)'')))"

text \<open>\<open>which\<close>: whether a program is on the search path.\<close>

definition check_qemu :: "('k, 'z) machine_scheme \<Rightarrow> (string \<Rightarrow> bool) \<Rightarrow> 'k \<Rightarrow> string list" where
  "check_qemu N which k =
     (if which ''qemu-system-x86_64'' then [] else [''qemu-system-x86_64 not found (apt install qemu-system-x86)'']) @
     (if which ''qemu-img'' then [] else [''qemu-img not found (apt install qemu-utils)'']) @
     (if list_ex (\<lambda>p. os_exists N p k) OVMF_PATHS then [] else [''OVMF firmware not found (apt install ovmf)'']) @
     (if which ''genisoimage'' \<or> which ''mkisofs'' then [] else [''genisoimage/mkisofs not found (apt install genisoimage)''])"

definition check_nvidia_drm_modeset :: "('k, 'z) machine_scheme \<Rightarrow> 'k \<Rightarrow> bool" where
  "check_nvidia_drm_modeset N k \<longleftrightarrow> pc_file N ''/sys/module/nvidia_drm/parameters/modeset'' k = Some ''Y''"

record vm_capability =
  cap_capable :: bool
  cap_gpus :: "gpu_info list"
  cap_errors :: "string list"
  cap_warnings :: "string list"

definition noted :: "string option \<Rightarrow> string list" where
  "noted m = (case m of None \<Rightarrow> [] | Some t \<Rightarrow> [t])"

definition join_semicolon :: "string list \<Rightarrow> string" where
  "join_semicolon xs = (case xs of [] \<Rightarrow> [] | y # ys \<Rightarrow> y @ concat (map (\<lambda>z. ''; '' @ z) ys))"

definition check_vm_capability ::
  "('k, 'z) machine_scheme \<Rightarrow> bool \<Rightarrow> (string \<Rightarrow> bool) \<Rightarrow> (string \<Rightarrow> string) \<Rightarrow> 'k \<Rightarrow> vm_capability" where
  "check_vm_capability N accessible which gpu_name k =
     (let kvm = check_kvm N accessible k; cpu = check_cpu_virtualization N k; qemu = check_qemu N which k;
          iommu = check_iommu N k; vfio = check_vfio_modules N k;
          found = iommu = None \<and> vfio = None;
          gpus = (if found then discover_vfio_gpus N gpu_name k else [])
      in \<lparr>cap_capable = (kvm = None \<and> cpu = None \<and> qemu = []), cap_gpus = gpus,
          cap_errors = noted kvm @ noted cpu @ (if qemu = [] then [] else [join_semicolon qemu]),
          cap_warnings = noted (map_option (\<lambda>m. ''IOMMU: '' @ m) iommu) @ noted (map_option (\<lambda>m. ''VFIO: '' @ m) vfio) @
            (if check_nvidia_drm_modeset N k
             then [''nvidia_drm.modeset=Y: GPU unbinding will hang on consumer cards. Set nvidia_drm.modeset=0 in kernel params for headless compute nodes'']
             else []) @
            (if found \<and> gpus = [] then [''No GPUs suitable for VFIO passthrough found''] else [])\<rparr>)"

end
