(* ===== verification/Vm_Vps.thy ===== *)
theory Vm_Vps
  imports Vm_Capability Vm_Network
begin

text \<open>
  VPS instances that are virtual machines (\<^verbatim>\<open>runner/services/vm_vps_manager.py\<close>), the port proxies that lead
  to them (\<^verbatim>\<open>runner/services/vm_ssh.py\<close>) and their endpoints (\<^verbatim>\<open>runner/endpoints/vps.py\<close>).  The state joins the
  VMs of QEMU, their networks, and the runner with its task store and its reports.  A creation is one
  operation: its awaits are not interleaved with others.
\<close>

section \<open>The state\<close>

text \<open>A watchdog that sleeps: for the end of cloud-init, and for the first heartbeat after a restart.\<close>

datatype watchdog = CloudInit int bool | Reboot int "int option"

record ('k, 'n, 's) vm_service =
  vs_qemu :: "'k qemu"
  vs_net :: "'n vm_net"
  vs_runner :: "'s runner"
  vs_proxies :: "(int, int \<times> string) dict" \<comment> \<open>port and address\<close>
  vs_files :: "(int, task_state) dict" \<comment> \<open>the state files in the instance directories\<close>
  vs_watch :: "watchdog list"

section \<open>GPUs\<close>

definition append_new :: "'a \<Rightarrow> 'a list \<Rightarrow> 'a list" where
  "append_new x xs = (if x \<in> set xs then xs else xs @ [x])"

text \<open>What the loop adds for one id: the card, and the audio function that comes with it.\<close>

definition gpu_addresses :: "gpu_info list \<Rightarrow> int \<Rightarrow> string list" where
  "gpu_addresses gpus i =
     (case find (\<lambda>g. gi_id g = i) gpus of
        None \<Rightarrow> []
      | Some g \<Rightarrow> gi_address g # (if truthy (gi_audio g) then [the (gi_audio g)] else []))"

definition resolve_gpu_pci_addresses :: "int list \<Rightarrow> gpu_info list \<Rightarrow> string list" where
  "resolve_gpu_pci_addresses ids gpus =
     fold append_new (fold (\<lambda>i. fold append_new (gpu_addresses gpus i)) ids []) []"

section \<open>Options and stored state\<close>

definition nic_of :: "vm_iface \<Rightarrow> nic_spec" where
  "nic_of x = \<lparr>nc_tap = if_tap x, nc_mac = if_mac x, nc_ip = if_ip x, nc_gateway = if_gateway x, nc_prefix = if_prefix x, nc_dns = if_dns x\<rparr>"

definition no_nic :: nic_spec where
  "no_nic = \<lparr>nc_tap = '''', nc_mac = '''', nc_ip = '''', nc_gateway = '''', nc_prefix = 0, nc_dns = []\<rparr>"

definition build_vm_create_options ::
  "runner_config \<Rightarrow> int \<Rightarrow> string \<Rightarrow> int \<Rightarrow> int \<Rightarrow> string \<Rightarrow> string list \<Rightarrow> string option \<Rightarrow> string \<Rightarrow> vm_network_info \<Rightarrow> vm_options" where
  "build_vm_create_options cfg i img cores memory disk gpus key runner_key info =
     \<lparr>vo_task_id = i, vo_image = img, vo_cores = cores, vo_memory_mb = memory, vo_disk_size = disk, vo_gpus = gpus,
      vo_ssh_key = (if truthy key then the key else ''''), vo_runner_url = ni_runner_url info, vo_runner_key = runner_key,
      vo_shared = path_join (SHARED_DIR cfg) ''shared_data'', vo_local = path_join (LOCAL_TEMP_DIR cfg) (str_of_int i),
      vo_nics = map nic_of (ni_interfaces info), vo_single = no_nic\<rparr>"

definition stored_iface :: "vm_iface \<Rightarrow> vm_iface_state" where
  "stored_iface x = \<lparr>vi_network = Some (if_network x), vi_tap = Some (if_tap x), vi_ip = Some (if_ip x), vi_bridge = Some (if_bridge x),
     vi_mode = Some (if_mode x), vi_token = if_token x\<rparr>"

definition vm_task_state :: "int \<Rightarrow> int \<Rightarrow> int list \<Rightarrow> string list \<Rightarrow> vm_network_info \<Rightarrow> int option \<Rightarrow> task_state" where
  "vm_task_state i cores ids gpus info port =
     (let p = primary_iface info in
      \<lparr>ts_task_id = i, ts_container = ''vm-'' @ str_of_int i, ts_cores = CoreCount cores, ts_gpus = ids, ts_numa = None,
       ts_vm = Some \<lparr>vm_gpu_addrs = gpus, vm_taps = map if_tap (ni_interfaces info), vm_tap = if_tap p, vm_addr = if_ip p,
         vm_gateway = if_gateway p, vm_mac = if_mac p, vm_bridge = if_bridge p, vm_mode = if_mode p, vm_prefix = if_prefix p,
         vm_ssh_port = port, vm_ifaces = map stored_iface (ni_interfaces info)\<rparr>\<rparr>)"

definition persist_vm_task_state ::
  "('s, task_state) kvault \<Rightarrow> int \<Rightarrow> int \<Rightarrow> int list \<Rightarrow> string list \<Rightarrow> vm_network_info \<Rightarrow> int option
   \<Rightarrow> ('k, 'n, 's) vm_service \<Rightarrow> ('k, 'n, 's) vm_service" where
  "persist_vm_task_state V i cores ids gpus info port s =
     (let t = vm_task_state i cores ids gpus info port; r = vs_runner s
      in s\<lparr>vs_runner := r\<lparr>r_store := store_setitem V (str_of_int i) t (r_store r)\<rparr>, vs_files := AList.update i t (vs_files s)\<rparr>)"

definition remove_vm_state_file :: "int \<Rightarrow> ('k, 'n, 's) vm_service \<Rightarrow> ('k, 'n, 's) vm_service" where
  "remove_vm_state_file i s = s\<lparr>vs_files := AList.delete i (vs_files s)\<rparr>"

section \<open>Proxies\<close>

text \<open>\<open>listens\<close>: whether the port could be listened on.\<close>

definition start_ssh_proxy :: "bool \<Rightarrow> int \<Rightarrow> int \<Rightarrow> string \<Rightarrow> ('k, 'n, 's) vm_service \<Rightarrow> bool \<times> ('k, 'n, 's) vm_service" where
  "start_ssh_proxy listens i port addr s =
     (if i \<in> set (dict_keys (vs_proxies s)) then (True, s)
      else if listens then (True, s\<lparr>vs_proxies := AList.update i (port, addr) (vs_proxies s)\<rparr>)
      else (False, s))"

definition stop_ssh_proxy :: "int \<Rightarrow> ('k, 'n, 's) vm_service \<Rightarrow> ('k, 'n, 's) vm_service" where
  "stop_ssh_proxy i s = s\<lparr>vs_proxies := AList.delete i (vs_proxies s)\<rparr>"

section \<open>Creation\<close>

definition report_vm :: "int \<Rightarrow> status_update \<Rightarrow> ('k, 'n, 's) vm_service \<Rightarrow> ('k, 'n, 's) vm_service" where
  "report_vm i u s = s\<lparr>vs_runner := report_status_to_host i u (vs_runner s)\<rparr>"

definition failed_update :: "int \<Rightarrow> string \<Rightarrow> status_update" where
  "failed_update now m = (bare_update ''failed'')\<lparr>su_message := Some m, su_completed_at := Some now\<rparr>"

record vm_request =
  vr_task_id :: int
  vr_image :: string
  vr_cores :: int
  vr_memory_mb :: int
  vr_disk_size :: string
  vr_gpus :: "int list option"
  vr_ssh_key :: "string option"
  vr_ssh_port :: "int option"
  vr_networks :: "string list option"
  vr_reserved_ips :: "(string, string) dict option"

text \<open>What surrounds a creation: the directories, the capability found when the runner asked for it first,
  the host's answers to requests for addresses, the runner's public key.\<close>

record ('k, 'n, 's) vm_env =
  ve_node :: "'k machine"
  ve_net :: "'n vm_kernel"
  ve_hashes :: hashes
  ve_cfg :: runner_config
  ve_instances :: string
  ve_images :: string
  ve_capability :: vm_capability
  ve_vault :: "('s, task_state) kvault"
  ve_runner_key :: "string option"

definition provision_message :: "string list \<Rightarrow> string" where
  "provision_message gpus =
     (if gpus \<noteq> [] then ''Provisioning VM - installing packages and NVIDIA drivers via cloud-init''
      else ''Provisioning VM - installing packages via cloud-init'')"

definition gpus_of_request :: "('k, 'n, 's) vm_env \<Rightarrow> vm_request \<Rightarrow> string list" where
  "gpus_of_request E q =
     (case vr_gpus q of
        None \<Rightarrow> []
      | Some ids \<Rightarrow> if ids = [] then [] else resolve_gpu_pci_addresses ids (cap_gpus (ve_capability E)))"

text \<open>The handler of \<^verbatim>\<open>except Exception\<close>: the network is released, the host is told.\<close>

definition creation_failed :: "('k, 'n, 's) vm_env \<Rightarrow> int \<Rightarrow> int \<Rightarrow> pyexn \<Rightarrow> ('k, 'n, 's) vm_service \<Rightarrow> string option \<times> ('k, 'n, 's) vm_service" where
  "creation_failed E now i e s =
     (let m = ''VM VPS creation failed: '' @ exn_text e
      in (Some m, report_vm i (failed_update now m) (s\<lparr>vs_net := cleanup_vm_network (ve_net E) i (vs_net s)\<rparr>)))"

text \<open>\<open>answers\<close>: the host's answers to the requests for addresses; \<open>listens\<close>: whether the port is free.
  The outcome is the error, if there is one.\<close>

definition create_vm_vps ::
  "('k, 'n, 's) vm_env \<Rightarrow> (nat \<Rightarrow> (string \<times> string) option) \<Rightarrow> bool \<Rightarrow> int \<Rightarrow> vm_request
   \<Rightarrow> ('k, 'n, 's) vm_service \<Rightarrow> string option \<times> ('k, 'n, 's) vm_service" where
  "create_vm_vps E answers listens now q s0 =
     (let i = vr_task_id q; s = report_vm i (bare_update ''pending'') s0 in
      if \<not> cap_capable (ve_capability E)
      then (let m = ''Node is not VM-capable: '' @ join_semicolon (cap_errors (ve_capability E))
            in (Some m, report_vm i (failed_update now m) s))
      else
        let gpus = gpus_of_request E q in
        case create_vm_network (ve_net E) (ve_hashes E) (ve_cfg E) answers i (vr_networks q) (vr_reserved_ips q) (vs_net s) of
          (Inl e, n) \<Rightarrow> creation_failed E now i e (s\<lparr>vs_net := n\<rparr>)
        | (Inr info, n) \<Rightarrow>
            let options = build_vm_create_options (ve_cfg E) i (vr_image q) (vr_cores q) (vr_memory_mb q) (vr_disk_size q) gpus
                  (vr_ssh_key q) (case ve_runner_key E of None \<Rightarrow> '''' | Some k \<Rightarrow> k) info;
                dir = path_join (LOCAL_TEMP_DIR (ve_cfg E)) (str_of_int i);
                qm = (vs_qemu s)\<lparr>qm_os := os_makedirs (ve_node E) dir (qm_os (vs_qemu s))\<rparr>
            in case create_vm (ve_node E) (ve_instances E) (ve_images E) now options qm of
                 (Inl e, qm') \<Rightarrow> creation_failed E now i e (s\<lparr>vs_net := n, vs_qemu := qm'\<rparr>)
               | (Inr vm, qm') \<Rightarrow>
                   let s1 = s\<lparr>vs_net := n, vs_qemu := qm'\<rparr>;
                       s2 = (case vr_ssh_port q of
                               Some p \<Rightarrow> if p \<noteq> 0 then snd (start_ssh_proxy listens i p (if_ip (primary_iface info)) s1) else s1
                             | None \<Rightarrow> s1);
                       s3 = persist_vm_task_state (ve_vault E) i (vr_cores q) (case vr_gpus q of None \<Rightarrow> [] | Some g \<Rightarrow> g) gpus info (vr_ssh_port q) s2
                   in (None, (report_vm i ((bare_update ''assigning'')\<lparr>su_message := Some (provision_message gpus)\<rparr>) s3)
                              \<lparr>vs_watch := vs_watch s3 @ [CloudInit i (gpus \<noteq> [])]\<rparr>))"

section \<open>Stop and restart\<close>

definition STOP_TIMEOUT :: nat where "STOP_TIMEOUT = 30"

definition stop_vm_vps :: "('k, 'n, 's) vm_env \<Rightarrow> int \<Rightarrow> ('k, 'n, 's) vm_service \<Rightarrow> bool \<times> ('k, 'n, 's) vm_service" where
  "stop_vm_vps E i s =
     (case stop_vm (ve_node E) STOP_TIMEOUT i (vs_qemu s) of
        (success, qm) \<Rightarrow>
          (let s1 = stop_ssh_proxy i (s\<lparr>vs_qemu := qm\<rparr>);
               r = vs_runner s1
           in (success, remove_vm_state_file i
                 (s1\<lparr>vs_net := cleanup_vm_network (ve_net E) i (vs_net s1),
                     vs_runner := r\<lparr>r_store := snd (remove_task (ve_vault E) i (r_store r))\<rparr>\<rparr>))))"

definition restart_vm_vps :: "('k, 'n, 's) vm_env \<Rightarrow> int \<Rightarrow> ('k, 'n, 's) vm_service \<Rightarrow> bool \<times> ('k, 'n, 's) vm_service" where
  "restart_vm_vps E i s =
     (case get_vm i (vs_qemu s) of
        None \<Rightarrow> (False, s)
      | Some vm \<Rightarrow>
          (let qm = vs_qemu s in
           case restart_vm (ve_node E) STOP_TIMEOUT i (qm\<lparr>qm_vms := AList.update i (vm\<lparr>vx_ssh_ready := False\<rparr>) (qm_vms qm)\<rparr>) of
             (Inr True, qm') \<Rightarrow> (True, s\<lparr>vs_qemu := qm', vs_watch := vs_watch s @ [Reboot i (vx_heartbeat vm)]\<rparr>)
           | (_, qm') \<Rightarrow> (False, s\<lparr>vs_qemu := qm'\<rparr>)))"

section \<open>The guest's messages and the watchdogs\<close>

definition update_vm :: "int \<Rightarrow> (vm_instance \<Rightarrow> vm_instance) \<Rightarrow> ('k, 'n, 's) vm_service \<Rightarrow> ('k, 'n, 's) vm_service" where
  "update_vm i f s =
     (case get_vm i (vs_qemu s) of
        None \<Rightarrow> s
      | Some vm \<Rightarrow> s\<lparr>vs_qemu := (vs_qemu s)\<lparr>qm_vms := AList.update i (f vm) (qm_vms (vs_qemu s))\<rparr>\<rparr>)"

definition ensure_running_reported :: "int \<Rightarrow> int \<Rightarrow> ('k, 'n, 's) vm_service \<Rightarrow> ('k, 'n, 's) vm_service" where
  "ensure_running_reported i started =
     report_vm i ((bare_update ''running'')\<lparr>su_message := Some '''', su_started_at := Some started\<rparr>)"

definition mark_vm_ready :: "int \<Rightarrow> ('k, 'n, 's) vm_service \<Rightarrow> ('k, 'n, 's) vm_service" where
  "mark_vm_ready i s =
     (case get_vm i (vs_qemu s) of
        None \<Rightarrow> s
      | Some vm \<Rightarrow> ensure_running_reported i (vx_created vm) (update_vm i (\<lambda>v. v\<lparr>vx_ssh_ready := True\<rparr>) s))"

text \<open>\<open>at\<close> is the payload's time; an absent or empty list of GPUs or system entry is not stored.\<close>

definition receive_vm_heartbeat ::
  "int \<Rightarrow> int option \<Rightarrow> string list \<Rightarrow> string list \<Rightarrow> ('k, 'n, 's) vm_service \<Rightarrow> ('k, 'n, 's) vm_service" where
  "receive_vm_heartbeat i at gpus system s =
     (case get_vm i (vs_qemu s) of
        None \<Rightarrow> s
      | Some vm \<Rightarrow>
          (let s1 = update_vm i (\<lambda>v. v\<lparr>vx_heartbeat := at, vx_ssh_ready := True,
                 vx_gpu_info := (if gpus \<noteq> [] then gpus else vx_gpu_info v),
                 vx_system := (if system \<noteq> [] then system else vx_system v)\<rparr>) s
           in if vx_heartbeat vm = None then ensure_running_reported i (vx_created vm) s1 else s1))"

definition cloud_init_timeout :: "bool \<Rightarrow> int" where
  "cloud_init_timeout gpu = (if gpu then 900 else 300)"

definition cloud_init_watchdog :: "int \<Rightarrow> int \<Rightarrow> bool \<Rightarrow> ('k, 'n, 's) vm_service \<Rightarrow> ('k, 'n, 's) vm_service" where
  "cloud_init_watchdog now i gpu s =
     (case get_vm i (vs_qemu s) of
        None \<Rightarrow> s
      | Some vm \<Rightarrow>
          if vx_ssh_ready vm then s
          else report_vm i (failed_update now (''Cloud-init timed out after '' @ str_of_int (cloud_init_timeout gpu) @ ''s'')) s)"

text \<open>One poll of the watchdog of a restart; whether it goes on.\<close>

definition reboot_watchdog :: "int \<Rightarrow> int option \<Rightarrow> ('k, 'n, 's) vm_service \<Rightarrow> bool \<times> ('k, 'n, 's) vm_service" where
  "reboot_watchdog i old s =
     (case get_vm i (vs_qemu s) of
        None \<Rightarrow> (False, s)
      | Some vm \<Rightarrow>
          (case vx_heartbeat vm of
             None \<Rightarrow> (True, s)
           | Some h \<Rightarrow>
               if h \<noteq> 0 \<and> (case old of None \<Rightarrow> True | Some h0 \<Rightarrow> h0 < h)
               then (False, update_vm i (\<lambda>v. v\<lparr>vx_ssh_ready := True\<rparr>) s)
               else (True, s)))"

section \<open>Endpoints\<close>

record vm_status =
  st_task_id :: int
  st_ip :: string
  st_pid :: int
  st_ready :: bool
  st_created :: int
  st_heartbeat :: "int option"
  st_gpus :: "string list"

definition get_vm_status :: "int \<Rightarrow> ('k, 'n, 's) vm_service \<Rightarrow> vm_status option" where
  "get_vm_status i s =
     map_option (\<lambda>v. \<lparr>st_task_id = vx_task_id v, st_ip = vx_ip v, st_pid = vx_pid v, st_ready = vx_ssh_ready v,
       st_created = vx_created v, st_heartbeat = vx_heartbeat v, st_gpus = vx_gpus v\<rparr>) (get_vm i (vs_qemu s))"

definition vm_status_endpoint :: "int \<Rightarrow> ('k, 'n, 's) vm_service \<Rightarrow> vm_status res" where
  "vm_status_endpoint i s = (case get_vm_status i s of None \<Rightarrow> Inl (HTTPException 404 ''VM not found.'') | Some v \<Rightarrow> Inr v)"

definition vm_restart_endpoint :: "('k, 'n, 's) vm_env \<Rightarrow> int \<Rightarrow> (('k, 'n, 's) vm_service, unit) st" where
  "vm_restart_endpoint E i = (\<lambda>s. case restart_vm_vps E i s of
     (ok, s') \<Rightarrow> (if ok then Inr () else Inl (HTTPException 500 ''Failed to restart VM.''), s'))"

text \<open>The creation endpoint for VMs; \<open>defaults\<close> are the configured memory and disk.\<close>

record vm_create_payload =
  vp_task_id :: int
  vp_image :: "string option"
  vp_cores :: int
  vp_memory_mb :: "int option"
  vp_disk_size :: "string option"
  vp_gpus :: "int list option"
  vp_ssh_key :: "string option"
  vp_ssh_port :: "int option"
  vp_network :: "string option"
  vp_networks :: "string list option"
  vp_reserved_ips :: "(string, string) dict option"

definition vm_request_of :: "int \<Rightarrow> string \<Rightarrow> vm_create_payload \<Rightarrow> vm_request" where
  "vm_request_of memory disk p =
     \<lparr>vr_task_id = vp_task_id p, vr_image = (if truthy (vp_image p) then the (vp_image p) else ''ubuntu-24.04''), vr_cores = vp_cores p,
      vr_memory_mb = (case vp_memory_mb p of Some m \<Rightarrow> if m \<noteq> 0 then m else memory | None \<Rightarrow> memory),
      vr_disk_size = (if truthy (vp_disk_size p) then the (vp_disk_size p) else disk), vr_gpus = vp_gpus p, vr_ssh_key = vp_ssh_key p,
      vr_ssh_port = vp_ssh_port p,
      vr_networks = (case vp_networks p of Some (n # ns) \<Rightarrow> Some (n # ns)
                     | _ \<Rightarrow> if truthy (vp_network p) then Some [the (vp_network p)] else None),
      vr_reserved_ips = vp_reserved_ips p\<rparr>"

definition create_vm_vps_endpoint ::
  "('k, 'n, 's) vm_env \<Rightarrow> (nat \<Rightarrow> (string \<times> string) option) \<Rightarrow> bool \<Rightarrow> int \<Rightarrow> int \<Rightarrow> string \<Rightarrow> vm_create_payload
   \<Rightarrow> (('k, 'n, 's) vm_service, unit) st" where
  "create_vm_vps_endpoint E answers listens now memory disk p = (\<lambda>s.
     if stored_task (ve_vault E) (vp_task_id p) (r_store (vs_runner s)) \<noteq> None
     then (Inl (HTTPException 409 ''VPS is already running on this node.''), s)
     else case create_vm_vps E answers listens now (vm_request_of memory disk p) s of
            (Some m, s') \<Rightarrow> (Inl (HTTPException 500 m), s')
          | (None, s') \<Rightarrow> (Inr (), s'))"

text \<open>The stop endpoint, for a task that is a VM.\<close>

definition stop_vm_vps_endpoint :: "('k, 'n, 's) vm_env \<Rightarrow> int \<Rightarrow> (('k, 'n, 's) vm_service, unit) st" where
  "stop_vm_vps_endpoint E i = (\<lambda>s.
     if stored_task (ve_vault E) i (r_store (vs_runner s)) = None then (Inl (HTTPException 404 ''VPS not found.''), s)
     else case stop_vm_vps E i s of
            (ok, s') \<Rightarrow> (if ok then Inr () else Inl (HTTPException 500 ''Failed to stop VPS.''), s'))"

text \<open>\<open>isdir\<close>: whether the directory of the instance is there.  The directory is deleted whatever
  \<^verbatim>\<open>stop_vm_vps\<close> answered; the result is the state with the directory removed by \<open>rmtree\<close>.\<close>

definition delete_vm_instance ::
  "('k, 'n, 's) vm_env \<Rightarrow> (string \<Rightarrow> 'k \<Rightarrow> 'k) \<Rightarrow> bool \<Rightarrow> int \<Rightarrow> bool \<Rightarrow> (('k, 'n, 's) vm_service, unit) st" where
  "delete_vm_instance E rmtree isdir i force = (\<lambda>s.
     let N = ve_node E; dir = vm_instance_dir (ve_instances E) i;
         pid = Option.bind (os_text N (vm_pidfile_path dir) (qm_os (vs_qemu s))) (int_of_str 10);
         running = (case pid of None \<Rightarrow> False | Some p \<Rightarrow> os_alive N p (qm_os (vs_qemu s)))
     in if \<not> isdir then (Inl (HTTPException 404 ''VM instance directory not found.''), s)
        else if running \<and> \<not> force then (Inl (HTTPException 409 ''QEMU is still running.''), s)
        else
          let s1 = (if running then snd (stop_vm_vps E i s) else s);
              k = os_unlink N (vm_qmp_socket_path i) (rmtree dir (qm_os (vs_qemu s1)));
              r = vs_runner s1
          in (Inr (), s1\<lparr>vs_qemu := (vs_qemu s1)\<lparr>qm_os := k\<rparr>,
                vs_runner := r\<lparr>r_store := snd (remove_task (ve_vault E) i (r_store r))\<rparr>\<rparr>))"

end
