(* ===== verification/Vfio_Properties.thy ===== *)
theory Vfio_Properties
  imports Vfio
begin

text \<open>
  What moving a device between drivers leaves alone, and what it achieves: a bound group is wholly on
  \<^verbatim>\<open>vfio-pci\<close>, a released one is not, and no operation on one group changes the driver of a device outside
  it.
\<close>

section \<open>The kernel's laws\<close>

text \<open>\<open>touches P A k k'\<close>: from \<open>k\<close> to \<open>k'\<close> the groups are as before, and so is the driver of every device
  outside \<open>A\<close>.\<close>

definition touches :: "('k, 'z) pci_scheme \<Rightarrow> string set \<Rightarrow> 'k \<Rightarrow> 'k \<Rightarrow> bool" where
  "touches P A k k' \<longleftrightarrow>
     (\<forall>a. pc_link P (pci_path a ''iommu_group'') k' = pc_link P (pci_path a ''iommu_group'') k) \<and>
     (\<forall>a. get_pci_device_class P a k' = get_pci_device_class P a k) \<and>
     (\<forall>g. pc_dir P (group_path g) k' = pc_dir P (group_path g) k) \<and>
     (\<forall>a. a \<notin> A \<longrightarrow> get_current_driver P a k' = get_current_driver P a k)"

text \<open>A write only concerns the driver of the device it names; the choice of a driver for later probes
  concerns none yet.  The devices listed in a group are in that group.\<close>

locale pci_bus =
  fixes P :: "('k, 'z) pci_scheme"
  assumes write_touches: "touches P {v} k (snd (pc_write P p v k))"
    and override_touches: "touches P {} k (snd (pc_write P (pci_path a ''driver_override'') v k))"
    and systemctl_touches: "touches P {} k (snd (pc_systemctl P args k))"
    and member_group: "get_iommu_group P a k = Some g \<Longrightarrow> d \<in> set (get_iommu_group_devices P g k) \<Longrightarrow> get_iommu_group P d k = Some g"

text \<open>What completed writes do.  An unbind write that returns has taken the driver away; once the choice of
  \<^verbatim>\<open>vfio-pci\<close> was taken back, a probe goes by the ids of the device, and \<^verbatim>\<open>vfio-pci\<close> has none of its own;
  the bind file of another driver binds to that driver only.  Nothing is said of a write that is refused or
  hangs.\<close>

locale pci_releases = pci_bus +
  assumes unbinds: "pc_write P (pci_path a ''driver/unbind'') a k = (Written, k') \<Longrightarrow> get_current_driver P a k' = None"
    and probes: "\<not> is_bound_to_vfio P a k \<Longrightarrow> pc_write P (pci_path a ''driver_override'') [CHR 0x0A] k = (Written, k') \<Longrightarrow>
      \<not> is_bound_to_vfio P a (snd (pc_write P ''/sys/bus/pci/drivers_probe'' a k'))"
    and native: "\<not> is_bound_to_vfio P a k \<Longrightarrow> \<not> is_bound_to_vfio P a (snd (pc_write P ''/sys/bus/pci/drivers/nvidia/bind'' a k))"

definition pci_bus_ok :: "('k, 'z) pci_scheme \<Rightarrow> bool" where
  "pci_bus_ok P \<longleftrightarrow> pci_bus P"

definition pci_releases_ok :: "('k, 'z) pci_scheme \<Rightarrow> bool" where
  "pci_releases_ok P \<longleftrightarrow> pci_releases P"

text \<open>A device lets go if the unbind write, made while it is on \<^verbatim>\<open>vfio-pci\<close>, is done in time or hangs after
  the driver is gone, and the choice of its driver can be taken back.  Other devices are not asked for
  that.\<close>

definition lets_go :: "('k, 'z) pci_scheme \<Rightarrow> string \<Rightarrow> bool" where
  "lets_go P a \<longleftrightarrow>
     (\<forall>k. is_bound_to_vfio P a k \<longrightarrow>
        (case pc_write P (pci_path a ''driver/unbind'') a k of
           (Refused, k') \<Rightarrow> False | (Written, k') \<Rightarrow> True | (Hung, k') \<Rightarrow> \<not> is_bound_to_vfio P a k')) \<and>
     (\<forall>k. fst (pc_write P (pci_path a ''driver_override'') [CHR 0x0A] k) = Written)"

section \<open>Frames\<close>

named_theorems frames \<open>what an operation touches\<close>

lemma touches_refl [simp]: "touches P A k k"
  by (simp add: touches_def)

lemma touches_trans: "touches P A k k1 \<Longrightarrow> touches P B k1 k2 \<Longrightarrow> touches P (A \<union> B) k k2"
  unfolding touches_def by simp

lemma touches_step: "touches P A k k1 \<Longrightarrow> touches P A k1 k2 \<Longrightarrow> touches P A k k2"
  using touches_trans [of P A k k1 A k2] by simp

lemma touches_mono: "touches P A k k' \<Longrightarrow> A \<subseteq> B \<Longrightarrow> touches P B k k'"
  unfolding touches_def by blast

lemma touches_none: "touches P {} k k' \<Longrightarrow> touches P A k k'"
  by (rule touches_mono) auto

lemma touches_driver: "touches P A k k' \<Longrightarrow> a \<notin> A \<Longrightarrow> get_current_driver P a k' = get_current_driver P a k"
  by (simp add: touches_def)

lemma touches_bound: "touches P A k k' \<Longrightarrow> a \<notin> A \<Longrightarrow> is_bound_to_vfio P a k' = is_bound_to_vfio P a k"
  by (simp add: is_bound_to_vfio_def touches_driver)

lemma touches_group: "touches P A k k' \<Longrightarrow> get_iommu_group P a k' = get_iommu_group P a k"
  by (simp add: touches_def get_iommu_group_def)

lemma touches_members:
  assumes "touches P A k k'"
  shows "get_iommu_group_non_bridge_devices P a k' = get_iommu_group_non_bridge_devices P a k"
proof -
  have "is_pci_bridge P d k' = is_pci_bridge P d k" for d using assms by (simp add: is_pci_bridge_def touches_def)
  moreover have "get_iommu_group_devices P g k' = get_iommu_group_devices P g k" for g
    using assms by (simp add: get_iommu_group_devices_def touches_def)
  ultimately show ?thesis using touches_group [OF assms] by (simp add: get_iommu_group_non_bridge_devices_def cong: option.case_cong)
qed

text \<open>An operation, as a state transformer, that touches no more than \<open>A\<close>.\<close>

definition framed :: "('k, 'z) pci_scheme \<Rightarrow> string set \<Rightarrow> ('k, 'a) st \<Rightarrow> bool" where
  "framed P A m \<longleftrightarrow> (\<forall>k. touches P A k (snd (m k)))"

lemma framed_touches: "framed P A m \<Longrightarrow> touches P A k (snd (m k))"
  by (simp add: framed_def)

lemma framed_bind [intro]:
  assumes "framed P A m" "\<And>x. framed P A (f x)"
  shows "framed P A (bind_st m f)"
  unfolding framed_def
proof
  fix k
  have m: "touches P A k (snd (m k))" using assms(1) by (rule framed_touches)
  show "touches P A k (snd (bind_st m f k))"
  proof (cases "m k")
    case (Pair r k1)
    then show ?thesis using m touches_step [OF m framed_touches [OF assms(2)]]
      by (cases r) (auto simp: bind_st_def)
  qed
qed

lemma framed_pure [simp, intro]: "(\<And>k. snd (m k) = k) \<Longrightarrow> framed P A m"
  by (simp add: framed_def)

lemma framed_return [simp, intro]: "framed P A (return_st x)"
  by (simp add: framed_def return_st_def)

lemma framed_swallow [intro]: "framed P A m \<Longrightarrow> framed P A (swallow m)"
  by (simp add: framed_def swallow_def)

lemma framed_if [intro]: "framed P A m \<Longrightarrow> framed P A n \<Longrightarrow> framed P A (if b then m else n)"
  by simp

context pci_bus
begin

lemma framed_write: "framed P {a} (write_sysfs_timeout P p a)"
  unfolding framed_def
proof
  fix k
  show "touches P {a} k (snd (write_sysfs_timeout P p a k))"
    using write_touches [of a k p] by (auto simp: write_sysfs_timeout_def split: prod.splits sysfs_write.splits)
qed

lemma framed_override: "framed P A (write_sysfs_timeout P (pci_path d ''driver_override'') v)"
  unfolding framed_def
proof
  fix k
  show "touches P A k (snd (write_sysfs_timeout P (pci_path d ''driver_override'') v k))"
    using override_touches [of k d v]
    by (auto simp: write_sysfs_timeout_def split: prod.splits sysfs_write.splits intro: touches_none)
qed

lemma stop_touches: "touches P A k (stop_nvidia_persistenced P k)"
proof -
  have 1: "touches P A k (snd (pc_systemctl P args k))" for args k by (rule touches_none [OF systemctl_touches])
  obtain b k1 where "pc_systemctl P [''is-active'', ''--quiet'', ''nvidia-persistenced''] k = (b, k1)" by force
  with 1 [of k "[''is-active'', ''--quiet'', ''nvidia-persistenced'']"] show ?thesis
    by (auto simp: stop_nvidia_persistenced_def intro: touches_step 1 split: bool.splits)
qed

lemma start_touches: "touches P A k (start_nvidia_persistenced P k)"
  unfolding start_nvidia_persistenced_def by (rule touches_none [OF systemctl_touches])

lemma framed_unbind_driver: "framed P {a} (unbind_driver P a held)"
  unfolding unbind_driver_def
  by (intro framed_bind framed_write framed_pure) (auto split: option.splits)

lemma framed_after: "framed P A m \<Longrightarrow> (\<And>k. touches P A k (f k)) \<Longrightarrow> framed P A (\<lambda>k. m (f k))"
  unfolding framed_def by (meson touches_step)

lemma framed_bind_to_vfio: "framed P {a} (bind_to_vfio P a)"
  unfolding framed_def
proof
  fix k
  define after where "after d = (\<lambda>k. unbind_driver P a (\<lambda>_. True) (if d = ''nvidia'' then stop_nvidia_persistenced P k else k))" for d
  have 1: "framed P {a} (after d)" for d
    unfolding after_def by (rule framed_after [OF framed_unbind_driver]) (simp add: stop_touches)
  have 2: "framed P {a} (\<lambda>k. if is_bound_to_vfio P a k then (Inr True, k)
      else write_sysfs_timeout P ''/sys/bus/pci/drivers/vfio-pci/bind'' a k)"
    using framed_touches [OF framed_write] by (simp add: framed_def)
  have 3: "framed P {a} (bind_st (get_device_ids P a) (\<lambda>_.
       bind_st (case d of None \<Rightarrow> return_st () | Some d \<Rightarrow> after d) (\<lambda>_.
       bind_st (write_sysfs_timeout P (pci_path a ''driver_override'') ''vfio-pci'') (\<lambda>_.
       bind_st (write_sysfs_timeout P ''/sys/bus/pci/drivers_probe'' a) (\<lambda>_.
       bind_st (\<lambda>k. if is_bound_to_vfio P a k then (Inr True, k)
                    else write_sysfs_timeout P ''/sys/bus/pci/drivers/vfio-pci/bind'' a k) (\<lambda>_ k.
       if is_bound_to_vfio P a k then (Inr (), k)
       else (Inl (vfio_error a ''Expected vfio-pci''), k)))))))" for d
    by (intro framed_bind framed_write framed_override 2)
      (auto simp: get_device_ids_def 1 intro!: framed_pure split: option.splits)
  show "touches P {a} k (snd (bind_to_vfio P a k))"
    using framed_touches [OF 3, of k] unfolding bind_to_vfio_def after_def by simp
qed

lemma bind_to_vfio_keeps: "is_bound_to_vfio P b k \<Longrightarrow> is_bound_to_vfio P b (snd (bind_to_vfio P a k))"
proof (cases "b = a")
  case True
  then show "is_bound_to_vfio P b k \<Longrightarrow> ?thesis" by (simp add: bind_to_vfio_def)
next
  case False
  then show "is_bound_to_vfio P b k \<Longrightarrow> ?thesis"
    using touches_bound [OF framed_touches [OF framed_bind_to_vfio [of a]], of b k] by simp
qed

lemma bind_to_vfio_binds:
  assumes "bind_to_vfio P a k = (Inr u, k')"
  shows "is_bound_to_vfio P a k'"
  using assms unfolding bind_to_vfio_def
  by (auto simp: bind_st_def split: prod.splits sum.splits if_splits)

lemma framed_unbind_from_vfio: "framed P {a} (unbind_from_vfio P a)"
  unfolding framed_def
proof
  fix k
  have 1: "framed P {a} (\<lambda>k. unbind_driver P a (\<lambda>d. d = ''vfio-pci'') (if b then stop_nvidia_persistenced P k else k))" for b
    by (rule framed_after [OF framed_unbind_driver]) (simp add: stop_touches)
  have 2: "framed P {a} (swallow (write_sysfs_timeout P p a))" for p by (intro framed_swallow framed_write)
  have 3: "framed P {a} (\<lambda>k. if b \<and> get_current_driver P a k \<noteq> Some ''nvidia''
          then swallow (write_sysfs_timeout P ''/sys/bus/pci/drivers/nvidia/bind'' a) k else (Inr (), k))" for b
    using framed_touches [OF 2] by (simp add: framed_def)
  have 4: "framed P {a} (bind_st (\<lambda>k. unbind_driver P a (\<lambda>d. d = ''vfio-pci'') (if b then stop_nvidia_persistenced P k else k)) (\<lambda>_.
          bind_st (swallow (write_sysfs_timeout P (pci_path a ''driver_override'') [CHR 0x0A])) (\<lambda>_.
          bind_st (write_sysfs_timeout P ''/sys/bus/pci/drivers_probe'' a) (\<lambda>_ k.
          if b \<and> get_current_driver P a k \<noteq> Some ''nvidia''
          then swallow (write_sysfs_timeout P ''/sys/bus/pci/drivers/nvidia/bind'' a) k
          else (Inr (), k)))))" for b
    by (intro framed_bind framed_swallow framed_write framed_override 1 3)
  show "touches P {a} k (snd (unbind_from_vfio P a k))"
    using framed_touches [OF 4] by (simp add: unbind_from_vfio_def Let_def)
qed

section \<open>Groups of devices\<close>

lemma bind_devices_result:
  "bind_devices P bound ds k = (r, bound', k') \<Longrightarrow>
   touches P (set ds) k k' \<and> (\<forall>b. is_bound_to_vfio P b k \<longrightarrow> is_bound_to_vfio P b k') \<and>
   (\<forall>u. r = Inr u \<longrightarrow> bound' = bound @ ds \<and> (\<forall>d \<in> set ds. is_bound_to_vfio P d k'))"
proof (induction ds arbitrary: bound k)
  case (Cons d ds)
  obtain r1 k1 where 1: "bind_to_vfio P d k = (r1, k1)" by force
  have t: "touches P {d} k k1" using framed_touches [OF framed_bind_to_vfio, of d k] 1 by simp
  have kept: "is_bound_to_vfio P b k \<longrightarrow> is_bound_to_vfio P b k1" for b using bind_to_vfio_keeps [of b k d] 1 by simp
  show ?case
  proof (cases r1)
    case (Inl e)
    then show ?thesis using Cons.prems 1 kept touches_mono [OF t] by auto
  next
    case (Inr u)
    then have b: "bind_devices P (bound @ [d]) ds k1 = (r, bound', k')" using Cons.prems 1 by simp
    have "is_bound_to_vfio P d k1" using bind_to_vfio_binds 1 Inr by blast
    then show ?thesis using Cons.IH [OF b] kept touches_trans [OF t, of "set ds" k'] by auto
  qed
qed auto

lemma bind_iommu_group_result:
  assumes "bind_iommu_group P a k = (r, k')"
  shows "touches P (set (get_iommu_group_non_bridge_devices P a k)) k k'"
    "is_bound_to_vfio P b k \<Longrightarrow> is_bound_to_vfio P b k'"
    "r = Inr bound \<Longrightarrow> bound = get_iommu_group_non_bridge_devices P a k \<and> (\<forall>d \<in> set bound. is_bound_to_vfio P d k')"
proof -
  let ?ds = "get_iommu_group_non_bridge_devices P a k"
  obtain r1 bound1 k1 where 1: "bind_devices P [] ?ds k = (r1, bound1, k1)" by (metis prod_cases3)
  have k': "k' = (if bound1 \<noteq> [] then start_nvidia_persistenced P k1 else k1)"
      and r: "r = (case r1 of Inl e \<Rightarrow> Inl e | Inr _ \<Rightarrow> Inr bound1)"
    using assms 1 by (auto simp: bind_iommu_group_def)
  have t: "touches P {} k1 k'" using start_touches by (simp add: k')
  note b = bind_devices_result [OF 1]
  show "touches P (set ?ds) k k'" using touches_trans [OF conjunct1 [OF b] t] by simp
  show "is_bound_to_vfio P b k \<Longrightarrow> is_bound_to_vfio P b k'" using b touches_bound [OF t] by simp
  show "r = Inr bound \<Longrightarrow> bound = ?ds \<and> (\<forall>d \<in> set bound. is_bound_to_vfio P d k')"
    using b r touches_bound [OF t] by (auto split: sum.splits)
qed

lemma unbind_devices_touches:
  "unbind_devices P unbound ds k = (unbound', k') \<Longrightarrow> touches P (set ds) k k'"
proof (induction ds arbitrary: unbound k)
  case (Cons d ds)
  obtain r1 k1 where 1: "unbind_from_vfio P d k = (r1, k1)" by force
  have t: "touches P {d} k k1" using framed_touches [OF framed_unbind_from_vfio, of d k] 1 by simp
  have "\<exists>u. unbind_devices P u ds k1 = (unbound', k')" using Cons.prems 1 by (auto split: sum.splits)
  then show ?case using Cons.IH touches_trans [OF t, of "set ds" k'] by auto
qed simp

lemma unbind_devices_sub: "unbind_devices P unbound ds k = (unbound', k') \<Longrightarrow> set unbound' \<subseteq> set unbound \<union> set ds"
proof (induction ds arbitrary: unbound k)
  case (Cons d ds)
  then show ?case by (auto split: prod.splits sum.splits) fastforce+
qed simp

lemma unbind_iommu_group_touches:
  assumes "unbind_iommu_group P a k = (unbound, k')"
  shows "touches P (set (get_iommu_group_non_bridge_devices P a k)) k k'"
proof -
  obtain u1 k1 where 1: "unbind_devices P [] (get_iommu_group_non_bridge_devices P a k) k = (u1, k1)" by force
  have "touches P {} k1 k'" using assms 1 start_touches by (auto simp: unbind_iommu_group_def)
  with unbind_devices_touches [OF 1] show ?thesis using touches_trans by fastforce
qed

end

context pci_bus
begin

text \<open>No law is needed for this: a device that is not on \<^verbatim>\<open>vfio-pci\<close> is left as it is.\<close>

lemma unbind_from_vfio_stays: "\<not> is_bound_to_vfio P b k \<Longrightarrow> \<not> is_bound_to_vfio P b (snd (unbind_from_vfio P a k))"
  using touches_bound [OF framed_touches [OF framed_unbind_from_vfio [of a]], of b k]
  by (cases "a = b") (simp_all add: unbind_from_vfio_def)

lemma unbind_devices_stays:
  "unbind_devices P unbound ds k = (unbound', k') \<Longrightarrow> \<not> is_bound_to_vfio P b k \<Longrightarrow> \<not> is_bound_to_vfio P b k'"
proof (induction ds arbitrary: unbound k)
  case (Cons d ds)
  obtain r1 k1 where 1: "unbind_from_vfio P d k = (r1, k1)" by force
  have "\<exists>u. unbind_devices P u ds k1 = (unbound', k')" using Cons.prems(1) 1 by (auto split: sum.splits)
  then show ?case using Cons.IH unbind_from_vfio_stays [OF Cons.prems(2), of d] 1 by fastforce
qed simp

end

context pci_releases
begin

lemma unbind_from_vfio_frees:
  assumes "lets_go P a"
  shows "\<not> is_bound_to_vfio P a (snd (unbind_from_vfio P a k))"
proof (cases "is_bound_to_vfio P a k")
  case False
  then show ?thesis by (simp add: unbind_from_vfio_def)
next
  case True
  let ?nv = "is_nvidia_device P a k"
  define k0 where "k0 = (if ?nv then stop_nvidia_persistenced P k else k)"
  have b0: "is_bound_to_vfio P a k0" using True touches_bound [OF stop_touches [of "{}" k], of a] by (simp add: k0_def)
  obtain w k1 where 1: "pc_write P (pci_path a ''driver/unbind'') a k0 = (w, k1)" by force
  have l: "case w of Refused \<Rightarrow> False | Written \<Rightarrow> True | Hung \<Rightarrow> \<not> is_bound_to_vfio P a k1"
    using assms b0 1 unfolding lets_go_def by (metis (no_types, lifting) prod.case)
  have w: "w \<noteq> Refused" "\<not> is_bound_to_vfio P a k1"
    using l 1 unbinds [of a k0 k1] by (cases w; simp add: is_bound_to_vfio_def)+
  then have u: "unbind_driver P a (\<lambda>d. d = ''vfio-pci'') k0 = (Inr (), k1)"
    using 1 by (cases w) (auto simp: unbind_driver_def bind_st_def write_sysfs_timeout_def is_bound_to_vfio_def split: option.split)
  obtain k2 where 2: "pc_write P (pci_path a ''driver_override'') [CHR 0x0A] k1 = (Written, k2)"
    using assms by (metis lets_go_def prod.collapse)
  obtain w3 k3 where 3: "pc_write P ''/sys/bus/pci/drivers_probe'' a k2 = (w3, k3)" by force
  have p: "\<not> is_bound_to_vfio P a k3" using probes [OF w(2) 2] 3 by simp
  have sw: "snd (swallow (write_sysfs_timeout P q v) k') = snd (pc_write P q v k')" for q v k'
    by (auto simp: swallow_def write_sysfs_timeout_def split: prod.splits sysfs_write.splits)
  have s2: "swallow (write_sysfs_timeout P (pci_path a ''driver_override'') [CHR 0x0A]) k1 = (Inr (), k2)"
    using sw [of _ _ k1] 2 by (simp add: swallow_def)
  have "snd (unbind_from_vfio P a k) \<in> {k3, snd (pc_write P ''/sys/bus/pci/drivers/nvidia/bind'' a k3)}"
    using True 3
    by (cases w3) (simp_all add: unbind_from_vfio_def Let_def bind_st_def k0_def [symmetric] u s2
        write_sysfs_timeout_def [of P "''/sys/bus/pci/drivers_probe''"] sw)
  then show ?thesis using p native [OF p] by auto
qed

lemma unbind_devices_frees:
  "unbind_devices P unbound ds k = (unbound', k') \<Longrightarrow> d \<in> set ds \<Longrightarrow> lets_go P d \<Longrightarrow> \<not> is_bound_to_vfio P d k'"
proof (induction ds arbitrary: unbound k)
  case (Cons x ds)
  obtain r1 k1 where 1: "unbind_from_vfio P x k = (r1, k1)" by force
  obtain u where u: "unbind_devices P u ds k1 = (unbound', k')" using Cons.prems(1) 1 by (auto split: sum.splits)
  show ?case
  proof (cases "d = x")
    case True
    then have "\<not> is_bound_to_vfio P d k1" using unbind_from_vfio_frees [OF Cons.prems(3), of k] 1 by simp
    then show ?thesis by (rule unbind_devices_stays [OF u])
  next
    case False
    then show ?thesis using Cons.IH [OF u] Cons.prems(2,3) by simp
  qed
qed simp

lemma unbind_iommu_group_frees:
  assumes "unbind_iommu_group P a k = (unbound, k')"
  shows "d \<in> set (get_iommu_group_non_bridge_devices P a k) \<Longrightarrow> lets_go P d \<Longrightarrow> \<not> is_bound_to_vfio P d k'"
    "\<not> is_bound_to_vfio P b k \<Longrightarrow> \<not> is_bound_to_vfio P b k'"
proof -
  obtain u1 k1 where 1: "unbind_devices P [] (get_iommu_group_non_bridge_devices P a k) k = (u1, k1)" by force
  have t: "touches P {} k1 k'" using assms 1 start_touches by (auto simp: unbind_iommu_group_def)
  show "d \<in> set (get_iommu_group_non_bridge_devices P a k) \<Longrightarrow> lets_go P d \<Longrightarrow> \<not> is_bound_to_vfio P d k'"
    using unbind_devices_frees [OF 1] touches_bound [OF t] by simp
  show "\<not> is_bound_to_vfio P b k \<Longrightarrow> \<not> is_bound_to_vfio P b k'" using unbind_devices_stays [OF 1] touches_bound [OF t] by simp
qed

end

end
