(* ===== verification/Qemu_Properties.thy ===== *)
theory Qemu_Properties
  imports Vm_Vps Vfio_Properties
begin

text \<open>
  What the VMs of a runner promise about graphics cards: the devices of a tracked VM stay with it, a stop
  gives them back; and where the promise ends: cards that share a group, and starts of QEMU that fail.
\<close>

section \<open>The laws of a node\<close>

text \<open>Programs, processes and files do not move devices between drivers.\<close>

locale vm_node = pci_bus N for N :: "('k, 'z) machine_scheme" +
  assumes makedirs_touches: "touches N {} k (os_makedirs N p k)"
    and run_touches: "touches N {} k (snd (os_run N cmd k))"
    and kill_touches: "touches N {} k (os_kill N pid k)"
    and sleep_touches: "touches N {} k (os_sleep N k)"
    and qmp_touches: "touches N {} k (snd (os_qmp N p c k))"
    and unlink_touches: "touches N {} k (os_unlink N p k)"
    and save_touches: "touches N {} k (os_save_cmd N p cmd k)"
    and iso_touches: "touches N {} k (snd (os_make_iso N p ci k))"

locale vm_node_releases = vm_node N + pci_releases N for N :: "('k, 'z) machine_scheme"

definition vm_node_ok :: "('k, 'z) machine_scheme \<Rightarrow> bool" where
  "vm_node_ok N \<longleftrightarrow> vm_node N"

definition vm_node_releases_ok :: "('k, 'z) machine_scheme \<Rightarrow> bool" where
  "vm_node_releases_ok N \<longleftrightarrow> vm_node_releases N"

text \<open>The devices that go to a VM with these cards: the cards, and what shares a group with them.\<close>

definition passthrough :: "('k, 'z) pci_scheme \<Rightarrow> string list \<Rightarrow> 'k \<Rightarrow> string set" where
  "passthrough P gpus k = (\<Union>a \<in> set gpus. set (get_iommu_group_non_bridge_devices P a k))"

lemma passthrough_touches: "touches P A k k' \<Longrightarrow> passthrough P gpus k' = passthrough P gpus k"
  by (simp add: passthrough_def touches_members)

lemma passthrough_Nil [simp]: "passthrough P [] k = {}"
  by (simp add: passthrough_def)

context pci_bus
begin

lemma group_same:
  assumes "d \<in> set (get_iommu_group_non_bridge_devices P a k)"
  shows "get_iommu_group_non_bridge_devices P d k = get_iommu_group_non_bridge_devices P a k"
proof (cases "get_iommu_group P a k")
  case None
  then show ?thesis using assms by (simp add: get_iommu_group_non_bridge_devices_def)
next
  case (Some g)
  then have "get_iommu_group P d k = Some g"
    using assms member_group [OF Some] by (simp add: get_iommu_group_non_bridge_devices_def)
  then show ?thesis using Some by (simp add: get_iommu_group_non_bridge_devices_def)
qed

end

section \<open>Cards of one VM\<close>

context vm_node
begin

lemma bind_gpus_result:
  "bind_gpus N bound gpus k = (r, k') \<Longrightarrow>
   touches N (passthrough N gpus k) k k' \<and> (\<forall>b. is_bound_to_vfio N b k \<longrightarrow> is_bound_to_vfio N b k') \<and>
   (\<forall>u. r = Inr u \<longrightarrow> (\<forall>d \<in> set bound. \<forall>x \<in> set (get_iommu_group_non_bridge_devices N d k). is_bound_to_vfio N x k) \<longrightarrow>
      (\<forall>d \<in> passthrough N gpus k. is_bound_to_vfio N d k'))"
proof (induction gpus arbitrary: bound k)
  case (Cons a gpus)
  let ?ds = "get_iommu_group_non_bridge_devices N a"
  have pass: "passthrough N (a # gpus) k = set (?ds k) \<union> passthrough N gpus k" by (simp add: passthrough_def)
  show ?case
  proof (cases "a \<in> set bound")
    case True
    then have b: "bind_gpus N bound gpus k = (r, k')" using Cons.prems by simp
    have "touches N (passthrough N (a # gpus) k) k k'" using Cons.IH [OF b] unfolding pass by (auto intro: touches_mono)
    moreover have "\<forall>d \<in> passthrough N (a # gpus) k. is_bound_to_vfio N d k'"
      if "r = Inr u" "\<forall>d \<in> set bound. \<forall>x \<in> set (get_iommu_group_non_bridge_devices N d k). is_bound_to_vfio N x k" for u
      using Cons.IH [OF b] that True unfolding pass by blast
    ultimately show ?thesis using Cons.IH [OF b] by blast
  next
    case False
    obtain r1 k1 where 1: "bind_iommu_group N a k = (r1, k1)" by force
    note t = bind_iommu_group_result(1) [OF 1] and keeps = bind_iommu_group_result(2) [OF 1]
    show ?thesis
    proof (cases r1)
      case (Inl e)
      then have "r = Inl e" "k' = k1" using Cons.prems False 1 by (simp_all add: bind_st_def)
      then show ?thesis using t keeps unfolding pass by (auto intro: touches_mono)
    next
      case (Inr ds)
      then have b: "bind_gpus N (bound @ ds) gpus k1 = (r, k')" using Cons.prems False 1 by (simp add: bind_st_def)
      have ds: "ds = ?ds k" "\<forall>d \<in> set (?ds k). is_bound_to_vfio N d k1" using bind_iommu_group_result(3) [OF 1 Inr] by auto
      have p1: "passthrough N gpus k1 = passthrough N gpus k" using t by (rule passthrough_touches)
      note ih = Cons.IH [OF b, unfolded p1]
      have g1: "get_iommu_group_non_bridge_devices N d k1 = get_iommu_group_non_bridge_devices N d k" for d
        using t by (rule touches_members)
      have 2: "\<forall>d \<in> passthrough N (a # gpus) k. is_bound_to_vfio N d k'"
        if "r = Inr u" and *: "\<forall>d \<in> set bound. \<forall>x \<in> set (get_iommu_group_non_bridge_devices N d k). is_bound_to_vfio N x k" for u
      proof -
        have "\<forall>d \<in> set (bound @ ds). \<forall>x \<in> set (get_iommu_group_non_bridge_devices N d k1). is_bound_to_vfio N x k1"
          using * ds keeps group_same [of _ a k] by (auto simp: g1)
        then show ?thesis using ih that(1) ds unfolding pass by blast
      qed
      moreover have "touches N (passthrough N (a # gpus) k) k k'" using touches_trans [OF t] ih unfolding pass by blast
      ultimately show ?thesis using ih keeps by blast
    qed
  qed
qed (simp add: return_st_def)

lemma bind_gpus_binds:
  assumes "bind_gpus N [] gpus k = (Inr u, k')" "d \<in> passthrough N gpus k"
  shows "is_bound_to_vfio N d k'"
  using bind_gpus_result [OF assms(1)] assms(2) by simp

lemma unbind_gpus_touches: "touches N (passthrough N gpus k) k (unbind_gpus N unbound gpus k)"
proof (induction gpus arbitrary: unbound k)
  case (Cons a gpus)
  let ?ds = "set (get_iommu_group_non_bridge_devices N a k)"
  have pass: "passthrough N (a # gpus) k = ?ds \<union> passthrough N gpus k" by (simp add: passthrough_def)
  obtain ds k1 where 1: "unbind_iommu_group N a k = (ds, k1)" by force
  note t = unbind_iommu_group_touches [OF 1]
  have "touches N (?ds \<union> passthrough N gpus k) k (unbind_gpus N u gpus k1)" for u
    using touches_trans [OF t Cons.IH] passthrough_touches [OF t] by simp
  then show ?case unfolding pass using 1 touches_mono [OF Cons.IH] by auto
qed simp

lemma wait_touches: "touches N A k (wait_exit N pid n k)"
proof (induction n arbitrary: k)
  case (Suc n)
  show ?case using touches_step [OF touches_none [OF sleep_touches] Suc.IH] by simp
qed simp

lemma shut_down_touches: "touches N A k (shut_down N vm n k)"
  unfolding shut_down_def Let_def
  by (auto intro!: touches_none [OF sleep_touches] touches_none [OF kill_touches] touches_none [OF qmp_touches] wait_touches
      intro: touches_step)

lemma start_qemu_touches: "start_qemu N cmd d k = (r, k') \<Longrightarrow> touches N A k k'"
  using touches_none [OF run_touches, of A k cmd]
  by (auto simp: start_qemu_def split: prod.splits option.splits if_splits)

end

context vm_node_releases
begin

lemma unbind_gpus_frees:
  "(\<forall>d \<in> set unbound. \<forall>x \<in> set (get_iommu_group_non_bridge_devices N d k). lets_go N x \<longrightarrow> \<not> is_bound_to_vfio N x k) \<Longrightarrow>
   (\<forall>d \<in> passthrough N gpus k. lets_go N d \<longrightarrow> \<not> is_bound_to_vfio N d (unbind_gpus N unbound gpus k)) \<and>
   (\<forall>b. \<not> is_bound_to_vfio N b k \<longrightarrow> \<not> is_bound_to_vfio N b (unbind_gpus N unbound gpus k))"
proof (induction gpus arbitrary: unbound k)
  case (Cons a gpus)
  let ?ds = "get_iommu_group_non_bridge_devices N a k"
  have pass: "passthrough N (a # gpus) k = set ?ds \<union> passthrough N gpus k" by (simp add: passthrough_def)
  show ?case
  proof (cases "a \<in> set unbound")
    case True
    then show ?thesis using Cons.IH [OF Cons.prems] Cons.prems unfolding pass by auto
  next
    case False
    obtain ds k1 where 1: "unbind_iommu_group N a k = (ds, k1)" by force
    note t = unbind_iommu_group_touches [OF 1] and f = unbind_iommu_group_frees [OF 1]
    have sub: "set ds \<subseteq> set ?ds" using 1 unbind_devices_sub by (fastforce simp: unbind_iommu_group_def split: prod.splits)
    have "\<forall>d \<in> set (unbound @ ds). \<forall>x \<in> set (get_iommu_group_non_bridge_devices N d k1). lets_go N x \<longrightarrow> \<not> is_bound_to_vfio N x k1"
      using Cons.prems f sub group_same [of _ a k] by (auto simp: touches_members [OF t])
    from Cons.IH [OF this] show ?thesis using False 1 f unfolding pass by (auto simp: passthrough_touches [OF t])
  qed
qed simp

end

section \<open>Operations on the books\<close>

text \<open>\<open>grows\<close>: only devices in \<open>A\<close> are moved, and none is taken from \<^verbatim>\<open>vfio-pci\<close>.\<close>

definition grows :: "('k, 'z) pci_scheme \<Rightarrow> string set \<Rightarrow> 'k \<Rightarrow> 'k \<Rightarrow> bool" where
  "grows P A k k' \<longleftrightarrow> touches P A k k' \<and> (\<forall>b. is_bound_to_vfio P b k \<longrightarrow> is_bound_to_vfio P b k')"

lemma grows_trans: "grows P A k k1 \<Longrightarrow> grows P A k1 k2 \<Longrightarrow> grows P A k k2"
  unfolding grows_def by (blast intro: touches_step)

lemma grows_none: "touches P {} k k' \<Longrightarrow> grows P A k k'"
  by (simp add: grows_def touches_none touches_bound)

lemma grows_refl [simp]: "grows P A k k"
  by (simp add: grows_def)

lemma qemu_record: "s\<lparr>qm_vms := a, qm_os := k\<rparr> = \<lparr>qm_vms = a, qm_os = k\<rparr>"
  by (cases s) simp

lemma qemu_updates:
  "qm_os (s\<lparr>qm_os := k\<rparr>) = k" "s\<lparr>qm_os := k, qm_os := k'\<rparr> = s\<lparr>qm_os := k'\<rparr>" "s\<lparr>qm_os := qm_os s\<rparr> = s"
  "qm_vms (s\<lparr>qm_os := k\<rparr>) = qm_vms s"
  by simp_all

lemma launch_forward:
  assumes "os_exists N (path_join images (vo_image o' @ ''.qcow2'')) (qm_os s)"
    and "create_overlay_disk N (path_join images (vo_image o' @ ''.qcow2'')) (vm_root_disk_path d) (vo_disk_size o') (qm_os s) = (Inr u1, k1)"
    and "bind_gpus N [] (vo_gpus o') k1 = (Inr u2, k2)"
    and "os_make_iso N (vm_cloud_init_path d) (cloud_init_of o' (if vo_gpus o' \<noteq> [] then os_driver_version N k1 else None)) k2 = (Inr u3, k3)"
    and "start_qemu N (build_qemu_command N o' d k3) d k3 = (Inr x, k4)"
  shows "launch_vm N images now o' d s =
    (case x of
       Inl m \<Rightarrow> (Inl (vm_creation_error (vo_task_id o') m), s\<lparr>qm_os := k4\<rparr>)
     | Inr pid \<Rightarrow>
         (let vm = new_instance o' d (build_qemu_command N o' d k3) pid now
          in (Inr vm, s\<lparr>qm_os := os_save_cmd N d (build_qemu_command N o' d k3) k4, qm_vms := AList.update (vo_task_id o') vm (qm_vms s)\<rparr>)))"
  unfolding launch_vm_def Let_def bind_st_def on_os_def
  by (simp only: assms qemu_updates prod.case sum.case if_True cong: sum.case_cong)

context vm_node
begin

lemma disk_grows: "create_overlay_disk N base out sz k = (r, k') \<Longrightarrow> touches N {} k k'"
proof -
  have run: "os_run N cmd k = (x, k1) \<Longrightarrow> touches N {} k k1" for cmd k x k1 using run_touches [of k cmd] by simp
  show "create_overlay_disk N base out sz k = (r, k') \<Longrightarrow> touches N {} k k'"
    by (auto simp: create_overlay_disk_def bind_st_def split: prod.splits option.splits if_splits dest!: run intro: touches_step)
qed

lemma bind_st_cases:
  assumes "bind_st m f s = (r, s')"
  obtains (raised) e where "m s = (Inl e, s')" "r = Inl e"
  | (went_on) x s1 where "m s = (Inr x, s1)" "f x s1 = (r, s')"
  using assms by (auto simp: bind_st_def split: prod.splits sum.splits)

lemma on_os_result: "on_os m s = (r, s') \<longleftrightarrow> (\<exists>k. m (qm_os s) = (r, k) \<and> s' = s\<lparr>qm_os := k\<rparr>)"
  by (auto simp: on_os_def split: prod.splits)

lemma launch_cases:
  assumes "launch_vm N images now o' d s = (r, s')"
  obtains (early) e where "r = Inl e" "qm_vms s' = qm_vms s" "touches N {} (qm_os s) (qm_os s')"
  | (binding) e k where "r = Inl e" "qm_vms s' = qm_vms s" "touches N {} (qm_os s) k" "bind_gpus N [] (vo_gpus o') k = (Inl e, qm_os s')"
  | (late) e k k1 u where "r = Inl e" "qm_vms s' = qm_vms s" "touches N {} (qm_os s) k"
      "bind_gpus N [] (vo_gpus o') k = (Inr u, k1)" "touches N {} k1 (qm_os s')"
  | (started) k k1 u cmd pid where "r = Inr (new_instance o' d cmd pid now)"
      "qm_vms s' = AList.update (vo_task_id o') (new_instance o' d cmd pid now) (qm_vms s)" "touches N {} (qm_os s) k"
      "bind_gpus N [] (vo_gpus o') k = (Inr u, k1)" "touches N {} k1 (qm_os s')"
proof -
  let ?base = "path_join images (vo_image o' @ ''.qcow2'')"
  from assms [unfolded launch_vm_def Let_def] show thesis
  proof (cases rule: bind_st_cases)
    case (raised e)
    then show thesis using early [of e] by (auto simp: on_os_result split: if_splits)
  next
    case (went_on x1 s1)
    then have s1: "s1 = s" by (auto simp: on_os_result split: if_splits)
    from went_on(2) [unfolded s1] show thesis
    proof (cases rule: bind_st_cases)
      case (raised e)
      then show thesis using early [of e] disk_grows by (auto simp: on_os_result)
    next
      case (went_on x2 s2)
      then have t: "qm_vms s2 = qm_vms s" "touches N {} (qm_os s) (qm_os s2)"
        using disk_grows by (auto simp: on_os_result)
      from went_on(2) show thesis
      proof (cases rule: bind_st_cases)
        case (went_on v s2')
        then have s2': "s2' = s2" by simp
        from went_on(2) [unfolded s2'] show thesis
        proof (cases rule: bind_st_cases)
          case (raised e)
          then show thesis using binding [of e "qm_os s2"] t by (auto simp: on_os_result)
        next
          case (went_on u s3)
          then have b: "bind_gpus N [] (vo_gpus o') (qm_os s2) = (Inr u, qm_os s3)" "qm_vms s3 = qm_vms s"
            using t by (auto simp: on_os_result)
          have iso: "os_make_iso N p ci k = (r1, k1) \<Longrightarrow> touches N {} k k1" for p ci k r1 k1 using iso_touches [of k p ci] by simp
          from went_on(2) show thesis
          proof (cases rule: bind_st_cases)
            case (raised e)
            then show thesis using late [of e "qm_os s2" u "qm_os s3"] t b iso by (auto simp: on_os_result)
          next
            case (went_on x4 s4)
            then have t4: "touches N {} (qm_os s3) (qm_os s4)" "qm_vms s4 = qm_vms s" using b iso by (auto simp: on_os_result)
            from went_on(2) show thesis
            proof (cases rule: bind_st_cases)
              case (went_on cmd s4')
              then have s4': "s4' = s4" by simp
              from went_on(2) [unfolded s4'] show thesis
              proof (cases rule: bind_st_cases)
                case (raised e)
                then show thesis using late [of e "qm_os s2" u "qm_os s3"] t b t4 touches_step [OF t4(1) start_qemu_touches]
                  by (auto simp: on_os_result)
              next
                case (went_on x s5)
                then have t5: "touches N {} (qm_os s3) (qm_os s5)" "qm_vms s5 = qm_vms s"
                  using t4 touches_step [OF t4(1) start_qemu_touches] by (auto simp: on_os_result)
                show thesis
                proof (cases x)
                  case (Inl m)
                  then show thesis using late [of "vm_creation_error (vo_task_id o') m" "qm_os s2" u "qm_os s3"] went_on(2) t b t5 by simp
                next
                  case (Inr pid)
                  then show thesis
                    using started [of cmd pid "qm_os s2" u "qm_os s3"] went_on(2) t b t5 touches_step [OF t5(1) save_touches [of "qm_os s5" d cmd]]
                    by auto
                qed
              qed
            qed simp
          qed
        qed
      qed simp
    qed
  qed
qed

end

section \<open>Cards stay with their VM\<close>

text \<open>The books hold each VM under its id; the devices that go with it are all on \<^verbatim>\<open>vfio-pci\<close> and go with no
  other VM.\<close>

definition vm_passthrough :: "('k, 'z) pci_scheme \<Rightarrow> vm_instance \<Rightarrow> 'k qemu \<Rightarrow> string set" where
  "vm_passthrough P vm s = passthrough P (vx_gpus vm) (qm_os s)"

definition gpus_held :: "('k, 'z) pci_scheme \<Rightarrow> 'k qemu \<Rightarrow> bool" where
  "gpus_held P s \<longleftrightarrow>
     (\<forall>i vm. get_vm i s = Some vm \<longrightarrow> vx_task_id vm = i \<and> (\<forall>d \<in> vm_passthrough P vm s. is_bound_to_vfio P d (qm_os s))) \<and>
     (\<forall>i j vm vm'. get_vm i s = Some vm \<longrightarrow> get_vm j s = Some vm' \<longrightarrow> i \<noteq> j \<longrightarrow>
        vm_passthrough P vm s \<inter> vm_passthrough P vm' s = {})"

lemma gpus_heldD:
  assumes "gpus_held P s" "get_vm i s = Some vm"
  shows "vx_task_id vm = i" "d \<in> vm_passthrough P vm s \<Longrightarrow> is_bound_to_vfio P d (qm_os s)"
    "get_vm j s = Some vm' \<Longrightarrow> i \<noteq> j \<Longrightarrow> vm_passthrough P vm s \<inter> vm_passthrough P vm' s = {}"
  using assms unfolding gpus_held_def by blast+

text \<open>What the host has to see to: the cards of a new VM share no group with those of a VM that runs.\<close>

definition separate :: "('k, 'z) pci_scheme \<Rightarrow> vm_options \<Rightarrow> 'k qemu \<Rightarrow> bool" where
  "separate P o' s \<longleftrightarrow>
     (\<forall>i vm. get_vm i s = Some vm \<longrightarrow> passthrough P (vo_gpus o') (qm_os s) \<inter> vm_passthrough P vm s = {})"

text \<open>The invariant survives when the VMs of the books stay or go, and only devices of none of those that
  stay are moved.\<close>

lemma gpus_held_step:
  assumes "gpus_held P s" "touches P A (qm_os s) (qm_os s')"
    "\<And>i vm. get_vm i s' = Some vm \<Longrightarrow> \<exists>vm0. get_vm i s = Some vm0 \<and> vx_gpus vm0 = vx_gpus vm \<and> vx_task_id vm0 = vx_task_id vm"
    "\<And>i vm d. get_vm i s' = Some vm \<Longrightarrow> d \<in> vm_passthrough P vm s \<Longrightarrow> is_bound_to_vfio P d (qm_os s) \<Longrightarrow> is_bound_to_vfio P d (qm_os s')"
  shows "gpus_held P s'"
proof -
  have p: "vm_passthrough P vm s' = vm_passthrough P vm s" for vm
    using assms(2) by (simp add: vm_passthrough_def passthrough_touches)
  have q: "vm_passthrough P vm0 s = vm_passthrough P vm s" if "vx_gpus vm0 = vx_gpus vm" for vm vm0
    using that by (simp add: vm_passthrough_def)
  show ?thesis unfolding gpus_held_def p
  proof (intro conjI allI impI ballI)
    fix i vm assume g: "get_vm i s' = Some vm"
    then obtain vm0 where vm0: "get_vm i s = Some vm0" "vx_gpus vm0 = vx_gpus vm" "vx_task_id vm0 = vx_task_id vm" using assms(3) by blast
    show "vx_task_id vm = i" using gpus_heldD(1) [OF assms(1) vm0(1)] vm0(3) by simp
    fix d assume d: "d \<in> vm_passthrough P vm s"
    then have "is_bound_to_vfio P d (qm_os s)" using gpus_heldD(2) [OF assms(1) vm0(1)] q [OF vm0(2)] by simp
    then show "is_bound_to_vfio P d (qm_os s')" using assms(4) [OF g d] by simp
  next
    fix i j vm vm' assume g: "get_vm i s' = Some vm" "get_vm j s' = Some vm'" "i \<noteq> j"
    obtain vm0 vm1 where "get_vm i s = Some vm0" "vx_gpus vm0 = vx_gpus vm" "get_vm j s = Some vm1" "vx_gpus vm1 = vx_gpus vm'"
      using assms(3) g(1,2) by blast
    then show "vm_passthrough P vm s \<inter> vm_passthrough P vm' s = {}" using gpus_heldD(3) [OF assms(1)] g(3) q by metis
  qed
qed

inductive vm_reach :: "('k, 'z) machine_scheme \<Rightarrow> string \<Rightarrow> string \<Rightarrow> 'k qemu \<Rightarrow> bool" for N dir images where
  start: "qm_vms s = [] \<Longrightarrow> vm_reach N dir images s"
| created: "vm_reach N dir images s \<Longrightarrow> separate N o' s \<Longrightarrow> vm_reach N dir images (snd (create_vm N dir images now o' s))"
| stopped: "vm_reach N dir images s \<Longrightarrow> vm_reach N dir images (snd (stop_vm N timeout i s))"
| killed: "vm_reach N dir images s \<Longrightarrow> vm_reach N dir images (snd (kill_vm N i s))"
| restarted: "vm_reach N dir images s \<Longrightarrow> vm_reach N dir images (snd (restart_vm N timeout i s))"

context vm_node
begin

lemma new_instance_fields [simp]:
  "vx_gpus (new_instance o' d cmd pid now) = vo_gpus o'" "vx_task_id (new_instance o' d cmd pid now) = vo_task_id o'"
  by (simp_all add: new_instance_def Let_def)

lemma launch_held:
  assumes "launch_vm N images now o' d s = (r, s')" "gpus_held N s" "separate N o' s" "get_vm (vo_task_id o') s = None"
  shows "gpus_held N s'" "r = Inl e \<Longrightarrow> qm_vms s' = qm_vms s"
    "touches N (passthrough N (vo_gpus o') (qm_os s)) (qm_os s) (qm_os s')"
proof -
  let ?A = "passthrough N (vo_gpus o') (qm_os s)"
  have bind: "grows N ?A (qm_os s) k1" if "touches N {} (qm_os s) k" "bind_gpus N [] (vo_gpus o') k = (r1, k1)" for k r1 k1
  proof (rule grows_trans [OF grows_none [OF that(1)]])
    show "grows N ?A k k1" unfolding grows_def passthrough_touches [OF that(1), symmetric]
      using bind_gpus_result [OF that(2)] by blast
  qed
  have same: "gpus_held N s'" if "grows N ?A (qm_os s) (qm_os s')" "qm_vms s' = qm_vms s"
  proof (rule gpus_held_step [OF assms(2)])
    show "touches N ?A (qm_os s) (qm_os s')" using that(1) by (simp add: grows_def)
    show "get_vm i s' = Some vm \<Longrightarrow> \<exists>vm0. get_vm i s = Some vm0 \<and> vx_gpus vm0 = vx_gpus vm \<and> vx_task_id vm0 = vx_task_id vm" for i vm
      using that(2) by (simp add: get_vm_def)
    show "is_bound_to_vfio N d (qm_os s) \<Longrightarrow> is_bound_to_vfio N d (qm_os s')" for d using that(1) by (simp add: grows_def)
  qed
  have "gpus_held N s' \<and> (\<forall>e. r = Inl e \<longrightarrow> qm_vms s' = qm_vms s) \<and> grows N ?A (qm_os s) (qm_os s')"
    using assms(1)
  proof (cases rule: launch_cases)
    case (early e)
    have g: "grows N ?A (qm_os s) (qm_os s')" using early(3) by (rule grows_none)
    then show ?thesis using same [OF g early(2)] early(2) by simp
  next
    case (binding e k)
    note g = bind [OF binding(3,4)]
    then show ?thesis using same [OF g binding(2)] binding(2) by simp
  next
    case (late e k k1 u)
    note g = grows_trans [OF bind [OF late(3,4)] grows_none [OF late(5)]]
    then show ?thesis using same [OF g late(2)] late(2) by simp
  next
    case (started k k1 u cmd pid)
    note g = grows_trans [OF bind [OF started(3,4)] grows_none [OF started(5)]]
    then have t: "touches N ?A (qm_os s) (qm_os s')" by (simp add: grows_def)
    have p: "vm_passthrough N vm s' = vm_passthrough N vm s" for vm
      using t by (simp add: vm_passthrough_def passthrough_touches)
    let ?vm = "new_instance o' d cmd pid now"
    have mine: "vm_passthrough N ?vm s = ?A" by (simp add: vm_passthrough_def)
    have "\<forall>x \<in> ?A. is_bound_to_vfio N x (qm_os s')"
      using bind_gpus_binds [OF started(4)] touches_bound [OF started(5)] passthrough_touches [OF started(3)] by simp
    moreover have "get_vm i s' = (if i = vo_task_id o' then Some ?vm else get_vm i s)" for i
      using started(2) by (simp add: get_vm_def get_update)
    ultimately have "gpus_held N s'" unfolding gpus_held_def p
      using assms(2,3) g mine unfolding gpus_held_def separate_def grows_def by (auto split: if_splits; blast)
    then show ?thesis using started(1) g by simp
  qed
  then show "gpus_held N s'" "r = Inl e \<Longrightarrow> qm_vms s' = qm_vms s" "touches N ?A (qm_os s) (qm_os s')" by (auto simp: grows_def)
qed

lemma create_held:
  assumes "gpus_held N s" "separate N o' s"
  shows "gpus_held N (snd (create_vm N dir images now o' s))"
proof (cases "vm_exists (vo_task_id o') s")
  case True
  then show ?thesis using assms by (simp add: create_vm_def)
next
  case False
  let ?d = "vm_instance_dir dir (vo_task_id o')"
  define s1 where "s1 = s\<lparr>qm_os := os_makedirs N ''/run/kohakuriver/vm'' (os_makedirs N ?d (qm_os s))\<rparr>"
  have t1: "touches N {} (qm_os s) (qm_os s1)" using touches_step [OF makedirs_touches makedirs_touches] by (simp add: s1_def)
  have vms1: "get_vm i s1 = get_vm i s" for i by (simp add: s1_def get_vm_def)
  have h1: "gpus_held N s1"
    by (rule gpus_held_step [OF assms(1) t1]) (auto simp: vms1 touches_bound [OF t1])
  have sep1: "separate N o' s1" using assms(2) by (simp add: separate_def vm_passthrough_def vms1 passthrough_touches [OF t1])
  have new: "get_vm (vo_task_id o') s1 = None" using False vms1 by (simp add: vm_exists_def get_vm_def map_of_eq_None_iff)
  obtain r s2 where l: "launch_vm N images now o' ?d s1 = (r, s2)" by force
  note held = launch_held [OF l h1 sep1 new]
  have clean: "gpus_held N (cleanup_vm_on_error N o' s2)" if "r = Inl e" for e
  proof -
    have vms2: "get_vm i s2 = get_vm i s1" for i using held(2) [OF that] by (simp add: get_vm_def)
    have u: "touches N (passthrough N (vo_gpus o') (qm_os s1)) (qm_os s2) (qm_os (cleanup_vm_on_error N o' s2))"
      using unbind_gpus_touches [of "vo_gpus o'" "qm_os s2"] passthrough_touches [OF held(3)] by (simp add: cleanup_vm_on_error_def)
    show ?thesis
    proof (rule gpus_held_step [OF held(1) u])
      fix i vm d
      assume g: "get_vm i (cleanup_vm_on_error N o' s2) = Some vm" "d \<in> vm_passthrough N vm s2"
      then have "get_vm i s1 = Some vm" using vms2 by (simp add: cleanup_vm_on_error_def get_vm_def)
      moreover have "vm_passthrough N vm s2 = vm_passthrough N vm s1"
        using passthrough_touches [OF held(3)] by (simp add: vm_passthrough_def)
      ultimately have "d \<notin> passthrough N (vo_gpus o') (qm_os s1)" using sep1 g(2) by (auto simp: separate_def)
      then show "is_bound_to_vfio N d (qm_os s2) \<Longrightarrow> is_bound_to_vfio N d (qm_os (cleanup_vm_on_error N o' s2))"
        using touches_bound [OF u] by simp
    qed (auto simp: cleanup_vm_on_error_def get_vm_def)
  qed
  have c: "create_vm N dir images now o' s = (case (r, s2) of
        (Inr vm, s') \<Rightarrow> (Inr vm, s')
      | (Inl (VMCreationError m), s') \<Rightarrow> (Inl (VMCreationError m), s')
      | (Inl e, s') \<Rightarrow> (Inl (vm_creation_error (vo_task_id o') (exn_text e)), cleanup_vm_on_error N o' s'))"
    using False l by (simp add: create_vm_def Let_def s1_def)
  show ?thesis
  proof (cases r)
    case (Inl e)
    then show ?thesis unfolding c using held(1) clean by (cases e) simp_all
  qed (use held(1) in \<open>simp add: c\<close>)
qed

lemma drop_held:
  assumes "gpus_held N s" "get_vm i s = Some vm" "touches N (vm_passthrough N vm s) (qm_os s) (qm_os s')"
    "qm_vms s' = AList.delete i (qm_vms s)"
  shows "gpus_held N s'"
proof (rule gpus_held_step [OF assms(1,3)])
  fix j vm' d
  assume "get_vm j s' = Some vm'" and d: "d \<in> vm_passthrough N vm' s"
  then have j: "get_vm j s = Some vm'" "i \<noteq> j" using assms(4) by (auto simp: get_vm_def get_delete split: if_splits)
  then have "d \<notin> vm_passthrough N vm s" using gpus_heldD(3) [OF assms(1,2) j] d by blast
  then show "is_bound_to_vfio N d (qm_os s) \<Longrightarrow> is_bound_to_vfio N d (qm_os s')" using touches_bound [OF assms(3)] by simp
qed (use assms(4) in \<open>auto simp: get_vm_def get_delete split: if_splits\<close>)

lemma cleanup_held:
  assumes "gpus_held N s" "get_vm i s = Some vm" "touches N {} (qm_os s) k"
  shows "gpus_held N (cleanup_vm N i (s\<lparr>qm_os := k\<rparr>))"
proof (rule drop_held [OF assms(1,2)])
  have p: "passthrough N (vx_gpus vm) k = vm_passthrough N vm s" using assms(3) by (simp add: vm_passthrough_def passthrough_touches)
  have c: "cleanup_vm N i (s\<lparr>qm_os := k\<rparr>) = \<lparr>qm_vms = AList.delete i (qm_vms s), qm_os = os_unlink N (vx_qmp vm) (unbind_gpus N [] (vx_gpus vm) k)\<rparr>"
    using assms(2) by (simp add: cleanup_vm_def get_vm_def)
  then show "qm_vms (cleanup_vm N i (s\<lparr>qm_os := k\<rparr>)) = AList.delete i (qm_vms s)" by simp
  have "touches N (vm_passthrough N vm s) k (unbind_gpus N [] (vx_gpus vm) k)" using unbind_gpus_touches [of "vx_gpus vm" k "[]"] p by simp
  then show "touches N (vm_passthrough N vm s) (qm_os s) (qm_os (cleanup_vm N i (s\<lparr>qm_os := k\<rparr>)))"
    using touches_step [OF touches_step [OF touches_none [OF assms(3)]] touches_none [OF unlink_touches]] by (simp add: c)
qed

lemma stop_held: "gpus_held N s \<Longrightarrow> gpus_held N (snd (stop_vm N timeout i s))"
  using cleanup_held shut_down_touches by (auto simp: stop_vm_def split: option.splits)

lemma kill_held: "gpus_held N s \<Longrightarrow> gpus_held N (snd (kill_vm N i s))"
  using cleanup_held touches_step [OF kill_touches sleep_touches] by (auto simp: kill_vm_def split: option.splits)

lemma relaunch_held:
  assumes "gpus_held N s" "get_vm i s = Some vm0" "vx_gpus vm = vx_gpus vm0" "vx_task_id vm = i"
    "touches N {} (qm_os s) k" "s1 = \<lparr>qm_vms = AList.delete i (qm_vms s), qm_os = k\<rparr>"
  shows "gpus_held N (snd (relaunch_vm N vm s1))"
proof -
  let ?A = "vm_passthrough N vm0 s" and ?s' = "snd (relaunch_vm N vm s1)"
  define k1 where "k1 = os_unlink N (vx_qmp vm) k"
  define r2 where "r2 = (if vx_gpus vm = [] then (Inr (), k1)
      else bind_gpus N [] (vx_gpus vm) (os_sleep N (unbind_gpus N [] (vx_gpus vm) k1)))"
  have t1: "touches N {} (qm_os s) k1" using touches_step [OF assms(5) unlink_touches] by (simp add: k1_def)
  have p1: "passthrough N (vx_gpus vm) k1 = ?A" using passthrough_touches [OF t1] assms(3) by (simp add: vm_passthrough_def)
  let ?ku = "os_sleep N (unbind_gpus N [] (vx_gpus vm) k1)"
  have tu: "touches N ?A k1 ?ku"
    using touches_step [OF unbind_gpus_touches [of "vx_gpus vm" k1 "[]", unfolded p1] touches_none [OF sleep_touches]] .
  have pu: "passthrough N (vx_gpus vm) ?ku = ?A" using passthrough_touches [OF tu] p1 by simp
  have t2: "touches N ?A k1 (snd r2)" and b2: "\<And>u. fst r2 = Inr u \<Longrightarrow> \<forall>d \<in> ?A. is_bound_to_vfio N d (snd r2)"
  proof -
    obtain r3 k3 where b: "bind_gpus N [] (vx_gpus vm) ?ku = (r3, k3)" by force
    have "?A = {}" if "vx_gpus vm = []" using that assms(3) by (simp add: vm_passthrough_def)
    then show "touches N ?A k1 (snd r2)" "\<And>u. fst r2 = Inr u \<Longrightarrow> \<forall>d \<in> ?A. is_bound_to_vfio N d (snd r2)"
      using touches_step [OF tu, of k3] bind_gpus_result [OF b, unfolded pu] b by (auto simp: r2_def)
  qed
  note t = touches_step [OF touches_none [OF t1, of ?A] t2]
  obtain r4 k4 where 4: "start_qemu N (vx_cmd vm) (vx_dir vm) (snd r2) = (r4, k4)" by force
  have eq: "relaunch_vm N vm s1 =
     (case r2 of
        (Inl e, k) \<Rightarrow> (Inr False, \<lparr>qm_vms = AList.delete i (qm_vms s), qm_os = k\<rparr>)
      | (Inr _, k) \<Rightarrow>
          (case start_qemu N (vx_cmd vm) (vx_dir vm) k of
             (Inl e, k') \<Rightarrow> (Inl e, \<lparr>qm_vms = AList.delete i (qm_vms s), qm_os = k'\<rparr>)
           | (Inr (Inl m), k') \<Rightarrow> (Inr False, \<lparr>qm_vms = AList.delete i (qm_vms s), qm_os = k'\<rparr>)
           | (Inr (Inr pid), k') \<Rightarrow>
               (Inr True, \<lparr>qm_vms = AList.update i
                    (vm\<lparr>vx_pid := pid, vx_ssh_ready := False, vx_heartbeat := None, vx_gpu_info := [], vx_system := []\<rparr>)
                    (AList.delete i (qm_vms s)), qm_os = k'\<rparr>)))"
    unfolding relaunch_vm_def assms(6) Let_def r2_def k1_def assms(4) by (simp only: qemu.simps)
  note t4 = start_qemu_touches [OF 4, of "{}"]
  have lost: "gpus_held N \<lparr>qm_vms = AList.delete i (qm_vms s), qm_os = k'\<rparr>" if "touches N ?A (qm_os s) k'" for k'
    by (rule drop_held [OF assms(1,2)]) (use that in simp_all)
  consider (down) k' where "touches N ?A (qm_os s) k'" "?s' = \<lparr>qm_vms = AList.delete i (qm_vms s), qm_os = k'\<rparr>"
    | (up) pid where "fst r2 = Inr ()" "r4 = Inr (Inr pid)"
        "?s' = \<lparr>qm_vms = AList.update i (vm\<lparr>vx_pid := pid, vx_ssh_ready := False, vx_heartbeat := None, vx_gpu_info := [], vx_system := []\<rparr>)
           (AList.delete i (qm_vms s)), qm_os = k4\<rparr>"
  proof (cases "fst r2")
    case (Inl e)
    then have "?s' = \<lparr>qm_vms = AList.delete i (qm_vms s), qm_os = snd r2\<rparr>" unfolding eq by (cases r2) simp
    then show thesis using down t by blast
  next
    case (Inr u)
    note t' = touches_step [OF t touches_none [OF t4]]
    show thesis
    proof (cases "\<exists>pid. r4 = Inr (Inr pid)")
      case True
      then obtain pid where "r4 = Inr (Inr pid)" by blast
      then show thesis using up Inr 4 unfolding eq by (cases r2) simp
    next
      case False
      then have "?s' = \<lparr>qm_vms = AList.delete i (qm_vms s), qm_os = k4\<rparr>" unfolding eq using Inr 4 by (cases r2) (auto split: sum.splits)
      then show thesis using down t' by blast
    qed
  qed
  then show ?thesis
  proof cases
    case (down k')
    then show ?thesis using lost by simp
  next
    case (up pid)
    have t': "touches N ?A (qm_os s) k4" using touches_step [OF t touches_none [OF t4]] .
    show ?thesis
    proof (rule gpus_held_step [OF assms(1)])
      show "touches N ?A (qm_os s) (qm_os ?s')" using t' up(3) by simp
      fix j v
      assume g: "get_vm j ?s' = Some v"
      then show "\<exists>v0. get_vm j s = Some v0 \<and> vx_gpus v0 = vx_gpus v \<and> vx_task_id v0 = vx_task_id v"
        using up(3) assms(2-4) gpus_heldD(1) [OF assms(1,2)] by (auto simp: get_vm_def get_update get_delete split: if_splits)
      fix d
      assume d: "d \<in> vm_passthrough N v s" "is_bound_to_vfio N d (qm_os s)"
      show "is_bound_to_vfio N d (qm_os ?s')"
      proof (cases "d \<in> ?A")
        case True
        then show ?thesis using b2 [OF up(1)] touches_bound [OF t4] up(3) by simp
      next
        case False
        then show ?thesis using touches_bound [OF t'] d up(3) by simp
      qed
    qed
  qed
qed

lemma restart_held:
  assumes "gpus_held N s"
  shows "gpus_held N (snd (restart_vm N timeout i s))"
proof (cases "get_vm i s")
  case None
  then show ?thesis using assms by (simp add: restart_vm_def)
next
  case (Some vm0)
  define vm where "vm = (if vx_cmd vm0 = [] then vm0\<lparr>vx_cmd := os_load_cmd N (vx_dir vm0) (qm_os s)\<rparr> else vm0)"
  have vm: "vx_gpus vm = vx_gpus vm0" "vx_task_id vm = i" using gpus_heldD(1) [OF assms Some] by (simp_all add: vm_def)
  show ?thesis
  proof (cases "vx_cmd vm = []")
    case True
    let ?s' = "\<lparr>qm_vms = AList.update i vm (qm_vms s), qm_os = snd (os_qmp N (vx_qmp vm) ''system_reset'' (qm_os s))\<rparr>"
    have r: "snd (restart_vm N timeout i s) = ?s'" using Some True by (simp add: restart_vm_def Let_def vm_def [symmetric])
    show ?thesis unfolding r
    proof (rule gpus_held_step [OF assms])
      show "touches N {} (qm_os s) (qm_os ?s')" by (simp add: qmp_touches)
      show "get_vm j ?s' = Some v \<Longrightarrow> \<exists>v0. get_vm j s = Some v0 \<and> vx_gpus v0 = vx_gpus v \<and> vx_task_id v0 = vx_task_id v" for j v
        using Some vm gpus_heldD(1) [OF assms Some] by (auto simp: get_vm_def get_update split: if_splits)
      show "is_bound_to_vfio N d (qm_os s) \<Longrightarrow> is_bound_to_vfio N d (qm_os ?s')" for d using touches_bound [OF qmp_touches] by simp
    qed
  next
    case False
    have "AList.delete i (AList.update i vm (qm_vms s)) = AList.delete i (qm_vms s)" by (simp add: delete_update_same)
    then have r: "restart_vm N timeout i s = relaunch_vm N vm \<lparr>qm_vms = AList.delete i (qm_vms s), qm_os = shut_down N vm timeout (qm_os s)\<rparr>"
      using Some False by (simp add: restart_vm_def Let_def vm_def [symmetric] qemu_record)
    show ?thesis unfolding r by (rule relaunch_held [OF assms Some vm shut_down_touches refl])
  qed
qed

lemma reach_held: "vm_reach N dir images s \<Longrightarrow> gpus_held N s"
proof (induction rule: vm_reach.induct)
  case (start s)
  then show ?case by (simp add: gpus_held_def get_vm_def)
qed (rule create_held stop_held kill_held restart_held; assumption)+

end

end
