(* ===== verification/Gpu_Properties.thy ===== *)
theory Gpu_Properties
  imports Qemu_Properties Vm_Properties Runner_Properties
begin

text \<open>
  The properties of VMs and their graphics cards, with a small node for examples: the cards \<open>a\<close> and \<open>c\<close> and
  the device \<open>b\<close>, which shares the group of \<open>a\<close>.
\<close>

section \<open>A small node\<close>

record demo_os =
  do_drivers :: "(string, string) dict"
  do_override :: "string list"

definition demo_devices :: "string list" where
  "demo_devices = [''a'', ''b'', ''c'']"

definition demo_link :: "string \<Rightarrow> demo_os \<Rightarrow> string option" where
  "demo_link p k =
     (case find (\<lambda>d. p = pci_path d ''driver'') demo_devices of
        Some d \<Rightarrow> map_of (do_drivers k) d
      | None \<Rightarrow> map_option (\<lambda>d. if d = ''c'' then ''2'' else ''1'') (find (\<lambda>d. p = pci_path d ''iommu_group'') demo_devices))"

definition demo_file :: "string \<Rightarrow> demo_os \<Rightarrow> string option" where
  "demo_file p k =
     (if list_ex (\<lambda>d. p = pci_path d ''vendor'') demo_devices then Some ''0x10de''
      else if list_ex (\<lambda>d. p = pci_path d ''device'') demo_devices then Some ''0x2204''
      else if p = pci_path ''b'' ''class'' then Some ''0x040300''
      else if p = pci_path ''a'' ''class'' \<or> p = pci_path ''c'' ''class'' then Some ''0x030000''
      else None)"

definition demo_dir :: "string \<Rightarrow> demo_os \<Rightarrow> string list option" where
  "demo_dir p k =
     (if p = group_path 1 then Some [''a'', ''b''] else if p = group_path 2 then Some [''c''] else None)"

text \<open>A device without a driver takes the one it is offered.\<close>

definition demo_attach :: "string \<Rightarrow> string \<Rightarrow> demo_os \<Rightarrow> demo_os" where
  "demo_attach v drv k =
     (if v \<in> set demo_devices \<and> map_of (do_drivers k) v = None then k\<lparr>do_drivers := AList.update v drv (do_drivers k)\<rparr> else k)"

definition demo_write :: "string \<Rightarrow> string \<Rightarrow> demo_os \<Rightarrow> sysfs_write \<times> demo_os" where
  "demo_write p v k =
     (if p = pci_path v ''driver/unbind'' then (Written, k\<lparr>do_drivers := AList.delete v (do_drivers k)\<rparr>)
      else if p = ''/sys/bus/pci/drivers_probe''
      then (Written, demo_attach v (if v \<in> set (do_override k) then ''vfio-pci'' else ''nvidia'') k)
      else if p = ''/sys/bus/pci/drivers/nvidia/bind'' then (Written, demo_attach v ''nvidia'' k)
      else case find (\<lambda>d. p = pci_path d ''driver_override'') demo_devices of
             Some d \<Rightarrow> (Written, k\<lparr>do_override := (if v = ''vfio-pci'' then List.insert d (do_override k) else removeAll d (do_override k))\<rparr>)
           | None \<Rightarrow> (Refused, k))"

text \<open>\<open>starts\<close>: whether QEMU starts.\<close>

definition demo_node :: "bool \<Rightarrow> demo_os machine" where
  "demo_node starts = \<lparr>pc_link = demo_link, pc_file = demo_file, pc_dir = demo_dir, pc_write = demo_write,
     pc_systemctl = (\<lambda>args k. (True, k)), os_exists = (\<lambda>p k. True), os_makedirs = (\<lambda>p k. k),
     os_run = (\<lambda>cmd k. (Some (if hd cmd = ''qemu-system-x86_64'' \<and> \<not> starts then 1 else 0, ''''), k)),
     os_text = (\<lambda>p k. Some ''7''), os_alive = (\<lambda>pid k. True), os_kill = (\<lambda>pid k. k), os_sleep = (\<lambda>k. k),
     os_qmp = (\<lambda>p c k. (True, k)), os_unlink = (\<lambda>p k. k), os_save_cmd = (\<lambda>p cmd k. k), os_load_cmd = (\<lambda>p k. []),
     os_driver_version = (\<lambda>k. None), os_make_iso = (\<lambda>p c k. (Inr (), k))\<rparr>"

lemma demo_node_simps [simp]:
  "pc_link (demo_node b) = demo_link" "pc_file (demo_node b) = demo_file" "pc_dir (demo_node b) = demo_dir"
  "pc_write (demo_node b) = demo_write" "pc_systemctl (demo_node b) args k = (True, k)"
  by (simp_all add: demo_node_def)

lemma pci_path_last [simp]: "f \<noteq> [] \<Longrightarrow> last (pci_path a f) = last f"
  by (simp add: pci_path_def)

lemma pci_path_inj [simp]: "pci_path a f = pci_path d f \<longleftrightarrow> a = d"
  by (simp add: pci_path_def)

lemma pci_path_other:
  "f \<noteq> [] \<Longrightarrow> g \<noteq> [] \<Longrightarrow> last f \<noteq> last g \<Longrightarrow> pci_path a f \<noteq> pci_path d g"
  by (metis pci_path_last)

lemma find_eq: "find (\<lambda>d. a = d) ds = (if a \<in> set ds then Some a else None)"
  by (induction ds) auto

lemma find_False [simp]: "find (\<lambda>d. False) ds = None"
  by (simp add: find_None_iff)

lemma demo_link_driver: "demo_link (pci_path a ''driver'') k = (if a \<in> set demo_devices then map_of (do_drivers k) a else None)"
proof -
  have "pci_path a ''driver'' \<noteq> pci_path d ''iommu_group''" for d by (rule pci_path_other) simp_all
  then show ?thesis by (auto simp: demo_link_def find_eq)
qed

lemma demo_link_group:
  "demo_link (pci_path a ''iommu_group'') k = (if a \<in> set demo_devices then Some (if a = ''c'' then ''2'' else ''1'') else None)"
proof -
  have "pci_path a ''iommu_group'' \<noteq> pci_path d ''driver''" for d by (rule pci_path_other) simp_all
  then show ?thesis by (auto simp: demo_link_def find_eq)
qed

lemma demo_driver [simp]:
  "get_current_driver (demo_node b) a k = (if a \<in> set demo_devices then map_of (do_drivers k) a else None)"
  by (simp add: get_current_driver_def demo_link_driver)

lemma demo_touches:
  "touches (demo_node b) A k k' \<longleftrightarrow> (\<forall>a. a \<notin> A \<longrightarrow> a \<in> set demo_devices \<longrightarrow> map_of (do_drivers k') a = map_of (do_drivers k) a)"
proof -
  have "demo_file p k' = demo_file p k" "demo_dir p k' = demo_dir p k" for p by (simp_all add: demo_file_def demo_dir_def)
  then show ?thesis by (auto simp: touches_def demo_link_group get_pci_device_class_def)
qed

lemma demo_override:
  "demo_write (pci_path a ''driver_override'') v k =
     (if a \<in> set demo_devices
      then (Written, k\<lparr>do_override := (if v = ''vfio-pci'' then List.insert a (do_override k) else removeAll a (do_override k))\<rparr>)
      else (Refused, k))"
proof -
  have "pci_path a ''driver_override'' \<noteq> pci_path v ''driver/unbind''" by (rule pci_path_other) simp_all
  moreover have "pci_path a ''driver_override'' \<noteq> ''/sys/bus/pci/drivers_probe''"
    "pci_path a ''driver_override'' \<noteq> ''/sys/bus/pci/drivers/nvidia/bind''" by (simp_all add: pci_path_def)
  ultimately show ?thesis by (simp add: demo_write_def find_eq)
qed

lemma demo_probe:
  "demo_write ''/sys/bus/pci/drivers_probe'' v k =
     (Written, demo_attach v (if v \<in> set (do_override k) then ''vfio-pci'' else ''nvidia'') k)"
proof -
  have "''/sys/bus/pci/drivers_probe'' \<noteq> pci_path v ''driver/unbind''" by (simp add: pci_path_def)
  then show ?thesis by (simp add: demo_write_def)
qed

lemma demo_nvidia: "demo_write ''/sys/bus/pci/drivers/nvidia/bind'' v k = (Written, demo_attach v ''nvidia'' k)"
proof -
  have "''/sys/bus/pci/drivers/nvidia/bind'' \<noteq> pci_path v ''driver/unbind''" by (simp add: pci_path_def)
  then show ?thesis by (simp add: demo_write_def)
qed

lemma demo_groups:
  "get_iommu_group (demo_node b) a k = (if a \<in> set demo_devices then Some (if a = ''c'' then 2 else 1) else None)"
proof -
  have "int_of_str 10 ''1'' = Some 1" "int_of_str 10 ''2'' = Some 2" by code_simp+
  then show ?thesis by (simp add: get_iommu_group_def demo_link_group)
qed

lemma demo_members:
  "get_iommu_group_devices (demo_node b) 1 k = [''a'', ''b'']" "get_iommu_group_devices (demo_node b) 2 k = [''c'']"
proof -
  have "sort [''a'', ''b''] = [''a'', ''b'']" "group_path 2 \<noteq> group_path 1" by code_simp+
  then show "get_iommu_group_devices (demo_node b) 1 k = [''a'', ''b'']" "get_iommu_group_devices (demo_node b) 2 k = [''c'']"
    by (simp_all add: get_iommu_group_devices_def demo_dir_def)
qed

interpretation demo_vms: vm_node_releases "demo_node b"
proof unfold_locales
  show "touches (demo_node b) {v} k (snd (pc_write (demo_node b) p v k))" for v k p
    by (auto simp: demo_touches demo_write_def demo_attach_def get_update get_delete split: option.splits)
  show "touches (demo_node b) {} k (snd (pc_write (demo_node b) (pci_path a ''driver_override'') v k))" for k a v
    by (simp add: demo_touches demo_override)
  show "get_iommu_group (demo_node b) a k = Some g \<Longrightarrow> d \<in> set (get_iommu_group_devices (demo_node b) g k) \<Longrightarrow>
      get_iommu_group (demo_node b) d k = Some g" for a k g d
    by (auto simp: demo_groups demo_devices_def demo_members split: if_splits)
  show "pc_write (demo_node b) (pci_path a ''driver/unbind'') a k = (Written, k') \<Longrightarrow>
      get_current_driver (demo_node b) a k' = None" for a k k'
    by (auto simp: demo_write_def get_delete)
  show "\<not> is_bound_to_vfio (demo_node b) a k \<Longrightarrow>
      pc_write (demo_node b) (pci_path a ''driver_override'') ''\<newline>'' k = (Written, k') \<Longrightarrow>
      \<not> is_bound_to_vfio (demo_node b) a (snd (pc_write (demo_node b) ''/sys/bus/pci/drivers_probe'' a k'))" for a k k'
    by (auto simp: is_bound_to_vfio_def demo_probe demo_override demo_attach_def get_update split: if_splits)
  show "\<not> is_bound_to_vfio (demo_node b) a k \<Longrightarrow>
      \<not> is_bound_to_vfio (demo_node b) a (snd (pc_write (demo_node b) ''/sys/bus/pci/drivers/nvidia/bind'' a k))" for a k
    by (auto simp: is_bound_to_vfio_def demo_nvidia demo_attach_def get_update split: if_splits)
qed (simp_all add: demo_node_def)

lemma demo_node_ok: "vm_node_ok (demo_node b)" "vm_node_releases_ok (demo_node b)"
  using demo_vms.vm_node_axioms demo_vms.vm_node_releases_axioms by (simp_all add: vm_node_ok_def vm_node_releases_ok_def)

definition demo_vm :: "string list \<Rightarrow> vm_options" where
  "demo_vm gpus = \<lparr>vo_task_id = 5, vo_image = ''u'', vo_cores = 2, vo_memory_mb = 4096, vo_disk_size = '''', vo_gpus = gpus,
     vo_ssh_key = '''', vo_runner_url = '''', vo_runner_key = '''', vo_shared = '''', vo_local = '''', vo_nics = [], vo_single = no_nic\<rparr>"

definition demo_boot :: "demo_os qemu" where
  "demo_boot = \<lparr>qm_vms = [], qm_os = \<lparr>do_drivers = [(''a'', ''nvidia''), (''b'', ''snd_hda_intel''), (''c'', ''nvidia'')], do_override = []\<rparr>\<rparr>"

section \<open>Properties\<close>

text \<open>C12: the cards of a VM stay with it.  From books without VMs, over creations that succeed or fail,
  stops, kills and restarts, every device that goes with a VM is on \<^verbatim>\<open>vfio-pci\<close> for as long as the VM is in
  the books, and goes with no other VM, provided the cards of a new VM share no group with those of a
  VM that runs.\<close>

theorem gpus_stay_with_vm:
  assumes "vm_node_ok N" "vm_reach N dir images s" "get_vm i s = Some vm" "d \<in> vm_passthrough N vm s"
  shows "is_bound_to_vfio N d (qm_os s) \<and> (\<forall>j vm'. get_vm j s = Some vm' \<and> d \<in> vm_passthrough N vm' s \<longrightarrow> j = i)"
proof -
  note held = vm_node.reach_held [OF assms(1) [unfolded vm_node_ok_def] assms(2)]
  show ?thesis using gpus_heldD(2) [OF held assms(3,4)] gpus_heldD(3) [OF held assms(3)] assms(4) by blast
qed

text \<open>In the small node every device can be bound.\<close>

lemma demo_binds_one:
  assumes "a \<in> set demo_devices"
  shows "\<exists>k'. bind_to_vfio (demo_node b) a k = (Inr (), k')"
proof -
  let ?N = "demo_node b"
  have ids: "get_device_ids ?N a k = (Inr (''0x10de'', ''0x2204''), k)" for k
  proof -
    have "pci_path a ''device'' \<noteq> pci_path d ''vendor''" for d by (simp add: pci_path_def)
    then show ?thesis using assms by (auto simp: get_device_ids_def demo_file_def list_ex_iff)
  qed
  have un: "\<exists>k'. unbind_driver ?N a h k = (Inr (), k') \<and> map_of (do_drivers k') a = None" for h k
    by (simp add: unbind_driver_def bind_st_def write_sysfs_timeout_def demo_write_def get_delete)
  have "\<exists>k'. (case get_current_driver ?N a k of None \<Rightarrow> return_st ()
      | Some d \<Rightarrow> (\<lambda>k. unbind_driver ?N a (\<lambda>_. True) (if d = ''nvidia'' then stop_nvidia_persistenced ?N k else k))) k = (Inr (), k') \<and>
      map_of (do_drivers k') a = None"
    using un assms by (auto simp: return_st_def stop_nvidia_persistenced_def split: option.splits)
  then obtain k1 where 1: "(case get_current_driver ?N a k of None \<Rightarrow> return_st ()
      | Some d \<Rightarrow> (\<lambda>k. unbind_driver ?N a (\<lambda>_. True) (if d = ''nvidia'' then stop_nvidia_persistenced ?N k else k))) k = (Inr (), k1)"
    "map_of (do_drivers k1) a = None" by blast
  have over: "write_sysfs_timeout ?N (pci_path a ''driver_override'') ''vfio-pci'' k1 = (Inr True, k1\<lparr>do_override := List.insert a (do_override k1)\<rparr>)"
    using assms by (simp add: write_sysfs_timeout_def demo_override)
  show ?thesis
  proof (cases "is_bound_to_vfio ?N a k")
    case True
    then show ?thesis by (simp add: bind_to_vfio_def)
  next
    case False
    then show ?thesis
      by (simp only: bind_to_vfio_def bind_st_def ids prod.case sum.case 1 over if_False)
        (simp add: write_sysfs_timeout_def demo_probe demo_attach_def assms 1(2) is_bound_to_vfio_def get_update)
  qed
qed

lemma demo_binds_devices: "set ds \<subseteq> set demo_devices \<Longrightarrow> \<exists>k'. bind_devices (demo_node b) bound ds k = (Inr (), bound @ ds, k')"
proof (induction ds arbitrary: bound k)
  case (Cons d ds)
  obtain k1 where "bind_to_vfio (demo_node b) d k = (Inr (), k1)" using demo_binds_one Cons.prems by fastforce
  moreover obtain k' where "bind_devices (demo_node b) (bound @ [d]) ds k1 = (Inr (), (bound @ [d]) @ ds, k')"
    using Cons.IH [of "bound @ [d]" k1] Cons.prems by auto
  ultimately show ?case by simp
qed simp

lemma demo_group_a: "get_iommu_group_non_bridge_devices (demo_node b) ''a'' k = [''a'', ''b'']"
proof -
  have "demo_file (pci_path ''a'' ''class'') k = Some ''0x030000''" "demo_file (pci_path ''b'' ''class'') k = Some ''0x040300''" by code_simp+
  then show ?thesis
    by (simp add: get_iommu_group_non_bridge_devices_def demo_groups demo_devices_def demo_members is_pci_bridge_def get_pci_device_class_def)
qed

lemma demo_passthrough: "passthrough (demo_node b) [''a''] k = {''a'', ''b''}"
  by (simp add: passthrough_def demo_group_a)

lemma demo_binds: "\<exists>k'. bind_gpus (demo_node b) [] [''a''] k = (Inr (), k')"
proof -
  obtain k' where "bind_devices (demo_node b) [] [''a'', ''b''] k = (Inr (), [''a'', ''b''], k')"
    using demo_binds_devices [of "[''a'', ''b'']" b "[]" k] by (auto simp: demo_devices_def)
  then show ?thesis by (simp add: bind_iommu_group_def demo_group_a bind_st_def return_st_def)
qed

lemma demo_start: "start_qemu (demo_node b) (build_qemu_command (demo_node b) o' d k) d k = (Inr (if b then Inr 7 else Inl ''QEMU failed (exit code 1)''), k)"
proof -
  have "int_of_str 10 ''7'' = Some 7" "str_of_int 1 = ''1''" "strip '''' = ''''" by code_simp+
  then show ?thesis by (simp add: start_qemu_def demo_node_def build_qemu_command_def)
qed

lemma demo_steps_vm:
  "create_overlay_disk (demo_node b) base out [] k = (Inr (), k)" "os_make_iso (demo_node b) p c k = (Inr (), k)"
  "os_exists (demo_node b) p k" "os_makedirs (demo_node b) p k = k" "os_save_cmd (demo_node b) p cmd k = k"
  by (simp_all add: create_overlay_disk_def bind_st_def demo_node_def)

lemma demo_vm_fields [simp]: "vo_gpus (demo_vm gpus) = gpus" "vo_disk_size (demo_vm gpus) = []" "vo_task_id (demo_vm gpus) = 5"
  by (simp_all add: demo_vm_def)

lemma demo_created:
  "\<exists>vm k. create_vm (demo_node True) ''/i'' ''/v'' 10 (demo_vm [''a'']) demo_boot = (Inr vm, \<lparr>qm_vms = [(5, vm)], qm_os = k\<rparr>) \<and> vx_gpus vm = [''a'']"
proof -
  let ?N = "demo_node True" and ?o = "demo_vm [''a'']" and ?d = "vm_instance_dir ''/i'' 5" and ?k = "qm_os demo_boot"
  obtain k2 where k2: "bind_gpus ?N [] [''a''] ?k = (Inr (), k2)" using demo_binds by blast
  let ?vm = "new_instance ?o ?d (build_qemu_command ?N ?o ?d k2) 7 10"
  have "launch_vm ?N ''/v'' 10 ?o ?d demo_boot = (Inr ?vm, \<lparr>qm_vms = [(5, ?vm)], qm_os = k2\<rparr>)"
  proof -
    have disk: "create_overlay_disk ?N base out (vo_disk_size ?o) ?k = (Inr (), ?k)" for base out by (simp add: demo_steps_vm)
    have b: "bind_gpus ?N [] (vo_gpus ?o) ?k = (Inr (), k2)" using k2 by simp
    have st: "start_qemu ?N (build_qemu_command ?N ?o ?d k2) ?d k2 = (Inr (Inr 7), k2)" using demo_start [of True ?o ?d k2] by simp
    show ?thesis using launch_forward [OF demo_steps_vm(3) disk b demo_steps_vm(2) st, where images="''/v''" and now=10]
      by (simp add: demo_steps_vm demo_boot_def Let_def)
  qed
  moreover have "demo_boot\<lparr>qm_os := ?k\<rparr> = demo_boot" by simp
  ultimately have "create_vm ?N ''/i'' ''/v'' 10 ?o demo_boot = (Inr ?vm, \<lparr>qm_vms = [(5, ?vm)], qm_os = k2\<rparr>)"
    by (simp add: create_vm_def demo_steps_vm Let_def vm_exists_def) (simp add: demo_boot_def)
  moreover have "vx_gpus ?vm = [''a'']" by (simp add: new_instance_def Let_def)
  ultimately show ?thesis by blast
qed

lemma gpus_stay_with_vm_witness:
  "\<exists>s vm. get_vm 5 s = Some vm \<and> is_bound_to_vfio (demo_node True) ''b'' (qm_os s)"
proof -
  obtain vm k where c: "create_vm (demo_node True) ''/i'' ''/v'' 10 (demo_vm [''a'']) demo_boot = (Inr vm, \<lparr>qm_vms = [(5, vm)], qm_os = k\<rparr>)"
      and gpus: "vx_gpus vm = [''a'']" using demo_created by blast
  let ?s = "\<lparr>qm_vms = [(5, vm)], qm_os = k\<rparr>"
  have "vm_reach (demo_node True) ''/i'' ''/v'' demo_boot" by (rule vm_reach.start) (simp add: demo_boot_def)
  moreover have "separate (demo_node True) (demo_vm [''a'']) demo_boot" by (simp add: separate_def get_vm_def demo_boot_def)
  ultimately have r: "vm_reach (demo_node True) ''/i'' ''/v'' ?s" using vm_reach.created c by (metis snd_conv)
  have g: "get_vm 5 ?s = Some vm" "''b'' \<in> vm_passthrough (demo_node True) vm ?s"
    by (simp_all add: get_vm_def vm_passthrough_def gpus demo_passthrough)
  from gpus_stay_with_vm [OF demo_node_ok(1) r g] g(1) show ?thesis by blast
qed

text \<open>C34: a stop gives back every device of the groups of the VM that lets go (its unbind write is not
  refused, and does not hang with the driver still there; the override can be cleared), also if others of
  the group do not, and whoever else has the device; the stop is a success either way.  Every other VM
  keeps its devices, except those in the same groups.\<close>

theorem stop_releases_group:
  assumes "vm_node_releases_ok N" "get_vm i s = Some vm" "stop_vm N timeout i s = (ok, s')"
  shows "ok \<and> get_vm i s' = None \<and> (\<forall>d \<in> vm_passthrough N vm s. lets_go N d \<longrightarrow> \<not> is_bound_to_vfio N d (qm_os s')) \<and>
    (\<forall>j vm'. j \<noteq> i \<longrightarrow> get_vm j s = Some vm' \<longrightarrow> get_vm j s' = Some vm' \<and>
       (\<forall>d \<in> vm_passthrough N vm' s - vm_passthrough N vm s. is_bound_to_vfio N d (qm_os s') = is_bound_to_vfio N d (qm_os s)))"
proof -
  have R: "vm_node_releases N" and K: "vm_node N" using assms(1) by (simp_all add: vm_node_releases_ok_def vm_node_releases.axioms(1))
  define k where "k = shut_down N vm timeout (qm_os s)"
  have t: "touches N {} (qm_os s) k" unfolding k_def by (rule vm_node.shut_down_touches [OF K])
  let ?k2 = "unbind_gpus N [] (vx_gpus vm) k"
  have s': "ok" "s' = \<lparr>qm_vms = AList.delete i (qm_vms s), qm_os = os_unlink N (vx_qmp vm) ?k2\<rparr>"
    using assms(2,3) by (auto simp: stop_vm_def cleanup_vm_def get_vm_def k_def)
  have p: "passthrough N (vx_gpus vm) k = vm_passthrough N vm s" using passthrough_touches [OF t] by (simp add: vm_passthrough_def)
  note u = vm_node.unlink_touches [OF K, of ?k2 "vx_qmp vm"]
  have free: "\<forall>d \<in> vm_passthrough N vm s. lets_go N d \<longrightarrow> \<not> is_bound_to_vfio N d (qm_os s')"
    using vm_node_releases.unbind_gpus_frees [OF R, of "[]" k "vx_gpus vm"] p touches_bound [OF u] s'(2) by simp
  have t3: "touches N (vm_passthrough N vm s) (qm_os s) (qm_os s')"
    using touches_step [OF touches_step [OF touches_none [OF t] vm_node.unbind_gpus_touches [OF K, of "vx_gpus vm" k "[]", unfolded p]]
        touches_none [OF u]] s'(2) by simp
  have others: "is_bound_to_vfio N d (qm_os s') = is_bound_to_vfio N d (qm_os s)" if "d \<notin> vm_passthrough N vm s" for d
    using touches_bound [OF t3 that] .
  have "get_vm j s' = (if j = i then None else get_vm j s)" for j using s'(2) by (simp add: get_vm_def get_delete)
  then show ?thesis using s'(1) free others by simp
qed

text \<open>In the small node: two VMs that share a group, and the first of them stops.\<close>

lemma demo_lets_go: "lets_go (demo_node b) ''b''"
proof -
  have "pc_write (demo_node b) (pci_path ''b'' ''driver/unbind'') ''b'' k =
      (Written, k\<lparr>do_drivers := AList.delete ''b'' (do_drivers k)\<rparr>)" for k by (simp add: demo_write_def)
  then show ?thesis by (simp add: lets_go_def demo_override demo_devices_def)
qed

definition demo_shared :: "demo_os qemu" where
  "demo_shared = (let v = new_instance (demo_vm [''a'']) [] [] 7 10 in
     \<lparr>qm_vms = [(5, v), (6, v\<lparr>vx_task_id := 6, vx_gpus := [''b'']\<rparr>)],
      qm_os = \<lparr>do_drivers = [(''a'', ''vfio-pci''), (''b'', ''vfio-pci''), (''c'', ''nvidia'')], do_override = [''a'', ''b'']\<rparr>\<rparr>)"

lemma stop_releases_group_witness:
  "is_bound_to_vfio (demo_node True) ''b'' (qm_os demo_shared) \<and>
   (\<exists>vm. get_vm 6 (snd (stop_vm (demo_node True) 30 5 demo_shared)) = Some vm \<and> vx_gpus vm = [''b'']) \<and>
   \<not> is_bound_to_vfio (demo_node True) ''b'' (qm_os (snd (stop_vm (demo_node True) 30 5 demo_shared)))"
proof -
  obtain vm vm' where g: "get_vm 5 demo_shared = Some vm" "vx_gpus vm = [''a'']" "get_vm 6 demo_shared = Some vm'" "vx_gpus vm' = [''b'']"
    by (simp add: demo_shared_def get_vm_def Let_def)
  have "''b'' \<in> vm_passthrough (demo_node True) vm demo_shared" by (simp add: vm_passthrough_def g demo_passthrough)
  moreover have "is_bound_to_vfio (demo_node True) ''b'' (qm_os demo_shared)"
    by (simp add: is_bound_to_vfio_def demo_shared_def Let_def demo_devices_def)
  moreover obtain ok s' where st: "stop_vm (demo_node True) 30 5 demo_shared = (ok, s')" by force
  note stop_releases_group [OF demo_node_ok(2) g(1) st] demo_lets_go [of True]
  ultimately show ?thesis using g(3,4) st by auto
qed

text \<open>C38: a QEMU that does not start keeps the cards.  The failure is a \<^verbatim>\<open>VMCreationError\<close>, which \<^verbatim>\<open>create_vm\<close>
  raises again before its clean-up: the VM is in no book, its devices are on \<^verbatim>\<open>vfio-pci\<close>, and a stop finds
  nothing to do.\<close>

theorem failed_start_strands_gpus:
  assumes "vm_node_ok N" "\<not> vm_exists (vo_task_id o') s"
    and "d = vm_instance_dir dir (vo_task_id o')" "k0 = os_makedirs N ''/run/kohakuriver/vm'' (os_makedirs N d (qm_os s))"
    and "os_exists N (path_join images (vo_image o' @ ''.qcow2'')) k0"
    and "create_overlay_disk N (path_join images (vo_image o' @ ''.qcow2'')) (vm_root_disk_path d) (vo_disk_size o') k0 = (Inr u1, k1)"
    and "bind_gpus N [] (vo_gpus o') k1 = (Inr u2, k2)"
    and "os_make_iso N (vm_cloud_init_path d) (cloud_init_of o' (if vo_gpus o' \<noteq> [] then os_driver_version N k1 else None)) k2 = (Inr u3, k3)"
    and "os_run N (build_qemu_command N o' d k3) k3 = (Some (c, err), k4)" "c \<noteq> 0"
  shows "\<exists>m s'. create_vm N dir images now o' s = (Inl (VMCreationError m), s') \<and> \<not> vm_exists (vo_task_id o') s' \<and>
    (\<forall>x \<in> passthrough N (vo_gpus o') (qm_os s). is_bound_to_vfio N x (qm_os s')) \<and>
    stop_vm N timeout (vo_task_id o') s' = (False, s')"
proof -
  have K: "vm_node N" using assms(1) by (simp add: vm_node_ok_def)
  let ?s1 = "s\<lparr>qm_os := k0\<rparr>"
  obtain m where st: "start_qemu N (build_qemu_command N o' d k3) d k3 = (Inr (Inl m), k4)"
    using assms(9,10) by (simp add: start_qemu_def)
  have os1: "qm_os ?s1 = k0" by simp
  have l: "launch_vm N images now o' d ?s1 = (Inl (vm_creation_error (vo_task_id o') m), s\<lparr>qm_os := k4\<rparr>)"
    using launch_forward [of N images o' ?s1 d, unfolded os1, OF assms(5,6,7,8) st] by simp
  have c: "create_vm N dir images now o' s = (Inl (vm_creation_error (vo_task_id o') m), s\<lparr>qm_os := k4\<rparr>)"
    using assms(2) l by (simp add: create_vm_def Let_def assms(3,4) [symmetric] vm_creation_error_def)
  have t0: "touches N {} (qm_os s) k0"
    using touches_step [OF vm_node.makedirs_touches [OF K] vm_node.makedirs_touches [OF K]] by (simp add: assms(4))
  have t: "touches N {} (qm_os s) k1" using touches_step [OF t0 vm_node.disk_grows [OF K assms(6)]] .
  have iso: "touches N {} k2 k3" using vm_node.iso_touches [OF K, of k2] assms(8) by (metis snd_conv)
  have late: "touches N {} k2 k4" using touches_step [OF iso vm_node.start_qemu_touches [OF K st]] .
  have "\<forall>x \<in> passthrough N (vo_gpus o') (qm_os s). is_bound_to_vfio N x k4"
    using vm_node.bind_gpus_binds [OF K assms(7)] passthrough_touches [OF t] touches_bound [OF late] by simp
  moreover have "\<not> vm_exists (vo_task_id o') (s\<lparr>qm_os := k4\<rparr>)" using assms(2) by (simp add: vm_exists_def)
  moreover from this have "stop_vm N timeout (vo_task_id o') (s\<lparr>qm_os := k4\<rparr>) = (False, s\<lparr>qm_os := k4\<rparr>)"
    by (simp add: stop_vm_def get_vm_def vm_exists_def map_of_eq_None_iff split: option.splits)
  ultimately show ?thesis using c by (simp add: vm_creation_error_def)
qed

lemma failed_start_strands_gpus_witness:
  "\<exists>m s'. create_vm (demo_node False) ''/i'' ''/v'' 10 (demo_vm [''a'']) demo_boot = (Inl (VMCreationError m), s') \<and>
     is_bound_to_vfio (demo_node False) ''b'' (qm_os s') \<and> stop_vm (demo_node False) 30 5 s' = (False, s')"
proof -
  let ?N = "demo_node False" and ?o = "demo_vm [''a'']"
  let ?k0 = "os_makedirs ?N ''/run/kohakuriver/vm'' (os_makedirs ?N (vm_instance_dir ''/i'' (vo_task_id ?o)) (qm_os demo_boot))"
  obtain k2 where k2: "bind_gpus ?N [] (vo_gpus ?o) ?k0 = (Inr (), k2)" using demo_binds by auto
  have new: "\<not> vm_exists (vo_task_id ?o) demo_boot" by (simp add: vm_exists_def demo_boot_def)
  have run: "os_run ?N (build_qemu_command ?N o' d k) k = (Some (1, ''''), k)" for o' d k
    by (simp add: demo_node_def build_qemu_command_def)
  have disk: "create_overlay_disk ?N base out (vo_disk_size ?o) k = (Inr (), k)" for base out k by (simp add: demo_steps_vm)
  have one: "(1::int) \<noteq> 0" by simp
  from failed_start_strands_gpus [OF demo_node_ok(1) new refl refl demo_steps_vm(3) disk k2 demo_steps_vm(2) run one, of "''/v''" 10 30]
  show ?thesis by (auto simp: demo_passthrough)
qed

text \<open>A restart that fails forgets the VM.  Whatever the reason, the instance is out of the books; the
  store still lists it, and the stop that the host then asks for answers with an error, gives no device
  back, and removes the last record of it.\<close>

theorem failed_restart_forgets_vm:
  assumes "get_vm i (vs_qemu s) = Some vm" "vx_cmd vm \<noteq> []" "vx_task_id vm = i" "restart_vm_vps E i s = (False, s1)"
    and "stored_task (ve_vault E) i (r_store (vs_runner s)) = Some t"
    and "stop_vm_vps_endpoint E i s1 = (r, s2)"
  shows "get_vm i (vs_qemu s1) = None \<and> stored_task (ve_vault E) i (r_store (vs_runner s1)) = Some t \<and>
    r = Inl (HTTPException 500 ''Failed to stop VPS.'') \<and> qm_os (vs_qemu s2) = qm_os (vs_qemu s1) \<and>
    r_store (vs_runner s2) = snd (remove_task (ve_vault E) i (r_store (vs_runner s)))"
proof -
  let ?q = "vs_qemu s" and ?N = "ve_node E" and ?vm = "vm\<lparr>vx_ssh_ready := False\<rparr>"
  let ?q1 = "?q\<lparr>qm_vms := AList.update i ?vm (qm_vms ?q)\<rparr>"
  have "restart_vm ?N STOP_TIMEOUT i ?q1 =
      relaunch_vm ?N ?vm \<lparr>qm_vms = AList.delete i (qm_vms ?q), qm_os = shut_down ?N ?vm STOP_TIMEOUT (qm_os ?q)\<rparr>"
    using assms(2) by (simp add: restart_vm_def get_vm_def get_update Let_def qemu_record delete_update_same)
  then obtain r0 q' where q': "relaunch_vm ?N ?vm \<lparr>qm_vms = AList.delete i (qm_vms ?q), qm_os = shut_down ?N ?vm STOP_TIMEOUT (qm_os ?q)\<rparr> = (r0, q')"
      and rs: "restart_vm ?N STOP_TIMEOUT i ?q1 = (r0, q')" by force
  have s1: "r0 \<noteq> Inr True" "s1 = s\<lparr>vs_qemu := q'\<rparr>"
    using assms(1,4) rs by (auto simp: restart_vm_vps_def Let_def split: sum.splits bool.splits)
  have "get_vm i q' = None"
    using q' s1(1) unfolding relaunch_vm_def Let_def
    by (auto simp: get_vm_def get_delete split: prod.splits sum.splits if_splits)
  then have gone: "get_vm i (vs_qemu s1) = None" by (simp add: s1(2))
  have store: "stored_task (ve_vault E) i (r_store (vs_runner s1)) = Some t" using assms(5) by (simp add: s1(2))
  have stop: "stop_vm ?N STOP_TIMEOUT i (vs_qemu s1) = (False, vs_qemu s1)" using gone by (simp add: stop_vm_def)
  show ?thesis
    using assms(6) gone store stop
    by (auto simp: stop_vm_vps_endpoint_def stop_vm_vps_def Let_def stop_ssh_proxy_def remove_vm_state_file_def s1(2))
qed

definition demo_vm_env :: "(demo_os, string list, (string, task_state) dict) vm_env" where
  "demo_vm_env = \<lparr>ve_node = demo_node False, ve_net = demo_taps, ve_hashes = demo_hashes, ve_cfg = demo_runner,
     ve_instances = ''/i'', ve_images = ''/v'', ve_capability = \<lparr>cap_capable = True, cap_gpus = [], cap_errors = [], cap_warnings = []\<rparr>,
     ve_vault = dict_vault, ve_runner_key = None\<rparr>"

definition demo_service :: "(demo_os, string list, (string, task_state) dict) vm_service" where
  "demo_service = \<lparr>vs_qemu = \<lparr>qm_vms = [(5, new_instance (demo_vm []) [] [''qemu-system-x86_64''] 7 10)], qm_os = qm_os demo_boot\<rparr>,
     vs_net = demo_net False [], vs_runner = idle_runner\<lparr>r_store := demo_stored\<rparr>, vs_proxies = [], vs_files = [], vs_watch = []\<rparr>"

lemma failed_restart_forgets_vm_witness:
  "\<exists>s1 s2. restart_vm_vps demo_vm_env 5 demo_service = (False, s1) \<and> get_vm 5 (vs_qemu s1) = None \<and>
     stop_vm_vps_endpoint demo_vm_env 5 s1 = (Inl (HTTPException 500 ''Failed to stop VPS.''), s2)"
proof -
  let ?vm = "new_instance (demo_vm []) [] [''qemu-system-x86_64''] 7 10"
  have g: "get_vm 5 (vs_qemu demo_service) = Some ?vm" by (simp add: demo_service_def get_vm_def)
  have cmd: "vx_cmd ?vm \<noteq> []" "vx_task_id ?vm = 5" "vx_gpus ?vm = []" by (simp_all add: new_instance_def Let_def)
  have start: "start_qemu (demo_node False) [''qemu-system-x86_64''] d k = (Inr (Inl ''QEMU failed (exit code 1)''), k)" for d k
    using demo_start [of False] by (simp add: start_qemu_def demo_node_def build_qemu_command_def)
  have vx: "vx_cmd ?vm = [''qemu-system-x86_64'']" by (simp add: new_instance_def Let_def)
  have fails: "\<exists>s1. restart_vm_vps demo_vm_env 5 demo_service = (False, s1)"
    using g by (simp add: restart_vm_vps_def restart_vm_def get_vm_def Let_def vx relaunch_vm_def demo_vm_env_def start demo_service_def)
  then obtain s1 where s1: "restart_vm_vps demo_vm_env 5 demo_service = (False, s1)" ..
  obtain t where t: "stored_task (ve_vault demo_vm_env) 5 (r_store (vs_runner demo_service)) = Some t"
    using demo_ids by (auto simp: demo_vm_env_def demo_service_def)
  obtain r s2 where s2: "stop_vm_vps_endpoint demo_vm_env 5 s1 = (r, s2)" by force
  from failed_restart_forgets_vm [OF g cmd(1,2) s1 t s2] s1 s2 show ?thesis by blast
qed

end
