(* ===== verification/Runner_Startup.thy ===== *)
theory Runner_Startup
  imports Vm_Vps Docker_Naming
begin

text \<open>
  What a runner does with the tasks of its previous life (\<^verbatim>\<open>runner/background/startup_check.py\<close>): the state
  of VMs is restored from disk, VMs that still run are taken over and dead ones cleaned up, the containers
  of the store are compared with those of Docker, and containers that nobody knows are taken over or
  removed.  \<open>containers\<close> are the names of the running containers, \<open>port_of\<close> is what \<^verbatim>\<open>docker port\<close> prints.
\<close>

section \<open>Ports\<close>

text \<open>The first line of the answer is \<^verbatim>\<open>address:port\<close>; anything else counts as no port.\<close>

definition find_ssh_port :: "string option \<Rightarrow> int" where
  "find_ssh_port out =
     (case out of
        None \<Rightarrow> 0
      | Some text' \<Rightarrow>
          if text' = [] then 0
          else (case split_on CHR '':'' (strip (takeWhile (\<lambda>c. c \<noteq> CHR 0x0A) text')) of
                  _ # p # _ \<Rightarrow> (case int_of_str 10 p of None \<Rightarrow> 0 | Some n \<Rightarrow> n)
                | _ \<Rightarrow> 0))"

section \<open>VMs\<close>

definition no_vm_state :: vm_state where
  "no_vm_state = \<lparr>vm_gpu_addrs = [], vm_taps = [], vm_tap = '''', vm_addr = '''', vm_gateway = '''', vm_mac = '''', vm_bridge = '''',
     vm_mode = ''standard'', vm_prefix = 24, vm_ssh_port = None, vm_ifaces = []\<rparr>"

definition vm_data :: "task_state \<Rightarrow> vm_state" where
  "vm_data t = (case ts_vm t of None \<Rightarrow> no_vm_state | Some d \<Rightarrow> d)"

text \<open>\<^verbatim>\<open>_restore_vm_state_from_disk\<close>: the files of the instance directories, for tasks the store lost.\<close>

definition restore_one :: "('s, task_state) kvault \<Rightarrow> int \<times> task_state \<Rightarrow> 's \<Rightarrow> 's" where
  "restore_one V f st =
     (case f of (i, t) \<Rightarrow> if stored_task V i st \<noteq> None then st else store_setitem V (str_of_int i) t st)"

definition restore_vm_state_from_disk :: "('k, 'n, 's) vm_env \<Rightarrow> ('k, 'n, 's) vm_service \<Rightarrow> ('k, 'n, 's) vm_service" where
  "restore_vm_state_from_disk E s =
     (let r = vs_runner s in s\<lparr>vs_runner := r\<lparr>r_store := fold (restore_one (ve_vault E)) (vs_files s) (r_store r)\<rparr>\<rparr>)"

definition stopped_update :: "int \<Rightarrow> string \<Rightarrow> status_update" where
  "stopped_update now m =
     (bare_update ''stopped'')\<lparr>su_exit_code := Some (-1), su_message := Some m, su_completed_at := Some now\<rparr>"

definition forget_task :: "('k, 'n, 's) vm_env \<Rightarrow> int \<Rightarrow> ('k, 'n, 's) vm_service \<Rightarrow> ('k, 'n, 's) vm_service" where
  "forget_task E i s = (let r = vs_runner s in s\<lparr>vs_runner := r\<lparr>r_store := snd (remove_task (ve_vault E) i (r_store r))\<rparr>\<rparr>)"

text \<open>\<^verbatim>\<open>ip link del\<close> has the effect of the manager's own deletion of a device.\<close>

definition cleanup_dead_vm :: "('k, 'n, 's) vm_env \<Rightarrow> int \<Rightarrow> int \<Rightarrow> task_state \<Rightarrow> ('k, 'n, 's) vm_service \<Rightarrow> ('k, 'n, 's) vm_service" where
  "cleanup_dead_vm E now i t s =
     (let d = vm_data t; N = ve_node E; s1 = stop_ssh_proxy i s;
          taps = filter (\<lambda>x. x \<noteq> []) (if vm_taps d \<noteq> [] then vm_taps d else [vm_tap d]);
          s2 = s1\<lparr>vs_qemu := (vs_qemu s1)\<lparr>qm_os := os_unlink N (vm_qmp_socket_path i) (unbind_gpus N [] (vm_gpu_addrs d) (qm_os (vs_qemu s1)))\<rparr>,
                  vs_net := fold (drop_tap (ve_net E)) taps (vs_net s1)\<rparr>
      in remove_vm_state_file i (forget_task E i
           (report_vm i (stopped_update now ''VM not running on runner startup (runner or machine restarted).'') s2)))"

text \<open>Where the recovery of a VM may raise: reading its pid file, rebuilding its network from the stored
  state, or opening the port of its proxy (\<^verbatim>\<open>OSError\<close> is caught there, an invalid port is not).\<close>

datatype vm_trouble = PidUnreadable | StateUnusable | ProxyRaised

text \<open>The flag of the result: nothing was raised.\<close>

definition readopt_running_vm ::
  "('k, 'n, 's) vm_env \<Rightarrow> (int \<Rightarrow> bool) \<Rightarrow> vm_trouble option \<Rightarrow> int \<Rightarrow> int \<Rightarrow> task_state
   \<Rightarrow> ('k, 'n, 's) vm_service \<Rightarrow> bool \<times> ('k, 'n, 's) vm_service" where
  "readopt_running_vm E listens trouble now i t s =
     (let d = vm_data t in
      case recover_vm (ve_node E) (ve_instances E) now i
             \<lparr>rv_ip = vm_addr d, rv_tap = vm_tap d, rv_taps = vm_taps d, rv_gpus = vm_gpu_addrs d\<rparr> (vs_qemu s) of
        (None, q) \<Rightarrow> (True, cleanup_dead_vm E now i t (s\<lparr>vs_qemu := q\<rparr>))
      | (Some vm, q) \<Rightarrow>
          if trouble = Some StateUnusable then (False, s\<lparr>vs_qemu := q\<rparr>)
          else
          let s1 = s\<lparr>vs_qemu := q, vs_net := recover_network_allocation i d (vs_net s)\<rparr>;
              s2 = (case vm_ssh_port d of
                      Some p \<Rightarrow> if p \<noteq> 0 \<and> vx_ip vm \<noteq> [] then snd (start_ssh_proxy (listens p) i p (vx_ip vm) s1) else s1
                    | None \<Rightarrow> s1)
          in if trouble = Some ProxyRaised then (False, s1)
             else (True, report_vm i ((bare_update ''running'')\<lparr>su_message := Some ''VM recovered after runner restart''\<rparr>) s2))"

definition vm_alive :: "('k, 'n, 's) vm_env \<Rightarrow> int \<Rightarrow> 'k \<Rightarrow> bool" where
  "vm_alive E i k =
     (case Option.bind (os_text (ve_node E) (vm_pidfile_path (vm_instance_dir (ve_instances E) i)) k) (int_of_str 10) of
        None \<Rightarrow> False
      | Some p \<Rightarrow> p \<noteq> 0 \<and> os_alive (ve_node E) p k)"

definition recover_vm_task ::
  "('k, 'n, 's) vm_env \<Rightarrow> (int \<Rightarrow> bool) \<Rightarrow> vm_trouble option \<Rightarrow> int \<Rightarrow> int \<Rightarrow> task_state
   \<Rightarrow> ('k, 'n, 's) vm_service \<Rightarrow> bool \<times> ('k, 'n, 's) vm_service" where
  "recover_vm_task E listens trouble now i t s =
     (if trouble = Some PidUnreadable then (False, s)
      else if vm_alive E i (qm_os (vs_qemu s)) then readopt_running_vm E listens trouble now i t s
      else (True, cleanup_dead_vm E now i t s))"

text \<open>The turn of one VM in the check: if its recovery raises, the VM is cleaned up as a dead one, running or
  not; if that raises as well, it is dropped from the store and nothing is reported.\<close>

definition check_vm ::
  "('k, 'n, 's) vm_env \<Rightarrow> (int \<Rightarrow> bool) \<Rightarrow> (int \<Rightarrow> vm_trouble option) \<Rightarrow> (int \<Rightarrow> bool) \<Rightarrow> int \<Rightarrow> int \<times> task_state
   \<Rightarrow> ('k, 'n, 's) vm_service \<Rightarrow> ('k, 'n, 's) vm_service" where
  "check_vm E listens troubles cleans now it s =
     (case it of (i, t) \<Rightarrow>
        (case recover_vm_task E listens (troubles i) now i t s of
           (True, s') \<Rightarrow> s'
         | (False, s') \<Rightarrow> if cleans i then cleanup_dead_vm E now i t s' else forget_task E i (stop_ssh_proxy i s')))"

section \<open>Containers\<close>

definition recovered_update :: "int \<Rightarrow> status_update" where
  "recovered_update port =
     (bare_update ''running'')\<lparr>su_message := Some (''VPS recovered after runner restart'' @ (if port > 0 then '''' else '' (TTY-only, no SSH)'')),
        su_ssh_port := (if port > 0 then Some port else None)\<rparr>"

definition recover_container ::
  "('k, 'n, 's) vm_env \<Rightarrow> string list \<Rightarrow> (string \<Rightarrow> string option) \<Rightarrow> int \<Rightarrow> int \<times> task_state
   \<Rightarrow> ('k, 'n, 's) vm_service \<Rightarrow> ('k, 'n, 's) vm_service" where
  "recover_container E containers port_of now it s =
     (case it of (i, t) \<Rightarrow>
        if \<not> (is_kohakuriver_container (ts_container t) \<and> ts_container t \<in> set containers)
        then forget_task E i (report_vm i
               (stopped_update now ''Container not found on runner startup (runner may have restarted).'') s)
        else if startswith (ts_container t) VPS_PREFIX
        then report_vm i (recovered_update (find_ssh_port (port_of (ts_container t)))) s
        else s)"

text \<open>A container without a task: one of a VPS is taken over, any other is stopped and removed.  The names
  of the removed ones are collected.\<close>

definition adopt_orphan ::
  "('k, 'n, 's) vm_env \<Rightarrow> (string \<Rightarrow> string option) \<Rightarrow> string \<Rightarrow> ('k, 'n, 's) vm_service \<times> string list
   \<Rightarrow> ('k, 'n, 's) vm_service \<times> string list" where
  "adopt_orphan E port_of c sr =
     (case sr of (s, removed) \<Rightarrow>
        if \<not> is_kohakuriver_container c then (s, removed)
        else
          case extract_task_id_from_name c of
            None \<Rightarrow> (s, removed)
          | Some i \<Rightarrow>
              if stored_task (ve_vault E) i (r_store (vs_runner s)) \<noteq> None then (s, removed)
              else if startswith c VPS_PREFIX
              then (let r = vs_runner s
                    in (report_vm i (recovered_update (find_ssh_port (port_of c)))
                          (s\<lparr>vs_runner := r\<lparr>r_store := add_task (ve_vault E) i c None None None (r_store r)\<rparr>\<rparr>), removed))
              else (s, removed @ [c]))"

definition is_vm_task :: "task_state \<Rightarrow> bool" where
  "is_vm_task t \<longleftrightarrow> startswith (ts_container t) ''vm-''"

text \<open>\<open>troubles\<close> and \<open>cleans\<close>: which recoveries raise, and whether the clean-up after it goes through.
  \<^verbatim>\<open>int(task_id_str)\<close> for the items of the store; \<open>None\<close> if a key is no number, when the check raises.\<close>

definition tracked_tasks :: "('s, task_state) kvault \<Rightarrow> 's \<Rightarrow> (int \<times> task_state) list option" where
  "tracked_tasks V st =
     (let items = store_items V st; ids = map (int_of_str 10 \<circ> fst) items
      in if None \<in> set ids then None else Some (zip (map the ids) (map snd items)))"

definition startup_check ::
  "('k, 'n, 's) vm_env \<Rightarrow> string list \<Rightarrow> (string \<Rightarrow> string option) \<Rightarrow> (int \<Rightarrow> bool) \<Rightarrow> (int \<Rightarrow> vm_trouble option)
   \<Rightarrow> (int \<Rightarrow> bool) \<Rightarrow> int \<Rightarrow> ('k, 'n, 's) vm_service \<Rightarrow> (('k, 'n, 's) vm_service \<times> string list) option" where
  "startup_check E containers port_of listens troubles cleans now s0 =
     (let s = restore_vm_state_from_disk E s0 in
      case tracked_tasks (ve_vault E) (r_store (vs_runner s)) of
        None \<Rightarrow> None
      | Some tracked \<Rightarrow>
          let s1 = fold (check_vm E listens troubles cleans now) (filter (is_vm_task \<circ> snd) tracked) s;
              s2 = fold (recover_container E containers port_of now) (filter (\<lambda>it. \<not> is_vm_task (snd it)) tracked) s1
          in Some (fold (adopt_orphan E port_of) containers (s2, [])))"

end
