(* ===== verification/Startup_Properties.thy ===== *)
theory Startup_Properties
  imports Runner_Startup Gpu_Properties
begin

text \<open>
  After the start-up check the store of a runner lists exactly what runs; what it lost is reported; and the
  command tasks it keeps are never heard of again.
\<close>

section \<open>The store\<close>

text \<open>Giving devices back and removing a socket neither starts nor ends a process.\<close>

definition cleanup_keeps_processes :: "('k, 'n, 's) vm_env \<Rightarrow> bool" where
  "cleanup_keeps_processes E \<longleftrightarrow>
     (\<forall>i p gpus k. vm_alive E i (os_unlink (ve_node E) p (unbind_gpus (ve_node E) [] gpus k)) = vm_alive E i k)"

definition store_of :: "('k, 'n, 's) vm_service \<Rightarrow> 's" where
  "store_of s = r_store (vs_runner s)"

definition os_of :: "('k, 'n, 's) vm_service \<Rightarrow> 'k" where
  "os_of s = qm_os (vs_qemu s)"

text \<open>\<open>lost V P Q xs s s'\<close>: the tasks of \<open>xs\<close> that fail \<open>P\<close> were dropped, and those with \<open>Q\<close> reported as
  stopped; nothing else happened to the store, and no report was lost.\<close>

definition lost :: "('s, task_state) kvault \<Rightarrow> (int \<times> task_state \<Rightarrow> bool) \<Rightarrow> (int \<Rightarrow> bool) \<Rightarrow> (int \<times> task_state) list
    \<Rightarrow> ('k, 'n, 's) vm_service \<Rightarrow> ('k, 'n, 's) vm_service \<Rightarrow> bool" where
  "lost V P Q xs s s' \<longleftrightarrow>
     (\<forall>j. stored_task V j (store_of s') = (if \<exists>t. (j, t) \<in> set xs \<and> \<not> P (j, t) then None else stored_task V j (store_of s))) \<and>
     (\<exists>new. r_reports (vs_runner s') = r_reports (vs_runner s) @ new \<and>
        (\<forall>(j, t) \<in> set xs. \<not> P (j, t) \<and> Q j \<longrightarrow> (\<exists>u. (j, u) \<in> set new \<and> su_status u = ''stopped''))) \<and>
     r_execs (vs_runner s') = r_execs (vs_runner s) \<and> r_creations (vs_runner s') = r_creations (vs_runner s)"

lemma lost_Nil: "lost V P Q [] s s"
  by (simp add: lost_def)

lemma lost_Cons: "lost V P Q [x] s s1 \<Longrightarrow> lost V P Q xs s1 s' \<Longrightarrow> lost V P Q (x # xs) s s'"
  unfolding lost_def by (cases x) (auto split: if_splits; fastforce)

lemma lost_fold:
  assumes "\<And>x s. lost V P Q [x] s (f x s)"
  shows "lost V P Q xs s (fold f xs s)"
  by (induction xs arbitrary: s) (auto intro: lost_Nil lost_Cons [OF assms])

lemma report_vm_fields [simp]:
  "store_of (report_vm i u s) = store_of s" "os_of (report_vm i u s) = os_of s"
  "r_reports (vs_runner (report_vm i u s)) = r_reports (vs_runner s) @ [(i, u)]"
  "r_execs (vs_runner (report_vm i u s)) = r_execs (vs_runner s)" "r_creations (vs_runner (report_vm i u s)) = r_creations (vs_runner s)"
  by (simp_all add: report_vm_def report_status_to_host_def store_of_def os_of_def)

lemma stopped_status [simp]: "su_status (stopped_update now m) = ''stopped''"
  by (simp add: stopped_update_def bare_update_def)

text \<open>What a recovery leaves as it was, when the VM runs; and its report, when nothing was raised.\<close>

definition vm_kept :: "('k, 'n, 's) vm_service \<Rightarrow> ('k, 'n, 's) vm_service \<Rightarrow> bool" where
  "vm_kept s s' \<longleftrightarrow> store_of s' = store_of s \<and> os_of s' = os_of s \<and> r_execs (vs_runner s') = r_execs (vs_runner s) \<and>
     r_creations (vs_runner s') = r_creations (vs_runner s)"

lemma start_ssh_proxy_kept:
  "vm_kept s (snd (start_ssh_proxy ok i p g s)) \<and> r_reports (vs_runner (snd (start_ssh_proxy ok i p g s))) = r_reports (vs_runner s)"
  by (simp add: start_ssh_proxy_def stop_ssh_proxy_def vm_kept_def store_of_def os_of_def Let_def)

lemma one_report: "\<exists>us. rs @ [(i, u)] = rs @ map (Pair i) us"
  by (intro exI [of _ "[u]"]) simp

lemma no_report: "\<exists>us. rs = rs @ map (Pair i) us"
  by (intro exI [of _ "[]"]) simp

lemma readopted:
  assumes "vm_alive E i (os_of s)" "readopt_running_vm E listens trouble now i t s = (ok, s')"
  shows "vm_kept s s' \<and> (ok \<longleftrightarrow> trouble \<noteq> Some StateUnusable \<and> trouble \<noteq> Some ProxyRaised) \<and>
    (\<exists>us. r_reports (vs_runner s') = r_reports (vs_runner s) @ map (Pair i) us)"
proof -
  let ?d = "vm_data t"
  obtain p where p: "Option.bind (os_text (ve_node E) (vm_pidfile_path (vm_instance_dir (ve_instances E) i)) (os_of s)) (int_of_str 10) = Some p"
    "os_alive (ve_node E) p (os_of s)"
    using assms(1) by (auto simp: vm_alive_def split: option.splits)
  obtain vm q where q: "recover_vm (ve_node E) (ve_instances E) now i
       \<lparr>rv_ip = vm_addr ?d, rv_tap = vm_tap ?d, rv_taps = vm_taps ?d, rv_gpus = vm_gpu_addrs ?d\<rparr> (vs_qemu s) = (Some vm, q)"
    "qm_os q = os_of s"
    using p by (simp add: recover_vm_def Let_def os_of_def)
  define s1 where "s1 = s\<lparr>vs_qemu := q, vs_net := recover_network_allocation i ?d (vs_net s)\<rparr>"
  define s2 where "s2 = (case vm_ssh_port ?d of
      Some p \<Rightarrow> if p \<noteq> 0 \<and> vx_ip vm \<noteq> [] then snd (start_ssh_proxy (listens p) i p (vx_ip vm) s1) else s1 | None \<Rightarrow> s1)"
  have s1: "vm_kept s s1" "r_reports (vs_runner s1) = r_reports (vs_runner s)"
    using q(2) by (simp_all add: s1_def vm_kept_def store_of_def os_of_def)
  have "vm_kept s1 s2 \<and> r_reports (vs_runner s2) = r_reports (vs_runner s1)"
    using start_ssh_proxy_kept [of s1] by (auto simp: s2_def vm_kept_def split: option.split)
  with s1 have s2: "vm_kept s s2" "r_reports (vs_runner s2) = r_reports (vs_runner s)" by (simp_all add: vm_kept_def)
  have e: "readopt_running_vm E listens trouble now i t s =
      (if trouble = Some StateUnusable then (False, s\<lparr>vs_qemu := q\<rparr>)
       else if trouble = Some ProxyRaised then (False, s1)
       else (True, report_vm i ((bare_update ''running'')\<lparr>su_message := Some ''VM recovered after runner restart''\<rparr>) s2))"
    unfolding readopt_running_vm_def Let_def q(1) s2_def s1_def by simp
  have s0: "vm_kept s (s\<lparr>vs_qemu := q\<rparr>)" "r_reports (vs_runner (s\<lparr>vs_qemu := q\<rparr>)) = r_reports (vs_runner s)"
    using q(2) by (simp_all add: vm_kept_def store_of_def os_of_def)
  consider "trouble = Some StateUnusable" | "trouble = Some ProxyRaised" | "trouble \<noteq> Some StateUnusable" "trouble \<noteq> Some ProxyRaised" by blast
  then show ?thesis
  proof cases
    case 1
    with assms(2) e have "ok = False" "s' = s\<lparr>vs_qemu := q\<rparr>" by simp_all
    with 1 s0 no_report show ?thesis by simp
  next
    case 2
    with assms(2) e have "ok = False" "s' = s1" by simp_all
    with 2 s1 no_report show ?thesis by simp
  next
    case 3
    with assms(2) e have "ok" "s' = report_vm i ((bare_update ''running'')\<lparr>su_message := Some ''VM recovered after runner restart''\<rparr>) s2"
      by simp_all
    with 3 s2 one_report show ?thesis by (simp add: vm_kept_def)
  qed
qed

lemma recovered_vm:
  assumes "recover_vm_task E listens trouble now i t s = (ok, s')"
  shows "(if ok then (if vm_alive E i (os_of s) then trouble = None \<and> vm_kept s s' else s' = cleanup_dead_vm E now i t s)
          else trouble \<noteq> None \<and> vm_kept s s') \<and>
    (ok \<and> \<not> vm_alive E i (os_of s) \<or> (\<exists>us. r_reports (vs_runner s') = r_reports (vs_runner s) @ map (Pair i) us))"
proof (cases "trouble = Some PidUnreadable")
  case True
  then show ?thesis using assms by (auto simp: recover_vm_task_def vm_kept_def)
next
  case False
  show ?thesis
  proof (cases "vm_alive E i (os_of s)")
    case True
    then have r: "readopt_running_vm E listens trouble now i t s = (ok, s')"
      using assms False by (simp add: recover_vm_task_def os_of_def)
    then show ?thesis using readopted [OF True r] False True by (cases trouble rule: option.exhaust; cases "the trouble") auto
  next
    case dead: False
    then show ?thesis using assms False by (simp add: recover_vm_task_def os_of_def)
  qed
qed

text \<open>A VM that runs is taken over unless that raises.\<close>

abbreviation vm_taken :: "('k, 'n, 's) vm_env \<Rightarrow> (int \<Rightarrow> vm_trouble option) \<Rightarrow> 'k \<Rightarrow> int \<times> task_state \<Rightarrow> bool" where
  "vm_taken E troubles k \<equiv> \<lambda>(i, t). troubles i = None \<and> vm_alive E i k"

text \<open>Orphans: a task is added for each container of a VPS.\<close>

definition vps_container :: "int \<Rightarrow> string \<Rightarrow> bool" where
  "vps_container i c \<longleftrightarrow> is_kohakuriver_container c \<and> extract_task_id_from_name c = Some i \<and> startswith c VPS_PREFIX"

definition adopted :: "('s, task_state) kvault \<Rightarrow> string list \<Rightarrow> ('k, 'n, 's) vm_service \<Rightarrow> ('k, 'n, 's) vm_service \<Rightarrow> bool" where
  "adopted V cs s s' \<longleftrightarrow>
     (\<forall>j. stored_task V j (store_of s') = None \<longleftrightarrow> stored_task V j (store_of s) = None \<and> (\<forall>c \<in> set cs. \<not> vps_container j c)) \<and>
     (\<exists>new. r_reports (vs_runner s') = r_reports (vs_runner s) @ new \<and> (\<forall>(i, u) \<in> set new. stored_task V i (store_of s) = None)) \<and>
     r_execs (vs_runner s') = r_execs (vs_runner s) \<and> r_creations (vs_runner s') = r_creations (vs_runner s)"

context task_vault
begin

lemma dead_vm_lost:
  assumes "ve_vault E = V"
  shows "lost V (\<lambda>_. False) Q [(i, t)] s (cleanup_dead_vm E now i t s)"
  using assms
  by (auto simp: lost_def cleanup_dead_vm_def Let_def remove_vm_state_file_def forget_task_def store_of_def report_vm_def
      report_status_to_host_def stop_ssh_proxy_def remove_task_simps)

lemma lost_other: "lost V (\<lambda>_. False) Q [x] s s' \<Longrightarrow> \<not> P x \<Longrightarrow> lost V P Q [x] s s'"
  by (cases x) (simp add: lost_def)

lemma forgotten_vm_lost:
  assumes "ve_vault E = V" "\<not> Q i"
  shows "lost V (\<lambda>_. False) Q [(i, t)] s (forget_task E i (stop_ssh_proxy i s))"
  using assms by (auto simp: lost_def forget_task_def store_of_def stop_ssh_proxy_def remove_task_simps Let_def)

lemma kept_lost:
  assumes "vm_kept s s1" "r_reports (vs_runner s1) = r_reports (vs_runner s) @ us" "lost V P Q xs s1 s'"
  shows "lost V P Q xs s s'"
  using assms unfolding lost_def vm_kept_def by fastforce

lemma check_vm_lost:
  assumes "ve_vault E = V"
  shows "lost V (vm_taken E troubles (os_of s)) (\<lambda>i. troubles i = None \<or> cleans i) [x] s (check_vm E listens troubles cleans now x s)"
proof (cases x)
  case (Pair i t)
  obtain ok s1 where r: "recover_vm_task E listens (troubles i) now i t s = (ok, s1)" by fastforce
  note rec = recovered_vm [OF r]
  let ?Q = "\<lambda>i. troubles i = None \<or> cleans i"
  show ?thesis
  proof (cases ok)
    case True
    show ?thesis
    proof (cases "vm_alive E i (os_of s)")
      case alive: True
      with rec True obtain us where k: "vm_kept s s1" "troubles i = None" "r_reports (vs_runner s1) = r_reports (vs_runner s) @ map (Pair i) us" by auto
      have "lost V (vm_taken E troubles (os_of s)) ?Q [x] s1 s1" using alive k(2) Pair by (simp add: lost_def)
      from kept_lost [OF k(1,3) this] show ?thesis using r True by (simp add: check_vm_def Pair)
    next
      case False
      then have "check_vm E listens troubles cleans now x s = cleanup_dead_vm E now i t s"
        using rec True r by (simp add: check_vm_def Pair)
      then show ?thesis using lost_other [OF dead_vm_lost [OF assms]] False Pair by simp
    qed
  next
    case False
    with rec obtain us where k: "vm_kept s s1" "troubles i \<noteq> None" "r_reports (vs_runner s1) = r_reports (vs_runner s) @ map (Pair i) us" by auto
    have e: "check_vm E listens troubles cleans now x s =
        (if cleans i then cleanup_dead_vm E now i t s1 else forget_task E i (stop_ssh_proxy i s1))"
      using r False by (simp add: check_vm_def Pair)
    have "lost V (\<lambda>_. False) ?Q [(i, t)] s1 (check_vm E listens troubles cleans now x s)"
      unfolding e using dead_vm_lost [OF assms] forgotten_vm_lost [OF assms] k(2) by auto
    from kept_lost [OF k(1,3) lost_other [OF this]] k(2) Pair show ?thesis by simp
  qed
qed

lemma cleanup_dead_alive:
  assumes "cleanup_keeps_processes E"
  shows "vm_alive E j (os_of (cleanup_dead_vm E now i t s)) = vm_alive E j (os_of s)"
  using assms
  by (simp add: cleanup_keeps_processes_def cleanup_dead_vm_def Let_def os_of_def remove_vm_state_file_def forget_task_def
      report_vm_def stop_ssh_proxy_def)

lemma check_vm_alive:
  assumes "cleanup_keeps_processes E"
  shows "vm_alive E j (os_of (check_vm E listens troubles cleans now x s)) = vm_alive E j (os_of s)"
proof (cases x)
  case (Pair i t)
  obtain ok s1 where r: "recover_vm_task E listens (troubles i) now i t s = (ok, s1)" by fastforce
  have "vm_alive E j (os_of s1) = vm_alive E j (os_of s)"
    using recovered_vm [OF r] cleanup_dead_alive [OF assms] by (auto simp: vm_kept_def split: if_splits)
  moreover have "os_of (forget_task E i (stop_ssh_proxy i s1)) = os_of s1"
    by (simp add: os_of_def forget_task_def stop_ssh_proxy_def Let_def)
  ultimately show ?thesis using r cleanup_dead_alive [OF assms] by (simp add: check_vm_def Pair split: bool.split)
qed

lemma check_vms_lost:
  assumes "ve_vault E = V" "cleanup_keeps_processes E"
  shows "lost V (vm_taken E troubles (os_of s)) (\<lambda>i. troubles i = None \<or> cleans i) xs s (fold (check_vm E listens troubles cleans now) xs s)"
proof (induction xs arbitrary: s)
  case (Cons x xs)
  let ?s1 = "check_vm E listens troubles cleans now x s"
  have "vm_taken E troubles (os_of ?s1) = vm_taken E troubles (os_of s)"
    by (simp add: check_vm_alive [OF assms(2)] fun_eq_iff)
  then have "lost V (vm_taken E troubles (os_of s)) (\<lambda>i. troubles i = None \<or> cleans i) xs ?s1 (fold (check_vm E listens troubles cleans now) (x # xs) s)"
    using Cons.IH [of ?s1] by simp
  then show ?case using lost_Cons [OF check_vm_lost [OF assms(1)]] by blast
qed (simp add: lost_Nil)

lemma recover_container_lost:
  assumes "ve_vault E = V"
  shows "lost V (\<lambda>(i, t). is_kohakuriver_container (ts_container t) \<and> ts_container t \<in> set containers) Q [x] s
    (recover_container E containers port_of now x s)"
  using assms
  by (cases x) (auto simp: lost_def recover_container_def forget_task_def store_of_def remove_task_simps report_vm_def report_status_to_host_def)

lemma adopt_one:
  assumes "ve_vault E = V" "adopt_orphan E port_of c (s, removed) = (s', removed')"
  shows "adopted V [c] s s'"
  using assms(2)
  by (auto simp: assms(1) adopted_def adopt_orphan_def vps_container_def store_of_def report_vm_def report_status_to_host_def Let_def add_task_get
      split: if_splits option.splits)

lemma adopted_trans: "adopted V cs s s1 \<Longrightarrow> adopted V ds s1 s' \<Longrightarrow> adopted V (cs @ ds) s s'"
  unfolding adopted_def by (auto; blast)

lemma adopt_all:
  assumes "ve_vault E = V"
  shows "fold (adopt_orphan E port_of) cs (s, removed) = (s', removed') \<Longrightarrow> adopted V cs s s'"
proof (induction cs arbitrary: s removed)
  case (Cons c cs)
  obtain s1 removed1 where 1: "adopt_orphan E port_of c (s, removed) = (s1, removed1)" by force
  then show ?case using adopted_trans [OF adopt_one [OF assms 1] Cons.IH, of removed1] Cons.prems by simp
qed (simp add: adopted_def)

lemma tracked_set:
  assumes "id_keys V st"
  shows "\<exists>tr. tracked_tasks V st = Some tr \<and> set tr = {(i, t). stored_task V i st = Some t}"
proof -
  have keys: "\<exists>i. k = str_of_int i \<and> int_of_str 10 k = Some i" if "k \<in> set (kv_keys V st)" for k
    using that assms set_keys by (force simp: id_keys_def)
  let ?items = "store_items V st"
  have no: "None \<notin> set (map (int_of_str 10 \<circ> fst) ?items)" using keys by (fastforce simp: store_items_def)
  have z: "zip (map the (map (int_of_str 10 \<circ> fst) ?items)) (map snd ?items) = map (\<lambda>k. (the (int_of_str 10 k), the (kv_get V st k))) (kv_keys V st)"
    by (simp add: store_items_def comp_def zip_map_map zip_same_conv_map)
  have "set (map (\<lambda>k. (the (int_of_str 10 k), the (kv_get V st k))) (kv_keys V st)) = {(i, t). stored_task V i st = Some t}"
  proof (intro set_eqI iffI; clarify)
    fix i t
    assume "(i, t) \<in> set (map (\<lambda>k. (the (int_of_str 10 k), the (kv_get V st k))) (kv_keys V st))"
    then obtain k where k: "k \<in> set (kv_keys V st)" "i = the (int_of_str 10 k)" "t = the (kv_get V st k)" by auto
    with keys [OF k(1)] have "k = str_of_int i" by auto
    then show "stored_task V i st = Some t" using k set_keys by (auto simp: stored_task_def store_get_def)
  next
    fix i t
    assume "stored_task V i st = Some t"
    then have g: "kv_get V st (str_of_int i) = Some t" by (simp add: stored_task_def store_get_def split: option.splits)
    then have "str_of_int i \<in> set (kv_keys V st)" using set_keys by simp
    then show "(i, t) \<in> set (map (\<lambda>k. (the (int_of_str 10 k), the (kv_get V st k))) (kv_keys V st))" using g by force
  qed
  then show ?thesis using no z by (simp add: tracked_tasks_def Let_def)
qed

lemma restore_id_keys: "id_keys V st \<Longrightarrow> id_keys V (fold (restore_one V) fs st)"
  by (induction fs arbitrary: st) (auto simp: restore_one_def id_keys_put split: prod.splits)

end

section \<open>The check\<close>

text \<open>What of a tracked task runs: its VM, or its container; and what the check takes over of it.\<close>

definition still_runs :: "('k, 'n, 's) vm_env \<Rightarrow> string list \<Rightarrow> 'k \<Rightarrow> int \<Rightarrow> task_state \<Rightarrow> bool" where
  "still_runs E containers k i t \<longleftrightarrow>
     (if is_vm_task t then vm_alive E i k else is_kohakuriver_container (ts_container t) \<and> ts_container t \<in> set containers)"

definition taken_over ::
  "('k, 'n, 's) vm_env \<Rightarrow> (int \<Rightarrow> vm_trouble option) \<Rightarrow> string list \<Rightarrow> 'k \<Rightarrow> int \<Rightarrow> task_state \<Rightarrow> bool" where
  "taken_over E troubles containers k i t \<longleftrightarrow> still_runs E containers k i t \<and> (is_vm_task t \<longrightarrow> troubles i = None)"

definition restored_store :: "('k, 'n, 's) vm_env \<Rightarrow> ('k, 'n, 's) vm_service \<Rightarrow> 's" where
  "restored_store E s = store_of (restore_vm_state_from_disk E s)"

lemma check_steps:
  assumes "kvault_ok (ve_vault E)" "id_keys (ve_vault E) (store_of s)" "cleanup_keeps_processes E"
    and "startup_check E containers port_of listens troubles cleans now s = Some (s', removed)"
  shows "\<forall>j. stored_task (ve_vault E) j (store_of s') = None \<longleftrightarrow>
      (\<forall>t. stored_task (ve_vault E) j (restored_store E s) = Some t \<longrightarrow> \<not> taken_over E troubles containers (os_of s) j t) \<and>
      (\<forall>c \<in> set containers. \<not> vps_container j c)"
    and "\<exists>new. r_reports (vs_runner s') = r_reports (vs_runner s) @ new \<and>
      (\<forall>j t. stored_task (ve_vault E) j (restored_store E s) = Some t \<longrightarrow> \<not> taken_over E troubles containers (os_of s) j t \<and> (is_vm_task t \<longrightarrow> troubles j = None \<or> cleans j) \<longrightarrow>
         (\<exists>u. (j, u) \<in> set new \<and> su_status u = ''stopped''))"
    and "r_execs (vs_runner s') = r_execs (vs_runner s)" "r_creations (vs_runner s') = r_creations (vs_runner s)"
proof -
  let ?V = "ve_vault E" and ?s0 = "restore_vm_state_from_disk E s"
  have V: "task_vault ?V" using assms(1) by (rule task_vault_of)
  have keys: "id_keys ?V (store_of ?s0)"
    using task_vault.restore_id_keys [OF V assms(2)] by (simp add: restore_vm_state_from_disk_def Let_def store_of_def)
  have s0: "os_of ?s0 = os_of s" "r_reports (vs_runner ?s0) = r_reports (vs_runner s)"
    "r_execs (vs_runner ?s0) = r_execs (vs_runner s)" "r_creations (vs_runner ?s0) = r_creations (vs_runner s)"
    by (simp_all add: restore_vm_state_from_disk_def Let_def os_of_def)
  obtain tr where tr: "tracked_tasks ?V (store_of ?s0) = Some tr" "set tr = {(i, t). stored_task ?V i (store_of ?s0) = Some t}"
    using task_vault.tracked_set [OF V keys] by blast
  let ?vms = "filter (is_vm_task \<circ> snd) tr" and ?cs = "filter (\<lambda>it. \<not> is_vm_task (snd it)) tr"
  define s1 where "s1 = fold (check_vm E listens troubles cleans now) ?vms ?s0"
  define s2 where "s2 = fold (recover_container E containers port_of now) ?cs s1"
  have l1: "lost ?V (vm_taken E troubles (os_of s)) (\<lambda>i. troubles i = None \<or> cleans i) ?vms ?s0 s1"
    using task_vault.check_vms_lost [OF V refl assms(3), where xs = ?vms and s = ?s0 and troubles = troubles and cleans = cleans and listens = listens and now = now]
    unfolding s1_def s0 .
  have l2: "lost ?V (\<lambda>(i, t). is_kohakuriver_container (ts_container t) \<and> ts_container t \<in> set containers) (\<lambda>_. True) ?cs s1 s2"
    unfolding s2_def by (rule lost_fold) (rule task_vault.recover_container_lost [OF V refl])
  have f: "fold (adopt_orphan E port_of) containers (s2, []) = (s', removed)"
    using assms(4) tr(1) by (simp add: startup_check_def Let_def store_of_def s1_def s2_def)
  note a = task_vault.adopt_all [OF V refl f]
  have st2: "stored_task ?V j (store_of s2) = None \<longleftrightarrow>
      (\<forall>t. stored_task ?V j (restored_store E s) = Some t \<longrightarrow> \<not> taken_over E troubles containers (os_of s) j t)" for j
  proof (cases "stored_task ?V j (store_of ?s0)")
    case None
    then show ?thesis using l1 l2 by (simp add: lost_def restored_store_def)
  next
    case (Some t)
    then have mem: "(j, t') \<in> set tr \<longleftrightarrow> t' = t" for t' using tr(2) by auto
    show ?thesis
      using l1 l2 Some by (auto simp: lost_def restored_store_def still_runs_def taken_over_def mem)
  qed
  show "\<forall>j. stored_task ?V j (store_of s') = None \<longleftrightarrow>
      (\<forall>t. stored_task ?V j (restored_store E s) = Some t \<longrightarrow> \<not> taken_over E troubles containers (os_of s) j t) \<and>
      (\<forall>c \<in> set containers. \<not> vps_container j c)"
    using a st2 by (simp add: adopted_def)
  obtain n1 n2 n3 where n: "r_reports (vs_runner s') = r_reports (vs_runner s) @ n1 @ n2 @ n3"
      "\<forall>(j, t) \<in> set ?vms. \<not> vm_taken E troubles (os_of s) (j, t) \<and> (troubles j = None \<or> cleans j) \<longrightarrow> (\<exists>u. (j, u) \<in> set n1 \<and> su_status u = ''stopped'')"
      "\<forall>(j, t) \<in> set ?cs. \<not> (is_kohakuriver_container (ts_container t) \<and> ts_container t \<in> set containers) \<longrightarrow>
         (\<exists>u. (j, u) \<in> set n2 \<and> su_status u = ''stopped'')"
    using l1 l2 a s0(2) unfolding lost_def adopted_def by (auto simp: case_prod_beta)
  show "\<exists>new. r_reports (vs_runner s') = r_reports (vs_runner s) @ new \<and>
      (\<forall>j t. stored_task ?V j (restored_store E s) = Some t \<longrightarrow> \<not> taken_over E troubles containers (os_of s) j t \<and> (is_vm_task t \<longrightarrow> troubles j = None \<or> cleans j) \<longrightarrow>
         (\<exists>u. (j, u) \<in> set new \<and> su_status u = ''stopped''))"
  proof (rule exI [of _ "n1 @ n2 @ n3"], intro conjI allI impI)
    show "r_reports (vs_runner s') = r_reports (vs_runner s) @ n1 @ n2 @ n3" by (rule n(1))
    fix j t assume t: "stored_task ?V j (restored_store E s) = Some t" "\<not> taken_over E troubles containers (os_of s) j t \<and> (is_vm_task t \<longrightarrow> troubles j = None \<or> cleans j)"
    then have "(j, t) \<in> set tr" using tr(2) by (simp add: restored_store_def)
    then show "\<exists>u. (j, u) \<in> set (n1 @ n2 @ n3) \<and> su_status u = ''stopped''"
      using n(2,3) t(2) by (cases "is_vm_task t") (fastforce simp: still_runs_def taken_over_def)+
  qed
  show "r_execs (vs_runner s') = r_execs (vs_runner s)" "r_creations (vs_runner s') = r_creations (vs_runner s)"
    using l1 l2 a s0(3,4) by (simp_all add: lost_def adopted_def)
qed

text \<open>C18: after the start-up check the store lists exactly what runs: the tracked tasks, those restored from
  disk among them, whose VM or container runs, and the VPS containers found.  Every tracked task that does
  not run is reported as stopped.  A VM whose recovery raises counts as not running, even if it does, and if
  its clean-up raises as well, it is not reported.\<close>

theorem startup_reconciles:
  assumes "kvault_ok (ve_vault E)" "id_keys (ve_vault E) (store_of s)" "cleanup_keeps_processes E"
    and "startup_check E containers port_of listens troubles cleans now s = Some (s', removed)"
  shows "(stored_task (ve_vault E) i (store_of s') \<noteq> None \<longleftrightarrow>
       (\<exists>t. stored_task (ve_vault E) i (restored_store E s) = Some t \<and> still_runs E containers (os_of s) i t \<and>
          (is_vm_task t \<longrightarrow> troubles i = None)) \<or>
       (\<exists>c \<in> set containers. vps_container i c)) \<and>
    (\<forall>t. stored_task (ve_vault E) i (restored_store E s) = Some t \<and>
       \<not> (still_runs E containers (os_of s) i t \<and> (is_vm_task t \<longrightarrow> troubles i = None)) \<and>
       (is_vm_task t \<longrightarrow> troubles i = None \<or> cleans i) \<longrightarrow>
       (\<exists>u. (i, u) \<in> set (r_reports (vs_runner s')) \<and> su_status u = ''stopped''))"
proof (intro conjI allI impI)
  show "stored_task (ve_vault E) i (store_of s') \<noteq> None \<longleftrightarrow>
       (\<exists>t. stored_task (ve_vault E) i (restored_store E s) = Some t \<and> still_runs E containers (os_of s) i t \<and>
          (is_vm_task t \<longrightarrow> troubles i = None)) \<or>
       (\<exists>c \<in> set containers. vps_container i c)"
    by (simp only: spec [OF check_steps(1) [OF assms], of i] taken_over_def) blast
  fix t assume t: "stored_task (ve_vault E) i (restored_store E s) = Some t \<and>
       \<not> (still_runs E containers (os_of s) i t \<and> (is_vm_task t \<longrightarrow> troubles i = None)) \<and>
       (is_vm_task t \<longrightarrow> troubles i = None \<or> cleans i)"
  obtain new where "r_reports (vs_runner s') = r_reports (vs_runner s) @ new" "\<exists>u. (i, u) \<in> set new \<and> su_status u = ''stopped''"
    using check_steps(2) [OF assms] t unfolding taken_over_def by blast
  then show "\<exists>u. (i, u) \<in> set (r_reports (vs_runner s')) \<and> su_status u = ''stopped''" by auto
qed

lemma demo_keeps: "cleanup_keeps_processes demo_vm_env"
proof -
  have "int_of_str 10 ''7'' = Some 7" by code_simp
  then show ?thesis by (simp add: cleanup_keeps_processes_def vm_alive_def demo_vm_env_def demo_node_def)
qed

lemma demo_key: "id_keys (ve_vault demo_vm_env) (store_of demo_service)" "kvault_ok (ve_vault demo_vm_env)"
proof -
  have e: "id_keys dict_vault ([] :: (string, task_state) dict)" by (simp add: id_keys_def dict_vault_def)
  show "id_keys (ve_vault demo_vm_env) (store_of demo_service)"
    using vault.id_keys_put [OF dict_vault_ok [unfolded kvault_ok_def] e] 
    by (simp add: demo_vm_env_def demo_service_def store_of_def demo_stored_def add_task_def del: str_of_int_nat)
  show "kvault_ok (ve_vault demo_vm_env)" by (simp add: demo_vm_env_def dict_vault_ok)
qed

lemma demo_restored: "restored_store demo_vm_env demo_service = demo_stored"
  by (simp add: restored_store_def restore_vm_state_from_disk_def demo_service_def Let_def store_of_def)

lemma demo_stored_task: "\<exists>t. stored_task (ve_vault demo_vm_env) 5 demo_stored = Some t \<and> ts_container t = task_container_name 5"
  by (simp add: demo_vm_env_def demo_stored_def add_task_def vault.put_task [OF dict_vault_ok [unfolded kvault_ok_def]]
      del: str_of_int_nat)

text \<open>The runner of the example, started anew, with its store and its containers.\<close>

definition demo_restart :: "string list \<Rightarrow> ((demo_os, string list, (string, task_state) dict) vm_service \<times> string list) option" where
  "demo_restart containers = startup_check demo_vm_env containers (\<lambda>c. None) (\<lambda>p. True) (\<lambda>i. None) (\<lambda>i. True) 20 demo_service"

lemma demo_checked: "\<exists>s' removed. demo_restart containers = Some (s', removed)"
proof -
  have r: "restore_vm_state_from_disk demo_vm_env demo_service = demo_service"
    by (simp add: restore_vm_state_from_disk_def demo_service_def Let_def)
  obtain tr where "tracked_tasks (ve_vault demo_vm_env) (store_of demo_service) = Some tr"
    using task_vault.tracked_set [OF task_vault_of [OF demo_key(2)] demo_key(1)] by blast
  then show ?thesis by (auto simp: demo_restart_def startup_check_def r Let_def store_of_def)
qed

lemma startup_reconciles_witness:
  "\<exists>s' removed. demo_restart [vps_container_name 9] = Some (s', removed) \<and> stored_task dict_vault 9 (store_of s') \<noteq> None \<and>
     stored_task dict_vault 5 (store_of s') = None"
proof -
  obtain s' removed where c: "demo_restart [vps_container_name 9] = Some (s', removed)" using demo_checked by blast
  note rec = startup_reconciles [OF demo_key(2,1) demo_keeps c [unfolded demo_restart_def]]
  have "startswith (vps_container_name 9) KOHAKURIVER_PREFIX" "startswith (vps_container_name 9) VPS_PREFIX"
    by (simp_all add: vps_container_name_def VPS_PREFIX_def KOHAKURIVER_PREFIX_def)
  then have vps: "vps_container j (vps_container_name 9) \<longleftrightarrow> j = 9" for j
    by (auto simp: vps_container_def is_kohakuriver_container_def)
  have gone: "\<not> still_runs demo_vm_env [vps_container_name 9] k 5 t"
    if "stored_task (ve_vault demo_vm_env) 5 (restored_store demo_vm_env demo_service) = Some t" for t k
  proof -
    have "ts_container t = task_container_name 5" using that demo_stored_task by (auto simp: demo_restored)
    moreover have "\<not> startswith (task_container_name 5) ''vm-''" by (simp add: task_container_name_def TASK_PREFIX_def KOHAKURIVER_PREFIX_def)
    ultimately show ?thesis by (simp add: still_runs_def is_vm_task_def)
  qed
  have "ve_vault demo_vm_env = dict_vault" by (simp add: demo_vm_env_def)
  with rec [of 9] rec [of 5] vps gone c show ?thesis by auto
qed

text \<open>A request that ends a task: its kill, or the stop of its VPS.\<close>

fun ends_task :: "int \<Rightarrow> runner_event \<Rightarrow> bool" where
  "ends_task i (KillRequest j c res) \<longleftrightarrow> j = i"
| "ends_task i (StopVpsRequest j a b) \<longleftrightarrow> j = i"
| "ends_task i e \<longleftrightarrow> False"

context task_vault
begin

lemma step_stored:
  assumes "re_vault env = V" "execs_of i r = []" "creations_of i r = []" "\<not> ends_task i e" "stored_task V i (r_store r) \<noteq> None"
  shows "stored_task V i (r_store (runner_step env e r)) \<noteq> None"
proof (cases e)
  case (ExecutionResumes now n inp)
  show ?thesis
  proof (cases "n < length (r_execs r)")
    case lt: True
    obtain y r' where y: "resume_execution V (re_cfg env) (re_tunnel env) (re_topology env) now inp (r_execs r ! n) r = (y, r')"
      by (cases "resume_execution V (re_cfg env) (re_tunnel env) (re_topology env) now inp (r_execs r ! n) r")
    have "er_task_id (ex_request (r_execs r ! n)) \<noteq> i"
      using assms(2) nth_mem [OF lt] by (auto simp: execs_of_def filter_empty_conv)
    from resume_store_other [OF y this] show ?thesis
      using lt assms(1,5) by (simp add: ExecutionResumes execution_resumes_def y)
  qed (use assms in \<open>simp add: ExecutionResumes execution_resumes_def\<close>)
next
  case (CreationResumes now n inp)
  show ?thesis
  proof (cases "n < length (r_creations r)")
    case lt: True
    obtain y r' where y: "resume_creation V (re_cfg env) (re_tunnel env) now inp (r_creations r ! n) r = (y, r')"
      by (cases "resume_creation V (re_cfg env) (re_tunnel env) now inp (r_creations r ! n) r")
    have "vc_task_id (cr_request (r_creations r ! n)) \<noteq> i"
      using assms(3) nth_mem [OF lt] by (auto simp: creations_of_def filter_empty_conv)
    from creation_store_other [OF y this] show ?thesis
      using lt assms(1,5) by (simp add: CreationResumes creation_resumes_def y)
  qed (use assms in \<open>simp add: CreationResumes creation_resumes_def\<close>)
qed (use assms in \<open>auto simp: runner_defs Let_def remove_task_simps split: option.split\<close>)

lemma steps_stored:
  "re_vault env = V \<Longrightarrow> standing i r = ([], [], us) \<Longrightarrow> list_all (\<lambda>e. \<not> asks_for i e \<and> \<not> ends_task i e) es \<Longrightarrow>
   stored_task V i (r_store r) \<noteq> None \<Longrightarrow> stored_task V i (r_store (fold (runner_step env) es r)) \<noteq> None"
proof (induction es arbitrary: r)
  case (Cons e es)
  have "standing i (runner_step env e r) = ([], [], us)" using step_nowhere [OF Cons.prems(2)] Cons.prems(3) by simp
  moreover have "stored_task V i (r_store (runner_step env e r)) \<noteq> None"
    by (rule step_stored) (use Cons.prems in \<open>simp_all add: standing_def\<close>)
  ultimately show ?case using Cons.IH Cons.prems(1,3) by simp
qed simp

end



end
