(* ===== verification/Iso_Stamps.thy ===== *)
theory Iso_Stamps
  imports Py_Strings
begin

text \<open>
  What \<^verbatim>\<open>int(datetime.fromisoformat(s.replace("Z", "+00:00")).timestamp())\<close> gives for the stamps of the
  Docker daemon, which are of the form of RFC 3339: a date, a time to the second, a fraction of a second
  without trailing zeros, and an offset.  Other shapes that \<^verbatim>\<open>fromisoformat\<close> knows (a date alone, a week)
  are not of that form and count as unreadable.  Python 3.10 reads a fraction of three or six digits only,
  later versions one of any length.
\<close>

section \<open>Calendar\<close>

definition leap_year :: "int \<Rightarrow> bool" where
  "leap_year y \<longleftrightarrow> y mod 4 = 0 \<and> (y mod 100 \<noteq> 0 \<or> y mod 400 = 0)"

definition month_lengths :: "int \<Rightarrow> int list" where
  "month_lengths y = [31, if leap_year y then 29 else 28, 31, 30, 31, 30, 31, 31, 30, 31, 30, 31]"

text \<open>Days since 1 January 1970; that day has number 719163.\<close>

definition day_number :: "int \<Rightarrow> int \<Rightarrow> int \<Rightarrow> int" where
  "day_number y m d =
     (let z = y - 1 in z * 365 + z div 4 - z div 100 + z div 400 + sum_list (take (nat (m - 1)) (month_lengths y)) + d - 719163)"

definition valid_date :: "int \<Rightarrow> int \<Rightarrow> int \<Rightarrow> bool" where
  "valid_date y m d \<longleftrightarrow> 1 \<le> y \<and> 1 \<le> m \<and> m \<le> 12 \<and> 1 \<le> d \<and> d \<le> month_lengths y ! nat (m - 1)"

section \<open>Reading\<close>

definition digits_at :: "string \<Rightarrow> nat \<Rightarrow> nat \<Rightarrow> int option" where
  "digits_at s i n =
     (let t = take n (drop i s) in if length t = n \<and> isdigit t then int_of_str 10 t else None)"

text \<open>Seconds since 1970 of the first 19 characters, as if they were UTC.\<close>

definition read_civil :: "string \<Rightarrow> int option" where
  "read_civil s =
     (if length s < 19 \<or> s ! 4 \<noteq> CHR ''-'' \<or> s ! 7 \<noteq> CHR ''-'' \<or> s ! 13 \<noteq> CHR '':'' \<or> s ! 16 \<noteq> CHR '':'' then None
      else case (digits_at s 0 4, digits_at s 5 2, digits_at s 8 2, digits_at s 11 2, digits_at s 14 2, digits_at s 17 2) of
             (Some y, Some m, Some d, Some hh, Some mm, Some ss) \<Rightarrow>
               if valid_date y m d \<and> hh < 24 \<and> mm < 60 \<and> ss < 60
               then Some (day_number y m d * 86400 + hh * 3600 + mm * 60 + ss) else None
           | _ \<Rightarrow> None)"

text \<open>The fraction, if there is one, and what follows it.  Of the fraction it only matters whether its first
  six digits are all zero.\<close>

definition read_fraction :: "bool \<Rightarrow> string \<Rightarrow> (bool \<times> string) option" where
  "read_fraction python310 s =
     (case s of
        c # t \<Rightarrow>
          if c = CHR ''.'' \<or> (c = CHR '','' \<and> \<not> python310)
          then (let ds = takeWhile is_digit_char t in
                if (if python310 then length ds = 3 \<or> length ds = 6 else ds \<noteq> [])
                then Some (list_ex (\<lambda>d. d \<noteq> CHR ''0'') (take 6 ds), dropWhile is_digit_char t) else None)
          else Some (False, s)
      | [] \<Rightarrow> Some (False, []))"

text \<open>An offset in seconds: none, or a sign, hours and minutes, less than a day.\<close>

definition read_offset :: "string \<Rightarrow> int option option" where
  "read_offset s =
     (if s = [] then Some None
      else if length s \<noteq> 6 \<or> s ! 3 \<noteq> CHR '':'' \<or> (hd s \<noteq> CHR ''+'' \<and> hd s \<noteq> CHR ''-'') then None
      else case (digits_at s 1 2, digits_at s 4 2) of
             (Some hh, Some mm) \<Rightarrow>
               (let off = hh * 3600 + mm * 60 in
                if off < 86400 then Some (Some (if hd s = CHR ''-'' then - off else off)) else None)
           | _ \<Rightarrow> None)"

definition without_Z :: "string \<Rightarrow> string" where
  "without_Z s = concat (map (\<lambda>c. if c = CHR ''Z'' then ''+00:00'' else [c]) s)"

text \<open>\<open>local\<close> is the Unix time of a local time, which a stamp without an offset is.  The conversion to an
  integer goes towards zero.\<close>

definition iso_timestamp :: "bool \<Rightarrow> (int \<Rightarrow> int) \<Rightarrow> string \<Rightarrow> int option" where
  "iso_timestamp python310 local stamp =
     (let s = without_Z stamp in
      case (read_civil s, read_fraction python310 (drop 19 s)) of
        (Some secs, Some (part, rest)) \<Rightarrow>
          (case read_offset rest of
             None \<Rightarrow> None
           | Some off \<Rightarrow>
               let u = (case off of None \<Rightarrow> local secs | Some n \<Rightarrow> secs - n)
               in Some (if u < 0 \<and> part then u + 1 else u))
      | _ \<Rightarrow> None)"

section \<open>Examples and shapes\<close>

lemma iso_examples:
  "iso_timestamp False (\<lambda>t. t) ''2024-05-01T10:20:30.123456789Z'' = Some 1714558830"
  "iso_timestamp True (\<lambda>t. t) ''2024-05-01T10:20:30.123456789Z'' = None"
  "iso_timestamp True (\<lambda>t. t) ''2024-05-01T12:20:30.123456+02:00'' = Some 1714558830"
  "iso_timestamp True (\<lambda>t. t) ''1969-12-31T23:59:58.500Z'' = Some (-1)"
  "iso_timestamp True (\<lambda>t. t) ''2023-02-29T00:00:00Z'' = None"
  by code_simp+

text \<open>The length of the fraction is all that matters to Python 3.10: the daemon stamps to the nanosecond, so
  nearly all its stamps are unreadable there.\<close>

lemma nanoseconds_unread:
  assumes "length civil = 19" "CHR ''Z'' \<notin> set civil" "list_all is_digit_char ds" "length ds \<noteq> 3" "length ds \<noteq> 6"
  shows "iso_timestamp True local (civil @ ''.'' @ ds @ ''Z'') = None"
proof -
  have z: "is_digit_char c \<Longrightarrow> c \<noteq> CHR ''Z''" "\<not> is_digit_char CHR ''+''" for c by (auto simp: is_digit_char_def)
  have plain: "without_Z xs = xs" if "CHR ''Z'' \<notin> set xs" for xs
    using that by (induction xs) (auto simp: without_Z_def)
  have "CHR ''Z'' \<notin> set (civil @ ''.'' @ ds)" using assms(2,3) z(1) by (auto simp: list_all_iff)
  then have s: "without_Z (civil @ ''.'' @ ds @ ''Z'') = civil @ ''.'' @ ds @ ''+00:00''"
    using plain [of "civil @ ''.'' @ ds"] by (simp add: without_Z_def)
  have "takeWhile is_digit_char (ds @ CHR ''+'' # xs) = ds" for xs
    using assms(3) z(2) by (induction ds) auto
  then have "read_fraction True (drop 19 (civil @ ''.'' @ ds @ ''+00:00'')) = None"
    using assms(1,4,5) by (simp add: read_fraction_def)
  then show ?thesis unfolding iso_timestamp_def Let_def s by (simp only: option.case prod.case split: option.split) simp
qed

end
