(* ===== verification/Docker_Images.thy ===== *)
theory Docker_Images
  imports Docker_Naming Iso_Stamps
begin

text \<open>
  Containers and images through the Docker client (\<^verbatim>\<open>docker/container_manager.py\<close>,
  \<^verbatim>\<open>docker/image_manager.py\<close>).  The daemon is not part of the repository: its state is the type \<open>'d\<close>, what
  a tarball holds the type \<open>'i\<close>, and its calls are the fields of the record \<open>docker\<close>, which the definitions
  take as an argument.
\<close>

section \<open>The daemon\<close>

datatype container_op =
    StartContainer
  | StopContainer int \<comment> \<open>timeout\<close>
  | KillContainer string \<comment> \<open>signal\<close>
  | PauseContainer
  | UnpauseContainer
  | RemoveContainer bool \<comment> \<open>force\<close>

text \<open>A call is answered, the object is not there, or the daemon refuses with an error.\<close>

datatype 'a docker_answer = Answered 'a | NotFound | ApiError string

text \<open>How the export of an image to a file ends: the file was not opened, it was written in part before an
  error, or it was written.\<close>

datatype 'i export = NotOpened string | BrokenOff 'i string | Complete 'i

text \<open>The arguments of a container run.\<close>

record run_kwargs =
  rk_labels :: "(string, string) dict"
  rk_workdir :: "string option"
  rk_cpuset_cpus :: "string option"
  rk_cpuset_mems :: "string option"
  rk_mem_limit :: "string option"
  rk_mounts :: "string list"
  rk_env :: "(string, string) dict"
  rk_privileged :: bool
  rk_cap_add :: "string list"
  rk_gpus :: "string list"
  rk_network_mode :: "string option"
  rk_ports :: "(string, int) dict"
  rk_restart :: "string option"
  rk_nano_cpus :: "int option"
  rk_mem_bytes :: "int option"

definition no_kwargs :: run_kwargs where
  "no_kwargs = \<lparr>rk_labels = [], rk_workdir = None, rk_cpuset_cpus = None, rk_cpuset_mems = None, rk_mem_limit = None,
     rk_mounts = [], rk_env = [], rk_privileged = False, rk_cap_add = [], rk_gpus = [], rk_network_mode = None, rk_ports = [],
     rk_restart = None, rk_nano_cpus = None, rk_mem_bytes = None\<rparr>"

record container_info =
  cn_name :: string
  cn_status :: string
  cn_labels :: "(string, string) dict"
  cn_tags :: "string list option" \<comment> \<open>of its image; \<open>None\<close>: the image is gone\<close>
  cn_image_id :: string
  cn_created :: "string option"

record ('d, 'i) docker =
  dk_containers :: "'d \<Rightarrow> container_info list"
  dk_do :: "container_op \<Rightarrow> string \<Rightarrow> 'd \<Rightarrow> unit docker_answer \<times> 'd"
  dk_run :: "string \<Rightarrow> string list \<Rightarrow> string \<Rightarrow> run_kwargs \<Rightarrow> 'd \<Rightarrow> string docker_answer \<times> 'd" \<comment> \<open>image, command, name; the status\<close>
  dk_probe :: "string \<Rightarrow> string \<Rightarrow> 'd \<Rightarrow> bool \<times> 'd" \<comment> \<open>\<^verbatim>\<open>which\<close> in a container of the image, removed again\<close>
  dk_ports :: "string \<Rightarrow> 'd \<Rightarrow> (string, int list) dict option"
  dk_pull :: "string \<Rightarrow> ('d, unit) st"
  dk_commit :: "string \<Rightarrow> string \<Rightarrow> string \<Rightarrow> 'd \<Rightarrow> unit docker_answer \<times> 'd" \<comment> \<open>container, repository, tag\<close>
  dk_created :: "string \<Rightarrow> 'd \<Rightarrow> string option docker_answer" \<comment> \<open>of an image, as it is printed\<close>
  dk_python310 :: bool \<comment> \<open>the client runs on Python 3.10\<close>
  dk_local :: "int \<Rightarrow> int" \<comment> \<open>Unix time of a local time\<close>
  dk_export :: "string \<Rightarrow> bool \<Rightarrow> 'd \<Rightarrow> 'i export docker_answer" \<comment> \<open>image, and whether with its name\<close>
  dk_load :: "'i \<Rightarrow> ('d, (string \<times> string list) list) st" \<comment> \<open>ids and tags of the images\<close>
  dk_tag :: "string \<Rightarrow> string \<Rightarrow> ('d, unit) st"
  dk_rmi :: "string \<Rightarrow> bool \<Rightarrow> 'd \<Rightarrow> unit docker_answer \<times> 'd"
  dk_prune :: "('d, int) st"

section \<open>Containers\<close>

definition list_containers :: "('d, 'i) docker \<Rightarrow> 'd \<Rightarrow> container_info list" where
  "list_containers D d = dk_containers D d"

definition list_kohakuriver_containers :: "('d, 'i) docker \<Rightarrow> 'd \<Rightarrow> container_info list" where
  "list_kohakuriver_containers D d =
     filter (\<lambda>c. map_of (cn_labels c) ''kohakuriver.managed'' = Some ''true'') (list_containers D d)"

definition container_exists :: "('d, 'i) docker \<Rightarrow> string \<Rightarrow> 'd \<Rightarrow> bool" where
  "container_exists D n d \<longleftrightarrow> n \<in> set (map cn_name (dk_containers D d))"

text \<open>An operation that answers with a flag: what a missing container means differs.\<close>

definition flagged_op :: "('d, 'i) docker \<Rightarrow> bool \<Rightarrow> container_op \<Rightarrow> string \<Rightarrow> 'd \<Rightarrow> bool \<times> 'd" where
  "flagged_op D missing oper n d =
     (case dk_do D oper n d of
        (Answered _, d') \<Rightarrow> (True, d')
      | (NotFound, d') \<Rightarrow> (missing, d')
      | (ApiError _, d') \<Rightarrow> (False, d'))"

text \<open>One that raises when the container is missing.\<close>

definition container_op_or_raise :: "('d, 'i) docker \<Rightarrow> container_op \<Rightarrow> string \<Rightarrow> ('d, bool) st" where
  "container_op_or_raise D oper n = (\<lambda>d.
     case dk_do D oper n d of
       (Answered _, d') \<Rightarrow> (Inr True, d')
     | (NotFound, d') \<Rightarrow> (Inl (DockerError (''Container not found: '' @ n)), d')
     | (ApiError _, d') \<Rightarrow> (Inr False, d'))"

definition stop_container :: "('d, 'i) docker \<Rightarrow> string \<Rightarrow> int \<Rightarrow> 'd \<Rightarrow> bool \<times> 'd" where
  "stop_container D n timeout = flagged_op D False (StopContainer timeout) n"

definition start_container :: "('d, 'i) docker \<Rightarrow> string \<Rightarrow> 'd \<Rightarrow> bool \<times> 'd" where
  "start_container D n = flagged_op D False StartContainer n"

definition remove_container :: "('d, 'i) docker \<Rightarrow> string \<Rightarrow> bool \<Rightarrow> 'd \<Rightarrow> bool \<times> 'd" where
  "remove_container D n force = flagged_op D True (RemoveContainer force) n"

definition kill_container :: "('d, 'i) docker \<Rightarrow> string \<Rightarrow> string \<Rightarrow> 'd \<Rightarrow> bool \<times> 'd" where
  "kill_container D n signal = flagged_op D False (KillContainer signal) n"

definition pause_container :: "('d, 'i) docker \<Rightarrow> string \<Rightarrow> ('d, bool) st" where
  "pause_container D n = container_op_or_raise D PauseContainer n"

definition unpause_container :: "('d, 'i) docker \<Rightarrow> string \<Rightarrow> ('d, bool) st" where
  "unpause_container D n = container_op_or_raise D UnpauseContainer n"

text \<open>An image that is missing is pulled, once.\<close>

definition create_container :: "('d, 'i) docker \<Rightarrow> string \<Rightarrow> string \<Rightarrow> string list \<Rightarrow> run_kwargs \<Rightarrow> ('d, string) st" where
  "create_container D img n cmd kw = (\<lambda>d.
     case dk_run D img cmd n kw d of
       (Answered s, d') \<Rightarrow> (Inr s, d')
     | (ApiError e, d') \<Rightarrow> (Inl (DockerError e), d')
     | (NotFound, d') \<Rightarrow>
         bind_st (dk_pull D img) (\<lambda>_ d2.
           case dk_run D img cmd n kw d2 of
             (Answered s, d3) \<Rightarrow> (Inr s, d3)
           | (ApiError e, d3) \<Rightarrow> (Inl (DockerError e), d3)
           | (NotFound, d3) \<Rightarrow> (Inl (DockerError ''ImageNotFound''), d3)) d')"

definition get_container_port :: "('d, 'i) docker \<Rightarrow> string \<Rightarrow> int \<Rightarrow> 'd \<Rightarrow> int option" where
  "get_container_port D n port d =
     (case dk_ports D n d of
        None \<Rightarrow> None
      | Some ports \<Rightarrow>
          case map_of ports (str_of_int port @ ''/tcp'') of
            Some (p # _) \<Rightarrow> Some p
          | _ \<Rightarrow> None)"

text \<open>Every stopped container of the program; one that cannot be removed is skipped.\<close>

fun remove_stopped :: "('d, 'i) docker \<Rightarrow> container_info list \<Rightarrow> int \<times> 'd \<Rightarrow> int \<times> 'd" where
  "remove_stopped D [] s = s"
| "remove_stopped D (c # cs) (n, d) =
     remove_stopped D cs
       (if cn_status c \<in> {''exited'', ''dead''}
        then case dk_do D (RemoveContainer False) (cn_name c) d of
               (Answered _, d') \<Rightarrow> (n + 1, d')
             | (_, d') \<Rightarrow> (n, d')
        else (n, d))"

definition cleanup_stopped_containers :: "('d, 'i) docker \<Rightarrow> 'd \<Rightarrow> int \<times> 'd" where
  "cleanup_stopped_containers D d = remove_stopped D (list_kohakuriver_containers D d) (0, d)"

section \<open>Containers of tasks and VPS\<close>

record container_request =
  cq_cpuset_cpus :: "string option"
  cq_cpuset_mems :: "string option"
  cq_mem_limit :: "string option"
  cq_gpus :: "int list"
  cq_mounts :: "string list"
  cq_env :: "(string, string) dict"
  cq_workdir :: string
  cq_privileged :: bool
  cq_node :: "string option"

definition set_if :: "string option \<Rightarrow> string option" where
  "set_if x = (if truthy x then x else None)"

definition build_container_kwargs :: "(string, string) dict \<Rightarrow> container_request \<Rightarrow> run_kwargs" where
  "build_container_kwargs labels q =
     no_kwargs\<lparr>rk_labels := labels, rk_workdir := Some (cq_workdir q),
       rk_cpuset_cpus := set_if (cq_cpuset_cpus q), rk_cpuset_mems := set_if (cq_cpuset_mems q), rk_mem_limit := set_if (cq_mem_limit q),
       rk_mounts := cq_mounts q, rk_env := cq_env q,
       rk_privileged := cq_privileged q, rk_cap_add := (if cq_privileged q then [] else [''SYS_NICE'']),
       rk_gpus := map str_of_int (cq_gpus q)\<rparr>"

definition create_task_container :: "('d, 'i) docker \<Rightarrow> int \<Rightarrow> string \<Rightarrow> string list \<Rightarrow> container_request \<Rightarrow> ('d, string) st" where
  "create_task_container D i img cmd q =
     create_container D img (task_container_name i) cmd
       ((build_container_kwargs (make_labels i ''command'' (cq_node q)) q)\<lparr>rk_network_mode := Some ''host''\<rparr>)"

text \<open>The package manager of an image is found by trying the names in turn.\<close>

fun probe_managers :: "('d, 'i) docker \<Rightarrow> string \<Rightarrow> string list \<Rightarrow> 'd \<Rightarrow> string \<times> 'd" where
  "probe_managers D img [] d = (''unknown'', d)"
| "probe_managers D img (m # ms) d =
     (case dk_probe D img m d of (True, d') \<Rightarrow> (m, d') | (False, d') \<Rightarrow> probe_managers D img ms d')"

definition probe_package_manager :: "('d, 'i) docker \<Rightarrow> string \<Rightarrow> 'd \<Rightarrow> string \<times> 'd" where
  "probe_package_manager D img = probe_managers D img [''apk'', ''apt-get'', ''apt'', ''dnf'', ''yum'', ''zypper'', ''pacman'']"

definition ssh_install_command :: "string \<Rightarrow> string" where
  "ssh_install_command m =
     (if m = ''apk'' then ''apk update && apk add --no-cache openssh''
      else if m \<in> {''apt'', ''apt-get''} then m @ '' update && '' @ m @ '' install -y openssh-server''
      else if m = ''dnf'' then ''dnf install -y openssh-server''
      else if m = ''yum'' then ''yum install -y openssh-server''
      else if m = ''zypper'' then ''zypper refresh && zypper install -y openssh''
      else if m = ''pacman'' then ''pacman -Syu --noconfirm openssh''
      else ''echo '' @ [CHR 0x27] @ ''SSH server should be pre-installed'' @ [CHR 0x27])"

definition quoted :: "string \<Rightarrow> string" where
  "quoted s = CHR 0x27 # s @ [CHR 0x27]"

definition ssh_auth_config :: "string option \<Rightarrow> int \<Rightarrow> string" where
  "ssh_auth_config key i =
     (if truthy key
      then ''echo '' @ quoted ''PasswordAuthentication no'' @ '' >> /etc/ssh/sshd_config && echo '' @
           quoted ''PermitRootLogin prohibit-password'' @ '' >> /etc/ssh/sshd_config && mkdir -p /root/.ssh && echo '' @
           quoted (the key) @ '' > /root/.ssh/authorized_keys && chmod 700 /root/.ssh && chmod 600 /root/.ssh/authorized_keys''
      else ''echo '' @ quoted ''PasswordAuthentication yes'' @ '' >> /etc/ssh/sshd_config && echo '' @
           quoted ''PermitRootLogin yes'' @ '' >> /etc/ssh/sshd_config && echo '' @
           quoted (''root:'' @ str_of_int i) @ '' | chpasswd'')"

definition ssh_setup_command :: "string \<Rightarrow> string option \<Rightarrow> int \<Rightarrow> string" where
  "ssh_setup_command m key i =
     ssh_install_command m @ '' && ssh-keygen -A && '' @ ssh_auth_config key i @
     '' && mkdir -p /run/sshd && chmod 0755 /run/sshd && /usr/sbin/sshd -D -e''"

definition create_vps_container ::
  "('d, 'i) docker \<Rightarrow> int \<Rightarrow> string \<Rightarrow> int \<Rightarrow> string option \<Rightarrow> container_request \<Rightarrow> ('d, string) st" where
  "create_vps_container D i img port key q = (\<lambda>d.
     case probe_package_manager D img d of
       (m, d') \<Rightarrow>
         create_container D img (vps_container_name i) [''/bin/sh'', ''-c'', ssh_setup_command m key i]
           ((build_container_kwargs (make_labels i ''vps'' (cq_node q)) (q\<lparr>cq_env := []\<rparr>))
              \<lparr>rk_ports := [(''22/tcp'', port)], rk_restart := Some ''unless-stopped''\<rparr>) d')"

section \<open>Images\<close>

definition image_exists :: "('d, 'i) docker \<Rightarrow> string \<Rightarrow> 'd \<Rightarrow> bool" where
  "image_exists D t d \<longleftrightarrow> dk_created D t d \<noteq> NotFound"

text \<open>A missing image, one without a stamp or with one that cannot be read, and an error all give \<open>None\<close>.\<close>

definition get_image_created_timestamp :: "('d, 'i) docker \<Rightarrow> string \<Rightarrow> 'd \<Rightarrow> int option" where
  "get_image_created_timestamp D t d =
     (case dk_created D t d of
        Answered (Some s) \<Rightarrow> if s = [] then None else iso_timestamp (dk_python310 D) (dk_local D) s
      | _ \<Rightarrow> None)"

definition commit_container :: "('d, 'i) docker \<Rightarrow> string \<Rightarrow> string \<Rightarrow> string \<Rightarrow> ('d, unit) st" where
  "commit_container D n repo t = (\<lambda>d.
     case dk_commit D n repo t d of
       (Answered _, d') \<Rightarrow> (Inr (), d')
     | (NotFound, d') \<Rightarrow> (Inl (DockerError (''Container not found: '' @ n)), d')
     | (ApiError e, d') \<Rightarrow> (Inl (DockerError e), d'))"

definition remove_image :: "('d, 'i) docker \<Rightarrow> string \<Rightarrow> bool \<Rightarrow> 'd \<Rightarrow> bool \<times> 'd" where
  "remove_image D t force d =
     (case dk_rmi D t force d of
        (Answered _, d') \<Rightarrow> (True, d')
      | (NotFound, d') \<Rightarrow> (True, d')
      | (ApiError _, d') \<Rightarrow> (False, d'))"

section \<open>Files\<close>

text \<open>The directory of the tarballs: its files by name, or \<open>None\<close> while it does not exist.  \<open>fs_locked\<close> are
  the paths the process may not remove.\<close>

record ('d, 'i) image_host =
  ih_docker :: 'd
  ih_files :: "(string, 'i) dict option"
  ih_locked :: "string \<Rightarrow> bool"

definition files_of :: "('d, 'i) image_host \<Rightarrow> (string, 'i) dict" where
  "files_of s = (case ih_files s of None \<Rightarrow> [] | Some fs \<Rightarrow> fs)"

definition file_at :: "string \<Rightarrow> string \<Rightarrow> ('d, 'i) image_host \<Rightarrow> 'i option" where
  "file_at dir path s = map_option snd (find (\<lambda>(f, _). path_join dir f = path) (files_of s))"

definition write_file :: "string \<Rightarrow> 'i \<Rightarrow> ('d, 'i) image_host \<Rightarrow> ('d, 'i) image_host" where
  "write_file f c s = s\<lparr>ih_files := Some (AList.update f c (files_of s))\<rparr>"

text \<open>\<^verbatim>\<open>os.remove\<close>; the flag tells whether it was removed.\<close>

definition remove_path :: "string \<Rightarrow> string \<Rightarrow> ('d, 'i) image_host \<Rightarrow> bool \<times> ('d, 'i) image_host" where
  "remove_path dir path s =
     (if ih_locked s path \<or> file_at dir path s = None then (False, s)
      else (True, s\<lparr>ih_files := Some (filter (\<lambda>(f, _). path_join dir f \<noteq> path) (files_of s))\<rparr>))"

definition on_docker :: "('d, 'a) st \<Rightarrow> (('d, 'i) image_host, 'a) st" where
  "on_docker m = (\<lambda>s. case m (ih_docker s) of (r, d) \<Rightarrow> (r, s\<lparr>ih_docker := d\<rparr>))"

text \<open>\<^verbatim>\<open>save_image\<close>: the directory is made, and the file is written chunk by chunk.  An error while it is
  written leaves the part that was.\<close>

definition save_image :: "('d, 'i) docker \<Rightarrow> bool \<Rightarrow> string \<Rightarrow> string \<Rightarrow> (('d, 'i) image_host, unit) st" where
  "save_image D named t f = (\<lambda>s0.
     case dk_export D t named (ih_docker s0) of
       NotFound \<Rightarrow> (Inl (DockerError (''Image not found: '' @ t)), s0)
     | ApiError e \<Rightarrow> (Inl (DockerError e), s0)
     | Answered x \<Rightarrow>
         (let s = s0\<lparr>ih_files := Some (files_of s0)\<rparr> in
          case x of
            NotOpened e \<Rightarrow> (Inl (DockerError e), s)
          | BrokenOff c e \<Rightarrow> (Inl (DockerError e), write_file f c s)
          | Complete c \<Rightarrow> (Inr (), write_file f c s)))"

definition load_image :: "('d, 'i) docker \<Rightarrow> string \<Rightarrow> string \<Rightarrow> (('d, 'i) image_host, (string \<times> string list) list) st" where
  "load_image D dir path = (\<lambda>s.
     case file_at dir path s of
       None \<Rightarrow> (Inl (DockerError (''Tarball not found: '' @ path)), s)
     | Some c \<Rightarrow> on_docker (dk_load D c) s)"

end
