(* ===== verification/Docker_Sync.thy ===== *)
theory Docker_Sync
  imports Docker_Images
begin

text \<open>
  Images through the shared directory (\<^verbatim>\<open>docker/utils.py\<close>, \<^verbatim>\<open>docker/sync_manager.py\<close>): the host saves an
  environment as a tarball whose name carries the time, and a runner loads the newest tarball that is newer
  than its own image before it runs a task (\<^verbatim>\<open>ensure_docker_image_synced\<close> of
  \<^verbatim>\<open>runner/services/task_executor.py\<close>, \<^verbatim>\<open>runner/endpoints/docker.py\<close>).
\<close>

section \<open>Names of tarballs\<close>

definition tar_name :: "string \<Rightarrow> int \<Rightarrow> string" where
  "tar_name n ts = n @ ''-'' @ str_of_int ts @ ''.tar''"

text \<open>The pattern \<^verbatim>\<open>^name-(\d+)\.tar$\<close>: \<^verbatim>\<open>$\<close> also matches before a line end at the end.\<close>

definition no_line_end :: "string \<Rightarrow> string" where
  "no_line_end f = (if f \<noteq> [] \<and> last f = CHR 0x0A then butlast f else f)"

definition tar_stamp :: "string \<Rightarrow> string \<Rightarrow> int option" where
  "tar_stamp n f =
     (let g = no_line_end f; rest = drop (length n + 1) g; ds = take (length rest - 4) rest in
      if g = n @ ''-'' @ ds @ ''.tar'' \<and> isdigit ds then int_of_str 10 ds else None)"

text \<open>Newest first; Python's reversed sort keeps the order of equal keys.\<close>

definition newest_first :: "(int \<times> 'a) list \<Rightarrow> (int \<times> 'a) list" where
  "newest_first = sort_key (\<lambda>x. - fst x)"

definition list_shared_tarballs :: "string \<Rightarrow> string \<Rightarrow> ('d, 'i) image_host \<Rightarrow> (int \<times> string) list" where
  "list_shared_tarballs dir n s =
     newest_first (List.map_filter (\<lambda>(f, _). map_option (\<lambda>ts. (ts, path_join dir f)) (tar_stamp (lower n) f)) (files_of s))"

section \<open>Loading\<close>

definition BASE :: string where "BASE = ''base''"

definition needs_sync :: "('d, 'i) docker \<Rightarrow> string \<Rightarrow> string \<Rightarrow> ('d, 'i) image_host \<Rightarrow> bool \<times> string option" where
  "needs_sync D dir n s =
     (case list_shared_tarballs dir n s of
        [] \<Rightarrow> (False, None)
      | (ts, path) # _ \<Rightarrow>
          case get_image_created_timestamp D (image_tag n BASE) (ih_docker s) of
            None \<Rightarrow> (True, Some path)
          | Some created \<Rightarrow> if ts > created then (True, Some path) else (False, None))"

text \<open>\<^verbatim>\<open>docker_utils.sync_from_shared\<close>: the first image of the tarball is given the tag it should have.\<close>

definition sync_from_shared :: "('d, 'i) docker \<Rightarrow> string \<Rightarrow> string \<Rightarrow> string \<Rightarrow> ('d, 'i) image_host \<Rightarrow> bool \<times> ('d, 'i) image_host" where
  "sync_from_shared D dir n path s =
     (case load_image D dir path s of
        (Inl _, s') \<Rightarrow> (False, s')
      | (Inr [], s') \<Rightarrow> (False, s')
      | (Inr ((i, tags) # _), s') \<Rightarrow>
          if image_tag n BASE \<in> set tags then (True, s')
          else (case on_docker (dk_tag D i (image_tag n BASE)) s' of
                  (Inl _, s2) \<Rightarrow> (False, s2)
                | (Inr _, s2) \<Rightarrow> (True, s2)))"

text \<open>\<^verbatim>\<open>SyncManagerMixin.sync_from_shared\<close> loads and gives no tag.\<close>

definition manager_sync_from_shared :: "('d, 'i) docker \<Rightarrow> string \<Rightarrow> string \<Rightarrow> ('d, 'i) image_host \<Rightarrow> bool \<times> ('d, 'i) image_host" where
  "manager_sync_from_shared D dir path s =
     (case load_image D dir path s of (Inl _, s') \<Rightarrow> (False, s') | (Inr _, s') \<Rightarrow> (True, s'))"

definition ensure_docker_image_synced :: "('d, 'i) docker \<Rightarrow> string \<Rightarrow> string \<Rightarrow> ('d, 'i) image_host \<Rightarrow> bool \<times> ('d, 'i) image_host" where
  "ensure_docker_image_synced D dir n s =
     (case needs_sync D dir n s of
        (False, _) \<Rightarrow> (True, s)
      | (True, None) \<Rightarrow> (False, s)
      | (True, Some path) \<Rightarrow> sync_from_shared D dir n path s)"

text \<open>The endpoint of the runner: whether something was loaded, and from where.\<close>

definition do_sync_container :: "('d, 'i) docker \<Rightarrow> string \<Rightarrow> string \<Rightarrow> (('d, 'i) image_host, string option) st" where
  "do_sync_container D dir n = (\<lambda>s.
     case needs_sync D dir n s of
       (False, _) \<Rightarrow> (Inr None, s)
     | (True, None) \<Rightarrow> (Inl (FileNotFoundError (''No tarball found for container '' @ n)), s)
     | (True, Some path) \<Rightarrow>
         (case sync_from_shared D dir n path s of
            (True, s') \<Rightarrow> (Inr (Some path), s')
          | (False, s') \<Rightarrow> (Inl (RuntimeError (''Failed to sync container '' @ n)), s')))"


definition sync_container :: "('d, 'i) docker \<Rightarrow> string \<Rightarrow> string \<Rightarrow> (('d, 'i) image_host, string option) st" where
  "sync_container D dir n = (\<lambda>s.
     case do_sync_container D dir n s of
       (Inl (FileNotFoundError m), s') \<Rightarrow> (Inl (HTTPException 404 m), s')
     | (Inl _, s') \<Rightarrow> (Inl (HTTPException 500 ''Error syncing container''), s')
     | (Inr x, s') \<Rightarrow> (Inr x, s'))"

section \<open>Saving\<close>

definition remove_older :: "string \<Rightarrow> string \<Rightarrow> int \<Rightarrow> ('d, 'i) image_host \<Rightarrow> ('d, 'i) image_host" where
  "remove_older dir n ts s =
     fold (\<lambda>(old, path) s'. if old < ts then snd (remove_path dir path s') else s') (list_shared_tarballs dir n s) s"

text \<open>The body of the \<^verbatim>\<open>try\<close> block of \<^verbatim>\<open>create_container_tarball\<close>: stopping may fail.\<close>

definition save_environment :: "('d, 'i) docker \<Rightarrow> string \<Rightarrow> int \<Rightarrow> string \<Rightarrow> string \<Rightarrow> (('d, 'i) image_host, unit) st" where
  "save_environment D dir now src n =
     bind_st (on_docker (\<lambda>d. (Inr (), snd (stop_container D src 10 d)))) (\<lambda>_.
     bind_st (on_docker (commit_container D src (KOHAKURIVER_PREFIX @ ''/'' @ n) BASE)) (\<lambda>_.
     bind_st (save_image D False (image_tag n BASE) (tar_name n now)) (\<lambda>_.
     bind_st (\<lambda>s. (Inr (), remove_older dir n now s)) (\<lambda>_.
     bind_st (on_docker (dk_prune D)) (\<lambda>_. return_st ())))))"

text \<open>A failure of any step removes the image of the environment.\<close>

definition create_container_tarball ::
  "('d, 'i) docker \<Rightarrow> string \<Rightarrow> int \<Rightarrow> string \<Rightarrow> string \<Rightarrow> ('d, 'i) image_host \<Rightarrow> string option \<times> ('d, 'i) image_host" where
  "create_container_tarball D dir now src n s =
     (case save_environment D dir now src n s of
        (Inr _, s') \<Rightarrow> (Some (path_join dir (tar_name n now)), s')
      | (Inl _, s') \<Rightarrow> (None, s'\<lparr>ih_docker := snd (remove_image D (image_tag n BASE) True (ih_docker s'))\<rparr>))"

text \<open>\<^verbatim>\<open>docker_utils.create_container_tar\<close>: the same with a lower-case name for the file, and an image that is
  kept after a failure.  A commit or a look-up that fails ends the operation.\<close>

definition create_container_tar ::
  "('d, 'i) docker \<Rightarrow> string \<Rightarrow> int \<Rightarrow> string \<Rightarrow> string \<Rightarrow> ('d, 'i) image_host \<Rightarrow> string option \<times> ('d, 'i) image_host" where
  "create_container_tar D dir now src n s =
     (if \<not> container_exists D src (ih_docker s) then (None, s)
      else
        case bind_st (on_docker (\<lambda>d. (Inr (), snd (stop_container D src 10 d)))) (\<lambda>_.
             bind_st (on_docker (commit_container D src (KOHAKURIVER_PREFIX @ ''/'' @ n) BASE)) (\<lambda>_.
             bind_st (save_image D True (image_tag n BASE) (tar_name (lower n) now)) (\<lambda>_ s'.
             (Inr (), (remove_older dir n now s')\<lparr>ih_docker := snd (dk_prune D (ih_docker s'))\<rparr>)))) s of
          (Inr _, s') \<Rightarrow> (Some (path_join dir (tar_name (lower n) now)), s')
        | (Inl _, s') \<Rightarrow> (None, s'))"

end
