(* ===== verification/Env_Containers.thy ===== *)
theory Env_Containers
  imports Complex_Main Docker_Sync
begin

text \<open>
  The environments of the host (\<^verbatim>\<open>host/endpoints/docker.py\<close>): containers in which an operator prepares an
  image, and the tarballs made from them.  The role of the caller is checked before these operations.
\<close>

section \<open>Names\<close>

definition env_prefix :: string where "env_prefix = ENV_PREFIX @ ''-''"

definition is_env_container :: "string \<Rightarrow> bool" where
  "is_env_container n \<longleftrightarrow> startswith n env_prefix"

definition get_env_name :: "string \<Rightarrow> string" where
  "get_env_name n = (if startswith n env_prefix then drop (length ENV_PREFIX + 1) n else n)"

definition make_env_container_name :: "string \<Rightarrow> string" where
  "make_env_container_name n = (if startswith n env_prefix then n else env_prefix @ n)"

text \<open>The name with the prefix is tried first, then the name as it is.\<close>

definition resolve_container_name :: "('d, 'i) docker \<Rightarrow> string \<Rightarrow> 'd \<Rightarrow> string option" where
  "resolve_container_name D n d =
     (if container_exists D (make_env_container_name n) d then Some (make_env_container_name n)
      else if container_exists D n d then Some n
      else None)"

section \<open>Containers\<close>

record env_listing =
  el_name :: string
  el_env_name :: string
  el_image :: string
  el_status :: string
  el_created :: "string option"

definition list_host_containers :: "('d, 'i) docker \<Rightarrow> 'd \<Rightarrow> env_listing list" where
  "list_host_containers D d =
     map (\<lambda>c. \<lparr>el_name = cn_name c, el_env_name = get_env_name (cn_name c),
            el_image = (case cn_tags c of None \<Rightarrow> ''<missing>'' | Some [] \<Rightarrow> cn_image_id c | Some (t # _) \<Rightarrow> t),
            el_status = cn_status c, el_created = cn_created c\<rparr>)
       (filter (\<lambda>c. is_env_container (cn_name c)) (list_containers D d))"

text \<open>Shares of the machine given to a container.  The source computes with floating-point numbers, the
  model with rationals, and both cut the result off.\<close>

record env_limits =
  lm_cpu_share :: rat
  lm_mem_share :: rat
  lm_cpu_count :: int
  lm_total_memory :: int

definition get_resource_limits :: "env_limits \<Rightarrow> run_kwargs" where
  "get_resource_limits l =
     no_kwargs\<lparr>
       rk_nano_cpus := (if 0 < lm_cpu_share l \<and> lm_cpu_share l < 1
                        then Some \<lfloor>of_int (lm_cpu_count l) * lm_cpu_share l * 1000000000\<rfloor> else None),
       rk_mem_bytes := (if 0 < lm_mem_share l \<and> lm_mem_share l < 1
                        then Some \<lfloor>of_int (lm_total_memory l) * lm_mem_share l\<rfloor> else None)\<rparr>"

definition as_500 :: "pyexn \<Rightarrow> pyexn" where
  "as_500 e = HTTPException 500 ''Error''"

definition create_host_container :: "('d, 'i) docker \<Rightarrow> env_limits \<Rightarrow> string \<Rightarrow> string \<Rightarrow> ('d, string) st" where
  "create_host_container D l img n = (\<lambda>d.
     let c = make_env_container_name n in
     if container_exists D c d then (Inl (HTTPException 409 ''Container already exists.''), d)
     else case create_container D img c [''sleep'', ''infinity''] (get_resource_limits l) d of
            (Inr st, d') \<Rightarrow> (Inr st, d')
          | (Inl e, d') \<Rightarrow> (Inl (as_500 e), d'))"

text \<open>Delete, stop and start differ in the operation only.\<close>

definition on_environment ::
  "('d, 'i) docker \<Rightarrow> (string \<Rightarrow> 'd \<Rightarrow> bool \<times> 'd) \<Rightarrow> string \<Rightarrow> ('d, string) st" where
  "on_environment D oper n = (\<lambda>d.
     case resolve_container_name D n d of
       None \<Rightarrow> (Inl (HTTPException 404 ''Environment not found.''), d)
     | Some c \<Rightarrow>
         (case oper c d of
            (True, d') \<Rightarrow> (Inr c, d')
          | (False, d') \<Rightarrow> (Inl (HTTPException 500 ''Error''), d')))"

definition delete_host_container :: "('d, 'i) docker \<Rightarrow> string \<Rightarrow> ('d, string) st" where
  "delete_host_container D = on_environment D (\<lambda>c. remove_container D c True)"

definition stop_host_container :: "('d, 'i) docker \<Rightarrow> string \<Rightarrow> ('d, string) st" where
  "stop_host_container D = on_environment D (\<lambda>c. stop_container D c 10)"

definition start_host_container :: "('d, 'i) docker \<Rightarrow> string \<Rightarrow> ('d, string) st" where
  "start_host_container D = on_environment D (start_container D)"

section \<open>Tarballs\<close>

text \<open>A file counts when its name ends in \<^verbatim>\<open>.tar\<close> and matches \<^verbatim>\<open>^(.+)-(\d{10,})\.tar$\<close>: what follows the last dash
  is the time.\<close>

definition split_tar_name :: "string \<Rightarrow> (string \<times> int) option" where
  "split_tar_name f =
     (if length f < 4 \<or> drop (length f - 4) f \<noteq> ''.tar'' then None
      else case rsplit1 CHR ''-'' (take (length f - 4) f) of
             None \<Rightarrow> None
           | Some (n, ds) \<Rightarrow>
               if n \<noteq> [] \<and> CHR 0x0A \<notin> set n \<and> isdigit ds \<and> 10 \<le> length ds
               then map_option (Pair n) (int_of_str 10 ds) else None)"

definition tarball_versions :: "('d, 'i) image_host \<Rightarrow> (string \<times> int \<times> string) list" where
  "tarball_versions s =
     List.map_filter (\<lambda>(f, _). map_option (\<lambda>(n, ts). (n, ts, f)) (split_tar_name f)) (files_of s)"

text \<open>The names in the order of their first file, each with its versions, newest first.\<close>

definition list_tarballs :: "('d, 'i) image_host \<Rightarrow> (string, (int \<times> string) list) dict" where
  "list_tarballs s =
     map (\<lambda>n. (n, newest_first (map snd (filter (\<lambda>v. fst v = n) (tarball_versions s)))))
       (rev (remdups (rev (map fst (tarball_versions s)))))"

definition create_tarball ::
  "('d, 'i) docker \<Rightarrow> string \<Rightarrow> int \<Rightarrow> string \<Rightarrow> (('d, 'i) image_host, string) st" where
  "create_tarball D dir now n = (\<lambda>s.
     case resolve_container_name D n (ih_docker s) of
       None \<Rightarrow> (Inl (HTTPException 404 ''Environment not found.''), s)
     | Some c \<Rightarrow>
         (case create_container_tarball D dir now c n s of
            (Some path, s') \<Rightarrow> (Inr path, s')
          | (None, s') \<Rightarrow> (Inl (HTTPException 500 ''Error creating tarball''), s')))"

definition find_tarball :: "string \<Rightarrow> string \<Rightarrow> ('d, 'i) image_host \<Rightarrow> string option" where
  "find_tarball dir n s =
     (let exact = path_join dir (n @ ''.tar'') in
      if file_at dir exact s \<noteq> None then Some exact
      else case list_shared_tarballs dir n s of [] \<Rightarrow> None | (_, path) # _ \<Rightarrow> Some path)"

definition download_container :: "string \<Rightarrow> string \<Rightarrow> ('d, 'i) image_host \<Rightarrow> 'i res" where
  "download_container dir n s =
     (case find_tarball dir n s of
        None \<Rightarrow> Inl (HTTPException 404 ''Container not found.'')
      | Some path \<Rightarrow>
          (case file_at dir path s of
             None \<Rightarrow> Inl (HTTPException 404 ''Container not found.'')
           | Some c \<Rightarrow> Inr c))"

text \<open>A file that cannot be removed ends the deletion; those before it are gone.\<close>

fun delete_paths :: "string \<Rightarrow> string list \<Rightarrow> (('d, 'i) image_host, unit) st" where
  "delete_paths dir [] = return_st ()"
| "delete_paths dir (p # ps) = (\<lambda>s.
     case remove_path dir p s of
       (True, s') \<Rightarrow> delete_paths dir ps s'
     | (False, s') \<Rightarrow>
         (Inl (if file_at dir p s = None then HTTPException 404 ''No such file'' else HTTPException 500 ''Error deleting container''), s'))"

definition delete_tarball :: "string \<Rightarrow> string \<Rightarrow> (('d, 'i) image_host, unit) st" where
  "delete_tarball dir n = (\<lambda>s.
     let exact = path_join dir (n @ ''.tar'');
         paths = map snd (list_shared_tarballs dir n s) @ (if file_at dir exact s \<noteq> None then [exact] else [])
     in if paths = [] then (Inl (HTTPException 404 ''Container not found.''), s)
        else delete_paths dir paths s)"

section \<open>Migration of old names\<close>

definition check_migrate_preconditions :: "('d, 'i) docker \<Rightarrow> string \<Rightarrow> string \<Rightarrow> 'd \<Rightarrow> unit res" where
  "check_migrate_preconditions D old new d =
     (if \<not> container_exists D old d then Inl (HTTPException 404 ''Container not found.'')
      else if container_exists D new d then Inl (HTTPException 409 ''Container already exists. Cannot migrate.'')
      else Inr ())"

definition answer_or_500 :: "unit docker_answer \<times> 'd \<Rightarrow> unit res \<times> 'd" where
  "answer_or_500 r =
     (case r of (Answered _, d) \<Rightarrow> (Inr (), d) | (_, d) \<Rightarrow> (Inl (HTTPException 500 ''Error migrating container''), d))"

text \<open>The container is stopped, committed, made anew under the other name, and the old one removed.  The
  creation of the new one is an operation of the client that starts nothing.\<close>

definition do_migrate_container ::
  "('d, 'i) docker \<Rightarrow> (string \<Rightarrow> string \<Rightarrow> 'd \<Rightarrow> unit docker_answer \<times> 'd) \<Rightarrow> string \<Rightarrow> string \<Rightarrow> ('d, string) st" where
  "do_migrate_container D create old new =
     (let repo = KOHAKURIVER_PREFIX @ ''/'' @ old in
      bind_st (\<lambda>d. answer_or_500 (dk_do D (StopContainer 60) old d)) (\<lambda>_.
      bind_st (\<lambda>d. answer_or_500 (dk_commit D old repo BASE d)) (\<lambda>_.
      bind_st (\<lambda>d. answer_or_500 (create (repo @ '':'' @ BASE) new d)) (\<lambda>_.
      bind_st (\<lambda>d. answer_or_500 (dk_do D (RemoveContainer True) old d)) (\<lambda>_.
      return_st (repo @ '':'' @ BASE))))))"

definition migrate_container ::
  "('d, 'i) docker \<Rightarrow> (string \<Rightarrow> string \<Rightarrow> 'd \<Rightarrow> unit docker_answer \<times> 'd) \<Rightarrow> string \<Rightarrow> ('d, string) st" where
  "migrate_container D create old = (\<lambda>d.
     if startswith old env_prefix then (Inl (HTTPException 400 ''Container already uses the new naming convention.''), d)
     else
       case check_migrate_preconditions D old (make_env_container_name old) d of
         Inl e \<Rightarrow> (Inl e, d)
       | Inr _ \<Rightarrow> do_migrate_container D create old (make_env_container_name old) d)"

end
