(* ===== verification/Docker_Properties.thy ===== *)
theory Docker_Properties
  imports Env_Containers
begin

text \<open>
  What a tarball in the shared directory brings to the runners: a saved environment reaches every runner
  whose image is older, one load settles it, and a save that breaks off blocks them all.
\<close>

section \<open>Names and lists of tarballs\<close>

lemma no_line_end_tar: "no_line_end (p @ ''.tar'') = p @ ''.tar''"
  by (simp add: no_line_end_def)

lemma tar_stamp_tar_name [simp]: "0 \<le> ts \<Longrightarrow> tar_stamp n (tar_name n ts) = Some ts"
  using no_line_end_tar [of "n @ ''-'' @ str_of_int ts"] isdigit_str_of_nat [of "nat ts"]
  by (simp add: tar_stamp_def tar_name_def Let_def str_of_int_def)

text \<open>The digits hold no dash, so the last dash ends the name.\<close>

lemma isdigit_no_dash: "isdigit ds \<Longrightarrow> CHR ''-'' \<notin> set ds"
  by (auto simp: isdigit_def list_all_iff is_digit_char_def Let_def)

lemma tar_stampD:
  assumes "tar_stamp n f = Some ts"
  obtains ds where "no_line_end f = n @ CHR ''-'' # ds @ ''.tar''" "isdigit ds" "int_of_str 10 ds = Some ts"
  using assms by (auto simp: tar_stamp_def Let_def split: if_splits)

lemma tar_stamp_name: "tar_stamp n f = Some ts \<Longrightarrow> tar_stamp n' f = Some ts' \<Longrightarrow> n = n' \<and> ts = ts'"
proof -
  assume a: "tar_stamp n f = Some ts" "tar_stamp n' f = Some ts'"
  obtain ds where d: "no_line_end f = n @ CHR ''-'' # ds @ ''.tar''" "isdigit ds" "int_of_str 10 ds = Some ts" using tar_stampD [OF a(1)] .
  obtain ds' where d': "no_line_end f = n' @ CHR ''-'' # ds' @ ''.tar''" "isdigit ds'" "int_of_str 10 ds' = Some ts'" using tar_stampD [OF a(2)] .
  from d(1) d'(1) have "n @ CHR ''-'' # ds = n' @ CHR ''-'' # ds'" by simp
  then have "rsplit1 CHR ''-'' (n @ CHR ''-'' # ds) = rsplit1 CHR ''-'' (n' @ CHR ''-'' # ds')" by simp
  then show ?thesis using d d' by (simp add: rsplit1_last isdigit_no_dash)
qed

lemma set_newest_first [simp]: "set (newest_first xs) = set xs"
  by (simp add: newest_first_def)

lemma newest_first_head: "newest_first xs = y # ys \<Longrightarrow> y \<in> set xs \<and> (\<forall>x \<in> set xs. fst x \<le> fst y)"
proof -
  assume a: "newest_first xs = y # ys"
  have s: "set xs = set (y # ys)" using set_newest_first [of xs] by (simp add: a)
  have "sorted (map (\<lambda>x. - fst x) (newest_first xs))" by (simp add: newest_first_def)
  then show ?thesis by (auto simp: a s)
qed

lemma set_listed: "set (list_shared_tarballs dir n s) =
    {(ts, path_join dir f) | ts f c. (f, c) \<in> set (files_of s) \<and> tar_stamp (lower n) f = Some ts}"
  by (force simp: list_shared_tarballs_def List.map_filter_def)

lemma listed_max: "list_shared_tarballs dir n s = y # ys \<Longrightarrow> x \<in> set (list_shared_tarballs dir n s) \<Longrightarrow> fst x \<le> fst y"
  unfolding list_shared_tarballs_def by (drule newest_first_head) simp

lemma listed_head:
  assumes "(ts, p) \<in> set (list_shared_tarballs dir n s)" "\<And>ts' p'. (ts', p') \<in> set (list_shared_tarballs dir n s) \<Longrightarrow> ts' < ts \<or> (ts', p') = (ts, p)"
  shows "\<exists>rest. list_shared_tarballs dir n s = (ts, p) # rest"
proof -
  obtain ts' p' ys where c: "list_shared_tarballs dir n s = (ts', p') # ys" using assms(1) by (cases "list_shared_tarballs dir n s") auto
  have "ts \<le> ts'" using listed_max [OF c assms(1)] by simp
  moreover have "ts' < ts \<or> (ts', p') = (ts, p)" by (rule assms(2)) (simp add: c)
  ultimately show ?thesis using c by auto
qed

section \<open>The directory\<close>

text \<open>Names in a directory hold no slash and are distinct.\<close>

definition share_ok :: "('d, 'i) image_host \<Rightarrow> bool" where
  "share_ok s \<longleftrightarrow> dict_ok (files_of s) \<and> (\<forall>f \<in> fst ` set (files_of s). CHR ''/'' \<notin> set f)"

lemma path_join_inj: "CHR ''/'' \<notin> set f \<Longrightarrow> CHR ''/'' \<notin> set g \<Longrightarrow> path_join dir f = path_join dir g \<longleftrightarrow> f = g"
proof -
  assume a: "CHR ''/'' \<notin> set f" "CHR ''/'' \<notin> set g"
  then have "\<not> startswith f ''/''" "\<not> startswith g ''/''" by (auto simp: prefix_def)
  then show ?thesis by (simp add: path_join_def)
qed

lemma tar_name_no_slash: "CHR ''/'' \<notin> set n \<Longrightarrow> 0 \<le> ts \<Longrightarrow> CHR ''/'' \<notin> set (tar_name n ts)"
  by (simp add: tar_name_def str_of_int_def)

lemma found: "find P xs = Some x \<Longrightarrow> x \<in> set xs \<and> P x"
  by (induction xs) (auto split: if_splits)

lemma file_at_name:
  assumes "share_ok s" "(f, c) \<in> set (files_of s)"
  shows "file_at dir (path_join dir f) s = Some c"
proof -
  have d: "distinct (map fst (files_of s))" and f: "CHR ''/'' \<notin> set f"
    using assms by (auto simp: share_ok_def dict_ok_def)
  obtain g where g: "find (\<lambda>(g, _). path_join dir g = path_join dir f) (files_of s) = Some g"
    using assms(2) by (cases "find (\<lambda>(g, _). path_join dir g = path_join dir f) (files_of s)") (auto simp: find_None_iff)
  then have "g \<in> set (files_of s)" "path_join dir (fst g) = path_join dir f" by (auto dest: found)
  moreover from this(1) have "CHR ''/'' \<notin> set (fst g)" using assms(1) by (auto simp: share_ok_def)
  ultimately have "fst g = f" "(f, snd g) \<in> set (files_of s)" using path_join_inj [OF _ f] by auto
  then have "snd g = c" using eq_key_imp_eq_value [OF d _ assms(2)] by blast
  then show ?thesis by (simp add: file_at_def g)
qed

lemma update_other: "f \<noteq> g \<Longrightarrow> (f, c) \<in> set (AList.update g d xs) \<Longrightarrow> (f, c) \<in> set xs"
  by (induction xs) (auto split: if_splits)

lemma remove_path_files:
  "files_of (snd (remove_path dir p s)) = (if ih_locked s p \<or> file_at dir p s = None then files_of s else filter (\<lambda>(f, _). path_join dir f \<noteq> p) (files_of s))"
  "ih_locked (snd (remove_path dir p s)) = ih_locked s" "ih_docker (snd (remove_path dir p s)) = ih_docker s"
  by (simp_all add: remove_path_def files_of_def)

text \<open>Removing the older versions keeps every file with another path.\<close>

lemma remove_fold:
  "set (files_of (fold (\<lambda>(old, path) s'. if old < ts then snd (remove_path dir path s') else s') ps s)) \<subseteq> set (files_of s) \<and>
   {(f, c) \<in> set (files_of s). \<forall>(old, p) \<in> set ps. old < ts \<longrightarrow> path_join dir f \<noteq> p}
     \<subseteq> set (files_of (fold (\<lambda>(old, path) s'. if old < ts then snd (remove_path dir path s') else s') ps s)) \<and>
   ih_docker (fold (\<lambda>(old, path) s'. if old < ts then snd (remove_path dir path s') else s') ps s) = ih_docker s"
proof (induction ps arbitrary: s)
  case (Cons x ps)
  obtain old p where x: "x = (old, p)" by (cases x)
  let ?s = "if old < ts then snd (remove_path dir p s) else s"
  have 1: "set (files_of ?s) \<subseteq> set (files_of s)" "ih_docker ?s = ih_docker s" by (auto simp: remove_path_files)
  have 2: "{(f, c) \<in> set (files_of s). old < ts \<longrightarrow> path_join dir f \<noteq> p} \<subseteq> set (files_of ?s)" by (auto simp: remove_path_files)
  note ih = Cons.IH [of ?s]
  show ?case using ih 1 2 by (auto simp: x; blast)
qed auto

lemma remove_older_files:
  shows "set (files_of (remove_older dir n ts s)) \<subseteq> set (files_of s)"
    and "(f, c) \<in> set (files_of s) \<Longrightarrow> (\<And>old p. (old, p) \<in> set (list_shared_tarballs dir n s) \<Longrightarrow> old < ts \<Longrightarrow> path_join dir f \<noteq> p)
      \<Longrightarrow> (f, c) \<in> set (files_of (remove_older dir n ts s))"
    and "ih_docker (remove_older dir n ts s) = ih_docker s"
proof -
  note r = remove_fold [of ts dir "list_shared_tarballs dir n s" s, folded remove_older_def]
  show "set (files_of (remove_older dir n ts s)) \<subseteq> set (files_of s)" "ih_docker (remove_older dir n ts s) = ih_docker s"
    using r by simp_all
  assume "(f, c) \<in> set (files_of s)" "\<And>old p. (old, p) \<in> set (list_shared_tarballs dir n s) \<Longrightarrow> old < ts \<Longrightarrow> path_join dir f \<noteq> p"
  then have "(f, c) \<in> {(f, c) \<in> set (files_of s). \<forall>(old, p) \<in> set (list_shared_tarballs dir n s). old < ts \<longrightarrow> path_join dir f \<noteq> p}" by auto
  with r show "(f, c) \<in> set (files_of (remove_older dir n ts s))" by blast
qed

text \<open>After the new tarball was written and older ones were removed it is the newest.\<close>

lemma written_newest:
  assumes ok: "share_ok s" and n: "lower n = n" "CHR ''/'' \<notin> set n" and t: "0 \<le> now"
    and old: "\<forall>(ts, p) \<in> set (list_shared_tarballs dir n s). ts < now"
    and s': "set (files_of s') \<subseteq> set (files_of (write_file (tar_name n now) c s))" "(tar_name n now, c) \<in> set (files_of s')"
  shows "\<exists>rest. list_shared_tarballs dir n s' = (now, path_join dir (tar_name n now)) # rest"
proof (rule listed_head)
  show "(now, path_join dir (tar_name n now)) \<in> set (list_shared_tarballs dir n s')"
    using s'(2) t by (auto simp: set_listed n)
next
  fix ts p assume "(ts, p) \<in> set (list_shared_tarballs dir n s')"
  then obtain f c' where f: "(f, c') \<in> set (files_of s')" "tar_stamp n f = Some ts" "p = path_join dir f" by (auto simp: set_listed n)
  show "ts < now \<or> (ts, p) = (now, path_join dir (tar_name n now))"
  proof (cases "f = tar_name n now")
    case False
    have "(f, c') \<in> set (AList.update (tar_name n now) c (files_of s))" using f(1) s'(1) by (auto simp: write_file_def files_of_def)
    then have "(f, c') \<in> set (files_of s)"
      by (rule update_other [OF False])
    then have "(ts, p) \<in> set (list_shared_tarballs dir n s)" using f by (auto simp: set_listed n)
    then show ?thesis using old by auto
  qed (use f t in simp)
qed

lemma remove_path_ok: "share_ok s \<Longrightarrow> share_ok (snd (remove_path dir p s))"
  by (auto simp: share_ok_def remove_path_files dict_ok_def distinct_map_filter)

lemma remove_older_ok: "share_ok s \<Longrightarrow> share_ok (remove_older dir n ts s)"
proof -
  have "share_ok s \<Longrightarrow> share_ok (fold (\<lambda>(old, path) s'. if old < ts then snd (remove_path dir path s') else s') ps s)" for ps
    by (induction ps arbitrary: s) (auto simp: remove_path_ok)
  then show "share_ok s \<Longrightarrow> share_ok (remove_older dir n ts s)" by (simp add: remove_older_def)
qed

lemma write_file_ok: "share_ok s \<Longrightarrow> CHR ''/'' \<notin> set f \<Longrightarrow> share_ok (write_file f c s)"
  by (auto simp: share_ok_def write_file_def files_of_def AList.dom_update split: option.splits)

lemma write_file_files: "files_of (write_file f c s) = AList.update f c (files_of s)"
  by (simp add: write_file_def files_of_def)

lemma share_ok_docker [simp]: "share_ok (s\<lparr>ih_docker := d\<rparr>) = share_ok s" "files_of (s\<lparr>ih_docker := d\<rparr>) = files_of s"
  by (simp_all add: share_ok_def files_of_def)

lemma same_files: "ih_files r = ih_files s \<Longrightarrow> files_of r = files_of s \<and> list_shared_tarballs dir n r = list_shared_tarballs dir n s \<and>
    file_at dir p r = file_at dir p s \<and> share_ok r = share_ok s"
  by (simp add: files_of_def list_shared_tarballs_def file_at_def share_ok_def)

section \<open>The daemon\<close>

text \<open>What the program relies on: a commit stamps the image with the time, a whole export holds the image
  with its stamp, loading it brings it back, and a damaged file cannot be loaded.  \<open>clock\<close> is the daemon's
  time, \<open>holds\<close> the stamp of the image in a tarball.  The stamps are ones the program can read.\<close>

definition docker_laws :: "('d, 'i) docker \<Rightarrow> ('d \<Rightarrow> int) \<Rightarrow> ('i \<Rightarrow> int option) \<Rightarrow> bool" where
  "docker_laws D clock holds \<longleftrightarrow>
     (\<forall>oper c d. clock d \<le> clock (snd (dk_do D oper c d))) \<and>
     (\<forall>c repo t d d'. dk_commit D c repo t d = (Answered (), d') \<longrightarrow>
        (\<exists>ts. get_image_created_timestamp D (repo @ CHR '':'' # t) d' = Some ts \<and> clock d \<le> ts)) \<and>
     (\<forall>t b d c ts. dk_export D t b d = Answered (Complete c) \<longrightarrow> get_image_created_timestamp D t d = Some ts \<longrightarrow> holds c = Some ts) \<and>
     (\<forall>c ts d. holds c = Some ts \<longrightarrow>
        (\<exists>i tags imgs d'. dk_load D c d = (Inr ((i, tags) # imgs), d') \<and> (\<forall>t \<in> set tags. get_image_created_timestamp D t d' = Some ts) \<and>
           (\<forall>t. \<exists>d2. dk_tag D i t d' = (Inr (), d2) \<and> get_image_created_timestamp D t d2 = Some ts))) \<and>
     (\<forall>c d. holds c = None \<longrightarrow> (\<exists>e d'. dk_load D c d = (Inl e, d')))"

lemma docker_lawsD:
  assumes "docker_laws D clock holds"
  shows "clock d \<le> clock (snd (dk_do D oper c d))"
    and "dk_commit D c repo t d = (Answered (), d') \<Longrightarrow> \<exists>ts. get_image_created_timestamp D (repo @ CHR '':'' # t) d' = Some ts \<and> clock d \<le> ts"
    and "dk_export D t b d = Answered (Complete x) \<Longrightarrow> get_image_created_timestamp D t d = Some ts \<Longrightarrow> holds x = Some ts"
    and "holds x = Some ts \<Longrightarrow> \<exists>i tags imgs d'. dk_load D x d = (Inr ((i, tags) # imgs), d') \<and> (\<forall>t \<in> set tags. get_image_created_timestamp D t d' = Some ts) \<and>
           (\<forall>t. \<exists>d2. dk_tag D i t d' = (Inr (), d2) \<and> get_image_created_timestamp D t d2 = Some ts)"
    and "holds x = None \<Longrightarrow> \<exists>e d'. dk_load D x d = (Inl e, d')"
  using assms unfolding docker_laws_def by blast+

lemma stop_clock: "docker_laws D clock holds \<Longrightarrow> clock d \<le> clock (snd (stop_container D c timeout d))"
  using docker_lawsD(1) [of D clock holds d "StopContainer timeout" c]
  by (auto simp: stop_container_def flagged_op_def split: prod.splits docker_answer.splits)

text \<open>A load of a whole tarball succeeds and leaves the image with its stamp; of a damaged one it fails.\<close>

lemma sync_loads:
  assumes "docker_laws D clock holds" "file_at dir path s = Some x" "holds x = Some ts"
  shows "\<exists>d. sync_from_shared D dir n path s = (True, s\<lparr>ih_docker := d\<rparr>) \<and> get_image_created_timestamp D (image_tag n BASE) d = Some ts"
proof -
  obtain i tags imgs d' where l: "dk_load D x (ih_docker s) = (Inr ((i, tags) # imgs), d')" "\<forall>t \<in> set tags. get_image_created_timestamp D t d' = Some ts"
      "\<forall>t. \<exists>d2. dk_tag D i t d' = (Inr (), d2) \<and> get_image_created_timestamp D t d2 = Some ts"
    using docker_lawsD(4) [OF assms(1,3)] by blast
  obtain d2 where d2: "dk_tag D i (image_tag n BASE) d' = (Inr (), d2)" "get_image_created_timestamp D (image_tag n BASE) d2 = Some ts" using l(3) by blast
  show ?thesis
    using l(1,2) d2 assms(2)
    by (cases "image_tag n BASE \<in> set tags") (auto simp: sync_from_shared_def load_image_def on_docker_def)
qed

lemma sync_fails:
  assumes "docker_laws D clock holds" "file_at dir path s = Some x" "holds x = None"
  shows "\<exists>s'. sync_from_shared D dir n path s = (False, s')"
proof -
  obtain e d' where "dk_load D x (ih_docker s) = (Inl e, d')" using docker_lawsD(5) [OF assms(1,3)] by blast
  then show ?thesis using assms(2) by (simp add: sync_from_shared_def load_image_def on_docker_def)
qed

lemma older_needs_sync:
  assumes "list_shared_tarballs dir n r = (now, path) # rest"
    and "\<And>created. get_image_created_timestamp D (image_tag n BASE) (ih_docker r) = Some created \<Longrightarrow> created < now"
  shows "needs_sync D dir n r = (True, Some path)"
  using assms by (auto simp: needs_sync_def split: option.splits)

section \<open>From the host to the runners\<close>

text \<open>The steps of a save that succeeds.\<close>

lemma save_environment_steps:
  assumes "save_environment D dir now src n s = (Inr u, s')"
  obtains d2 d3 c where
    "dk_commit D src (KOHAKURIVER_PREFIX @ ''/'' @ n) BASE (snd (stop_container D src 10 (ih_docker s))) = (Answered (), d2)"
    "dk_export D (image_tag n BASE) False d2 = Answered (Complete c)"
    "s' = (remove_older dir n now (write_file (tar_name n now) c (s\<lparr>ih_docker := d2\<rparr>)))\<lparr>ih_docker := d3\<rparr>"
  using assms
  by (auto simp: save_environment_def bind_st_def on_docker_def return_st_def commit_container_def save_image_def Let_def write_file_def files_of_def
      split: prod.splits sum.splits docker_answer.splits export.splits)

lemma image_tag_repo: "image_tag n BASE = (KOHAKURIVER_PREFIX @ ''/'' @ n) @ CHR '':'' # BASE"
  by (simp add: image_tag_def)

text \<open>A runner whose image is older than the newest tarball, and that tarball is whole.\<close>

lemma sync_settles:
  assumes laws: "docker_laws D clock holds" and r: "share_ok r" "list_shared_tarballs dir n r = (now, path) # rest"
    and c: "file_at dir path r = Some c" "holds c = Some created" "now \<le> created"
    and older: "\<And>created. get_image_created_timestamp D (image_tag n BASE) (ih_docker r) = Some created \<Longrightarrow> created < now"
  shows "needs_sync D dir n r = (True, Some path) \<and>
    (\<exists>r'. ensure_docker_image_synced D dir n r = (True, r') \<and> needs_sync D dir n r' = (False, None))"
proof -
  have need: "needs_sync D dir n r = (True, Some path)" using older_needs_sync [OF r(2)] older by blast
  obtain d where d: "sync_from_shared D dir n path r = (True, r\<lparr>ih_docker := d\<rparr>)" "get_image_created_timestamp D (image_tag n BASE) d = Some created"
    using sync_loads [OF laws c(1,2)] by blast
  have "list_shared_tarballs dir n (r\<lparr>ih_docker := d\<rparr>) = (now, path) # rest" using r(2) by (simp add: list_shared_tarballs_def)
  then have "needs_sync D dir n (r\<lparr>ih_docker := d\<rparr>) = (False, None)" using d(2) c(3) by (simp add: needs_sync_def)
  then show ?thesis using need d(1) by (simp add: ensure_docker_image_synced_def)
qed

text \<open>C24: a saved environment reaches the runners.  After the host made a tarball, a runner whose image is
  older, or that has none, is told to load exactly that tarball; the check before a task does so, and
  then finds nothing more to load.\<close>

theorem saved_environment_reaches_runners:
  assumes laws: "docker_laws D clock holds" and ok: "share_ok s"
    and n: "lower n = n" "CHR ''/'' \<notin> set n" and now: "0 \<le> now" "now \<le> clock (ih_docker s)"
    and old: "\<forall>(ts, p) \<in> set (list_shared_tarballs dir n s). ts < now"
    and create: "create_container_tarball D dir now src n s = (Some path, s')"
    and r: "ih_files r = ih_files s'"
    and older: "\<And>created. get_image_created_timestamp D (image_tag n BASE) (ih_docker r) = Some created \<Longrightarrow> created < now"
  shows "needs_sync D dir n r = (True, Some path) \<and>
    (\<exists>r'. ensure_docker_image_synced D dir n r = (True, r') \<and> needs_sync D dir n r' = (False, None))"
proof -
  let ?f = "tar_name n now"
  from create have path: "path = path_join dir ?f" and se: "\<exists>u. save_environment D dir now src n s = (Inr u, s')"
    by (auto simp: create_container_tarball_def split: prod.splits sum.splits)
  then obtain d2 d3 c where st:
      "dk_commit D src (KOHAKURIVER_PREFIX @ ''/'' @ n) BASE (snd (stop_container D src 10 (ih_docker s))) = (Answered (), d2)"
      "dk_export D (image_tag n BASE) False d2 = Answered (Complete c)"
      "s' = (remove_older dir n now (write_file ?f c (s\<lparr>ih_docker := d2\<rparr>)))\<lparr>ih_docker := d3\<rparr>"
    using save_environment_steps by metis
  obtain created where cr: "get_image_created_timestamp D (image_tag n BASE) d2 = Some created" "clock (snd (stop_container D src 10 (ih_docker s))) \<le> created"
    using docker_lawsD(2) [OF laws st(1)] by (auto simp: image_tag_repo)
  have h: "holds c = Some created" by (rule docker_lawsD(3) [OF laws st(2) cr(1)])
  have fresh: "now \<le> created" using cr(2) now(2) stop_clock [OF laws, of "ih_docker s" src 10] by linarith
  let ?w = "write_file ?f c (s\<lparr>ih_docker := d2\<rparr>)"
  have w: "share_ok ?w" "(?f, c) \<in> set (files_of ?w)"
    using write_file_ok [of "s\<lparr>ih_docker := d2\<rparr>" ?f c] ok tar_name_no_slash [OF n(2) now(1)]
    by (auto simp: write_file_files dest: map_of_SomeD intro!: map_of_SomeD simp: get_update)
  have slash: "CHR ''/'' \<notin> set g" if "(g, x) \<in> set (files_of ?w)" for g x using w(1) that by (force simp: share_ok_def)
  have kept: "(?f, c) \<in> set (files_of (remove_older dir n now ?w))"
  proof (rule remove_older_files(2) [OF w(2)])
    fix ts p assume "(ts, p) \<in> set (list_shared_tarballs dir n ?w)" "ts < now"
    then obtain g x where "(g, x) \<in> set (files_of ?w)" "tar_stamp n g = Some ts" "p = path_join dir g" by (auto simp: set_listed n)
    then show "path_join dir ?f \<noteq> p" using \<open>ts < now\<close> now(1) path_join_inj [OF slash [OF w(2)] slash] by auto
  qed
  have s': "share_ok s'" "files_of s' = files_of (remove_older dir n now ?w)" using st(3) remove_older_ok [OF w(1)] by simp_all
  obtain rest where l: "list_shared_tarballs dir n s' = (now, path) # rest"
    using written_newest [OF ok n now(1) old, of s' c] remove_older_files(1) [of dir n now ?w] kept
    by (auto simp: s'(2) path write_file_files)
  note same = same_files [OF r]
  show ?thesis
    using sync_settles [OF laws, of r dir n now path rest c created] same l s'(1) file_at_name [OF s'(1), of ?f c dir] kept h fresh older
    by (simp add: s'(2) path)
qed

text \<open>A daemon that keeps its images with their stamps and a clock that knows two times; a tarball is
  the stamp of its image, or damaged.  With \<open>broken\<close> every export breaks off.\<close>

type_synonym demo_daemon = "(string, string) dict \<times> nat"

definition demo_stamp :: "nat \<Rightarrow> string" where
  "demo_stamp n = (if n < 20 then ''1970-01-01T00:00:10.25Z'' else ''1970-01-01T00:00:20.123456789Z'')"

definition demo_time :: "demo_daemon \<Rightarrow> int" where
  "demo_time d = (if snd d < 20 then 10 else 20)"

definition demo_held :: "string option \<Rightarrow> int option" where
  "demo_held c = (case c of None \<Rightarrow> None | Some t \<Rightarrow> if t = [] then None else iso_timestamp False (\<lambda>t. t) t)"

definition demo_docker :: "bool \<Rightarrow> (demo_daemon, string option) docker" where
  "demo_docker broken = \<lparr>dk_containers = (\<lambda>d. []), dk_do = (\<lambda>oper c d. (Answered (), d)),
     dk_run = (\<lambda>img cmd n kw d. (Answered ''running'', d)), dk_probe = (\<lambda>img m d. (False, d)), dk_ports = (\<lambda>n d. None),
     dk_pull = (\<lambda>img d. (Inr (), d)),
     dk_commit = (\<lambda>c repo t d. (Answered (), (AList.update (repo @ CHR '':'' # t) (demo_stamp (snd d)) (fst d), snd d))),
     dk_created = (\<lambda>t d. case map_of (fst d) t of None \<Rightarrow> NotFound | Some ts \<Rightarrow> Answered (Some ts)),
     dk_python310 = False, dk_local = (\<lambda>t. t),
     dk_export = (\<lambda>t named d. case map_of (fst d) t of None \<Rightarrow> NotFound
       | Some ts \<Rightarrow> Answered (if broken then BrokenOff None ''disk full'' else Complete (Some ts))),
     dk_load = (\<lambda>c d. case demo_held c of None \<Rightarrow> (Inl (DockerError ''unexpected EOF''), d) | Some _ \<Rightarrow> (Inr [(the c, [])], d)),
     dk_tag = (\<lambda>i t d. (Inr (), (AList.update t i (fst d), snd d))),
     dk_rmi = (\<lambda>t force d. (Answered (), (AList.delete t (fst d), snd d))), dk_prune = (\<lambda>d. (Inr 0, d))\<rparr>"

lemma demo_stamp_reads: "iso_timestamp False (\<lambda>t. t) (demo_stamp n) = Some (if n < 20 then 10 else 20)"
proof -
  have "iso_timestamp False (\<lambda>t. t) ''1970-01-01T00:00:10.25Z'' = Some 10"
    "iso_timestamp False (\<lambda>t. t) ''1970-01-01T00:00:20.123456789Z'' = Some 20" by code_simp+
  then show ?thesis by (simp add: demo_stamp_def)
qed

lemma demo_image_stamp:
  "get_image_created_timestamp (demo_docker b) t d = (case map_of (fst d) t of None \<Rightarrow> None | Some s \<Rightarrow> demo_held (Some s))"
  by (simp add: get_image_created_timestamp_def demo_docker_def demo_held_def split: option.split)

lemma demo_docker_laws: "docker_laws (demo_docker b) demo_time demo_held"
proof -
  have "demo_held (Some (demo_stamp n)) = Some (if n < 20 then 10 else 20)" for n
    by (simp add: demo_held_def demo_stamp_reads) (simp add: demo_stamp_def)
  moreover have "demo_held c = Some ts \<Longrightarrow> demo_held (Some (the c)) = Some ts" for c ts
    by (auto simp: demo_held_def split: option.splits)
  ultimately show ?thesis
    by (auto simp: docker_laws_def demo_image_stamp) (auto simp: demo_docker_def demo_time_def get_update split: option.splits if_splits)
qed

text \<open>The host at time 20, with an environment saved at time 10.\<close>

definition demo_host :: "(demo_daemon, string option) image_host" where
  "demo_host = \<lparr>ih_docker = ([], 20), ih_files = Some [(''py-10.tar'', Some (demo_stamp 10))], ih_locked = (\<lambda>p. False)\<rparr>"

definition demo_image_runner :: "(demo_daemon, string option) image_host \<Rightarrow> (demo_daemon, string option) image_host" where
  "demo_image_runner s = \<lparr>ih_docker = ([(image_tag ''py'' BASE, demo_stamp 10)], 21), ih_files = ih_files s, ih_locked = (\<lambda>p. False)\<rparr>"

lemma demo_host_facts:
  "share_ok demo_host" "lower ''py'' = ''py''" "CHR ''/'' \<notin> set ''py''"
  "\<forall>(ts, p) \<in> set (list_shared_tarballs ''/c'' ''py'' demo_host). ts < 20"
  "ih_docker demo_host = ([], 20)"
proof -
  have "tar_stamp ''py'' (tar_name ''py'' 10) = Some 10" by simp
  moreover have n: "tar_name ''py'' 10 = ''py-10.tar''" by code_simp
  ultimately have t: "tar_stamp ''py'' ''py-10.tar'' = Some 10" by simp
  show l: "lower ''py'' = ''py''" by code_simp
  show "\<forall>(ts, p) \<in> set (list_shared_tarballs ''/c'' ''py'' demo_host). ts < 20"
    by (auto simp: set_listed l demo_host_def files_of_def t)
qed (simp_all add: demo_host_def share_ok_def files_of_def dict_ok_def)

lemma demo_image_runner_older:
  "ih_files (demo_image_runner s) = ih_files s"
  "get_image_created_timestamp (demo_docker b) (image_tag ''py'' BASE) (ih_docker (demo_image_runner s)) = Some created \<Longrightarrow> created < 20"
  by (simp_all add: demo_image_runner_def demo_image_stamp demo_held_def demo_stamp_reads split: if_splits)

text \<open>C37: a save that breaks off blocks the runners.  The part of the tarball that was written stays in the
  shared directory as the newest version: the host gives up and removes its image, and on every runner
  with an older image the check before a task fails, although the older versions are all still there.\<close>

theorem broken_save_blocks_runners:
  assumes laws: "docker_laws D clock holds" and ok: "share_ok s"
    and n: "lower n = n" "CHR ''/'' \<notin> set n" and now: "0 \<le> now"
    and old: "\<forall>(ts, p) \<in> set (list_shared_tarballs dir n s). ts < now"
    and commit: "dk_commit D src (KOHAKURIVER_PREFIX @ ''/'' @ n) BASE (snd (stop_container D src 10 (ih_docker s))) = (Answered (), d2)"
    and export: "dk_export D (image_tag n BASE) False d2 = Answered (BrokenOff c e)" "holds c = None"
    and create: "create_container_tarball D dir now src n s = (res, s')"
    and r: "ih_files r = ih_files s'"
    and older: "\<And>created. get_image_created_timestamp D (image_tag n BASE) (ih_docker r) = Some created \<Longrightarrow> created < now"
  shows "res = None \<and> set (list_shared_tarballs dir n s) \<subseteq> set (list_shared_tarballs dir n r) \<and>
    (\<exists>r'. ensure_docker_image_synced D dir n r = (False, r'))"
proof -
  let ?f = "tar_name n now" and ?d = "snd (stop_container D src 10 (ih_docker s))"
  let ?w = "write_file ?f c (s\<lparr>ih_docker := d2\<rparr>)"
  have "save_environment D dir now src n s = (Inl (DockerError e), ?w)"
    using commit export(1)
    by (simp add: save_environment_def bind_st_def on_docker_def commit_container_def save_image_def Let_def write_file_def files_of_def)
  then have s': "res = None" "ih_files s' = ih_files ?w"
    using create by (auto simp: create_container_tarball_def)
  have w: "share_ok ?w" "(?f, c) \<in> set (files_of ?w)"
    using write_file_ok [of "s\<lparr>ih_docker := d2\<rparr>" ?f c] ok tar_name_no_slash [OF n(2) now]
    by (auto simp: write_file_files intro!: map_of_SomeD simp: get_update)
  note same = same_files [OF trans [OF r s'(2)]]
  obtain rest where l: "list_shared_tarballs dir n r = (now, path_join dir ?f) # rest"
    using written_newest [OF ok n now old, of r c] w(2) same by (auto simp: write_file_files)
  have keep: "(g, x) \<in> set (files_of ?w)" if "(g, x) \<in> set (files_of s)" "g \<noteq> ?f" for g x
    using that ok by (auto simp: write_file_files share_ok_def dict_ok_def get_update intro!: map_of_SomeD)
  have sub: "set (list_shared_tarballs dir n s) \<subseteq> set (list_shared_tarballs dir n r)"
  proof (clarify)
    fix ts p assume m: "(ts, p) \<in> set (list_shared_tarballs dir n s)"
    then obtain g x where g: "(g, x) \<in> set (files_of s)" "tar_stamp n g = Some ts" "p = path_join dir g" by (auto simp: set_listed n)
    then have "g \<noteq> ?f" using old m now by auto
    then show "(ts, p) \<in> set (list_shared_tarballs dir n r)" using keep [OF g(1)] g same by (auto simp: set_listed n)
  qed
  have "needs_sync D dir n r = (True, Some (path_join dir ?f))" using older_needs_sync [OF l] older by blast
  moreover obtain r' where "sync_from_shared D dir n (path_join dir ?f) r = (False, r')"
    using sync_fails [OF laws, of dir "path_join dir ?f" r c n] file_at_name [OF w, of dir] same export(2) by auto
  ultimately show ?thesis using s'(1) sub by (simp add: ensure_docker_image_synced_def)
qed

text \<open>On Python 3.10 the check never ends: a stamp to the nanosecond cannot be read, so the newest tarball is
  loaded again before every task.\<close>

theorem unread_stamp_always_syncs:
  assumes "dk_python310 D" "dk_created D (image_tag n BASE) (ih_docker s) = Answered (Some (civil @ ''.'' @ ds @ ''Z''))"
    "length civil = 19" "CHR ''Z'' \<notin> set civil" "list_all is_digit_char ds" "length ds = 9"
    "list_shared_tarballs dir n s = (ts, path) # rest"
  shows "needs_sync D dir n s = (True, Some path)"
  using assms nanoseconds_unread [OF assms(3-5)] by (simp add: needs_sync_def get_image_created_timestamp_def)

lemma saved_environment_reaches_runners_witness:
  "\<exists>path s' r'. create_container_tarball (demo_docker False) ''/c'' 20 ''env'' ''py'' demo_host = (Some path, s') \<and>
     needs_sync (demo_docker False) ''/c'' ''py'' (demo_image_runner s') = (True, Some path) \<and>
     ensure_docker_image_synced (demo_docker False) ''/c'' ''py'' (demo_image_runner s') = (True, r') \<and>
     needs_sync (demo_docker False) ''/c'' ''py'' r' = (False, None)"
proof -
  let ?D = "demo_docker False"
  have c: "commit_container ?D c repo t d = (Inr (), (AList.update (repo @ CHR '':'' # t) (demo_stamp (snd d)) (fst d), snd d))" for c repo t d
    by (simp add: commit_container_def demo_docker_def)
  have st: "snd (stop_container ?D c to d) = d" for c to d by (simp add: stop_container_def flagged_op_def demo_docker_def)
  obtain s' where s': "create_container_tarball ?D ''/c'' 20 ''env'' ''py'' demo_host = (Some (path_join ''/c'' (tar_name ''py'' 20)), s')"
    by (simp add: create_container_tarball_def save_environment_def bind_st_def on_docker_def c st return_st_def save_image_def image_tag_repo)
       (simp add: demo_docker_def get_update Let_def)
  have now: "(0::int) \<le> 20" "20 \<le> demo_time (ih_docker demo_host)" by (simp_all add: demo_host_facts demo_time_def)
  from saved_environment_reaches_runners [OF demo_docker_laws demo_host_facts(1,2,3) now demo_host_facts(4) s'
      demo_image_runner_older(1) demo_image_runner_older(2) [where s = s' and b = False]] s'
  show ?thesis by blast
qed

lemma broken_save_blocks_runners_witness:
  "\<exists>s' r'. create_container_tarball (demo_docker True) ''/c'' 20 ''env'' ''py'' demo_host = (None, s') \<and>
     ensure_docker_image_synced (demo_docker True) ''/c'' ''py'' (demo_image_runner s') = (False, r')"
proof -
  let ?D = "demo_docker True" and ?d2 = "([(image_tag ''py'' BASE, demo_stamp 20)], 20)"
  have st: "snd (stop_container ?D c to d) = d" for c to d by (simp add: stop_container_def flagged_op_def demo_docker_def)
  have commit: "dk_commit ?D ''env'' (KOHAKURIVER_PREFIX @ ''/'' @ ''py'') BASE (snd (stop_container ?D ''env'' 10 (ih_docker demo_host))) = (Answered (), ?d2)"
    unfolding st demo_host_facts(5) by (simp add: demo_docker_def image_tag_repo)
  have ex: "dk_export ?D (image_tag ''py'' BASE) False ?d2 = Answered (BrokenOff None ''disk full'')" by (simp add: demo_docker_def)
  obtain r s' where c: "create_container_tarball ?D ''/c'' 20 ''env'' ''py'' demo_host = (r, s')" by force
  have "(0::int) \<le> 20" by simp
  moreover have "demo_held None = None" by (simp add: demo_held_def)
  ultimately show ?thesis using broken_save_blocks_runners [OF demo_docker_laws demo_host_facts(1,2,3) _ demo_host_facts(4) commit ex _ c
      demo_image_runner_older(1) demo_image_runner_older(2) [where s = s' and b = True]] c by blast
qed

end
