(* ===== verification/Cluster.thy ===== *)
theory Cluster
  imports Host_Properties Monitor_Properties Runner_Properties
begin

text \<open>
  The host and its runners together.  Each event of the cluster is a list of events of the host and, for
  every runner, a list of events of that runner: the request to run a task that the host has sent arrives
  at the runner with its URL, a report of a runner arrives at the host (at any time, in any order, more than
  once or never: a report is sent over HTTP, and an error is logged and dropped), and a heartbeat carries
  what the runner's store lists.
\<close>

section \<open>The cluster\<close>

record ('k, 's) cluster =
  cl_host :: "'k host"
  cl_runners :: "string \<Rightarrow> 's runner"

record ('k, 's) cluster_env =
  ce_host :: "'k environment"
  ce_runner :: "string \<Rightarrow> 's runner_env"
  ce_at :: "string \<Rightarrow> string option" \<comment> \<open>the runner at a URL\<close>

datatype cluster_event =
    OnHost host_event
  | OnRunner string runner_event
  | TaskArrives nat bool int \<comment> \<open>position in the outbox, whether the runner can take it, time\<close>
  | ReportArrives string nat int \<comment> \<open>runner, position in its reports, time\<close>
  | Beat string int heartbeat_request bool \<comment> \<open>runner, time, measurements, whether the answer comes back\<close>

text \<open>A runner executes what the host sends and nothing else.\<close>

fun executes :: "runner_event \<Rightarrow> bool" where
  "executes (ExecuteRequest ok now q) = True"
| "executes _ = False"

definition heartbeat_payload :: "('k, 's) cluster_env \<Rightarrow> string \<Rightarrow> ('k, 's) cluster \<Rightarrow> (int list \<times> (int \<times> string) list) option" where
  "heartbeat_payload E n c = fst (begin_heartbeat (re_vault (ce_runner E n)) True (cl_runners c n))"

fun host_part :: "('k, 's) cluster_env \<Rightarrow> cluster_event \<Rightarrow> ('k, 's) cluster \<Rightarrow> host_event list" where
  "host_part E (OnHost e) c = [e]"
| "host_part E (ReportArrives n k now) c =
     (let us = r_reports (cl_runners c n) in if k < length us then [StatusUpdate now (fst (us ! k)) (snd (us ! k))] else [])"
| "host_part E (Beat n now rq ok) c =
     (case heartbeat_payload E n c of
        None \<Rightarrow> []
      | Some (running, killed) \<Rightarrow> [NodeHeartbeat now n (rq\<lparr>hb_running := running, hb_killed := killed\<rparr>)])"
| "host_part E e c = []"

definition arriving :: "('k, 's) cluster_env \<Rightarrow> nat \<Rightarrow> string \<Rightarrow> ('k, 's) cluster \<Rightarrow> exec_request option" where
  "arriving E k n c =
     (if k < length (outbox (cl_host c))
      then (case outbox (cl_host c) ! k of
              ExecuteCall u d \<Rightarrow> if ce_at E u = Some n then (case received_task d of Inl e \<Rightarrow> None | Inr q \<Rightarrow> Some q) else None
            | _ \<Rightarrow> None)
      else None)"

fun runner_part :: "('k, 's) cluster_env \<Rightarrow> cluster_event \<Rightarrow> string \<Rightarrow> ('k, 's) cluster \<Rightarrow> runner_event list" where
  "runner_part E (OnRunner m e) n c = (if n = m \<and> \<not> executes e then [e] else [])"
| "runner_part E (TaskArrives k ok now) n c = (case arriving E k n c of None \<Rightarrow> [] | Some q \<Rightarrow> [ExecuteRequest ok now q])"
| "runner_part E (Beat m now rq ok) n c = (if n = m \<and> heartbeat_payload E m c \<noteq> None then [HeartbeatTick True, HeartbeatAnswer ok] else [])"
| "runner_part E e n c = []"

definition cluster_step :: "('k, 's) cluster_env \<Rightarrow> cluster_event \<Rightarrow> ('k, 's) cluster \<Rightarrow> ('k, 's) cluster" where
  "cluster_step E e c =
     \<lparr>cl_host = fold (host_step (ce_host E)) (host_part E e c) (cl_host c),
      cl_runners = (\<lambda>n. fold (runner_step (ce_runner E n)) (runner_part E e n c) (cl_runners c n))\<rparr>"

lemma cluster_step_parts [simp]:
  "cl_host (cluster_step E e c) = fold (host_step (ce_host E)) (host_part E e c) (cl_host c)"
  "cl_runners (cluster_step E e c) n = fold (runner_step (ce_runner E n)) (runner_part E e n c) (cl_runners c n)"
  by (simp_all add: cluster_step_def)

lemma host_part_one: "host_part E e c = [] \<or> (\<exists>h. host_part E e c = [h])"
  by (cases "(E, e, c)" rule: host_part.cases) (auto simp: Let_def split: option.split)

lemma cluster_host_keeps:
  assumes "P (cl_host c)" "\<And>e' h. P h \<Longrightarrow> host_part E e c = [e'] \<Longrightarrow> P (host_step (ce_host E) e' h)"
  shows "P (cl_host (cluster_step E e c))"
  using host_part_one [of E e c] assms by auto

lemma cluster_keyed:
  "tasks_keyed (cl_host c) \<Longrightarrow> tasks_keyed (cl_host (cluster_step E e c))"
  by (rule cluster_host_keeps) (auto intro: host_step_keyed)

section \<open>A completed task has exited with 0\<close>

definition ends_well :: "int \<Rightarrow> cluster_event \<Rightarrow> ('k, 's) cluster \<Rightarrow> bool" where
  "ends_well i e c \<longleftrightarrow>
     (\<exists>n now k err. e = OnRunner n (ExecutionResumes now k (Exited 0 err)) \<and> k < length (r_execs (cl_runners c n)) \<and>
        ex_stage (r_execs (cl_runners c n) ! k) = AwaitExit \<and> er_task_id (ex_request (r_execs (cl_runners c n) ! k)) = i)"

fun told_directly :: "int \<Rightarrow> cluster_event \<Rightarrow> bool" where
  "told_directly i (OnHost (StatusUpdate now j u)) \<longleftrightarrow> j = i"
| "told_directly i e \<longleftrightarrow> False"

interpretation uncompleted: row_law "\<lambda>t. status t \<noteq> ''completed''" "\<lambda>a t. status t \<noteq> ''completed''" "(True, \<lambda>st. st \<noteq> ''completed'')"
proof unfold_locales
  show "status t' \<noteq> ''completed''" if "status t \<noteq> ''completed''" "moves (True, \<lambda>st. st \<noteq> ''completed'') t t'" for t t'
    using that(2,1) by (cases rule: moves.cases) (simp_all add: apply_task_updates_def)
  show "status t' \<noteq> ''completed''" if "status t \<noteq> ''completed''" "overwrites t t'" for t t'
    using that(2,1) by (cases rule: overwrites.cases) auto
qed

abbreviation open_rows :: "int \<Rightarrow> 'k host \<Rightarrow> bool" where
  "open_rows i h \<equiv> lawful (\<lambda>t. status t \<noteq> ''completed'') (\<lambda>a t. status t \<noteq> ''completed'') {i} h"

definition open_reports :: "int \<Rightarrow> 's runner \<Rightarrow> bool" where
  "open_reports i r \<longleftrightarrow> (\<forall>u. (i, u) \<in> set (r_reports r) \<longrightarrow> su_status u \<noteq> ''completed'')"

text \<open>The one step of a runner that reports a completion.\<close>

lemma resume_open:
  assumes "resume_execution V cfg tp topology now inp x r = (y, r')" "open_reports i r"
    and "\<not> (ex_stage x = AwaitExit \<and> er_task_id (ex_request x) = i \<and> (\<exists>err. inp = Exited 0 err))"
  shows "open_reports i r'"
proof -
  have st: "interpret_exit_code code err = (''completed'', m) \<Longrightarrow> code = 0" for code err m
    by (simp add: interpret_exit_code_def split: if_splits)
  show ?thesis
    using assms unfolding resume_execution_def open_reports_def
    by (auto simp: Let_def report_task_failure_def report_status_to_host_def bare_update_def
        split: exec_stage.splits exec_input.splits if_splits sum.splits option.splits prod.splits dest!: st)
qed

lemma runner_step_open:
  assumes "open_reports i r"
    and "\<And>now k err. e = ExecutionResumes now k (Exited 0 err) \<Longrightarrow> k < length (r_execs r) \<Longrightarrow>
      ex_stage (r_execs r ! k) = AwaitExit \<Longrightarrow> er_task_id (ex_request (r_execs r ! k)) \<noteq> i"
  shows "open_reports i (runner_step env e r)"
proof (cases e)
  case (ExecutionResumes now n inp)
  show ?thesis
  proof (cases "n < length (r_execs r)")
    case True
    obtain y r' where y: "resume_execution (re_vault env) (re_cfg env) (re_tunnel env) (re_topology env) now inp (r_execs r ! n) r = (y, r')"
      by (cases "resume_execution (re_vault env) (re_cfg env) (re_tunnel env) (re_topology env) now inp (r_execs r ! n) r")
    have "open_reports i r'" by (rule resume_open [OF y assms(1)]) (use assms(2) ExecutionResumes True in auto)
    then show ?thesis using True by (simp add: ExecutionResumes execution_resumes_def y open_reports_def)
  qed (use assms(1) in \<open>simp add: ExecutionResumes execution_resumes_def\<close>)
next
  case (CreationResumes now n inp)
  then show ?thesis using assms(1)
    unfolding creation_resumes_def resume_creation_def start_vps_container_def finalize_vps_def vps_failure_def open_reports_def
    by (auto simp: Let_def creation_resumes_def resume_creation_def start_vps_container_def finalize_vps_def vps_failure_def
        report_status_to_host_def bare_update_def split: vps_stage.splits vps_input.splits option.splits sum.splits prod.splits if_splits)
qed (use assms(1) in \<open>auto simp: runner_defs open_reports_def Let_def bare_update_def split: option.split\<close>)


lemma runner_part_resumes:
  assumes "ExecutionResumes now k inp \<in> set (runner_part E e n c)"
  shows "e = OnRunner n (ExecutionResumes now k inp) \<and> runner_part E e n c = [ExecutionResumes now k inp]"
  using assms by (cases e) (auto split: if_splits option.splits)

definition still_open :: "int \<Rightarrow> ('k, 's) cluster \<Rightarrow> bool" where
  "still_open i c \<longleftrightarrow> tasks_keyed (cl_host c) \<and> open_rows i (cl_host c) \<and> (\<forall>n. open_reports i (cl_runners c n))"

lemma newborn_open: "newborn t \<Longrightarrow> status t \<noteq> ''completed''"
  by (auto simp: newborn_def)

lemma run_open:
  assumes "open_reports i r" "\<And>now k err. ExecutionResumes now k (Exited 0 err) \<notin> set es"
  shows "open_reports i (fold (runner_step env) es r)"
  using assms
proof (induction es arbitrary: r)
  case (Cons e es)
  have "open_reports i (runner_step env e r)" by (rule runner_step_open [OF Cons.prems(1)]) (use Cons.prems(2) in auto)
  then show ?case using Cons.IH Cons.prems(2) by auto
qed simp

lemma cluster_step_open:
  assumes "still_open i c" "\<not> ends_well i e c" "\<not> told_directly i e"
  shows "still_open i (cluster_step E e c)"
proof -
  have "tasks_keyed (cl_host (cluster_step E e c)) \<and> open_rows i (cl_host (cluster_step E e c))"
  proof (rule cluster_host_keeps)
    fix e' and h :: "'a host"
    assume h: "tasks_keyed h \<and> open_rows i h" and e': "host_part E e c = [e']"
    have "\<not> excluded (True, \<lambda>st. st \<noteq> ''completed'') i e'"
    proof (cases e)
      case (OnHost x)
      then show ?thesis using e' assms(3) by (cases x) auto
    next
      case (ReportArrives n k now)
      then show ?thesis using e' assms(1) nth_mem [of k "r_reports (cl_runners c n)"]
        by (cases "r_reports (cl_runners c n) ! k") (auto simp: Let_def still_open_def open_reports_def split: if_splits)
    qed (use e' in \<open>auto split: option.splits\<close>)
    then show "tasks_keyed (host_step (ce_host E) e' h) \<and> open_rows i (host_step (ce_host E) e' h)"
      using h uncompleted.step_lawful [of h "{i}" e' "ce_host E"] by (simp add: host_step_keyed newborn_open)
  qed (use assms(1) in \<open>simp add: still_open_def\<close>)
  moreover have "open_reports i (cl_runners (cluster_step E e c) n)" for n
  proof (cases "\<exists>now k err. ExecutionResumes now k (Exited 0 err) \<in> set (runner_part E e n c)")
    case True
    then obtain now k err where e: "ExecutionResumes now k (Exited 0 err) \<in> set (runner_part E e n c)" by blast
    note e = runner_part_resumes [OF e]
    have "open_reports i (runner_step (ce_runner E n) (ExecutionResumes now k (Exited 0 err)) (cl_runners c n))"
    proof (rule runner_step_open)
      show "open_reports i (cl_runners c n)" using assms(1) by (simp add: still_open_def)
    qed (use assms(2) e in \<open>auto simp: ends_well_def\<close>)
    with e show ?thesis by simp
  next
    case False
    then show ?thesis using assms(1) by (simp add: still_open_def run_open)
  qed
  ultimately show ?thesis by (simp add: still_open_def)
qed

lemma run_uncompleted:
  assumes "still_open i c" "list_all (\<lambda>e. \<not> told_directly i e) es"
    and "\<And>es1 e es2. es = es1 @ e # es2 \<Longrightarrow> \<not> ends_well i e (fold (cluster_step E) es1 c)"
  shows "still_open i (fold (cluster_step E) es c)"
  using assms
proof (induction es arbitrary: c)
  case (Cons e es)
  have "still_open i (cluster_step E e c)"
    using Cons.prems(2) Cons.prems(3) [of "[]" e es] by (intro cluster_step_open [OF Cons.prems(1)]) simp_all
  then have "still_open i (fold (cluster_step E) es (cluster_step E e c))"
    by (rule Cons.IH) (use Cons.prems(2) Cons.prems(3) [of "e # _"] in simp_all)
  then show ?case by simp
qed simp

text \<open>C4: a task that the host shows as completed has exited with code 0 on a runner.  In every run of
  the host and its runners from an empty host, with users, monitor passes, heartbeats, and reports that
  arrive late, twice, out of order or never: when the row of a task is \<open>completed\<close>, an execution of this task
  was waiting for its container, and the container ended with code 0.\<close>

theorem completed_means_exited_zero:
  assumes "host_init (cl_host c)" "\<forall>n. r_reports (cl_runners c n) = []"
    and "list_all (\<lambda>e. \<not> told_directly i e) es"
    and "get_task i (cl_host (fold (cluster_step E) es c)) = Some t" "status t = ''completed''"
  shows "\<exists>es1 n now k err es2. es = es1 @ OnRunner n (ExecutionResumes now k (Exited 0 err)) # es2 \<and>
    (let xs = r_execs (cl_runners (fold (cluster_step E) es1 c) n) in
       k < length xs \<and> ex_stage (xs ! k) = AwaitExit \<and> er_task_id (ex_request (xs ! k)) = i)"
proof (rule ccontr)
  assume no: "\<not> ?thesis"
  have "still_open i c" using assms(1,2) by (simp add: still_open_def host_init_def lawful_def get_task_def open_reports_def)
  then have "still_open i (fold (cluster_step E) es c)"
    by (rule run_uncompleted [OF _ assms(3)]) (use no in \<open>unfold ends_well_def Let_def, blast\<close>)
  then show False using assms(4,5) by (auto simp: still_open_def lawful_def)
qed


section \<open>What was not approved does not run\<close>

definition exec_ids :: "'s runner \<Rightarrow> int set" where
  "exec_ids r = (\<lambda>x. er_task_id (ex_request x)) ` set (r_execs r)"

fun requested :: "runner_event \<Rightarrow> int set" where
  "requested (ExecuteRequest ok now q) = {er_task_id q}"
| "requested _ = {}"

lemma execs_of_ids: "execs_of i r = [] \<longleftrightarrow> i \<notin> exec_ids r"
  by (auto simp: execs_of_def exec_ids_def filter_empty_conv)

lemma step_exec_ids: "exec_ids (runner_step env e r) \<subseteq> exec_ids r \<union> requested e"
proof (cases e)
  case (ExecutionResumes now n inp)
  show ?thesis
  proof (cases "n < length (r_execs r)")
    case True
    obtain y r' where y: "resume_execution (re_vault env) (re_cfg env) (re_tunnel env) (re_topology env) now inp (r_execs r ! n) r = (y, r')"
      by (cases "resume_execution (re_vault env) (re_cfg env) (re_tunnel env) (re_topology env) now inp (r_execs r ! n) r")
    from resume_own_step [OF y] have "y = Some z \<Longrightarrow> ex_request z = ex_request (r_execs r ! n)" for z by (simp add: own_step_def)
    then show ?thesis using True nth_mem [OF True]
      by (auto simp: ExecutionResumes execution_resumes_def y exec_ids_def replace_nth_def split: option.split
          dest: in_set_takeD in_set_dropD)
  qed (simp add: ExecutionResumes execution_resumes_def)
next
  case (CreationResumes now n inp)
  show ?thesis
  proof (cases "n < length (r_creations r)")
    case True
    obtain y r' where y: "resume_creation (re_vault env) (re_cfg env) (re_tunnel env) now inp (r_creations r ! n) r = (y, r')"
      by (cases "resume_creation (re_vault env) (re_cfg env) (re_tunnel env) now inp (r_creations r ! n) r")
    show ?thesis using creation_own_step(3) [OF y] True by (simp add: CreationResumes creation_resumes_def y exec_ids_def)
  qed (simp add: CreationResumes creation_resumes_def)
qed (auto simp: runner_defs exec_ids_def Let_def split: option.split)

definition sent_ids :: "'k host \<Rightarrow> int set" where
  "sent_ids h = {i. \<exists>u d. ExecuteCall u d \<in> set (outbox h) \<and> i = task_id (d_task d) \<and> d_container d \<noteq> None}"

lemma sent_ids_known:
  assumes "known h" "i \<in> sent_ids h"
  shows "\<exists>t. get_task i h = Some t \<and> container_name t \<noteq> None"
proof -
  obtain u d where d: "ExecuteCall u d \<in> set (outbox h)" "i = task_id (d_task d)" "d_container d \<noteq> None"
    using assms(2) unfolding sent_ids_def by blast
  have "has_row (d_task d) h \<and> carries (ExecuteCall u d)" using assms(1) d(1) unfolding known_def by (metis dispatched.simps(1))
  then show ?thesis using d(2,3) by (auto simp: has_row_def task_spec.truncate_def)
qed

lemma sent_ids_calls: "i \<in> sent_ids h \<Longrightarrow> calls i h \<noteq> []"
  unfolding sent_ids_def calls_def filter_empty_conv by force

lemma received_id: "received_task d = Inr q \<Longrightarrow> er_task_id q = task_id (d_task d) \<and> d_container d \<noteq> None"
  by (auto simp: received_task_def Let_def split: option.splits)

lemma run_exec_ids: "exec_ids (fold (runner_step env) es r) \<subseteq> exec_ids r \<union> \<Union> (requested ` set es)"
proof (induction es arbitrary: r)
  case (Cons x es)
  show ?case using Cons.IH [of "runner_step env x r"] step_exec_ids [of env x r] by auto
qed simp

lemma cluster_exec_ids:
  "exec_ids (cl_runners (cluster_step E e c) n) \<subseteq> exec_ids (cl_runners c n) \<union> sent_ids (cl_host c)"
proof -
  have "\<Union> (requested ` set (runner_part E e n c)) \<subseteq> sent_ids (cl_host c)"
  proof (cases e)
    case (OnRunner m x)
    then show ?thesis by (cases x) simp_all
  next
    case (TaskArrives k ok now)
    show ?thesis
    proof (cases "arriving E k n c")
      case (Some q)
      then obtain u d where d: "k < length (outbox (cl_host c))" "outbox (cl_host c) ! k = ExecuteCall u d" "received_task d = Inr q"
        by (auto simp: arriving_def split: if_splits runner_call.splits sum.splits)
      have "ExecuteCall u d \<in> set (outbox (cl_host c))" using nth_mem [OF d(1)] d(2) by simp
      then have "er_task_id q \<in> sent_ids (cl_host c)" using received_id [OF d(3)] unfolding sent_ids_def by blast
      then show ?thesis using TaskArrives Some by simp
    qed (simp add: TaskArrives)
  qed auto
  then show ?thesis unfolding cluster_step_parts using run_exec_ids [of "ce_runner E n" "runner_part E e n c" "cl_runners c n"] by blast
qed

text \<open>Every execution belongs to a row of the host that names a container: the runner refuses a request
  without one.\<close>

definition sent_first :: "('k, 's) cluster \<Rightarrow> bool" where
  "sent_first c \<longleftrightarrow> tasks_keyed (cl_host c) \<and> known (cl_host c) \<and>
     (\<forall>n. \<forall>i \<in> exec_ids (cl_runners c n). \<exists>t. get_task i (cl_host c) = Some t \<and> container_name t \<noteq> None)"

definition cluster_init :: "('k, 's) cluster \<Rightarrow> bool" where
  "cluster_init c \<longleftrightarrow> host_init (cl_host c) \<and>
     (\<forall>n. r_execs (cl_runners c n) = [] \<and> r_creations (cl_runners c n) = [] \<and> r_reports (cl_runners c n) = [])"

lemma host_known:
  "tasks_keyed h \<and> known h \<Longrightarrow> tasks_keyed (fold (host_step env) es h) \<and> known (fold (host_step env) es h)"
  by (rule known.run_keeps)

interpretation sent: machine cluster_init "cluster_step E" sent_first for E :: "('k, 's) cluster_env"
proof unfold_locales
  show "sent_first c" if "cluster_init c" for c :: "('k, 's) cluster"
    using that by (simp add: cluster_init_def sent_first_def host_init_def known_def exec_ids_def)
  show "sent_first (cluster_step E e c)" if c: "sent_first c" for e and c :: "('k, 's) cluster"
  proof -
    have k: "tasks_keyed (cl_host c)" "known (cl_host c)" using c by (simp_all add: sent_first_def)
    have "\<exists>t. get_task i (cl_host c) = Some t \<and> container_name t \<noteq> None" if "i \<in> exec_ids (cl_runners (cluster_step E e c) n)" for i n
      using cluster_exec_ids [of E e c n] that c sent_ids_known [OF k(2)] unfolding sent_first_def by blast
    then have "\<exists>t. get_task i (fold (host_step (ce_host E)) (host_part E e c) (cl_host c)) = Some t \<and> container_name t \<noteq> None"
      if "i \<in> exec_ids (cl_runners (cluster_step E e c) n)" for i n
      using that row_spec_stays [OF k, of i _ "ce_host E" "host_part E e c"] by (fastforce simp: task_spec.truncate_def)
    then show ?thesis using host_known [of "cl_host c" "ce_host E" "host_part E e c"] k
      by (simp add: sent_first_def del: cluster_step_parts(2))
  qed
qed

fun cluster_approves :: "int \<Rightarrow> cluster_event \<Rightarrow> bool" where
  "cluster_approves i (OnHost e) = approves i e"
| "cluster_approves i e = False"

definition held_back :: "int \<Rightarrow> ('k, 's) cluster \<Rightarrow> bool" where
  "held_back i c \<longleftrightarrow> tasks_keyed (cl_host c) \<and> (gated i (cl_host c) \<and> calls i (cl_host c) = []) \<and> (\<forall>n. i \<notin> exec_ids (cl_runners c n))"

lemma held_back_step:
  assumes "held_back i c" "\<not> cluster_approves i e"
  shows "held_back i (cluster_step E e c)"
proof -
  have "tasks_keyed (cl_host (cluster_step E e c)) \<and>
      (gated i (cl_host (cluster_step E e c)) \<and> calls i (cl_host (cluster_step E e c)) = [])"
  proof (rule cluster_host_keeps)
    fix x and h :: "'a host"
    assume h: "tasks_keyed h \<and> (gated i h \<and> calls i h = [])" and x: "host_part E e c = [x]"
    have "\<not> approves i x" using x assms(2) by (cases e) (auto simp: Let_def split: if_splits option.splits)
    then show "tasks_keyed (host_step (ce_host E) x h) \<and> (gated i (host_step (ce_host E) x h) \<and> calls i (host_step (ce_host E) x h) = [])"
      using h approval.held_step [of h i "[]" x "ce_host E"] host_step_keyed [of h "ce_host E" x] by blast
  qed (use assms(1) in \<open>simp add: held_back_def\<close>)
  moreover have "i \<notin> exec_ids (cl_runners (cluster_step E e c) n)" for n
    using cluster_exec_ids [of E e c n] assms(1) sent_ids_calls [of i "cl_host c"] unfolding held_back_def by blast
  ultimately show ?thesis by (simp add: held_back_def)
qed

lemma held_back_run:
  "held_back i c \<Longrightarrow> list_all (\<lambda>e. \<not> cluster_approves i e) es \<Longrightarrow> held_back i (fold (cluster_step E) es c)"
  by (induction es arbitrary: c) (auto intro: held_back_step)

text \<open>C5: what no operator approved runs nowhere.  In a run of the host and its runners, after a user of
  role \<open>user\<close> submitted a command task, no runner ever has an execution of it before an operator approves
  it, whatever the users, the runners, the reports and the heartbeats do.\<close>

theorem unapproved_runs_nowhere:
  assumes "cluster_init c0" "c = fold (cluster_step E) es c0" "get_task i (cl_host c) = None" "role u = ''user''"
    and "c1 = cluster_step E (OnHost (Submit now rnd ids u rq)) c" "get_task i (cl_host c1) = Some t" "\<not> is_vps t"
    and "list_all (\<lambda>e. \<not> cluster_approves i e) es'"
  shows "execs_of i (cl_runners (fold (cluster_step E) es' c1) n) = []"
proof -
  have c: "sent_first c" using sent.run_inv [OF assms(1), of E es] assms(2) by simp
  then have k: "tasks_keyed (cl_host c)" "known (cl_host c)" and new: "\<And>n. i \<notin> exec_ids (cl_runners c n)"
    using assms(3) unfolding sent_first_def by fastforce+
  have h1: "cl_host c1 = host_step (ce_host E) (Submit now rnd ids u rq) (cl_host c)" "\<And>n. cl_runners c1 n = cl_runners c n"
    by (simp_all add: assms(5) del: host_step.simps)
  have "gated i (cl_host c1) \<and> calls i (cl_host c1) = []"
    by (rule submitted_gated [OF k assms(3,4) h1(1) assms(6,7)])
  then have "held_back i c1" using new h1 host_step_keyed [OF k(1)] by (simp add: held_back_def del: host_step.simps)
  from held_back_run [OF this assms(8), of E] show ?thesis by (simp add: held_back_def execs_of_ids)
qed


text \<open>C35: a task that names no container never runs.  The row of a command task submitted with a registry
  image has no container name, and the request sent to the runner says so; but the runner's request type needs
  a name and refuses the request.  So in every run of the host and its runners, no runner ever has an
  execution of such a task.\<close>

theorem registry_task_never_runs:
  assumes "cluster_init c0" "c = fold (cluster_step E) es c0" "get_task i (cl_host c) = Some t" "container_name t = None"
  shows "execs_of i (cl_runners c n) = []"
proof -
  have "sent_first c" using sent.run_inv [OF assms(1), of E es] assms(2) by simp
  then have "i \<notin> exec_ids (cl_runners c n)" using assms(3,4) unfolding sent_first_def by fastforce
  then show ?thesis by (simp add: execs_of_ids)
qed


section \<open>Examples\<close>

text \<open>The small host with one runner, which may wait for the container of task 5.\<close>

definition demo_cluster_env :: "(unit, (string, task_state) dict) cluster_env" where
  "demo_cluster_env = \<lparr>ce_host = demo_env, ce_runner = (\<lambda>n. demo_runner_env),
     ce_at = (\<lambda>u. if u = ''http://alpha:8001'' then Some ''alpha'' else None)\<rparr>"

definition demo_idle :: "(unit, (string, task_state) dict) cluster" where
  "demo_idle = \<lparr>cl_host = demo_host, cl_runners = (\<lambda>n. idle_runner)\<rparr>"

definition demo_waiting :: "(string, task_state) dict runner" where
  "demo_waiting = idle_runner\<lparr>r_execs := [demo_execution AwaitExit], r_store := demo_stored\<rparr>"

definition demo_busy :: "(unit, (string, task_state) dict) cluster" where
  "demo_busy = \<lparr>cl_host = demo_host, cl_runners = (\<lambda>n. if n = ''alpha'' then demo_waiting else idle_runner)\<rparr>"

abbreviation demo_submit_5 :: "user \<Rightarrow> host_event" where
  "demo_submit_5 u \<equiv> Submit 0 (\<lambda>_ _. 0) (\<lambda>_. 5) u (demo_request ''command'' None)"

definition demo_final :: status_update where
  "demo_final = (bare_update ''completed'')\<lparr>su_exit_code := Some 0, su_started_at := Some 10, su_completed_at := Some 20\<rparr>"

lemma demo_exit:
  "r_reports (runner_step demo_runner_env (ExecutionResumes 20 0 (Exited 0 None)) demo_waiting) = [(5, demo_final)]"
  using demo_ids
  by (auto simp: demo_waiting_def demo_runner_env_def idle_runner_def execution_resumes_def resume_execution_def demo_execution_def
      interpret_exit_code_def demo_final_def bare_update_def Let_def)

lemma demo_cluster_init: "cluster_init demo_idle"
  by (simp add: cluster_init_def demo_idle_def demo_host_init idle_runner_def)

lemma completed_means_exited_zero_witness:
  "\<exists>es1 n now k err es2. [OnHost (demo_submit_5 demo_operator), OnRunner ''alpha'' (ExecutionResumes 20 0 (Exited 0 None)),
      ReportArrives ''alpha'' 0 21] = es1 @ OnRunner n (ExecutionResumes now k (Exited 0 err)) # es2"
proof -
  let ?es = "[OnHost (demo_submit_5 demo_operator), OnRunner ''alpha'' (ExecutionResumes 20 0 (Exited 0 None)), ReportArrives ''alpha'' 0 21]"
  have h: "cl_host (fold (cluster_step demo_cluster_env) ?es demo_busy) =
      fold (host_step demo_env) [demo_submit_5 demo_operator, StatusUpdate 21 5 demo_final] demo_host"
    using demo_exit by (simp add: demo_busy_def demo_cluster_env_def del: host_step.simps runner_step.simps)
  have "case get_task 5 (fold (host_step demo_env) [demo_submit_5 demo_operator, StatusUpdate 21 5 demo_final] demo_host) of
      None \<Rightarrow> False | Some t \<Rightarrow> status t = ''completed''" by code_simp
  then obtain t where "get_task 5 (cl_host (fold (cluster_step demo_cluster_env) ?es demo_busy)) = Some t" "status t = ''completed''"
    unfolding h by (blast dest: case_SomeD)
  from completed_means_exited_zero [OF _ _ _ this] show ?thesis
    by (fastforce simp: demo_busy_def demo_host_init demo_waiting_def idle_runner_def)
qed

lemma unapproved_runs_nowhere_witness:
  "execs_of 5 (cl_runners (fold (cluster_step demo_cluster_env) [TaskArrives 0 True 5, OnRunner ''alpha'' (KilledTask 5 ''oom''),
      OnHost (Approve 6 demo_user 5)] (cluster_step demo_cluster_env (OnHost (demo_submit_5 demo_user)) demo_idle)) ''alpha'') = []"
proof -
  have h: "cl_host (cluster_step demo_cluster_env (OnHost (demo_submit_5 demo_user)) demo_idle) = host_step demo_env (demo_submit_5 demo_user) demo_host"
    by (simp add: demo_idle_def demo_cluster_env_def del: host_step.simps)
  have "case get_task 5 (host_step demo_env (demo_submit_5 demo_user) demo_host) of None \<Rightarrow> False | Some t \<Rightarrow> \<not> is_vps t" by code_simp
  then obtain t where t: "get_task 5 (cl_host (cluster_step demo_cluster_env (OnHost (demo_submit_5 demo_user)) demo_idle)) = Some t" "\<not> is_vps t"
    unfolding h by (blast dest: case_SomeD)
  have "get_task 5 (cl_host demo_idle) = None" "role demo_user = ''user''"
    "list_all (\<lambda>e. \<not> cluster_approves 5 e) [TaskArrives 0 True 5, OnRunner ''alpha'' (KilledTask 5 ''oom''), OnHost (Approve 6 demo_user 5)]"
    by code_simp+
  show ?thesis
    by (rule unapproved_runs_nowhere [OF demo_cluster_init _ \<open>get_task 5 (cl_host demo_idle) = None\<close> \<open>role demo_user = ''user''\<close> refl t,
          where es = "[]"]) (simp, fact)
qed

lemma registry_task_never_runs_witness:
  "execs_of 5 (cl_runners (fold (cluster_step demo_cluster_env) [OnHost (demo_submit_5 demo_operator), TaskArrives 0 True 5] demo_idle) ''alpha'') = []"
proof -
  let ?es = "[OnHost (demo_submit_5 demo_operator), TaskArrives 0 True 5]"
  have h: "cl_host (fold (cluster_step demo_cluster_env) ?es demo_idle) = host_step demo_env (demo_submit_5 demo_operator) demo_host"
    by (simp add: demo_idle_def demo_cluster_env_def del: host_step.simps)
  have "case get_task 5 (host_step demo_env (demo_submit_5 demo_operator) demo_host) of None \<Rightarrow> False
      | Some t \<Rightarrow> container_name t = None \<and> registry_image t = Some ''img''" by code_simp
  then obtain t where "get_task 5 (cl_host (fold (cluster_step demo_cluster_env) ?es demo_idle)) = Some t" "container_name t = None"
    unfolding h by (blast dest: case_SomeD)
  from registry_task_never_runs [OF demo_cluster_init refl this] show ?thesis .
qed

end
