(* ===== verification/Lost_Reports.thy ===== *)
theory Lost_Reports
  imports Cluster
begin

text \<open>
  What happens to a task whose last report does not reach the host.  \<^verbatim>\<open>report_status_to_host\<close> of
  \<^verbatim>\<open>runner/services/task_executor.py\<close> logs an error and drops the report; the heartbeats of the runner no
  longer list the task, but the host compares them with its assigning and pending tasks only.
\<close>

section \<open>Runners that do not name a task killed\<close>

definition unmentioned :: "int \<Rightarrow> 's runner \<Rightarrow> bool" where
  "unmentioned i r \<longleftrightarrow> i \<notin> fst ` set (r_killed r) \<and> i \<notin> fst ` set (beat_of r)"

fun kills :: "int \<Rightarrow> runner_event \<Rightarrow> bool" where
  "kills i (KilledTask j reason) \<longleftrightarrow> j = i"
| "kills i e \<longleftrightarrow> False"

lemma same_queue_unmentioned: "same_queue r r' \<Longrightarrow> unmentioned i r' = unmentioned i r"
  by (simp add: same_queue_def unmentioned_def beat_of_def)

lemma step_unmentioned:
  assumes "unmentioned i r" "\<not> kills i e"
  shows "unmentioned i (runner_step env e r)"
proof (cases e)
  case (ExecutionResumes now n inp)
  then have "same_queue r (runner_step env e r)"
    using resume_execution_queue [of r "re_vault env" "re_cfg env" "re_tunnel env" "re_topology env" now inp "r_execs r ! n"]
    by (auto simp: execution_resumes_def same_queue_def split: prod.split)
  then show ?thesis using assms(1) by (simp add: same_queue_unmentioned)
next
  case (CreationResumes now n inp)
  then have "same_queue r (runner_step env e r)"
    using resume_creation_queue [of r "re_vault env" "re_cfg env" "re_tunnel env" now inp "r_creations r ! n"]
    by (auto simp: creation_resumes_def same_queue_def split: prod.split)
  then show ?thesis using assms(1) by (simp add: same_queue_unmentioned)
next
  case (HeartbeatTick built)
  then show ?thesis using assms(1) by (auto simp: begin_heartbeat_def unmentioned_def beat_of_def split: option.split)
next
  case (HeartbeatAnswer ok)
  then show ?thesis using assms(1) by (auto simp: finish_heartbeat_def unmentioned_def beat_of_def split: option.split)
qed (use assms in \<open>auto simp: runner_defs unmentioned_def beat_of_def Let_def split: option.split\<close>)

lemma run_unmentioned:
  "unmentioned i r \<Longrightarrow> \<forall>e \<in> set es. \<not> kills i e \<Longrightarrow> unmentioned i (fold (runner_step env) es r)"
  by (induction es arbitrary: r) (auto intro: step_unmentioned)

lemma payload_killed: "heartbeat_payload E n c = Some (running, killed) \<Longrightarrow> killed = r_killed (cl_runners c n)"
  by (auto simp: heartbeat_payload_def begin_heartbeat_def split: option.splits if_splits)

section \<open>Runs that pass a running task by\<close>

text \<open>An event that does not concern task \<open>i\<close>: no user's request, no report or new request of it, no kill
  by its runner, and no pass of the monitor that finds its node dead, or goes on with it among the dead
  nodes still to come.  Heartbeats of every runner may come.\<close>

fun passes_by :: "('k, 's) cluster_env \<Rightarrow> int \<Rightarrow> cluster_event \<Rightarrow> ('k, 's) cluster \<Rightarrow> bool" where
  "passes_by E i (OnHost (MonitorPass now)) c \<longleftrightarrow>
     (case get_task i (cl_host c) of
        None \<Rightarrow> True
      | Some t \<Rightarrow> \<not> on_node (stale (env_cfg (ce_host E)) now) (node_of (cl_host c) t))"
| "passes_by E i (OnHost (ReplyArrives now k r)) c \<longleftrightarrow>
     (k < length (suspended (cl_host c)) \<longrightarrow>
        (case suspended (cl_host c) ! k of
           AwaitOverlayLock x ns \<Rightarrow>
             (case get_task i (cl_host c) of
                None \<Rightarrow> True
              | Some t \<Rightarrow> list_all (\<lambda>n. assigned_node t \<noteq> Some (hostname n)) ns)
         | _ \<Rightarrow> False))"
| "passes_by E i (OnHost (StatusUpdate now j u)) c \<longleftrightarrow> j \<noteq> i"
| "passes_by E i (OnHost e) c \<longleftrightarrow> False"
| "passes_by E i (OnRunner m e) c \<longleftrightarrow> \<not> asks_for i e \<and> \<not> kills i e"
| "passes_by E i (TaskArrives k ok now) c \<longleftrightarrow> (k < length (outbox (cl_host c)) \<longrightarrow>
     (case dispatched (outbox (cl_host c) ! k) of None \<Rightarrow> True | Some t \<Rightarrow> task_id t \<noteq> i))"
| "passes_by E i (ReportArrives n k now) c \<longleftrightarrow>
     (k < length (r_reports (cl_runners c n)) \<longrightarrow> fst (r_reports (cl_runners c n) ! k) \<noteq> i)"
| "passes_by E i (Beat n now rq ok) c \<longleftrightarrow> True"

fun all_pass_by :: "('k, 's) cluster_env \<Rightarrow> int \<Rightarrow> cluster_event list \<Rightarrow> ('k, 's) cluster \<Rightarrow> bool" where
  "all_pass_by E i [] c \<longleftrightarrow> True"
| "all_pass_by E i (e # es) c \<longleftrightarrow> passes_by E i e c \<and> all_pass_by E i es (cluster_step E e c)"

definition runs_on :: "int \<Rightarrow> task \<Rightarrow> 'k host \<Rightarrow> bool" where
  "runs_on i t h \<longleftrightarrow> tasks_keyed h \<and> keyed hostname (nodes h) \<and> get_task i h = Some t \<and> status t = ''running''"

lemma beat_runs_on:
  assumes "runs_on i t h" "i \<notin> fst ` set (hb_killed rq)"
  shows "runs_on i t (host_step env (NodeHeartbeat now n rq) h)"
proof (cases "get_node n h")
  case None
  then show ?thesis using assms(1) by (simp add: heartbeat_def)
next
  case (Some nd)
  have h: "tasks_keyed h" "keyed hostname (nodes h)" "get_task i h = Some t" "status t = ''running''" using assms(1) by (simp_all add: runs_on_def)
  have "task_id t = i" by (rule row_id [OF h(1,3)])
  then have "heartbeat_after (env_cfg env) now n rq t = t"
    using unmentioned_kill [of t "hb_killed rq" now] assms(2) h(4)
    by (simp add: heartbeat_after_def assigning_after_def pending_after_def)
  then show ?thesis
    using heartbeat_row [OF h(1), of n i env now rq] Some h host_step_keyed [OF h(1)] heartbeat_keeps_keyed [OF h(2)]
    by (simp add: runs_on_def del: host_step.simps)
qed

lemma monitor_runs_on:
  assumes "runs_on i t h" "\<not> on_node (stale (env_cfg env) now) (node_of h t)"
  shows "runs_on i t (host_step env (MonitorPass now) h)"
proof -
  have h: "tasks_keyed h" "keyed hostname (nodes h)" "get_task i h = Some t" "status t = ''running''" using assms(1) by (simp_all add: runs_on_def)
  have k: "tasks_keyed (host_step env (MonitorPass now) h)" by (rule host_step_keyed [OF h(1)])
  have "\<forall>n \<in> set (find_dead_nodes (env_cfg env) now h). assigned_node t \<noteq> Some (hostname n)"
    using assms(2) by (auto simp: find_dead_mem [OF h(2)] on_node_def node_of_def)
  from monitor_nodes_running [OF h this, of "env_cfg env" now] h k show ?thesis
    by (simp add: runs_on_def check_dead_runners_def)
qed

lemma monitor_goes_on:
  assumes "runs_on i t h" "k < length (suspended h)" "suspended h ! k = AwaitOverlayLock x ns"
    and "\<forall>n \<in> set ns. assigned_node t \<noteq> Some (hostname n)"
  shows "runs_on i t (host_step env (ReplyArrives now k r) h)"
proof -
  have h: "tasks_keyed h" "keyed hostname (nodes h)" "get_task i h = Some t" "status t = ''running''" using assms(1) by (simp_all add: runs_on_def)
  let ?g = "mark_overlay_inactive (env_cfg env) x (h\<lparr>suspended := remove_nth k (suspended h)\<rparr>)"
  have g: "tasks_keyed ?g" "keyed hostname (nodes ?g)" "get_task i ?g = Some t"
    using h by (simp_all add: get_task_def) (simp add: mark_overlay_inactive_def split: option.split)
  have k: "tasks_keyed (host_step env (ReplyArrives now k r) h)" by (rule host_step_keyed [OF h(1)])
  from monitor_nodes_running [OF g h(4) assms(4), of "env_cfg env" now] h(4) k assms(2,3) show ?thesis
    by (simp add: runs_on_def reply_arrives_def resume_handler_def finish_mark_inactive_def)
qed

lemma update_runs_on: "runs_on i t h \<Longrightarrow> j \<noteq> i \<Longrightarrow> runs_on i t (host_step env (StatusUpdate now j u) h)"
proof -
  assume r: "runs_on i t h" and j: "j \<noteq> i"
  have "nodes (snd (update_task_status now j u h)) = nodes h"
    by (simp add: update_task_status_def Let_def schedule_ip_release_def split: option.split)
  then show ?thesis using r j update_other_row [of h i j now u] host_step_keyed [of h env "StatusUpdate now j u"]
    by (simp add: runs_on_def)
qed

definition forgotten :: "('k, 's) cluster_env \<Rightarrow> string \<Rightarrow> int \<Rightarrow> task \<Rightarrow> status_update list \<Rightarrow> ('k, 's) cluster \<Rightarrow> bool" where
  "forgotten E n i t us c \<longleftrightarrow> runs_on i t (cl_host c) \<and> (\<forall>m. unmentioned i (cl_runners c m)) \<and>
     hushed (re_vault (ce_runner E n)) i (cl_runners c n) \<and> execs_of i (cl_runners c n) = [] \<and> reports_of i (cl_runners c n) = us"

lemma runner_part_passes:
  assumes "passes_by E i e c" "x \<in> set (runner_part E e n c)"
  shows "\<not> asks_for i x \<and> \<not> kills i x"
proof (cases e)
  case (OnRunner m y)
  then show ?thesis using assms by (simp split: if_splits)
next
  case (TaskArrives k ok now)
  then show ?thesis using assms
    by (auto simp: arriving_def split: option.splits if_splits runner_call.splits sum.splits dest: received_id)
next
  case (Beat m now rq ok)
  then show ?thesis using assms by (auto split: if_splits)
qed (use assms in simp_all)

lemma forgotten_step:
  assumes V: "kvault_ok (re_vault (ce_runner E n))" and f: "forgotten E n i t us c" and p: "passes_by E i e c"
  shows "forgotten E n i t us (cluster_step E e c)"
proof -
  have r: "runs_on i t (cl_host c)" and un: "\<And>m. unmentioned i (cl_runners c m)"
    and hu: "hushed (re_vault (ce_runner E n)) i (cl_runners c n)" "execs_of i (cl_runners c n) = []" "reports_of i (cl_runners c n) = us"
    using f by (simp_all add: forgotten_def)
  have "runs_on i t (cl_host (cluster_step E e c))"
  proof (cases e)
    case (OnHost x)
    show ?thesis
    proof (cases "\<exists>now k rp. x = ReplyArrives now k rp")
      case True
      then obtain now k rp where x: "x = ReplyArrives now k rp" by blast
      show ?thesis
      proof (cases "k < length (suspended (cl_host c))")
        case k: True
        then obtain y ns where "suspended (cl_host c) ! k = AwaitOverlayLock y ns"
          "\<forall>n \<in> set ns. assigned_node t \<noteq> Some (hostname n)"
          using p OnHost x r by (auto simp: runs_on_def list_all_iff split: await.splits)
        from monitor_goes_on [OF r k this] OnHost x show ?thesis by (simp del: host_step.simps)
      qed (use r OnHost x in \<open>simp add: reply_arrives_def\<close>)
    next
      case False
      then show ?thesis using OnHost p r update_runs_on [OF r] monitor_runs_on [OF r]
        by (cases x) (auto simp del: host_step.simps simp: runs_on_def split: option.splits)
    qed
  next
    case (ReportArrives m k now)
    then show ?thesis using p r update_runs_on [OF r] by (auto simp: Let_def simp del: host_step.simps)
  next
    case (Beat m now rq ok)
    then show ?thesis using r un [of m]
      by (auto simp: unmentioned_def simp del: host_step.simps split: option.splits dest!: payload_killed intro!: beat_runs_on)
  qed (use r in simp_all)
  moreover have "unmentioned i (cl_runners (cluster_step E e c) m)" for m
  proof -
    have "\<forall>x \<in> set (runner_part E e m c). \<not> kills i x" using runner_part_passes [OF p] by blast
    then show ?thesis using un [of m] unfolding cluster_step_parts(2) by (blast intro: run_unmentioned)
  qed
  moreover have "hushed (re_vault (ce_runner E n)) i (cl_runners (cluster_step E e c) n) \<and>
      execs_of i (cl_runners (cluster_step E e c) n) = [] \<and> reports_of i (cl_runners (cluster_step E e c) n) = us"
    using task_vault.steps_hushed [OF task_vault_of [OF V] refl hu(1), of "runner_part E e n c"] hu(2,3) runner_part_passes [OF p]
    by (auto simp: list_all_iff)
  ultimately show ?thesis by (simp add: forgotten_def)
qed

lemma forgotten_run:
  "kvault_ok (re_vault (ce_runner E n)) \<Longrightarrow> forgotten E n i t us c \<Longrightarrow> all_pass_by E i es c \<Longrightarrow>
   forgotten E n i t us (fold (cluster_step E) es c)"
  by (induction es arbitrary: c) (auto intro: forgotten_step)

text \<open>C36: a task whose last report is lost runs for ever on the host.  Its container ends, the runner sends
  the final report and drops the task from its store; if this one report does not arrive, the task stays
  \<open>running\<close> on the host, and the runner reports nothing more of it, through all later heartbeats of
  any runner, passes of the monitor that do not find the task's node dead, reports of other tasks and
  requests to the runners for other tasks, as long as nothing else reaches the host (no request of a user,
  no awaited answer, no registration of a node) and no runner names the task killed or is asked to run or
  kill it.\<close>

theorem lost_final_report_runs_forever:
  assumes "kvault_ok (re_vault (ce_runner E n))" "runs_on i t (cl_host c)" "\<forall>m. unmentioned i (cl_runners c m)"
    and "k < length (r_execs (cl_runners c n))" "execs_of i (cl_runners c n) = [x]" "creations_of i (cl_runners c n) = []"
    and "r_execs (cl_runners c n) ! k = x" "ex_stage x = AwaitExit" "stored_task (re_vault (ce_runner E n)) i (r_store (cl_runners c n)) \<noteq> None"
    and "c1 = cluster_step E (OnRunner n (ExecutionResumes now k (Exited code err))) c" "all_pass_by E i es c1"
    and "c' = fold (cluster_step E) es c1"
  shows "get_task i (cl_host c') = Some t \<and> status t = ''running'' \<and>
    stored_task (re_vault (ce_runner E n)) i (r_store (cl_runners c' n)) = None \<and>
    (\<exists>u. reports_of i (cl_runners c' n) = reports_of i (cl_runners c n) @ [u] \<and>
       su_status u = fst (interpret_exit_code code err) \<and> su_completed_at u = Some now)"
proof -
  let ?V = "re_vault (ce_runner E n)" and ?r = "cl_runners c n" and ?e = "ExecutionResumes now k (Exited code err)"
  let ?r1 = "runner_step (ce_runner E n) ?e ?r"
  have i: "er_task_id (ex_request x) = i" using assms(5) by (auto simp: execs_of_def filter_eq_Cons_iff)
  obtain s where s: "stored_task ?V i (r_store ?r) = Some s" using assms(9) by blast
  obtain st msg where m: "interpret_exit_code code err = (st, msg)" by fastforce
  let ?u = "(bare_update st)\<lparr>su_exit_code := Some code, su_message := msg, su_started_at := Some (ex_start x), su_completed_at := Some now\<rparr>"
  have r1: "?r1 = (report_status_to_host i ?u (?r\<lparr>r_store := snd (remove_task ?V i (r_store ?r))\<rparr>))\<lparr>r_execs := replace_nth k None (r_execs ?r)\<rparr>"
    using assms(4,7,8) s m i by (simp add: execution_resumes_def resume_execution_def Let_def)
  have "filter (\<lambda>x. er_task_id (ex_request x) = i) (replace_nth k None (r_execs ?r)) = []"
    using filter_replaced_only(2) [OF assms(4), of "\<lambda>x. er_task_id (ex_request x) = i" x None] assms(5,7) i by (simp add: execs_of_def)
  then have h: "hushed ?V i ?r1" "execs_of i ?r1 = []" "reports_of i ?r1 = reports_of i ?r @ [?u]"
    using assms(6) vault.remove_task_simps(2) [OF task_vault.axioms [OF task_vault_of [OF assms(1)]]]
    unfolding r1 hushed_def execs_of_def creations_of_def reports_of_def by simp_all
  have "unmentioned i (cl_runners c1 m)" for m
    using assms(3) step_unmentioned [of i "cl_runners c n" ?e "ce_runner E n"] by (auto simp: assms(10))
  then have "forgotten E n i t (reports_of i ?r @ [?u]) c1"
    using assms(2) h unfolding forgotten_def assms(10) by simp
  from forgotten_run [OF assms(1) this assms(11)] show ?thesis
    by (auto simp: forgotten_def runs_on_def hushed_def assms(12) m bare_update_def)
qed


text \<open>The example: task 5 is submitted, its runner reports that it runs, and the final report is lost.\<close>

definition demo_running_host :: "unit host" where
  "demo_running_host = fold (host_step demo_env) [demo_submit_5 demo_operator, StatusUpdate 9 5 (running_report 10)] demo_host"

lemma lost_final_report_runs_forever_witness:
  "\<exists>t. status t = ''running'' \<and> get_task 5 (cl_host (fold (cluster_step demo_cluster_env)
      [OnRunner ''alpha'' (ExecutionResumes 20 0 (Exited 0 None)), OnHost (MonitorPass 26), Beat ''alpha'' 30 (demo_beat []) True]
      (demo_busy\<lparr>cl_host := demo_running_host\<rparr>))) = Some t"
proof -
  let ?c = "demo_busy\<lparr>cl_host := demo_running_host\<rparr>"
  let ?c1 = "cluster_step demo_cluster_env (OnRunner ''alpha'' (ExecutionResumes 20 0 (Exited 0 None))) ?c"
  have "case get_task 5 demo_running_host of None \<Rightarrow> False | Some t \<Rightarrow> status t = ''running''" by code_simp
  then obtain t where t: "get_task 5 demo_running_host = Some t" "status t = ''running''" by (blast dest: case_SomeD)
  have k: "tasks_keyed demo_running_host" unfolding demo_running_host_def using known.run_inv [OF demo_host_init] by blast
  have nodes: "nodes demo_running_host = nodes demo_host" by code_simp
  then have on: "runs_on 5 t (cl_host ?c)" using t k by (simp add: runs_on_def demo_host_def demo_node_def keyed_def dict_ok_def)
  have pass: "all_pass_by demo_cluster_env 5 [OnHost (MonitorPass 26), Beat ''alpha'' 30 (demo_beat []) True] ?c1"
  proof -
    have "case get_task 5 demo_running_host of None \<Rightarrow> True
        | Some t \<Rightarrow> \<not> on_node (stale (env_cfg demo_env) 26) (node_of demo_running_host t)" by code_simp
    then show ?thesis using t by (simp add: demo_cluster_env_def node_of_def)
  qed
  have r: "cl_runners ?c ''alpha'' = demo_waiting" by (simp add: demo_busy_def)
  have w: "0 < length (r_execs demo_waiting)" "execs_of 5 demo_waiting = [demo_execution AwaitExit]" "creations_of 5 demo_waiting = []"
    "r_execs demo_waiting ! 0 = demo_execution AwaitExit" "ex_stage (demo_execution AwaitExit) = AwaitExit" "r_store demo_waiting = demo_stored"
    using demo_ids by (simp_all add: demo_waiting_def idle_runner_def execs_of_def creations_of_def demo_execution_def)
  have v: "re_vault (ce_runner demo_cluster_env ''alpha'') = dict_vault" by (simp add: demo_cluster_env_def demo_runner_env_def)
  have u: "\<forall>m. unmentioned 5 (cl_runners ?c m)"
    by (simp add: unmentioned_def beat_of_def demo_busy_def demo_waiting_def idle_runner_def)
  from lost_final_report_runs_forever [of demo_cluster_env "''alpha''" 5 t ?c 0 "demo_execution AwaitExit", unfolded r v,
      OF dict_vault_ok on u w(1-5) _ refl pass refl] w(6) demo_ids(7)
  show ?thesis by auto
qed

end
