(* ===== verification/Spec2Isabelle.thy ===== *)
theory Spec2Isabelle
  imports Tunnel_Properties Subnet_Properties IP_Properties Auth_Properties Docker_Naming Overlay_Properties
    Host_Addresses Node_Properties Monitor_Properties Command_Properties Runner_Properties Vps_Snapshots Vm_Properties
    Vm_Capability Gpu_Properties Startup_Properties Docker_Properties Env_Containers Lost_Reports
begin

text \<open>
  KohakuRiver runs command tasks, containers that one logs into (VPS) and virtual machines on the nodes of a
  small cluster.  One process is the \<^emph>\<open>host\<close> (\<^verbatim>\<open>src/kohakuriver/host\<close>): it keeps the tables of tasks, nodes and
  accounts, chooses a node for every task, plans the overlay network and hands out its addresses.  On every
  node a \<^emph>\<open>runner\<close> (\<^verbatim>\<open>src/kohakuriver/runner\<close>) runs what the host sends it with Docker or QEMU, reports the status
  of its tasks and sends a heartbeat.  Inside the containers a tunnel client carries port forwarding over one
  connection to the runner.  Paths below are relative to \<^verbatim>\<open>src/kohakuriver\<close>.

  \<^bold>\<open>How the code is modelled.\<close>  A class or table is a record, its methods are functions from its state to its
  state; an exception is the left part of a sum (\<open>pyexn\<close> of Prelude), so every \<^verbatim>\<open>raise\<close> and early return is a branch.
  A \<^verbatim>\<open>dict\<close> is an association list in insertion order.  Python's integers are \<open>int\<close>, times are integers of
  microseconds given as arguments, the bytes of the tunnel protocol are words of 8 bits, and IPv4 addresses are
  integers with the range checks of the \<^verbatim>\<open>ipaddress\<close> module.  A component is a deterministic machine (the locale
  \<open>machine\<close> of Prelude): an event is one piece of code that the model does not interrupt, a run is a list of
  events, and a theorem about \<open>fold step es\<close> for all \<open>es\<close> is about every order of them.

  \<^bold>\<open>Where the code is cut.\<close>  The handlers of the host and the executions of a runner are cut at every \<^verbatim>\<open>await\<close>
  after which they use what they read before it: the answer of a runner to a request, the end of a process,
  the monitor's wait for the overlay manager between two dead nodes.  What is held across the wait is a value of a
  datatype (\<open>await\<close>, \<open>exec_stage\<close>, \<open>vps_stage\<close>), and the answer is an event.  Coarser than the event loop are:
  handlers that wait for the lock of a manager or for a worker thread and write no table afterwards (registration
  and heartbeat of a node, the overlay endpoints, the reservation of addresses, whose lock is never kept across a
  wait); the operations of the overlay manager, which hold its lock throughout; and on a runner the life of
  virtual machines, images and snapshots, where each operation is one step.  What they do to each other when
  they overlap is not covered.

  \<^bold>\<open>The host.\<close>
  \<^item> Overlay_Subnet (over Ipv4): \<^verbatim>\<open>models/overlay_subnet.py\<close>, the address plan.  Overlay_Network:
    \<^verbatim>\<open>models/overlay_network.py\<close>.  Vxlan: \<^verbatim>\<open>host/services/overlay/vxlan.py\<close>.  Overlay_Manager:
    \<^verbatim>\<open>manager.py\<close>, \<^verbatim>\<open>models.py\<close> and \<^verbatim>\<open>recovery.py\<close> of \<^verbatim>\<open>host/services/overlay\<close>.  IP_Reservation:
    \<^verbatim>\<open>host/services/ip_reservation.py\<close>.
  \<^item> Db_Models: the task and node tables (\<^verbatim>\<open>db/task.py\<close>, \<^verbatim>\<open>db/node.py\<close>) and the host's state, record \<open>host\<close>:
    tables, suspended handlers, scheduled releases of addresses, requests sent.  Node_Manager, Task_Scheduler,
    Runner_Monitor, Node_Heartbeat, Overlay_Endpoints, Task_Control, Task_Submission, Vps_Lifecycle and
    Vm_Instances are the services and endpoints of the same names under \<^verbatim>\<open>host/services\<close>, \<^verbatim>\<open>host/background\<close> and
    \<^verbatim>\<open>host/endpoints\<close>; of Vm_Instances it is the deletion of an instance, which writes the task table.
  \<^item> Host_System puts them together as \<open>host_step\<close>.  Host_Lifecycle shows that a handler which reads a row and
    writes it moves it along \<open>moves\<close>; Host_Runs adds the handlers that write an instance read before a wait and
    states the interface \<open>row_law\<close>: what a statement about one task needs to hold over every run.
    Host_Properties, Host_Addresses, Node_Properties and Monitor_Properties interpret it or argue row by row.
  \<^item> Auth_Model and Auth_Routes: \<^verbatim>\<open>db/auth.py\<close>, \<^verbatim>\<open>host/auth\<close>; Auth_Properties: the account tables over every
    sequence of requests.
  \<^item> Env_Containers: \<^verbatim>\<open>host/endpoints/docker.py\<close>.

  \<^bold>\<open>A runner.\<close>
  \<^item> Vault_Store: \<^verbatim>\<open>storage/vault.py\<close>; the locale \<open>vault\<close> states the laws of the key-value library.  Runner_Config,
    Shell_Words, Container_Commands: the command lines, with a reader of POSIX shell words and of Docker's flags as
    the specification (Command_Properties).
  \<^item> Runner_Tasks: \<^verbatim>\<open>runner/services/task_executor.py\<close>, \<^verbatim>\<open>vps_creation.py\<close>, \<^verbatim>\<open>vps_manager.py\<close> and their endpoints as the
    machine \<open>runner_step\<close>, with the heartbeat loop (\<^verbatim>\<open>runner/background/heartbeat.py\<close>), which an exception ends;
    Runner_Properties: what it reports.  Vps_Snapshots: snapshots of VPS.
  \<^item> Vm_Network, Vfio, Vm_Capability, Qemu_Client, Vm_Vps: networks, graphics cards and life of virtual machines
    (\<^verbatim>\<open>runner/services/vm_network_manager.py\<close>, \<^verbatim>\<open>qemu\<close>, \<^verbatim>\<open>runner/services/vm_vps_manager.py\<close>), with Vm_Properties,
    Vfio_Properties, Qemu_Properties and Gpu_Properties.  Runner_Startup, Startup_Properties:
    \<^verbatim>\<open>runner/background/startup_check.py\<close>, where which recoveries of VMs raise is an argument.
  \<^item> Tunnel_Protocol, Tunnel_Server, Tunnel_Properties: \<^verbatim>\<open>tunnel/protocol.py\<close> and
    \<^verbatim>\<open>runner/services/tunnel_server.py\<close>.
  \<^item> Docker_Naming, Docker_Images, Docker_Sync, Docker_Properties: \<^verbatim>\<open>docker\<close>, and how an image saved by the host
    reaches the runners through the shared directory.  Iso_Stamps: how Python reads the daemon's time stamps.

  \<^bold>\<open>Together.\<close>  Cluster is the product of the host and any number of runners: requests sent arrive at the runner
  with their URL, reports arrive at the host late, repeatedly, out of order or never, heartbeats carry what the
  store of the runner lists.  Its theorems join the two sides: a task that shows as completed did exit with 0, what
  no operator approved runs nowhere, a task without a container name is refused by every runner.  Lost_Reports
  shows what the protocol does not repair.

  \<^bold>\<open>What the groups of lemmas show.\<close>  Invariants that hold over every run of a machine (address book, address
  plan, tables, accounts, addresses of VMs, cards of VMs, sessions of the tunnel); what an operation does on every
  branch, against a specification written independently (the best node, the monitor pass, the heartbeat, the
  status listing, the store as a map, the start-up check as a reconciliation); round trips (messages, shell
  words, snapshots); gates (roles, approval); and behaviour that is probably not intended, stated as a theorem
  about the code as it is.

  \<^bold>\<open>What is an argument.\<close>  The kernel (\<^verbatim>\<open>pyroute2\<close>, sysfs, tap devices, firewalld), Docker, QEMU's process and monitor,
  the key-value library, the password and token hashes, \<^verbatim>\<open>ssh-keygen\<close>, \<^verbatim>\<open>urlparse\<close>, random choices, snowflake ids and
  clocks.  Where a theorem relies on them, the laws are named hypotheses (\<open>docker_laws\<close>, \<open>token_lib_ok\<close>,
  \<open>kvault_ok\<close>, \<open>sqlite_ok\<close>, the locales \<open>pci_bus\<close>, \<open>pci_releases\<close>, \<open>vm_node\<close>, \<open>tap_kernel\<close>, \<open>image_store\<close>), each met by a
  concrete instance that the witnesses use.  They speak of calls that are done; what may be refused is a premise
  about the device in question (\<open>lets_go\<close>).

  \<^bold>\<open>Bounds.\<close>  All loops of the code end and are structural recursions or have a measure; the wait for a process to
  exit (\<open>wait_exit\<close>) is a recursion over the seconds of its timeout, as the code polls once a second.  The retries of a network
  attachment are left out: the commands appear once.

  \<^bold>\<open>Not modelled.\<close>  The command line client, the dashboards and the IDE (\<^verbatim>\<open>cli\<close>): argument parsing, HTTP calls and
  widgets, which keep no state of the cluster.  The SSH proxy and the terminals: they copy bytes.  File access
  in containers: every operation is a command run in the container.  The runner's overlay set-up
  (\<^verbatim>\<open>runner/services/overlay_manager.py\<close>): a sequence of kernel calls, whose only state is the table of its routing ids.  The text of
  cloud-init files, database set-up, log set-up, configuration loading, and the timer loops that call what is
  modelled.
\<close>

end
